(* ===== verification/Prelude.thy ===== *)
theory Prelude
  imports Main "HOL-Library.Word" "HOL-Library.Char_ord" "HOL-Library.List_Lexorder"
begin

text \<open>
  What every component of the development shares: the machine-integer types, the result type of
  fallible Rust functions, little- and big-endian byte strings with their round trips, the
  32-byte array type (ordered like \<^verbatim>\<open>[u8; 32]\<close>), and \<^verbatim>\<open>std::collections::BTreeMap\<close> as an
  executable, extensional type of strictly sorted association lists.

  Rust strings are \<^typ>\<open>string\<close>: the list of their UTF-8 bytes, one \<^typ>\<open>char\<close> per byte, so that
  the lexicographic order of \<^verbatim>\<open>HOL-Library.List_Lexorder\<close> is Rust's order on \<^verbatim>\<open>String\<close>.
\<close>

section \<open>Collections of facts\<close>

named_theorems bytes_simps \<open>encodings of integers and byte strings\<close>
named_theorems btree_simps \<open>lookups in an ordered map after an update\<close>

section \<open>Machine integers and results\<close>

type_synonym u8 = "8 word"
type_synonym u16 = "16 word"
type_synonym u32 = "32 word"
type_synonym u64 = "64 word"
type_synonym bytes = "u8 list"

text \<open>\<^verbatim>\<open>Result<T, E>\<close> is the sum \<open>'e + 'a\<close>; \<open>Inl\<close> is \<^verbatim>\<open>Err\<close>, \<open>Inr\<close> is \<^verbatim>\<open>Ok\<close>.\<close>

definition is_ok :: "'e + 'a \<Rightarrow> bool" where
  "is_ok r = (case r of Inl _ \<Rightarrow> False | Inr _ \<Rightarrow> True)"

definition res_bind :: "'e + 'a \<Rightarrow> ('a \<Rightarrow> 'e + 'b) \<Rightarrow> 'e + 'b" where
  "res_bind r f = (case r of Inl e \<Rightarrow> Inl e | Inr v \<Rightarrow> f v)"

definition map_err :: "('e \<Rightarrow> 'f) \<Rightarrow> 'e + 'a \<Rightarrow> 'f + 'a" where
  "map_err f r = (case r of Inl e \<Rightarrow> Inl (f e) | Inr v \<Rightarrow> Inr v)"

lemma res_simps [simp]:
  "is_ok (Inl e) = False" "is_ok (Inr v) = True"
  "res_bind (Inl e) f = Inl e" "res_bind (Inr v) f = f v"
  "map_err g (Inl e) = Inl (g e)" "map_err g (Inr v) = Inr v"
  by (simp_all add: is_ok_def res_bind_def map_err_def)

lemma res_bind_Inr_iff: "res_bind r f = Inr y \<longleftrightarrow> (\<exists>v. r = Inr v \<and> f v = Inr y)"
  by (cases r) simp_all

lemma is_ok_iff: "is_ok r \<longleftrightarrow> (\<exists>v. r = Inr v)"
  by (cases r) simp_all

text \<open>\<^verbatim>\<open>u32::saturating_add\<close>.\<close>

definition sat_add32 :: "u32 \<Rightarrow> u32 \<Rightarrow> u32" where
  "sat_add32 a b = (if unat a + unat b < 2 ^ 32 then a + b else - 1)"

lemma unat_max32: "unat (- 1 :: u32) = 2 ^ 32 - 1"
  by (simp add: unsigned_minus_1_eq_mask mask_eq_exp_minus_1)

lemma unat_sat_add32: "unat (sat_add32 a b) = min (unat a + unat b) (2 ^ 32 - 1)"
  by (auto simp: sat_add32_def unat_word_ariths unat_max32 min_def)

section \<open>Fixed-width integers as byte strings\<close>

text \<open>\<^verbatim>\<open>u64::to_le_bytes\<close> and its relatives: the \<open>n\<close> low bytes of a word, least significant first.\<close>

fun le_bytes :: "nat \<Rightarrow> 'a::len word \<Rightarrow> bytes" where
  "le_bytes 0 w = []"
| "le_bytes (Suc n) w = ucast w # le_bytes n (drop_bit 8 w)"

fun le_val :: "bytes \<Rightarrow> nat" where
  "le_val [] = 0"
| "le_val (b # bs) = unat b + 256 * le_val bs"

definition from_le :: "bytes \<Rightarrow> 'a::len word" where
  "from_le bs = of_nat (le_val bs)"

definition be_bytes :: "nat \<Rightarrow> 'a::len word \<Rightarrow> bytes" where
  "be_bytes n w = rev (le_bytes n w)"

definition from_be :: "bytes \<Rightarrow> 'a::len word" where
  "from_be bs = from_le (rev bs)"

lemma length_le_bytes [simp]: "length (le_bytes n w) = n"
  by (induction n arbitrary: w) simp_all

lemma length_be_bytes [simp]: "length (be_bytes n w) = n"
  by (simp add: be_bytes_def)

lemma unat_ucast_byte: "unat (ucast (w :: 'a::len word) :: u8) = unat w mod 256"
  by (simp add: unsigned_ucast_eq take_bit_eq_mod unsigned_of_nat)

lemma unat_drop_byte: "unat (drop_bit 8 (w :: 'a::len word)) = unat w div 256"
  by (simp only: unat_drop_bit_eq drop_bit_eq_div[where 'a = nat]) simp

lemma unat_byte_less: "unat (b :: u8) < 256"
  using unsigned_less[of b] by simp

lemma le_val_le_bytes: "le_val (le_bytes n w) = unat w mod 256 ^ n"
proof (induction n arbitrary: w)
  case (Suc n)
  have "le_val (le_bytes (Suc n) w) = unat w mod 256 + 256 * ((unat w div 256) mod 256 ^ n)"
    by (simp only: le_bytes.simps le_val.simps Suc unat_ucast_byte unat_drop_byte)
  also have "\<dots> = unat w mod 256 ^ Suc n"
    by (simp add: mod_mult2_eq add.commute)
  finally show ?case .
qed simp

lemma le_val_less: "le_val bs < 256 ^ length bs"
proof (induction bs)
  case (Cons b bs)
  then show ?case using unat_byte_less[of b] by simp
qed simp

lemma unat_of_nat_le_val:
  assumes "8 * length bs \<le> LENGTH('a::len)"
  shows "unat (of_nat (le_val bs) :: 'a word) = le_val bs"
proof -
  have "le_val bs < 256 ^ length bs" by (rule le_val_less)
  also have "\<dots> = 2 ^ (8 * length bs)" by (simp add: power_mult)
  also have "\<dots> \<le> 2 ^ LENGTH('a)" using assms by (intro power_increasing) auto
  finally show ?thesis by (simp add: unsigned_of_nat take_bit_nat_eq_self)
qed

lemma le_bytes_from_le:
  "8 * length bs \<le> LENGTH('a::len) \<Longrightarrow> le_bytes (length bs) (from_le bs :: 'a word) = bs"
proof (induction bs)
  case (Cons b bs)
  let ?w = "from_le (b # bs) :: 'a word"
  have u: "unat ?w = unat b + 256 * le_val bs"
    using unat_of_nat_le_val[of "b # bs"] Cons.prems by (simp only: from_le_def le_val.simps)
  have "unat (ucast ?w :: u8) = unat b"
    by (simp add: unat_ucast_byte u unat_byte_less)
  then have "ucast ?w = b" by (rule unsigned_word_eqI)
  moreover have "unat (drop_bit 8 ?w) = unat (from_le bs :: 'a word)"
    using unat_of_nat_le_val[of bs, where 'a = 'a] Cons.prems unat_byte_less[of b]
    by (simp add: unat_drop_byte u del: drop_bit_eq_div) (simp add: from_le_def)
  then have "drop_bit 8 ?w = from_le bs" by (rule unsigned_word_eqI)
  ultimately show ?case using Cons by simp
qed simp

lemma from_le_le_bytes:
  assumes "LENGTH('a::len) \<le> 8 * n"
  shows "from_le (le_bytes n (w :: 'a word)) = w"
proof -
  have "unat w < 2 ^ LENGTH('a)" by simp
  also have "(2::nat) ^ LENGTH('a) \<le> 2 ^ (8 * n)" using assms by (intro power_increasing) auto
  also have "\<dots> = 256 ^ n" by (simp add: power_mult)
  finally show ?thesis by (simp add: from_le_def le_val_le_bytes)
qed

lemma le_val_append: "le_val (bs @ cs) = le_val bs + 256 ^ length bs * le_val cs"
  by (induction bs) (simp_all add: algebra_simps)

lemma le_val_replicate_0 [simp]: "le_val (replicate n 0) = 0"
  by (induction n) simp_all

lemma le_val_pad [simp]: "le_val (bs @ replicate n 0) = le_val bs"
  by (simp add: le_val_append)

lemma u64_bytes_roundtrip [bytes_simps]:
  "from_le (le_bytes 8 (w :: u64)) = w" "from_be (be_bytes 8 w) = w"
  by (simp_all add: from_be_def be_bytes_def from_le_le_bytes)

lemma u64_of_bytes_roundtrip [bytes_simps]:
  "length bs = 8 \<Longrightarrow> le_bytes 8 (from_le bs :: u64) = bs"
  "length bs = 8 \<Longrightarrow> be_bytes 8 (from_be bs :: u64) = bs"
  using le_bytes_from_le[of bs, where 'a = 64] le_bytes_from_le[of "rev bs", where 'a = 64]
  by (simp_all add: from_be_def be_bytes_def)

section \<open>32-byte arrays\<close>

text \<open>\<^verbatim>\<open>[u8; 32]\<close>. \<open>arr32\<close> is total: it reads a byte list as an array, cutting or zero-padding it,
  and is only applied to lists whose length has been checked.\<close>

typedef bytes32 = "{xs :: bytes. length xs = 32}"
  morphisms arr_list Abs_bytes32
  by (rule exI[of _ "replicate 32 0"]) simp

declare arr_list_inverse [code abstype]

definition arr32 :: "bytes \<Rightarrow> bytes32" where
  "arr32 xs = Abs_bytes32 (take 32 (xs @ replicate 32 0))"

lemma length_arr_list [simp]: "length (arr_list a) = 32"
  using arr_list[of a] by simp

lemma arr_list_arr32 [code abstract]: "arr_list (arr32 xs) = take 32 (xs @ replicate 32 0)"
  by (simp add: arr32_def Abs_bytes32_inverse)

lemma arr_list_arr32_id [simp]: "length xs = 32 \<Longrightarrow> arr_list (arr32 xs) = xs"
  by (simp add: arr_list_arr32)

lemma arr32_arr_list [simp]: "arr32 (arr_list a) = a"
  by (simp add: arr_list_arr32 flip: arr_list_inject)

lemma arr_list_neq_Nil [simp]: "arr_list a \<noteq> []"
  by (metis length_arr_list list.size(3) zero_neq_numeral)

lemma arr_eq_iff: "a = b \<longleftrightarrow> arr_list a = arr_list b"
  by (simp add: arr_list_inject)

lemma arr32_eq_iff: "arr32 xs = arr32 ys \<longleftrightarrow>
    take 32 (xs @ replicate 32 0) = take 32 (ys @ replicate 32 0)"
  by (simp add: arr_eq_iff arr_list_arr32)

instantiation bytes32 :: equal
begin

definition equal_bytes32 :: "bytes32 \<Rightarrow> bytes32 \<Rightarrow> bool" where
  "equal_bytes32 a b = (arr_list a = arr_list b)"

instance by standard (simp add: equal_bytes32_def arr_list_inject)

end

instantiation bytes32 :: linorder
begin

definition less_eq_bytes32 :: "bytes32 \<Rightarrow> bytes32 \<Rightarrow> bool" where
  "less_eq_bytes32 a b = (arr_list a \<le> arr_list b)"

definition less_bytes32 :: "bytes32 \<Rightarrow> bytes32 \<Rightarrow> bool" where
  "less_bytes32 a b = (arr_list a < arr_list b)"

instance
  by standard (auto simp: less_eq_bytes32_def less_bytes32_def arr_eq_iff)

end

instance bytes32 :: finite
proof
  have "range (\<lambda>a :: bytes32. arr_list a) \<subseteq> {xs. set xs \<subseteq> UNIV \<and> length xs = 32}" by auto
  then have "finite (range (\<lambda>a :: bytes32. arr_list a))"
    by (rule finite_subset) (rule finite_lists_length_eq, simp)
  then show "finite (UNIV :: bytes32 set)"
    by (rule finite_imageD) (simp add: inj_on_def arr_list_inject)
qed

text \<open>\<^verbatim>\<open>[b; 32]\<close>.\<close>

definition fill32 :: "u8 \<Rightarrow> bytes32" where
  "fill32 b = arr32 (replicate 32 b)"

lemma arr_list_fill32: "arr_list (fill32 b) = replicate 32 b"
  by (simp only: fill32_def arr_list_arr32_id length_replicate)

lemma fill32_inject [simp]: "fill32 a = fill32 b \<longleftrightarrow> a = b"
  by (simp add: arr_eq_iff arr_list_fill32)

lemma replicate_less_iff: "0 < n \<Longrightarrow> replicate n a < replicate n b \<longleftrightarrow> a < (b :: 'a::linorder)"
  by (induction n) auto

lemma fill32_less [simp]: "fill32 a < fill32 b \<longleftrightarrow> a < b"
  unfolding less_bytes32_def arr_list_fill32 by (rule replicate_less_iff) simp

section \<open>Ordered maps\<close>

text \<open>\<^verbatim>\<open>BTreeMap<K, V>\<close>: association lists with strictly increasing keys. The list is what iterating
  the map yields, and two maps are equal exactly when all their lookups are.\<close>

fun ins_list :: "'k::linorder \<Rightarrow> 'v \<Rightarrow> ('k \<times> 'v) list \<Rightarrow> ('k \<times> 'v) list" where
  "ins_list k v [] = [(k, v)]"
| "ins_list k v ((a, b) # xs) =
     (if k < a then (k, v) # (a, b) # xs
      else if k = a then (k, v) # xs
      else (a, b) # ins_list k v xs)"

definition keys_ok :: "('k::linorder \<times> 'v) list \<Rightarrow> bool" where
  "keys_ok xs = sorted_wrt (<) (map fst xs)"

lemma keys_ok_simps [simp]:
  "keys_ok []" "keys_ok ((k, v) # xs) \<longleftrightarrow> (\<forall>p \<in> set xs. k < fst p) \<and> keys_ok xs"
  by (auto simp: keys_ok_def)

lemma keys_ok_distinct: "keys_ok xs \<Longrightarrow> distinct (map fst xs)"
  by (simp add: keys_ok_def strict_sorted_iff)

lemma keys_ok_filter: "keys_ok xs \<Longrightarrow> keys_ok (filter P xs)"
  by (induction xs) auto

lemma keys_ok_map: "keys_ok xs \<Longrightarrow> keys_ok (map (\<lambda>(k, v). (k, f k v)) xs)"
  by (induction xs) force+

lemma map_of_ins_list [simp]: "map_of (ins_list k v xs) = (map_of xs)(k \<mapsto> v)"
  by (induction k v xs rule: ins_list.induct) auto

lemma set_ins_list: "p \<in> set (ins_list k v xs) \<Longrightarrow> p = (k, v) \<or> p \<in> set xs"
  by (induction k v xs rule: ins_list.induct) (auto split: if_splits)

lemma keys_ok_ins_list: "keys_ok xs \<Longrightarrow> keys_ok (ins_list k v xs)"
  by (induction k v xs rule: ins_list.induct) (auto dest!: set_ins_list)

lemma keys_ok_unique:
  "keys_ok xs \<Longrightarrow> keys_ok ys \<Longrightarrow> map_of xs = map_of ys \<Longrightarrow> xs = ys"
proof -
  assume xs: "keys_ok xs" and ys: "keys_ok ys" and eq: "map_of xs = map_of ys"
  have "set xs = set ys"
    using map_of_eq_Some_iff[OF keys_ok_distinct[OF xs]] map_of_eq_Some_iff[OF keys_ok_distinct[OF ys]] eq
    by (metis set_eqI surj_pair)
  then show "xs = ys"
    using keys_ok_distinct[OF xs] keys_ok_distinct[OF ys] xs ys
    by (intro map_sorted_distinct_set_unique[of fst])
       (auto simp: keys_ok_def distinct_map intro: strict_sorted_imp_sorted)
qed

typedef (overloaded) ('k, 'v) btree = "{xs :: ('k::linorder \<times> 'v) list. keys_ok xs}"
  morphisms bt_entries Abs_btree
  by (rule exI[of _ "[]"]) simp

setup_lifting type_definition_btree

lift_definition bt_empty :: "('k::linorder, 'v) btree" is "[]"
  by simp

lift_definition bt_get :: "('k::linorder, 'v) btree \<Rightarrow> 'k \<Rightarrow> 'v option" is map_of .

lift_definition bt_insert :: "'k::linorder \<Rightarrow> 'v \<Rightarrow> ('k, 'v) btree \<Rightarrow> ('k, 'v) btree" is ins_list
  by (rule keys_ok_ins_list)

lift_definition bt_filter :: "('k::linorder \<Rightarrow> 'v \<Rightarrow> bool) \<Rightarrow> ('k, 'v) btree \<Rightarrow> ('k, 'v) btree" is
  "\<lambda>P. filter (\<lambda>(k, v). P k v)"
  by (rule keys_ok_filter)

lift_definition bt_map :: "('k::linorder \<Rightarrow> 'v \<Rightarrow> 'w) \<Rightarrow> ('k, 'v) btree \<Rightarrow> ('k, 'w) btree" is
  "\<lambda>f. map (\<lambda>(k, v). (k, f k v))"
  by (rule keys_ok_map)

definition bt_remove :: "'k::linorder \<Rightarrow> ('k, 'v) btree \<Rightarrow> ('k, 'v) btree" where
  "bt_remove k m = bt_filter (\<lambda>k' _. k' \<noteq> k) m"

definition bt_keys :: "('k::linorder, 'v) btree \<Rightarrow> 'k list" where
  "bt_keys m = map fst (bt_entries m)"

definition bt_vals :: "('k::linorder, 'v) btree \<Rightarrow> 'v list" where
  "bt_vals m = map snd (bt_entries m)"

definition bt_len :: "('k::linorder, 'v) btree \<Rightarrow> nat" where
  "bt_len m = length (bt_entries m)"

definition bt_is_empty :: "('k::linorder, 'v) btree \<Rightarrow> bool" where
  "bt_is_empty m = (bt_entries m = [])"

definition bt_contains :: "('k::linorder, 'v) btree \<Rightarrow> 'k \<Rightarrow> bool" where
  "bt_contains m k = (bt_get m k \<noteq> None)"

definition bt_extend :: "('k::linorder \<times> 'v) list \<Rightarrow> ('k, 'v) btree \<Rightarrow> ('k, 'v) btree" where
  "bt_extend xs m = fold (\<lambda>(k, v). bt_insert k v) xs m"

lemma bt_keys_ok [simp]: "keys_ok (bt_entries m)"
  using bt_entries[of m] by simp

lemma bt_get_map_of: "bt_get m = map_of (bt_entries m)"
  by (rule bt_get.rep_eq)

lemma bt_eqI: "(\<And>k. bt_get m k = bt_get n k) \<Longrightarrow> m = n"
  by (metis bt_entries_inject bt_get_map_of bt_keys_ok ext keys_ok_unique)

lemma bt_eq_iff: "m = n \<longleftrightarrow> bt_get m = bt_get n"
  by (metis bt_eqI)

lemma bt_get_empty [simp, btree_simps]: "bt_get bt_empty k = None"
  by transfer simp

lemma bt_get_insert [simp, btree_simps]:
  "bt_get (bt_insert k v m) k' = (if k' = k then Some v else bt_get m k')"
  by transfer simp

lemma map_of_filter_keys:
  "distinct (map fst xs) \<Longrightarrow>
   map_of (filter (\<lambda>(k, v). P k v) xs) k =
   (case map_of xs k of None \<Rightarrow> None | Some v \<Rightarrow> if P k v then Some v else None)"
  by (induction xs) (auto split: option.splits simp: map_of_eq_None_iff image_iff)

lemma bt_get_filter [btree_simps]:
  "bt_get (bt_filter P m) k = (case bt_get m k of None \<Rightarrow> None | Some v \<Rightarrow> if P k v then Some v else None)"
  by transfer (rule map_of_filter_keys[OF keys_ok_distinct])

lemma bt_get_remove [simp, btree_simps]:
  "bt_get (bt_remove k m) k' = (if k' = k then None else bt_get m k')"
  by (auto simp: bt_remove_def bt_get_filter split: option.splits)

lemma map_of_map_vals: "map_of (map (\<lambda>(k, v). (k, f k v)) xs) k = map_option (f k) (map_of xs k)"
  by (induction xs) auto

lemma bt_get_map [btree_simps]: "bt_get (bt_map f m) k = map_option (f k) (bt_get m k)"
  by transfer (rule map_of_map_vals)

lemma bt_get_Some_iff: "bt_get m k = Some v \<longleftrightarrow> (k, v) \<in> set (bt_entries m)"
  by (simp add: bt_get_map_of keys_ok_distinct)

lemma bt_keys_iff: "k \<in> set (bt_keys m) \<longleftrightarrow> bt_get m k \<noteq> None"
  by (auto simp: bt_keys_def bt_get_map_of map_of_eq_None_iff)

lemma bt_keys_sorted: "sorted_wrt (<) (bt_keys m)"
  using bt_keys_ok[of m] by (simp add: keys_ok_def bt_keys_def)

lemma bt_keys_distinct [simp]: "distinct (bt_keys m)"
  using bt_keys_sorted[of m] by (simp add: strict_sorted_iff)

lemma bt_vals_iff: "v \<in> set (bt_vals m) \<longleftrightarrow> (\<exists>k. bt_get m k = Some v)"
  by (force simp: bt_vals_def bt_get_Some_iff)

lemma bt_is_empty_iff: "bt_is_empty m \<longleftrightarrow> (\<forall>k. bt_get m k = None)"
  by (auto simp: bt_is_empty_def bt_get_map_of map_of_eq_None_iff intro: list.set_cases)

lemma bt_insert_entries [simp]: "bt_entries (bt_insert k v m) = ins_list k v (bt_entries m)"
  by (rule bt_insert.rep_eq)

lemma bt_empty_entries [simp]: "bt_entries bt_empty = []"
  by (rule bt_empty.rep_eq)

lemma bt_get_extend: "bt_get (bt_extend xs m) k =
    (case map_of (rev xs) k of None \<Rightarrow> bt_get m k | Some v \<Rightarrow> Some v)"
  by (induction xs arbitrary: m)
     (auto simp: bt_extend_def map_add_def split: option.splits)

instantiation btree :: (linorder, equal) equal
begin

definition equal_btree :: "('a, 'b) btree \<Rightarrow> ('a, 'b) btree \<Rightarrow> bool" where
  "equal_btree m n = (bt_entries m = bt_entries n)"

instance by standard (simp add: equal_btree_def bt_entries_inject)

end

section \<open>Strings\<close>

text \<open>\<^verbatim>\<open>str::split_once\<close> at the first slash, \<^verbatim>\<open>str::split\<close> at every slash, and a number in decimal.\<close>

definition split_once :: "string \<Rightarrow> (string \<times> string) option" where
  "split_once path =
    (if CHR ''/'' \<in> set path
     then Some (takeWhile (\<lambda>c. c \<noteq> CHR ''/'') path, drop 1 (dropWhile (\<lambda>c. c \<noteq> CHR ''/'') path))
     else None)"

fun split_slash :: "string \<Rightarrow> string \<Rightarrow> string list" where
  "split_slash acc [] = [rev acc]"
| "split_slash acc (c # cs) = (if c = CHR ''/'' then rev acc # split_slash [] cs else split_slash (c # acc) cs)"

fun show_nat :: "nat \<Rightarrow> string" where
  "show_nat n = (if n < 10 then [char_of (48 + n)] else show_nat (n div 10) @ [char_of (48 + n mod 10)])"

declare show_nat.simps [simp del]

text \<open>Paths of the host: \<^verbatim>\<open>trim_start_matches\<close>, the components of a path, \<^verbatim>\<open>Path::join\<close> with a relative path.\<close>

definition trim_start :: "string \<Rightarrow> string" where
  "trim_start p = dropWhile (\<lambda>c. c = CHR ''/'') p"

definition os_components :: "string \<Rightarrow> string list" where
  "os_components p = filter (\<lambda>s. s \<noteq> [] \<and> s \<noteq> ''.'') (split_slash [] p)"

definition path_join :: "string \<Rightarrow> string \<Rightarrow> string" where
  "path_join base p = (if base = [] \<or> last base = CHR ''/'' then base @ p else base @ ''/'' @ p)"

fun join_slash :: "string list \<Rightarrow> string" where
  "join_slash [] = []"
| "join_slash [c] = c"
| "join_slash (c # cs) = c @ ''/'' @ join_slash cs"

text \<open>Byte strings that are UTF-8.\<close>

definition is_cont :: "nat \<Rightarrow> bool" where
  "is_cont b \<longleftrightarrow> 128 \<le> b \<and> b < 192"

fun is_utf8 :: "nat list \<Rightarrow> bool" where
  "is_utf8 [] = True"
| "is_utf8 (a # bs) =
    (if a < 128 then is_utf8 bs
     else case bs of
       [] \<Rightarrow> False
     | b # cs \<Rightarrow>
        if 194 \<le> a \<and> a < 224 then is_cont b \<and> is_utf8 cs
        else (case cs of
            [] \<Rightarrow> False
          | c # ds \<Rightarrow>
             if a = 224 then 160 \<le> b \<and> b < 192 \<and> is_cont c \<and> is_utf8 ds
             else if a = 237 then 128 \<le> b \<and> b < 160 \<and> is_cont c \<and> is_utf8 ds
             else if 224 < a \<and> a < 240 then is_cont b \<and> is_cont c \<and> is_utf8 ds
             else (case ds of
                 [] \<Rightarrow> False
               | d # es \<Rightarrow>
                  if a = 240 then 144 \<le> b \<and> b < 192 \<and> is_cont c \<and> is_cont d \<and> is_utf8 es
                  else if a = 244 then 128 \<le> b \<and> b < 144 \<and> is_cont c \<and> is_cont d \<and> is_utf8 es
                  else if 240 < a \<and> a < 244 then is_cont b \<and> is_cont c \<and> is_cont d \<and> is_utf8 es
                  else False)))"

text \<open>\<^verbatim>\<open>str::parse::<u64>\<close>.\<close>

fun parse_digits :: "nat \<Rightarrow> string \<Rightarrow> nat option" where
  "parse_digits n [] = Some n"
| "parse_digits n (c # cs) =
    (let d = of_char c :: nat
     in if 48 \<le> d \<and> d \<le> 57 \<and> 10 * n + (d - 48) < 2 ^ 64 then parse_digits (10 * n + (d - 48)) cs else None)"

definition parse_u64 :: "string \<Rightarrow> u64 option" where
  "parse_u64 s =
    (let digits = (case s of c # cs \<Rightarrow> if c = CHR ''+'' then cs else s | [] \<Rightarrow> [])
     in if digits = [] then None else map_option of_nat (parse_digits 0 digits))"

end
