(* ===== verification/Blob_Id.thy ===== *)
theory Blob_Id
  imports Prelude
begin

text \<open>
  The content hash and the blob identifier: \<^verbatim>\<open>s5_core/src/hash.rs\<close> and
  \<^verbatim>\<open>s5_core/src/blob/identifier.rs\<close>. BLAKE3, the hexadecimal printer and the multibase codec are
  third-party crates: they are parameters, and what is used of them is \<open>multibase_ok\<close>.
\<close>

section \<open>The hash\<close>

type_synonym hash = bytes32

definition Hash_SIZE :: nat where
  "Hash_SIZE = 32"

definition Hash_EMPTY :: hash where
  "Hash_EMPTY = arr32 [175, 19, 73, 185, 245, 249, 161, 166, 160, 64, 77, 234, 54, 220, 201, 73,
     155, 203, 37, 201, 173, 193, 18, 183, 204, 154, 147, 202, 228, 31, 50, 98]"

definition Hash_new :: "(bytes \<Rightarrow> bytes32) \<Rightarrow> bytes \<Rightarrow> hash" where
  "Hash_new blake3 buf = blake3 buf"

definition Hash_as_bytes :: "hash \<Rightarrow> bytes" where
  "Hash_as_bytes h = arr_list h"

definition Hash_from_bytes :: "bytes32 \<Rightarrow> hash" where
  "Hash_from_bytes bs = bs"

definition Hash_to_hex :: "(bytes \<Rightarrow> string) \<Rightarrow> hash \<Rightarrow> string" where
  "Hash_to_hex hexlower h = hexlower (Hash_as_bytes h)"

definition Hash_fmt_short :: "(bytes \<Rightarrow> string) \<Rightarrow> hash \<Rightarrow> string" where
  "Hash_fmt_short hexlower h = hexlower (take 5 (Hash_as_bytes h))"

datatype ordering = Less | Equal | Greater

definition cmp_of :: "'a::linorder \<Rightarrow> 'a \<Rightarrow> ordering" where
  "cmp_of a b = (if a < b then Less else if a = b then Equal else Greater)"

definition Hash_cmp :: "hash \<Rightarrow> hash \<Rightarrow> ordering" where
  "Hash_cmp a b = cmp_of (Hash_as_bytes a) (Hash_as_bytes b)"

lemma Hash_cmp_cmp_of: "Hash_cmp a b = cmp_of a b"
  by (simp add: Hash_cmp_def cmp_of_def Hash_as_bytes_def less_bytes32_def arr_eq_iff)

lemma cmp_of_simps [simp]:
  "cmp_of a b = Less \<longleftrightarrow> a < b" "cmp_of a b = Equal \<longleftrightarrow> a = b" "cmp_of a b = Greater \<longleftrightarrow> b < a"
  by (auto simp: cmp_of_def)

section \<open>The blob identifier\<close>

definition S5_MAGIC_BYTE :: u8 where "S5_MAGIC_BYTE = 0x5b"
definition BLOB_TYPE_DEFAULT :: u8 where "BLOB_TYPE_DEFAULT = 0x82"
definition MULTIHASH_BLAKE3 :: u8 where "MULTIHASH_BLAKE3 = 0x1e"

datatype 'e blob_id_error =
    Multibase 'e
  | InvalidLength nat
  | InvalidMagicByte u8 u8
  | InvalidBlobType u8 u8
  | InvalidMultihashType u8 u8

record blob_id =
  bid_hash :: hash
  bid_size :: u64

definition BlobId_new :: "hash \<Rightarrow> u64 \<Rightarrow> blob_id" where
  "BlobId_new h s = \<lparr>bid_hash = h, bid_size = s\<rparr>"

text \<open>The multibase alphabets the identifier is printed in.\<close>

datatype base = Base16Lower | Base32Lower | Base58Btc | Base64Url

text \<open>\<^verbatim>\<open>slice::iter().rposition(p)\<close>: the index of the last element that satisfies \<open>p\<close>.\<close>

definition rposition :: "('a \<Rightarrow> bool) \<Rightarrow> 'a list \<Rightarrow> nat option" where
  "rposition p xs = (case filter (\<lambda>i. p (xs ! i)) (rev [0..<length xs]) of [] \<Rightarrow> None | i # _ \<Rightarrow> Some i)"

definition BlobId_parse :: "(string \<Rightarrow> 'e + base \<times> bytes) \<Rightarrow> string \<Rightarrow> 'e blob_id_error + blob_id" where
  "BlobId_parse mb_decode str =
    (case mb_decode str of
       Inl e \<Rightarrow> Inl (Multibase e)
     | Inr (_, bs) \<Rightarrow>
        if length bs < 35 then Inl (InvalidLength (length bs))
        else if bs ! 0 \<noteq> S5_MAGIC_BYTE then Inl (InvalidMagicByte S5_MAGIC_BYTE (bs ! 0))
        else if bs ! 1 \<noteq> BLOB_TYPE_DEFAULT then Inl (InvalidBlobType BLOB_TYPE_DEFAULT (bs ! 1))
        else if bs ! 2 \<noteq> MULTIHASH_BLAKE3 then Inl (InvalidMultihashType MULTIHASH_BLAKE3 (bs ! 2))
        else
          let hash = arr32 (take 32 (drop 3 bs));
              size_slice = drop 35 bs
          in if length size_slice > 8 then Inl (InvalidLength (length bs))
             else
               let size_bytes = size_slice @ replicate (8 - length size_slice) 0
               in Inr \<lparr>bid_hash = hash, bid_size = from_le size_bytes\<rparr>)"

definition BlobId_to_bytes :: "blob_id \<Rightarrow> bytes" where
  "BlobId_to_bytes self =
    (let prefix_bytes = [S5_MAGIC_BYTE, BLOB_TYPE_DEFAULT, MULTIHASH_BLAKE3];
         size_bytes = le_bytes 8 (bid_size self);
         size_bytes = (case rposition (\<lambda>x. x \<noteq> 0) size_bytes of
                         Some pos \<Rightarrow> take (pos + 1) size_bytes
                       | None \<Rightarrow> [])
     in concat [prefix_bytes, Hash_as_bytes (bid_hash self), size_bytes])"

definition BlobId_to_base16 :: "(base \<Rightarrow> bytes \<Rightarrow> string) \<Rightarrow> blob_id \<Rightarrow> string" where
  "BlobId_to_base16 mb_encode self = mb_encode Base16Lower (BlobId_to_bytes self)"

definition BlobId_to_base32 :: "(base \<Rightarrow> bytes \<Rightarrow> string) \<Rightarrow> blob_id \<Rightarrow> string" where
  "BlobId_to_base32 mb_encode self = mb_encode Base32Lower (BlobId_to_bytes self)"

definition BlobId_to_base58 :: "(base \<Rightarrow> bytes \<Rightarrow> string) \<Rightarrow> blob_id \<Rightarrow> string" where
  "BlobId_to_base58 mb_encode self = mb_encode Base58Btc (BlobId_to_bytes self)"

definition BlobId_to_base64url :: "(base \<Rightarrow> bytes \<Rightarrow> string) \<Rightarrow> blob_id \<Rightarrow> string" where
  "BlobId_to_base64url mb_encode self = mb_encode Base64Url (BlobId_to_bytes self)"

definition BlobId_fmt :: "(base \<Rightarrow> bytes \<Rightarrow> string) \<Rightarrow> blob_id \<Rightarrow> string" where
  "BlobId_fmt mb_encode self = BlobId_to_base32 mb_encode self"

definition BlobId_from_str :: "(string \<Rightarrow> 'e + base \<times> bytes) \<Rightarrow> string \<Rightarrow> 'e blob_id_error + blob_id" where
  "BlobId_from_str mb_decode s = BlobId_parse mb_decode s"

text \<open>What the multibase crate documents: decoding an encoded string gives the base and the bytes.\<close>

definition multibase_ok :: "(base \<Rightarrow> bytes \<Rightarrow> string) \<Rightarrow> (string \<Rightarrow> 'e + base \<times> bytes) \<Rightarrow> bool" where
  "multibase_ok enc dec = (\<forall>b bs. dec (enc b bs) = Inr (b, bs))"

section \<open>Trimming and padding the size\<close>

lemma rposition_Nil [simp]: "rposition p [] = None"
  by (simp add: rposition_def)

lemma rposition_snoc [simp]:
  "rposition p (xs @ [x]) = (if p x then Some (length xs) else rposition p xs)"
proof -
  have "filter (\<lambda>i. p ((xs @ [x]) ! i)) (rev [0..<length xs])
      = filter (\<lambda>i. p (xs ! i)) (rev [0..<length xs])"
    by (rule filter_cong) (auto simp: nth_append)
  then show ?thesis by (simp add: rposition_def)
qed

definition trim_zeros :: "bytes \<Rightarrow> bytes" where
  "trim_zeros bs = (case rposition (\<lambda>x. x \<noteq> 0) bs of Some pos \<Rightarrow> take (pos + 1) bs | None \<Rightarrow> [])"

lemma rposition_less: "rposition p xs = Some i \<Longrightarrow> i < length xs"
  by (induction xs rule: rev_induct) (auto split: if_splits)

lemma trim_zeros_snoc: "trim_zeros (xs @ [x]) = (if x = 0 then trim_zeros xs else xs @ [x])"
  by (auto simp: trim_zeros_def split: option.splits dest: rposition_less)

lemma trim_zeros_pad: "\<exists>k. bs = trim_zeros bs @ replicate k 0"
proof (induction bs rule: rev_induct)
  case Nil
  then show ?case by (simp add: trim_zeros_def)
next
  case (snoc x xs)
  then obtain k where "xs = trim_zeros xs @ replicate k 0" by blast
  then have "xs @ [0] = trim_zeros xs @ replicate (Suc k) 0"
    by (metis append_assoc replicate_Suc replicate_append_same)
  then show ?case by (metis append_Nil2 replicate_0 trim_zeros_snoc)
qed

lemma length_trim_zeros: "length (trim_zeros bs) \<le> length bs"
  by (metis trim_zeros_pad le_add1 length_append)

lemma trim_zeros_append_zeros: "trim_zeros (bs @ replicate k 0) = trim_zeros bs"
proof (induction k)
  case (Suc k)
  then show ?case
    by (metis append_assoc replicate_Suc replicate_append_same trim_zeros_snoc)
qed simp

lemma le_bytes_pad:
  "length ss \<le> 8 \<Longrightarrow> le_bytes 8 (from_le (ss @ replicate (8 - length ss) 0) :: u64)
     = ss @ replicate (8 - length ss) 0"
  by (simp add: bytes_simps)

section \<open>Reading back an identifier\<close>

lemma BlobId_to_bytes_alt:
  "BlobId_to_bytes b =
    S5_MAGIC_BYTE # BLOB_TYPE_DEFAULT # MULTIHASH_BLAKE3 # arr_list (bid_hash b)
      @ trim_zeros (le_bytes 8 (bid_size b))"
  by (simp add: BlobId_to_bytes_def trim_zeros_def Hash_as_bytes_def Let_def)

lemma length_BlobId_to_bytes: "length (BlobId_to_bytes b) = 35 + length (trim_zeros (le_bytes 8 (bid_size b)))"
  by (simp add: BlobId_to_bytes_alt)

text \<open>The parser sees through zero bytes that follow the canonical form.\<close>

lemma BlobId_parse_padded:
  assumes dec: "dec s = Inr (b, BlobId_to_bytes i @ replicate k 0)"
    and len: "length (BlobId_to_bytes i) + k \<le> 43"
  shows "BlobId_parse dec s = Inr i"
proof -
  let ?t = "trim_zeros (le_bytes 8 (bid_size i))"
  have split: "take 32 (drop 3 (BlobId_to_bytes i @ replicate k 0)) = arr_list (bid_hash i)"
    "drop 35 (BlobId_to_bytes i @ replicate k 0) = ?t @ replicate k 0"
    by (simp_all add: BlobId_to_bytes_alt)
  obtain j where j: "le_bytes 8 (bid_size i) = ?t @ replicate j 0" using trim_zeros_pad by blast
  have "from_le ((?t @ replicate k 0) @ replicate (8 - length (?t @ replicate k 0)) 0) = bid_size i"
    using u64_bytes_roundtrip(1)[of "bid_size i"] j
    by (metis from_le_def le_val_pad)
  then show ?thesis
    using len unfolding BlobId_parse_def dec
    by (simp add: split Let_def length_BlobId_to_bytes)
       (simp add: BlobId_to_bytes_alt)
qed

lemma BlobId_parse_InrD:
  assumes "BlobId_parse dec s = Inr i"
  shows "\<exists>b k. dec s = Inr (b, BlobId_to_bytes i @ replicate k 0) \<and> length (BlobId_to_bytes i) + k \<le> 43"
proof -
  obtain b bs where dec: "dec s = Inr (b, bs)"
    using assms by (auto simp: BlobId_parse_def split: sum.splits)
  let ?ss = "drop 35 bs"
  from assms have len: "35 \<le> length bs" "length bs \<le> 43"
    and pre: "bs ! 0 = S5_MAGIC_BYTE" "bs ! 1 = BLOB_TYPE_DEFAULT" "bs ! 2 = MULTIHASH_BLAKE3"
    and i: "i = \<lparr>bid_hash = arr32 (take 32 (drop 3 bs)),
                 bid_size = from_le (?ss @ replicate (8 - length ?ss) 0)\<rparr>"
    by (auto simp: BlobId_parse_def dec Let_def split: if_splits)
  have tb: "BlobId_to_bytes i = take 35 bs @ trim_zeros ?ss"
  proof -
    have "take 35 bs = bs ! 0 # bs ! 1 # bs ! 2 # take 32 (drop 3 bs)"
      using len by (cases bs; cases "tl bs"; cases "tl (tl bs)") (auto simp: eval_nat_numeral)
    moreover have "trim_zeros (le_bytes 8 (bid_size i)) = trim_zeros ?ss"
      using le_bytes_pad[of ?ss] trim_zeros_append_zeros[of ?ss] len by (simp add: i)
    ultimately show ?thesis using len by (simp add: BlobId_to_bytes_alt i pre[unfolded One_nat_def])
  qed
  obtain k where k: "?ss = trim_zeros ?ss @ replicate k 0" using trim_zeros_pad by blast
  then have bs: "bs = BlobId_to_bytes i @ replicate k 0"
    using tb by (metis append.assoc append_take_drop_id)
  then show ?thesis using len dec by (metis length_append length_replicate)
qed

section \<open>Properties\<close>

text \<open>An identifier printed in any of the four bases, or by \<^verbatim>\<open>Display\<close>, parses back to itself.\<close>

theorem BlobId_print_parse:
  assumes "multibase_ok enc dec"
  shows "BlobId_parse dec (BlobId_to_base16 enc i) = Inr i
    \<and> BlobId_parse dec (BlobId_to_base32 enc i) = Inr i
    \<and> BlobId_parse dec (BlobId_to_base58 enc i) = Inr i
    \<and> BlobId_parse dec (BlobId_to_base64url enc i) = Inr i
    \<and> BlobId_from_str dec (BlobId_fmt enc i) = Inr i"
proof -
  have "length (BlobId_to_bytes i) \<le> 43"
    using length_trim_zeros[of "le_bytes 8 (bid_size i)"] by (simp add: length_BlobId_to_bytes)
  then have "BlobId_parse dec (enc b (BlobId_to_bytes i)) = Inr i" for b
    using assms by (intro BlobId_parse_padded[where k = 0]) (auto simp: multibase_ok_def)
  then show ?thesis
    by (simp add: BlobId_to_base16_def BlobId_to_base32_def BlobId_to_base58_def
        BlobId_to_base64url_def BlobId_from_str_def BlobId_fmt_def)
qed

text \<open>C35. What the parser accepts, exactly: the canonical bytes of an identifier followed by zero
  bytes, 43 bytes at most. In particular two strings that parse to the same identifier decode to
  byte strings that differ only in trailing zeros, and every other input is an error.\<close>

theorem BlobId_parse_iff:
  "BlobId_parse dec s = Inr i \<longleftrightarrow>
    (\<exists>b k. dec s = Inr (b, BlobId_to_bytes i @ replicate k 0) \<and> length (BlobId_to_bytes i) + k \<le> 43)"
  using BlobId_parse_padded BlobId_parse_InrD by metis

text \<open>A codec that satisfies the hypothesis: one character names the base, the others are the bytes.\<close>

fun demo_base_char :: "base \<Rightarrow> char" where
  "demo_base_char Base16Lower = CHR ''f''"
| "demo_base_char Base32Lower = CHR ''b''"
| "demo_base_char Base58Btc = CHR ''z''"
| "demo_base_char Base64Url = CHR ''u''"

definition demo_encode :: "base \<Rightarrow> bytes \<Rightarrow> string" where
  "demo_encode b bs = demo_base_char b # map (\<lambda>x. char_of (unat x)) bs"

fun demo_decode :: "string \<Rightarrow> unit + base \<times> bytes" where
  "demo_decode [] = Inl ()"
| "demo_decode (c # cs) =
    (let bs = map (\<lambda>c. of_nat (of_char c)) cs
     in if c = CHR ''f'' then Inr (Base16Lower, bs)
        else if c = CHR ''b'' then Inr (Base32Lower, bs)
        else if c = CHR ''z'' then Inr (Base58Btc, bs)
        else if c = CHR ''u'' then Inr (Base64Url, bs)
        else Inl ())"

lemma byte_mod_roundtrip: "of_nat (unat (x :: u8) mod 256) = x"
  using unat_byte_less[of x] by simp

lemma demo_multibase_ok: "multibase_ok demo_encode demo_decode"
proof -
  have "demo_decode (demo_encode b bs) = Inr (b, bs)" for b bs
    by (cases b) (simp_all add: demo_encode_def Let_def o_def byte_mod_roundtrip)
  then show ?thesis by (simp add: multibase_ok_def)
qed

theorem BlobId_print_parse_witness:
  "multibase_ok demo_encode demo_decode \<and>
   BlobId_parse demo_decode
     (BlobId_to_base16 demo_encode \<lparr>bid_hash = Hash_EMPTY, bid_size = 256\<rparr>)
   = Inr \<lparr>bid_hash = Hash_EMPTY, bid_size = 256\<rparr>"
  using BlobId_print_parse[OF demo_multibase_ok] demo_multibase_ok by blast

end
