(* ===== verification/Location.thy ===== *)
theory Location
  imports Blob_Id
begin

text \<open>
  Blob locations: \<^verbatim>\<open>s5_core/src/blob/location.rs\<close>. The CBOR encoding is derived code of the minicbor
  crate; modelled here are the data types, the type tags and the hand-written \<^verbatim>\<open>Debug\<close>
  implementations that redact secret keys.
\<close>

section \<open>Types\<close>

record iroh_location =
  iroh_host :: bytes32
  iroh_partial :: bool

record sia_file_host =
  sfh_hostkey :: string
  sfh_v2_siamux_addresses :: "string list"
  sfh_ephemeral_account_private_key :: bytes32

record sia_file_slab =
  sfs_slab_encryption_key :: bytes32
  sfs_shard_roots :: "(u8, bytes32) btree"

record sia_file =
  sf_size :: u64
  sf_slab_size :: u32
  sf_min_shards :: u8
  sf_hosts :: "(u8, sia_file_host) btree"
  sf_file_encryption_key :: bytes32
  sf_slabs :: "sia_file_slab list"

text \<open>The 20- and 16-byte arrays of the SHA-1 and MD5 variants are byte lists.\<close>

datatype blob_location =
    IdentityRawBinary bytes
  | Url string
  | Iroh iroh_location
  | SiaFile sia_file
  | MultihashSha1 bytes
  | MultihashSha2_256 bytes32
  | MultihashBlake3 bytes32
  | MultihashMd5 bytes
  | EncryptionXChaCha20Poly1305 (enc_inner: blob_location) (enc_key: bytes32) (enc_block_size: u64)
  | CompressionZstd blob_location
  | CompressionBrotli blob_location

datatype blob_location_type =
    TIdentityRawBinary | TUrl | TIroh | TMultihashSha1 | TMultihashSha2_256 | TMultihashBlake3
  | TMultihashMd5 | TSiaFile | TCompressionZstd | TCompressionBrotli
  | TEncryptionXChaCha20Poly1305

fun BlobLocation_location_type :: "blob_location \<Rightarrow> blob_location_type" where
  "BlobLocation_location_type (IdentityRawBinary _) = TIdentityRawBinary"
| "BlobLocation_location_type (Url _) = TUrl"
| "BlobLocation_location_type (Iroh _) = TIroh"
| "BlobLocation_location_type (SiaFile _) = TSiaFile"
| "BlobLocation_location_type (MultihashSha1 _) = TMultihashSha1"
| "BlobLocation_location_type (MultihashSha2_256 _) = TMultihashSha2_256"
| "BlobLocation_location_type (MultihashBlake3 _) = TMultihashBlake3"
| "BlobLocation_location_type (MultihashMd5 _) = TMultihashMd5"
| "BlobLocation_location_type (EncryptionXChaCha20Poly1305 _ _ _) = TEncryptionXChaCha20Poly1305"
| "BlobLocation_location_type (CompressionZstd _) = TCompressionZstd"
| "BlobLocation_location_type (CompressionBrotli _) = TCompressionBrotli"

fun blob_location_type_u8 :: "blob_location_type \<Rightarrow> u8" where
  "blob_location_type_u8 TIdentityRawBinary = 0"
| "blob_location_type_u8 TUrl = 1"
| "blob_location_type_u8 TIroh = 4"
| "blob_location_type_u8 TMultihashSha1 = 0x11"
| "blob_location_type_u8 TMultihashSha2_256 = 0x12"
| "blob_location_type_u8 TMultihashBlake3 = 0x1e"
| "blob_location_type_u8 TMultihashMd5 = 0xd5"
| "blob_location_type_u8 TSiaFile = 0x41"
| "blob_location_type_u8 TCompressionZstd = 0xc2"
| "blob_location_type_u8 TCompressionBrotli = 0xcb"
| "blob_location_type_u8 TEncryptionXChaCha20Poly1305 = 0xe2"

section \<open>Debug output\<close>

text \<open>What a \<^verbatim>\<open>Debug\<close> implementation hands to the formatter: a tree of named fields, the text of
  which the standard library lays out.\<close>

datatype debug =
    DNum nat
  | DBool bool
  | DStr string
  | DList "debug list"
  | DMap "(debug \<times> debug) list"
  | DTuple string "debug list"
  | DStruct string "(string \<times> debug) list"

definition debug_bytes :: "bytes \<Rightarrow> debug" where
  "debug_bytes bs = DList (map (\<lambda>b. DNum (unat b)) bs)"

definition debug_iroh_location :: "iroh_location \<Rightarrow> debug" where
  "debug_iroh_location l = DStruct ''IrohLocation''
     [(''host'', debug_bytes (arr_list (iroh_host l))), (''partial'', DBool (iroh_partial l))]"

definition debug_sia_file_host :: "sia_file_host \<Rightarrow> debug" where
  "debug_sia_file_host h = DStruct ''SiaFileHost''
     [(''hostkey'', DStr (sfh_hostkey h)),
      (''v2_siamux_addresses'', DList (map DStr (sfh_v2_siamux_addresses h))),
      (''ephemeral_account_private_key'', DStr ''[REDACTED]'')]"

definition debug_sia_file_slab :: "sia_file_slab \<Rightarrow> debug" where
  "debug_sia_file_slab s = DStruct ''SiaFileSlab''
     [(''slab_encryption_key'', DStr ''[REDACTED]''),
      (''shard_roots'', DMap (map (\<lambda>(i, r). (DNum (unat i), debug_bytes (arr_list r)))
                               (bt_entries (sfs_shard_roots s))))]"

definition debug_sia_file :: "sia_file \<Rightarrow> debug" where
  "debug_sia_file f = DStruct ''SiaFile''
     [(''size'', DNum (unat (sf_size f))), (''slab_size'', DNum (unat (sf_slab_size f))),
      (''min_shards'', DNum (unat (sf_min_shards f))),
      (''hosts'', DMap (map (\<lambda>(i, h). (DNum (unat i), debug_sia_file_host h)) (bt_entries (sf_hosts f)))),
      (''file_encryption_key'', DStr ''[REDACTED]''),
      (''slabs'', DList (map debug_sia_file_slab (sf_slabs f)))]"

fun debug_blob_location :: "blob_location \<Rightarrow> debug" where
  "debug_blob_location (IdentityRawBinary b) = DTuple ''IdentityRawBinary'' [debug_bytes b]"
| "debug_blob_location (Url u) = DTuple ''Url'' [DStr u]"
| "debug_blob_location (Iroh l) = DTuple ''Iroh'' [debug_iroh_location l]"
| "debug_blob_location (SiaFile f) = DTuple ''SiaFile'' [debug_sia_file f]"
| "debug_blob_location (MultihashSha1 b) = DTuple ''MultihashSha1'' [debug_bytes b]"
| "debug_blob_location (MultihashSha2_256 b) = DTuple ''MultihashSha2_256'' [debug_bytes (arr_list b)]"
| "debug_blob_location (MultihashBlake3 b) = DTuple ''MultihashBlake3'' [debug_bytes (arr_list b)]"
| "debug_blob_location (MultihashMd5 b) = DTuple ''MultihashMd5'' [debug_bytes b]"
| "debug_blob_location (EncryptionXChaCha20Poly1305 inner key block_size) =
     DTuple ''EncryptionXChaCha20Poly1305'' [DStruct ''EncryptionXChaCha20Poly1305Location''
       [(''inner'', debug_blob_location inner), (''key'', DStr ''[REDACTED]''),
        (''block_size'', DNum (unat block_size))]]"
| "debug_blob_location (CompressionZstd l) = DTuple ''CompressionZstd'' [debug_blob_location l]"
| "debug_blob_location (CompressionBrotli l) = DTuple ''CompressionBrotli'' [debug_blob_location l]"

text \<open>Overwriting every secret key of a location.\<close>

definition rekey_host :: "bytes32 \<Rightarrow> sia_file_host \<Rightarrow> sia_file_host" where
  "rekey_host k h = h\<lparr>sfh_ephemeral_account_private_key := k\<rparr>"

definition rekey_slab :: "bytes32 \<Rightarrow> sia_file_slab \<Rightarrow> sia_file_slab" where
  "rekey_slab k s = s\<lparr>sfs_slab_encryption_key := k\<rparr>"

definition rekey_sia :: "bytes32 \<Rightarrow> sia_file \<Rightarrow> sia_file" where
  "rekey_sia k f = f\<lparr>sf_file_encryption_key := k, sf_hosts := bt_map (\<lambda>_. rekey_host k) (sf_hosts f),
     sf_slabs := map (rekey_slab k) (sf_slabs f)\<rparr>"

fun rekey :: "bytes32 \<Rightarrow> blob_location \<Rightarrow> blob_location" where
  "rekey k (SiaFile f) = SiaFile (rekey_sia k f)"
| "rekey k (EncryptionXChaCha20Poly1305 inner _ b) = EncryptionXChaCha20Poly1305 (rekey k inner) k b"
| "rekey k (CompressionZstd l) = CompressionZstd (rekey k l)"
| "rekey k (CompressionBrotli l) = CompressionBrotli (rekey k l)"
| "rekey k l = l"

lemma debug_rekey_host [simp]: "debug_sia_file_host (rekey_host k h) = debug_sia_file_host h"
  by (simp add: debug_sia_file_host_def rekey_host_def)

lemma debug_rekey_slab [simp]: "debug_sia_file_slab (rekey_slab k s) = debug_sia_file_slab s"
  by (simp add: debug_sia_file_slab_def rekey_slab_def)

lemma debug_rekey_sia [simp]: "debug_sia_file (rekey_sia k f) = debug_sia_file f"
  by (simp add: debug_sia_file_def rekey_sia_def bt_map.rep_eq o_def case_prod_unfold)

lemma debug_rekey: "debug_blob_location (rekey k l) = debug_blob_location l"
  by (induction l rule: debug_blob_location.induct) simp_all

lemma location_type_tag_inj: "blob_location_type_u8 a = blob_location_type_u8 b \<Longrightarrow> a = b"
  by (cases a; cases b) simp_all

section \<open>Properties\<close>

text \<open>Debug output leaks no secret: two locations that differ only in their secret keys (the file,
  slab, host-account and XChaCha20 keys, at any nesting depth) print identically.\<close>

theorem BlobLocation_debug_hides_keys:
  assumes "rekey k l = rekey k l'"
  shows "debug_blob_location l = debug_blob_location l'"
  using debug_rekey[of k l] debug_rekey[of k l'] assms by simp

theorem BlobLocation_debug_hides_keys_witness:
  "debug_blob_location (CompressionZstd (EncryptionXChaCha20Poly1305 (Url ''u'') (fill32 1) 4096))
   = debug_blob_location (CompressionZstd (EncryptionXChaCha20Poly1305 (Url ''u'') (fill32 2) 4096))"
  by (rule BlobLocation_debug_hides_keys[of "fill32 0"]) simp

end
