(* ===== verification/Stream.thy ===== *)
theory Stream
  imports Blob_Id
begin

text \<open>
  Stream and registry messages: \<^verbatim>\<open>s5_core/src/stream/types/mod.rs\<close> (keys, messages, validation, the
  wire format, \<^verbatim>\<open>should_store\<close>) and \<^verbatim>\<open>s5_core/src/stream/types/order.rs\<close> (the conflict order).
\<close>

section \<open>Types\<close>

definition MAX_INLINE_DATA_SIZE :: nat where "MAX_INLINE_DATA_SIZE = 1024"
definition KEY_SIZE :: nat where "KEY_SIZE = 32"
definition HASH_SIZE :: nat where "HASH_SIZE = 32"
definition SIGNATURE_SIZE :: nat where "SIGNATURE_SIZE = 64"

lemmas stream_sizes [simp] = MAX_INLINE_DATA_SIZE_def KEY_SIZE_def HASH_SIZE_def SIGNATURE_SIZE_def

datatype stream_key =
    Local bytes32
  | PublicKeyEd25519 bytes32
  | Blake3HashPin bytes32

datatype message_type = Stream | Registry

record stream_message =
  sm_type_id :: message_type
  sm_key :: stream_key
  sm_revision :: u64
  sm_hash :: hash
  sm_signature :: bytes
  sm_data :: "bytes option"

datatype stream_key_deserialize_error =
    KeyInvalidLength nat nat
  | UnknownId u8

datatype stream_message_error =
    InvalidKey stream_key_deserialize_error
  | InvalidMessageType u8
  | SignatureRequired
  | InvalidSignatureLength nat nat
  | DataTooLarge nat nat
  | InsufficientBytes
  | InvalidSignature

section \<open>Keys\<close>

definition LOCAL_ID :: u8 where "LOCAL_ID = 0"
definition PUBLIC_KEY_ED25519_ID :: u8 where "PUBLIC_KEY_ED25519_ID = 1"
definition BLAKE3_HASH_PIN_ID :: u8 where "BLAKE3_HASH_PIN_ID = 3"

lemmas stream_key_ids = LOCAL_ID_def PUBLIC_KEY_ED25519_ID_def BLAKE3_HASH_PIN_ID_def

fun StreamKey_to_bytes :: "stream_key \<Rightarrow> u8 \<times> bytes" where
  "StreamKey_to_bytes (Local data) = (LOCAL_ID, arr_list data)"
| "StreamKey_to_bytes (PublicKeyEd25519 data) = (PUBLIC_KEY_ED25519_ID, arr_list data)"
| "StreamKey_to_bytes (Blake3HashPin data) = (BLAKE3_HASH_PIN_ID, arr_list data)"

definition StreamKey_from_bytes :: "u8 \<Rightarrow> bytes \<Rightarrow> stream_key_deserialize_error + stream_key" where
  "StreamKey_from_bytes i data =
    (if length data \<noteq> KEY_SIZE then Inl (KeyInvalidLength KEY_SIZE (length data))
     else
       let data_array = arr32 data
       in if i = LOCAL_ID then Inr (Local data_array)
          else if i = PUBLIC_KEY_ED25519_ID then Inr (PublicKeyEd25519 data_array)
          else if i = BLAKE3_HASH_PIN_ID then Inr (Blake3HashPin data_array)
          else Inl (UnknownId i))"

fun StreamKey_signature_len :: "stream_key \<Rightarrow> nat" where
  "StreamKey_signature_len (Local _) = 0"
| "StreamKey_signature_len (PublicKeyEd25519 _) = SIGNATURE_SIZE"
| "StreamKey_signature_len (Blake3HashPin _) = 0"

definition StreamKey_requires_signature :: "stream_key \<Rightarrow> bool" where
  "StreamKey_requires_signature k = (StreamKey_signature_len k > 0)"

fun StreamKey_enforce_inline_limit :: "stream_key \<Rightarrow> bool" where
  "StreamKey_enforce_inline_limit (Blake3HashPin _) = False"
| "StreamKey_enforce_inline_limit _ = True"

text \<open>The derived order of the enum: by variant, then by the bytes.\<close>

fun key_rank :: "stream_key \<Rightarrow> nat \<times> bytes32" where
  "key_rank (Local d) = (0, d)"
| "key_rank (PublicKeyEd25519 d) = (1, d)"
| "key_rank (Blake3HashPin d) = (2, d)"

lemma key_rank_inject: "key_rank a = key_rank b \<Longrightarrow> a = b"
  by (cases a; cases b) simp_all

instantiation stream_key :: linorder
begin

definition less_eq_stream_key :: "stream_key \<Rightarrow> stream_key \<Rightarrow> bool" where
  "less_eq_stream_key a b =
    (fst (key_rank a) < fst (key_rank b)
     \<or> fst (key_rank a) = fst (key_rank b) \<and> snd (key_rank a) \<le> snd (key_rank b))"

definition less_stream_key :: "stream_key \<Rightarrow> stream_key \<Rightarrow> bool" where
  "less_stream_key a b =
    (fst (key_rank a) < fst (key_rank b)
     \<or> fst (key_rank a) = fst (key_rank b) \<and> snd (key_rank a) < snd (key_rank b))"

instance
  by standard
     (auto simp: less_eq_stream_key_def less_stream_key_def intro: key_rank_inject[OF prod_eqI])

end

section \<open>Messages\<close>

fun message_type_u8 :: "message_type \<Rightarrow> u8" where
  "message_type_u8 Stream = 0"
| "message_type_u8 Registry = 1"

definition MessageType_try_from :: "u8 \<Rightarrow> u8 + message_type" where
  "MessageType_try_from value =
    (if value = 0 then Inr Stream else if value = 1 then Inr Registry else Inl value)"

definition StreamMessage_new ::
  "message_type \<Rightarrow> stream_key \<Rightarrow> u64 \<Rightarrow> hash \<Rightarrow> bytes \<Rightarrow> bytes option
   \<Rightarrow> stream_message_error + stream_message" where
  "StreamMessage_new type_id key revision hash signature data =
    (if StreamKey_requires_signature key \<and> signature = [] then Inl SignatureRequired
     else
       let expected = StreamKey_signature_len key
       in if length signature \<noteq> expected then Inl (InvalidSignatureLength expected (length signature))
          else if StreamKey_enforce_inline_limit key
               \<and> (case data of Some d \<Rightarrow> length d > MAX_INLINE_DATA_SIZE | None \<Rightarrow> False)
          then Inl (DataTooLarge (length (the data)) MAX_INLINE_DATA_SIZE)
          else Inr \<lparr>sm_type_id = type_id, sm_key = key, sm_revision = revision, sm_hash = hash,
                    sm_signature = signature, sm_data = data\<rparr>)"

definition StreamMessage_serialize :: "stream_message \<Rightarrow> bytes" where
  "StreamMessage_serialize self =
    (let (key_id, key_bytes) = StreamKey_to_bytes (sm_key self)
     in [message_type_u8 (sm_type_id self), key_id] @ key_bytes @ be_bytes 8 (sm_revision self)
        @ Hash_as_bytes (sm_hash self) @ sm_signature self
        @ (case sm_data self of Some data \<Rightarrow> data | None \<Rightarrow> []))"

definition StreamMessage_deserialize :: "bytes \<Rightarrow> stream_message_error + stream_message" where
  "StreamMessage_deserialize bs =
    (if length bs < 1 + 1 + KEY_SIZE + 8 + HASH_SIZE then Inl InsufficientBytes
     else case MessageType_try_from (bs ! 0) of
       Inl e \<Rightarrow> Inl (InvalidMessageType e)
     | Inr type_id \<Rightarrow>
        let key_id = bs ! 1;
            bs = drop 2 bs;
            key_bytes = take KEY_SIZE bs;
            bs = drop KEY_SIZE bs
        in case StreamKey_from_bytes key_id key_bytes of
             Inl e \<Rightarrow> Inl (InvalidKey e)
           | Inr key \<Rightarrow>
              let revision = from_be (take 8 bs);
                  bs = drop 8 bs;
                  hash = arr32 (take HASH_SIZE bs);
                  bs = drop HASH_SIZE bs;
                  sig_len = StreamKey_signature_len key
              in if length bs < sig_len then Inl InsufficientBytes
                 else
                   let signature = (if sig_len > 0 then take sig_len bs else []);
                       bs = drop sig_len bs;
                       data = (if bs \<noteq> [] then Some bs else None)
                   in StreamMessage_new type_id key revision hash signature data)"

definition then_with :: "ordering \<Rightarrow> ordering \<Rightarrow> ordering" where
  "then_with a b = (case a of Equal \<Rightarrow> b | _ \<Rightarrow> a)"

definition StreamMessage_cmp :: "stream_message \<Rightarrow> stream_message \<Rightarrow> ordering" where
  "StreamMessage_cmp self other =
    then_with (cmp_of (sm_revision self) (sm_revision other)) (Hash_cmp (sm_hash other) (sm_hash self))"

definition StreamMessage_should_store :: "stream_message \<Rightarrow> stream_message option \<Rightarrow> bool" where
  "StreamMessage_should_store self existing =
    (case sm_type_id self of
       Stream \<Rightarrow> True
     | Registry \<Rightarrow> (case existing of None \<Rightarrow> True | Some e \<Rightarrow> StreamMessage_cmp self e = Greater))"

section \<open>Keys round-trip\<close>

lemma StreamKey_roundtrip [simp]:
  "StreamKey_from_bytes (fst (StreamKey_to_bytes k)) (snd (StreamKey_to_bytes k)) = Inr k"
  by (cases k) (simp_all add: StreamKey_from_bytes_def stream_key_ids)

lemma StreamKey_from_bytes_InrD:
  "StreamKey_from_bytes i d = Inr k \<Longrightarrow> StreamKey_to_bytes k = (i, d)"
  by (auto simp: StreamKey_from_bytes_def Let_def split: if_splits)

lemma length_StreamKey_to_bytes [simp]: "length (snd (StreamKey_to_bytes k)) = 32"
  by (cases k) simp_all

lemma MessageType_roundtrip [simp]: "MessageType_try_from (message_type_u8 t) = Inr t"
  by (cases t) (simp_all add: MessageType_try_from_def)

lemma MessageType_try_from_InrD: "MessageType_try_from b = Inr t \<Longrightarrow> message_type_u8 t = b"
  by (auto simp: MessageType_try_from_def split: if_splits)

section \<open>Validation and the wire format\<close>

text \<open>The invariant of a validated message.\<close>

definition message_ok :: "stream_message \<Rightarrow> bool" where
  "message_ok m =
    (length (sm_signature m) = StreamKey_signature_len (sm_key m)
     \<and> (StreamKey_enforce_inline_limit (sm_key m) \<longrightarrow>
          (case sm_data m of None \<Rightarrow> True | Some d \<Rightarrow> length d \<le> MAX_INLINE_DATA_SIZE)))"

lemma StreamMessage_new_Inr_iff:
  "StreamMessage_new t k r h s d = Inr m \<longleftrightarrow>
    m = \<lparr>sm_type_id = t, sm_key = k, sm_revision = r, sm_hash = h, sm_signature = s, sm_data = d\<rparr>
    \<and> message_ok m"
  by (auto simp: StreamMessage_new_def message_ok_def StreamKey_requires_signature_def Let_def
      split: option.splits)

lemma StreamMessage_serialize_alt:
  "StreamMessage_serialize m =
    message_type_u8 (sm_type_id m) # fst (StreamKey_to_bytes (sm_key m))
    # snd (StreamKey_to_bytes (sm_key m)) @ be_bytes 8 (sm_revision m)
    @ arr_list (sm_hash m) @ sm_signature m @ (case sm_data m of Some d \<Rightarrow> d | None \<Rightarrow> [])"
  by (simp add: StreamMessage_serialize_def Hash_as_bytes_def split: prod.splits)

lemma StreamMessage_deserialize_serialize:
  assumes "message_ok m" "sm_data m \<noteq> Some []"
  shows "StreamMessage_deserialize (StreamMessage_serialize m) = Inr m"
proof -
  have "length (sm_signature m) = StreamKey_signature_len (sm_key m)"
    using assms by (simp add: message_ok_def)
  then show ?thesis
    using assms
    by (auto simp: StreamMessage_deserialize_def StreamMessage_serialize_alt Let_def
        StreamMessage_new_Inr_iff bytes_simps split: option.splits)
qed

lemma StreamMessage_deserialize_InrD:
  assumes "StreamMessage_deserialize bs = Inr m"
  shows "bs = StreamMessage_serialize m \<and> message_ok m \<and> sm_data m \<noteq> Some []"
proof -
  from assms have len: "74 \<le> length bs"
    by (auto simp: StreamMessage_deserialize_def split: if_splits)
  then obtain b0 b1 cs where bs: "bs = b0 # b1 # cs"
    by (cases bs; cases "tl bs") auto
  from assms len obtain k t where
    k: "StreamKey_from_bytes b1 (take 32 cs) = Inr k" and
    t: "MessageType_try_from b0 = Inr t" and
    sl: "StreamKey_signature_len k \<le> length (drop 72 cs)" and
    m: "m = \<lparr>sm_type_id = t, sm_key = k, sm_revision = from_be (take 8 (drop 32 cs)),
        sm_hash = arr32 (take 32 (drop 40 cs)),
        sm_signature = take (StreamKey_signature_len k) (drop 72 cs),
        sm_data = (if drop (StreamKey_signature_len k) (drop 72 cs) \<noteq> []
                   then Some (drop (StreamKey_signature_len k) (drop 72 cs)) else None)\<rparr>" and
    ok: "message_ok m"
    by (auto simp: StreamMessage_deserialize_def bs Let_def StreamMessage_new_Inr_iff
        split: sum.splits if_splits)
  have "StreamMessage_serialize m = b0 # b1 # take 32 cs @ take 8 (drop 32 cs)
      @ take 32 (drop 40 cs) @ drop 72 cs"
    using StreamKey_from_bytes_InrD[OF k] MessageType_try_from_InrD[OF t] len sl
      append_take_drop_id[of "StreamKey_signature_len k" "drop 72 cs"]
    by (simp add: StreamMessage_serialize_alt m bytes_simps bs)
  also have "\<dots> = bs"
  proof -
    have "cs = take 32 cs @ take 8 (drop 32 cs) @ take 32 (drop 40 cs) @ drop 72 cs"
      using append_take_drop_id[of 32 cs] append_take_drop_id[of 8 "drop 32 cs"]
        append_take_drop_id[of 32 "drop 40 cs"] by simp
    then show ?thesis by (simp add: bs)
  qed
  finally show ?thesis using ok by (simp add: m)
qed

section \<open>The conflict order\<close>

lemma StreamMessage_cmp_Greater_iff:
  "StreamMessage_cmp a b = Greater \<longleftrightarrow>
    sm_revision b < sm_revision a \<or> sm_revision a = sm_revision b \<and> sm_hash a < sm_hash b"
  by (auto simp: StreamMessage_cmp_def then_with_def Hash_cmp_cmp_of cmp_of_def)

lemma StreamMessage_cmp_Less_iff: "StreamMessage_cmp a b = Less \<longleftrightarrow> StreamMessage_cmp b a = Greater"
  by (auto simp: StreamMessage_cmp_def then_with_def Hash_cmp_cmp_of cmp_of_def)

lemma StreamMessage_cmp_Equal_iff:
  "StreamMessage_cmp a b = Equal \<longleftrightarrow> sm_revision a = sm_revision b \<and> sm_hash a = sm_hash b"
  by (auto simp: StreamMessage_cmp_def then_with_def Hash_cmp_cmp_of cmp_of_def)

lemma StreamMessage_cmp_trans:
  "StreamMessage_cmp a b = Greater \<Longrightarrow> StreamMessage_cmp b c = Greater \<Longrightarrow> StreamMessage_cmp a c = Greater"
  by (auto simp: StreamMessage_cmp_Greater_iff)

lemma should_store_None [simp]: "StreamMessage_should_store m None"
  by (simp add: StreamMessage_should_store_def split: message_type.splits)

lemma should_store_Registry:
  "sm_type_id m = Registry \<Longrightarrow>
   StreamMessage_should_store m (Some e) \<longleftrightarrow> StreamMessage_cmp m e = Greater"
  by (simp add: StreamMessage_should_store_def)

section \<open>Properties\<close>

text \<open>C4. The wire format is a bijection onto what it accepts: a byte string decodes to a message
  exactly when it is the message's encoding, the message passes validation (signature length of
  its key, inline limit) and its inline data is not the empty string. Nothing else is accepted.\<close>

theorem StreamMessage_deserialize_iff:
  "StreamMessage_deserialize bs = Inr m \<longleftrightarrow>
    bs = StreamMessage_serialize m
    \<and> length (sm_signature m) = StreamKey_signature_len (sm_key m)
    \<and> (StreamKey_enforce_inline_limit (sm_key m) \<longrightarrow>
         (case sm_data m of None \<Rightarrow> True | Some d \<Rightarrow> length d \<le> MAX_INLINE_DATA_SIZE))
    \<and> sm_data m \<noteq> Some []"
  using StreamMessage_deserialize_InrD[of bs m] StreamMessage_deserialize_serialize[of m]
  unfolding message_ok_def by blast

definition demo_message :: stream_message where
  "demo_message = \<lparr>sm_type_id = Registry, sm_key = PublicKeyEd25519 (fill32 42),
     sm_revision = 0xDEADBEEF, sm_hash = fill32 0xAB,
     sm_signature = replicate 64 0xFF, sm_data = Some [1, 2, 3, 4]\<rparr>"

theorem StreamMessage_deserialize_iff_witness:
  "StreamMessage_deserialize (StreamMessage_serialize demo_message) = Inr demo_message"
  using StreamMessage_deserialize_iff[of "StreamMessage_serialize demo_message" demo_message]
  by (simp add: demo_message_def)

text \<open>The conflict order is a total order on (revision, hash): of two messages exactly one wins
  or both fields agree, winning is transitive and irreflexive, the higher revision always wins and
  on equal revisions the lexicographically smaller payload hash does.\<close>

theorem StreamMessage_cmp_total_order:
  "((StreamMessage_cmp a b = Greater) \<noteq> (StreamMessage_cmp b a = Greater)
     \<or> sm_revision a = sm_revision b \<and> sm_hash a = sm_hash b \<and> StreamMessage_cmp a b = Equal)
   \<and> StreamMessage_cmp a a = Equal
   \<and> (StreamMessage_cmp a b = Greater \<and> StreamMessage_cmp b c = Greater
       \<longrightarrow> StreamMessage_cmp a c = Greater)
   \<and> (sm_revision b < sm_revision a \<longrightarrow> StreamMessage_cmp a b = Greater)
   \<and> (sm_revision a = sm_revision b \<and> sm_hash a < sm_hash b \<longrightarrow> StreamMessage_cmp a b = Greater)"
  by (auto simp: StreamMessage_cmp_Greater_iff StreamMessage_cmp_Equal_iff)

definition demo_rev :: "nat \<Rightarrow> stream_message" where
  "demo_rev n = demo_message\<lparr>sm_revision := of_nat n\<rparr>"

lemma demo_rev_sel [simp]:
  "sm_type_id (demo_rev n) = Registry" "sm_key (demo_rev n) = PublicKeyEd25519 (fill32 42)"
  "sm_revision (demo_rev n) = of_nat n" "sm_hash (demo_rev n) = fill32 0xAB"
  by (simp_all add: demo_rev_def demo_message_def)

theorem StreamMessage_cmp_total_order_witness:
  "StreamMessage_cmp (demo_rev 3) (demo_rev 2) = Greater
   \<and> StreamMessage_cmp (demo_rev 2) (demo_rev 1) = Greater
   \<and> StreamMessage_cmp (demo_rev 3) (demo_rev 1) = Greater
   \<and> StreamMessage_cmp ((demo_rev 3)\<lparr>sm_hash := fill32 7\<rparr>) (demo_rev 3) = Greater"
  using StreamMessage_cmp_total_order[of "demo_rev 3" "demo_rev 2" "demo_rev 1"]
    StreamMessage_cmp_total_order[of "demo_rev 2" "demo_rev 1" "demo_rev 0"]
    StreamMessage_cmp_total_order[of "(demo_rev 3)\<lparr>sm_hash := fill32 7\<rparr>" "demo_rev 3" "demo_rev 0"]
  by (simp add: demo_rev_def demo_message_def)

end
