(* ===== verification/Store.thy ===== *)
theory Store
  imports Location Stream
begin

text \<open>
  The storage layer: \<^verbatim>\<open>s5_core/src/store.rs\<close> (the \<^verbatim>\<open>Store\<close> trait) and
  \<^verbatim>\<open>blob_stores/memory/src/lib.rs\<close> (\<^verbatim>\<open>MemoryStore\<close>).

  An \<^verbatim>\<open>Arc<dyn Store>\<close> is a table of operations over the state of the world, a type variable
  \<open>'w\<close> of every client: two handles on the same store are the same table, so aliasing (a blob store
  whose outboard store is its blob store) is what it is in the code. A fallible operation that changes the
  world is an \<open>action\<close>, one that only reads it is a function of it.
\<close>

section \<open>Errors and actions\<close>

datatype io_kind = NotFound | InvalidData | Unsupported | OtherKind

text \<open>\<^verbatim>\<open>anyhow::Error\<close>: the errors of the layers below, and messages.\<close>

datatype error =
    Io io_kind string
  | Anyhow string
  | HashMismatch hash hash
  | MessageError stream_message_error
  | KeyError stream_key_deserialize_error
  | CodecError string

type_synonym ('w, 'a) action = "'w \<Rightarrow> (error + 'a) \<times> 'w"

definition act_ok :: "'a \<Rightarrow> ('w, 'a) action" where
  "act_ok x w = (Inr x, w)"

definition act_err :: "error \<Rightarrow> ('w, 'a) action" where
  "act_err e w = (Inl e, w)"

definition act_read :: "('w \<Rightarrow> error + 'a) \<Rightarrow> ('w, 'a) action" where
  "act_read f w = (f w, w)"

definition act_lift :: "error + 'a \<Rightarrow> ('w, 'a) action" where
  "act_lift r w = (r, w)"

text \<open>Sequencing with the \<^verbatim>\<open>?\<close> operator: an error ends the function, the world keeps its changes.\<close>

definition act_bind :: "('w, 'a) action \<Rightarrow> ('a \<Rightarrow> ('w, 'b) action) \<Rightarrow> ('w, 'b) action" where
  "act_bind m f w = (case m w of (Inl e, w') \<Rightarrow> (Inl e, w') | (Inr x, w') \<Rightarrow> f x w')"

lemma act_simps [simp]:
  "act_ok x w = (Inr x, w)" "act_err e w = (Inl e, w)" "act_read g w = (g w, w)"
  "act_lift r w = (r, w)"
  by (simp_all add: act_ok_def act_err_def act_read_def act_lift_def)

lemma act_bind_Inr_iff:
  "act_bind m f w = (Inr y, w'') \<longleftrightarrow> (\<exists>x w'. m w = (Inr x, w') \<and> f x w' = (Inr y, w''))"
  by (auto simp: act_bind_def split: prod.splits sum.splits)

lemma act_bind_Inr [simp]: "m w = (Inr x, w') \<Longrightarrow> act_bind m f w = f x w'"
  by (simp add: act_bind_def)

lemma act_bind_Inl [simp]: "m w = (Inl e, w') \<Longrightarrow> act_bind m f w = (Inl e, w')"
  by (simp add: act_bind_def)

lemma act_bindE:
  assumes "act_bind m f w = (r, w'')"
  obtains (err) e where "m w = (Inl e, w'')" "r = Inl e"
    | (ok) x w' where "m w = (Inr x, w')" "f x w' = (r, w'')"
  using assms by (auto simp: act_bind_def split: prod.splits sum.splits)

section \<open>Streams\<close>

text \<open>A \<^verbatim>\<open>Stream<Item = Result<T, io::Error>>\<close> that ends is the list of its items;
  \<^verbatim>\<open>try_collect\<close> stops at the first error.\<close>

type_synonym chunk = "error + bytes"

fun try_collect :: "('e + 'a) list \<Rightarrow> 'e + 'a list" where
  "try_collect [] = Inr []"
| "try_collect (Inl e # xs) = Inl e"
| "try_collect (Inr x # xs) = (case try_collect xs of Inl e \<Rightarrow> Inl e | Inr ys \<Rightarrow> Inr (x # ys))"

lemma try_collect_map_Inr [simp]: "try_collect (map Inr ys) = Inr ys"
  by (induction ys) simp_all

lemma try_collect_InrD: "try_collect xs = Inr ys \<Longrightarrow> xs = map Inr ys"
  by (induction xs arbitrary: ys rule: try_collect.induct) (auto split: sum.splits)

lemma try_collect_Inr_iff: "try_collect xs = Inr ys \<longleftrightarrow> xs = map Inr ys"
  using try_collect_InrD by auto

section \<open>The Store trait\<close>

record store_features =
  supports_rename :: bool
  case_sensitive :: bool
  recommended_max_dir_size :: u64

record 'w store =
  st_features :: store_features
  st_put_stream :: "string \<Rightarrow> chunk list \<Rightarrow> ('w, unit) action"
  st_put_bytes :: "string \<Rightarrow> bytes \<Rightarrow> ('w, unit) action"
  st_exists :: "string \<Rightarrow> 'w \<Rightarrow> error + bool"
  st_open_read_stream :: "string \<Rightarrow> u64 \<Rightarrow> u64 option \<Rightarrow> 'w \<Rightarrow> error + chunk list"
  st_open_read_bytes :: "string \<Rightarrow> u64 \<Rightarrow> u64 option \<Rightarrow> 'w \<Rightarrow> error + bytes"
  st_size :: "string \<Rightarrow> 'w \<Rightarrow> error + u64"
  st_list :: "'w \<Rightarrow> error + (error + string) list"
  st_delete :: "string \<Rightarrow> ('w, unit) action"
  st_rename :: "string \<Rightarrow> string \<Rightarrow> ('w, unit) action"
  st_provide :: "string \<Rightarrow> 'w \<Rightarrow> error + blob_location list"
  st_put_temp :: "string \<Rightarrow> chunk list \<Rightarrow> ('w, string) action"

text \<open>The default \<^verbatim>\<open>put_temp\<close>; the random UUID is its first argument.\<close>

definition tmp_path :: "string \<Rightarrow> string" where
  "tmp_path uuid = ''.tmp/'' @ uuid"

definition Store_put_temp ::
  "(string \<Rightarrow> chunk list \<Rightarrow> ('w, unit) action) \<Rightarrow> string \<Rightarrow> chunk list \<Rightarrow> ('w, string) action" where
  "Store_put_temp put_stream uuid stream =
    (let path = tmp_path uuid
     in act_bind (put_stream path stream) (\<lambda>_. act_ok path))"

text \<open>The slice of an object that a read with an offset and an optional length returns.\<close>

definition slice_of :: "u64 \<Rightarrow> u64 option \<Rightarrow> bytes \<Rightarrow> bytes" where
  "slice_of offset max_len c =
    (let rest = drop (unat offset) c in case max_len of None \<Rightarrow> rest | Some n \<Rightarrow> take (unat n) rest)"

lemma slice_of_all [simp]: "slice_of 0 None c = c"
  by (simp add: slice_of_def)

subsection \<open>The contract\<close>

text \<open>What clients of a store rely on. \<open>contents\<close> reads the objects out of the world, \<open>inv\<close> is the
  store's own invariant, \<open>good\<close> are the paths in use. Operations may fail; a failed write leaves
  every other object alone, and a store that cannot rename writes objects atomically.\<close>

locale store_contract =
  fixes ops :: "'w store" and contents :: "'w \<Rightarrow> string \<Rightarrow> bytes option"
    and inv :: "'w \<Rightarrow> bool" and good :: "string \<Rightarrow> bool"
  assumes exists_law: "inv w \<Longrightarrow> good p \<Longrightarrow> st_exists ops p w = Inr b \<Longrightarrow> b = (contents w p \<noteq> None)"
    and read_law: "inv w \<Longrightarrow> good p \<Longrightarrow> st_open_read_bytes ops p off len w = Inr bs \<Longrightarrow>
      \<exists>c. contents w p = Some c \<and> bs = slice_of off len c"
    and stream_law: "inv w \<Longrightarrow> good p \<Longrightarrow> st_open_read_stream ops p off len w = Inr st \<Longrightarrow>
      try_collect st = Inr cs \<Longrightarrow> \<exists>c. contents w p = Some c \<and> concat cs = slice_of off len c"
    and size_law: "inv w \<Longrightarrow> good p \<Longrightarrow> st_size ops p w = Inr n \<Longrightarrow>
      \<exists>c. contents w p = Some c \<and> n = of_nat (length c)"
    and put_bytes_law: "inv w \<Longrightarrow> good p \<Longrightarrow> st_put_bytes ops p c w = (r, w') \<Longrightarrow>
      inv w' \<and> (\<forall>q. good q \<longrightarrow> q \<noteq> p \<longrightarrow> contents w' q = contents w q)
      \<and> (is_ok r \<longrightarrow> contents w' p = Some c)
      \<and> (\<not> is_ok r \<longrightarrow> \<not> supports_rename (st_features ops) \<longrightarrow> contents w' p = contents w p)"
    and put_stream_law: "inv w \<Longrightarrow> good p \<Longrightarrow> st_put_stream ops p st w = (r, w') \<Longrightarrow>
      inv w' \<and> (\<forall>q. good q \<longrightarrow> q \<noteq> p \<longrightarrow> contents w' q = contents w q)
      \<and> (is_ok r \<longrightarrow> (\<exists>cs. st = map Inr cs \<and> contents w' p = Some (concat cs)))
      \<and> (\<not> is_ok r \<longrightarrow> \<not> supports_rename (st_features ops) \<longrightarrow> contents w' p = contents w p)"
    and delete_law: "inv w \<Longrightarrow> good p \<Longrightarrow> st_delete ops p w = (r, w') \<Longrightarrow>
      inv w' \<and> (\<forall>q. good q \<longrightarrow> q \<noteq> p \<longrightarrow> contents w' q = contents w q)
      \<and> (is_ok r \<longrightarrow> contents w' p = None) \<and> (\<not> is_ok r \<longrightarrow> contents w' p = contents w p)"
    and rename_law: "inv w \<Longrightarrow> good p \<Longrightarrow> good q \<Longrightarrow> p \<noteq> q \<Longrightarrow> st_rename ops p q w = (r, w') \<Longrightarrow>
      inv w' \<and> (\<forall>x. good x \<longrightarrow> x \<noteq> p \<longrightarrow> x \<noteq> q \<longrightarrow> contents w' x = contents w x)
      \<and> (is_ok r \<longrightarrow> contents w p \<noteq> None \<and> contents w' q = contents w p \<and> contents w' p = None)
      \<and> (\<not> is_ok r \<longrightarrow> contents w' q = contents w q)"
    and put_temp_law: "st_put_temp ops = Store_put_temp (st_put_stream ops)"
begin

lemma put_temp_cases:
  assumes "inv w" "good (tmp_path uuid)" "st_put_temp ops uuid st w = (r, w')"
  shows "inv w'" "\<And>q. good q \<Longrightarrow> q \<noteq> tmp_path uuid \<Longrightarrow> contents w' q = contents w q"
    "\<And>p. r = Inr p \<Longrightarrow>
       p = tmp_path uuid \<and> (\<exists>cs. st = map Inr cs \<and> contents w' p = Some (concat cs))"
  using assms put_stream_law[OF assms(1,2)]
  by (auto simp: put_temp_law Store_put_temp_def Let_def is_ok_iff elim!: act_bindE)

end

text \<open>A store none of whose calls fails: what the in-memory store is, and what the positive round-trip
  properties need. A stream starts at a position that a file can have.\<close>

locale reliable_store = store_contract +
  assumes exists_total: "inv w \<Longrightarrow> good p \<Longrightarrow> st_exists ops p w = Inr (contents w p \<noteq> None)"
    and read_total: "inv w \<Longrightarrow> good p \<Longrightarrow> contents w p = Some c \<Longrightarrow>
      st_open_read_bytes ops p off len w = Inr (slice_of off len c)"
    and stream_total: "inv w \<Longrightarrow> good p \<Longrightarrow> contents w p = Some c \<Longrightarrow> unat off < 2 ^ 63 \<Longrightarrow>
      \<exists>cs. st_open_read_stream ops p off len w = Inr (map Inr cs) \<and> concat cs = slice_of off len c"
    and size_total: "inv w \<Longrightarrow> good p \<Longrightarrow> contents w p = Some c \<Longrightarrow>
      st_size ops p w = Inr (of_nat (length c))"
    and put_bytes_total: "inv w \<Longrightarrow> good p \<Longrightarrow> is_ok (fst (st_put_bytes ops p c w))"
    and put_stream_total: "inv w \<Longrightarrow> good p \<Longrightarrow> is_ok (fst (st_put_stream ops p (map Inr cs) w))"
    and delete_total: "inv w \<Longrightarrow> good p \<Longrightarrow> is_ok (fst (st_delete ops p w))"
    and rename_total: "inv w \<Longrightarrow> good p \<Longrightarrow> good q \<Longrightarrow> p \<noteq> q \<Longrightarrow> contents w p \<noteq> None \<Longrightarrow>
      is_ok (fst (st_rename ops p q w))"

section \<open>MemoryStore\<close>

type_synonym memory_store = "(string, bytes) btree"

definition MemoryStore_new :: memory_store where
  "MemoryStore_new = bt_empty"

definition MemoryStore_put_stream :: "string \<Rightarrow> chunk list \<Rightarrow> (memory_store, unit) action" where
  "MemoryStore_put_stream path stream files =
    (case try_collect stream of
       Inl e \<Rightarrow> (Inl e, files)
     | Inr chunks \<Rightarrow> (Inr (), bt_insert path (concat chunks) files))"

definition MemoryStore_features :: store_features where
  "MemoryStore_features =
    \<lparr>supports_rename = True, case_sensitive = True, recommended_max_dir_size = - 1\<rparr>"

definition MemoryStore_exists :: "string \<Rightarrow> memory_store \<Rightarrow> error + bool" where
  "MemoryStore_exists path files = Inr (bt_contains files path)"

definition MemoryStore_put_bytes :: "string \<Rightarrow> bytes \<Rightarrow> (memory_store, unit) action" where
  "MemoryStore_put_bytes path bs files = (Inr (), bt_insert path bs files)"

definition MemoryStore_open_read_bytes ::
  "string \<Rightarrow> u64 \<Rightarrow> u64 option \<Rightarrow> memory_store \<Rightarrow> error + bytes" where
  "MemoryStore_open_read_bytes path offset max_len files =
    (case bt_get files path of
       None \<Rightarrow> Inl (Io NotFound (''no such key: '' @ path))
     | Some file \<Rightarrow>
        let file_len = length file;
            start = unat offset
        in if start \<ge> file_len then Inr []
           else
             let remaining = file_len - start;
                 len = (case max_len of Some mx \<Rightarrow> min remaining (unat mx) | None \<Rightarrow> remaining)
             in Inr (take len (drop start file)))"

definition MemoryStore_open_read_stream ::
  "string \<Rightarrow> u64 \<Rightarrow> u64 option \<Rightarrow> memory_store \<Rightarrow> error + chunk list" where
  "MemoryStore_open_read_stream path offset max_len files =
    (case MemoryStore_open_read_bytes path offset max_len files of
       Inl e \<Rightarrow> Inl e
     | Inr bs \<Rightarrow> Inr [Inr bs])"

definition MemoryStore_size :: "string \<Rightarrow> memory_store \<Rightarrow> error + u64" where
  "MemoryStore_size path files =
    (case bt_get files path of
       None \<Rightarrow> Inl (Io NotFound (''no such key: '' @ path))
     | Some file \<Rightarrow> Inr (of_nat (length file)))"

text \<open>\<^verbatim>\<open>DashMap::iter\<close> promises no order; the model lists the keys in theirs.\<close>

definition MemoryStore_list :: "memory_store \<Rightarrow> error + (error + string) list" where
  "MemoryStore_list files = Inr (map Inr (bt_keys files))"

definition MemoryStore_delete :: "string \<Rightarrow> (memory_store, unit) action" where
  "MemoryStore_delete path files = (Inr (), bt_remove path files)"

definition MemoryStore_rename :: "string \<Rightarrow> string \<Rightarrow> (memory_store, unit) action" where
  "MemoryStore_rename old_path new_path files =
    (if old_path = new_path then (Inr (), files)
     else case bt_get files old_path of
       None \<Rightarrow> (Inl (Io NotFound (''no such key: '' @ old_path)), files)
     | Some value \<Rightarrow> (Inr (), bt_insert new_path value (bt_remove old_path files)))"

definition MemoryStore_provide :: "string \<Rightarrow> memory_store \<Rightarrow> error + blob_location list" where
  "MemoryStore_provide path files = Inr []"

definition MemoryStore :: "memory_store store" where
  "MemoryStore =
    \<lparr>st_features = MemoryStore_features, st_put_stream = MemoryStore_put_stream,
     st_put_bytes = MemoryStore_put_bytes, st_exists = MemoryStore_exists,
     st_open_read_stream = MemoryStore_open_read_stream,
     st_open_read_bytes = MemoryStore_open_read_bytes, st_size = MemoryStore_size,
     st_list = MemoryStore_list, st_delete = MemoryStore_delete, st_rename = MemoryStore_rename,
     st_provide = MemoryStore_provide, st_put_temp = Store_put_temp MemoryStore_put_stream\<rparr>"

lemmas memory_store_defs = MemoryStore_def MemoryStore_features_def MemoryStore_put_stream_def
  MemoryStore_put_bytes_def MemoryStore_exists_def MemoryStore_open_read_stream_def
  MemoryStore_size_def MemoryStore_list_def MemoryStore_delete_def MemoryStore_rename_def
  MemoryStore_provide_def

lemma MemoryStore_read_slice:
  "MemoryStore_open_read_bytes p off len files =
    (case bt_get files p of
       None \<Rightarrow> Inl (Io NotFound (''no such key: '' @ p))
     | Some c \<Rightarrow> Inr (slice_of off len c))"
  by (auto simp: MemoryStore_open_read_bytes_def slice_of_def Let_def min_def split: option.splits)

interpretation memory_store: reliable_store MemoryStore bt_get "\<lambda>_. True" "\<lambda>_. True"
proof (standard, goal_cases)
  case 6
  then show ?case by (auto simp: memory_store_defs try_collect_Inr_iff split: sum.splits)
next
  case 8
  then show ?case by (auto simp: memory_store_defs split: option.splits if_splits)
next
  case (12 w p c off len)
  then show ?case
    by (auto simp: memory_store_defs MemoryStore_read_slice intro: exI[of _ "[slice_of off len c]"])
next
  case 17
  then show ?case by (auto simp: memory_store_defs)
qed (auto simp: memory_store_defs MemoryStore_read_slice bt_contains_def split: option.splits)

end
