(* ===== verification/Dir.thy ===== *)
theory Dir
  imports Location Store
begin

text \<open>
  Directory snapshots of the file system: \<^verbatim>\<open>s5_fs/src/dir.rs\<close>. The CBOR codec (minicbor) and
  XChaCha20-Poly1305 are third-party, the fields of \<open>dir_codec\<close> with \<open>dir_codec_ok\<close>; the random nonce
  of an encryption is an argument.
\<close>

section \<open>Types\<close>

datatype dir_ref_type = DirBlake3Hash | DirRegistryKey

record dir_ref =
  dr_ref_type :: "dir_ref_type option"
  dr_hash :: bytes32
  dr_ts_seconds :: "u32 option"
  dr_ts_nanos :: "u32 option"
  dr_keys :: "(u8, bytes32) btree option"
  dr_encryption_type :: "u8 option"
  dr_extra :: "unit option"

definition ENCRYPTION_TYPE_XCHACHA20_POLY1305 :: u8 where
  "ENCRYPTION_TYPE_XCHACHA20_POLY1305 = 0x02"

record dir_header =
  dh_shard_level :: "u8 option"
  dh_shards :: "(u8, dir_ref) btree option"
  dh_try_files :: "string list option"
  dh_error_pages :: "(u16, string) btree option"
  dh_ops_counter :: "u64 option"
  dh_last_written_by :: "(u8 list, u64) btree option"

datatype file_ref_type = FileBlake3Hash | FileRegistryKey | Tombstone

record web_archive_metadata =
  wa_ip_addr :: string
  wa_req_http_version :: u8
  wa_req_headers :: "(string \<times> string) list"
  wa_res_http_version :: u8
  wa_res_status_code :: u16
  wa_res_status_reason :: string
  wa_res_headers :: "(string \<times> string) list"

datatype file_ref =
  FileRef
    (fr_ref_type: "file_ref_type option")
    (fr_hash: bytes32)
    (fr_size: u64)
    (fr_timestamp: "u32 option")
    (fr_timestamp_subsec_nanos: "u32 option")
    (fr_locations: "blob_location list option")
    (fr_media_type: "string option")
    (fr_warc: "web_archive_metadata option")
    (fr_extra: "(string, unit) btree option")
    (fr_prev: "file_ref option")
    (fr_version_count: "u32 option")
    (fr_first_version: "file_ref option")

record dir_v1 =
  dv_magic :: string
  dv_header :: dir_header
  dv_dirs :: "(string, dir_ref) btree"
  dv_files :: "(string, file_ref) btree"

section \<open>Constructors and accessors\<close>

definition DirHeader_new :: dir_header where
  "DirHeader_new = \<lparr>dh_shard_level = None, dh_shards = None, dh_try_files = None, dh_error_pages = None,
     dh_ops_counter = None, dh_last_written_by = None\<rparr>"

definition DirV1_new :: dir_v1 where
  "DirV1_new = \<lparr>dv_magic = ''S5.pro'', dv_header = DirHeader_new, dv_dirs = bt_empty, dv_files = bt_empty\<rparr>"

definition DirV1_new_web_app :: dir_v1 where
  "DirV1_new_web_app = \<lparr>dv_magic = ''S5.pro/web'',
     dv_header = DirHeader_new\<lparr>dh_try_files := Some [''index.html'']\<rparr>, dv_dirs = bt_empty, dv_files = bt_empty\<rparr>"

definition DirRef_from_hash :: "hash \<Rightarrow> dir_ref" where
  "DirRef_from_hash hash = \<lparr>dr_ref_type = None, dr_hash = hash, dr_ts_seconds = None, dr_ts_nanos = None,
     dr_keys = None, dr_encryption_type = None, dr_extra = None\<rparr>"

definition DirRef_new_empty :: dir_ref where
  "DirRef_new_empty = DirRef_from_hash (fill32 0)"

definition DirRef_ref_type :: "dir_ref \<Rightarrow> dir_ref_type" where
  "DirRef_ref_type d = (case dr_ref_type d of Some t \<Rightarrow> t | None \<Rightarrow> DirBlake3Hash)"

definition FileRef_new :: "hash \<Rightarrow> u64 \<Rightarrow> file_ref" where
  "FileRef_new hash sz = FileRef None hash sz None None None None None None None None None"

definition FileRef_new_inline_blob :: "(bytes \<Rightarrow> hash) \<Rightarrow> bytes \<Rightarrow> file_ref" where
  "FileRef_new_inline_blob blake3 blob =
    FileRef None (blake3 blob) (of_nat (length blob)) None None (Some [IdentityRawBinary blob]) None None None
      None None None"

definition FileRef_ref_type :: "file_ref \<Rightarrow> file_ref_type" where
  "FileRef_ref_type f = (case fr_ref_type f of Some t \<Rightarrow> t | None \<Rightarrow> FileBlake3Hash)"

definition FileRef_is_tombstone :: "file_ref \<Rightarrow> bool" where
  "FileRef_is_tombstone f = (FileRef_ref_type f = Tombstone)"

definition FileRef_from_deleted :: "file_ref \<Rightarrow> u32 \<Rightarrow> u32 \<Rightarrow> file_ref" where
  "FileRef_from_deleted previous deleted_at_s deleted_at_ns =
    (let first_version = (case fr_first_version previous of Some f \<Rightarrow> f | None \<Rightarrow> previous);
         version_count = sat_add32 (case fr_version_count previous of Some n \<Rightarrow> n | None \<Rightarrow> 1) 1
     in FileRef (Some Tombstone) (fr_hash previous) (fr_size previous) (Some deleted_at_s) (Some deleted_at_ns)
          None (fr_media_type previous) (fr_warc previous) (fr_extra previous) (Some previous)
          (Some version_count) (Some first_version))"

definition FileRef_from_blob_id :: "blob_id \<Rightarrow> file_ref" where
  "FileRef_from_blob_id b = FileRef_new (bid_hash b) (bid_size b)"

definition FileRef_into_blob_id :: "file_ref \<Rightarrow> blob_id" where
  "FileRef_into_blob_id f = BlobId_new (fr_hash f) (fr_size f)"

text \<open>Setting the time of a file.\<close>

fun set_timestamp :: "u32 \<Rightarrow> u32 \<Rightarrow> file_ref \<Rightarrow> file_ref" where
  "set_timestamp ts ns (FileRef t h s _ _ l m wa e p c f) = FileRef t h s (Some ts) (Some ns) l m wa e p c f"

section \<open>Encoding and encryption\<close>

record dir_codec =
  dc_to_vec :: "dir_v1 \<Rightarrow> bytes"
  dc_from_bytes :: "bytes \<Rightarrow> error + dir_v1"
  dc_encrypt :: "bytes32 \<Rightarrow> bytes \<Rightarrow> bytes \<Rightarrow> bytes"
  dc_decrypt :: "bytes32 \<Rightarrow> bytes \<Rightarrow> bytes \<Rightarrow> error + bytes"

text \<open>The codec decodes what it encodes, and the cipher decrypts what it encrypted under the same key and
  nonce.\<close>

definition dir_codec_ok :: "dir_codec \<Rightarrow> bool" where
  "dir_codec_ok D =
    ((\<forall>d. dc_from_bytes D (dc_to_vec D d) = Inr d)
     \<and> (\<forall>k n p. length n = 24 \<longrightarrow> dc_decrypt D k n (dc_encrypt D k n p) = Inr p))"

definition DirV1_to_bytes :: "dir_codec \<Rightarrow> dir_v1 \<Rightarrow> bytes" where
  "DirV1_to_bytes D d = dc_to_vec D d"

definition DirV1_from_bytes :: "dir_codec \<Rightarrow> bytes \<Rightarrow> error + dir_v1" where
  "DirV1_from_bytes D bs = dc_from_bytes D bs"

definition decrypt_dir_bytes :: "dir_codec \<Rightarrow> bytes \<Rightarrow> bytes32 option \<Rightarrow> error + bytes" where
  "decrypt_dir_bytes D bs key =
    (case key of
       Some k \<Rightarrow>
         if length bs < 24 then Inl (Anyhow ''encrypted directory blob too short for nonce'')
         else
           let nonce = take 24 bs;
               ciphertext = drop 24 bs
           in (case dc_decrypt D k nonce ciphertext of
                 Inl _ \<Rightarrow> Inl (Anyhow ''Failed to decrypt directory'')
               | Inr plaintext \<Rightarrow> Inr plaintext)
     | None \<Rightarrow> Inr bs)"

definition encrypt_dir_bytes :: "dir_codec \<Rightarrow> bytes32 \<Rightarrow> bytes \<Rightarrow> bytes \<Rightarrow> bytes" where
  "encrypt_dir_bytes D key nonce plain = nonce @ dc_encrypt D key nonce plain"

section \<open>Round trips and version chains\<close>

lemma decrypt_encrypt:
  "dir_codec_ok D \<Longrightarrow> length nonce = 24 \<Longrightarrow>
   decrypt_dir_bytes D (encrypt_dir_bytes D key nonce plain) (Some key) = Inr plain"
  by (simp add: decrypt_dir_bytes_def encrypt_dir_bytes_def dir_codec_ok_def Let_def)

text \<open>All versions that hang off a file reference, the reference itself included.\<close>

fun versions :: "file_ref \<Rightarrow> file_ref list" where
  "versions (FileRef a b c d e f g h i prev j first) =
    FileRef a b c d e f g h i prev j first
    # (case prev of None \<Rightarrow> [] | Some p \<Rightarrow> versions p)
    @ (case first of None \<Rightarrow> [] | Some p \<Rightarrow> versions p)"

lemma versions_unfold:
  "versions f = f # (case fr_prev f of None \<Rightarrow> [] | Some p \<Rightarrow> versions p)
    @ (case fr_first_version f of None \<Rightarrow> [] | Some p \<Rightarrow> versions p)"
  by (cases f) simp

lemma self_in_versions [simp]: "f \<in> set (versions f)"
  by (subst versions_unfold) simp

lemma from_deleted_sel [simp]:
  "fr_prev (FileRef_from_deleted p s n) = Some p"
  "fr_hash (FileRef_from_deleted p s n) = fr_hash p"
  "FileRef_is_tombstone (FileRef_from_deleted p s n)"
  "fr_timestamp (FileRef_from_deleted p s n) = Some s"
  "fr_timestamp_subsec_nanos (FileRef_from_deleted p s n) = Some n"
  by (simp_all add: FileRef_from_deleted_def Let_def FileRef_is_tombstone_def FileRef_ref_type_def)

section \<open>Properties\<close>

text \<open>Deleting a file is a logical operation: the tombstone is recognised as one, keeps every version
  that hung off the deleted file, has the oldest version as its first version (which a second delete keeps),
  and counts one version more, saturating at the maximum.\<close>

theorem tombstone_keeps_history:
  "FileRef_is_tombstone (FileRef_from_deleted p s n)
   \<and> set (versions p) \<subseteq> set (versions (FileRef_from_deleted p s n))
   \<and> fr_first_version (FileRef_from_deleted p s n) =
       Some (case fr_first_version p of Some f \<Rightarrow> f | None \<Rightarrow> p)
   \<and> fr_first_version (FileRef_from_deleted (FileRef_from_deleted p s n) s' n')
       = fr_first_version (FileRef_from_deleted p s n)
   \<and> (\<forall>c. fr_version_count p = Some c \<longrightarrow>
        (\<exists>c'. fr_version_count (FileRef_from_deleted p s n) = Some c' \<and> unat c' = min (unat c + 1) (2 ^ 32 - 1)))"
proof -
  have "set (versions p) \<subseteq> set (versions (FileRef_from_deleted p s n))"
    by (subst (2) versions_unfold) auto
  then show ?thesis
    by (auto simp: FileRef_from_deleted_def FileRef_is_tombstone_def FileRef_ref_type_def Let_def unat_sat_add32)
qed

theorem tombstone_keeps_history_witness:
  "FileRef_new (fill32 1) 5 \<in> set (versions (FileRef_from_deleted (FileRef_new (fill32 1) 5) 10 20))"
  using tombstone_keeps_history[of "FileRef_new (fill32 1) 5" 10 20 0 0] by auto

text \<open>A directory encrypted for storage decrypts under its key to the same directory; without a key the
  bytes pass unchanged; an encrypted blob shorter than a nonce is refused.\<close>

theorem encrypted_dir_roundtrip:
  assumes "dir_codec_ok D" and "length nonce = 24"
  shows "res_bind (decrypt_dir_bytes D (encrypt_dir_bytes D key nonce (DirV1_to_bytes D d)) (Some key))
      (DirV1_from_bytes D) = Inr d
    \<and> decrypt_dir_bytes D bs None = Inr bs
    \<and> (length bs < 24 \<longrightarrow> \<not> is_ok (decrypt_dir_bytes D bs (Some key)))"
  using decrypt_encrypt[OF assms] assms(1)
  by (simp add: DirV1_to_bytes_def DirV1_from_bytes_def dir_codec_ok_def)
     (simp add: decrypt_dir_bytes_def)

end
