(* ===== verification/Dir_Codec.thy ===== *)
theory Dir_Codec
  imports Dir "HOL-Library.Countable"
begin

text \<open>
  Directory snapshots are countable data, so byte codecs that satisfy \<open>dir_codec_ok\<close> exist. The codec built
  here serves the closed examples of the development; the code uses minicbor and XChaCha20-Poly1305.
\<close>

section \<open>Countability of the model's data\<close>

text \<open>A tree map is determined by its entries, so records with tree maps embed into tuples of lists.\<close>

lemma map_option_entries_eq [simp]: "map_option bt_entries m = map_option bt_entries m' \<longleftrightarrow> m = m'"
  by (cases m; cases m') (simp_all add: bt_entries_inject)

lemmas entries_eq_iff [simp] = bt_entries_inject

instance iroh_location_ext :: (countable) countable
  by (rule countable_classI[of "\<lambda>r. to_nat (iroh_host r, iroh_partial r, iroh_location.more r)"]) simp

instance sia_file_host_ext :: (countable) countable
  by (rule countable_classI[of "\<lambda>r. to_nat (sfh_hostkey r, sfh_v2_siamux_addresses r,
       sfh_ephemeral_account_private_key r, sia_file_host.more r)"]) simp

instance sia_file_slab_ext :: (countable) countable
  by (rule countable_classI[of "\<lambda>r. to_nat (sfs_slab_encryption_key r, bt_entries (sfs_shard_roots r), sia_file_slab.more r)"]) simp

instance sia_file_ext :: (countable) countable
  by (rule countable_classI[of "\<lambda>r. to_nat (sf_size r, sf_slab_size r, sf_min_shards r, bt_entries (sf_hosts r),
       sf_file_encryption_key r, sf_slabs r, sia_file.more r)"]) simp

instance blob_location :: countable
  by countable_datatype

instance web_archive_metadata_ext :: (countable) countable
  by (rule countable_classI[of "\<lambda>r. to_nat (wa_ip_addr r, wa_req_http_version r, wa_req_headers r,
       wa_res_http_version r, wa_res_status_code r, wa_res_status_reason r, wa_res_headers r,
       web_archive_metadata.more r)"]) simp

instance file_ref_type :: countable
  by countable_datatype

text \<open>A file reference without its tree map, as a tree of tuples.\<close>

datatype file_shape =
  Shape "file_ref_type option \<times> bytes32 \<times> u64 \<times> u32 option \<times> u32 option \<times> blob_location list option
      \<times> string option \<times> web_archive_metadata option \<times> (string \<times> unit) list option \<times> u32 option"
    "file_shape option" "file_shape option"

instance file_shape :: countable
  by countable_datatype

primrec shape_of :: "file_ref \<Rightarrow> file_shape" where
  "shape_of (FileRef ty h sz s ns ls mt wa ex prev vc first) =
    Shape (ty, h, sz, s, ns, ls, mt, wa, map_option bt_entries ex, vc) (map_option shape_of prev) (map_option shape_of first)"

lemma shape_of_inject: "shape_of x = shape_of y \<Longrightarrow> x = y"
proof (induction x arbitrary: y)
  case (FileRef ty h sz s ns ls mt wa ex prev vc first)
  have sub: "map_option shape_of p = map_option shape_of q \<Longrightarrow> p = q" if "p = prev \<or> p = first" for p q
    using that FileRef.IH by (cases p; cases q) (auto simp: option.set_intros)
  show ?case using FileRef.prems sub by (cases y) auto
qed

instance file_ref :: countable
  by (rule countable_classI[of "\<lambda>f. to_nat (shape_of f)"]) (simp add: shape_of_inject)

instance dir_ref_type :: countable
  by countable_datatype

instance dir_ref_ext :: (countable) countable
  by (rule countable_classI[of "\<lambda>r. to_nat (dr_ref_type r, dr_hash r, dr_ts_seconds r, dr_ts_nanos r,
       map_option bt_entries (dr_keys r), dr_encryption_type r, dr_extra r, dir_ref.more r)"]) simp

instance dir_header_ext :: (countable) countable
  by (rule countable_classI[of "\<lambda>r. to_nat (dh_shard_level r, map_option bt_entries (dh_shards r), dh_try_files r,
       map_option bt_entries (dh_error_pages r),
       dh_ops_counter r, map_option bt_entries (dh_last_written_by r), dir_header.more r)"]) simp

instance dir_v1_ext :: (countable) countable
  by (rule countable_classI[of "\<lambda>r. to_nat (dv_magic r, dv_header r, bt_entries (dv_dirs r), bt_entries (dv_files r), dir_v1.more r)"]) simp

section \<open>The codec\<close>

text \<open>A directory is the unary form of its index; the cipher is the identity.\<close>

definition demo_dir_codec :: dir_codec where
  "demo_dir_codec = \<lparr>dc_to_vec = \<lambda>d. replicate (to_nat d) 0, dc_from_bytes = \<lambda>bs. Inr (from_nat (length bs)),
     dc_encrypt = \<lambda>_ _ p. p, dc_decrypt = \<lambda>_ _ c. Inr c\<rparr>"

lemma demo_dir_codec_ok: "dir_codec_ok demo_dir_codec"
  by (simp add: dir_codec_ok_def demo_dir_codec_def)

theorem encrypted_dir_roundtrip_witness:
  "res_bind (decrypt_dir_bytes demo_dir_codec (encrypt_dir_bytes demo_dir_codec (fill32 1) (replicate 24 0)
      (DirV1_to_bytes demo_dir_codec DirV1_new_web_app)) (Some (fill32 1))) (DirV1_from_bytes demo_dir_codec)
   = Inr DirV1_new_web_app"
  using encrypted_dir_roundtrip[OF demo_dir_codec_ok, of "replicate 24 0" "fill32 1" DirV1_new_web_app] by simp

end
