(* ===== verification/Paths.thy ===== *)
theory Paths
  imports Store "HOL-Library.Sublist"
begin

text \<open>
  Deterministic object paths of blobs: \<^verbatim>\<open>s5_core/src/blob/paths.rs\<close>. The base64url and base32 codecs are
  third-party crates, the fields of \<open>path_codec\<close>; \<open>path_codec_ok\<close> is what their documentation says of
  32-byte inputs.
\<close>

section \<open>Definitions\<close>

record path_codec =
  b64_encode :: "bytes \<Rightarrow> string"
  b64_decode :: "string \<Rightarrow> string + bytes"
  b32_encode :: "bytes \<Rightarrow> string"
  b32_is_valid :: "string \<Rightarrow> bool"
  b32_decoded_len :: "nat \<Rightarrow> nat option"
  b32_decode :: "string \<Rightarrow> bytes"

definition str_range :: "nat \<Rightarrow> nat \<Rightarrow> 'a list \<Rightarrow> 'a list" where
  "str_range i j s = take (j - i) (drop i s)"

definition path_for_hash :: "path_codec \<Rightarrow> hash \<Rightarrow> store_features \<Rightarrow> string" where
  "path_for_hash codec hash features =
    (let hash_str = (if case_sensitive features then b64_encode codec (Hash_as_bytes hash)
                     else b32_encode codec (Hash_as_bytes hash))
     in if recommended_max_dir_size features < 10000 then
          if case_sensitive features then
            str_range 0 2 hash_str @ ''/'' @ str_range 2 4 hash_str @ ''/'' @ drop 4 hash_str
          else
            str_range 0 2 hash_str @ ''/'' @ str_range 2 4 hash_str @ ''/'' @ str_range 4 6 hash_str
              @ ''/'' @ drop 6 hash_str
        else hash_str)"

definition blob_path_for_hash :: "path_codec \<Rightarrow> hash \<Rightarrow> store_features \<Rightarrow> string" where
  "blob_path_for_hash codec hash features = ''blob3/'' @ path_for_hash codec hash features"

definition obao6_path_for_hash :: "path_codec \<Rightarrow> hash \<Rightarrow> store_features \<Rightarrow> string" where
  "obao6_path_for_hash codec hash features = ''obao6/'' @ path_for_hash codec hash features"

definition hash_from_blob_path :: "path_codec \<Rightarrow> string \<Rightarrow> store_features \<Rightarrow> error + hash option" where
  "hash_from_blob_path codec path features =
    (if \<not> prefix ''blob3/'' path then Inr None
     else
       let rest = drop (length ''blob3/'') path;
           encoded = filter (\<lambda>c. c \<noteq> CHR ''/'') rest
       in if encoded = [] then Inr None
          else
            let bytes =
                  (if case_sensitive features then
                     case b64_decode codec encoded of
                       Inl e \<Rightarrow> Inl (Io InvalidData e)
                     | Inr bs \<Rightarrow> Inr (Some bs)
                   else if \<not> b32_is_valid codec encoded then Inr None
                   else case b32_decoded_len codec (length encoded) of
                       None \<Rightarrow> Inr None
                     | Some _ \<Rightarrow> Inr (Some (b32_decode codec encoded)))
            in case bytes of
                 Inl e \<Rightarrow> Inl e
               | Inr None \<Rightarrow> Inr None
               | Inr (Some bs) \<Rightarrow>
                  if length bs \<noteq> 32 then Inr None else Inr (Some (Hash_from_bytes (arr32 bs))))"

text \<open>The codecs invert themselves on hashes, write no slash and at least six characters.\<close>

definition path_codec_ok :: "path_codec \<Rightarrow> bool" where
  "path_codec_ok codec =
    (\<forall>h :: hash. let bs = arr_list h in
       b64_decode codec (b64_encode codec bs) = Inr bs
     \<and> b32_decode codec (b32_encode codec bs) = bs
     \<and> b32_is_valid codec (b32_encode codec bs)
     \<and> b32_decoded_len codec (length (b32_encode codec bs)) = Some (length bs)
     \<and> CHR ''/'' \<notin> set (b64_encode codec bs) \<and> CHR ''/'' \<notin> set (b32_encode codec bs)
     \<and> 6 \<le> length (b64_encode codec bs) \<and> 6 \<le> length (b32_encode codec bs))"

section \<open>Reading a hash back from its path\<close>

lemma path_codec_okD:
  assumes "path_codec_ok codec"
  shows "b64_decode codec (b64_encode codec (arr_list h)) = Inr (arr_list h)"
    "b32_decode codec (b32_encode codec (arr_list h)) = arr_list h"
    "b32_is_valid codec (b32_encode codec (arr_list h))"
    "b32_decoded_len codec (length (b32_encode codec (arr_list h))) = Some 32"
    "CHR ''/'' \<notin> set (b64_encode codec (arr_list h))" "CHR ''/'' \<notin> set (b32_encode codec (arr_list h))"
    "b64_encode codec (arr_list h) \<noteq> []" "b32_encode codec (arr_list h) \<noteq> []"
proof -
  have *: "\<And>h. let bs = arr_list h in
       b64_decode codec (b64_encode codec bs) = Inr bs
     \<and> b32_decode codec (b32_encode codec bs) = bs
     \<and> b32_is_valid codec (b32_encode codec bs)
     \<and> b32_decoded_len codec (length (b32_encode codec bs)) = Some (length bs)
     \<and> CHR ''/'' \<notin> set (b64_encode codec bs) \<and> CHR ''/'' \<notin> set (b32_encode codec bs)
     \<and> 6 \<le> length (b64_encode codec bs) \<and> 6 \<le> length (b32_encode codec bs)"
    using assms by (simp add: path_codec_ok_def)
  show "b64_decode codec (b64_encode codec (arr_list h)) = Inr (arr_list h)"
    "b32_decode codec (b32_encode codec (arr_list h)) = arr_list h"
    "b32_is_valid codec (b32_encode codec (arr_list h))"
    "b32_decoded_len codec (length (b32_encode codec (arr_list h))) = Some 32"
    "CHR ''/'' \<notin> set (b64_encode codec (arr_list h))" "CHR ''/'' \<notin> set (b32_encode codec (arr_list h))"
    "b64_encode codec (arr_list h) \<noteq> []" "b32_encode codec (arr_list h) \<noteq> []"
    using *[of h] by (auto simp: Let_def)
qed

lemma filter_no_slash: "CHR ''/'' \<notin> set s \<Longrightarrow> filter (\<lambda>c. c \<noteq> CHR ''/'') s = s"
  by (rule filter_True) auto

lemma str_range_split: "i \<le> j \<Longrightarrow> str_range i j s @ drop j s = drop i s"
  unfolding str_range_def by (metis append_take_drop_id drop_drop le_add_diff_inverse2)

lemma filter_path:
  assumes "CHR ''/'' \<notin> set s"
  shows "filter (\<lambda>c. c \<noteq> CHR ''/'') (str_range 0 2 s @ ''/'' @ str_range 2 4 s @ ''/'' @ drop 4 s) = s"
    "filter (\<lambda>c. c \<noteq> CHR ''/'')
       (str_range 0 2 s @ ''/'' @ str_range 2 4 s @ ''/'' @ str_range 4 6 s @ ''/'' @ drop 6 s) = s"
proof -
  have ns: "CHR ''/'' \<notin> set (str_range i j s)" "CHR ''/'' \<notin> set (drop i s)" for i j
    using assms by (auto simp: str_range_def dest!: in_set_takeD in_set_dropD)
  have s2: "str_range 0 2 s @ drop 2 s = s" "str_range 2 4 s @ drop 4 s = drop 2 s"
    "str_range 4 6 s @ drop 6 s = drop 4 s"
    by (simp_all add: str_range_split)
  show "filter (\<lambda>c. c \<noteq> CHR ''/'') (str_range 0 2 s @ ''/'' @ str_range 2 4 s @ ''/'' @ drop 4 s) = s"
    "filter (\<lambda>c. c \<noteq> CHR ''/'')
       (str_range 0 2 s @ ''/'' @ str_range 2 4 s @ ''/'' @ str_range 4 6 s @ ''/'' @ drop 6 s) = s"
    by (simp_all add: filter_no_slash ns s2)
qed

definition hash_str_of :: "path_codec \<Rightarrow> hash \<Rightarrow> store_features \<Rightarrow> string" where
  "hash_str_of codec h f =
    (if case_sensitive f then b64_encode codec (arr_list h) else b32_encode codec (arr_list h))"

lemma filter_path_for_hash:
  assumes "path_codec_ok codec"
  shows "filter (\<lambda>c. c \<noteq> CHR ''/'') (path_for_hash codec h f) = hash_str_of codec h f"
  using path_codec_okD(5,6)[OF assms, of h]
  by (simp only: path_for_hash_def Let_def hash_str_of_def Hash_as_bytes_def filter_path filter_no_slash
      if_True if_False simp_thms split: if_split)

lemma hash_from_blob_path_inverse:
  assumes "path_codec_ok codec"
  shows "hash_from_blob_path codec (blob_path_for_hash codec h f) f = Inr (Some h)"
  using path_codec_okD[OF assms, of h]
  by (simp add: hash_from_blob_path_def blob_path_for_hash_def filter_path_for_hash[OF assms] Let_def
      hash_str_of_def Hash_from_bytes_def)

lemma blob_path_inject:
  assumes "path_codec_ok codec"
  shows "blob_path_for_hash codec h f = blob_path_for_hash codec h' f \<longleftrightarrow> h = h'"
  using hash_from_blob_path_inverse[OF assms] by (metis option.inject sum.inject(2))

lemma obao6_path_inject:
  assumes "path_codec_ok codec"
  shows "obao6_path_for_hash codec h f = obao6_path_for_hash codec h' f \<longleftrightarrow> h = h'"
  using blob_path_inject[OF assms, of h f h'] by (simp add: blob_path_for_hash_def obao6_path_for_hash_def)

lemma path_kinds_distinct [simp]:
  "blob_path_for_hash codec h f \<noteq> obao6_path_for_hash codec' h' f'"
  "blob_path_for_hash codec h f \<noteq> tmp_path u" "tmp_path u \<noteq> blob_path_for_hash codec h f"
  "obao6_path_for_hash codec h f \<noteq> tmp_path u" "tmp_path u \<noteq> obao6_path_for_hash codec h f"
  "obao6_path_for_hash codec' h' f' \<noteq> blob_path_for_hash codec h f"
  by (simp_all add: blob_path_for_hash_def obao6_path_for_hash_def tmp_path_def)

lemma hash_from_non_blob_path:
  "hash_from_blob_path codec (obao6_path_for_hash codec h f) f = Inr None"
  "hash_from_blob_path codec (tmp_path u) f = Inr None"
  by (simp_all add: hash_from_blob_path_def obao6_path_for_hash_def tmp_path_def)

section \<open>A codec that satisfies the hypotheses\<close>

text \<open>Two letters for every byte.\<close>

definition nibble_char :: "nat \<Rightarrow> char" where
  "nibble_char n = char_of (97 + n)"

fun char_pairs :: "bytes \<Rightarrow> string" where
  "char_pairs [] = []"
| "char_pairs (b # bs) = nibble_char (unat b div 16) # nibble_char (unat b mod 16) # char_pairs bs"

fun unpair_chars :: "string \<Rightarrow> bytes" where
  "unpair_chars (c # d # cs) = of_nat (16 * (of_char c - 97) + (of_char d - 97)) # unpair_chars cs"
| "unpair_chars _ = []"

definition demo_codec :: path_codec where
  "demo_codec = \<lparr>b64_encode = char_pairs, b64_decode = (\<lambda>s. Inr (unpair_chars s)),
     b32_encode = char_pairs, b32_is_valid = (\<lambda>_. True), b32_decoded_len = (\<lambda>n. Some (n div 2)),
     b32_decode = unpair_chars\<rparr>"

lemma of_nibble_char [simp]: "n < 16 \<Longrightarrow> of_char (nibble_char n) = (97 + n :: nat)"
  by (simp add: nibble_char_def of_char_of)

lemma unpair_char_pairs: "unpair_chars (char_pairs bs) = bs"
proof (induction bs)
  case (Cons b bs)
  have "unat b div 16 < 16" using unat_byte_less[of b] by simp
  then show ?case by (simp add: Cons)
qed simp

lemma length_char_pairs: "length (char_pairs bs) = 2 * length bs"
  by (induction bs) simp_all

lemma slash_char_pairs: "CHR ''/'' \<notin> set (char_pairs bs)"
proof (induction bs)
  case (Cons b bs)
  have "nibble_char n \<noteq> CHR ''/''" if "n < 16" for n
    using of_nibble_char[OF that] by (auto dest: arg_cong[of _ _ "of_char :: char \<Rightarrow> nat"])
  moreover have "unat b div 16 < 16" using unat_byte_less[of b] by simp
  ultimately show ?case using Cons by (metis char_pairs.simps(2) mod_less_divisor set_ConsD zero_less_numeral)
qed simp

lemma demo_codec_ok: "path_codec_ok demo_codec"
  by (simp add: path_codec_ok_def Let_def demo_codec_def unpair_char_pairs length_char_pairs slash_char_pairs)

section \<open>Properties\<close>

text \<open>Blob paths identify hashes: for every store configuration (either alphabet, any directory
  fan-out) the hash is read back from its blob path, so distinct hashes have distinct paths, and
  neither an outboard path nor a temporary path is taken for a blob.\<close>

theorem blob_path_roundtrip:
  assumes "path_codec_ok codec"
  shows "hash_from_blob_path codec (blob_path_for_hash codec h f) f = Inr (Some h)
    \<and> (blob_path_for_hash codec h f = blob_path_for_hash codec h' f \<longleftrightarrow> h = h')
    \<and> hash_from_blob_path codec (obao6_path_for_hash codec h f) f = Inr None
    \<and> hash_from_blob_path codec (tmp_path u) f = Inr None"
  using hash_from_blob_path_inverse[OF assms] blob_path_inject[OF assms] hash_from_non_blob_path by blast

theorem blob_path_roundtrip_witness:
  "path_codec_ok demo_codec \<and>
   hash_from_blob_path demo_codec (blob_path_for_hash demo_codec (fill32 7) MemoryStore_features)
     MemoryStore_features = Inr (Some (fill32 7))"
  using blob_path_roundtrip[OF demo_codec_ok] demo_codec_ok by blast

end
