(* ===== verification/Tee_Stream.thy ===== *)
theory Tee_Stream
  imports Store
begin

text \<open>
  \<^verbatim>\<open>TeeStream\<close> and \<^verbatim>\<open>HasherWriter\<close> of \<^verbatim>\<open>s5_core/src/blob/import.rs\<close>: a stream that hands every chunk on
  and writes it to a second sink before the next one. \<open>poll_next\<close> contains an unbounded loop; it is a
  partial function whose value \<open>None\<close> is the loop that never returns.
\<close>

section \<open>Definitions\<close>

datatype 'a poll = Ready 'a | Pending

text \<open>The inner stream as the answers it gives to successive polls; past the end it answers
  \<^verbatim>\<open>Ready(None)\<close>.\<close>

type_synonym poll_stream = "chunk poll list"

fun stream_poll_next :: "poll_stream \<Rightarrow> chunk option poll \<times> poll_stream" where
  "stream_poll_next [] = (Ready None, [])"
| "stream_poll_next (Pending # s) = (Pending, s)"
| "stream_poll_next (Ready c # s) = (Ready (Some c), s)"

record 'wr tee_stream =
  tee_stream :: poll_stream
  tee_writer :: 'wr
  tee_write_buf :: "bytes option"
  tee_stream_done :: bool

record 'wr async_write =
  poll_write :: "'wr \<Rightarrow> bytes \<Rightarrow> (error + nat) poll \<times> 'wr"
  poll_shutdown :: "'wr \<Rightarrow> (error + unit) poll \<times> 'wr"

definition TeeStream_new :: "poll_stream \<Rightarrow> 'wr \<Rightarrow> 'wr tee_stream" where
  "TeeStream_new stream writer =
    \<lparr>tee_stream = stream, tee_writer = writer, tee_write_buf = None, tee_stream_done = False\<rparr>"

text \<open>One run through the loop body returns, or goes around with a new state.\<close>

datatype ('r, 't) flow = Return 'r 't | Again 't

definition TeeStream_pull :: "'wr async_write \<Rightarrow> 'wr tee_stream \<Rightarrow> (chunk option poll, 'wr tee_stream) flow" where
  "TeeStream_pull wr this =
    (if tee_stream_done this then
       (case poll_shutdown wr (tee_writer this) of
          (Ready _, w) \<Rightarrow> Return (Ready None) (this\<lparr>tee_writer := w\<rparr>)
        | (Pending, w) \<Rightarrow> Return Pending (this\<lparr>tee_writer := w\<rparr>))
     else case stream_poll_next (tee_stream this) of
       (Ready (Some (Inr bs)), s) \<Rightarrow>
         Return (Ready (Some (Inr bs))) (this\<lparr>tee_stream := s, tee_write_buf := Some bs\<rparr>)
     | (Ready (Some (Inl e)), s) \<Rightarrow> Return (Ready (Some (Inl e))) (this\<lparr>tee_stream := s\<rparr>)
     | (Ready None, s) \<Rightarrow> Again (this\<lparr>tee_stream := s, tee_stream_done := True\<rparr>)
     | (Pending, s) \<Rightarrow> Return Pending (this\<lparr>tee_stream := s\<rparr>))"

definition TeeStream_body :: "'wr async_write \<Rightarrow> 'wr tee_stream \<Rightarrow> (chunk option poll, 'wr tee_stream) flow" where
  "TeeStream_body wr this =
    (case tee_write_buf this of
       None \<Rightarrow> TeeStream_pull wr this
     | Some buf \<Rightarrow>
        (case poll_write wr (tee_writer this) buf of
           (Ready (Inr n), w) \<Rightarrow>
             if n = length buf then TeeStream_pull wr (this\<lparr>tee_writer := w, tee_write_buf := None\<rparr>)
             else Again (this\<lparr>tee_writer := w, tee_write_buf := Some (drop n buf)\<rparr>)
         | (Ready (Inl e), w) \<Rightarrow> Return (Ready (Some (Inl e))) (this\<lparr>tee_writer := w\<rparr>)
         | (Pending, w) \<Rightarrow> Return Pending (this\<lparr>tee_writer := w\<rparr>)))"

partial_function (option) TeeStream_poll_next ::
  "'wr async_write \<Rightarrow> 'wr tee_stream \<Rightarrow> (chunk option poll \<times> 'wr tee_stream) option" where
  [code]: "TeeStream_poll_next wr this =
    (case TeeStream_body wr this of
       Return r t \<Rightarrow> Some (r, t)
     | Again t \<Rightarrow> TeeStream_poll_next wr t)"

text \<open>A consumer that polls until the stream ends or fails: the items it sees.\<close>

partial_function (option) TeeStream_drain ::
  "'wr async_write \<Rightarrow> 'wr tee_stream \<Rightarrow> (chunk list \<times> 'wr tee_stream) option" where
  [code]: "TeeStream_drain wr this =
    (case TeeStream_poll_next wr this of
       None \<Rightarrow> None
     | Some (Pending, t) \<Rightarrow> TeeStream_drain wr t
     | Some (Ready None, t) \<Rightarrow> Some ([], t)
     | Some (Ready (Some (Inl e)), t) \<Rightarrow> Some ([Inl e], t)
     | Some (Ready (Some (Inr bs)), t) \<Rightarrow>
         Option.bind (TeeStream_drain wr t) (\<lambda>(items, t'). Some (Inr bs # items, t')))"

text \<open>\<^verbatim>\<open>HasherWriter\<close>: the state of an incremental BLAKE3 hasher is what it has been fed.\<close>

definition HasherWriter :: "bytes async_write" where
  "HasherWriter =
    \<lparr>poll_write = (\<lambda>fed buf. (Ready (Inr (length buf)), fed @ buf)),
     poll_shutdown = (\<lambda>fed. (Ready (Inr ()), fed))\<rparr>"

section \<open>What a consumer sees, and what the writer gets\<close>

text \<open>The items of the inner stream up to the first error, and the bytes before it.\<close>

fun stream_items :: "poll_stream \<Rightarrow> chunk list" where
  "stream_items [] = []"
| "stream_items (Pending # s) = stream_items s"
| "stream_items (Ready (Inl e) # s) = [Inl e]"
| "stream_items (Ready (Inr bs) # s) = Inr bs # stream_items s"

definition buf_bytes :: "'wr tee_stream \<Rightarrow> bytes" where
  "buf_bytes t = (case tee_write_buf t of None \<Rightarrow> [] | Some b \<Rightarrow> b)"

lemma hasher_poll_next_done:
  "tee_stream_done t \<Longrightarrow> TeeStream_poll_next HasherWriter t =
     Some (Ready None, t\<lparr>tee_writer := tee_writer t @ buf_bytes t, tee_write_buf := None\<rparr>)"
  by (subst TeeStream_poll_next.simps)
     (auto simp: TeeStream_body_def TeeStream_pull_def HasherWriter_def buf_bytes_def split: option.splits)

lemma hasher_poll_next:
  assumes "\<not> tee_stream_done t"
  shows "TeeStream_poll_next HasherWriter t =
    (let t' = t\<lparr>tee_writer := tee_writer t @ buf_bytes t, tee_write_buf := None\<rparr> in
     case tee_stream t of
       [] \<Rightarrow> Some (Ready None, t'\<lparr>tee_stream_done := True\<rparr>)
     | Pending # s \<Rightarrow> Some (Pending, t'\<lparr>tee_stream := s\<rparr>)
     | Ready (Inl e) # s \<Rightarrow> Some (Ready (Some (Inl e)), t'\<lparr>tee_stream := s\<rparr>)
     | Ready (Inr bs) # s \<Rightarrow> Some (Ready (Some (Inr bs)), t'\<lparr>tee_stream := s, tee_write_buf := Some bs\<rparr>))"
proof -
  have b: "TeeStream_body HasherWriter t =
      TeeStream_pull HasherWriter (t\<lparr>tee_writer := tee_writer t @ buf_bytes t, tee_write_buf := None\<rparr>)"
    by (cases t) (auto simp: TeeStream_body_def HasherWriter_def buf_bytes_def split: option.splits)
  show ?thesis
    using assms hasher_poll_next_done
    by (subst TeeStream_poll_next.simps)
       (auto simp: b TeeStream_pull_def Let_def buf_bytes_def split: list.splits poll.splits sum.splits)
qed

lemma hasher_drain:
  assumes "\<not> tee_stream_done t"
  shows "\<exists>t'. TeeStream_drain HasherWriter t = Some (stream_items (tee_stream t), t')
    \<and> (\<forall>cs. stream_items (tee_stream t) = map Inr cs \<longrightarrow>
         tee_writer t' = tee_writer t @ buf_bytes t @ concat cs)"
  using assms
proof (induction "tee_stream t" arbitrary: t rule: stream_items.induct)
  case 1
  then show ?case
    by (subst TeeStream_drain.simps) (auto simp: hasher_poll_next Let_def)
next
  case (2 s)
  let ?t = "t\<lparr>tee_writer := tee_writer t @ buf_bytes t, tee_write_buf := None, tee_stream := s\<rparr>"
  from "2.hyps"(2)[symmetric] have "TeeStream_drain HasherWriter t = TeeStream_drain HasherWriter ?t"
    using "2.prems" by (subst TeeStream_drain.simps) (simp add: hasher_poll_next Let_def)
  moreover have "buf_bytes ?t = []" by (simp add: buf_bytes_def)
  ultimately show ?case
    using "2.hyps"(1)[of ?t] "2.hyps"(2)[symmetric] "2.prems" by simp
next
  case (3 e s)
  from "3.hyps"(1)[symmetric] "3.prems" show ?case
    by (subst TeeStream_drain.simps) (auto simp: hasher_poll_next Let_def)
next
  case (4 bs s)
  let ?t = "t\<lparr>tee_writer := tee_writer t @ buf_bytes t, tee_stream := s, tee_write_buf := Some bs\<rparr>"
  from "4.hyps"(2)[symmetric] have d: "TeeStream_drain HasherWriter t =
      Option.bind (TeeStream_drain HasherWriter ?t) (\<lambda>(items, t'). Some (Inr bs # items, t'))"
    using "4.prems" by (subst TeeStream_drain.simps) (simp add: hasher_poll_next Let_def)
  have "\<exists>t'. TeeStream_drain HasherWriter ?t = Some (stream_items s, t')
      \<and> (\<forall>cs. stream_items s = map Inr cs \<longrightarrow> tee_writer t' = (tee_writer t @ buf_bytes t) @ bs @ concat cs)"
    using "4.hyps"(1)[of ?t] "4.prems" by (simp add: buf_bytes_def[of ?t])
  then show ?case
    using "4.hyps"(2)[symmetric] by (auto simp: d map_eq_Cons_conv Cons_eq_map_conv)
qed

text \<open>Ready streams, the form in which chunk lists enter.\<close>

lemma stream_items_ready [simp]: "stream_items (map (\<lambda>bs. Ready (Inr bs)) cs) = map Inr cs"
  by (induction cs) simp_all

section \<open>A writer that accepts nothing\<close>

definition StuckWriter :: "unit async_write" where
  "StuckWriter = \<lparr>poll_write = (\<lambda>_ _. (Ready (Inr 0), ())), poll_shutdown = (\<lambda>_. (Ready (Inr ()), ()))\<rparr>"

lemma stuck_body:
  "tee_write_buf t = Some b \<Longrightarrow> b \<noteq> [] \<Longrightarrow> TeeStream_body StuckWriter t = Again t"
  by (simp add: TeeStream_body_def StuckWriter_def)

lemma stuck_poll_next:
  assumes "tee_write_buf t = Some b" "b \<noteq> []"
  shows "TeeStream_poll_next StuckWriter t = None"
proof -
  have "\<not> (\<exists>b. tee_write_buf t = Some b \<and> b \<noteq> [])"
    if "TeeStream_poll_next wr t = Some y" "wr = StuckWriter" for wr t y
    using that
  proof (induction rule: TeeStream_poll_next.raw_induct[rotated, consumes 1])
    case (1 rec wr this y)
    then show ?case
      using stuck_body[of this] by (metis flow.simps(6))
  qed
  with assms show ?thesis by (metis option.exhaust)
qed

text \<open>The loop of \<^verbatim>\<open>poll_next\<close> has no exit for a writer that answers \<^verbatim>\<open>Ok(0)\<close> to a non-empty buffer.\<close>

theorem TeeStream_stuck_on_zero_write:
  "TeeStream_poll_next StuckWriter
     \<lparr>tee_stream = [], tee_writer = (), tee_write_buf = Some [1], tee_stream_done = False\<rparr> = None"
  by (rule stuck_poll_next[where b = "[1]"]) simp_all

section \<open>Properties\<close>

text \<open>C36. Draining a \<^verbatim>\<open>TeeStream\<close> over a hasher always ends: the consumer sees exactly the items of the
  inner stream, pending polls or not, up to its first error, and when there is no error the hasher has
  been fed exactly the bytes the consumer saw.\<close>

theorem TeeStream_hashes_what_it_yields:
  "\<exists>t'. TeeStream_drain HasherWriter (TeeStream_new s []) = Some (stream_items s, t')
    \<and> (\<forall>cs. stream_items s = map Inr cs \<longrightarrow> tee_writer t' = concat cs)"
  using hasher_drain[of "TeeStream_new s []"] by (simp add: TeeStream_new_def buf_bytes_def)

theorem TeeStream_hashes_what_it_yields_witness:
  "\<exists>t'. TeeStream_drain HasherWriter (TeeStream_new [Ready (Inr [1, 2]), Pending, Ready (Inr [3])] [])
      = Some ([Inr [1, 2], Inr [3]], t') \<and> tee_writer t' = [1, 2, 3]"
proof -
  obtain t' where "TeeStream_drain HasherWriter (TeeStream_new [Ready (Inr [1, 2]), Pending, Ready (Inr [3])] [])
      = Some ([Inr [1, 2], Inr [3]], t')"
    and "\<forall>cs. [Inr [1, 2], Inr [3]] = (map Inr cs :: chunk list) \<longrightarrow> tee_writer t' = concat cs"
    using TeeStream_hashes_what_it_yields[of "[Ready (Inr [1, 2]), Pending, Ready (Inr [3])]"] by auto
  moreover have "tee_writer t' = concat [[1, 2], [3]]"
    using calculation(2)[rule_format, of "[[1, 2], [3]]"] by simp
  ultimately show ?thesis by simp
qed

end
