(* ===== verification/Blob_Store.thy ===== *)
theory Blob_Store
  imports Paths Tee_Stream
begin

text \<open>
  The content-addressed blob layer over a store: \<^verbatim>\<open>s5_core/src/blob/import.rs\<close>, \<^verbatim>\<open>blob/read.rs\<close>,
  \<^verbatim>\<open>blob/store.rs\<close> and \<^verbatim>\<open>bao/outboard.rs\<close>. BLAKE3 and the bao tree are third-party crates, the fields of
  \<open>hashing\<close>; \<open>bao_ok\<close> says that the root of a bao tree is the BLAKE3 hash of the data.
\<close>

section \<open>Definitions\<close>

record hashing =
  h_blake3 :: "bytes \<Rightarrow> hash"
  h_create_sized :: "bytes \<Rightarrow> u64 \<Rightarrow> error + hash \<times> bytes"
  h_codec :: path_codec

definition bao_ok :: "hashing \<Rightarrow> bool" where
  "bao_ok H = (\<forall>data sz root ob. h_create_sized H data sz = Inr (root, ob) \<longrightarrow> root = h_blake3 H data)"

definition compute_outboard :: "hashing \<Rightarrow> bytes \<Rightarrow> u64 \<Rightarrow> error + hash \<times> bytes option" where
  "compute_outboard H read sz =
    (case h_create_sized H read sz of
       Inl e \<Rightarrow> Inl e
     | Inr (root, data) \<Rightarrow> Inr (root, if data \<noteq> [] then Some data else None))"

record 'w blob_store =
  bs_store :: "'w store"
  bs_outboard_store :: "'w store option"

definition BlobStore_new :: "'w store \<Rightarrow> 'w blob_store" where
  "BlobStore_new store = \<lparr>bs_store = store, bs_outboard_store = Some store\<rparr>"

definition BlobStore_without_outboard :: "'w store \<Rightarrow> 'w blob_store" where
  "BlobStore_without_outboard store = \<lparr>bs_store = store, bs_outboard_store = None\<rparr>"

definition BlobStore_with_outboard :: "'w store \<Rightarrow> 'w store option \<Rightarrow> 'w blob_store" where
  "BlobStore_with_outboard store outboard_store = \<lparr>bs_store = store, bs_outboard_store = outboard_store\<rparr>"

definition BlobStore_blob_path_for_hash :: "hashing \<Rightarrow> 'w blob_store \<Rightarrow> hash \<Rightarrow> string" where
  "BlobStore_blob_path_for_hash H self hash =
    blob_path_for_hash (h_codec H) hash (st_features (bs_store self))"

subsection \<open>Import\<close>

definition put_outboard :: "hashing \<Rightarrow> 'w store option \<Rightarrow> hash \<Rightarrow> bytes option \<Rightarrow> ('w, unit) action" where
  "put_outboard H outboard_store hash outboard =
    (case (outboard, outboard_store) of
       (Some outboard_data, Some obao_store) \<Rightarrow>
         st_put_bytes obao_store (obao6_path_for_hash (h_codec H) hash (st_features obao_store)) outboard_data
     | _ \<Rightarrow> act_ok ())"

definition finalize_import ::
  "hashing \<Rightarrow> 'w store \<Rightarrow> 'w store option \<Rightarrow> string \<Rightarrow> hash \<Rightarrow> u64 \<Rightarrow> bytes option
   \<Rightarrow> ('w, hash \<times> u64) action" where
  "finalize_import H store outboard_store temp_path hash sz outboard =
    act_bind (put_outboard H outboard_store hash outboard) (\<lambda>_.
    let final_path = blob_path_for_hash (h_codec H) hash (st_features store) in
    act_bind (act_read (st_exists store final_path)) (\<lambda>ex.
    act_bind
      (if ex then st_delete store temp_path
       else if supports_rename (st_features store) then st_rename store temp_path final_path
       else act_bind (act_read (st_open_read_stream store temp_path 0 None)) (\<lambda>stream.
            act_bind (st_put_stream store final_path stream) (\<lambda>_.
            st_delete store temp_path)))
      (\<lambda>_. act_ok (hash, sz))))"

definition import_bytes ::
  "hashing \<Rightarrow> 'w store \<Rightarrow> 'w store option \<Rightarrow> string \<Rightarrow> bytes \<Rightarrow> ('w, blob_id) action" where
  "import_bytes H store outboard_store uuid bs =
    (let sz = of_nat (length bs) :: u64;
         compute_outboard_flag = (outboard_store \<noteq> None \<and> sz \<ge> push_bit 16 1)
     in act_bind (act_lift (if compute_outboard_flag then compute_outboard H bs sz
                            else Inr (h_blake3 H bs, None))) (\<lambda>(hash, obao).
        act_bind (put_outboard H outboard_store hash obao) (\<lambda>_.
        let final_path = blob_path_for_hash (h_codec H) hash (st_features store) in
        act_bind (act_read (st_exists store final_path)) (\<lambda>ex.
        if ex then act_ok \<lparr>bid_hash = hash, bid_size = sz\<rparr>
        else if supports_rename (st_features store) then
          act_bind (st_put_temp store uuid [Inr bs]) (\<lambda>temp_path.
          act_bind (finalize_import H store outboard_store temp_path hash sz obao) (\<lambda>(hash, sz).
          act_ok \<lparr>bid_hash = hash, bid_size = sz\<rparr>))
        else
          act_bind (st_put_bytes store final_path bs) (\<lambda>_.
          act_ok \<lparr>bid_hash = hash, bid_size = sz\<rparr>)))))"

text \<open>\<^verbatim>\<open>compute_from_store\<close> reads the whole object through its stream; the read fails at the stream's
  first error.\<close>

definition compute_from_store ::
  "hashing \<Rightarrow> 'w store \<Rightarrow> 'w store option \<Rightarrow> string \<Rightarrow> u64 \<Rightarrow> 'w \<Rightarrow> error + hash \<times> bytes option" where
  "compute_from_store H store outboard_store path sz w =
    (case st_open_read_stream store path 0 None w of
       Inl e \<Rightarrow> Inl e
     | Inr stream \<Rightarrow>
        (case try_collect stream of
           Inl e \<Rightarrow> Inl e
         | Inr cs \<Rightarrow>
            if outboard_store \<noteq> None then compute_outboard H (concat cs) sz
            else Inr (h_blake3 H (concat cs), None)))"

text \<open>The stream that the store consumes and the bytes the hasher has then been fed.\<close>

definition hashed_stream :: "poll_stream \<Rightarrow> chunk list \<times> bytes" where
  "hashed_stream stream =
    (case the (TeeStream_drain HasherWriter (TeeStream_new stream [])) of
       (items, tee) \<Rightarrow> (items, tee_writer tee))"

definition import_stream ::
  "hashing \<Rightarrow> 'w store \<Rightarrow> 'w store option \<Rightarrow> string \<Rightarrow> poll_stream \<Rightarrow> ('w, blob_id) action" where
  "import_stream H store outboard_store uuid stream =
    (case hashed_stream stream of (items, hashed) \<Rightarrow>
       act_bind (st_put_temp store uuid items) (\<lambda>temp_path.
       act_bind (act_read (st_size store temp_path)) (\<lambda>sz.
       let hash = h_blake3 H hashed in
       act_bind
         (if outboard_store \<noteq> None then
            act_bind (act_read (compute_from_store H store outboard_store temp_path sz)) (\<lambda>(h2, ob).
            if h2 \<noteq> hash then act_err (Anyhow ''Hash mismatch during import'') else act_ok ob)
          else act_ok None)
         (\<lambda>outboard.
       act_bind (finalize_import H store outboard_store temp_path hash sz outboard) (\<lambda>(hash, sz).
       act_ok \<lparr>bid_hash = hash, bid_size = sz\<rparr>)))))"

text \<open>\<^verbatim>\<open>import_file\<close>: the length from the file's metadata, then its chunks, teed into a pipe that the
  hashing task reads to the end. The file system's answers are arguments.\<close>

definition import_file ::
  "hashing \<Rightarrow> 'w store \<Rightarrow> 'w store option \<Rightarrow> string \<Rightarrow> error + u64 \<Rightarrow> error + chunk list
   \<Rightarrow> ('w, blob_id) action" where
  "import_file H store outboard_store uuid metadata_len file_chunks =
    act_bind (act_lift metadata_len) (\<lambda>sz.
    act_bind (act_lift file_chunks) (\<lambda>stream.
    act_bind (st_put_temp store uuid stream) (\<lambda>temp_path.
    act_bind (act_lift (case try_collect stream of
                Inl e \<Rightarrow> Inl e
              | Inr cs \<Rightarrow> if outboard_store \<noteq> None then compute_outboard H (concat cs) sz
                         else Inr (h_blake3 H (concat cs), None))) (\<lambda>(hash, outboard).
    act_bind (finalize_import H store outboard_store temp_path hash sz outboard) (\<lambda>(hash, sz).
    act_ok \<lparr>bid_hash = hash, bid_size = sz\<rparr>)))))"

subsection \<open>Reading, deleting, listing\<close>

definition read_as_bytes :: "hashing \<Rightarrow> 'w store \<Rightarrow> hash \<Rightarrow> u64 \<Rightarrow> u64 option \<Rightarrow> 'w \<Rightarrow> error + bytes" where
  "read_as_bytes H store hash offset max_len =
    st_open_read_bytes store (blob_path_for_hash (h_codec H) hash (st_features store)) offset max_len"

definition read_stream :: "hashing \<Rightarrow> 'w store \<Rightarrow> hash \<Rightarrow> 'w \<Rightarrow> error + chunk list" where
  "read_stream H store hash =
    st_open_read_stream store (blob_path_for_hash (h_codec H) hash (st_features store)) 0 None"

definition provide :: "hashing \<Rightarrow> 'w store \<Rightarrow> hash \<Rightarrow> 'w \<Rightarrow> error + blob_location list" where
  "provide H store hash = st_provide store (blob_path_for_hash (h_codec H) hash (st_features store))"

definition provide_obao6 :: "hashing \<Rightarrow> 'w store option \<Rightarrow> hash \<Rightarrow> 'w \<Rightarrow> error + blob_location list" where
  "provide_obao6 H outboard_store hash w =
    (case outboard_store of
       Some obao_store \<Rightarrow> st_provide obao_store (obao6_path_for_hash (h_codec H) hash (st_features obao_store)) w
     | None \<Rightarrow> Inr [])"

definition contains :: "hashing \<Rightarrow> 'w store \<Rightarrow> hash \<Rightarrow> 'w \<Rightarrow> error + bool" where
  "contains H store hash = st_exists store (blob_path_for_hash (h_codec H) hash (st_features store))"

definition contains_obao6 :: "hashing \<Rightarrow> 'w store option \<Rightarrow> hash \<Rightarrow> 'w \<Rightarrow> error + bool" where
  "contains_obao6 H outboard_store hash w =
    (case outboard_store of
       Some obao_store \<Rightarrow> st_exists obao_store (obao6_path_for_hash (h_codec H) hash (st_features obao_store)) w
     | None \<Rightarrow> Inr False)"

definition blob_size :: "hashing \<Rightarrow> 'w store \<Rightarrow> hash \<Rightarrow> 'w \<Rightarrow> error + u64" where
  "blob_size H store hash = st_size store (blob_path_for_hash (h_codec H) hash (st_features store))"

text \<open>The methods of \<^verbatim>\<open>BlobStore\<close>.\<close>

definition BlobStore_delete :: "hashing \<Rightarrow> 'w blob_store \<Rightarrow> hash \<Rightarrow> ('w, unit) action" where
  "BlobStore_delete H self hash =
    act_bind (st_delete (bs_store self) (BlobStore_blob_path_for_hash H self hash)) (\<lambda>_ w.
    case bs_outboard_store self of
      None \<Rightarrow> (Inr (), w)
    | Some obao_store \<Rightarrow>
       (Inr (), snd (st_delete obao_store (obao6_path_for_hash (h_codec H) hash (st_features obao_store)) w)))"

definition BlobStore_size :: "hashing \<Rightarrow> 'w blob_store \<Rightarrow> hash \<Rightarrow> 'w \<Rightarrow> error + u64" where
  "BlobStore_size H self hash = blob_size H (bs_store self) hash"

definition BlobStore_contains :: "hashing \<Rightarrow> 'w blob_store \<Rightarrow> hash \<Rightarrow> 'w \<Rightarrow> error + bool" where
  "BlobStore_contains H self hash = contains H (bs_store self) hash"

definition BlobStore_contains_obao6 :: "hashing \<Rightarrow> 'w blob_store \<Rightarrow> hash \<Rightarrow> 'w \<Rightarrow> error + bool" where
  "BlobStore_contains_obao6 H self hash = contains_obao6 H (bs_outboard_store self) hash"

definition BlobStore_provide :: "hashing \<Rightarrow> 'w blob_store \<Rightarrow> hash \<Rightarrow> 'w \<Rightarrow> error + blob_location list" where
  "BlobStore_provide H self hash = provide H (bs_store self) hash"

definition BlobStore_provide_obao6 :: "hashing \<Rightarrow> 'w blob_store \<Rightarrow> hash \<Rightarrow> 'w \<Rightarrow> error + blob_location list" where
  "BlobStore_provide_obao6 H self hash = provide_obao6 H (bs_outboard_store self) hash"

definition BlobStore_read_as_bytes ::
  "hashing \<Rightarrow> 'w blob_store \<Rightarrow> hash \<Rightarrow> u64 \<Rightarrow> u64 option \<Rightarrow> 'w \<Rightarrow> error + bytes" where
  "BlobStore_read_as_bytes H self hash offset max_len = read_as_bytes H (bs_store self) hash offset max_len"

definition BlobStore_read_stream :: "hashing \<Rightarrow> 'w blob_store \<Rightarrow> hash \<Rightarrow> 'w \<Rightarrow> error + chunk list" where
  "BlobStore_read_stream H self hash = read_stream H (bs_store self) hash"

definition BlobStore_import_bytes :: "hashing \<Rightarrow> 'w blob_store \<Rightarrow> string \<Rightarrow> bytes \<Rightarrow> ('w, blob_id) action" where
  "BlobStore_import_bytes H self uuid bs = import_bytes H (bs_store self) (bs_outboard_store self) uuid bs"

definition BlobStore_import_stream ::
  "hashing \<Rightarrow> 'w blob_store \<Rightarrow> string \<Rightarrow> poll_stream \<Rightarrow> ('w, blob_id) action" where
  "BlobStore_import_stream H self uuid stream = import_stream H (bs_store self) (bs_outboard_store self) uuid stream"

definition BlobStore_import_file ::
  "hashing \<Rightarrow> 'w blob_store \<Rightarrow> string \<Rightarrow> error + u64 \<Rightarrow> error + chunk list \<Rightarrow> ('w, blob_id) action" where
  "BlobStore_import_file H self uuid metadata_len file_chunks =
    import_file H (bs_store self) (bs_outboard_store self) uuid metadata_len file_chunks"

fun list_hashes_loop :: "hashing \<Rightarrow> store_features \<Rightarrow> (error + string) list \<Rightarrow> hash list \<Rightarrow> error + hash list" where
  "list_hashes_loop H features [] hashes = Inr hashes"
| "list_hashes_loop H features (Inl e # stream) hashes = Inl e"
| "list_hashes_loop H features (Inr path # stream) hashes =
    (case hash_from_blob_path (h_codec H) path features of
       Inl e \<Rightarrow> Inl e
     | Inr (Some hash) \<Rightarrow> list_hashes_loop H features stream (hashes @ [hash])
     | Inr None \<Rightarrow> list_hashes_loop H features stream hashes)"

definition BlobStore_list_hashes :: "hashing \<Rightarrow> 'w blob_store \<Rightarrow> 'w \<Rightarrow> error + hash list" where
  "BlobStore_list_hashes H self w =
    (case st_list (bs_store self) w of
       Inl e \<Rightarrow> Inl e
     | Inr stream \<Rightarrow> list_hashes_loop H (st_features (bs_store self)) stream [])"

text \<open>The \<^verbatim>\<open>BlobsRead\<close> and \<^verbatim>\<open>BlobsWrite\<close> traits on \<^verbatim>\<open>BlobStore\<close>.\<close>

definition blob_download :: "hashing \<Rightarrow> 'w blob_store \<Rightarrow> hash \<Rightarrow> 'w \<Rightarrow> error + bytes" where
  "blob_download H self hash = BlobStore_read_as_bytes H self hash 0 None"

definition blob_download_slice ::
  "hashing \<Rightarrow> 'w blob_store \<Rightarrow> hash \<Rightarrow> u64 \<Rightarrow> u64 option \<Rightarrow> 'w \<Rightarrow> error + bytes" where
  "blob_download_slice H self hash offset max_len = BlobStore_read_as_bytes H self hash offset max_len"

definition blob_upload_bytes :: "hashing \<Rightarrow> 'w blob_store \<Rightarrow> string \<Rightarrow> bytes \<Rightarrow> ('w, blob_id) action" where
  "blob_upload_bytes H self uuid bs = BlobStore_import_bytes H self uuid bs"

definition blob_upload_reader ::
  "hashing \<Rightarrow> 'w blob_store \<Rightarrow> string \<Rightarrow> hash \<Rightarrow> poll_stream \<Rightarrow> ('w, blob_id) action" where
  "blob_upload_reader H self uuid hash reader =
    act_bind (BlobStore_import_stream H self uuid reader) (\<lambda>blob_id.
    if bid_hash blob_id \<noteq> hash then act_err (HashMismatch hash (bid_hash blob_id)) else act_ok blob_id)"

definition blob_upload_stream :: "hashing \<Rightarrow> 'w blob_store \<Rightarrow> string \<Rightarrow> poll_stream \<Rightarrow> ('w, blob_id) action" where
  "blob_upload_stream H self uuid stream = BlobStore_import_stream H self uuid stream"

section \<open>What a blob store holds\<close>

definition blob_at ::
  "hashing \<Rightarrow> 'w store \<Rightarrow> ('w \<Rightarrow> string \<Rightarrow> bytes option) \<Rightarrow> 'w \<Rightarrow> hash \<Rightarrow> bytes option" where
  "blob_at H ops contents w h = contents w (blob_path_for_hash (h_codec H) h (st_features ops))"

text \<open>The content-addressing invariant: what is stored under a hash has that hash.\<close>

definition content_addressed :: "hashing \<Rightarrow> 'w store \<Rightarrow> ('w \<Rightarrow> string \<Rightarrow> bytes option) \<Rightarrow> 'w \<Rightarrow> bool" where
  "content_addressed H ops contents w \<longleftrightarrow>
    (\<forall>h c. blob_at H ops contents w h = Some c \<longrightarrow> h_blake3 H c = h)"

text \<open>An import adds at most the blob \<open>c\<close> under \<open>h\<close>, and never replaces or drops a blob.\<close>

definition adds_blob ::
  "hashing \<Rightarrow> 'w store \<Rightarrow> ('w \<Rightarrow> string \<Rightarrow> bytes option) \<Rightarrow> hash \<Rightarrow> bytes \<Rightarrow> 'w \<Rightarrow> 'w \<Rightarrow> bool" where
  "adds_blob H ops contents h c w w' \<longleftrightarrow>
    (\<forall>h'. blob_at H ops contents w' h' = blob_at H ops contents w h'
      \<or> h' = h \<and> blob_at H ops contents w h = None \<and> blob_at H ops contents w' h = Some c)"

lemma adds_blob_refl: "(\<And>h. blob_at H ops ct w' h = blob_at H ops ct w h) \<Longrightarrow> adds_blob H ops ct h c w w'"
  by (simp add: adds_blob_def)

lemma adds_blobI:
  "(\<And>h'. h' \<noteq> h \<Longrightarrow> blob_at H ops ct w' h' = blob_at H ops ct w h') \<Longrightarrow>
   blob_at H ops ct w' h = blob_at H ops ct w h
     \<or> blob_at H ops ct w h = None \<and> blob_at H ops ct w' h = Some c \<Longrightarrow>
   adds_blob H ops ct h c w w'"
  unfolding adds_blob_def by metis

lemma adds_blob_trans:
  "adds_blob H ops ct h c w w' \<Longrightarrow> adds_blob H ops ct h c w' w'' \<Longrightarrow> adds_blob H ops ct h c w w''"
  unfolding adds_blob_def by metis

lemma adds_blob_keeps:
  "adds_blob H ops ct h c w w' \<Longrightarrow> blob_at H ops ct w h' = Some d \<Longrightarrow> blob_at H ops ct w' h' = Some d"
  unfolding adds_blob_def by (metis option.distinct(1))

lemma adds_blob_content_addressed:
  "adds_blob H ops ct h c w w' \<Longrightarrow> h_blake3 H c = h \<Longrightarrow> content_addressed H ops ct w
    \<Longrightarrow> content_addressed H ops ct w'"
  unfolding adds_blob_def content_addressed_def by (metis option.inject option.distinct(1))

text \<open>The outboard store, whichever it is, writes no blob and no temporary object.\<close>

definition outboard_frame ::
  "hashing \<Rightarrow> 'w store \<Rightarrow> 'w store option \<Rightarrow> ('w \<Rightarrow> string \<Rightarrow> bytes option) \<Rightarrow> ('w \<Rightarrow> bool) \<Rightarrow> string \<Rightarrow> bool" where
  "outboard_frame H ops ob contents iv uuid \<longleftrightarrow>
    (\<forall>o' h d w r w'. ob = Some o' \<longrightarrow> iv w \<longrightarrow>
       st_put_bytes o' (obao6_path_for_hash (h_codec H) h (st_features o')) d w = (r, w') \<longrightarrow>
       iv w' \<and> (\<forall>h'. blob_at H ops contents w' h' = blob_at H ops contents w h')
       \<and> contents w' (tmp_path uuid) = contents w (tmp_path uuid))"

lemma put_outboard_frame:
  assumes "outboard_frame H ops ob ct iv u" "iv w" "put_outboard H ob h d w = (r, w')"
  shows "iv w'" "blob_at H ops ct w' h' = blob_at H ops ct w h'"
    "ct w' (tmp_path u) = ct w (tmp_path u)"
  using assms unfolding put_outboard_def outboard_frame_def
  by (auto split: option.splits)

lemma outboard_frame_None [simp]: "outboard_frame H ops None ct iv u"
  by (simp add: outboard_frame_def)

context store_contract
begin

lemma outboard_frame_same:
  assumes "path_codec_ok (h_codec H)" "\<And>h. good (blob_path_for_hash (h_codec H) h (st_features ops))"
    "\<And>h. good (obao6_path_for_hash (h_codec H) h (st_features ops))" "good (tmp_path u)"
  shows "outboard_frame H ops (Some ops) contents inv u"
  unfolding outboard_frame_def blob_at_def
proof (intro allI impI, goal_cases)
  case (1 o' h d w r w')
  then show ?case using put_bytes_law[OF 1(2) assms(3)[of h], of d r w'] assms(2,4) by simp
qed

text \<open>Steps on the temporary object leave every blob alone.\<close>

lemma tmp_frame:
  assumes "good (tmp_path u)" "\<And>h. good (blob_path_for_hash (h_codec H) h (st_features ops))" "inv w"
  shows "st_delete ops (tmp_path u) w = (r, w') \<Longrightarrow> inv w' \<and> blob_at H ops contents w' = blob_at H ops contents w"
    "st_put_temp ops u st w = (r', w') \<Longrightarrow> inv w' \<and> blob_at H ops contents w' = blob_at H ops contents w"
  subgoal using delete_law[OF assms(3,1)] assms(2) by (simp add: blob_at_def fun_eq_iff)
  subgoal using put_temp_cases(1,2)[OF assms(3,1)] assms(2) by (simp add: blob_at_def fun_eq_iff)
  done

lemma move_in:
  assumes good: "good (tmp_path u)" "\<And>h. good (blob_path_for_hash (h_codec H) h (st_features ops))"
    and pc: "path_codec_ok (h_codec H)"
    and w: "inv w" "contents w (tmp_path u) = Some c" "blob_at H ops contents w h = None"
    and step: "(if supports_rename (st_features ops)
         then st_rename ops (tmp_path u) (blob_path_for_hash (h_codec H) h (st_features ops))
         else act_bind (act_read (st_open_read_stream ops (tmp_path u) 0 None)) (\<lambda>stream.
              act_bind (st_put_stream ops (blob_path_for_hash (h_codec H) h (st_features ops)) stream) (\<lambda>_.
              st_delete ops (tmp_path u)))) w = (r, w')"
  shows "inv w' \<and> adds_blob H ops contents h c w w' \<and> (is_ok r \<longrightarrow> blob_at H ops contents w' h = Some c)"
proof -
  let ?t = "tmp_path u" and ?f = "blob_path_for_hash (h_codec H) h (st_features ops)"
  have inj: "blob_path_for_hash (h_codec H) h' (st_features ops) = ?f \<longleftrightarrow> h' = h" for h'
    by (rule blob_path_inject[OF pc])
  show ?thesis
  proof (cases "supports_rename (st_features ops)")
    case True
    with step have "st_rename ops ?t ?f w = (r, w')" by simp
    note rl = rename_law[OF w(1) good(1) good(2) _ this]
    have fr: "blob_at H ops contents w' h' = blob_at H ops contents w h'" if "h' \<noteq> h" for h'
      using rl good(2) that by (simp add: blob_at_def inj)
    have "blob_at H ops contents w' h = (if is_ok r then Some c else None)"
      using rl w by (simp add: blob_at_def)
    then show ?thesis using rl w(3) adds_blobI[where h = h, OF fr] by auto
  next
    case False
    with step have step: "act_bind (act_read (st_open_read_stream ops ?t 0 None)) (\<lambda>stream.
        act_bind (st_put_stream ops ?f stream) (\<lambda>_. st_delete ops ?t)) w = (r, w')" by simp
    show ?thesis
    proof (cases "st_open_read_stream ops ?t 0 None w")
      case (Inl e)
      with step w show ?thesis by (auto simp: adds_blob_refl act_bind_def)
    next
      case (Inr st)
      obtain r1 w1 where p: "st_put_stream ops ?f st w = (r1, w1)" by fastforce
      note pl = put_stream_law[OF w(1) good(2) p]
      have fr: "blob_at H ops contents w1 h' = blob_at H ops contents w h'" if "h' \<noteq> h" for h'
        using pl good(2) that by (auto simp: blob_at_def inj)
      show ?thesis
      proof (cases r1)
        case e: (Inl e)
        with step Inr p have "r = Inl e" "w' = w1" by (auto simp: act_bind_def)
        moreover from pl e False have "blob_at H ops contents w1 h = blob_at H ops contents w h"
          by (simp add: blob_at_def)
        ultimately show ?thesis using pl adds_blobI[where h = h, OF fr] by simp
      next
        case o: (Inr x)
        with step Inr p have d: "st_delete ops ?t w1 = (r, w')" by (auto simp: act_bind_def)
        from pl o obtain cs where cs: "st = map Inr cs" "contents w1 ?f = Some (concat cs)" by auto
        from stream_law[OF w(1) good(1) Inr] cs(1) w(2) have "concat cs = c" by auto
        then have "blob_at H ops contents w1 h = Some c" using cs(2) by (simp add: blob_at_def)
        moreover have "inv w' \<and> blob_at H ops contents w' = blob_at H ops contents w1"
          using tmp_frame(1)[OF good(1) good(2) _ d] pl by blast
        ultimately show ?thesis using fr w(3) by (auto simp: adds_blob_def)
      qed
    qed
  qed
qed

lemma finalize_import_adds:
  assumes good: "good (tmp_path u)" "\<And>h. good (blob_path_for_hash (h_codec H) h (st_features ops))"
    and pc: "path_codec_ok (h_codec H)" and fr: "outboard_frame H ops ob contents inv u"
    and w: "inv w" "contents w (tmp_path u) = Some c"
    and step: "finalize_import H ops ob (tmp_path u) h sz obd w = (r, w')"
  shows "inv w' \<and> adds_blob H ops contents h c w w'
    \<and> (is_ok r \<longrightarrow> r = Inr (h, sz) \<and> blob_at H ops contents w' h \<noteq> None)"
  using step unfolding finalize_import_def Let_def
proof (cases rule: act_bindE)
  case (err e)
  then show ?thesis using put_outboard_frame[OF fr w(1) err(1)] by (simp add: adds_blob_refl)
next
  case (ok x w1)
  note po = put_outboard_frame[OF fr w(1) ok(1)]
  have a1: "adds_blob H ops contents h c w w1" using po(2) by (rule adds_blob_refl)
  let ?f = "blob_path_for_hash (h_codec H) h (st_features ops)"
  show ?thesis
  proof (cases "st_exists ops ?f w1")
    case (Inl e)
    with ok(2) a1 po(1) show ?thesis by (auto simp: act_bind_def)
  next
    case (Inr ex)
    note ex = exists_law[OF po(1) good(2) Inr]
    obtain r2 w2 where s2: "(if ex then st_delete ops (tmp_path u)
        else if supports_rename (st_features ops) then st_rename ops (tmp_path u) ?f
        else act_bind (act_read (st_open_read_stream ops (tmp_path u) 0 None)) (\<lambda>stream.
             act_bind (st_put_stream ops ?f stream) (\<lambda>_. st_delete ops (tmp_path u)))) w1 = (r2, w2)"
      (is "?step w1 = _") by fastforce
    have r: "(r, w') = (case r2 of Inl e \<Rightarrow> (Inl e, w2) | Inr _ \<Rightarrow> (Inr (h, sz), w2))"
      using ok(2) Inr s2 by (simp add: act_bind_def split: sum.splits)
    have a2: "inv w2 \<and> adds_blob H ops contents h c w1 w2 \<and> (is_ok r2 \<longrightarrow> blob_at H ops contents w2 h \<noteq> None)"
    proof (cases ex)
      case True
      then have "inv w2 \<and> blob_at H ops contents w2 = blob_at H ops contents w1"
        using s2 tmp_frame(1)[OF good(1) good(2) po(1)] by simp
      then show ?thesis using ex True by (simp add: adds_blob_def blob_at_def)
    next
      case False
      then show ?thesis
        using move_in[OF good pc po(1), of c h r2 w2] s2 ex po(3) w(2) by (auto simp: blob_at_def)
    qed
    then show ?thesis using adds_blob_trans[OF a1] r by (auto split: sum.splits)
  qed
qed

end

section \<open>Imports are content-addressed\<close>

lemma compute_outboard_hash: "bao_ok H \<Longrightarrow> compute_outboard H d s = Inr (h, ob) \<Longrightarrow> h = h_blake3 H d"
  by (auto simp: compute_outboard_def bao_ok_def split: sum.splits)

lemma act_bind_lift_Inr: "act_bind (act_lift (Inr x)) f = f x"
  by (rule ext) (simp add: act_bind_def)

lemma hashed_stream_items: "fst (hashed_stream s) = stream_items s"
  and hashed_stream_bytes: "stream_items s = map Inr cs \<Longrightarrow> snd (hashed_stream s) = concat cs"
  using hasher_drain[of "TeeStream_new s []"]
  by (auto simp: hashed_stream_def TeeStream_new_def buf_bytes_def split: prod.splits)

text \<open>The outcome of an import of the bytes \<open>c\<close>, whatever the store did.\<close>

definition import_outcome ::
  "hashing \<Rightarrow> 'w store \<Rightarrow> ('w \<Rightarrow> string \<Rightarrow> bytes option) \<Rightarrow> ('w \<Rightarrow> bool) \<Rightarrow> bytes
   \<Rightarrow> 'w \<Rightarrow> error + blob_id \<Rightarrow> 'w \<Rightarrow> bool" where
  "import_outcome H ops contents iv c w r w' \<longleftrightarrow>
    iv w' \<and> adds_blob H ops contents (h_blake3 H c) c w w'
    \<and> (is_ok r \<longrightarrow> r = Inr \<lparr>bid_hash = h_blake3 H c, bid_size = of_nat (length c)\<rparr>
         \<and> blob_at H ops contents w' (h_blake3 H c) \<noteq> None)"

lemma import_outcome_unchanged:
  "iv w' \<Longrightarrow> (\<And>h. blob_at H ops ct w' h = blob_at H ops ct w h) \<Longrightarrow> import_outcome H ops ct iv c w (Inl e) w'"
  by (simp add: import_outcome_def adds_blob_refl)

lemma import_outcome_after:
  assumes "adds_blob H ops ct (h_blake3 H c) c w w1" "import_outcome H ops ct iv c w1 r w'"
  shows "import_outcome H ops ct iv c w r w'"
  using assms adds_blob_trans[OF assms(1)] by (auto simp: import_outcome_def)

context store_contract
begin

lemma finalize_outcome:
  assumes good: "good (tmp_path u)" "\<And>h. good (blob_path_for_hash (h_codec H) h (st_features ops))"
    and pc: "path_codec_ok (h_codec H)" and fr: "outboard_frame H ops ob contents inv u"
    and w: "inv w" "contents w (tmp_path u) = Some c"
    and step: "act_bind (finalize_import H ops ob (tmp_path u) (h_blake3 H c) (of_nat (length c)) obd)
      (\<lambda>(hash, sz). act_ok \<lparr>bid_hash = hash, bid_size = sz\<rparr>) w = (r, w')"
  shows "import_outcome H ops contents inv c w r w'"
proof -
  obtain r1 where "finalize_import H ops ob (tmp_path u) (h_blake3 H c) (of_nat (length c)) obd w = (r1, w')"
    and r: "r = (case r1 of Inl e \<Rightarrow> Inl e | Inr (h, s) \<Rightarrow> Inr \<lparr>bid_hash = h, bid_size = s\<rparr>)"
    using step by (auto simp: act_bind_def split: prod.splits sum.splits)
  from finalize_import_adds[OF good pc fr w this(1)] r show ?thesis
    by (cases r1) (auto simp: import_outcome_def)
qed

lemma direct_put_outcome:
  assumes good: "\<And>h. good (blob_path_for_hash (h_codec H) h (st_features ops))"
    and pc: "path_codec_ok (h_codec H)" and nr: "\<not> supports_rename (st_features ops)"
    and w: "inv w" "blob_at H ops contents w (h_blake3 H c) = None"
    and step: "act_bind (st_put_bytes ops (blob_path_for_hash (h_codec H) (h_blake3 H c) (st_features ops)) c)
      (\<lambda>_. act_ok \<lparr>bid_hash = h_blake3 H c, bid_size = of_nat (length c)\<rparr>) w = (r, w')"
  shows "import_outcome H ops contents inv c w r w'"
proof -
  obtain r2 where p: "st_put_bytes ops (blob_path_for_hash (h_codec H) (h_blake3 H c) (st_features ops)) c w = (r2, w')"
    and r: "r = (case r2 of Inl e \<Rightarrow> Inl e | Inr _ \<Rightarrow> Inr \<lparr>bid_hash = h_blake3 H c, bid_size = of_nat (length c)\<rparr>)"
    using step by (auto simp: act_bind_def split: prod.splits sum.splits)
  note pl = put_bytes_law[OF w(1) good p]
  have fr: "blob_at H ops contents w' h' = blob_at H ops contents w h'" if "h' \<noteq> h_blake3 H c" for h'
    using pl good that by (simp add: blob_at_def blob_path_inject[OF pc])
  have "blob_at H ops contents w' (h_blake3 H c) = (if is_ok r2 then Some c else None)"
    using pl nr w(2) by (simp add: blob_at_def)
  then show ?thesis
    using pl r w(2) adds_blobI[where h = "h_blake3 H c", OF fr]
    by (cases r2) (simp_all add: import_outcome_def)
qed

lemma staged_put_outcome:
  assumes good: "good (tmp_path u)" "\<And>h. good (blob_path_for_hash (h_codec H) h (st_features ops))"
    and pc: "path_codec_ok (h_codec H)" and fr: "outboard_frame H ops ob contents inv u" and w: "inv w"
    and step: "act_bind (st_put_temp ops u (map Inr cs)) (\<lambda>temp_path.
      act_bind (finalize_import H ops ob temp_path (h_blake3 H (concat cs)) (of_nat (length (concat cs))) obd)
        (\<lambda>(hash, sz). act_ok \<lparr>bid_hash = hash, bid_size = sz\<rparr>)) w = (r, w')"
  shows "import_outcome H ops contents inv (concat cs) w r w'"
  using step
proof (cases rule: act_bindE)
  case (err e)
  then show ?thesis using tmp_frame(2)[OF good w err(1)] by (simp add: import_outcome_unchanged)
next
  case (ok p w1)
  have t: "inv w1" "\<And>h. blob_at H ops contents w1 h = blob_at H ops contents w h"
    using tmp_frame(2)[OF good w ok(1)] by auto
  have "p = tmp_path u" "contents w1 (tmp_path u) = Some (concat cs)"
    using put_temp_cases(3)[OF w good(1) ok(1), of p] by (auto simp: inj_map_eq_map)
  with ok(2) have "import_outcome H ops contents inv (concat cs) w1 r w'"
    using finalize_outcome[OF good pc fr t(1)] by simp
  then show ?thesis by (rule import_outcome_after[OF adds_blob_refl[OF t(2)]])
qed

lemma import_bytes_outcome:
  assumes good: "good (tmp_path u)" "\<And>h. good (blob_path_for_hash (h_codec H) h (st_features ops))"
    and pc: "path_codec_ok (h_codec H)" and bao: "bao_ok H" and fr: "outboard_frame H ops ob contents inv u"
    and w: "inv w" and step: "import_bytes H ops ob u c w = (r, w')"
  shows "import_outcome H ops contents inv c w r w'"
  using step unfolding import_bytes_def Let_def
proof (cases rule: act_bindE)
  case (err e)
  with w show ?thesis by (auto intro: import_outcome_unchanged)
next
  case (ok q w0)
  then have [simp]: "w0 = w" by simp
  obtain obd where q: "q = (h_blake3 H c, obd)"
    using ok(1) compute_outboard_hash[OF bao] by (cases q) (auto split: if_splits)
  let ?f = "blob_path_for_hash (h_codec H) (h_blake3 H c) (st_features ops)"
  from ok(2)[unfolded q prod.case \<open>w0 = w\<close>] show ?thesis
  proof (cases rule: act_bindE)
    case (err e)
    then show ?thesis using put_outboard_frame[OF fr w err(1)] by (simp add: import_outcome_unchanged)
  next
    case (ok x w1)
    note fr1 = put_outboard_frame[OF fr w ok(1)]
    from ok(2) have "import_outcome H ops contents inv c w1 r w'"
    proof (cases rule: act_bindE)
      case (err e)
      with fr1(1) show ?thesis by (auto intro: import_outcome_unchanged)
    next
      case (ok ex w2)
      then have e: "st_exists ops ?f w1 = Inr ex" and [simp]: "w2 = w1" by auto
      have ex: "ex = (blob_at H ops contents w1 (h_blake3 H c) \<noteq> None)"
        using exists_law[OF fr1(1) good(2) e] by (simp add: blob_at_def)
      show ?thesis
      proof (cases ex)
        case True
        with ok(2) ex fr1(1) show ?thesis by (auto simp: import_outcome_def adds_blob_refl)
      next
        case False
        with ok(2) ex show ?thesis
          using staged_put_outcome[OF good pc fr fr1(1), of "[c]" obd r w']
            direct_put_outcome[OF good(2) pc _ fr1(1), of c r w']
          by (simp split: if_splits)
      qed
    qed
    then show ?thesis by (rule import_outcome_after[OF adds_blob_refl[OF fr1(2)]])
  qed
qed

lemma import_stream_outcome:
  assumes good: "good (tmp_path u)" "\<And>h. good (blob_path_for_hash (h_codec H) h (st_features ops))"
    and pc: "path_codec_ok (h_codec H)" and fr: "outboard_frame H ops ob contents inv u"
    and w: "inv w" and step: "import_stream H ops ob u s w = (r, w')"
  shows "(\<exists>cs. stream_items s = map Inr cs \<and> import_outcome H ops contents inv (concat cs) w r w')
    \<or> \<not> is_ok r \<and> inv w' \<and> blob_at H ops contents w' = blob_at H ops contents w"
  using step unfolding import_stream_def case_prod_unfold hashed_stream_items
proof (cases rule: act_bindE)
  case (err e)
  then show ?thesis using tmp_frame(2)[OF good w err(1)] by simp
next
  case (ok p w1)
  have t: "inv w1" "\<And>h. blob_at H ops contents w1 h = blob_at H ops contents w h"
    using tmp_frame(2)[OF good w ok(1)] by auto
  obtain cs where cs: "stream_items s = map Inr cs" "p = tmp_path u" "contents w1 p = Some (concat cs)"
    using put_temp_cases(3)[OF w good(1) ok(1), of p] by auto
  note hs = hashed_stream_bytes[OF cs(1)]
  let ?out = "import_outcome H ops contents inv (concat cs)"
  from ok(2) have "?out w1 r w'"
  proof (cases rule: act_bindE)
    case (err e)
    with t(1) show ?thesis by (auto intro: import_outcome_unchanged)
  next
    case (ok sz w2)
    then have w2: "w2 = w1" and sz: "sz = of_nat (length (concat cs))"
      using size_law[OF t(1) good(1)] cs by auto
    from ok(2)[unfolded Let_def hs w2 sz] show ?thesis
    proof (cases rule: act_bindE)
      case (err e)
      with t(1) show ?thesis
        by (auto simp: act_bind_def intro: import_outcome_unchanged split: if_splits sum.splits prod.splits)
    next
      case (ok obd w3)
      then have "w3 = w1" by (auto simp: act_bind_def split: if_splits sum.splits prod.splits)
      then show ?thesis
        using ok(2) finalize_outcome[OF good pc fr t(1), of "concat cs" obd r w'] cs
        by (simp add: case_prod_unfold)
    qed
  qed
  then have "?out w r w'" by (rule import_outcome_after[OF adds_blob_refl[OF t(2)]])
  with cs(1) show ?thesis by blast
qed

lemma import_file_outcome:
  assumes good: "good (tmp_path u)" "\<And>h. good (blob_path_for_hash (h_codec H) h (st_features ops))"
    and pc: "path_codec_ok (h_codec H)" and bao: "bao_ok H" and fr: "outboard_frame H ops ob contents inv u" and w: "inv w"
    and step: "import_file H ops ob u (Inr (of_nat (length (concat cs)))) (Inr (map Inr cs)) w = (r, w')"
  shows "import_outcome H ops contents inv (concat cs) w r w'"
proof -
  let ?c = "concat cs"
  let ?hash = "if ob \<noteq> None then compute_outboard H ?c (of_nat (length ?c)) else Inr (h_blake3 H ?c, None)"
  have run: "act_bind (st_put_temp ops u (map Inr cs)) (\<lambda>temp_path. act_bind (act_lift ?hash) (\<lambda>(hash, outboard).
      act_bind (finalize_import H ops ob temp_path hash (of_nat (length ?c)) outboard)
        (\<lambda>(hash, sz). act_ok \<lparr>bid_hash = hash, bid_size = sz\<rparr>))) w = (r, w')"
    using step by (simp add: import_file_def act_bind_def try_collect_map_Inr)
  show ?thesis
  proof (cases ?hash)
    case (Inl e)
    from run show ?thesis
    proof (cases rule: act_bindE)
      case (err e)
      then show ?thesis using tmp_frame(2)[OF good w err(1)] by (simp add: import_outcome_unchanged)
    next
      case (ok p w1)
      then show ?thesis using Inl tmp_frame(2)[OF good w ok(1)]
        by (auto simp: act_bind_def intro: import_outcome_unchanged)
    qed
  next
    case (Inr q)
    then obtain obd where hash: "?hash = Inr (h_blake3 H ?c, obd)"
      using compute_outboard_hash[OF bao] by (cases q) (auto split: if_splits)
    have "act_bind (st_put_temp ops u (map Inr cs)) (\<lambda>temp_path.
      act_bind (finalize_import H ops ob temp_path (h_blake3 H ?c) (of_nat (length ?c)) obd)
        (\<lambda>(hash, sz). act_ok \<lparr>bid_hash = hash, bid_size = sz\<rparr>)) w = (r, w')"
      using run[unfolded hash] by (simp only: act_bind_lift_Inr prod.case)
    then show ?thesis by (rule staged_put_outcome[OF good pc fr w])
  qed
qed

lemma BlobStore_delete_outcome:
  assumes good: "\<And>h. good (blob_path_for_hash (h_codec H) h (st_features ops))"
    "\<And>h. good (obao6_path_for_hash (h_codec H) h (st_features ops))"
    and pc: "path_codec_ok (h_codec H)" and w: "inv w"
    and ob: "ob = None \<or> ob = Some ops"
    and step: "BlobStore_delete H \<lparr>bs_store = ops, bs_outboard_store = ob\<rparr> h w = (r, w')"
  shows "inv w' \<and> (\<forall>h'. h' \<noteq> h \<longrightarrow> blob_at H ops contents w' h' = blob_at H ops contents w h')
    \<and> blob_at H ops contents w' h = (if is_ok r then None else blob_at H ops contents w h)"
proof -
  obtain r1 w1 where d: "st_delete ops (blob_path_for_hash (h_codec H) h (st_features ops)) w = (r1, w1)"
    by fastforce
  note dl = delete_law[OF w good(1) d]
  have fr: "blob_at H ops contents w1 h' = (if h' \<noteq> h then blob_at H ops contents w h'
      else if is_ok r1 then None else blob_at H ops contents w h)" for h'
    using dl good(1) by (simp add: blob_at_def blob_path_inject[OF pc])
  obtain r2 w2 where d2: "st_delete ops (obao6_path_for_hash (h_codec H) h (st_features ops)) w1 = (r2, w2)"
    by fastforce
  have inv1: "inv w1" using dl by blast
  have "inv w2 \<and> blob_at H ops contents w2 = blob_at H ops contents w1"
    using delete_law[OF inv1 good(2) d2] good(1) by (simp add: blob_at_def fun_eq_iff)
  moreover have "(r, w') = (case r1 of Inl e \<Rightarrow> (Inl e, w1)
      | Inr _ \<Rightarrow> (Inr (), if ob = None then w1 else w2))"
    using step ob d d2
    by (auto simp: BlobStore_delete_def BlobStore_blob_path_for_hash_def act_bind_def split: sum.splits)
  ultimately show ?thesis using fr inv1 by (cases r1) auto
qed

end

text \<open>Listing is the hashes of the blob paths, in order.\<close>

lemma list_hashes_loop_Inr:
  "list_hashes_loop H f ps acc = Inr hs \<Longrightarrow>
    hs = acc @ [h. Inr p \<leftarrow> ps, Inr (Some h) \<leftarrow> [hash_from_blob_path (h_codec H) p f]]"
  by (induction H f ps acc arbitrary: hs rule: list_hashes_loop.induct)
     (auto split: sum.splits option.splits)

section \<open>On a reliable store nothing fails\<close>

lemma act_bind_is_ok:
  "is_ok (fst (act_bind m f w)) \<longleftrightarrow> (\<exists>x w'. m w = (Inr x, w') \<and> is_ok (fst (f x w')))"
  by (auto simp: act_bind_def split: prod.splits sum.splits)

lemma is_ok_fstD: "is_ok (fst p) \<Longrightarrow> \<exists>x w'. p = (Inr x, w')"
  by (cases p) (auto simp: is_ok_iff)

text \<open>The bao tree of data of the announced size can be built.\<close>

definition bao_total :: "hashing \<Rightarrow> bool" where
  "bao_total H = (\<forall>data. is_ok (h_create_sized H data (of_nat (length data))))"

context reliable_store
begin

lemma put_temp_total:
  assumes "inv w" "good (tmp_path u)"
  shows "\<exists>w'. st_put_temp ops u (map Inr cs) w = (Inr (tmp_path u), w')"
proof -
  obtain x w' where "st_put_stream ops (tmp_path u) (map Inr cs) w = (Inr x, w')"
    using is_ok_fstD[OF put_stream_total[OF assms]] by blast
  then show ?thesis by (simp add: put_temp_law Store_put_temp_def Let_def)
qed

lemma put_outboard_total:
  assumes "inv w" "\<And>h. good (obao6_path_for_hash (h_codec H) h (st_features ops))" "ob = None \<or> ob = Some ops"
  shows "is_ok (fst (put_outboard H ob h d w))"
  using put_bytes_total[OF assms(1,2)] assms(3) by (auto simp: put_outboard_def split: option.splits)

lemma finalize_import_total:
  assumes good: "\<And>h. good (blob_path_for_hash (h_codec H) h (st_features ops))"
    "\<And>h. good (obao6_path_for_hash (h_codec H) h (st_features ops))" "good (tmp_path u)"
    and fr: "outboard_frame H ops ob contents inv u" and ob: "ob = None \<or> ob = Some ops"
    and w: "inv w" "contents w (tmp_path u) = Some c"
  shows "is_ok (fst (finalize_import H ops ob (tmp_path u) h sz obd w))"
proof -
  obtain x w1 where po: "put_outboard H ob h obd w = (Inr x, w1)"
    using is_ok_fstD[OF put_outboard_total[OF w(1) good(2) ob]] by blast
  note fr1 = put_outboard_frame[OF fr w(1) po]
  let ?f = "blob_path_for_hash (h_codec H) h (st_features ops)"
  have tmp: "contents w1 (tmp_path u) = Some c" using fr1(3) w(2) by simp
  obtain cs where cs: "st_open_read_stream ops (tmp_path u) 0 None w1 = Inr (map Inr cs)"
    using stream_total[OF fr1(1) good(3) tmp, of 0] by auto
  obtain y w2 where ps: "st_put_stream ops ?f (map Inr cs) w1 = (Inr y, w2)"
    using is_ok_fstD[OF put_stream_total[OF fr1(1) good(1)]] by blast
  have i2: "inv w2" using put_stream_law[OF fr1(1) good(1) ps] by simp
  have "is_ok (fst (st_rename ops (tmp_path u) ?f w1))"
    using rename_total[OF fr1(1) good(3) good(1)] tmp by simp
  then show ?thesis
    using po cs ps delete_total[OF fr1(1) good(3)] delete_total[OF i2 good(3)]
      exists_total[OF fr1(1) good(1)]
    by (auto simp: finalize_import_def Let_def act_bind_is_ok dest!: is_ok_fstD)
qed

lemma import_bytes_total:
  assumes good: "\<And>h. good (blob_path_for_hash (h_codec H) h (st_features ops))"
    "\<And>h. good (obao6_path_for_hash (h_codec H) h (st_features ops))" "good (tmp_path u)"
    and pc: "path_codec_ok (h_codec H)" and bt: "bao_total H" and ob: "ob = None \<or> ob = Some ops"
    and w: "inv w"
  shows "is_ok (fst (import_bytes H ops ob u c w))"
proof -
  have fr: "outboard_frame H ops ob contents inv u"
    using ob outboard_frame_same[OF pc good] by auto
  have "\<exists>h obd. (if ob \<noteq> None \<and> (of_nat (length c) :: u64) \<ge> push_bit 16 1
      then compute_outboard H c (of_nat (length c)) else Inr (h_blake3 H c, None)) = Inr (h, obd)"
    using bt[unfolded bao_total_def, rule_format, of c]
    by (auto simp: compute_outboard_def is_ok_iff)
  then obtain h obd where hr: "(if ob \<noteq> None \<and> (of_nat (length c) :: u64) \<ge> push_bit 16 1
      then compute_outboard H c (of_nat (length c)) else Inr (h_blake3 H c, None)) = Inr (h, obd)" by blast
  obtain x w1 where po: "put_outboard H ob h obd w = (Inr x, w1)"
    using is_ok_fstD[OF put_outboard_total[OF w good(2) ob]] by blast
  note i1 = put_outboard_frame(1)[OF fr w po]
  obtain w2 where pt: "st_put_temp ops u [Inr c] w1 = (Inr (tmp_path u), w2)"
    using put_temp_total[OF i1 good(3), of "[c]"] by auto
  have t2: "inv w2" "contents w2 (tmp_path u) = Some c"
    using put_temp_cases(1,3)[OF i1 good(3) pt] by auto
  have "is_ok (fst (finalize_import H ops ob (tmp_path u) h (of_nat (length c)) obd w2))"
    by (rule finalize_import_total[OF good fr ob t2])
  then obtain y z w3 where fi: "finalize_import H ops ob (tmp_path u) h (of_nat (length c)) obd w2 = (Inr (y, z), w3)"
    using is_ok_fstD by (metis surj_pair)
  obtain v w4 where pb: "st_put_bytes ops (blob_path_for_hash (h_codec H) h (st_features ops)) c w1 = (Inr v, w4)"
    using is_ok_fstD[OF put_bytes_total[OF i1 good(1)]] by blast
  show ?thesis
    using po pt fi pb exists_total[OF i1 good(1), of h]
    unfolding import_bytes_def Let_def hr by (simp add: act_bind_is_ok)
qed

lemma import_stream_total:
  assumes good: "\<And>h. good (blob_path_for_hash (h_codec H) h (st_features ops))"
    "\<And>h. good (obao6_path_for_hash (h_codec H) h (st_features ops))" "good (tmp_path u)"
    and pc: "path_codec_ok (h_codec H)" and bao: "bao_ok H" "bao_total H"
    and ob: "ob = None \<or> ob = Some ops"
    and w: "inv w" and cs: "stream_items s = map Inr cs"
  shows "is_ok (fst (import_stream H ops ob u s w))"
proof -
  have fr: "outboard_frame H ops ob contents inv u"
    using ob outboard_frame_same[OF pc good] by auto
  obtain w1 where pt: "st_put_temp ops u (map Inr cs) w = (Inr (tmp_path u), w1)"
    using put_temp_total[OF w good(3)] by blast
  have t: "inv w1" "contents w1 (tmp_path u) = Some (concat cs)"
    using put_temp_cases(1,3)[OF w good(3) pt] by (auto simp: inj_map_eq_map)
  note sz = size_total[OF t(1) good(3) t(2)]
  let ?h = "h_blake3 H (concat cs)"
  obtain ds where "st_open_read_stream ops (tmp_path u) 0 None w1 = Inr (map Inr ds)" "concat ds = concat cs"
    using stream_total[OF t(1) good(3) t(2), of 0 None] by auto
  then obtain obd where cf: "ob \<noteq> None \<Longrightarrow> compute_from_store H ops ob (tmp_path u) (of_nat (length (concat cs))) w1 = Inr (?h, obd)"
    using bao(2)[unfolded bao_total_def, rule_format, of "concat cs"] bao(1)[unfolded bao_ok_def, rule_format, of "concat cs"]
    by (force simp: compute_from_store_def compute_outboard_def is_ok_iff)
  have "\<exists>y z w3. finalize_import H ops ob (tmp_path u) ?h (of_nat (length (concat cs))) o' w1 = (Inr (y, z), w3)" for o'
    using is_ok_fstD[OF finalize_import_total[OF good fr ob t]] by (metis surj_pair)
  then show ?thesis
    using pt sz cf hashed_stream_items[of s] hashed_stream_bytes[OF cs]
    by (cases "ob = None")
       (simp_all add: import_stream_def case_prod_unfold Let_def act_bind_is_ok act_bind_Inr_iff cs)
qed

lemma import_file_total:
  assumes good: "\<And>h. good (blob_path_for_hash (h_codec H) h (st_features ops))"
    "\<And>h. good (obao6_path_for_hash (h_codec H) h (st_features ops))" "good (tmp_path u)"
    and pc: "path_codec_ok (h_codec H)" and bt: "bao_total H" and ob: "ob = None \<or> ob = Some ops" and w: "inv w"
  shows "is_ok (fst (import_file H ops ob u (Inr (of_nat (length (concat cs)))) (Inr (map Inr cs)) w))"
proof -
  have fr: "outboard_frame H ops ob contents inv u" using ob outboard_frame_same[OF pc good] by auto
  obtain w1 where pt: "st_put_temp ops u (map Inr cs) w = (Inr (tmp_path u), w1)" using put_temp_total[OF w good(3)] by blast
  have t: "inv w1" "contents w1 (tmp_path u) = Some (concat cs)"
    using put_temp_cases(1,3)[OF w good(3) pt] by (auto simp: inj_map_eq_map)
  obtain h obd where "(if ob \<noteq> None then compute_outboard H (concat cs) (of_nat (length (concat cs))) else Inr (h_blake3 H (concat cs), None)) = Inr (h, obd)"
    using bt[unfolded bao_total_def, rule_format, of "concat cs"] by (cases "ob = None") (auto simp: compute_outboard_def is_ok_iff)
  moreover have "\<exists>y z w3. finalize_import H ops ob (tmp_path u) h (of_nat (length (concat cs))) obd w1 = (Inr (y, z), w3)"
    using is_ok_fstD[OF finalize_import_total[OF good fr ob t]] by (metis surj_pair)
  ultimately show ?thesis using pt by (auto simp: import_file_def act_bind_is_ok try_collect_map_Inr act_bind_Inr_iff)
qed

end

section \<open>Properties\<close>

text \<open>C1. Content addressing. Over any backend that satisfies the store contract, failing calls included,
  importing bytes never replaces or drops a blob and keeps every blob stored under its own BLAKE3 hash;
  when it succeeds the identifier returned is the hash and length of the bytes and the blob is there.\<close>

theorem import_bytes_content_addressed:
  assumes "store_contract ops contents iv good"
    and "\<And>h. good (blob_path_for_hash (h_codec H) h (st_features ops))"
    and "\<And>h. good (obao6_path_for_hash (h_codec H) h (st_features ops))"
    and "\<And>u. good (tmp_path u)"
    and "path_codec_ok (h_codec H)" and "bao_ok H"
    and "B = BlobStore_new ops \<or> B = BlobStore_without_outboard ops"
    and "iv w" and "content_addressed H ops contents w"
    and "BlobStore_import_bytes H B uuid c w = (r, w')"
  shows "iv w' \<and> content_addressed H ops contents w'
    \<and> (\<forall>h d. blob_at H ops contents w h = Some d \<longrightarrow> blob_at H ops contents w' h = Some d)
    \<and> (\<forall>i. r = Inr i \<longrightarrow> i = BlobId_new (h_blake3 H c) (of_nat (length c))
         \<and> blob_at H ops contents w' (bid_hash i) \<noteq> None)"
proof -
  obtain ob where B: "B = \<lparr>bs_store = ops, bs_outboard_store = ob\<rparr>" and ob: "ob = None \<or> ob = Some ops"
    using assms(7) by (auto simp: BlobStore_new_def BlobStore_without_outboard_def)
  have fr: "outboard_frame H ops ob contents iv uuid"
    using ob store_contract.outboard_frame_same[OF assms(1) assms(5) assms(2) assms(3) assms(4)] by auto
  have "import_bytes H ops ob uuid c w = (r, w')"
    using assms(10) by (simp add: B BlobStore_import_bytes_def)
  from store_contract.import_bytes_outcome[OF assms(1) assms(4) assms(2) assms(5,6) fr assms(8) this]
  have o: "import_outcome H ops contents iv c w r w'" .
  moreover have "content_addressed H ops contents w'"
    using o assms(9) by (auto simp: import_outcome_def intro: adds_blob_content_addressed)
  ultimately show ?thesis
    by (auto simp: import_outcome_def BlobId_new_def dest: adds_blob_keeps)
qed

text \<open>A hashing environment for the witnesses: the hash of a byte string is its first 32 bytes.\<close>

definition demo_hashing :: hashing where
  "demo_hashing = \<lparr>h_blake3 = arr32, h_create_sized = (\<lambda>d _. Inr (arr32 d, [])), h_codec = demo_codec\<rparr>"

lemma demo_hashing_ok [simp]:
  "path_codec_ok (h_codec demo_hashing)" "bao_ok demo_hashing" "bao_total demo_hashing"
  "h_blake3 demo_hashing = arr32"
  by (simp_all add: demo_hashing_def demo_codec_ok bao_ok_def bao_total_def)

theorem import_bytes_content_addressed_witness:
  "content_addressed demo_hashing MemoryStore bt_get
     (snd (BlobStore_import_bytes demo_hashing (BlobStore_new MemoryStore) ''u'' [1, 2] MemoryStore_new))"
proof -
  have ca: "content_addressed demo_hashing MemoryStore bt_get MemoryStore_new"
    by (simp add: content_addressed_def blob_at_def MemoryStore_new_def)
  show ?thesis
    using import_bytes_content_addressed[OF memory_store.store_contract_axioms _ _ _
        demo_hashing_ok(1,2) disjI1[OF refl] _ ca prod.collapse[symmetric]] by blast
qed

text \<open>C2. Round trip through the in-memory blob store: an import always succeeds, and reading the blob
  back, whole or any slice, returns the imported bytes, provided the store does not already hold a
  different blob with the same hash.\<close>

theorem import_then_read:
  assumes "path_codec_ok (h_codec H)" and "bao_ok H" and "bao_total H"
    and "blob_at H MemoryStore bt_get w (h_blake3 H c) \<in> {None, Some c}"
    and "B = BlobStore_new MemoryStore \<or> B = BlobStore_without_outboard MemoryStore"
  shows "\<exists>i w'. BlobStore_import_bytes H B uuid c w = (Inr i, w')
    \<and> BlobStore_read_as_bytes H B (bid_hash i) offset max_len w' = Inr (slice_of offset max_len c)
    \<and> BlobStore_contains H B (bid_hash i) w' = Inr True
    \<and> BlobStore_size H B (bid_hash i) w' = Inr (bid_size i)"
proof -
  obtain ob where B: "B = \<lparr>bs_store = MemoryStore, bs_outboard_store = ob\<rparr>"
    and ob: "ob = None \<or> ob = Some MemoryStore"
    using assms(5) by (auto simp: BlobStore_new_def BlobStore_without_outboard_def)
  obtain i w' where i: "import_bytes H MemoryStore ob uuid c w = (Inr i, w')"
    using is_ok_fstD[OF memory_store.import_bytes_total[OF _ _ _ assms(1,3) ob]] by blast
  have fr: "outboard_frame H MemoryStore ob bt_get (\<lambda>_. True) uuid"
    using ob memory_store.outboard_frame_same[OF assms(1)] by auto
  have o: "import_outcome H MemoryStore bt_get (\<lambda>_. True) c w (Inr i) w'"
    by (rule memory_store.import_bytes_outcome[OF _ _ assms(1,2) fr _ i]) simp_all
  then have "blob_at H MemoryStore bt_get w' (h_blake3 H c) = Some c"
    using assms(4) unfolding import_outcome_def adds_blob_def by (metis insertE singletonD is_ok_iff)
  then have "bt_get w' (blob_path_for_hash (h_codec H) (bid_hash i) (st_features MemoryStore)) = Some c"
    and "bid_size i = of_nat (length c)"
    using o by (auto simp: blob_at_def import_outcome_def)
  then show ?thesis
    using i memory_store.read_total memory_store.exists_total memory_store.size_total
    by (simp add: B BlobStore_import_bytes_def BlobStore_read_as_bytes_def read_as_bytes_def
        BlobStore_contains_def contains_def BlobStore_size_def blob_size_def)
qed

theorem import_then_read_witness:
  "\<exists>i w'. BlobStore_import_bytes demo_hashing (BlobStore_new MemoryStore) ''u'' [1, 2, 3] MemoryStore_new
      = (Inr i, w')
    \<and> BlobStore_read_as_bytes demo_hashing (BlobStore_new MemoryStore) (bid_hash i) 1 (Some 1) w' = Inr [2]"
proof -
  have "blob_at demo_hashing MemoryStore bt_get MemoryStore_new (h_blake3 demo_hashing [1, 2, 3]) \<in> {None, Some [1, 2, 3]}"
    by (simp add: blob_at_def MemoryStore_new_def)
  from import_then_read[OF demo_hashing_ok(1-3) this disjI1[OF refl], of "''u''" 1 "Some 1"]
  show ?thesis by (auto simp: slice_of_def)
qed

text \<open>Streaming import over any contract-abiding backend: either the stream had an error or the store
  failed before anything was published, and no blob changed, or the outcome is that of importing the
  concatenation of the chunks the stream yielded: the hash is the hash of exactly those bytes.\<close>

theorem import_stream_is_import_of_concat:
  assumes "store_contract ops contents iv good"
    and "\<And>h. good (blob_path_for_hash (h_codec H) h (st_features ops))"
    and "\<And>h. good (obao6_path_for_hash (h_codec H) h (st_features ops))"
    and "\<And>u. good (tmp_path u)"
    and "path_codec_ok (h_codec H)"
    and "B = BlobStore_new ops \<or> B = BlobStore_without_outboard ops"
    and "iv w" and "BlobStore_import_stream H B uuid s w = (r, w')"
  shows "(\<exists>cs. stream_items s = map Inr cs \<and> import_outcome H ops contents iv (concat cs) w r w')
    \<or> \<not> is_ok r \<and> iv w' \<and> blob_at H ops contents w' = blob_at H ops contents w"
proof -
  obtain ob where B: "B = \<lparr>bs_store = ops, bs_outboard_store = ob\<rparr>" and ob: "ob = None \<or> ob = Some ops"
    using assms(6) by (auto simp: BlobStore_new_def BlobStore_without_outboard_def)
  have fr: "outboard_frame H ops ob contents iv uuid"
    using ob store_contract.outboard_frame_same[OF assms(1) assms(5) assms(2) assms(3) assms(4)] by auto
  have "import_stream H ops ob uuid s w = (r, w')"
    using assms(8) by (simp add: B BlobStore_import_stream_def)
  from store_contract.import_stream_outcome[OF assms(1) assms(4) assms(2) assms(5) fr assms(7) this]
  show ?thesis .
qed

theorem import_stream_is_import_of_concat_witness:
  "let (r, w') = BlobStore_import_stream demo_hashing (BlobStore_new MemoryStore) ''u''
       [Ready (Inr [1]), Pending, Ready (Inr [2])] MemoryStore_new
   in (\<exists>cs. stream_items [Ready (Inr [1]), Pending, Ready (Inr [2])] = map Inr cs
        \<and> import_outcome demo_hashing MemoryStore bt_get (\<lambda>_. True) (concat cs) MemoryStore_new r w')
      \<or> \<not> is_ok r \<and> blob_at demo_hashing MemoryStore bt_get w' = blob_at demo_hashing MemoryStore bt_get MemoryStore_new"
  using import_stream_is_import_of_concat[OF memory_store.store_contract_axioms _ _ _
      demo_hashing_ok(1) disjI1[OF refl] _ prod.collapse[symmetric],
      where s = "[Ready (Inr [1]), Pending, Ready (Inr [2])]" and w = MemoryStore_new and uuid = "''u''"]
  unfolding case_prod_unfold Let_def by blast

text \<open>On the in-memory store a stream without errors is always imported, and the blob is the
  concatenation of its chunks; a stream with an error is refused and no blob changes.\<close>

theorem import_stream_memory:
  assumes "path_codec_ok (h_codec H)" and "bao_ok H" and "bao_total H"
    and "B = BlobStore_new MemoryStore \<or> B = BlobStore_without_outboard MemoryStore"
  shows "case BlobStore_import_stream H B uuid s w of (r, w') \<Rightarrow>
    (case try_collect (stream_items s) of
       Inl e \<Rightarrow> \<not> is_ok r \<and> blob_at H MemoryStore bt_get w' = blob_at H MemoryStore bt_get w
     | Inr cs \<Rightarrow> r = Inr (BlobId_new (h_blake3 H (concat cs)) (of_nat (length (concat cs))))
         \<and> adds_blob H MemoryStore bt_get (h_blake3 H (concat cs)) (concat cs) w w'
         \<and> blob_at H MemoryStore bt_get w' (h_blake3 H (concat cs)) \<noteq> None)"
proof -
  obtain ob where B: "B = \<lparr>bs_store = MemoryStore, bs_outboard_store = ob\<rparr>"
    and ob: "ob = None \<or> ob = Some MemoryStore"
    using assms(4) by (auto simp: BlobStore_new_def BlobStore_without_outboard_def)
  obtain r w' where s: "import_stream H MemoryStore ob uuid s w = (r, w')" by fastforce
  have fr: "outboard_frame H MemoryStore ob bt_get (\<lambda>_. True) uuid"
    using ob memory_store.outboard_frame_same[OF assms(1)] by auto
  have o: "(\<exists>cs. stream_items s = map Inr cs
      \<and> import_outcome H MemoryStore bt_get (\<lambda>_. True) (concat cs) w r w')
    \<or> \<not> is_ok r \<and> blob_at H MemoryStore bt_get w' = blob_at H MemoryStore bt_get w"
    using memory_store.import_stream_outcome[OF _ _ assms(1) fr _ s] by auto
  have ok: "is_ok r" if "stream_items s = map Inr cs" for cs
    using memory_store.import_stream_total[OF _ _ _ assms(1-3) ob _ that, of uuid w] s by simp
  show ?thesis
  proof (cases "try_collect (stream_items s)")
    case (Inl e)
    then have "stream_items s \<noteq> map Inr cs" for cs by auto
    with o Inl show ?thesis by (simp add: B BlobStore_import_stream_def s)
  next
    case (Inr cs)
    then have cs: "stream_items s = map Inr cs" by (rule try_collect_InrD)
    with o ok have "import_outcome H MemoryStore bt_get (\<lambda>_. True) (concat cs) w r w'"
      by (auto simp: inj_map_eq_map)
    with ok[OF cs] Inr show ?thesis
      by (simp add: B BlobStore_import_stream_def s import_outcome_def BlobId_new_def)
  qed
qed

theorem import_stream_memory_witness:
  "fst (BlobStore_import_stream demo_hashing (BlobStore_new MemoryStore) ''u''
      [Ready (Inr [1]), Pending, Ready (Inr [2])] MemoryStore_new) = Inr (BlobId_new (arr32 [1, 2]) 2)"
  using import_stream_memory[OF demo_hashing_ok(1-3) disjI1[OF refl], where uuid = "''u''"
      and s = "[Ready (Inr [1]), Pending, Ready (Inr [2])]" and w = MemoryStore_new]
  by (simp add: case_prod_unfold)

end
