(* ===== verification/Registry.thy ===== *)
theory Registry
  imports Store "HOL-Library.Product_Lexorder" "HOL-Library.Multiset"
begin

text \<open>
  The mutable registry: the \<^verbatim>\<open>RegistryApi\<close> trait (\<^verbatim>\<open>s5_core/src/stream/mod.rs\<close>), the in-memory, tee, multi
  and remote registries with their server (\<^verbatim>\<open>s5_registry/src/lib.rs\<close>), and the redb and store backends
  (\<^verbatim>\<open>registries/redb\<close>, \<^verbatim>\<open>registries/store\<close>). As for stores, an \<^verbatim>\<open>Arc<dyn RegistryApi>\<close> is a table of
  operations over the world.
\<close>

section \<open>The RegistryApi trait\<close>

record 'w registry =
  rg_get :: "stream_key \<Rightarrow> 'w \<Rightarrow> error + stream_message option"
  rg_set :: "stream_message \<Rightarrow> ('w, unit) action"
  rg_delete :: "stream_key \<Rightarrow> ('w, unit) action"

text \<open>What the trait promises: a map from keys to messages in which a message is stored when
  \<^verbatim>\<open>should_store\<close> says so.\<close>

definition entry_set :: "stream_message \<Rightarrow> (stream_key \<rightharpoonup> stream_message) \<Rightarrow> (stream_key \<rightharpoonup> stream_message)" where
  "entry_set m e = (if StreamMessage_should_store m (e (sm_key m)) then e(sm_key m \<mapsto> m) else e)"

locale registry_contract =
  fixes reg :: "'w registry" and entries :: "'w \<Rightarrow> stream_key \<Rightarrow> stream_message option"
    and inv :: "'w \<Rightarrow> bool" and storable :: "stream_message \<Rightarrow> bool"
  assumes get_law: "inv w \<Longrightarrow> rg_get reg k w = Inr mo \<Longrightarrow> mo = entries w k"
    and set_law: "inv w \<Longrightarrow> storable m \<Longrightarrow> rg_set reg m w = (r, w') \<Longrightarrow>
      inv w' \<and> entries w' = (if is_ok r then entry_set m (entries w) else entries w)"
    and delete_law: "inv w \<Longrightarrow> rg_delete reg k w = (r, w') \<Longrightarrow>
      inv w' \<and> entries w' = (if is_ok r then (entries w)(k := None) else entries w)"

locale reliable_registry = registry_contract +
  assumes get_total: "inv w \<Longrightarrow> rg_get reg k w = Inr (entries w k)"
    and set_total: "inv w \<Longrightarrow> storable m \<Longrightarrow> is_ok (fst (rg_set reg m w))"
    and delete_total: "inv w \<Longrightarrow> is_ok (fst (rg_delete reg k w))"

section \<open>MemoryRegistry\<close>

type_synonym memory_registry = "(stream_key, stream_message) btree"

definition MemoryRegistry_new :: memory_registry where
  "MemoryRegistry_new = bt_empty"

definition MemoryRegistry_get :: "stream_key \<Rightarrow> memory_registry \<Rightarrow> error + stream_message option" where
  "MemoryRegistry_get key data = Inr (bt_get data key)"

definition MemoryRegistry_set :: "stream_message \<Rightarrow> (memory_registry, unit) action" where
  "MemoryRegistry_set message data =
    (let existing = bt_get data (sm_key message)
     in if StreamMessage_should_store message existing
        then (Inr (), bt_insert (sm_key message) message data)
        else (Inr (), data))"

definition MemoryRegistry_delete :: "stream_key \<Rightarrow> (memory_registry, unit) action" where
  "MemoryRegistry_delete key data = (Inr (), bt_remove key data)"

definition MemoryRegistry :: "memory_registry registry" where
  "MemoryRegistry =
    \<lparr>rg_get = MemoryRegistry_get, rg_set = MemoryRegistry_set, rg_delete = MemoryRegistry_delete\<rparr>"

lemmas memory_registry_defs = MemoryRegistry_def MemoryRegistry_get_def MemoryRegistry_set_def
  MemoryRegistry_delete_def

section \<open>RedbRegistry\<close>

text \<open>The table of the database, keyed by key type and key bytes; a committed transaction is one step.
  Failures of the database engine are not modelled; undecodable entries are.\<close>

type_synonym redb_registry = "(u8 \<times> bytes, bytes) btree"

definition Redb_lookup :: "u8 \<times> bytes \<Rightarrow> redb_registry \<Rightarrow> error + stream_message option" where
  "Redb_lookup key_bytes table =
    (case bt_get table key_bytes of
       None \<Rightarrow> Inr None
     | Some guard \<Rightarrow>
        (case StreamMessage_deserialize guard of
           Inl e \<Rightarrow> Inl (MessageError e)
         | Inr m \<Rightarrow> Inr (Some m)))"

definition RedbRegistry_get :: "stream_key \<Rightarrow> redb_registry \<Rightarrow> error + stream_message option" where
  "RedbRegistry_get key table = Redb_lookup (StreamKey_to_bytes key) table"

definition RedbRegistry_set :: "stream_message \<Rightarrow> (redb_registry, unit) action" where
  "RedbRegistry_set message =
    (let key_bytes = StreamKey_to_bytes (sm_key message)
     in act_bind (act_read (Redb_lookup key_bytes)) (\<lambda>existing_message table.
        if StreamMessage_should_store message existing_message
        then (Inr (), bt_insert key_bytes (StreamMessage_serialize message) table)
        else (Inr (), table)))"

definition RedbRegistry_delete :: "stream_key \<Rightarrow> (redb_registry, unit) action" where
  "RedbRegistry_delete key table = (Inr (), bt_remove (StreamKey_to_bytes key) table)"

definition RedbRegistry :: "redb_registry registry" where
  "RedbRegistry =
    \<lparr>rg_get = RedbRegistry_get, rg_set = RedbRegistry_set, rg_delete = RedbRegistry_delete\<rparr>"

section \<open>StoreRegistry\<close>

record 'w store_registry =
  sr_store :: "'w store"
  sr_prefix :: string

definition StoreRegistry_new :: "'w store \<Rightarrow> string option \<Rightarrow> 'w store_registry" where
  "StoreRegistry_new store pfx =
    \<lparr>sr_store = store, sr_prefix = (case pfx of Some p \<Rightarrow> p | None \<Rightarrow> ''registry'')\<rparr>"

text \<open>\<^verbatim>\<open>hex::encode\<close> is a third-party function, the parameter \<open>hex\<close>.\<close>

definition StoreRegistry_key_path :: "(bytes \<Rightarrow> string) \<Rightarrow> 'w store_registry \<Rightarrow> stream_key \<Rightarrow> string" where
  "StoreRegistry_key_path hex self key =
    (let (key_type, key_bytes) = StreamKey_to_bytes key;
         full_key = [key_type] @ key_bytes
     in sr_prefix self @ ''/'' @ hex full_key)"

definition StoreRegistry_get ::
  "(bytes \<Rightarrow> string) \<Rightarrow> 'w store_registry \<Rightarrow> stream_key \<Rightarrow> 'w \<Rightarrow> error + stream_message option" where
  "StoreRegistry_get hex self key w =
    (case st_open_read_bytes (sr_store self) (StoreRegistry_key_path hex self key) 0 None w of
       Inr bs \<Rightarrow>
         (case StreamMessage_deserialize bs of
            Inl e \<Rightarrow> Inl (MessageError e)
          | Inr message \<Rightarrow> Inr (Some message))
     | Inl _ \<Rightarrow> Inr None)"

definition StoreRegistry_set ::
  "(bytes \<Rightarrow> string) \<Rightarrow> 'w store_registry \<Rightarrow> stream_message \<Rightarrow> ('w, unit) action" where
  "StoreRegistry_set hex self message =
    (let path = StoreRegistry_key_path hex self (sm_key message)
     in act_bind (act_read (StoreRegistry_get hex self (sm_key message))) (\<lambda>existing.
        if \<not> StreamMessage_should_store message existing then act_ok ()
        else act_bind (st_put_bytes (sr_store self) path (StreamMessage_serialize message)) (\<lambda>_. act_ok ())))"

definition StoreRegistry_delete ::
  "(bytes \<Rightarrow> string) \<Rightarrow> 'w store_registry \<Rightarrow> stream_key \<Rightarrow> ('w, unit) action" where
  "StoreRegistry_delete hex self key =
    act_bind (st_delete (sr_store self) (StoreRegistry_key_path hex self key)) (\<lambda>_. act_ok ())"

definition StoreRegistry :: "(bytes \<Rightarrow> string) \<Rightarrow> 'w store_registry \<Rightarrow> 'w registry" where
  "StoreRegistry hex self =
    \<lparr>rg_get = StoreRegistry_get hex self, rg_set = StoreRegistry_set hex self,
     rg_delete = StoreRegistry_delete hex self\<rparr>"

section \<open>Server, client and RemoteRegistry\<close>

datatype registry_rpc =
    RpcGet u8 bytes32
  | RpcSet bytes
  | RpcDelete u8 bytes32

datatype registry_response =
    GetResponse "bytes option"
  | UnitResponse "string + unit"

definition RegistryServer_handle_get :: "'w registry \<Rightarrow> u8 \<Rightarrow> bytes32 \<Rightarrow> 'w \<Rightarrow> bytes option" where
  "RegistryServer_handle_get reg key_type key_data w =
    (case StreamKey_from_bytes key_type (arr_list key_data) of
       Inl _ \<Rightarrow> None
     | Inr key \<Rightarrow>
        (case rg_get reg key w of
           Inr (Some message) \<Rightarrow> Some (StreamMessage_serialize message)
         | Inr None \<Rightarrow> None
         | Inl _ \<Rightarrow> None))"

text \<open>\<^verbatim>\<open>to_string\<close> of an error is the parameter \<open>show\<close>.\<close>

definition RegistryServer_handle_set ::
  "(error \<Rightarrow> string) \<Rightarrow> 'w registry \<Rightarrow> bytes \<Rightarrow> 'w \<Rightarrow> (string + unit) \<times> 'w" where
  "RegistryServer_handle_set show reg message w =
    (case StreamMessage_deserialize message of
       Inl e \<Rightarrow> (Inl (show (MessageError e)), w)
     | Inr message \<Rightarrow> (case rg_set reg message w of (r, w') \<Rightarrow> (map_err show r, w')))"

definition RegistryServer_handle_delete ::
  "(error \<Rightarrow> string) \<Rightarrow> 'w registry \<Rightarrow> u8 \<Rightarrow> bytes32 \<Rightarrow> 'w \<Rightarrow> (string + unit) \<times> 'w" where
  "RegistryServer_handle_delete show reg key_type key_data w =
    (case StreamKey_from_bytes key_type (arr_list key_data) of
       Inl e \<Rightarrow> (Inl (show (KeyError e)), w)
     | Inr key \<Rightarrow> (case rg_delete reg key w of (r, w') \<Rightarrow> (map_err show r, w')))"

fun RegistryServer_handle ::
  "(error \<Rightarrow> string) \<Rightarrow> 'w registry \<Rightarrow> registry_rpc \<Rightarrow> 'w \<Rightarrow> registry_response \<times> 'w" where
  "RegistryServer_handle show reg (RpcGet t d) w = (GetResponse (RegistryServer_handle_get reg t d w), w)"
| "RegistryServer_handle show reg (RpcSet m) w =
    (case RegistryServer_handle_set show reg m w of (r, w') \<Rightarrow> (UnitResponse r, w'))"
| "RegistryServer_handle show reg (RpcDelete t d) w =
    (case RegistryServer_handle_delete show reg t d w of (r, w') \<Rightarrow> (UnitResponse r, w'))"

text \<open>The accept loop of a connection: the requests in order.\<close>

fun RegistryServer_accept ::
  "(error \<Rightarrow> string) \<Rightarrow> 'w registry \<Rightarrow> registry_rpc list \<Rightarrow> 'w \<Rightarrow> registry_response list \<times> 'w" where
  "RegistryServer_accept show reg [] w = ([], w)"
| "RegistryServer_accept show reg (msg # msgs) w =
    (case RegistryServer_handle show reg msg w of (resp, w') \<Rightarrow>
     case RegistryServer_accept show reg msgs w' of (resps, w'') \<Rightarrow> (resp # resps, w''))"

text \<open>The client of a server over a link that may fail: \<open>link w = Some e\<close> when the call cannot be made.\<close>

record 'w registry_peer =
  peer_link :: "'w \<Rightarrow> error option"
  peer_show :: "error \<Rightarrow> string"
  peer_registry :: "'w registry"

definition Client_get :: "'w registry_peer \<Rightarrow> stream_key \<Rightarrow> 'w \<Rightarrow> error + stream_message option" where
  "Client_get peer key w =
    (let (key_type, key_bytes) = StreamKey_to_bytes key;
         key_data = arr32 key_bytes
     in case peer_link peer w of
          Some e \<Rightarrow> Inl e
        | None \<Rightarrow>
           (case RegistryServer_handle_get (peer_registry peer) key_type key_data w of
              Some bs \<Rightarrow>
                (case StreamMessage_deserialize bs of
                   Inl e \<Rightarrow> Inl (MessageError e)
                 | Inr message \<Rightarrow> Inr (Some message))
            | None \<Rightarrow> Inr None))"

definition Client_set :: "'w registry_peer \<Rightarrow> stream_message \<Rightarrow> ('w, unit) action" where
  "Client_set peer message w =
    (case peer_link peer w of
       Some e \<Rightarrow> (Inl e, w)
     | None \<Rightarrow>
        (case RegistryServer_handle_set (peer_show peer) (peer_registry peer)
                (StreamMessage_serialize message) w of
           (r, w') \<Rightarrow> (map_err Anyhow r, w')))"

definition Client_delete :: "'w registry_peer \<Rightarrow> stream_key \<Rightarrow> ('w, unit) action" where
  "Client_delete peer key w =
    (let (key_type, key_bytes) = StreamKey_to_bytes key;
         key_data = arr32 key_bytes
     in case peer_link peer w of
          Some e \<Rightarrow> (Inl e, w)
        | None \<Rightarrow>
           (case RegistryServer_handle_delete (peer_show peer) (peer_registry peer) key_type key_data w of
              (r, w') \<Rightarrow> (map_err Anyhow r, w')))"

definition RemoteRegistry :: "'w registry_peer \<Rightarrow> 'w registry" where
  "RemoteRegistry peer = \<lparr>rg_get = Client_get peer, rg_set = Client_set peer, rg_delete = Client_delete peer\<rparr>"

section \<open>TeeRegistry\<close>

record 'w tee_registry =
  tr_local :: "'w registry"
  tr_remote :: "'w registry"

definition TeeRegistry_get :: "'w tee_registry \<Rightarrow> stream_key \<Rightarrow> 'w \<Rightarrow> error + stream_message option" where
  "TeeRegistry_get self key w =
    (case rg_get (tr_local self) key w of
       Inl e \<Rightarrow> Inl e
     | Inr (Some msg) \<Rightarrow> Inr (Some msg)
     | Inr None \<Rightarrow> rg_get (tr_remote self) key w)"

definition TeeRegistry_set :: "'w tee_registry \<Rightarrow> stream_message \<Rightarrow> ('w, unit) action" where
  "TeeRegistry_set self message =
    act_bind (rg_set (tr_local self) message) (\<lambda>_.
    act_bind (rg_set (tr_remote self) message) (\<lambda>_. act_ok ()))"

definition TeeRegistry_delete :: "'w tee_registry \<Rightarrow> stream_key \<Rightarrow> ('w, unit) action" where
  "TeeRegistry_delete self key =
    act_bind (rg_delete (tr_local self) key) (\<lambda>_.
    act_bind (rg_delete (tr_remote self) key) (\<lambda>_. act_ok ()))"

definition TeeRegistry :: "'w tee_registry \<Rightarrow> 'w registry" where
  "TeeRegistry self =
    \<lparr>rg_get = TeeRegistry_get self, rg_set = TeeRegistry_set self, rg_delete = TeeRegistry_delete self\<rparr>"

section \<open>MultiRegistry\<close>

datatype write_policy = WriteAll | WriteAny | WriteQuorum nat

record 'w multi_registry =
  mr_backends :: "'w registry list"
  mr_write_policy :: write_policy

definition MultiRegistry_new :: "'w registry list \<Rightarrow> 'w multi_registry" where
  "MultiRegistry_new backends = \<lparr>mr_backends = backends, mr_write_policy = WriteAll\<rparr>"

definition MultiRegistry_with_policy :: "'w registry list \<Rightarrow> write_policy \<Rightarrow> 'w multi_registry" where
  "MultiRegistry_with_policy backends policy = \<lparr>mr_backends = backends, mr_write_policy = policy\<rparr>"

fun multi_get :: "'w registry list \<Rightarrow> stream_key \<Rightarrow> 'w \<Rightarrow> error + stream_message option" where
  "multi_get [] key w = Inr None"
| "multi_get (backend # backends) key w =
    (case rg_get backend key w of
       Inr (Some msg) \<Rightarrow> Inr (Some msg)
     | Inr None \<Rightarrow> multi_get backends key w
     | Inl _ \<Rightarrow> multi_get backends key w)"

definition MultiRegistry_get :: "'w multi_registry \<Rightarrow> stream_key \<Rightarrow> 'w \<Rightarrow> error + stream_message option" where
  "MultiRegistry_get self key w = multi_get (mr_backends self) key w"

text \<open>\<^verbatim>\<open>join_all\<close> runs every future to its end; the model runs them one after the other.\<close>

fun join_all :: "('w, 'a) action list \<Rightarrow> 'w \<Rightarrow> (error + 'a) list \<times> 'w" where
  "join_all [] w = ([], w)"
| "join_all (f # fs) w =
    (case f w of (r, w') \<Rightarrow> case join_all fs w' of (rs, w'') \<Rightarrow> (r # rs, w''))"

fun first_err :: "(error + unit) list \<Rightarrow> error + unit" where
  "first_err [] = Inr ()"
| "first_err (Inl e # rs) = Inl e"
| "first_err (Inr _ # rs) = first_err rs"

definition policy_result :: "string \<Rightarrow> write_policy \<Rightarrow> (error + unit) list \<Rightarrow> error + unit" where
  "policy_result what policy results =
    (case policy of
       WriteAll \<Rightarrow> first_err results
     | WriteAny \<Rightarrow>
        let success_count = length (filter is_ok results)
        in if success_count > 0 then Inr ()
           else if results = [] then Inr () else last results
     | WriteQuorum n \<Rightarrow>
        let success_count = length (filter is_ok results)
        in if success_count \<ge> n then Inr ()
           else Inl (Anyhow (what @ show_nat success_count @ '' succeeded, '' @ show_nat n @ '' required'')))"

definition MultiRegistry_set :: "'w multi_registry \<Rightarrow> stream_message \<Rightarrow> ('w, unit) action" where
  "MultiRegistry_set self message w =
    (if mr_backends self = [] then (Inr (), w)
     else case join_all (map (\<lambda>b. rg_set b message) (mr_backends self)) w of
       (results, w') \<Rightarrow> (policy_result ''quorum not met: '' (mr_write_policy self) results, w'))"

definition MultiRegistry_delete :: "'w multi_registry \<Rightarrow> stream_key \<Rightarrow> ('w, unit) action" where
  "MultiRegistry_delete self key w =
    (if mr_backends self = [] then (Inr (), w)
     else case join_all (map (\<lambda>b. rg_delete b key) (mr_backends self)) w of
       (results, w') \<Rightarrow> (policy_result ''quorum not met for delete: '' (mr_write_policy self) results, w'))"

definition MultiRegistry :: "'w multi_registry \<Rightarrow> 'w registry" where
  "MultiRegistry self =
    \<lparr>rg_get = MultiRegistry_get self, rg_set = MultiRegistry_set self, rg_delete = MultiRegistry_delete self\<rparr>"

section \<open>The conflict order decides what is stored\<close>

definition beats :: "stream_message \<Rightarrow> stream_message \<Rightarrow> bool" where
  "beats a b = (StreamMessage_cmp a b = Greater)"

lemma beats_trans: "beats a b \<Longrightarrow> beats b c \<Longrightarrow> beats a c"
  unfolding beats_def by (rule StreamMessage_cmp_trans)

lemma beats_irrefl: "\<not> beats a a"
  by (simp add: beats_def StreamMessage_cmp_Greater_iff)

lemma not_beats_antisym:
  "\<not> beats a b \<Longrightarrow> \<not> beats b a \<Longrightarrow> sm_revision a = sm_revision b \<and> sm_hash a = sm_hash b"
  by (auto simp: beats_def StreamMessage_cmp_Greater_iff)

lemma entry_set_Registry:
  "sm_type_id m = Registry \<Longrightarrow> entry_set m e =
    (case e (sm_key m) of None \<Rightarrow> e(sm_key m \<mapsto> m) | Some x \<Rightarrow> if beats m x then e(sm_key m \<mapsto> m) else e)"
  by (auto simp: entry_set_def should_store_Registry beats_def split: option.splits)

text \<open>The messages for a key that a run has seen: those sent, and the one it started with.\<close>

definition candidates :: "stream_message list \<Rightarrow> (stream_key \<rightharpoonup> stream_message) \<Rightarrow> stream_key \<Rightarrow> stream_message set" where
  "candidates ms e k = {m \<in> set ms. sm_key m = k} \<union> set_option (e k)"

lemma fold_entry_set_winner:
  assumes "\<And>m. m \<in> set ms \<Longrightarrow> sm_type_id m = Registry"
  shows "case fold entry_set ms e k of
      None \<Rightarrow> candidates ms e k = {}
    | Some m \<Rightarrow> m \<in> candidates ms e k \<and> (\<forall>m' \<in> candidates ms e k. \<not> beats m' m)"
  using assms
proof (induction ms rule: rev_induct)
  case Nil
  then show ?case by (auto simp: candidates_def beats_irrefl split: option.splits)
next
  case (snoc x ms)
  let ?e = "fold entry_set ms e"
  have IH: "case ?e k of None \<Rightarrow> candidates ms e k = {}
      | Some m \<Rightarrow> m \<in> candidates ms e k \<and> (\<forall>m' \<in> candidates ms e k. \<not> beats m' m)"
    by (rule snoc.IH) (simp add: snoc.prems)
  have x: "sm_type_id x = Registry" by (simp add: snoc.prems)
  have c: "candidates (ms @ [x]) e k = (if sm_key x = k then insert x (candidates ms e k) else candidates ms e k)"
    by (auto simp: candidates_def)
  show ?case
  proof (cases "sm_key x = k")
    case False
    then have "fold entry_set (ms @ [x]) e k = ?e k"
      by (simp add: entry_set_Registry[OF x] split: option.splits)
    then show ?thesis using IH c False by (simp split: option.splits)
  next
    case True
    show ?thesis
    proof (cases "?e k")
      case None
      then show ?thesis using IH c True
        by (simp add: entry_set_Registry[OF x] beats_irrefl)
    next
      case (Some m)
      then have "fold entry_set (ms @ [x]) e k = Some (if beats x m then x else m)"
        using True by (simp add: entry_set_Registry[OF x])
      then show ?thesis using IH c True Some beats_trans[of _ x m] beats_irrefl[of x] by auto
    qed
  qed
qed

text \<open>Messages for one key that tie in the conflict order are the same message.\<close>

definition tie_free :: "stream_message set \<Rightarrow> bool" where
  "tie_free M = (\<forall>a \<in> M. \<forall>b \<in> M. sm_revision a = sm_revision b \<and> sm_hash a = sm_hash b \<longrightarrow> a = b)"

lemma fold_entry_set_rank:
  assumes "mset ms = mset ms'" "\<And>m. m \<in> set ms \<Longrightarrow> sm_type_id m = Registry"
  shows "map_option (\<lambda>m. (sm_revision m, sm_hash m)) (fold entry_set ms e k) = map_option (\<lambda>m. (sm_revision m, sm_hash m)) (fold entry_set ms' e k)"
proof -
  have c: "candidates ms' e k = candidates ms e k"
    using assms(1) by (simp add: candidates_def flip: set_mset_mset)
  have "\<And>m. m \<in> set ms' \<Longrightarrow> sm_type_id m = Registry" using assms by (metis mset_eq_setD)
  note w = fold_entry_set_winner[OF assms(2), of ms e k] fold_entry_set_winner[OF this, of ms' e k, unfolded c]
  show ?thesis using w not_beats_antisym by (auto split: option.splits)
qed

lemma fold_entry_set_order:
  assumes "mset ms = mset ms'" "\<And>m. m \<in> set ms \<Longrightarrow> sm_type_id m = Registry"
    and "\<And>k. tie_free (candidates ms e k)"
  shows "fold entry_set ms e = fold entry_set ms' e"
proof
  fix k
  have c: "candidates ms' e k = candidates ms e k"
    using assms(1) by (simp add: candidates_def flip: set_mset_mset)
  have "\<And>m. m \<in> set ms' \<Longrightarrow> sm_type_id m = Registry" using assms(1,2) by (metis mset_eq_setD)
  note w = fold_entry_set_winner[OF assms(2), of ms e k] fold_entry_set_winner[OF this, of ms' e k, unfolded c]
  show "fold entry_set ms e k = fold entry_set ms' e k"
    using w assms(3)[of k] not_beats_antisym
    by (auto simp: tie_free_def split: option.splits)
qed

section \<open>The backends keep the contract\<close>

interpretation memory_registry: reliable_registry MemoryRegistry bt_get "\<lambda>_. True" "\<lambda>_. True"
  by standard
     (auto simp: memory_registry_defs entry_set_def Let_def fun_eq_iff split: if_splits)

text \<open>Messages that survive the wire format: validated, and without an empty inline payload.\<close>

definition wire_ok :: "stream_message \<Rightarrow> bool" where
  "wire_ok m = (message_ok m \<and> sm_data m \<noteq> Some [])"

lemma wire_roundtrip [simp]: "wire_ok m \<Longrightarrow> StreamMessage_deserialize (StreamMessage_serialize m) = Inr m"
  by (simp add: wire_ok_def StreamMessage_deserialize_serialize)

lemma wire_deserialize: "StreamMessage_deserialize bs = Inr m \<Longrightarrow> wire_ok m"
  using StreamMessage_deserialize_InrD[of bs m] by (simp add: wire_ok_def)

lemma StreamKey_to_bytes_inject [simp]: "StreamKey_to_bytes a = StreamKey_to_bytes b \<longleftrightarrow> a = b"
  by (metis StreamKey_roundtrip sum.inject(2))

definition redb_ok :: "redb_registry \<Rightarrow> bool" where
  "redb_ok t = (\<forall>i v. bt_get t i = Some v \<longrightarrow>
     (\<exists>m. StreamMessage_deserialize v = Inr m \<and> StreamKey_to_bytes (sm_key m) = i))"

definition redb_entries :: "redb_registry \<Rightarrow> stream_key \<Rightarrow> stream_message option" where
  "redb_entries t k = (case Redb_lookup (StreamKey_to_bytes k) t of Inl _ \<Rightarrow> None | Inr mo \<Rightarrow> mo)"

lemma Redb_lookup_ok: "redb_ok t \<Longrightarrow> Redb_lookup (StreamKey_to_bytes k) t = Inr (redb_entries t k)"
  by (auto simp: redb_entries_def Redb_lookup_def redb_ok_def split: option.splits sum.splits)
     (metis Inl_Inr_False surj_pair)

lemma redb_ok_insert: "redb_ok t \<Longrightarrow> wire_ok m \<Longrightarrow>
    redb_ok (bt_insert (StreamKey_to_bytes (sm_key m)) (StreamMessage_serialize m) t)"
  by (simp add: redb_ok_def)

lemma redb_entries_insert: "wire_ok m \<Longrightarrow>
    redb_entries (bt_insert (StreamKey_to_bytes (sm_key m)) (StreamMessage_serialize m) t)
    = (redb_entries t)(sm_key m \<mapsto> m)"
  by (auto simp: redb_entries_def Redb_lookup_def fun_eq_iff)

lemma redb_ok_remove: "redb_ok t \<Longrightarrow> redb_ok (bt_remove i t)"
  by (simp add: redb_ok_def)

lemma redb_entries_remove: "redb_entries (bt_remove (StreamKey_to_bytes k) t) = (redb_entries t)(k := None)"
  by (auto simp: redb_entries_def Redb_lookup_def fun_eq_iff)

lemma redb_set: "redb_ok t \<Longrightarrow> RedbRegistry_set m t =
    (Inr (), if StreamMessage_should_store m (redb_entries t (sm_key m))
             then bt_insert (StreamKey_to_bytes (sm_key m)) (StreamMessage_serialize m) t else t)"
  by (simp add: RedbRegistry_set_def Let_def act_bind_def Redb_lookup_ok)

interpretation redb_registry: reliable_registry RedbRegistry redb_entries redb_ok wire_ok
  by standard
     (auto simp: RedbRegistry_def RedbRegistry_get_def RedbRegistry_delete_def Redb_lookup_ok redb_set
       redb_ok_insert redb_entries_insert redb_ok_remove redb_entries_remove entry_set_def split: if_splits)

subsection \<open>A registry on a reliable store\<close>

definition store_entries ::
  "(bytes \<Rightarrow> string) \<Rightarrow> 'w store_registry \<Rightarrow> ('w \<Rightarrow> string \<Rightarrow> bytes option) \<Rightarrow> 'w \<Rightarrow> stream_key \<Rightarrow> stream_message option" where
  "store_entries hex self contents w k =
    (case contents w (StoreRegistry_key_path hex self k) of
       None \<Rightarrow> None
     | Some bs \<Rightarrow> (case StreamMessage_deserialize bs of Inl _ \<Rightarrow> None | Inr m \<Rightarrow> Some m))"

definition store_registry_ok ::
  "(bytes \<Rightarrow> string) \<Rightarrow> 'w store_registry \<Rightarrow> ('w \<Rightarrow> string \<Rightarrow> bytes option) \<Rightarrow> 'w \<Rightarrow> bool" where
  "store_registry_ok hex self contents w =
    (\<forall>k bs. contents w (StoreRegistry_key_path hex self k) = Some bs \<longrightarrow>
       (\<exists>m. StreamMessage_deserialize bs = Inr m))"

lemma key_path_inject:
  assumes "inj hex"
  shows "StoreRegistry_key_path hex self a = StoreRegistry_key_path hex self b \<longleftrightarrow> a = b"
proof -
  have "StreamKey_to_bytes a = StreamKey_to_bytes b"
    if "hex (fst (StreamKey_to_bytes a) # snd (StreamKey_to_bytes a))
      = hex (fst (StreamKey_to_bytes b) # snd (StreamKey_to_bytes b))"
    using injD[OF assms that] by (simp add: prod_eq_iff)
  then show ?thesis by (auto simp: StoreRegistry_key_path_def case_prod_unfold Let_def)
qed

text \<open>A store all of whose reads of present objects succeed, and whose reads of absent ones fail.\<close>

context reliable_store
begin

lemma store_registry_get:
  assumes "inv w" "good (StoreRegistry_key_path hex self k)" "sr_store self = ops"
    and "store_registry_ok hex self contents w"
  shows "StoreRegistry_get hex self k w = Inr (store_entries hex self contents w k)"
proof (cases "contents w (StoreRegistry_key_path hex self k)")
  case None
  then have "\<not> is_ok (st_open_read_bytes ops (StoreRegistry_key_path hex self k) 0 None w)"
    using read_law[OF assms(1,2)] by (auto simp: is_ok_iff)
  with None assms(3) show ?thesis
    by (auto simp: StoreRegistry_get_def store_entries_def is_ok_iff split: sum.splits)
next
  case (Some bs)
  with assms show ?thesis using read_total[OF assms(1,2) Some]
    by (fastforce simp: StoreRegistry_get_def store_entries_def store_registry_ok_def split: sum.splits)
qed

lemma store_registry_set:
  assumes "inv w" "\<And>k. good (StoreRegistry_key_path hex self k)" "sr_store self = ops" "inj hex" "wire_ok m"
    and "store_registry_ok hex self contents w" "StoreRegistry_set hex self m w = (r, w')"
  shows "is_ok r \<and> inv w' \<and> store_registry_ok hex self contents w'
    \<and> store_entries hex self contents w' = entry_set m (store_entries hex self contents w)"
proof (cases "StreamMessage_should_store m (store_entries hex self contents w (sm_key m))")
  case False
  then have "r = Inr ()" "w' = w"
    using assms(7) by (auto simp: StoreRegistry_set_def Let_def act_bind_def store_registry_get[OF assms(1,2,3,6)])
  with False assms show ?thesis by (simp add: entry_set_def)
next
  case True
  let ?p = "StoreRegistry_key_path hex self (sm_key m)"
  obtain x w1 where p: "st_put_bytes ops ?p (StreamMessage_serialize m) w = (Inr x, w1)"
    using put_bytes_total[OF assms(1,2)] by (metis eq_fst_iff is_ok_iff)
  then have "r = Inr ()" "w' = w1"
    using assms(3,7) True by (simp_all add: StoreRegistry_set_def Let_def act_bind_def
        store_registry_get[OF assms(1,2,3,6)])
  moreover have "contents w1 (StoreRegistry_key_path hex self k) =
      (if k = sm_key m then Some (StreamMessage_serialize m) else contents w (StoreRegistry_key_path hex self k))" for k
    using put_bytes_law[OF assms(1,2) p] assms(2) by (auto simp: key_path_inject[OF assms(4)])
  ultimately show ?thesis
    using put_bytes_law[OF assms(1,2) p] assms(5,6) True
    by (auto simp: store_registry_ok_def store_entries_def entry_set_def fun_eq_iff)
qed

lemma store_registry_delete:
  assumes "inv w" "\<And>k. good (StoreRegistry_key_path hex self k)" "sr_store self = ops" "inj hex"
    and "store_registry_ok hex self contents w" "StoreRegistry_delete hex self k w = (r, w')"
  shows "is_ok r \<and> inv w' \<and> store_registry_ok hex self contents w'
    \<and> store_entries hex self contents w' = (store_entries hex self contents w)(k := None)"
proof -
  obtain x w1 where d: "st_delete ops (StoreRegistry_key_path hex self k) w = (Inr x, w1)"
    using delete_total[OF assms(1,2)] by (metis eq_fst_iff is_ok_iff)
  then have "r = Inr ()" "w' = w1" using assms(3,6) by (simp_all add: StoreRegistry_delete_def act_bind_def)
  moreover have "contents w1 (StoreRegistry_key_path hex self k') =
      (if k' = k then None else contents w (StoreRegistry_key_path hex self k'))" for k'
    using delete_law[OF assms(1,2) d] assms(2) by (auto simp: key_path_inject[OF assms(4)])
  ultimately show ?thesis
    using delete_law[OF assms(1,2) d] assms(5)
    by (auto simp: store_registry_ok_def store_entries_def fun_eq_iff)
qed

lemma store_registry_reliable:
  assumes "\<And>k. good (StoreRegistry_key_path hex self k)" "sr_store self = ops" "inj hex"
  shows "reliable_registry (StoreRegistry hex self) (store_entries hex self contents)
    (\<lambda>w. inv w \<and> store_registry_ok hex self contents w) wire_ok"
proof (unfold_locales, goal_cases)
  case (1 w k mo)
  then show ?case using store_registry_get[OF _ assms(1,2)] by (simp add: StoreRegistry_def)
next
  case (2 w m r w')
  then show ?case using store_registry_set[OF _ assms, of w m r w'] by (simp add: StoreRegistry_def)
next
  case (3 w k r w')
  then show ?case using store_registry_delete[OF _ assms, of w k r w'] by (simp add: StoreRegistry_def)
next
  case (4 w k)
  then show ?case using store_registry_get[OF _ assms(1,2)] by (simp add: StoreRegistry_def)
next
  case (5 w m)
  then show ?case using store_registry_set[OF _ assms] by (metis StoreRegistry_def prod.collapse registry.select_convs(2))
next
  case (6 w k)
  then show ?case using store_registry_delete[OF _ assms] by (metis StoreRegistry_def prod.collapse registry.select_convs(3))
qed

end

subsection \<open>Registries that agree on their entries answer alike\<close>

lemma reliable_set:
  assumes "reliable_registry reg ent iv sto" "iv w" "sto m"
  shows "\<exists>w'. rg_set reg m w = (Inr (), w') \<and> iv w' \<and> ent w' = entry_set m (ent w)"
proof -
  obtain w' where "rg_set reg m w = (Inr (), w')"
    using reliable_registry.set_total[OF assms] by (metis (full_types) eq_fst_iff is_ok_iff old.unit.exhaust)
  then show ?thesis
    using registry_contract.set_law[OF reliable_registry.axioms(1)[OF assms(1)] assms(2,3)] by simp
qed

lemma reliable_delete:
  assumes "reliable_registry reg ent iv sto" "iv w"
  shows "\<exists>w'. rg_delete reg k w = (Inr (), w') \<and> iv w' \<and> ent w' = (ent w)(k := None)"
proof -
  obtain w' where "rg_delete reg k w = (Inr (), w')"
    using reliable_registry.delete_total[OF assms] by (metis (full_types) eq_fst_iff is_ok_iff old.unit.exhaust)
  then show ?thesis
    using registry_contract.delete_law[OF reliable_registry.axioms(1)[OF assms(1)] assms(2)] by simp
qed

lemma server_step_agree:
  assumes a: "reliable_registry regA entA ivA stoA" "ivA v" and b: "reliable_registry regB entB ivB stoB" "ivB w"
    and eq: "entA v = entB w" and sto: "\<And>m. wire_ok m \<Longrightarrow> stoA m \<and> stoB m"
  shows "\<exists>resp v' w'. RegistryServer_handle show regA req v = (resp, v')
    \<and> RegistryServer_handle show regB req w = (resp, w') \<and> ivA v' \<and> ivB w' \<and> entA v' = entB w'"
proof (cases req)
  case (RpcGet t d)
  then show ?thesis
    using reliable_registry.get_total[OF a] reliable_registry.get_total[OF b] eq a(2) b(2)
    by (simp add: RegistryServer_handle_get_def split: sum.splits option.splits)
next
  case (RpcSet bs)
  show ?thesis
  proof (cases "StreamMessage_deserialize bs")
    case (Inl e)
    then show ?thesis using RpcSet eq a(2) b(2) by (simp add: RegistryServer_handle_set_def)
  next
    case (Inr m)
    then have "stoA m" "stoB m" using sto wire_deserialize by blast+
    then show ?thesis
      using Inr RpcSet reliable_set[OF a, of m] reliable_set[OF b, of m] eq
      by (auto simp: RegistryServer_handle_set_def)
  qed
next
  case (RpcDelete t d)
  show ?thesis
  proof (cases "StreamKey_from_bytes t (arr_list d)")
    case (Inl e)
    then show ?thesis using RpcDelete eq a(2) b(2) by (simp add: RegistryServer_handle_delete_def)
  next
    case (Inr k)
    then show ?thesis
      using RpcDelete reliable_delete[OF a, of k] reliable_delete[OF b, of k] eq
      by (auto simp: RegistryServer_handle_delete_def)
  qed
qed

lemma server_run_agree:
  assumes a: "reliable_registry regA entA ivA stoA" "ivA v" and b: "reliable_registry regB entB ivB stoB" "ivB w"
    and eq: "entA v = entB w" and sto: "\<And>m. wire_ok m \<Longrightarrow> stoA m \<and> stoB m"
  shows "fst (RegistryServer_accept show regA reqs v) = fst (RegistryServer_accept show regB reqs w)"
  using a(2) b(2) eq
proof (induction reqs arbitrary: v w)
  case (Cons req reqs)
  obtain resp v' w' where "RegistryServer_handle show regA req v = (resp, v')"
    "RegistryServer_handle show regB req w = (resp, w')" "ivA v'" "ivB w'" "entA v' = entB w'"
    using server_step_agree[OF a(1) Cons.prems(1) b(1) Cons.prems(2,3) sto] by blast
  then show ?case using Cons.IH[of v' w'] by (simp add: case_prod_unfold)
qed simp

subsection \<open>Remote access\<close>

lemma remote_reliable:
  assumes reg: "reliable_registry (peer_registry p) ent iv sto"
    and link: "\<And>w. iv w \<Longrightarrow> peer_link p w = None" and sto: "\<And>m. wire_ok m \<Longrightarrow> sto m"
  shows "reliable_registry (RemoteRegistry p) ent (\<lambda>w. iv w \<and> (\<forall>k m. ent w k = Some m \<longrightarrow> wire_ok m)) wire_ok"
proof -
  have get: "Client_get p k w = Inr (ent w k)"
    if "iv w" "\<forall>k m. ent w k = Some m \<longrightarrow> wire_ok m" for k w
    using reliable_registry.get_total[OF reg that(1), of k] link[OF that(1)] that(2)
    by (auto simp: Client_get_def RegistryServer_handle_get_def case_prod_unfold Let_def
        length_StreamKey_to_bytes split: option.splits)
  have set: "\<exists>w'. Client_set p m w = (Inr (), w') \<and> iv w' \<and> ent w' = entry_set m (ent w)"
    if "iv w" "wire_ok m" for m w
    using reliable_set[OF reg that(1) sto[OF that(2)]] link[OF that(1)] that(2)
    by (auto simp: Client_set_def RegistryServer_handle_set_def)
  have del: "\<exists>w'. Client_delete p k w = (Inr (), w') \<and> iv w' \<and> ent w' = (ent w)(k := None)" if "iv w" for k w
    using reliable_delete[OF reg that, of k] link[OF that]
    by (auto simp: Client_delete_def RegistryServer_handle_delete_def case_prod_unfold Let_def)
  show ?thesis
  proof (unfold_locales, goal_cases)
    case (1 w k mo)
    then show ?case using get by (simp add: RemoteRegistry_def)
  next
    case (2 w m r w')
    then show ?case using set[of w m] by (auto simp: RemoteRegistry_def entry_set_def split: if_splits)
  next
    case (3 w k r w')
    then show ?case using del[of w k] by (auto simp: RemoteRegistry_def split: if_splits)
  next
    case (4 w k)
    then show ?case using get by (simp add: RemoteRegistry_def)
  next
    case (5 w m)
    then show ?case using set[of w m] by (auto simp: RemoteRegistry_def)
  next
    case (6 w k)
    then show ?case using del[of w k] by (auto simp: RemoteRegistry_def)
  qed
qed

subsection \<open>Fan-out\<close>

lemma first_err_ok: "is_ok (first_err rs) \<longleftrightarrow> (\<forall>r \<in> set rs. is_ok r)"
  by (induction rs rule: first_err.induct) simp_all

lemma policy_result_ok:
  "rs \<noteq> [] \<Longrightarrow> is_ok (policy_result what policy rs) \<longleftrightarrow>
    (case policy of
       WriteAll \<Rightarrow> \<forall>r \<in> set rs. is_ok r
     | WriteAny \<Rightarrow> \<exists>r \<in> set rs. is_ok r
     | WriteQuorum n \<Rightarrow> n \<le> length (filter is_ok rs))"
  by (cases policy)
     (auto simp: policy_result_def first_err_ok Let_def filter_empty_conv dest: last_in_set)

text \<open>Independent replicas: each keeps the registry contract for its own entries, and a write to one
  leaves the others alone.\<close>

definition replicas ::
  "(nat \<Rightarrow> 'w registry) \<Rightarrow> nat \<Rightarrow> (nat \<Rightarrow> 'w \<Rightarrow> stream_key \<Rightarrow> stream_message option) \<Rightarrow> ('w \<Rightarrow> bool)
   \<Rightarrow> (stream_message \<Rightarrow> bool) \<Rightarrow> bool" where
  "replicas b n ent iv sto \<longleftrightarrow>
    (\<forall>i < n. registry_contract (b i) (ent i) iv sto)
    \<and> (\<forall>i < n. \<forall>j < n. \<forall>m w. i \<noteq> j \<longrightarrow> iv w \<longrightarrow> ent j (snd (rg_set (b i) m w)) = ent j w)"

lemma join_all_sets:
  assumes "replicas b n ent iv sto" "sto m" "distinct is" "set is \<subseteq> {..<n}" "iv w"
    and "join_all (map (\<lambda>i. rg_set (b i) m) is) w = (rs, w')"
  shows "length rs = length is \<and> iv w' \<and> (\<forall>j < n. j \<notin> set is \<longrightarrow> ent j w' = ent j w)
    \<and> (\<forall>q < length is. ent (is ! q) w' =
          (if is_ok (rs ! q) then entry_set m (ent (is ! q) w) else ent (is ! q) w))"
  using assms(3-6)
proof (induction "is" arbitrary: w rs)
  case Nil
  then show ?case by simp
next
  case (Cons i "is")
  obtain r w1 where s: "rg_set (b i) m w = (r, w1)" by fastforce
  obtain rs' where rs: "join_all (map (\<lambda>i. rg_set (b i) m) is) w1 = (rs', w')" "rs = r # rs'"
    using Cons.prems(4) s by (auto split: prod.splits)
  have i: "i < n" and c: "registry_contract (b i) (ent i) iv sto"
    using Cons.prems(2) assms(1) by (auto simp: replicas_def)
  note sl = registry_contract.set_law[OF c Cons.prems(3) assms(2) s]
  have other: "ent j w1 = ent j w" if "j < n" "j \<noteq> i" for j
    using assms(1) i that Cons.prems(3) s unfolding replicas_def by (metis snd_conv)
  have IH: "length rs' = length is \<and> iv w' \<and> (\<forall>j < n. j \<notin> set is \<longrightarrow> ent j w' = ent j w1)
      \<and> (\<forall>q < length is. ent (is ! q) w' =
          (if is_ok (rs' ! q) then entry_set m (ent (is ! q) w1) else ent (is ! q) w1))"
    by (rule Cons.IH) (use Cons.prems sl rs in auto)
  have tail: "ent (is ! q) w1 = ent (is ! q) w" if "q < length is" for q
    using other[of "is ! q"] Cons.prems(1,2) nth_mem[OF that] by (metis distinct.simps(2) insert_subset lessThan_iff list.simps(15) subsetD)
  have hd: "ent i w' = ent i w1" using IH i Cons.prems(1) by simp
  show ?case
    using IH rs(2) hd sl other tail Cons.prems(1) by (auto simp: nth_Cons split: nat.splits)
qed

text \<open>A replica that accepted a registry message holds it or one that it does not beat.\<close>

definition holds :: "(stream_key \<rightharpoonup> stream_message) \<Rightarrow> stream_message \<Rightarrow> bool" where
  "holds e m = (\<exists>m'. e (sm_key m) = Some m' \<and> \<not> beats m m')"

lemma holds_entry_set: "sm_type_id m = Registry \<Longrightarrow> holds (entry_set m e) m"
  by (auto simp: holds_def entry_set_Registry beats_irrefl split: option.splits)

lemma replicas_set:
  assumes "replicas b n ent iv sto" "sto m" "sm_type_id m = Registry" "iv w" "0 < n"
    and "MultiRegistry_set \<lparr>mr_backends = map b [0..<n], mr_write_policy = policy\<rparr> m w = (r, w')"
  shows "\<exists>rs :: (error + unit) list. length rs = n \<and> (\<forall>i < n. is_ok (rs ! i) \<longrightarrow> holds (ent i w') m)
    \<and> (\<forall>i < n. \<not> is_ok (rs ! i) \<longrightarrow> ent i w' = ent i w)
    \<and> (is_ok r \<longleftrightarrow> (case policy of
         WriteAll \<Rightarrow> \<forall>r \<in> set rs. is_ok r
       | WriteAny \<Rightarrow> \<exists>r \<in> set rs. is_ok r
       | WriteQuorum q \<Rightarrow> q \<le> length (filter is_ok rs)))"
proof -
  obtain rs where j: "join_all (map (\<lambda>i. rg_set (b i) m) [0..<n]) w = (rs, w')"
    and r: "r = policy_result ''quorum not met: '' policy rs"
    using assms(5,6) by (auto simp: MultiRegistry_set_def o_def split: prod.splits)
  have sets: "length rs = n \<and> (\<forall>q < n. ent q w' = (if is_ok (rs ! q) then entry_set m (ent q w) else ent q w))"
    using join_all_sets[OF assms(1,2) distinct_upt _ assms(4) j] by (simp add: subset_eq)
  then have "rs \<noteq> []" using assms(5) by auto
  from policy_result_ok[OF this] have "is_ok r \<longleftrightarrow> (case policy of
      WriteAll \<Rightarrow> \<forall>r \<in> set rs. is_ok r
    | WriteAny \<Rightarrow> \<exists>r \<in> set rs. is_ok r
    | WriteQuorum q \<Rightarrow> q \<le> length (filter is_ok rs))" unfolding r .
  moreover have "\<forall>i < n. is_ok (rs ! i) \<longrightarrow> holds (ent i w') m" "\<forall>i < n. \<not> is_ok (rs ! i) \<longrightarrow> ent i w' = ent i w"
    using sets holds_entry_set[OF assms(3)] by simp_all
  ultimately show ?thesis using sets by blast
qed

section \<open>Runs of writes\<close>

definition set_all :: "'w registry \<Rightarrow> stream_message list \<Rightarrow> 'w \<Rightarrow> 'w" where
  "set_all reg ms w = fold (\<lambda>m w. snd (rg_set reg m w)) ms w"

context reliable_registry
begin

lemma set_all_entries:
  "inv w \<Longrightarrow> (\<And>m. m \<in> set ms \<Longrightarrow> storable m) \<Longrightarrow>
    inv (set_all reg ms w) \<and> entries (set_all reg ms w) = fold entry_set ms (entries w)"
proof (induction ms arbitrary: w)
  case (Cons m ms)
  obtain w' where "rg_set reg m w = (Inr (), w')" "inv w'" "entries w' = entry_set m (entries w)"
    using reliable_set[OF reliable_registry_axioms Cons.prems(1), of m] Cons.prems(2) by auto
  then show ?case using Cons by (simp add: set_all_def)
qed (simp add: set_all_def)

end

section \<open>Properties\<close>

text \<open>C9. Convergence: replicas in memory that receive the same registry messages, in whatever order and however often the same message is
  repeated in both, hold the same revision and the same hash for every key. They end in the same state if two different messages for one
  key never tie in revision and hash; messages that tie may differ in data or signature, and then the first one stays.\<close>

theorem registry_converges:
  assumes "mset ms = mset ms'" and "\<And>m. m \<in> set ms \<Longrightarrow> sm_type_id m = Registry"
  shows "(\<forall>k. map_option (\<lambda>m. (sm_revision m, sm_hash m)) (bt_get (set_all MemoryRegistry ms data) k)
        = map_option (\<lambda>m. (sm_revision m, sm_hash m)) (bt_get (set_all MemoryRegistry ms' data) k))
    \<and> ((\<forall>k. tie_free (candidates ms (bt_get data) k)) \<longrightarrow> set_all MemoryRegistry ms data = set_all MemoryRegistry ms' data)"
proof -
  note e = memory_registry.set_all_entries[of ms data] memory_registry.set_all_entries[of ms' data]
  have "set_all MemoryRegistry ms data = set_all MemoryRegistry ms' data" if "\<forall>k. tie_free (candidates ms (bt_get data) k)"
    using e fold_entry_set_order[OF assms, of "bt_get data"] that by (simp add: bt_eq_iff)
  then show ?thesis using e fold_entry_set_rank[OF assms] by simp
qed

theorem registry_converges_witness:
  "set_all MemoryRegistry [demo_rev 1, demo_rev 3, demo_rev 2] MemoryRegistry_new
   = set_all MemoryRegistry [demo_rev 3, demo_rev 2, demo_rev 1] MemoryRegistry_new"
  by (rule registry_converges[THEN conjunct2, THEN mp])
     (auto simp: tie_free_def candidates_def MemoryRegistry_new_def)

text \<open>The survivor: after any run of registry writes the entry of a key is one of the messages sent
  for it or the one it started with, and no message seen for that key beats it (so the stored revision
  never decreases); a key without an entry has seen no message.\<close>

theorem registry_keeps_winner:
  assumes "\<And>m. m \<in> set ms \<Longrightarrow> sm_type_id m = Registry"
  shows "case bt_get (set_all MemoryRegistry ms data) k of
      None \<Rightarrow> candidates ms (bt_get data) k = {}
    | Some m \<Rightarrow> m \<in> candidates ms (bt_get data) k
        \<and> (\<forall>m' \<in> candidates ms (bt_get data) k.
             sm_revision m' < sm_revision m \<or> sm_revision m' = sm_revision m \<and> sm_hash m \<le> sm_hash m')"
proof -
  have "bt_get (set_all MemoryRegistry ms data) k = fold entry_set ms (bt_get data) k"
    using memory_registry.set_all_entries[of ms data] by simp
  then show ?thesis
    using fold_entry_set_winner[OF assms, of ms "bt_get data" k]
    by (auto simp: beats_def StreamMessage_cmp_Greater_iff not_less split: option.splits)
qed

theorem registry_keeps_winner_witness:
  "bt_get (set_all MemoryRegistry [demo_rev 1, demo_rev 3, demo_rev 2] MemoryRegistry_new)
     (PublicKeyEd25519 (fill32 42)) = Some (demo_rev 3)"
proof -
  have "\<And>m. m \<in> set [demo_rev 1, demo_rev 3, demo_rev 2] \<Longrightarrow> sm_type_id m = Registry"
    by auto
  from registry_keeps_winner[where ms = "[demo_rev 1, demo_rev 3, demo_rev 2]" and data = MemoryRegistry_new
      and k = "PublicKeyEd25519 (fill32 42)", OF this]
  show ?thesis
    by (auto simp: candidates_def MemoryRegistry_new_def split: option.splits)
qed

text \<open>C11. Observational equivalence: whatever requests a client sends to a registry server, malformed ones
  included, a server on the redb backend and one on the in-memory registry, both initially empty, give
  the same answers. The documentation of the interface would allow the registry in memory to overwrite
  blindly; it does not.\<close>

theorem redb_server_equals_memory_server:
  "fst (RegistryServer_accept show RedbRegistry reqs bt_empty)
   = fst (RegistryServer_accept show MemoryRegistry reqs MemoryRegistry_new)"
  by (rule server_run_agree[OF redb_registry.reliable_registry_axioms _ memory_registry.reliable_registry_axioms])
     (auto simp: redb_ok_def redb_entries_def Redb_lookup_def MemoryRegistry_new_def)

text \<open>The same for a registry kept as objects of an in-memory store under any prefix.\<close>

theorem store_server_equals_memory_server:
  assumes "inj hex"
  shows "fst (RegistryServer_accept show (StoreRegistry hex (StoreRegistry_new MemoryStore pfx)) reqs MemoryStore_new)
    = fst (RegistryServer_accept show MemoryRegistry reqs MemoryRegistry_new)"
proof (rule server_run_agree[OF memory_store.store_registry_reliable _ memory_registry.reliable_registry_axioms])
  show "sr_store (StoreRegistry_new MemoryStore pfx) = MemoryStore" by (simp add: StoreRegistry_new_def)
  show "inj hex" by (rule assms)
qed (auto simp: store_registry_ok_def store_entries_def MemoryStore_new_def MemoryRegistry_new_def)

theorem store_server_equals_memory_server_witness:
  "fst (RegistryServer_accept (\<lambda>_. ''error'') (StoreRegistry (map (\<lambda>b. char_of (unat b))) (StoreRegistry_new MemoryStore None))
      [RpcGet 1 (fill32 7), RpcSet [0, 1]] MemoryStore_new)
   = fst (RegistryServer_accept (\<lambda>_. ''error'') MemoryRegistry [RpcGet 1 (fill32 7), RpcSet [0, 1]] MemoryRegistry_new)"
proof (rule store_server_equals_memory_server)
  have "inj (\<lambda>b :: u8. char_of (unat b) :: char)"
    using unat_byte_less by (intro injI) (metis of_char_of mod_less unsigned_word_eqI)
  then show "inj (map (\<lambda>b :: u8. char_of (unat b) :: char))" by (rule inj_mapI)
qed

text \<open>A remote registry over a working link keeps the contract of the registry it serves: whatever
  was promised of the server's registry for messages the wire can carry holds of the client's.\<close>

theorem remote_registry_transparent:
  assumes "reliable_registry (peer_registry p) ent iv sto"
    and "\<And>w. iv w \<Longrightarrow> peer_link p w = None" and "\<And>m. wire_ok m \<Longrightarrow> sto m"
  shows "reliable_registry (RemoteRegistry p) ent (\<lambda>w. iv w \<and> (\<forall>k m. ent w k = Some m \<longrightarrow> wire_ok m)) wire_ok"
  by (rule remote_reliable[OF assms])

theorem remote_registry_transparent_witness:
  "reliable_registry (RemoteRegistry \<lparr>peer_link = \<lambda>_. None, peer_show = \<lambda>_. ''error'', peer_registry = MemoryRegistry\<rparr>)
     bt_get (\<lambda>w. True \<and> (\<forall>k m. bt_get w k = Some m \<longrightarrow> wire_ok m)) wire_ok"
  by (rule remote_registry_transparent) (simp_all add: memory_registry.reliable_registry_axioms)

text \<open>Replicas that may be down, for the witness of the next property.\<close>

definition demo_replica :: "nat \<Rightarrow> (nat \<Rightarrow> bool \<times> memory_registry) registry" where
  "demo_replica i =
    \<lparr>rg_get = \<lambda>k w. if fst (w i) then MemoryRegistry_get k (snd (w i)) else Inl (Anyhow ''down''),
     rg_set = \<lambda>m w. if fst (w i) then (case MemoryRegistry_set m (snd (w i)) of (r, d) \<Rightarrow> (r, w(i := (True, d))))
                    else (Inl (Anyhow ''down''), w),
     rg_delete = \<lambda>k w. if fst (w i) then (case MemoryRegistry_delete k (snd (w i)) of (r, d) \<Rightarrow> (r, w(i := (True, d))))
                    else (Inl (Anyhow ''down''), w)\<rparr>"

lemma demo_replicas: "replicas demo_replica n (\<lambda>i w. bt_get (snd (w i))) (\<lambda>_. True) (\<lambda>_. True)"
  unfolding replicas_def
proof (intro conjI allI impI)
  fix i assume "i < n"
  show "registry_contract (demo_replica i) (\<lambda>w. bt_get (snd (w i))) (\<lambda>_. True) (\<lambda>_. True)"
    by unfold_locales
       (auto simp: demo_replica_def memory_registry_defs entry_set_def Let_def bt_get_insert[abs_def]
         split: if_splits)
qed (auto simp: demo_replica_def memory_registry_defs Let_def)

text \<open>C13. Write policies: a write to a multi-registry over independent replicas that reports success has
  been accepted by all replicas (\<^verbatim>\<open>All\<close>), by at least one (\<^verbatim>\<open>Any\<close>) or by at least \<open>q\<close> of them
  (\<^verbatim>\<open>Quorum(q)\<close>), each of which then holds the message or one it does not beat; when it reports failure fewer did.\<close>

theorem multi_registry_policy:
  assumes "replicas b n ent iv sto" and "sto m" and "sm_type_id m = Registry" and "iv w" and "0 < n"
    and "MultiRegistry_set (MultiRegistry_with_policy (map b [0..<n]) policy) m w = (r, w')"
  shows "\<exists>A \<subseteq> {..<n}. (\<forall>i \<in> A. holds (ent i w') m) \<and> (\<forall>i < n. i \<notin> A \<longrightarrow> ent i w' = ent i w)
    \<and> (is_ok r \<longleftrightarrow> (case policy of WriteAll \<Rightarrow> A = {..<n} | WriteAny \<Rightarrow> A \<noteq> {} | WriteQuorum q \<Rightarrow> q \<le> card A))"
proof -
  obtain rs :: "(error + unit) list" where rs: "length rs = n" "\<forall>i < n. is_ok (rs ! i) \<longrightarrow> holds (ent i w') m"
    "\<forall>i < n. \<not> is_ok (rs ! i) \<longrightarrow> ent i w' = ent i w"
    and ok: "is_ok r \<longleftrightarrow> (case policy of WriteAll \<Rightarrow> \<forall>r \<in> set rs. is_ok r | WriteAny \<Rightarrow> \<exists>r \<in> set rs. is_ok r
       | WriteQuorum q \<Rightarrow> q \<le> length (filter is_ok rs))"
    using replicas_set[OF assms(1-5), of policy r w'] assms(6) unfolding MultiRegistry_with_policy_def by blast
  let ?A = "{i. i < length rs \<and> is_ok (rs ! i)}"
  have "length (filter is_ok rs) = card ?A" by (rule length_filter_conv_card)
  moreover have "(\<forall>r \<in> set rs. is_ok r) \<longleftrightarrow> ?A = {..<n}"
    unfolding all_set_conv_all_nth rs(1) by blast
  moreover have "(\<exists>r \<in> set rs. is_ok r) \<longleftrightarrow> ?A \<noteq> {}"
    by (simp add: Bex_def in_set_conv_nth) blast
  ultimately have "is_ok r \<longleftrightarrow> (case policy of WriteAll \<Rightarrow> ?A = {..<n} | WriteAny \<Rightarrow> ?A \<noteq> {}
      | WriteQuorum q \<Rightarrow> q \<le> card ?A)"
    unfolding ok by (cases policy) (simp_all only: write_policy.case)
  moreover have "?A \<subseteq> {..<n}" "\<forall>i \<in> ?A. holds (ent i w') m" "\<forall>i < n. i \<notin> ?A \<longrightarrow> ent i w' = ent i w"
    using rs by auto
  ultimately show ?thesis by blast
qed

theorem multi_registry_policy_witness:
  "let w = (\<lambda>i. (i \<noteq> 1, bt_empty));
       (r, w') = MultiRegistry_set (MultiRegistry_with_policy (map demo_replica [0..<3]) (WriteQuorum 2)) (demo_rev 1) w
   in \<exists>A \<subseteq> {..<3}. (\<forall>i \<in> A. holds (bt_get (snd (w' i))) (demo_rev 1)) \<and> (is_ok r \<longleftrightarrow> 2 \<le> card A)"
proof -
  have "sm_type_id (demo_rev 1) = Registry" by simp
  from multi_registry_policy[OF demo_replicas _ this, where w = "\<lambda>i. (i \<noteq> 1, bt_empty)"
      and n = 3 and policy = "WriteQuorum 2", OF _ _ _ prod.collapse[symmetric]]
  show ?thesis unfolding Let_def case_prod_unfold write_policy.case by (meson zero_less_numeral)
qed

text \<open>The guard is missing for stream-typed messages: a peer that sends a message of type
  \<^verbatim>\<open>Stream\<close> replaces whatever entry the key has, also one with a higher revision, although a registry
  message with the same contents is refused. Nor does the server look at the signature bytes.\<close>

theorem stream_message_rolls_back_registry:
  assumes "bt_get data k = Some cur" and "wire_ok m" and "sm_key m = k" and "sm_type_id m = Stream"
  shows "RegistryServer_handle_set show MemoryRegistry (StreamMessage_serialize m) data
      = (Inr (), bt_insert k m data)
    \<and> (beats cur m \<longrightarrow> RegistryServer_handle_set show MemoryRegistry
         (StreamMessage_serialize (m\<lparr>sm_type_id := Registry\<rparr>)) data = (Inr (), data))"
proof -
  have w: "wire_ok (m\<lparr>sm_type_id := Registry\<rparr>)" using assms(2) by (simp add: wire_ok_def message_ok_def)
  have "beats cur m \<Longrightarrow> \<not> beats (m\<lparr>sm_type_id := Registry\<rparr>) cur"
    by (auto simp: beats_def StreamMessage_cmp_Greater_iff)
  then show ?thesis
    using assms w by (auto simp: RegistryServer_handle_set_def memory_registry_defs Let_def
        StreamMessage_should_store_def beats_def)
qed

theorem stream_message_rolls_back_registry_witness:
  "fst (RegistryServer_handle_set (\<lambda>_. ''error'') MemoryRegistry
     (StreamMessage_serialize ((demo_rev 1)\<lparr>sm_type_id := Stream\<rparr>))
     (bt_insert (PublicKeyEd25519 (fill32 42)) (demo_rev 9) bt_empty)) = Inr ()
   \<and> beats (demo_rev 9) ((demo_rev 1)\<lparr>sm_type_id := Stream\<rparr>)"
  using stream_message_rolls_back_registry[of "bt_insert (PublicKeyEd25519 (fill32 42)) (demo_rev 9) bt_empty"
      "PublicKeyEd25519 (fill32 42)" "demo_rev 9" "(demo_rev 1)\<lparr>sm_type_id := Stream\<rparr>"]
  by (simp add: demo_rev_def demo_message_def wire_ok_def message_ok_def beats_def StreamMessage_cmp_Greater_iff)

end
