(* ===== verification/Pins.thy ===== *)
theory Pins
  imports Registry
begin

text \<open>
  Pin sets in a registry: \<^verbatim>\<open>s5_core/src/pins/mod.rs\<close> and \<^verbatim>\<open>s5_core/src/pins/registry_pinner.rs\<close>. The CBOR
  codec for lists of pin contexts (minicbor) and BLAKE3 are parameters, the fields of \<open>pin_codec\<close>.
  A \<^verbatim>\<open>HashSet<PinContext>\<close> is a set. Each operation runs under the lock of its hash, so it is one step.
\<close>

section \<open>Definitions\<close>

datatype pin_context =
    NodeId bytes32
  | LocalFsHead
  | LocalFsSnapshot bytes32

fun pin_rank :: "pin_context \<Rightarrow> nat \<times> bytes32" where
  "pin_rank (NodeId i) = (0, i)"
| "pin_rank LocalFsHead = (1, fill32 0)"
| "pin_rank (LocalFsSnapshot h) = (2, h)"

lemma pin_rank_inject: "pin_rank a = pin_rank b \<Longrightarrow> a = b"
  by (cases a; cases b) simp_all

instantiation pin_context :: linorder
begin

definition less_eq_pin_context :: "pin_context \<Rightarrow> pin_context \<Rightarrow> bool" where
  "less_eq_pin_context a b = (pin_rank a \<le> pin_rank b)"

definition less_pin_context :: "pin_context \<Rightarrow> pin_context \<Rightarrow> bool" where
  "less_pin_context a b = (pin_rank a < pin_rank b)"

instance
  by standard (auto simp: less_eq_pin_context_def less_pin_context_def intro: pin_rank_inject)

end

text \<open>The \<^verbatim>\<open>Pins\<close> trait.\<close>

record 'w pins =
  pn_pin_hash :: "hash \<Rightarrow> pin_context \<Rightarrow> ('w, unit) action"
  pn_unpin_hash :: "hash \<Rightarrow> pin_context \<Rightarrow> ('w, bool) action"
  pn_unpin_hash_all :: "hash \<Rightarrow> ('w, unit) action"
  pn_get_pinners :: "hash \<Rightarrow> 'w \<Rightarrow> error + pin_context set"
  pn_is_pinned :: "hash \<Rightarrow> pin_context \<Rightarrow> 'w \<Rightarrow> error + bool"

record pin_codec =
  pc_encode :: "pin_context list \<Rightarrow> bytes"
  pc_decode :: "bytes \<Rightarrow> string + pin_context list"
  pc_blake3 :: "bytes \<Rightarrow> hash"

definition pin_codec_ok :: "pin_codec \<Rightarrow> bool" where
  "pin_codec_ok C = (\<forall>xs. pc_decode C (pc_encode C xs) = Inr xs \<and> pc_encode C xs \<noteq> [])"

definition lock_for_hash :: "hash \<Rightarrow> nat" where
  "lock_for_hash hash = (let first_byte = unat (Hash_as_bytes hash ! 0) in first_byte mod 64)"

definition hash_to_key :: "hash \<Rightarrow> stream_key" where
  "hash_to_key hash = Blake3HashPin hash"

definition get_internal :: "pin_codec \<Rightarrow> 'w registry \<Rightarrow> stream_key \<Rightarrow> 'w \<Rightarrow> error + pin_context set \<times> u64" where
  "get_internal C reg key w =
    (case rg_get reg key w of
       Inl e \<Rightarrow> Inl e
     | Inr (Some msg) \<Rightarrow>
        (case sm_data msg of
           Some data \<Rightarrow>
             (case pc_decode C data of
                Inl e \<Rightarrow> Inl (Anyhow (''CBOR decode failed: '' @ e))
              | Inr vec \<Rightarrow> Inr (set vec, sm_revision msg))
         | None \<Rightarrow> Inr ({}, sm_revision msg))
     | Inr None \<Rightarrow> Inr ({}, 0))"

definition save_internal ::
  "pin_codec \<Rightarrow> 'w registry \<Rightarrow> stream_key \<Rightarrow> pin_context set \<Rightarrow> u64 \<Rightarrow> ('w, unit) action" where
  "save_internal C reg key pinners new_revision =
    (if pinners = {} then rg_delete reg key
     else
       let pinners_vec = sorted_list_of_set pinners;
           data_bytes = pc_encode C pinners_vec;
           hash = pc_blake3 C data_bytes
       in case StreamMessage_new Registry key new_revision hash [] (Some data_bytes) of
            Inl e \<Rightarrow> act_err (MessageError e)
          | Inr message \<Rightarrow> rg_set reg message)"

definition pin_hash :: "pin_codec \<Rightarrow> 'w registry \<Rightarrow> hash \<Rightarrow> pin_context \<Rightarrow> ('w, unit) action" where
  "pin_hash C reg hash context =
    (let key = hash_to_key hash
     in act_bind (act_read (get_internal C reg key)) (\<lambda>(pinners, revision).
        save_internal C reg key (insert context pinners) (revision + 1)))"

definition unpin_hash :: "pin_codec \<Rightarrow> 'w registry \<Rightarrow> hash \<Rightarrow> pin_context \<Rightarrow> ('w, bool) action" where
  "unpin_hash C reg hash context =
    (let key = hash_to_key hash
     in act_bind (act_read (get_internal C reg key)) (\<lambda>(pinners, revision).
        if context \<notin> pinners then act_ok (pinners = {})
        else
          let pinners = pinners - {context};
              is_empty = (pinners = {})
          in act_bind (save_internal C reg key pinners (revision + 1)) (\<lambda>_. act_ok is_empty)))"

definition unpin_hash_all :: "pin_codec \<Rightarrow> 'w registry \<Rightarrow> hash \<Rightarrow> ('w, unit) action" where
  "unpin_hash_all C reg hash =
    (let key = hash_to_key hash
     in act_bind (act_read (get_internal C reg key)) (\<lambda>(pinners, revision).
        if pinners = {} then act_ok () else save_internal C reg key {} (revision + 1)))"

definition get_pinners :: "pin_codec \<Rightarrow> 'w registry \<Rightarrow> hash \<Rightarrow> 'w \<Rightarrow> error + pin_context set" where
  "get_pinners C reg hash w =
    (case get_internal C reg (hash_to_key hash) w of Inl e \<Rightarrow> Inl e | Inr (pinners, _) \<Rightarrow> Inr pinners)"

definition is_pinned :: "pin_codec \<Rightarrow> 'w registry \<Rightarrow> hash \<Rightarrow> pin_context \<Rightarrow> 'w \<Rightarrow> error + bool" where
  "is_pinned C reg hash context w =
    (case get_internal C reg (hash_to_key hash) w of
       Inl e \<Rightarrow> Inl e
     | Inr (pinners, _) \<Rightarrow> Inr (context \<in> pinners))"

definition RegistryPinner :: "pin_codec \<Rightarrow> 'w registry \<Rightarrow> 'w pins" where
  "RegistryPinner C reg =
    \<lparr>pn_pin_hash = pin_hash C reg, pn_unpin_hash = unpin_hash C reg,
     pn_unpin_hash_all = unpin_hash_all C reg, pn_get_pinners = get_pinners C reg,
     pn_is_pinned = is_pinned C reg\<rparr>"

section \<open>The contract: a set of contexts per hash\<close>

text \<open>\<open>pinned w h\<close> is the set of contexts that pin \<open>h\<close>. \<open>room w\<close> says that no revision counter is about
  to wrap. An operation that fails changes nothing.\<close>

locale pins_contract =
  fixes P :: "'w pins" and pinned :: "'w \<Rightarrow> hash \<Rightarrow> pin_context set"
    and inv :: "'w \<Rightarrow> bool" and room :: "'w \<Rightarrow> bool"
  assumes get_pinners_law: "inv w \<Longrightarrow> pn_get_pinners P h w = Inr s \<Longrightarrow> s = pinned w h"
    and is_pinned_law: "inv w \<Longrightarrow> pn_is_pinned P h c w = Inr b \<Longrightarrow> b = (c \<in> pinned w h)"
    and pin_law: "inv w \<Longrightarrow> room w \<Longrightarrow> pn_pin_hash P h c w = (r, w') \<Longrightarrow>
      inv w' \<and> pinned w' = (if is_ok r then (pinned w)(h := insert c (pinned w h)) else pinned w)"
    and unpin_law: "inv w \<Longrightarrow> room w \<Longrightarrow> pn_unpin_hash P h c w = (r', w') \<Longrightarrow>
      inv w' \<and> pinned w' = (if is_ok r' then (pinned w)(h := pinned w h - {c}) else pinned w)
      \<and> (\<forall>b. r' = Inr b \<longrightarrow> b = (pinned w' h = {}))"
    and unpin_all_law: "inv w \<Longrightarrow> room w \<Longrightarrow> pn_unpin_hash_all P h w = (r, w') \<Longrightarrow>
      inv w' \<and> pinned w' = (if is_ok r then (pinned w)(h := {}) else pinned w)"
begin

text \<open>Contexts are independent: what one context does to a hash no other context sees.\<close>

lemma unpin_other_context:
  assumes "inv w" "room w" "pn_unpin_hash P h c w = (r, w')" "c' \<noteq> c" "c' \<in> pinned w h'"
  shows "c' \<in> pinned w' h'"
  using unpin_law[OF assms(1-3)] assms(4,5) by (auto split: if_splits)

lemma not_orphaned_while_pinned:
  assumes "inv w" "room w" "pn_unpin_hash P h c w = (Inr True, w')" "c' \<noteq> c"
  shows "c' \<notin> pinned w h"
  using unpin_law[OF assms(1-3)] assms(4) by (auto simp: fun_eq_iff)

end

section \<open>RegistryPinner keeps the contract\<close>

definition pins_of :: "pin_codec \<Rightarrow> (stream_key \<rightharpoonup> stream_message) \<Rightarrow> hash \<Rightarrow> pin_context set" where
  "pins_of C e h =
    (case e (hash_to_key h) of
       None \<Rightarrow> {}
     | Some m \<Rightarrow>
        (case sm_data m of
           None \<Rightarrow> {}
         | Some d \<Rightarrow> (case pc_decode C d of Inl _ \<Rightarrow> {} | Inr xs \<Rightarrow> set xs)))"

text \<open>Every pin entry decodes, and belongs to the key it is stored under.\<close>

definition pins_ok :: "pin_codec \<Rightarrow> (stream_key \<rightharpoonup> stream_message) \<Rightarrow> bool" where
  "pins_ok C e =
    (\<forall>h m. e (hash_to_key h) = Some m \<longrightarrow>
       (case sm_data m of None \<Rightarrow> True | Some d \<Rightarrow> is_ok (pc_decode C d)))"

definition pins_room :: "(stream_key \<rightharpoonup> stream_message) \<Rightarrow> bool" where
  "pins_room e = (\<forall>h m. e (hash_to_key h) = Some m \<longrightarrow> sm_revision m < - 1)"

lemma finite_pins_of [simp]: "finite (pins_of C e h)"
  by (auto simp: pins_of_def split: option.splits sum.splits)

lemma hash_to_key_inject [simp]: "hash_to_key a = hash_to_key b \<longleftrightarrow> a = b"
  by (simp add: hash_to_key_def)

lemma less_plus_one: "(r :: u64) < - 1 \<Longrightarrow> r < r + 1"
  by (simp add: word_less_nat_alt unat_word_ariths unsigned_minus_1_eq_mask mask_eq_exp_minus_1)

definition entry_revision :: "(stream_key \<rightharpoonup> stream_message) \<Rightarrow> hash \<Rightarrow> u64" where
  "entry_revision e h = (case e (hash_to_key h) of None \<Rightarrow> 0 | Some m \<Rightarrow> sm_revision m)"

context registry_contract
begin

lemma get_internal_law:
  assumes "inv w" "get_internal C reg (hash_to_key h) w = Inr (s, rv)"
  shows "s = pins_of C (entries w) h \<and> rv = entry_revision (entries w) h"
  using assms get_law[OF assms(1)]
  by (fastforce simp: get_internal_def pins_of_def entry_revision_def split: sum.splits option.splits)

lemma save_internal_law:
  assumes inv: "inv w" and sto: "\<And>m. wire_ok m \<Longrightarrow> storable m" and C: "pin_codec_ok C"
    and ok: "pins_ok C (entries w)" and room: "pins_room (entries w)" and fin: "finite s"
    and step: "save_internal C reg (hash_to_key h) s (entry_revision (entries w) h + 1) w = (r, w')"
  shows "inv w' \<and> pins_ok C (entries w')
    \<and> pins_of C (entries w') = (if is_ok r then (pins_of C (entries w))(h := s) else pins_of C (entries w))"
proof (cases "s = {}")
  case True
  then have "rg_delete reg (hash_to_key h) w = (r, w')" using step by (simp add: save_internal_def)
  from delete_law[OF inv this] True ok show ?thesis
    by (auto simp: pins_of_def pins_ok_def fun_eq_iff)
next
  case False
  let ?d = "pc_encode C (sorted_list_of_set s)" and ?k = "hash_to_key h"
  let ?m = "\<lparr>sm_type_id = Registry, sm_key = ?k, sm_revision = entry_revision (entries w) h + 1,
     sm_hash = pc_blake3 C ?d, sm_signature = [], sm_data = Some ?d\<rparr>"
  have m: "wire_ok ?m" using C by (simp add: wire_ok_def message_ok_def hash_to_key_def pin_codec_ok_def)
  have n: "StreamMessage_new Registry ?k (entry_revision (entries w) h + 1) (pc_blake3 C ?d) [] (Some ?d) = Inr ?m"
    using m by (simp add: StreamMessage_new_Inr_iff wire_ok_def)
  have set: "rg_set reg ?m w = (r, w')"
    using step False n by (simp add: save_internal_def Let_def)
  have "entry_set ?m (entries w) = (entries w)(?k \<mapsto> ?m)"
    using room less_plus_one
    by (auto simp: entry_set_def should_store_Registry StreamMessage_cmp_Greater_iff entry_revision_def
        pins_room_def split: option.splits)
  moreover have "pc_decode C ?d = Inr (sorted_list_of_set s)" using C by (simp add: pin_codec_ok_def)
  ultimately show ?thesis
    using set_law[OF inv sto[OF m] set] ok fin
    by (auto simp: pins_of_def pins_ok_def fun_eq_iff)
qed

lemma pin_hash_law:
  assumes "inv w" "\<And>m. wire_ok m \<Longrightarrow> storable m" "pin_codec_ok C" "pins_ok C (entries w)" "pins_room (entries w)"
    and "pin_hash C reg h c w = (r, w')"
  shows "inv w' \<and> pins_ok C (entries w') \<and> pins_of C (entries w') =
    (if is_ok r then (pins_of C (entries w))(h := insert c (pins_of C (entries w) h)) else pins_of C (entries w))"
proof (cases "get_internal C reg (hash_to_key h) w")
  case (Inl e)
  then show ?thesis using assms by (auto simp: pin_hash_def Let_def act_bind_def)
next
  case (Inr p)
  then obtain s rv where p: "p = (s, rv)" by (cases p)
  with Inr get_internal_law[OF assms(1)] have "s = pins_of C (entries w) h" "rv = entry_revision (entries w) h" by auto
  then have "save_internal C reg (hash_to_key h) (insert c (pins_of C (entries w) h)) (entry_revision (entries w) h + 1) w = (r, w')"
    using assms(6) Inr p by (simp add: pin_hash_def Let_def act_bind_def)
  from save_internal_law[OF assms(1-5) _ this] show ?thesis by simp
qed

lemma unpin_hash_law:
  assumes "inv w" "\<And>m. wire_ok m \<Longrightarrow> storable m" "pin_codec_ok C" "pins_ok C (entries w)" "pins_room (entries w)"
    and "unpin_hash C reg h c w = (r, w')"
  shows "inv w' \<and> pins_ok C (entries w') \<and> pins_of C (entries w') =
      (if is_ok r then (pins_of C (entries w))(h := pins_of C (entries w) h - {c}) else pins_of C (entries w))
    \<and> (\<forall>b. r = Inr b \<longrightarrow> b = (pins_of C (entries w') h = {}))"
proof (cases "get_internal C reg (hash_to_key h) w")
  case (Inl e)
  then show ?thesis using assms by (auto simp: unpin_hash_def Let_def act_bind_def)
next
  case (Inr p)
  then obtain s rv where p: "p = (s, rv)" by (cases p)
  with Inr get_internal_law[OF assms(1)] have s: "s = pins_of C (entries w) h" "rv = entry_revision (entries w) h" by auto
  show ?thesis
  proof (cases "c \<in> s")
    case False
    then have "r = Inr (s = {})" "w' = w" using assms(6) Inr p by (auto simp: unpin_hash_def Let_def act_bind_def)
    then show ?thesis using False s assms by (auto simp: fun_eq_iff)
  next
    case True
    obtain r1 where sv: "save_internal C reg (hash_to_key h) (s - {c}) (rv + 1) w = (r1, w')"
      and r: "r = (case r1 of Inl e \<Rightarrow> Inl e | Inr _ \<Rightarrow> Inr (s - {c} = {}))"
      using assms(6) Inr p True by (auto simp: unpin_hash_def Let_def act_bind_def split: prod.splits sum.splits)
    from save_internal_law[OF assms(1-5) _ sv[unfolded s]] r s show ?thesis by (cases r1) auto
  qed
qed

lemma unpin_hash_all_law:
  assumes "inv w" "\<And>m. wire_ok m \<Longrightarrow> storable m" "pin_codec_ok C" "pins_ok C (entries w)" "pins_room (entries w)"
    and "unpin_hash_all C reg h w = (r, w')"
  shows "inv w' \<and> pins_ok C (entries w') \<and> pins_of C (entries w') =
      (if is_ok r then (pins_of C (entries w))(h := {}) else pins_of C (entries w))"
proof (cases "get_internal C reg (hash_to_key h) w")
  case (Inl e)
  then show ?thesis using assms by (auto simp: unpin_hash_all_def Let_def act_bind_def)
next
  case (Inr p)
  then obtain s rv where p: "p = (s, rv)" by (cases p)
  with Inr get_internal_law[OF assms(1)] have s: "s = pins_of C (entries w) h" "rv = entry_revision (entries w) h" by auto
  show ?thesis
  proof (cases "s = {}")
    case True
    then have "r = Inr ()" "w' = w" using assms(6) Inr p by (auto simp: unpin_hash_all_def Let_def act_bind_def)
    then show ?thesis using True s assms by (auto simp: fun_eq_iff)
  next
    case False
    then have "save_internal C reg (hash_to_key h) {} (rv + 1) w = (r, w')"
      using assms(6) Inr p by (simp add: unpin_hash_all_def Let_def act_bind_def)
    from save_internal_law[OF assms(1-5) _ this[unfolded s]] show ?thesis by simp
  qed
qed

lemma registry_pinner_contract:
  assumes "\<And>m. wire_ok m \<Longrightarrow> storable m"
  shows "pins_contract (RegistryPinner C reg) (\<lambda>w. pins_of C (entries w))
    (\<lambda>w. pin_codec_ok C \<and> inv w \<and> pins_ok C (entries w)) (\<lambda>w. pins_room (entries w))"
proof (unfold_locales, goal_cases)
  case (1 w h s)
  then show ?case using get_internal_law[of w C h]
    by (auto simp: RegistryPinner_def get_pinners_def split: sum.splits)
next
  case (2 w h c b)
  then show ?case using get_internal_law[of w C h]
    by (auto simp: RegistryPinner_def is_pinned_def split: sum.splits)
next
  case (3 w h c r w')
  then show ?case using pin_hash_law[OF _ assms, of w C h c r w'] by (simp add: RegistryPinner_def)
next
  case (4 w h c r w')
  then have "unpin_hash C reg h c w = (r, w')" by (simp add: RegistryPinner_def)
  from unpin_hash_law[OF _ assms _ _ _ this] 4 show ?case by blast
next
  case (5 w h r w')
  then show ?case using unpin_hash_all_law[OF _ assms, of w C h r w'] by (simp add: RegistryPinner_def)
qed

end

interpretation memory_pinner: pins_contract "RegistryPinner C MemoryRegistry" "\<lambda>w. pins_of C (bt_get w)"
  "\<lambda>w. pin_codec_ok C \<and> True \<and> pins_ok C (bt_get w)" "\<lambda>w. pins_room (bt_get w)" for C
  by (rule memory_registry.registry_pinner_contract) simp

interpretation redb_pinner: pins_contract "RegistryPinner C RedbRegistry" "\<lambda>w. pins_of C (redb_entries w)"
  "\<lambda>w. pin_codec_ok C \<and> redb_ok w \<and> pins_ok C (redb_entries w)" "\<lambda>w. pins_room (redb_entries w)" for C
  by (rule redb_registry.registry_pinner_contract) simp

section \<open>Runs of pin operations\<close>

datatype pin_op =
    OpPin hash pin_context
  | OpUnpin hash pin_context
  | OpUnpinAll hash
  | OpGetPinners hash
  | OpIsPinned hash pin_context

datatype pin_answer =
    AnsUnit "error + unit"
  | AnsBool "error + bool"
  | AnsSet "error + pin_context set"

fun pin_step :: "'w pins \<Rightarrow> pin_op \<Rightarrow> 'w \<Rightarrow> pin_answer \<times> 'w" where
  "pin_step P (OpPin h c) w = (case pn_pin_hash P h c w of (r, w') \<Rightarrow> (AnsUnit r, w'))"
| "pin_step P (OpUnpin h c) w = (case pn_unpin_hash P h c w of (r, w') \<Rightarrow> (AnsBool r, w'))"
| "pin_step P (OpUnpinAll h) w = (case pn_unpin_hash_all P h w of (r, w') \<Rightarrow> (AnsUnit r, w'))"
| "pin_step P (OpGetPinners h) w = (AnsSet (pn_get_pinners P h w), w)"
| "pin_step P (OpIsPinned h c) w = (AnsBool (pn_is_pinned P h c w), w)"

text \<open>The specification: a set of contexts for each hash.\<close>

fun pin_spec :: "pin_op \<Rightarrow> (hash \<Rightarrow> pin_context set) \<Rightarrow> pin_answer \<times> (hash \<Rightarrow> pin_context set)" where
  "pin_spec (OpPin h c) s = (AnsUnit (Inr ()), s(h := insert c (s h)))"
| "pin_spec (OpUnpin h c) s = (AnsBool (Inr (s h - {c} = {})), s(h := s h - {c}))"
| "pin_spec (OpUnpinAll h) s = (AnsUnit (Inr ()), s(h := {}))"
| "pin_spec (OpGetPinners h) s = (AnsSet (Inr (s h)), s)"
| "pin_spec (OpIsPinned h c) s = (AnsBool (Inr (c \<in> s h)), s)"

fun run_ops :: "('o \<Rightarrow> 's \<Rightarrow> 'a \<times> 's) \<Rightarrow> 'o list \<Rightarrow> 's \<Rightarrow> 'a list \<times> 's" where
  "run_ops step [] s = ([], s)"
| "run_ops step (x # xs) s =
    (case step x s of (a, s') \<Rightarrow> case run_ops step xs s' of (as, s'') \<Rightarrow> (a # as, s''))"

definition revisions_le :: "nat \<Rightarrow> memory_registry \<Rightarrow> bool" where
  "revisions_le n w = (\<forall>h m. bt_get w (hash_to_key h) = Some m \<longrightarrow> unat (sm_revision m) \<le> n)"

text \<open>The state of the pinner after \<open>n\<close> operations that stands for the sets \<open>s\<close>.\<close>

definition pins_sim :: "pin_codec \<Rightarrow> nat \<Rightarrow> memory_registry \<Rightarrow> (hash \<Rightarrow> pin_context set) \<Rightarrow> bool" where
  "pins_sim C n w s \<longleftrightarrow> pins_ok C (bt_get w) \<and> revisions_le n w \<and> pins_of C (bt_get w) = s"

lemma pins_sim_room:
  assumes "pins_sim C n w s" "n < 2 ^ 64 - 1"
  shows "pins_room (bt_get w)"
  unfolding pins_room_def
proof (intro allI impI)
  fix h m assume "bt_get w (hash_to_key h) = Some m"
  then have "unat (sm_revision m) \<le> n" using assms(1) by (simp add: pins_sim_def revisions_le_def)
  then show "sm_revision m < - 1"
    using assms(2) by (simp add: word_less_nat_alt unsigned_minus_1_eq_mask mask_eq_exp_minus_1)
qed

lemma memory_get_internal:
  "pins_ok C (bt_get w) \<Longrightarrow>
   get_internal C MemoryRegistry (hash_to_key h) w = Inr (pins_of C (bt_get w) h, entry_revision (bt_get w) h)"
  by (auto simp: get_internal_def memory_registry_defs pins_of_def entry_revision_def pins_ok_def is_ok_iff
      split: option.splits sum.splits) force

lemma memory_save_internal:
  assumes "n < 2 ^ 64 - 1" "revisions_le n w" "finite s"
  shows "\<exists>w'. save_internal C MemoryRegistry (hash_to_key h) s (entry_revision (bt_get w) h + 1) w = (Inr (), w')
    \<and> revisions_le (Suc n) w'"
proof -
  have "unat (entry_revision (bt_get w) h) \<le> n"
    using assms(2) by (auto simp: revisions_le_def entry_revision_def split: option.splits)
  then have "unat (entry_revision (bt_get w) h + 1) \<le> Suc n"
    using assms(1) by (simp add: unat_word_ariths)
  moreover have "bt_get w (hash_to_key h') = Some m \<Longrightarrow> unat (sm_revision m) \<le> Suc n" for h' m
    using assms(2) by (auto simp: revisions_le_def intro: le_SucI)
  ultimately show ?thesis
    by (auto simp: save_internal_def memory_registry_defs Let_def StreamMessage_new_def hash_to_key_def
        StreamKey_requires_signature_def revisions_le_def)
qed

lemma pin_step_sim:
  assumes C: "pin_codec_ok C" and sim: "pins_sim C n w s" and n: "n < 2 ^ 64 - 1"
  shows "\<exists>a w' s'. pin_step (RegistryPinner C MemoryRegistry) op w = (a, w') \<and> pin_spec op s = (a, s')
    \<and> pins_sim C (Suc n) w' s'"
proof -
  note room = pins_sim_room[OF sim n]
  have ok: "pins_ok C (bt_get w)" and rl: "revisions_le n w" and s: "s = pins_of C (bt_get w)"
    using sim by (auto simp: pins_sim_def)
  have inv: "pin_codec_ok C \<and> True \<and> pins_ok C (bt_get w)" using C ok by simp
  note gi = memory_get_internal[OF ok] and sv = memory_save_internal[OF n rl, of _ C]
  have rl': "revisions_le (Suc n) w" using rl by (force simp: revisions_le_def intro: le_SucI)
  note fin = finite_pins_of[of C "bt_get w"]
  show ?thesis
  proof (cases op)
    case (OpPin h c)
    obtain w' where p: "pin_hash C MemoryRegistry h c w = (Inr (), w')" "revisions_le (Suc n) w'"
      using sv[of "insert c (pins_of C (bt_get w) h)" h] fin gi by (auto simp: pin_hash_def Let_def act_bind_def)
    then show ?thesis
      using memory_pinner.pin_law[OF inv room, of h c "Inr ()" w'] OpPin s
      by (simp add: RegistryPinner_def pins_sim_def)
  next
    case (OpUnpin h c)
    obtain w' b where p: "unpin_hash C MemoryRegistry h c w = (Inr b, w')" "revisions_le (Suc n) w'"
      using sv[of "pins_of C (bt_get w) h - {c}" h] fin gi[of h] rl'
      by (cases "c \<in> pins_of C (bt_get w) h") (auto simp: unpin_hash_def Let_def act_bind_def)
    then show ?thesis
      using memory_pinner.unpin_law[OF inv room, of h c "Inr b" w'] OpUnpin s
      by (simp add: RegistryPinner_def pins_sim_def)
  next
    case (OpUnpinAll h)
    obtain w' where p: "unpin_hash_all C MemoryRegistry h w = (Inr (), w')" "revisions_le (Suc n) w'"
      using sv[of "{}" h] gi[of h] rl'
      by (cases "pins_of C (bt_get w) h = {}") (auto simp: unpin_hash_all_def Let_def act_bind_def)
    then show ?thesis
      using memory_pinner.unpin_all_law[OF inv room, of h "Inr ()" w'] OpUnpinAll s
      by (simp add: RegistryPinner_def pins_sim_def)
  next
    case (OpGetPinners h)
    then show ?thesis using gi s ok rl' by (simp add: RegistryPinner_def get_pinners_def pins_sim_def)
  next
    case (OpIsPinned h c)
    then show ?thesis using gi s ok rl' by (simp add: RegistryPinner_def is_pinned_def pins_sim_def)
  qed
qed

lemma pin_run_sim:
  assumes "pin_codec_ok C" "pins_sim C n w s" "n + length ops < 2 ^ 64"
  shows "fst (run_ops (pin_step (RegistryPinner C MemoryRegistry)) ops w) = fst (run_ops pin_spec ops s)"
  using assms(2,3)
proof (induction ops arbitrary: n w s)
  case (Cons x ops)
  obtain a w' s' where "pin_step (RegistryPinner C MemoryRegistry) x w = (a, w')" "pin_spec x s = (a, s')"
    "pins_sim C (Suc n) w' s'"
    using pin_step_sim[OF assms(1) Cons.prems(1)] Cons.prems(2) by fastforce
  then show ?case using Cons.IH[of "Suc n" w' s'] Cons.prems(2) by (simp add: case_prod_unfold)
qed simp

section \<open>Properties\<close>

text \<open>C14. The registry pinner implements sets of contexts: starting from an empty registry, every sequence
  of fewer than \<open>2 ^ 64\<close> pin, unpin, unpin-all and query operations succeeds and gives exactly the answers of
  the specification that keeps one set of contexts per hash, the orphan flag of unpin included.\<close>

theorem registry_pinner_implements_sets:
  assumes "pin_codec_ok C" and "length ops < 2 ^ 64"
  shows "fst (run_ops (pin_step (RegistryPinner C MemoryRegistry)) ops MemoryRegistry_new)
    = fst (run_ops pin_spec ops (\<lambda>_. {}))"
  by (rule pin_run_sim[OF assms(1), where n = 0])
     (use assms(2) in \<open>auto simp: pins_sim_def pins_ok_def revisions_le_def pins_of_def MemoryRegistry_new_def\<close>)

text \<open>A codec for the witness: contexts as bytes, one tag and 32 bytes each, after a count byte.\<close>

fun demo_pin_bytes :: "pin_context \<Rightarrow> bytes" where
  "demo_pin_bytes (NodeId i) = 0 # arr_list i"
| "demo_pin_bytes LocalFsHead = 1 # replicate 32 0"
| "demo_pin_bytes (LocalFsSnapshot h) = 2 # arr_list h"

definition demo_pin_of :: "bytes \<Rightarrow> pin_context" where
  "demo_pin_of b = (if hd b = 0 then NodeId (arr32 (tl b)) else if hd b = 1 then LocalFsHead
     else LocalFsSnapshot (arr32 (tl b)))"

function demo_pins_of :: "bytes \<Rightarrow> pin_context list" where
  "demo_pins_of bs = (if length bs < 33 then [] else demo_pin_of (take 33 bs) # demo_pins_of (drop 33 bs))"
  by auto
termination
  by (relation "measure length") auto

declare demo_pins_of.simps [simp del]

definition demo_pin_codec :: pin_codec where
  "demo_pin_codec = \<lparr>pc_encode = \<lambda>xs. 7 # concat (map demo_pin_bytes xs),
     pc_decode = \<lambda>bs. Inr (demo_pins_of (tl bs)), pc_blake3 = \<lambda>b. arr32 b\<rparr>"

lemma demo_pin_bytes_length [simp]: "length (demo_pin_bytes c) = 33"
  by (cases c) simp_all

lemma demo_pin_roundtrip [simp]: "demo_pin_of (demo_pin_bytes c) = c"
  by (cases c) (simp_all add: demo_pin_of_def)

lemma demo_pins_of_concat: "demo_pins_of (concat (map demo_pin_bytes xs)) = xs"
  by (induction xs) (simp_all add: demo_pins_of.simps)

lemma demo_pin_codec_ok: "pin_codec_ok demo_pin_codec"
  by (simp add: pin_codec_ok_def demo_pin_codec_def demo_pins_of_concat)

theorem registry_pinner_implements_sets_witness:
  "fst (run_ops (pin_step (RegistryPinner demo_pin_codec MemoryRegistry))
      [OpPin (fill32 1) LocalFsHead, OpUnpin (fill32 1) (NodeId (fill32 9)), OpUnpin (fill32 1) LocalFsHead] MemoryRegistry_new)
   = [AnsUnit (Inr ()), AnsBool (Inr False), AnsBool (Inr True)]"
  using registry_pinner_implements_sets[OF demo_pin_codec_ok,
      of "[OpPin (fill32 1) LocalFsHead, OpUnpin (fill32 1) (NodeId (fill32 9)), OpUnpin (fill32 1) LocalFsHead]"]
  by simp

text \<open>Every hash has a lock: the index is in range of the 64 locks.\<close>

lemma lock_index_in_range: "lock_for_hash h < 64"
  by (simp add: lock_for_hash_def Let_def)

end
