(* ===== verification/Node_World.thy ===== *)
theory Node_World
  imports Blob_Store Pins
begin

text \<open>
  A node keeps blobs and pins side by side. This theory states what the two need of each other: the
  operations of the one leave the other alone. It builds such worlds as products and shows that the blob store
  operations keep the pins.
\<close>

section \<open>Frames\<close>

definition act_keeps :: "('w \<Rightarrow> 'f) \<Rightarrow> ('w, 'a) action \<Rightarrow> bool" where
  "act_keeps f m \<longleftrightarrow> (\<forall>w. f (snd (m w)) = f w)"

definition store_keeps :: "('w \<Rightarrow> 'f) \<Rightarrow> 'w store \<Rightarrow> bool" where
  "store_keeps f ops \<longleftrightarrow>
    (\<forall>p s. act_keeps f (st_put_stream ops p s)) \<and> (\<forall>p b. act_keeps f (st_put_bytes ops p b))
    \<and> (\<forall>p. act_keeps f (st_delete ops p)) \<and> (\<forall>p q. act_keeps f (st_rename ops p q))
    \<and> (\<forall>u s. act_keeps f (st_put_temp ops u s))"

definition pins_keep :: "('w \<Rightarrow> 'f) \<Rightarrow> 'w pins \<Rightarrow> bool" where
  "pins_keep f P \<longleftrightarrow>
    (\<forall>h c. act_keeps f (pn_pin_hash P h c)) \<and> (\<forall>h c. act_keeps f (pn_unpin_hash P h c))
    \<and> (\<forall>h. act_keeps f (pn_unpin_hash_all P h))"

named_theorems keeps

lemma act_keepsD: "act_keeps f m \<Longrightarrow> m w = (r, w') \<Longrightarrow> f w' = f w"
  by (metis act_keeps_def snd_conv)

lemma act_keeps_basic [simp, keeps]:
  "act_keeps f (act_ok x)" "act_keeps f (act_err e)" "act_keeps f (act_read g)" "act_keeps f (act_lift y)"
  by (simp_all add: act_keeps_def act_read_def act_lift_def split: sum.splits)

lemma act_keeps_bind [keeps]:
  assumes "act_keeps f m" "\<And>x. act_keeps f (g x)"
  shows "act_keeps f (act_bind m g)"
  unfolding act_keeps_def
proof
  fix w
  obtain r w' where m: "m w = (r, w')" by fastforce
  have "f w' = f w" by (rule act_keepsD[OF assms(1) m])
  then show "f (snd (act_bind m g w)) = f w"
    using assms(2) m by (cases r) (simp_all add: act_bind_def act_keeps_def)
qed

lemma store_keepsD [keeps]:
  assumes "store_keeps f ops"
  shows "act_keeps f (st_put_stream ops p s)" "act_keeps f (st_put_bytes ops p b)"
    "act_keeps f (st_delete ops p)" "act_keeps f (st_rename ops p q)" "act_keeps f (st_put_temp ops u s)"
  using assms by (simp_all add: store_keeps_def)

definition blobs_keep :: "('w \<Rightarrow> 'f) \<Rightarrow> 'w blob_store \<Rightarrow> bool" where
  "blobs_keep f self \<longleftrightarrow>
    store_keeps f (bs_store self) \<and> (\<forall>ob. bs_outboard_store self = Some ob \<longrightarrow> store_keeps f ob)"

lemma BlobStore_delete_keeps:
  assumes "blobs_keep f self"
  shows "act_keeps f (BlobStore_delete H self h)"
proof -
  have "act_keeps f (\<lambda>w. case bs_outboard_store self of None \<Rightarrow> (Inr (), w)
      | Some obao_store \<Rightarrow> (Inr (), snd (st_delete obao_store (p obao_store) w)))" for p
    using assms store_keepsD(3)[of f] by (auto simp: blobs_keep_def act_keeps_def split: option.splits)
  then show ?thesis
    using assms by (auto simp: BlobStore_delete_def blobs_keep_def Let_def intro!: keeps)
qed

lemma act_keeps_if [keeps]: "(b \<Longrightarrow> act_keeps f m) \<Longrightarrow> (\<not> b \<Longrightarrow> act_keeps f n) \<Longrightarrow> act_keeps f (if b then m else n)"
  by simp

lemma put_outboard_keeps:
  assumes "\<And>ob'. ob = Some ob' \<Longrightarrow> store_keeps f ob'"
  shows "act_keeps f (put_outboard H ob h d)"
  using assms by (auto simp: put_outboard_def intro!: keeps split: option.splits)

lemma finalize_import_keeps:
  assumes "store_keeps f ops" "\<And>ob'. ob = Some ob' \<Longrightarrow> store_keeps f ob'"
  shows "act_keeps f (finalize_import H ops ob p h s d)"
  unfolding finalize_import_def Let_def
  by (intro keeps put_outboard_keeps assms; assumption)

lemma BlobStore_import_bytes_keeps:
  assumes "blobs_keep f self"
  shows "act_keeps f (BlobStore_import_bytes H self u c)"
proof -
  have ops: "store_keeps f (bs_store self)" and ob: "\<And>ob'. bs_outboard_store self = Some ob' \<Longrightarrow> store_keeps f ob'"
    using assms by (simp_all add: blobs_keep_def)
  show ?thesis
    unfolding BlobStore_import_bytes_def import_bytes_def Let_def case_prod_unfold
    by (intro keeps put_outboard_keeps finalize_import_keeps ops ob; assumption)
qed

lemma BlobStore_import_stream_keeps:
  assumes "blobs_keep f self"
  shows "act_keeps f (BlobStore_import_stream H self u s)"
proof -
  have ops: "store_keeps f (bs_store self)" and ob: "\<And>ob'. bs_outboard_store self = Some ob' \<Longrightarrow> store_keeps f ob'"
    using assms by (simp_all add: blobs_keep_def)
  show ?thesis
    unfolding BlobStore_import_stream_def import_stream_def Let_def case_prod_unfold
    by (intro keeps finalize_import_keeps ops ob; assumption)
qed

lemma BlobStore_import_file_keeps:
  assumes "blobs_keep f self"
  shows "act_keeps f (BlobStore_import_file H self u l s)"
proof -
  have ops: "store_keeps f (bs_store self)" and ob: "\<And>ob'. bs_outboard_store self = Some ob' \<Longrightarrow> store_keeps f ob'"
    using assms by (simp_all add: blobs_keep_def)
  show ?thesis
    unfolding BlobStore_import_file_def import_file_def Let_def case_prod_unfold
    by (intro keeps finalize_import_keeps ops ob; assumption)
qed

section \<open>Product worlds\<close>

definition on_fst :: "('a, 'r) action \<Rightarrow> ('a \<times> 'b, 'r) action" where
  "on_fst m = (\<lambda>(a, b). case m a of (r, a') \<Rightarrow> (r, (a', b)))"

definition on_snd :: "('b, 'r) action \<Rightarrow> ('a \<times> 'b, 'r) action" where
  "on_snd m = (\<lambda>(a, b). case m b of (r, b') \<Rightarrow> (r, (a, b')))"

lemma on_fst_eq [simp]: "on_fst m (a, b) = (case m a of (r, a') \<Rightarrow> (r, (a', b)))"
  by (simp add: on_fst_def)

lemma on_snd_eq [simp]: "on_snd m (a, b) = (case m b of (r, b') \<Rightarrow> (r, (a, b')))"
  by (simp add: on_snd_def)

lemma on_fst_keeps [simp, keeps]: "act_keeps (\<lambda>w. f (snd w)) (on_fst m)"
  by (auto simp: act_keeps_def split: prod.splits)

lemma on_snd_keeps [simp, keeps]: "act_keeps (\<lambda>w. f (fst w)) (on_snd m)"
  by (auto simp: act_keeps_def split: prod.splits)

lemma on_fstE: "on_fst m w = (r, w') \<Longrightarrow> m (fst w) = (r, fst w') \<and> snd w' = snd w"
  by (cases w) (auto split: prod.splits)

lemma on_sndE: "on_snd m w = (r, w') \<Longrightarrow> m (snd w) = (r, snd w') \<and> fst w' = fst w"
  by (cases w) (auto split: prod.splits)

definition store_on_fst :: "'a store \<Rightarrow> ('a \<times> 'b) store" where
  "store_on_fst S =
    \<lparr>st_features = st_features S, st_put_stream = \<lambda>p s. on_fst (st_put_stream S p s),
     st_put_bytes = \<lambda>p c. on_fst (st_put_bytes S p c), st_exists = \<lambda>p w. st_exists S p (fst w),
     st_open_read_stream = \<lambda>p off len w. st_open_read_stream S p off len (fst w),
     st_open_read_bytes = \<lambda>p off len w. st_open_read_bytes S p off len (fst w),
     st_size = \<lambda>p w. st_size S p (fst w), st_list = \<lambda>w. st_list S (fst w),
     st_delete = \<lambda>p. on_fst (st_delete S p), st_rename = \<lambda>p q. on_fst (st_rename S p q),
     st_provide = \<lambda>p w. st_provide S p (fst w), st_put_temp = \<lambda>u s. on_fst (st_put_temp S u s)\<rparr>"

definition store_on_snd :: "'b store \<Rightarrow> ('a \<times> 'b) store" where
  "store_on_snd S =
    \<lparr>st_features = st_features S, st_put_stream = \<lambda>p s. on_snd (st_put_stream S p s),
     st_put_bytes = \<lambda>p c. on_snd (st_put_bytes S p c), st_exists = \<lambda>p w. st_exists S p (snd w),
     st_open_read_stream = \<lambda>p off len w. st_open_read_stream S p off len (snd w),
     st_open_read_bytes = \<lambda>p off len w. st_open_read_bytes S p off len (snd w),
     st_size = \<lambda>p w. st_size S p (snd w), st_list = \<lambda>w. st_list S (snd w),
     st_delete = \<lambda>p. on_snd (st_delete S p), st_rename = \<lambda>p q. on_snd (st_rename S p q),
     st_provide = \<lambda>p w. st_provide S p (snd w), st_put_temp = \<lambda>u s. on_snd (st_put_temp S u s)\<rparr>"

definition pins_on_snd :: "'b pins \<Rightarrow> ('a \<times> 'b) pins" where
  "pins_on_snd P =
    \<lparr>pn_pin_hash = \<lambda>h c. on_snd (pn_pin_hash P h c), pn_unpin_hash = \<lambda>h c. on_snd (pn_unpin_hash P h c),
     pn_unpin_hash_all = \<lambda>h. on_snd (pn_unpin_hash_all P h),
     pn_get_pinners = \<lambda>h w. pn_get_pinners P h (snd w), pn_is_pinned = \<lambda>h c w. pn_is_pinned P h c (snd w)\<rparr>"

lemma store_on_fst_keeps [simp]: "store_keeps (\<lambda>w. f (snd w)) (store_on_fst S)"
  by (simp add: store_keeps_def store_on_fst_def)

lemma store_on_snd_keeps [simp]: "store_keeps (\<lambda>w. f (fst w)) (store_on_snd S)"
  by (simp add: store_keeps_def store_on_snd_def)

lemma pins_on_snd_keep [simp]: "pins_keep (\<lambda>w. f (fst w)) (pins_on_snd P)"
  by (simp add: pins_keep_def pins_on_snd_def)

lemma on_fst_put_temp: "on_fst (Store_put_temp f u s) = Store_put_temp (\<lambda>p s. on_fst (f p s)) u s"
  by (auto simp: Store_put_temp_def Let_def fun_eq_iff act_bind_def split: prod.splits sum.splits)

lemma on_snd_put_temp: "on_snd (Store_put_temp f u s) = Store_put_temp (\<lambda>p s. on_snd (f p s)) u s"
  by (auto simp: Store_put_temp_def Let_def fun_eq_iff act_bind_def split: prod.splits sum.splits)

context store_contract
begin

lemma on_fst_contract:
  "store_contract (store_on_fst ops) (\<lambda>w. contents (fst w)) (\<lambda>w. inv (fst w)) good"
proof (unfold_locales, goal_cases)
  case (1 w p b) then show ?case using exists_law by (simp add: store_on_fst_def)
next
  case (2 w p off len bs) then show ?case using read_law by (simp add: store_on_fst_def)
next
  case (3 w p off len st cs) then show ?case using stream_law by (simp add: store_on_fst_def)
next
  case (4 w p n) then show ?case using size_law by (simp add: store_on_fst_def)
next
  case (5 w p c r w')
  then show ?case using put_bytes_law[of "fst w" p c r "fst w'"] by (simp add: store_on_fst_def on_fstE)
next
  case (6 w p st r w')
  then show ?case using put_stream_law[of "fst w" p st r "fst w'"] by (simp add: store_on_fst_def on_fstE)
next
  case (7 w p r w')
  then show ?case using delete_law[of "fst w" p r "fst w'"] by (simp add: store_on_fst_def on_fstE)
next
  case (8 w p q r w')
  then show ?case using rename_law[of "fst w" p q r "fst w'"] by (simp add: store_on_fst_def on_fstE)
next
  case 9
  show ?case by (simp add: store_on_fst_def put_temp_law on_fst_put_temp fun_eq_iff)
qed

lemma store_on_snd_contract:
  "store_contract (store_on_snd ops) (\<lambda>w. contents (snd w)) (\<lambda>w. inv (snd w)) good"
proof (unfold_locales, goal_cases)
  case (1 w p b) then show ?case using exists_law by (simp add: store_on_snd_def)
next
  case (2 w p off len bs) then show ?case using read_law by (simp add: store_on_snd_def)
next
  case (3 w p off len st cs) then show ?case using stream_law by (simp add: store_on_snd_def)
next
  case (4 w p n) then show ?case using size_law by (simp add: store_on_snd_def)
next
  case (5 w p c r w')
  then show ?case using put_bytes_law[of "snd w" p c r "snd w'"] by (simp add: store_on_snd_def on_sndE)
next
  case (6 w p st r w')
  then show ?case using put_stream_law[of "snd w" p st r "snd w'"] by (simp add: store_on_snd_def on_sndE)
next
  case (7 w p r w')
  then show ?case using delete_law[of "snd w" p r "snd w'"] by (simp add: store_on_snd_def on_sndE)
next
  case (8 w p q r w')
  then show ?case using rename_law[of "snd w" p q r "snd w'"] by (simp add: store_on_snd_def on_sndE)
next
  case 9
  show ?case by (simp add: store_on_snd_def put_temp_law on_snd_put_temp fun_eq_iff)
qed

end

lemma is_ok_on_fst: "is_ok (fst (on_fst m w)) = is_ok (fst (m (fst w)))"
  by (cases w) (auto split: prod.splits)

lemma is_ok_on_snd: "is_ok (fst (on_snd m w)) = is_ok (fst (m (snd w)))"
  by (cases w) (auto split: prod.splits)

context reliable_store
begin

lemma on_fst_reliable:
  "reliable_store (store_on_fst ops) (\<lambda>w. contents (fst w)) (\<lambda>w. inv (fst w)) good"
proof (intro reliable_store.intro on_fst_contract reliable_store_axioms.intro, goal_cases)
  case 1 then show ?case using exists_total by (simp add: store_on_fst_def)
next
  case 2 then show ?case using read_total by (simp add: store_on_fst_def)
next
  case 3 then show ?case using stream_total by (simp add: store_on_fst_def)
next
  case 4 then show ?case using size_total by (simp add: store_on_fst_def)
next
  case 5 then show ?case using put_bytes_total by (simp add: store_on_fst_def is_ok_on_fst)
next
  case 6 then show ?case using put_stream_total by (simp add: store_on_fst_def is_ok_on_fst)
next
  case 7 then show ?case using delete_total by (simp add: store_on_fst_def is_ok_on_fst)
next
  case 8 then show ?case using rename_total by (simp add: store_on_fst_def is_ok_on_fst)
qed

lemma store_on_snd_reliable:
  "reliable_store (store_on_snd ops) (\<lambda>w. contents (snd w)) (\<lambda>w. inv (snd w)) good"
proof (intro reliable_store.intro store_on_snd_contract reliable_store_axioms.intro, goal_cases)
  case 1 then show ?case using exists_total by (simp add: store_on_snd_def)
next
  case 2 then show ?case using read_total by (simp add: store_on_snd_def)
next
  case 3 then show ?case using stream_total by (simp add: store_on_snd_def)
next
  case 4 then show ?case using size_total by (simp add: store_on_snd_def)
next
  case 5 then show ?case using put_bytes_total by (simp add: store_on_snd_def is_ok_on_snd)
next
  case 6 then show ?case using put_stream_total by (simp add: store_on_snd_def is_ok_on_snd)
next
  case 7 then show ?case using delete_total by (simp add: store_on_snd_def is_ok_on_snd)
next
  case 8 then show ?case using rename_total by (simp add: store_on_snd_def is_ok_on_snd)
qed

end

context pins_contract
begin

lemma on_snd_contract:
  "pins_contract (pins_on_snd P) (\<lambda>w. pinned (snd w)) (\<lambda>w. inv (snd w)) (\<lambda>w. room (snd w))"
proof (unfold_locales, goal_cases)
  case (1 w h s) then show ?case using get_pinners_law by (simp add: pins_on_snd_def)
next
  case (2 w h c b) then show ?case using is_pinned_law by (simp add: pins_on_snd_def)
next
  case (3 w h c r w')
  then show ?case using pin_law[of "snd w" h c r "snd w'"] by (simp add: pins_on_snd_def on_sndE)
next
  case (4 w h c r w')
  then have "pn_unpin_hash P h c (snd w) = (r, snd w')" by (simp add: pins_on_snd_def on_sndE)
  with 4 show ?case using unpin_law[of "snd w" h c r "snd w'"] by blast
next
  case (5 w h r w')
  then show ?case using unpin_all_law[of "snd w" h r "snd w'"] by (simp add: pins_on_snd_def on_sndE)
qed

end

definition pins_on_fst :: "'a pins \<Rightarrow> ('a \<times> 'b) pins" where
  "pins_on_fst P =
    \<lparr>pn_pin_hash = \<lambda>h c. on_fst (pn_pin_hash P h c), pn_unpin_hash = \<lambda>h c. on_fst (pn_unpin_hash P h c),
     pn_unpin_hash_all = \<lambda>h. on_fst (pn_unpin_hash_all P h),
     pn_get_pinners = \<lambda>h w. pn_get_pinners P h (fst w), pn_is_pinned = \<lambda>h c w. pn_is_pinned P h c (fst w)\<rparr>"

context pins_contract
begin

lemma pins_on_fst_contract:
  "pins_contract (pins_on_fst P) (\<lambda>w. pinned (fst w)) (\<lambda>w. inv (fst w)) (\<lambda>w. room (fst w))"
proof (unfold_locales, goal_cases)
  case (1 w h s) then show ?case using get_pinners_law by (simp add: pins_on_fst_def)
next
  case (2 w h c b) then show ?case using is_pinned_law by (simp add: pins_on_fst_def)
next
  case (3 w h c r w')
  then show ?case using pin_law[of "fst w" h c r "fst w'"] by (simp add: pins_on_fst_def on_fstE)
next
  case (4 w h c r w')
  then have "pn_unpin_hash P h c (fst w) = (r, fst w')" by (simp add: pins_on_fst_def on_fstE)
  with 4 show ?case using unpin_law[of "fst w" h c r "fst w'"] by blast
next
  case (5 w h r w')
  then show ?case using unpin_all_law[of "fst w" h r "fst w'"] by (simp add: pins_on_fst_def on_fstE)
qed

end

section \<open>Blobs and pins together\<close>

locale node_world =
  store_contract ops contents sinv good + pins_contract P pinned pinv room
  for ops :: "'w store" and contents sinv good and P :: "'w pins" and pinned pinv room +
  assumes store_keeps_pins: "store_keeps (\<lambda>w. (pinned w, pinv w, room w)) ops"
    and pins_keep_store: "pins_keep (\<lambda>w. (contents w, sinv w)) P"
begin

lemma delete_frame:
  assumes "BlobStore_delete H \<lparr>bs_store = ops, bs_outboard_store = ob\<rparr> h w = (r, w')"
    and "ob = None \<or> ob = Some ops"
  shows "pinned w' = pinned w \<and> pinv w' = pinv w \<and> room w' = room w"
  using act_keepsD[OF BlobStore_delete_keeps assms(1), of "\<lambda>w. (pinned w, pinv w, room w)"]
    store_keeps_pins assms(2)
  by (auto simp: blobs_keep_def)

end

text \<open>Every store and every pinner make a node world side by side.\<close>

lemma product_node_world:
  assumes "store_contract S ct si gd" "pins_contract P pd pv rm"
  shows "node_world (store_on_fst S) (\<lambda>w. ct (fst w)) (\<lambda>w. si (fst w)) gd
    (pins_on_snd P) (\<lambda>w. pd (snd w)) (\<lambda>w. pv (snd w)) (\<lambda>w. rm (snd w))"
  by (intro node_world.intro node_world_axioms.intro store_contract.on_fst_contract[OF assms(1)]
      pins_contract.on_snd_contract[OF assms(2)]
      store_on_fst_keeps[where f = "\<lambda>b. (pd b, pv b, rm b)"] pins_on_snd_keep[where f = "\<lambda>a. (ct a, si a)"])

interpretation memory_node: node_world "store_on_fst MemoryStore" "\<lambda>w. bt_get (fst w)" "\<lambda>w. True" "\<lambda>_. True"
  "pins_on_snd (RegistryPinner C MemoryRegistry)" "\<lambda>w. pins_of C (bt_get (snd w))"
  "\<lambda>w. pin_codec_ok C \<and> True \<and> pins_ok C (bt_get (snd w))" "\<lambda>w. pins_room (bt_get (snd w))" for C
  by (rule product_node_world[OF memory_store.store_contract_axioms memory_pinner.pins_contract_axioms])

interpretation redb_node: node_world "store_on_fst MemoryStore" "\<lambda>w. bt_get (fst w)" "\<lambda>w. True" "\<lambda>_. True"
  "pins_on_snd (RegistryPinner C RedbRegistry)" "\<lambda>w. pins_of C (redb_entries (snd w))"
  "\<lambda>w. pin_codec_ok C \<and> redb_ok (snd w) \<and> pins_ok C (redb_entries (snd w))" "\<lambda>w. pins_room (redb_entries (snd w))"
  for C
  by (rule product_node_world[OF memory_store.store_contract_axioms redb_pinner.pins_contract_axioms])

end
