(* ===== verification/Gc.thy ===== *)
theory Gc
  imports Dir_Codec Node_World
begin

text \<open>
  Garbage collection: \<^verbatim>\<open>s5_fs/src/gc.rs\<close>. The two metadata files are arguments (\<open>None\<close> when the file
  cannot be read); the meta store is any blob store.
\<close>

section \<open>Collecting the hashes of a directory\<close>

lemma versions_size:
  "length (versions fr) = 1 + (case fr_prev fr of None \<Rightarrow> 0 | Some p \<Rightarrow> length (versions p))
     + (case fr_first_version fr of None \<Rightarrow> 0 | Some p \<Rightarrow> length (versions p))"
  by (subst versions_unfold) (simp split: option.splits)

text \<open>The traversal of the version chains with an explicit stack, its top first.\<close>

function add_versions_loop :: "file_ref list \<Rightarrow> hash set \<Rightarrow> hash set" where
  "add_versions_loop [] acc = acc"
| "add_versions_loop (fr # stack) acc =
    (let acc = insert (fr_hash fr) acc;
         stack = (case fr_prev fr of Some prev \<Rightarrow> prev # stack | None \<Rightarrow> stack);
         stack = (case fr_first_version fr of Some first \<Rightarrow> first # stack | None \<Rightarrow> stack)
     in add_versions_loop stack acc)"
  by pat_completeness auto

termination
  by (relation "measure (\<lambda>(stack, _). sum_list (map (\<lambda>f. length (versions f)) stack))")
     (auto simp: versions_size split: option.splits)

definition add_versions_iterative :: "file_ref \<Rightarrow> hash set \<Rightarrow> hash set" where
  "add_versions_iterative root acc = add_versions_loop [root] acc"

definition collect_file :: "file_ref \<Rightarrow> hash set \<Rightarrow> hash set" where
  "collect_file file_ref reachable =
    (if FileRef_is_tombstone file_ref then
       let reachable = (case fr_prev file_ref of
             Some prev \<Rightarrow> add_versions_iterative prev reachable | None \<Rightarrow> reachable)
       in (case fr_first_version file_ref of
             Some first \<Rightarrow> add_versions_iterative first reachable | None \<Rightarrow> reachable)
     else add_versions_iterative file_ref reachable)"

definition collect_hashes_from_dir :: "dir_v1 \<Rightarrow> hash set \<Rightarrow> hash set" where
  "collect_hashes_from_dir dir reachable = fold collect_file (bt_vals (dv_files dir)) reachable"

section \<open>Walking the snapshots\<close>

definition get_key :: "dir_ref \<Rightarrow> bytes32 option" where
  "get_key d = (case dr_keys d of None \<Rightarrow> None | Some k \<Rightarrow> bt_get k 0x0e)"

text \<open>The child snapshots of a directory, in the order in which they are queued.\<close>

definition child_refs :: "dir_v1 \<Rightarrow> (hash \<times> bytes32 option) list" where
  "child_refs dir =
    (case dh_shards (dv_header dir) of
       Some shards \<Rightarrow> map (\<lambda>r. (dr_hash r, get_key r)) (bt_vals shards)
     | None \<Rightarrow> [])
    @ map (\<lambda>r. (dr_hash r, get_key r)) (bt_vals (dv_dirs dir))"

text \<open>Loading one snapshot; any failure is a missing subtree.\<close>

definition load_dir :: "dir_codec \<Rightarrow> (hash \<Rightarrow> error + bytes) \<Rightarrow> hash \<times> bytes32 option \<Rightarrow> dir_v1 option" where
  "load_dir D read r =
    (case r of (h, key) \<Rightarrow>
       case read h of
         Inr bs \<Rightarrow>
           (case decrypt_dir_bytes D bs key of
              Inl _ \<Rightarrow> None
            | Inr decrypted \<Rightarrow>
               (case DirV1_from_bytes D decrypted of Inr subdir \<Rightarrow> Some subdir | Inl _ \<Rightarrow> None))
       | Inl _ \<Rightarrow> None)"

fun drain_hash_queue ::
  "dir_codec \<Rightarrow> (hash \<Rightarrow> error + bytes) \<Rightarrow> (hash \<times> bytes32 option) list \<Rightarrow> hash set \<Rightarrow> dir_v1 list
   \<Rightarrow> hash set \<times> dir_v1 list" where
  "drain_hash_queue D read [] visited dir_queue = (visited, dir_queue)"
| "drain_hash_queue D read ((h, key) # hash_queue) visited dir_queue =
    (if h \<in> visited then drain_hash_queue D read hash_queue visited dir_queue
     else
       let visited = insert h visited
       in case load_dir D read (h, key) of
            Some subdir \<Rightarrow> drain_hash_queue D read hash_queue visited (dir_queue @ [subdir])
          | None \<Rightarrow> drain_hash_queue D read hash_queue visited dir_queue)"

lemma drain_measure:
  "drain_hash_queue D read q visited ds = (visited', ds') \<Longrightarrow>
   card (- visited') + length ds' \<le> card (- visited) + length ds \<and> visited \<subseteq> visited'"
proof (induction D read q visited ds rule: drain_hash_queue.induct)
  case (2 D read h key q visited ds)
  show ?case
  proof (cases "h \<in> visited")
    case False
    then have "card (- visited) = Suc (card (- insert h visited))"
      by (metis ComplI Compl_insert card_Suc_Diff1 finite)
    with 2 False show ?thesis by (fastforce simp: Let_def split: option.splits)
  qed (use 2 in auto)
qed simp

function traverse ::
  "dir_codec \<Rightarrow> (hash \<Rightarrow> error + bytes) \<Rightarrow> dir_v1 list \<Rightarrow> (hash \<times> bytes32 option) list \<Rightarrow> hash set \<Rightarrow> hash set
   \<Rightarrow> hash set" where
  "traverse D read [] hash_queue visited reachable = reachable"
| "traverse D read (dir # dir_queue) hash_queue visited reachable =
    (let reachable = collect_hashes_from_dir dir reachable;
         hash_queue = hash_queue @ child_refs dir;
         step = drain_hash_queue D read hash_queue visited dir_queue
     in traverse D read (snd step) [] (fst step) reachable)"
  by pat_completeness auto

termination
proof (relation "measure (\<lambda>(D, read, ds, q, visited, reachable). card (- visited) + length ds)", goal_cases)
  case (2 D read dir ds q visited reachable r' q' step)
  then show ?case using drain_measure[of D read q' visited ds "fst step" "snd step"] by simp
qed simp

definition collect_fs_reachable_hashes ::
  "dir_codec \<Rightarrow> (hash \<Rightarrow> error + bytes) \<Rightarrow> bytes option \<Rightarrow> bytes option \<Rightarrow> bytes32 option \<Rightarrow> error + hash set" where
  "collect_fs_reachable_hashes D read root_file snapshots_file root_key =
    (case (case root_file of
             None \<Rightarrow> Inr []
           | Some bs \<Rightarrow>
              (case decrypt_dir_bytes D bs root_key of
                 Inl e \<Rightarrow> Inl (Anyhow ''failed to decrypt root.fs5.cbor'')
               | Inr decrypted \<Rightarrow>
                  (case DirV1_from_bytes D decrypted of
                     Inl e \<Rightarrow> Inl (Anyhow ''failed to parse root.fs5.cbor'')
                   | Inr dir \<Rightarrow> Inr [dir]))) of
       Inl e \<Rightarrow> Inl e
     | Inr dir_queue \<Rightarrow>
        let hash_queue =
              (case snapshots_file of
                 None \<Rightarrow> []
               | Some bs \<Rightarrow>
                  (case DirV1_from_bytes D bs of
                     Inl _ \<Rightarrow> []
                   | Inr snapshots_dir \<Rightarrow> map (\<lambda>r. (dr_hash r, root_key)) (bt_vals (dv_dirs snapshots_dir))))
        in Inr (traverse D read dir_queue hash_queue {} {}))"

section \<open>Collecting garbage\<close>

record gc_report =
  gr_total :: nat
  gr_kept_by_pins :: nat
  gr_kept_by_reachability :: nat
  gr_deleted :: nat
  gr_candidates :: "hash list"
  gr_delete_errors :: "(hash \<times> error) list"

definition GcReport_default :: gc_report where
  "GcReport_default = \<lparr>gr_total = 0, gr_kept_by_pins = 0, gr_kept_by_reachability = 0, gr_deleted = 0,
     gr_candidates = [], gr_delete_errors = []\<rparr>"

fun gc_loop ::
  "hashing \<Rightarrow> 'w blob_store \<Rightarrow> hash set \<Rightarrow> 'w pins \<Rightarrow> bool \<Rightarrow> hash list \<Rightarrow> gc_report \<Rightarrow> ('w, gc_report) action" where
  "gc_loop H blobs reachable P dry_run [] report = act_ok report"
| "gc_loop H blobs reachable P dry_run (h # hs) report =
    (let report = report\<lparr>gr_total := gr_total report + 1\<rparr>
     in act_bind (act_read (pn_get_pinners P h)) (\<lambda>pinners.
        if pinners \<noteq> {} then
          gc_loop H blobs reachable P dry_run hs (report\<lparr>gr_kept_by_pins := gr_kept_by_pins report + 1\<rparr>)
        else if h \<in> reachable then
          gc_loop H blobs reachable P dry_run hs
            (report\<lparr>gr_kept_by_reachability := gr_kept_by_reachability report + 1\<rparr>)
        else
          let report = report\<lparr>gr_candidates := gr_candidates report @ [h]\<rparr>
          in if dry_run then gc_loop H blobs reachable P dry_run hs report
             else (\<lambda>w. case BlobStore_delete H blobs h w of
                 (Inr _, w') \<Rightarrow>
                   gc_loop H blobs reachable P dry_run hs (report\<lparr>gr_deleted := gr_deleted report + 1\<rparr>) w'
               | (Inl e, w') \<Rightarrow>
                   gc_loop H blobs reachable P dry_run hs
                     (report\<lparr>gr_delete_errors := gr_delete_errors report @ [(h, e)]\<rparr>) w')))"

definition gc_store ::
  "hashing \<Rightarrow> 'w blob_store \<Rightarrow> hash set \<Rightarrow> 'w pins \<Rightarrow> bool \<Rightarrow> ('w, gc_report) action" where
  "gc_store H blobs reachable P dry_run =
    act_bind (act_read (BlobStore_list_hashes H blobs)) (\<lambda>all_hashes.
    gc_loop H blobs reachable P dry_run all_hashes GcReport_default)"

section \<open>What is collected\<close>

lemma add_versions_loop_set:
  "add_versions_loop stack acc = acc \<union> (\<Union>f \<in> set stack. fr_hash ` set (versions f))"
proof (induction stack acc rule: add_versions_loop.induct)
  case (2 fr stack acc)
  have "fr_hash ` set (versions fr) = insert (fr_hash fr)
      ((case fr_prev fr of None \<Rightarrow> {} | Some p \<Rightarrow> fr_hash ` set (versions p))
       \<union> (case fr_first_version fr of None \<Rightarrow> {} | Some p \<Rightarrow> fr_hash ` set (versions p)))"
    by (subst versions_unfold) (auto split: option.splits)
  with 2 show ?case by (auto simp: Let_def split: option.splits)
qed simp

text \<open>The content a file reference keeps alive: every version, but for a tombstone not its own copy of the
  hash.\<close>

definition live_versions :: "file_ref \<Rightarrow> file_ref set" where
  "live_versions f =
    (if FileRef_is_tombstone f then
       (case fr_prev f of None \<Rightarrow> {} | Some p \<Rightarrow> set (versions p))
       \<union> (case fr_first_version f of None \<Rightarrow> {} | Some p \<Rightarrow> set (versions p))
     else set (versions f))"

definition dir_hashes :: "dir_v1 \<Rightarrow> hash set" where
  "dir_hashes d = (\<Union>f \<in> set (bt_vals (dv_files d)). fr_hash ` live_versions f)"

lemma collect_file_set: "collect_file f acc = acc \<union> fr_hash ` live_versions f"
  by (auto simp: collect_file_def live_versions_def add_versions_iterative_def add_versions_loop_set Let_def
      split: option.splits)

lemma fold_collect_file: "fold collect_file fs acc = acc \<union> (\<Union>f \<in> set fs. fr_hash ` live_versions f)"
  by (induction fs arbitrary: acc) (auto simp: collect_file_set)

lemma collect_hashes_from_dir_set: "collect_hashes_from_dir d acc = acc \<union> dir_hashes d"
  by (simp add: collect_hashes_from_dir_def dir_hashes_def fold_collect_file)

section \<open>The directories that are walked\<close>

inductive reachable_dir ::
  "dir_codec \<Rightarrow> (hash \<Rightarrow> error + bytes) \<Rightarrow> dir_v1 list \<Rightarrow> (hash \<times> bytes32 option) list \<Rightarrow> dir_v1 \<Rightarrow> bool"
  for D read ds0 rs0 where
  root: "d \<in> set ds0 \<Longrightarrow> reachable_dir D read ds0 rs0 d"
| snapshot: "r \<in> set rs0 \<Longrightarrow> load_dir D read r = Some d \<Longrightarrow> reachable_dir D read ds0 rs0 d"
| child: "reachable_dir D read ds0 rs0 d \<Longrightarrow> r \<in> set (child_refs d) \<Longrightarrow> load_dir D read r = Some d'
    \<Longrightarrow> reachable_dir D read ds0 rs0 d'"

text \<open>References to one hash carry the same key: what a reference loads depends on its hash alone.\<close>

definition keys_agree ::
  "dir_codec \<Rightarrow> (hash \<Rightarrow> error + bytes) \<Rightarrow> dir_v1 list \<Rightarrow> (hash \<times> bytes32 option) list \<Rightarrow> (hash \<Rightarrow> dir_v1 option) \<Rightarrow> bool" where
  "keys_agree D read ds0 rs0 ld \<longleftrightarrow>
    (\<forall>r \<in> set rs0. load_dir D read r = ld (fst r))
    \<and> (\<forall>d. reachable_dir D read ds0 rs0 d \<longrightarrow> (\<forall>r \<in> set (child_refs d). load_dir D read r = ld (fst r)))"

lemma drain_set:
  assumes "\<forall>r \<in> set q. load_dir D read r = ld (fst r)"
    and "drain_hash_queue D read q visited ds = (visited', ds')"
  shows "visited' = visited \<union> fst ` set q
    \<and> set ds \<subseteq> set ds'
    \<and> set ds' \<subseteq> set ds \<union> {d. \<exists>r \<in> set q. ld (fst r) = Some d}
    \<and> (\<forall>h \<in> fst ` set q - visited. \<forall>d. ld h = Some d \<longrightarrow> d \<in> set ds')"
  using assms
proof (induction q arbitrary: visited ds)
  case (Cons r q)
  obtain h key where r: "r = (h, key)" by (cases r)
  have ld: "load_dir D read (h, key) = ld h" using Cons.prems(1) r by simp
  have q: "\<forall>r \<in> set q. load_dir D read r = ld (fst r)" using Cons.prems(1) by simp
  show ?case
  proof (cases "h \<in> visited")
    case True
    then have "drain_hash_queue D read q visited ds = (visited', ds')" using Cons.prems(2) r by simp
    from Cons.IH[OF q this] True r show ?thesis by auto
  next
    case False
    let ?ds = "case ld h of None \<Rightarrow> ds | Some d \<Rightarrow> ds @ [d]"
    have "drain_hash_queue D read q (insert h visited) ?ds = (visited', ds')"
      using Cons.prems(2) False ld r by (simp add: Let_def split: option.splits)
    note IH = Cons.IH[OF q this]
    have "set ?ds = set ds \<union> set_option (ld h)" by (simp split: option.splits)
    with IH False r show ?thesis by (auto simp: elem_set)
  qed
qed simp

lemma traverse_covers:
  assumes "keys_agree D read ds0 rs0 ld"
    and "\<And>d. d \<in> set ds \<union> Pd \<Longrightarrow> reachable_dir D read ds0 rs0 d"
    and "\<And>r. r \<in> set q \<Longrightarrow> load_dir D read r = ld (fst r) \<and> (\<forall>d. ld (fst r) = Some d \<longrightarrow> reachable_dir D read ds0 rs0 d)"
    and "acc = (\<Union>d \<in> Pd. dir_hashes d)"
    and "\<And>d r. d \<in> Pd \<Longrightarrow> r \<in> set (child_refs d) \<Longrightarrow> fst r \<in> visited"
    and "\<And>h d. h \<in> visited \<Longrightarrow> ld h = Some d \<Longrightarrow> d \<in> Pd \<union> set ds"
    and "ds \<noteq> [] \<or> q = []"
  shows "\<exists>Pd'. Pd \<union> set ds \<subseteq> Pd' \<and> (\<forall>d \<in> Pd'. reachable_dir D read ds0 rs0 d)
    \<and> traverse D read ds q visited acc = (\<Union>d \<in> Pd'. dir_hashes d)
    \<and> (\<forall>d \<in> Pd'. \<forall>r \<in> set (child_refs d). \<forall>d'. ld (fst r) = Some d' \<longrightarrow> d' \<in> Pd')
    \<and> (\<forall>r \<in> set q. \<forall>d'. ld (fst r) = Some d' \<longrightarrow> d' \<in> Pd')"
  using assms
proof (induction D read ds q visited acc arbitrary: Pd rule: traverse.induct)
  case (1 D read q visited acc)
  then show ?case by (intro exI[of _ Pd]) force
next
  case (2 D read dir ds q visited acc)
  note agree = "2.prems"(1)
  have reach: "reachable_dir D read ds0 rs0 dir" using "2.prems"(2) by simp
  let ?q = "q @ child_refs dir"
  obtain visited' ds' where dr: "drain_hash_queue D read ?q visited ds = (visited', ds')" by fastforce
  have q: "load_dir D read r = ld (fst r) \<and> (\<forall>d. ld (fst r) = Some d \<longrightarrow> reachable_dir D read ds0 rs0 d)"
    if "r \<in> set ?q" for r
    using that "2.prems"(3)[of r] agree reach by (auto simp: keys_agree_def intro: reachable_dir.child)
  then have q': "\<forall>r \<in> set ?q. load_dir D read r = ld (fst r)" by blast
  note ds = drain_set[OF q' dr]
  have v: "visited' = visited \<union> fst ` set ?q" using ds by blast
  have new: "d \<in> set ds'" if "h \<in> fst ` set ?q - visited" "ld h = Some d" for h d using ds that by blast
  have "\<exists>Pd'. insert dir Pd \<union> set ds' \<subseteq> Pd' \<and> (\<forall>d \<in> Pd'. reachable_dir D read ds0 rs0 d)
    \<and> traverse D read ds' [] visited' (collect_hashes_from_dir dir acc) = (\<Union>d \<in> Pd'. dir_hashes d)
    \<and> (\<forall>d \<in> Pd'. \<forall>r \<in> set (child_refs d). \<forall>d'. ld (fst r) = Some d' \<longrightarrow> d' \<in> Pd')
    \<and> (\<forall>r \<in> set ([] :: (hash \<times> bytes32 option) list). \<forall>d'. ld (fst r) = Some d' \<longrightarrow> d' \<in> Pd')"
  proof (rule "2.IH"[OF refl refl refl, of "insert dir Pd", unfolded dr fst_conv snd_conv, OF agree], goal_cases)
    case (1 d)
    have "reachable_dir D read ds0 rs0 x" if "x \<in> set ds'" for x
    proof -
      from that ds consider "x \<in> set ds" | r where "r \<in> set ?q" "ld (fst r) = Some x" by blast
      then show ?thesis using "2.prems"(2)[of x] q by cases auto
    qed
    with 1 show ?case using reach "2.prems"(2)[of d] by auto
  next
    case (3)
    then show ?case using "2.prems"(4) by (auto simp: collect_hashes_from_dir_set)
  next
    case (4 d r)
    then show ?case using "2.prems"(5)[of d r] v by auto
  next
    case (5 h d)
    then show ?case using "2.prems"(6)[of h d] new[of h d] v ds by auto
  qed simp_all
  then obtain Pd' where Pd': "insert dir Pd \<union> set ds' \<subseteq> Pd'" "\<forall>d \<in> Pd'. reachable_dir D read ds0 rs0 d"
    "traverse D read ds' [] visited' (collect_hashes_from_dir dir acc) = (\<Union>d \<in> Pd'. dir_hashes d)"
    "\<forall>d \<in> Pd'. \<forall>r \<in> set (child_refs d). \<forall>d'. ld (fst r) = Some d' \<longrightarrow> d' \<in> Pd'" by blast
  have "d' \<in> Pd'" if "r \<in> set q" "ld (fst r) = Some d'" for r d'
    using that new[of "fst r" d'] "2.prems"(6)[of "fst r" d'] Pd'(1) ds by auto
  moreover have "traverse D read (dir # ds) q visited acc = (\<Union>d \<in> Pd'. dir_hashes d)"
    using Pd'(3) dr by (simp add: Let_def)
  moreover have "Pd \<union> set (dir # ds) \<subseteq> Pd'" using Pd'(1) ds by auto
  ultimately show ?case using Pd'(2,4) by blast
qed

lemma traverse_reachable:
  assumes "keys_agree D read ds0 rs0 ld" "ds0 \<noteq> []"
  shows "traverse D read ds0 rs0 {} {} = (\<Union>d \<in> {d. reachable_dir D read ds0 rs0 d}. dir_hashes d)"
proof -
  have "\<exists>Pd'. {} \<union> set ds0 \<subseteq> Pd' \<and> (\<forall>d \<in> Pd'. reachable_dir D read ds0 rs0 d)
    \<and> traverse D read ds0 rs0 {} {} = (\<Union>d \<in> Pd'. dir_hashes d)
    \<and> (\<forall>d \<in> Pd'. \<forall>r \<in> set (child_refs d). \<forall>d'. ld (fst r) = Some d' \<longrightarrow> d' \<in> Pd')
    \<and> (\<forall>r \<in> set rs0. \<forall>d'. ld (fst r) = Some d' \<longrightarrow> d' \<in> Pd')"
    by (rule traverse_covers[OF assms(1)])
       (use assms in \<open>auto simp: keys_agree_def intro: reachable_dir.intros\<close>)
  then obtain Pd where Pd: "set ds0 \<subseteq> Pd" "\<forall>d \<in> Pd. reachable_dir D read ds0 rs0 d"
    "traverse D read ds0 rs0 {} {} = (\<Union>d \<in> Pd. dir_hashes d)"
    and closed: "\<forall>d \<in> Pd. \<forall>r \<in> set (child_refs d). \<forall>d'. ld (fst r) = Some d' \<longrightarrow> d' \<in> Pd"
      "\<forall>r \<in> set rs0. \<forall>d'. ld (fst r) = Some d' \<longrightarrow> d' \<in> Pd" by auto
  have "d \<in> Pd" if "reachable_dir D read ds0 rs0 d" for d
    using that
  proof induction
    case (child d r d')
    then show ?case using closed(1) assms(1) by (fastforce simp: keys_agree_def)
  qed (use Pd(1) closed(2) assms(1) in \<open>fastforce simp: keys_agree_def\<close>)+
  with Pd(2,3) show ?thesis by auto
qed

section \<open>What is deleted\<close>

definition garbage :: "(hash \<Rightarrow> pin_context set) \<Rightarrow> hash set \<Rightarrow> hash \<Rightarrow> bool" where
  "garbage pinned reachable h \<longleftrightarrow> pinned h = {} \<and> h \<notin> reachable"

definition gc_account ::
  "(hash \<Rightarrow> pin_context set) \<Rightarrow> hash set \<Rightarrow> bool \<Rightarrow> hash list \<Rightarrow> gc_report \<Rightarrow> gc_report \<Rightarrow> bool" where
  "gc_account pinned reachable dry_run hs rep rep' \<longleftrightarrow>
    gr_total rep' = gr_total rep + length hs
    \<and> gr_kept_by_pins rep' = gr_kept_by_pins rep + length [h \<leftarrow> hs. pinned h \<noteq> {}]
    \<and> gr_kept_by_reachability rep' =
        gr_kept_by_reachability rep + length [h \<leftarrow> hs. pinned h = {} \<and> h \<in> reachable]
    \<and> gr_candidates rep' = gr_candidates rep @ [h \<leftarrow> hs. garbage pinned reachable h]
    \<and> gr_deleted rep' + length (gr_delete_errors rep') =
        gr_deleted rep + length (gr_delete_errors rep)
        + (if dry_run then 0 else length [h \<leftarrow> hs. garbage pinned reachable h])
    \<and> set (gr_delete_errors rep) \<subseteq> set (gr_delete_errors rep')"

lemma gc_account_Nil [simp]: "gc_account pd R dry [] rep rep"
  by (simp add: gc_account_def)

lemma gc_account_Cons:
  "gc_account pd R dry [h] rep rep1 \<Longrightarrow> gc_account pd R dry hs rep1 rep' \<Longrightarrow> gc_account pd R dry (h # hs) rep rep'"
  by (auto simp: gc_account_def)

text \<open>One round of the loop: the blob is kept, or it is garbage and a deletion was tried.\<close>

lemma gc_loop_step:
  assumes "gc_loop H bs R P dry (h # hs) rep w = (r, w')" "pn_get_pinners P h w = Inr (pd h)"
  obtains (keep) rep1 where "\<not> garbage pd R h \<or> dry"
      "gc_loop H bs R P dry hs rep1 w = (r, w')" "gc_account pd R dry [h] rep rep1"
    | (del) rep1 r1 w1 where "garbage pd R h" "\<not> dry" "BlobStore_delete H bs h w = (r1, w1)"
      "gc_loop H bs R P dry hs rep1 w1 = (r, w')" "gc_account pd R dry [h] rep rep1"
      "is_ok r1 \<or> h \<in> fst ` set (gr_delete_errors rep1)"
proof -
  let ?rep = "rep\<lparr>gr_total := gr_total rep + 1\<rparr>"
  let ?cand = "?rep\<lparr>gr_candidates := gr_candidates ?rep @ [h]\<rparr>"
  note step = assms(1)[simplified act_bind_def act_read_def gc_loop.simps Let_def assms(2), simplified]
  show ?thesis
  proof (cases "garbage pd R h")
    case False
    then show ?thesis using step keep by (auto simp: garbage_def gc_account_def split: if_splits)
  next
    case g: True
    then have e: "pd h = {}" "h \<notin> R" by (auto simp: garbage_def)
    show ?thesis
    proof (cases dry)
      case True
      then show ?thesis using step keep[of ?cand] g e by (simp add: gc_account_def)
    next
      case False
      obtain r1 w1 where d: "BlobStore_delete H bs h w = (r1, w1)" by fastforce
      show ?thesis
      proof (cases r1)
        case (Inl x)
        then show ?thesis
          using step d g e False del[of r1 w1 "?cand\<lparr>gr_delete_errors := gr_delete_errors ?cand @ [(h, x)]\<rparr>"]
          by (simp add: gc_account_def image_Un subset_insertI)
      next
        case (Inr x)
        then show ?thesis
          using step d g e False del[of r1 w1 "?cand\<lparr>gr_deleted := gr_deleted ?cand + 1\<rparr>"]
          by (simp add: gc_account_def)
      qed
    qed
  qed
qed

context node_world
begin

definition gc_effect :: "hashing \<Rightarrow> hash set \<Rightarrow> bool \<Rightarrow> hash list \<Rightarrow> 'w \<Rightarrow> 'w \<Rightarrow> bool" where
  "gc_effect H R dry hs w w' \<longleftrightarrow> sinv w' \<and> pinv w' \<and> pinned w' = pinned w
    \<and> (\<forall>h. blob_at H ops contents w' h = blob_at H ops contents w h
          \<or> \<not> dry \<and> h \<in> set hs \<and> garbage (pinned w) R h \<and> blob_at H ops contents w' h = None)
    \<and> (dry \<longrightarrow> w' = w)"

lemma gc_loop_outcome:
  assumes good: "\<And>h. good (blob_path_for_hash (h_codec H) h (st_features ops))"
    "\<And>h. good (obao6_path_for_hash (h_codec H) h (st_features ops))"
    and pc: "path_codec_ok (h_codec H)" and ob: "ob = None \<or> ob = Some ops"
    and "sinv w" "pinv w"
    and "gc_loop H \<lparr>bs_store = ops, bs_outboard_store = ob\<rparr> R P dry hs rep w = (r, w')"
  shows "gc_effect H R dry hs w w'
    \<and> (\<forall>rep'. r = Inr rep' \<longrightarrow> gc_account (pinned w) R dry hs rep rep'
        \<and> (\<not> dry \<longrightarrow> (\<forall>h \<in> set hs. garbage (pinned w) R h \<longrightarrow> h \<notin> fst ` set (gr_delete_errors rep')
              \<longrightarrow> blob_at H ops contents w' h = None)))"
  using assms(5-)
proof (induction hs arbitrary: rep w)
  case Nil
  then show ?case by (auto simp: gc_effect_def)
next
  case (Cons h hs)
  show ?case
  proof (cases "pn_get_pinners P h w")
    case (Inl e)
    with Cons.prems show ?thesis by (auto simp: act_bind_def Let_def gc_effect_def)
  next
    case (Inr s)
    have "s = pinned w h" by (rule get_pinners_law[OF Cons.prems(2) Inr])
    with Inr have p: "pn_get_pinners P h w = Inr (pinned w h)" by simp
    from Cons.prems(3) p show ?thesis
    proof (cases rule: gc_loop_step)
      case (keep rep1)
      note IH = Cons.IH[OF Cons.prems(1,2) keep(2)]
      show ?thesis
        using IH keep(1) gc_account_Cons[OF keep(3)] by (fastforce simp: gc_effect_def)
    next
      case (del rep1 r1 w1)
      note d = BlobStore_delete_outcome[OF good pc Cons.prems(1) ob del(3)] and fr = delete_frame[OF del(3) ob]
      then have i: "sinv w1" "pinv w1" "pinned w1 = pinned w" using Cons.prems by auto
      note IH = Cons.IH[OF i(1,2) del(4), unfolded i(3)]
      have acc: "gc_account (pinned w) R dry (h # hs) rep rep' \<and> set (gr_delete_errors rep1) \<subseteq> set (gr_delete_errors rep')"
        if "r = Inr rep'" for rep'
        using IH that gc_account_Cons[OF del(5), of hs rep'] by (auto simp: gc_account_def)
      have gone: "blob_at H ops contents w' h = None" if "is_ok r1"
      proof -
        have "blob_at H ops contents w' h = blob_at H ops contents w1 h \<or> blob_at H ops contents w' h = None"
          using IH unfolding gc_effect_def by metis
        then show ?thesis using d that by metis
      qed
      have eff: "blob_at H ops contents w' x = blob_at H ops contents w x
          \<or> \<not> dry \<and> x \<in> set (h # hs) \<and> garbage (pinned w) R x \<and> blob_at H ops contents w' x = None" for x
      proof (cases "x = h")
        case True
        have "blob_at H ops contents w' h = blob_at H ops contents w1 h \<or> blob_at H ops contents w' h = None"
          using IH unfolding gc_effect_def by metis
        with True del(1,2) d show ?thesis by (metis list.set_intros(1))
      next
        case False
        then have "blob_at H ops contents w1 x = blob_at H ops contents w x" using d by blast
        with IH i(3) show ?thesis unfolding gc_effect_def by (metis list.set_intros(2))
      qed
      have fin: "blob_at H ops contents w' x = None"
        if "r = Inr rep'" "x \<in> set (h # hs)" "garbage (pinned w) R x" "x \<notin> fst ` set (gr_delete_errors rep')" for rep' x
      proof (cases "x \<in> set hs")
        case False
        then have "is_ok r1" using that del(6) acc[OF that(1)] by auto
        with gone False that(2) show ?thesis by simp
      qed (use IH that del(2) in blast)
      have "gc_effect H R dry (h # hs) w w'"
        unfolding gc_effect_def using eff IH i(3) del(2) by (simp add: gc_effect_def)
      with acc fin show ?thesis by blast
    qed
  qed
qed

end

section \<open>Properties\<close>

text \<open>A store that lists every object it holds.\<close>

locale listing_store = store_contract +
  assumes list_law: "inv w \<Longrightarrow> st_list ops w = Inr stream \<Longrightarrow> good p \<Longrightarrow> contents w p \<noteq> None \<Longrightarrow> Inr p \<in> set stream"
begin

lemma blobs_listed:
  assumes "path_codec_ok (h_codec H)" "inv w" "good (blob_path_for_hash (h_codec H) h (st_features ops))"
    and "BlobStore_list_hashes H \<lparr>bs_store = ops, bs_outboard_store = ob\<rparr> w = Inr hs" "blob_at H ops contents w h \<noteq> None"
  shows "h \<in> set hs"
proof -
  let ?p = "blob_path_for_hash (h_codec H) h (st_features ops)"
  obtain stream where l: "st_list ops w = Inr stream" "list_hashes_loop H (st_features ops) stream [] = Inr hs"
    using assms(4) by (auto simp: BlobStore_list_hashes_def split: sum.splits)
  have "Inr ?p \<in> set stream" using list_law[OF assms(2) l(1) assms(3)] assms(5) by (simp add: blob_at_def)
  then show ?thesis
    using list_hashes_loop_Inr[OF l(2)] hash_from_blob_path_inverse[OF assms(1), of h "st_features ops"]
    by (force split: sum.splits)
qed

end

interpretation memory_listing: listing_store "store_on_fst MemoryStore" "\<lambda>w. bt_get (fst w)" "\<lambda>w. True" "\<lambda>_. True"
proof (intro listing_store.intro listing_store_axioms.intro)
  show "store_contract (store_on_fst MemoryStore) (\<lambda>w. bt_get (fst w)) (\<lambda>w. True) (\<lambda>_. True)"
    by (rule memory_store.on_fst_contract)
qed (auto simp: store_on_fst_def memory_store_defs bt_keys_iff)

text \<open>C5. Garbage collection never deletes a blob that has a pin or is reachable, never touches the pins, and changes nothing in a dry
  run, whatever fails on the way. The store lists everything it holds. A run that returns a report without delete errors, and is not a dry
  run, leaves exactly the stored blobs that are pinned or reachable. The counters of a report add up to the blobs listed, its candidates are
  exactly the listed blobs without pin and reachability, and every candidate without a reported delete error is gone. Stated for every
  store and pinner that keep their contracts and leave each other alone.\<close>

theorem gc_store_safe:
  assumes nw: "node_world ops contents sinv good P pinned pinv room" and ls: "listing_store ops contents sinv good"
    and good: "\<And>h. good (blob_path_for_hash (h_codec H) h (st_features ops))"
      "\<And>h. good (obao6_path_for_hash (h_codec H) h (st_features ops))"
    and pc: "path_codec_ok (h_codec H)" and ob: "ob = None \<or> ob = Some ops" and w: "sinv w" "pinv w"
    and step: "gc_store H \<lparr>bs_store = ops, bs_outboard_store = ob\<rparr> reachable P dry_run w = (r, w')"
  shows "pinned w' = pinned w \<and> (dry_run \<longrightarrow> w' = w)
    \<and> (\<forall>h. pinned w h \<noteq> {} \<or> h \<in> reachable \<longrightarrow> blob_at H ops contents w' h = blob_at H ops contents w h)
    \<and> (\<forall>report. r = Inr report \<longrightarrow> \<not> dry_run \<longrightarrow> gr_delete_errors report = [] \<longrightarrow>
        (\<forall>h. blob_at H ops contents w' h = (if pinned w h = {} \<and> h \<notin> reachable then None else blob_at H ops contents w h)))
    \<and> (\<forall>report. r = Inr report \<longrightarrow> (\<exists>hs.
        BlobStore_list_hashes H \<lparr>bs_store = ops, bs_outboard_store = ob\<rparr> w = Inr hs
        \<and> gc_account (pinned w) reachable dry_run hs GcReport_default report
        \<and> (\<not> dry_run \<longrightarrow> (\<forall>h \<in> set (gr_candidates report).
             h \<notin> fst ` set (gr_delete_errors report) \<longrightarrow> blob_at H ops contents w' h = None))))"
proof (cases "BlobStore_list_hashes H \<lparr>bs_store = ops, bs_outboard_store = ob\<rparr> w")
  case (Inl e)
  with step show ?thesis by (auto simp: gc_store_def act_bind_def)
next
  case (Inr hs)
  with step have "gc_loop H \<lparr>bs_store = ops, bs_outboard_store = ob\<rparr> reachable P dry_run hs GcReport_default w = (r, w')"
    by (simp add: gc_store_def act_bind_def)
  note out = node_world.gc_loop_outcome[OF nw good pc ob w this, unfolded node_world.gc_effect_def[OF nw]]
  have keep: "blob_at H ops contents w' h = blob_at H ops contents w h" if "pinned w h \<noteq> {} \<or> h \<in> reachable" for h
    using out that unfolding garbage_def by metis
  have gone: "blob_at H ops contents w' h = None"
    if "r = Inr report" "\<not> dry_run" "h \<in> set (gr_candidates report)" "h \<notin> fst ` set (gr_delete_errors report)" for h report
  proof -
    have "h \<in> set hs \<and> garbage (pinned w) reachable h"
      using out that(1,3) by (auto simp: gc_account_def GcReport_default_def)
    then show ?thesis using conjunct2[OF out] that by blast
  qed
  have exact: "blob_at H ops contents w' h = (if pinned w h = {} \<and> h \<notin> reachable then None else blob_at H ops contents w h)"
    if "r = Inr report" "\<not> dry_run" "gr_delete_errors report = []" for h report
  proof (cases "pinned w h = {} \<and> h \<notin> reachable \<and> blob_at H ops contents w h \<noteq> None")
    case True
    then have "h \<in> set hs" using listing_store.blobs_listed[OF ls pc w(1) good(1) Inr] by blast
    then show ?thesis using True conjunct2[OF out] that by (auto simp: garbage_def)
  next
    case False
    have "blob_at H ops contents w' h = blob_at H ops contents w h \<or> blob_at H ops contents w' h = None" using out by metis
    then show ?thesis using False keep[of h] by auto
  qed
  show ?thesis using keep gone exact out Inr by simp
qed

definition demo_gc_world :: "memory_store \<times> memory_registry" where
  "demo_gc_world =
    (bt_insert (blob_path_for_hash demo_codec (fill32 1) MemoryStore_features) [1] MemoryStore_new, MemoryRegistry_new)"

theorem gc_store_safe_witness:
  "blob_at demo_hashing (store_on_fst MemoryStore) (\<lambda>w. bt_get (fst w))
     (snd (gc_store demo_hashing (BlobStore_new (store_on_fst MemoryStore)) {fill32 1}
       (pins_on_snd (RegistryPinner demo_pin_codec MemoryRegistry)) False demo_gc_world)) (fill32 1) = Some [1]"
proof -
  have "pins_ok demo_pin_codec (bt_get (snd demo_gc_world))"
    by (simp add: pins_ok_def demo_gc_world_def MemoryRegistry_new_def)
  moreover have "blob_at demo_hashing (store_on_fst MemoryStore) (\<lambda>w. bt_get (fst w)) demo_gc_world (fill32 1) = Some [1]"
    by (simp add: blob_at_def demo_gc_world_def store_on_fst_def MemoryStore_def demo_hashing_def)
  ultimately show ?thesis
    using gc_store_safe[OF memory_node.node_world_axioms memory_listing.listing_store_axioms _ _ demo_hashing_ok(1) disjI2[OF refl] _ _
        prod.collapse[symmetric], of demo_pin_codec demo_gc_world "{fill32 1}" False]
    by (simp add: demo_pin_codec_ok BlobStore_new_def)
qed

text \<open>The directories and references the collection starts from.\<close>

definition snapshot_refs :: "dir_codec \<Rightarrow> bytes option \<Rightarrow> bytes32 option \<Rightarrow> (hash \<times> bytes32 option) list" where
  "snapshot_refs D snapshots_file root_key =
    (case snapshots_file of
       None \<Rightarrow> []
     | Some bs \<Rightarrow>
        (case DirV1_from_bytes D bs of
           Inl _ \<Rightarrow> [] | Inr d \<Rightarrow> map (\<lambda>r. (dr_hash r, root_key)) (bt_vals (dv_dirs d))))"

text \<open>C15. Reachability is exact when the root can be read. With a root file that decrypts and parses, the collected set is precisely the
  content of every live version of every file in every directory that can be loaded by following subdirectory and shard references from the
  root and from the snapshots, however deep, and whether or not references form cycles, provided that references to one directory blob carry
  one key. A root that cannot be decrypted or parsed aborts the collection. A root file that cannot be read gives the empty set, whatever the
  snapshots refer to.\<close>

theorem collect_is_reachability:
  assumes "keys_agree D read [root] (snapshot_refs D snapshots_file root_key) ld"
    and "res_bind (decrypt_dir_bytes D bs root_key) (DirV1_from_bytes D) = Inr root"
  shows "collect_fs_reachable_hashes D read (Some bs) snapshots_file root_key =
    Inr {fr_hash v | v f d. reachable_dir D read [root] (snapshot_refs D snapshots_file root_key) d
           \<and> f \<in> set (bt_vals (dv_files d)) \<and> v \<in> live_versions f}
    \<and> (\<not> is_ok (res_bind (decrypt_dir_bytes D bs' root_key) (DirV1_from_bytes D)) \<longrightarrow>
        \<not> is_ok (collect_fs_reachable_hashes D read (Some bs') snapshots_file root_key))
    \<and> collect_fs_reachable_hashes D read None snapshots_file root_key = Inr {}"
proof -
  have "(\<Union>d \<in> {d. reachable_dir D read [root] rs d}. dir_hashes d) =
    {fr_hash v | v f d. reachable_dir D read [root] rs d \<and> f \<in> set (bt_vals (dv_files d)) \<and> v \<in> live_versions f}" for rs
    by (auto simp: dir_hashes_def)
  moreover have "collect_fs_reachable_hashes D read (Some bs) snapshots_file root_key =
      Inr (traverse D read [root] (snapshot_refs D snapshots_file root_key) {} {})"
    using assms(2) by (auto simp: collect_fs_reachable_hashes_def snapshot_refs_def res_bind_def
        simp del: traverse.simps split: sum.splits option.splits)
  ultimately show ?thesis
    using traverse_reachable[OF assms(1)]
    by (auto simp: collect_fs_reachable_hashes_def res_bind_def is_ok_iff split: sum.splits)
qed

definition demo_snapshot :: dir_v1 where
  "demo_snapshot = DirV1_new\<lparr>dv_files := bt_insert ''a'' (FileRef_new (fill32 7) 3) bt_empty\<rparr>"

definition demo_snapshots_file :: dir_v1 where
  "demo_snapshots_file = DirV1_new\<lparr>dv_dirs := bt_insert ''snap1'' (DirRef_from_hash (fill32 9)) bt_empty\<rparr>"

definition demo_meta :: "hash \<Rightarrow> error + bytes" where
  "demo_meta h = (if h = fill32 9 then Inr (DirV1_to_bytes demo_dir_codec demo_snapshot) else Inl (Io NotFound ''''))"

lemma demo_dir_bytes [simp]: "DirV1_from_bytes demo_dir_codec (DirV1_to_bytes demo_dir_codec d) = Inr d"
  using demo_dir_codec_ok by (simp add: DirV1_from_bytes_def DirV1_to_bytes_def dir_codec_ok_def)

lemma demo_snapshot_refs:
  "snapshot_refs demo_dir_codec (Some (DirV1_to_bytes demo_dir_codec demo_snapshots_file)) None = [(fill32 9, None)]"
  by (simp add: snapshot_refs_def demo_snapshots_file_def DirRef_from_hash_def bt_vals_def DirV1_new_def)

lemma demo_load: "load_dir demo_dir_codec demo_meta (fill32 9, None) = Some demo_snapshot"
  by (simp add: load_dir_def demo_meta_def decrypt_dir_bytes_def)

lemma demo_reachable:
  "reachable_dir demo_dir_codec demo_meta [DirV1_new] [(fill32 9, None)] d \<Longrightarrow> child_refs d = []"
proof (induction rule: reachable_dir.induct)
  case (snapshot r d)
  then show ?case by (auto simp: demo_load demo_snapshot_def child_refs_def DirV1_new_def DirHeader_new_def bt_vals_def)
qed (simp_all add: child_refs_def DirV1_new_def DirHeader_new_def bt_vals_def)

theorem collect_is_reachability_witness:
  "\<exists>hs. collect_fs_reachable_hashes demo_dir_codec demo_meta (Some (DirV1_to_bytes demo_dir_codec DirV1_new))
      (Some (DirV1_to_bytes demo_dir_codec demo_snapshots_file)) None = Inr hs \<and> fill32 7 \<in> hs"
proof -
  let ?rs = "[(fill32 9, None :: bytes32 option)]"
  have ka: "keys_agree demo_dir_codec demo_meta [DirV1_new]
      (snapshot_refs demo_dir_codec (Some (DirV1_to_bytes demo_dir_codec demo_snapshots_file)) None) (\<lambda>_. Some demo_snapshot)"
    by (auto simp: keys_agree_def demo_load demo_snapshot_refs dest: demo_reachable)
  have r: "reachable_dir demo_dir_codec demo_meta [DirV1_new] ?rs demo_snapshot"
    by (rule reachable_dir.snapshot[OF _ demo_load]) simp
  have "res_bind (decrypt_dir_bytes demo_dir_codec (DirV1_to_bytes demo_dir_codec DirV1_new) None)
      (DirV1_from_bytes demo_dir_codec) = Inr DirV1_new"
    by (simp add: decrypt_dir_bytes_def)
  note collect = collect_is_reachability[OF ka this, THEN conjunct1, unfolded demo_snapshot_refs]
  have f: "FileRef_new (fill32 7) 3 \<in> set (bt_vals (dv_files demo_snapshot))" by (simp add: demo_snapshot_def bt_vals_def)
  have v: "FileRef_new (fill32 7) 3 \<in> live_versions (FileRef_new (fill32 7) 3)"
    by (simp add: live_versions_def FileRef_is_tombstone_def FileRef_ref_type_def FileRef_new_def)
  have h: "fr_hash (FileRef_new (fill32 7) 3) = fill32 7" by (simp add: FileRef_new_def)
  show ?thesis using collect r f v h by (metis (mono_tags, lifting) mem_Collect_eq)
qed

text \<open>When the root file is absent the snapshots are never walked: there is a file system whose snapshot
  content is collected while the root file is there and is not when it is missing, so that the collection lets
  content be deleted that a snapshot still refers to.\<close>

theorem missing_root_ignores_snapshots:
  "\<exists>D read root snapshots h. dir_codec_ok D
    \<and> res_bind (collect_fs_reachable_hashes D read (Some root) snapshots None) (\<lambda>s. Inr (h \<in> s)) = (Inr True :: error + bool)
    \<and> collect_fs_reachable_hashes D read None snapshots None = Inr {}"
proof -
  have "fill32 7 \<in> traverse demo_dir_codec demo_meta [DirV1_new] [(fill32 9, None)] {} {}"
    by (simp add: Let_def child_refs_def DirV1_new_def DirHeader_new_def demo_load demo_snapshot_def
        collect_hashes_from_dir_set dir_hashes_def live_versions_def FileRef_is_tombstone_def
        FileRef_ref_type_def FileRef_new_def bt_vals_def)
  then have "res_bind (collect_fs_reachable_hashes demo_dir_codec demo_meta (Some (DirV1_to_bytes demo_dir_codec DirV1_new))
      (Some (DirV1_to_bytes demo_dir_codec demo_snapshots_file)) None) (\<lambda>s. Inr (fill32 7 \<in> s)) = (Inr True :: error + bool)"
    using demo_snapshot_refs
    by (simp add: collect_fs_reachable_hashes_def snapshot_refs_def decrypt_dir_bytes_def)
  then show ?thesis
    using demo_dir_codec_ok by (force simp: collect_fs_reachable_hashes_def)
qed

end
