(* ===== verification/Dir_Actor.thy ===== *)
theory Dir_Actor
  imports Node_World Dir_Codec
begin

text \<open>
  The state of a directory actor and the world it acts in: \<^verbatim>\<open>s5_fs/src/context.rs\<close> and the types of
  \<^verbatim>\<open>s5_fs/src/actor.rs\<close>.

  A handler of an actor is an action over the actor's own state and the world of everybody else. What the
  actor uses of that world is the table \<open>fs_env\<close>: the meta blob store, the registry, the pins, the files of
  a local root, the other actors (a request with its answer, or a message without one), and the sources of
  time and randomness.
\<close>

section \<open>Contexts\<close>

type_synonym actor_id = nat
type_synonym signing_key = bytes32

datatype dir_handle_path = HandlePath string | HandleShard u8

datatype dir_context_parent_link =
    LinkRegistryKey stream_key "signing_key option"
  | LinkLocalFile string
  | LinkDirHandle dir_handle_path actor_id bytes32 u8

record dir_context =
  cx_link :: dir_context_parent_link
  cx_encryption_type :: "u8 option"
  cx_keys :: "(u8, bytes32) btree"
  cx_signing_key :: "signing_key option"

definition DirContext_new :: "dir_context_parent_link \<Rightarrow> dir_context" where
  "DirContext_new link = \<lparr>cx_link = link, cx_encryption_type = None, cx_keys = bt_empty, cx_signing_key = None\<rparr>"

definition DirContext_new_encrypted_registry :: "stream_key \<Rightarrow> signing_key \<Rightarrow> bytes32 \<Rightarrow> dir_context" where
  "DirContext_new_encrypted_registry stream_key sk encryption_key =
    (let ctx = DirContext_new (LinkRegistryKey stream_key (Some sk))
     in ctx\<lparr>cx_encryption_type := Some ENCRYPTION_TYPE_XCHACHA20_POLY1305,
            cx_keys := bt_insert 0x0e encryption_key (cx_keys ctx), cx_signing_key := Some sk\<rparr>)"

definition DirContext_with_new_ref :: "dir_context \<Rightarrow> dir_ref \<Rightarrow> dir_context_parent_link \<Rightarrow> dir_context" where
  "DirContext_with_new_ref self dir_ref link =
    (let inherited_signing_key = (case link of LinkRegistryKey _ sk \<Rightarrow> sk | _ \<Rightarrow> cx_signing_key self);
         new_context = \<lparr>cx_link = link,
           cx_encryption_type = (case dr_encryption_type dir_ref of Some t \<Rightarrow> Some t | None \<Rightarrow> cx_encryption_type self),
           cx_keys = cx_keys self, cx_signing_key = inherited_signing_key\<rparr>
     in case dr_keys dir_ref of
          Some dir_keys \<Rightarrow> new_context\<lparr>cx_keys := bt_extend (bt_entries dir_keys) (cx_keys new_context)\<rparr>
        | None \<Rightarrow> new_context)"

section \<open>Messages\<close>

datatype cursor_kind = CursorFile | CursorDirectory

text \<open>A \<^verbatim>\<open>Task\<close> replaces the value at a path and computes a result from it.\<close>

type_synonym file_task = "file_ref option \<Rightarrow> file_ref option \<times> file_ref option"

datatype actor_message_op =
    FileOp file_task
  | CreateDir bool

datatype actor_message =
    PathOp string actor_message_op
  | UpdateDirRefHash dir_handle_path hash
  | SaveIfDirty
  | OpenSubdir string
  | ExportSnapshotHash
  | CreateSnapshot
  | DeleteSnapshot string
  | ListMsg "string option" nat
  | ListAt string "string option" nat
  | ExportSnapshot
  | ExportMergedSnapshot
  | ExportSnapshotAt string
  | ExportMergedSnapshotAt string
  | MergeSnapshot dir_v1
  | SetAutosave u64
  | AutosaveTick
  | MarkAsDirty
  | Shutdown

type_synonym list_result = "(string \<times> cursor_kind) list \<times> string option"

text \<open>What is sent through the one-shot responder of a message; \<open>Dropped\<close> when it is dropped unused.\<close>

datatype actor_answer =
    AnsHashOpt "error + hash option"
  | AnsHandle "error + actor_id"
  | AnsHash "error + hash"
  | AnsSnapshot "error + string \<times> hash"
  | AnsDone "error + unit"
  | AnsList "error + list_result"
  | AnsDir "error + dir_v1"
  | AnsValue "file_ref option"
  | AnsEmpty
  | Dropped

section \<open>The world of an actor\<close>

text \<open>One draw from the clock and the random number generator.\<close>

record fresh =
  fx_uuid :: string
  fx_key :: bytes32
  fx_nonce :: bytes
  fx_pointer :: bytes32
  fx_seconds :: u32
  fx_nanos :: u32
  fx_rfc3339 :: string

record 'w fs_env =
  fe_hash :: hashing
  fe_codec :: dir_codec
  fe_blobs :: "'w blob_store"
  fe_registry :: "'w registry"
  fe_pins :: "'w pins option"
  fe_fresh :: "'w \<Rightarrow> fresh \<times> 'w"
  fe_xxh3 :: "string \<Rightarrow> u64"
  fe_sign :: "signing_key \<Rightarrow> bytes \<Rightarrow> bytes"
  fe_encode_cursor :: "string \<times> cursor_kind \<Rightarrow> string"
  fe_decode_cursor :: "string \<Rightarrow> (string \<times> cursor_kind) option"
  fe_read_file :: "string \<Rightarrow> 'w \<Rightarrow> error + bytes"
  fe_persist_file :: "string \<Rightarrow> bytes \<Rightarrow> ('w, unit) action"
  fe_ask :: "actor_id \<Rightarrow> actor_message \<Rightarrow> ('w, actor_answer) action"
  fe_tell :: "actor_id \<Rightarrow> actor_message \<Rightarrow> ('w, unit) action"
  fe_upgrade :: "actor_id \<Rightarrow> 'w \<Rightarrow> bool"
  fe_spawn :: "dir_context \<Rightarrow> dir_v1 option \<Rightarrow> u64 option \<Rightarrow> ('w, actor_id) action"
  fe_autosave_tick_after :: "u64 \<Rightarrow> actor_id \<Rightarrow> ('w, unit) action"
  fe_registry_dir :: "stream_key \<Rightarrow> 'w \<Rightarrow> actor_id option"
  fe_set_registry_dir :: "stream_key \<Rightarrow> actor_id \<Rightarrow> ('w, unit) action"

section \<open>The actor\<close>

record dir_actor =
  da_context :: dir_context
  da_handle :: "actor_id option"
  da_state :: dir_v1
  da_autosave_debounce_ms :: "u64 option"
  da_autosave_timer_active :: bool
  da_dirty :: bool
  da_initial_state :: "dir_v1 option"
  da_dir_handles :: "(string, actor_id) btree"
  da_dir_shard_handles :: "(u8, actor_id) btree"
  da_current_hash :: "hash option"
  da_last_serialized_len :: nat
  da_shard_size_check_ops :: u64

definition DirActor_new :: "dir_context \<Rightarrow> dir_v1 option \<Rightarrow> u64 option \<Rightarrow> dir_actor" where
  "DirActor_new context initial_state autosave_debounce_ms =
    \<lparr>da_context = context, da_handle = None, da_state = DirV1_new,
     da_autosave_debounce_ms = autosave_debounce_ms, da_autosave_timer_active = False, da_dirty = False,
     da_initial_state = initial_state, da_dir_handles = bt_empty, da_dir_shard_handles = bt_empty,
     da_current_hash = None, da_last_serialized_len = 0, da_shard_size_check_ops = 0\<rparr>"

type_synonym ('w, 'a) handler = "(dir_actor \<times> 'w, 'a) action"

definition self_get :: "(dir_actor \<Rightarrow> 'a) \<Rightarrow> ('w, 'a) handler" where
  "self_get f = (\<lambda>(a, w). (Inr (f a), (a, w)))"

definition self_set :: "(dir_actor \<Rightarrow> dir_actor) \<Rightarrow> ('w, unit) handler" where
  "self_set f = (\<lambda>(a, w). (Inr (), (f a, w)))"

text \<open>\<^verbatim>\<open>let _ = ...\<close>: the result of a fallible call is dropped.\<close>

definition act_ignore :: "('w, 'a) action \<Rightarrow> ('w, unit) action" where
  "act_ignore m w = (Inr (), snd (m w))"

definition act_fresh :: "'w fs_env \<Rightarrow> ('w, fresh) action" where
  "act_fresh E w = (case fe_fresh E w of (x, w') \<Rightarrow> (Inr x, w'))"

lemma self_get_eq [simp]: "self_get f (a, w) = (Inr (f a), (a, w))"
  by (simp add: self_get_def)

lemma self_set_eq [simp]: "self_set f (a, w) = (Inr (), (f a, w))"
  by (simp add: self_set_def)

lemma act_ignore_eq [simp]: "act_ignore m w = (Inr (), snd (m w))"
  by (simp add: act_ignore_def)

text \<open>The answer of the expected kind; anything else is a dropped responder.\<close>

definition channel_closed :: error where
  "channel_closed = Anyhow ''channel closed''"

definition ask_done :: "'w fs_env \<Rightarrow> actor_id \<Rightarrow> actor_message \<Rightarrow> ('w, unit) action" where
  "ask_done E h msg = act_bind (fe_ask E h msg) (\<lambda>a. case a of AnsDone r \<Rightarrow> act_lift r | _ \<Rightarrow> act_err channel_closed)"

definition ask_dir :: "'w fs_env \<Rightarrow> actor_id \<Rightarrow> actor_message \<Rightarrow> ('w, dir_v1) action" where
  "ask_dir E h msg = act_bind (fe_ask E h msg) (\<lambda>a. case a of AnsDir r \<Rightarrow> act_lift r | _ \<Rightarrow> act_err channel_closed)"

definition ask_list :: "'w fs_env \<Rightarrow> actor_id \<Rightarrow> actor_message \<Rightarrow> ('w, list_result) action" where
  "ask_list E h msg = act_bind (fe_ask E h msg) (\<lambda>a. case a of AnsList r \<Rightarrow> act_lift r | _ \<Rightarrow> act_err channel_closed)"

definition ask_handle :: "'w fs_env \<Rightarrow> actor_id \<Rightarrow> actor_message \<Rightarrow> ('w, actor_id) action" where
  "ask_handle E h msg = act_bind (fe_ask E h msg) (\<lambda>a. case a of AnsHandle r \<Rightarrow> act_lift r | _ \<Rightarrow> act_err channel_closed)"

definition ask_hash_opt :: "'w fs_env \<Rightarrow> actor_id \<Rightarrow> actor_message \<Rightarrow> ('w, hash option) action" where
  "ask_hash_opt E h msg = act_bind (fe_ask E h msg) (\<lambda>a. case a of AnsHashOpt r \<Rightarrow> act_lift r | _ \<Rightarrow> act_err channel_closed)"

text \<open>\<^verbatim>\<open>mark_as_dirty\<close>: the counter saturates; the parent is told on the first change after a save.\<close>

definition sat_add64 :: "u64 \<Rightarrow> u64 \<Rightarrow> u64" where
  "sat_add64 a b = (if unat a + unat b < 2 ^ 64 then a + b else - 1)"

definition mark_as_dirty :: "'w fs_env \<Rightarrow> ('w, unit) handler" where
  "mark_as_dirty E =
    act_bind (self_set (\<lambda>a. a\<lparr>da_shard_size_check_ops := sat_add64 (da_shard_size_check_ops a) 1\<rparr>)) (\<lambda>_.
    act_bind (self_get da_dirty) (\<lambda>dirty.
    if dirty then act_ok ()
    else
      act_bind (self_set (\<lambda>a. a\<lparr>da_dirty := True\<rparr>)) (\<lambda>_.
      act_bind (self_get (\<lambda>a. cx_link (da_context a))) (\<lambda>link.
      case link of
        LinkDirHandle _ parent _ _ \<Rightarrow>
          (\<lambda>(a, w). if fe_upgrade E parent w then act_ignore (on_snd (fe_tell E parent MarkAsDirty)) (a, w)
                    else (Inr (), (a, w)))
      | _ \<Rightarrow> act_ok ()))))"

text \<open>Marking dirty always succeeds and touches only the flag and the counter of the actor itself.\<close>

lemma mark_as_dirty_effect:
  "\<exists>w'. mark_as_dirty E (a, w) =
    (Inr (), (a\<lparr>da_shard_size_check_ops := sat_add64 (da_shard_size_check_ops a) 1, da_dirty := True\<rparr>, w'))
    \<and> (da_dirty a \<longrightarrow> w' = w)"
proof (cases "da_dirty a")
  case True
  then show ?thesis by (cases a) (simp add: mark_as_dirty_def act_bind_def)
next
  case False
  then show ?thesis
    by (cases "cx_link (da_context a)")
       (auto simp: mark_as_dirty_def act_bind_def case_prod_unfold on_snd_def)
qed

text \<open>A draw for the witnesses.\<close>

definition demo_fresh :: fresh where
  "demo_fresh = \<lparr>fx_uuid = ''u'', fx_key = fill32 3, fx_nonce = replicate 24 0, fx_pointer = fill32 4,
     fx_seconds = 1, fx_nanos = 2, fx_rfc3339 = ''2024''\<rparr>"

end
