(* ===== verification/Merge.thy ===== *)
theory Merge
  imports Dir_Actor
begin

text \<open>
  Last-write-wins merging of directory snapshots: the local part of \<^verbatim>\<open>s5_fs/src/actor/merge.rs\<close>.
\<close>

section \<open>Definitions\<close>

definition dir_ts :: "dir_ref \<Rightarrow> u64" where
  "dir_ts d =
    (let s = ucast (case dr_ts_seconds d of Some x \<Rightarrow> x | None \<Rightarrow> 0) :: u64;
         n = ucast (case dr_ts_nanos d of Some x \<Rightarrow> x | None \<Rightarrow> 0) :: u64
     in s * 1000000000 + n)"

definition file_ts :: "file_ref \<Rightarrow> u64" where
  "file_ts f =
    (let s = ucast (case fr_timestamp f of Some x \<Rightarrow> x | None \<Rightarrow> 0) :: u64;
         n = ucast (case fr_timestamp_subsec_nanos f of Some x \<Rightarrow> x | None \<Rightarrow> 0) :: u64
     in s * 1000000000 + n)"

definition merge_dir_entry :: "string \<times> dir_ref \<Rightarrow> dir_actor \<Rightarrow> dir_actor" where
  "merge_dir_entry e self =
    (case e of (name, remote_dir) \<Rightarrow>
       let remote_ts = dir_ts remote_dir; st = da_state self
       in case bt_get (dv_files st) name of
            Some local_file \<Rightarrow>
              if remote_ts > file_ts local_file then
                self\<lparr>da_state := st\<lparr>dv_files := bt_remove name (dv_files st),
                                     dv_dirs := bt_insert name remote_dir (dv_dirs st)\<rparr>,
                     da_dir_handles := bt_remove name (da_dir_handles self)\<rparr>
              else self
          | None \<Rightarrow>
             (case bt_get (dv_dirs st) name of
                Some local_dir \<Rightarrow>
                  if remote_ts > dir_ts local_dir then
                    self\<lparr>da_state := st\<lparr>dv_dirs := bt_insert name remote_dir (dv_dirs st)\<rparr>,
                         da_dir_handles := bt_remove name (da_dir_handles self)\<rparr>
                  else self
              | None \<Rightarrow> self\<lparr>da_state := st\<lparr>dv_dirs := bt_insert name remote_dir (dv_dirs st)\<rparr>\<rparr>))"

definition merge_file_entry :: "string \<times> file_ref \<Rightarrow> dir_actor \<Rightarrow> dir_actor" where
  "merge_file_entry e self =
    (case e of (name, remote_file) \<Rightarrow>
       let remote_ts = file_ts remote_file; st = da_state self
       in case bt_get (dv_dirs st) name of
            Some local_dir \<Rightarrow>
              if remote_ts > dir_ts local_dir then
                self\<lparr>da_dir_handles := bt_remove name (da_dir_handles self),
                     da_state := st\<lparr>dv_dirs := bt_remove name (dv_dirs st),
                                     dv_files := bt_insert name remote_file (dv_files st)\<rparr>\<rparr>
              else self
          | None \<Rightarrow>
             (case bt_get (dv_files st) name of
                Some local_file \<Rightarrow>
                  if remote_ts > file_ts local_file then
                    self\<lparr>da_state := st\<lparr>dv_files := bt_insert name remote_file (dv_files st)\<rparr>\<rparr>
                  else self
              | None \<Rightarrow> self\<lparr>da_state := st\<lparr>dv_files := bt_insert name remote_file (dv_files st)\<rparr>\<rparr>))"

definition merge_entries_local ::
  "(string, dir_ref) btree \<Rightarrow> (string, file_ref) btree \<Rightarrow> dir_actor \<Rightarrow> dir_actor" where
  "merge_entries_local dirs files self =
    fold merge_file_entry (bt_entries files) (fold merge_dir_entry (bt_entries dirs) self)"

definition merge_header_fields :: "dir_header \<Rightarrow> dir_actor \<Rightarrow> dir_actor" where
  "merge_header_fields header self =
    (let h = dv_header (da_state self);
         h = (if dh_try_files h = None then h\<lparr>dh_try_files := dh_try_files header\<rparr> else h);
         h = (if dh_error_pages h = None then h\<lparr>dh_error_pages := dh_error_pages header\<rparr> else h)
     in self\<lparr>da_state := (da_state self)\<lparr>dv_header := h\<rparr>\<rparr>)"

section \<open>Timestamps do not wrap\<close>

lemma ts_no_wrap:
  "unat (ucast (s :: u32) * 1000000000 + ucast (n :: u32) :: u64) = unat s * 1000000000 + unat n"
proof -
  have s: "unat s < 2 ^ 32" and n: "unat n < 2 ^ 32"
    using unsigned_less[of s, where 'a = nat] unsigned_less[of n, where 'a = nat] by simp_all
  have "unat (ucast s :: u64) = unat s" "unat (ucast n :: u64) = unat n"
    by (simp_all add: unsigned_ucast_eq take_bit_nat_eq_self_iff) (use s n in simp_all)
  with s n show ?thesis by (simp add: unat_word_ariths)
qed

section \<open>Entries\<close>

datatype entry = EDir dir_ref | EFile file_ref

fun entry_ts :: "entry \<Rightarrow> u64" where
  "entry_ts (EDir d) = dir_ts d"
| "entry_ts (EFile f) = file_ts f"

definition entry_at :: "dir_v1 \<Rightarrow> string \<Rightarrow> entry option" where
  "entry_at st n =
    (case bt_get (dv_files st) n of Some f \<Rightarrow> Some (EFile f) | None \<Rightarrow> map_option EDir (bt_get (dv_dirs st) n))"

text \<open>No name is both a file and a directory.\<close>

definition disjoint_names :: "dir_v1 \<Rightarrow> bool" where
  "disjoint_names st \<longleftrightarrow> (\<forall>n. bt_get (dv_files st) n = None \<or> bt_get (dv_dirs st) n = None)"

definition entry_rank :: "entry option \<Rightarrow> nat" where
  "entry_rank x = (case x of None \<Rightarrow> 0 | Some e \<Rightarrow> Suc (unat (entry_ts e)))"

text \<open>Last write wins; on a tie the local entry stays.\<close>

definition lww :: "entry option \<Rightarrow> entry option \<Rightarrow> entry option" where
  "lww l r = (if entry_rank l < entry_rank r then r else l)"

lemma lww_None [simp]: "lww l None = l"
  by (simp add: lww_def entry_rank_def)

lemma lww_rank: "entry_rank (lww l r) = max (entry_rank l) (entry_rank r)"
  by (simp add: lww_def max_def)

lemma lww_Some:
  "lww None (Some e) = Some e"
  "lww (Some e) (Some e') = (if entry_ts e < entry_ts e' then Some e' else Some e)"
  by (simp_all add: lww_def entry_rank_def word_less_nat_alt)

text \<open>One step of either loop.\<close>

lemma merge_dir_entry_at:
  assumes "disjoint_names (da_state a)"
  shows "disjoint_names (da_state (merge_dir_entry (n, d) a))
    \<and> entry_at (da_state (merge_dir_entry (n, d) a)) m =
        (if m = n then lww (entry_at (da_state a) n) (Some (EDir d)) else entry_at (da_state a) m)"
  using assms
  by (auto simp: merge_dir_entry_def Let_def disjoint_names_def entry_at_def lww_Some split: option.splits)

lemma merge_file_entry_at:
  assumes "disjoint_names (da_state a)"
  shows "disjoint_names (da_state (merge_file_entry (n, f) a))
    \<and> entry_at (da_state (merge_file_entry (n, f) a)) m =
        (if m = n then lww (entry_at (da_state a) n) (Some (EFile f)) else entry_at (da_state a) m)"
  using assms
  by (auto simp: merge_file_entry_def Let_def disjoint_names_def entry_at_def lww_Some split: option.splits)
     (metis option.distinct(1))+

text \<open>What the loops leave alone.\<close>

definition merge_frame :: "dir_actor \<Rightarrow> dir_actor \<Rightarrow> bool" where
  "merge_frame a a' \<longleftrightarrow> dv_header (da_state a') = dv_header (da_state a) \<and> da_dirty a' = da_dirty a
    \<and> da_dir_shard_handles a' = da_dir_shard_handles a \<and> da_context a' = da_context a
    \<and> (\<forall>n. bt_get (da_dir_handles a') n \<in> {None, bt_get (da_dir_handles a) n})"

lemma merge_entry_frame: "merge_frame a (merge_dir_entry e a)" "merge_frame a (merge_file_entry e' a)"
  by (auto simp: merge_frame_def merge_dir_entry_def merge_file_entry_def Let_def split: option.splits prod.splits)

lemma merge_frame_trans: "merge_frame a b \<Longrightarrow> merge_frame b c \<Longrightarrow> merge_frame a c"
  by (simp add: merge_frame_def) (metis)

lemma merge_frame_fold:
  assumes "\<And>e a. merge_frame a (g e a)"
  shows "merge_frame a (fold g xs a)"
  by (induction xs arbitrary: a) (use assms merge_frame_trans in \<open>auto simp: merge_frame_def[of a a for a]\<close>, blast)

lemma merge_fold_at:
  assumes step: "\<And>a n x m. disjoint_names (da_state a) \<Longrightarrow> disjoint_names (da_state (g (n, x) a))
      \<and> entry_at (da_state (g (n, x) a)) m =
          (if m = n then lww (entry_at (da_state a) n) (Some (c x)) else entry_at (da_state a) m)"
    and "distinct (map fst xs)" "disjoint_names (da_state a)"
  shows "disjoint_names (da_state (fold g xs a))
    \<and> entry_at (da_state (fold g xs a)) m = lww (entry_at (da_state a) m) (map_option c (map_of xs m))"
  using assms(2,3)
proof (induction xs arbitrary: a)
  case (Cons x xs)
  obtain n v where x: "x = (n, v)" by (cases x)
  note st = step[OF Cons.prems(2), of n v]
  have "map_of xs n = None" using Cons.prems(1) x by (auto simp: map_of_eq_None_iff)
  with Cons.IH[of "g (n, v) a"] Cons.prems(1) st x show ?case by auto
qed simp

lemma bt_entries_distinct: "distinct (map fst (bt_entries m))"
  using bt_keys_distinct[of m] by (simp add: bt_keys_def)

lemma merge_entries_local_at:
  assumes "disjoint_names (da_state a)" "disjoint_names s"
  shows "disjoint_names (da_state (merge_entries_local (dv_dirs s) (dv_files s) a))"
    "entry_at (da_state (merge_entries_local (dv_dirs s) (dv_files s) a)) m = lww (entry_at (da_state a) m) (entry_at s m)"
proof -
  let ?b = "fold merge_dir_entry (bt_entries (dv_dirs s)) a"
  note d = merge_fold_at[of merge_dir_entry EDir, OF merge_dir_entry_at bt_entries_distinct[of "dv_dirs s"] assms(1)]
  note f = merge_fold_at[of merge_file_entry EFile, OF merge_file_entry_at bt_entries_distinct[of "dv_files s"] conjunct1[OF d]]
  show "disjoint_names (da_state (merge_entries_local (dv_dirs s) (dv_files s) a))"
    using f by (simp add: merge_entries_local_def)
  have "lww (lww (entry_at (da_state a) m) (map_option EDir (bt_get (dv_dirs s) m)))
      (map_option EFile (bt_get (dv_files s) m)) = lww (entry_at (da_state a) m) (entry_at s m)"
    using assms(2)[unfolded disjoint_names_def, rule_format, of m] by (auto simp: entry_at_def split: option.splits)
  with d f show "entry_at (da_state (merge_entries_local (dv_dirs s) (dv_files s) a)) m
      = lww (entry_at (da_state a) m) (entry_at s m)"
    by (simp add: merge_entries_local_def bt_get_map_of)
qed

lemma merge_entries_local_frame: "merge_frame a (merge_entries_local ds fs a)"
  unfolding merge_entries_local_def
  by (rule merge_frame_trans[OF merge_frame_fold merge_frame_fold]) (rule merge_entry_frame)+

section \<open>Convergence\<close>

text \<open>Merging a sequence of snapshots.\<close>

definition merge_all :: "dir_v1 list \<Rightarrow> dir_actor \<Rightarrow> dir_actor" where
  "merge_all ss a = fold (\<lambda>s. merge_entries_local (dv_dirs s) (dv_files s)) ss a"

lemma merge_all_at:
  assumes "disjoint_names (da_state a)" "\<forall>s \<in> set ss. disjoint_names s"
  shows "disjoint_names (da_state (merge_all ss a))
    \<and> entry_at (da_state (merge_all ss a)) n = fold (\<lambda>s l. lww l (entry_at s n)) ss (entry_at (da_state a) n)"
  using assms by (induction ss arbitrary: a) (auto simp: merge_all_def merge_entries_local_at)

lemma fold_lww:
  "fold (\<lambda>s l. lww l (g s)) ss l \<in> insert l (g ` set ss)
   \<and> (\<forall>x \<in> insert l (g ` set ss). entry_rank x \<le> entry_rank (fold (\<lambda>s l. lww l (g s)) ss l))"
proof (induction ss arbitrary: l)
  case (Cons s ss)
  have "lww l (g s) \<in> {l, g s}" "entry_rank l \<le> entry_rank (lww l (g s))" "entry_rank (g s) \<le> entry_rank (lww l (g s))"
    by (auto simp: lww_def)
  with Cons[of "lww l (g s)"] show ?case by fastforce
qed simp

text \<open>Entries with the same name and time are the same entry.\<close>

definition no_ties :: "dir_v1 set \<Rightarrow> bool" where
  "no_ties S \<longleftrightarrow> (\<forall>s \<in> S. \<forall>t \<in> S. \<forall>n e e'. entry_at s n = Some e \<longrightarrow> entry_at t n = Some e' \<longrightarrow>
     entry_ts e = entry_ts e' \<longrightarrow> e = e')"

lemma no_ties_rank:
  "no_ties S \<Longrightarrow> s \<in> S \<Longrightarrow> t \<in> S \<Longrightarrow> entry_rank (entry_at s n) = entry_rank (entry_at t n) \<Longrightarrow>
   entry_at s n = entry_at t n"
  by (auto simp: no_ties_def entry_rank_def split: option.splits) (metis unsigned_word_eqI)

lemma merge_all_winner:
  assumes "disjoint_names (da_state a)" "\<forall>s \<in> set ss. disjoint_names s"
  shows "\<exists>s \<in> insert (da_state a) (set ss). entry_at (da_state (merge_all ss a)) n = entry_at s n
    \<and> (\<forall>t \<in> insert (da_state a) (set ss). entry_rank (entry_at t n) \<le> entry_rank (entry_at s n))"
  using fold_lww[of "\<lambda>s. entry_at s n" ss "entry_at (da_state a) n"] merge_all_at[OF assms, of n] by auto

lemma entries_eq:
  assumes "disjoint_names s" "disjoint_names t" "\<And>n. entry_at s n = entry_at t n"
  shows "dv_dirs s = dv_dirs t \<and> dv_files s = dv_files t"
proof -
  have "bt_get (dv_files s) n = bt_get (dv_files t) n \<and> bt_get (dv_dirs s) n = bt_get (dv_dirs t) n" for n
    using assms(1,2)[unfolded disjoint_names_def, rule_format, of n] assms(3)[of n]
    by (cases "bt_get (dv_dirs s) n"; cases "bt_get (dv_dirs t) n") (auto simp: entry_at_def split: option.splits)
  then show ?thesis by (simp add: bt_eq_iff fun_eq_iff)
qed

section \<open>Properties\<close>

text \<open>Merging a snapshot is last-write-wins per name: every name holds the newer of the local and the
  remote entry (file, directory or tombstone), the local one on a tie; no name becomes both a file and a
  directory; the header, the shards and the dirty flag are untouched. Times are compared as whole
  nanosecond counts, which never wrap at 64 bits.\<close>

theorem merge_is_last_write_wins:
  assumes "disjoint_names (da_state a)" and "disjoint_names s"
  defines "a' \<equiv> merge_entries_local (dv_dirs s) (dv_files s) a"
  shows "disjoint_names (da_state a')
    \<and> (\<forall>n. entry_at (da_state a') n = lww (entry_at (da_state a) n) (entry_at s n))
    \<and> dv_header (da_state a') = dv_header (da_state a) \<and> da_dirty a' = da_dirty a
    \<and> da_dir_shard_handles a' = da_dir_shard_handles a
    \<and> (\<forall>d. unat (dir_ts d) = unat (case dr_ts_seconds d of Some x \<Rightarrow> x | None \<Rightarrow> 0) * 1000000000
           + unat (case dr_ts_nanos d of Some x \<Rightarrow> x | None \<Rightarrow> 0))
    \<and> (\<forall>f. unat (file_ts f) = unat (case fr_timestamp f of Some x \<Rightarrow> x | None \<Rightarrow> 0) * 1000000000
           + unat (case fr_timestamp_subsec_nanos f of Some x \<Rightarrow> x | None \<Rightarrow> 0))"
  using merge_entries_local_at[OF assms(1,2)] merge_entries_local_frame[of a "dv_dirs s" "dv_files s"]
  by (simp add: a'_def merge_frame_def dir_ts_def file_ts_def Let_def ts_no_wrap)

definition demo_actor :: "dir_v1 \<Rightarrow> dir_actor" where
  "demo_actor st = (DirActor_new (DirContext_new (LinkLocalFile ''/r/root.fs5.cbor'')) None None)\<lparr>da_state := st\<rparr>"

definition demo_file_dir :: "hash \<Rightarrow> u32 \<Rightarrow> dir_v1" where
  "demo_file_dir h t = DirV1_new\<lparr>dv_files := bt_insert ''a''
     (FileRef None h 1 (Some t) None None None None None None None None) bt_empty\<rparr>"

lemma demo_file_dir_disjoint [simp]: "disjoint_names (demo_file_dir h t)"
  by (simp add: disjoint_names_def demo_file_dir_def DirV1_new_def)

theorem merge_is_last_write_wins_witness:
  "entry_at (da_state (merge_entries_local (dv_dirs (demo_file_dir (fill32 2) 9)) (dv_files (demo_file_dir (fill32 2) 9))
      (demo_actor (demo_file_dir (fill32 1) 5)))) ''a''
   = lww (entry_at (demo_file_dir (fill32 1) 5) ''a'') (entry_at (demo_file_dir (fill32 2) 9) ''a'')"
  using merge_is_last_write_wins[of "demo_actor (demo_file_dir (fill32 1) 5)" "demo_file_dir (fill32 2) 9"]
  by (simp add: demo_actor_def)

text \<open>C30. Replicas converge: replicas that have altogether seen the same directory states, each starting from one of them and merging the
  others in any order and any number of times, end with the same files and directories, provided that in each of the states no name is both
  a file and a directory and that no two different entries of a name carry the same time.\<close>

theorem merge_converges:
  assumes "disjoint_names (da_state a)" and "disjoint_names (da_state b)"
    and "\<forall>s \<in> set ss. disjoint_names s" and "\<forall>s \<in> set ts. disjoint_names s"
    and "insert (da_state a) (set ss) = insert (da_state b) (set ts)"
    and "no_ties (insert (da_state a) (set ss))"
  shows "dv_dirs (da_state (merge_all ss a)) = dv_dirs (da_state (merge_all ts b))
    \<and> dv_files (da_state (merge_all ss a)) = dv_files (da_state (merge_all ts b))"
proof (rule entries_eq)
  show "disjoint_names (da_state (merge_all ss a))" "disjoint_names (da_state (merge_all ts b))"
    using merge_all_at assms(1-4) by blast+
  fix n
  obtain s where s: "s \<in> insert (da_state a) (set ss)" "entry_at (da_state (merge_all ss a)) n = entry_at s n"
    "\<forall>t \<in> insert (da_state a) (set ss). entry_rank (entry_at t n) \<le> entry_rank (entry_at s n)"
    using merge_all_winner[OF assms(1,3)] by blast
  obtain t where t: "t \<in> insert (da_state a) (set ss)" "entry_at (da_state (merge_all ts b)) n = entry_at t n"
    "\<forall>x \<in> insert (da_state a) (set ss). entry_rank (entry_at x n) \<le> entry_rank (entry_at t n)"
    using merge_all_winner[OF assms(2,4)] assms(5) by metis
  have "entry_rank (entry_at s n) = entry_rank (entry_at t n)" using s t by (meson dual_order.antisym)
  from no_ties_rank[OF assms(6) s(1) t(1) this] s(2) t(2)
  show "entry_at (da_state (merge_all ss a)) n = entry_at (da_state (merge_all ts b)) n" by simp
qed

theorem merge_converges_witness:
  "dv_files (da_state (merge_all [demo_file_dir (fill32 2) 9] (demo_actor (demo_file_dir (fill32 1) 5))))
   = dv_files (da_state (merge_all [demo_file_dir (fill32 1) 5] (demo_actor (demo_file_dir (fill32 2) 9))))"
proof -
  have "no_ties {demo_file_dir (fill32 1) 5, demo_file_dir (fill32 2) 9}"
    by (auto simp: no_ties_def demo_file_dir_def DirV1_new_def entry_at_def file_ts_def Let_def split: if_splits)
  then show ?thesis
    using merge_converges[of "demo_actor (demo_file_dir (fill32 1) 5)" "demo_actor (demo_file_dir (fill32 2) 9)"
        "[demo_file_dir (fill32 2) 9]" "[demo_file_dir (fill32 1) 5]"]
    by (simp add: demo_actor_def insert_commute)
qed

text \<open>The first condition is needed, and directories that were created where a file of the name was break it: a replica that has both
  entries of a name keeps both when it merges an empty directory, while an empty replica that merges the two keeps the newer one only.\<close>

lemma clashing_names_diverge:
  "\<exists>s. no_ties {s, DirV1_new} \<and> \<not> disjoint_names s
    \<and> dv_dirs (da_state (merge_all [DirV1_new] (demo_actor s))) \<noteq> dv_dirs (da_state (merge_all [s] (demo_actor DirV1_new)))"
proof -
  let ?d = "(DirRef_from_hash (fill32 1))\<lparr>dr_ts_seconds := Some 5\<rparr>"
  let ?s = "(demo_file_dir (fill32 2) 9)\<lparr>dv_dirs := bt_insert ''a'' ?d bt_empty\<rparr>"
  have "bt_get (dv_dirs (da_state (merge_all [DirV1_new] (demo_actor ?s)))) ''a'' = Some ?d"
    by (simp add: merge_all_def merge_entries_local_def demo_actor_def DirV1_new_def)
  moreover have "bt_get (dv_dirs (da_state (merge_all [?s] (demo_actor DirV1_new)))) ''a'' = None"
    by (simp add: merge_all_def merge_entries_local_def demo_actor_def DirV1_new_def demo_file_dir_def merge_dir_entry_def merge_file_entry_def
        file_ts_def dir_ts_def DirRef_from_hash_def Let_def)
  moreover have "no_ties {?s, DirV1_new}" "\<not> disjoint_names ?s"
    by (auto simp: no_ties_def disjoint_names_def entry_at_def DirV1_new_def demo_file_dir_def DirRef_from_hash_def dir_ts_def file_ts_def Let_def split: if_splits)
  ultimately show ?thesis by (intro exI[of _ ?s]) auto
qed

end
