(* ===== verification/Listing.thy ===== *)
theory Listing
  imports Dir_Actor "HOL-Library.Product_Lexorder"
begin

text \<open>
  Listing a directory in pages: \<^verbatim>\<open>s5_fs/src/actor/listing.rs\<close>. A page is computed from the merged
  snapshot of the directory; the cursor codec (CBOR and base64, third-party) is a field of the environment.
\<close>

section \<open>Pages\<close>

text \<open>The two peekable iterators, and the vector that is filled from them.\<close>

function list_loop ::
  "nat \<Rightarrow> string list \<Rightarrow> string list \<Rightarrow> (string \<times> cursor_kind) list \<Rightarrow> (string \<times> cursor_kind) list" where
  "list_loop limit it_dirs it_files out =
    (if length out < limit then
       (case (it_dirs, it_files) of
          (d # ds, f # fs) \<Rightarrow>
            if d < f then list_loop limit ds (f # fs) (out @ [(d, CursorDirectory)])
            else if f < d then list_loop limit (d # ds) fs (out @ [(f, CursorFile)])
            else
              let out = out @ [(d, CursorDirectory)]
              in if length out = limit then out else list_loop limit ds fs (out @ [(d, CursorFile)])
        | (d # ds, []) \<Rightarrow> list_loop limit ds [] (out @ [(d, CursorDirectory)])
        | ([], f # fs) \<Rightarrow> list_loop limit [] fs (out @ [(f, CursorFile)])
        | ([], []) \<Rightarrow> out)
     else out)"
  by auto
termination
  by (relation "measure (\<lambda>(limit, ds, fs, out). length ds + length fs)") auto

declare list_loop.simps [simp del]

definition list_page ::
  "'w fs_env \<Rightarrow> dir_v1 \<Rightarrow> string option \<Rightarrow> nat \<Rightarrow> list_result" where
  "list_page E snapshot cursor limit =
    (let all_dirs = bt_keys (dv_dirs snapshot);
         all_files = bt_keys (dv_files snapshot);
         start = (case cursor of None \<Rightarrow> None | Some c \<Rightarrow> fe_decode_cursor E c);
         it_dirs = (case start of
             None \<Rightarrow> all_dirs
           | Some (name, _) \<Rightarrow> filter (\<lambda>k. name < k) all_dirs);
         it_files = (case start of
             None \<Rightarrow> all_files
           | Some (name, CursorDirectory) \<Rightarrow> filter (\<lambda>k. name \<le> k) all_files
           | Some (name, CursorFile) \<Rightarrow> filter (\<lambda>k. name < k) all_files);
         out = list_loop limit it_dirs it_files [];
         next_cursor = (if out = [] then None else Some (fe_encode_cursor E (last out)))
     in (out, next_cursor))"

section \<open>The order of the entries\<close>

instantiation cursor_kind :: linorder
begin

definition less_eq_cursor_kind :: "cursor_kind \<Rightarrow> cursor_kind \<Rightarrow> bool" where
  "less_eq_cursor_kind a b \<longleftrightarrow> a = CursorDirectory \<or> b = CursorFile"

definition less_cursor_kind :: "cursor_kind \<Rightarrow> cursor_kind \<Rightarrow> bool" where
  "less_cursor_kind a b \<longleftrightarrow> a = CursorDirectory \<and> b = CursorFile"

instance
  by standard (auto simp: less_eq_cursor_kind_def less_cursor_kind_def intro: cursor_kind.exhaust)

end

text \<open>The whole listing: names in order, a directory before a file of the same name.\<close>

definition all_entries :: "dir_v1 \<Rightarrow> (string \<times> cursor_kind) list" where
  "all_entries s = sorted_list_of_set
     ((\<lambda>d. (d, CursorDirectory)) ` set (bt_keys (dv_dirs s)) \<union> (\<lambda>f. (f, CursorFile)) ` set (bt_keys (dv_files s)))"

definition entry_set_of :: "string list \<Rightarrow> string list \<Rightarrow> (string \<times> cursor_kind) set" where
  "entry_set_of ds fs = (\<lambda>d. (d, CursorDirectory)) ` set ds \<union> (\<lambda>f. (f, CursorFile)) ` set fs"

lemma finite_entry_set_of [simp]: "finite (entry_set_of ds fs)"
  by (simp add: entry_set_of_def)

lemma sorted_list_insert_min:
  assumes "finite A" "\<forall>y \<in> A. x < y"
  shows "sorted_list_of_set (insert x A) = x # sorted_list_of_set A"
proof -
  have "x \<notin> A" using assms(2) by auto
  moreover have "insort x (sorted_list_of_set A) = x # sorted_list_of_set A"
    using assms by (intro insort_is_Cons) auto
  ultimately show ?thesis using assms(1) by simp
qed

lemma entry_set_of_Cons:
  "entry_set_of (d # ds) fs = insert (d, CursorDirectory) (entry_set_of ds fs)"
  "entry_set_of ds (f # fs) = insert (f, CursorFile) (entry_set_of ds fs)"
  by (auto simp: entry_set_of_def)

lemma listing_dir_first:
  assumes "\<forall>x \<in> set ds. d < x" "\<forall>x \<in> set fs. d \<le> x"
  shows "sorted_list_of_set (entry_set_of (d # ds) fs) = (d, CursorDirectory) # sorted_list_of_set (entry_set_of ds fs)"
  unfolding entry_set_of_Cons
proof (rule sorted_list_insert_min)
  show "\<forall>y \<in> entry_set_of ds fs. (d, CursorDirectory) < y"
    using assms by (auto simp: entry_set_of_def less_prod_def less_cursor_kind_def)
qed simp

lemma listing_file_first:
  assumes "\<forall>x \<in> set ds. f < x" "\<forall>x \<in> set fs. f < x"
  shows "sorted_list_of_set (entry_set_of ds (f # fs)) = (f, CursorFile) # sorted_list_of_set (entry_set_of ds fs)"
  unfolding entry_set_of_Cons
proof (rule sorted_list_insert_min)
  show "\<forall>y \<in> entry_set_of ds fs. (f, CursorFile) < y"
    using assms by (auto simp: entry_set_of_def less_prod_def)
qed simp

lemma list_loop_take:
  "sorted_wrt (<) ds \<Longrightarrow> sorted_wrt (<) fs \<Longrightarrow> length out \<le> limit \<Longrightarrow>
   list_loop limit ds fs out = out @ take (limit - length out) (sorted_list_of_set (entry_set_of ds fs))"
proof (induction "length ds + length fs" arbitrary: ds fs out rule: less_induct)
  case less
  show ?case
  proof (cases "length out < limit")
    case False
    then show ?thesis using less.prems(3) by (simp add: list_loop.simps)
  next
    case lt: True
    then obtain k where k: "limit - length out = Suc k" by (metis Suc_diff_Suc)
    note unroll = list_loop.simps[of limit ds fs out]
    have rest: "list_loop limit ds' fs' (out @ [e]) = out @ e # take k (sorted_list_of_set (entry_set_of ds' fs'))"
      if "length ds' + length fs' < length ds + length fs" "sorted_wrt (<) ds'" "sorted_wrt (<) fs'" for ds' fs' e
    proof -
      have "limit - Suc (length out) = k" using k by simp
      with less.hyps[OF that, of "out @ [e]"] lt show ?thesis by simp
    qed
    consider (nil) "ds = []" "fs = []" | (dirs) d ds' where "ds = d # ds'" "fs = []"
      | (fs_only) f fs' where "ds = []" "fs = f # fs'"
      | (dir) d ds' f fs' where "ds = d # ds'" "fs = f # fs'" "d < f"
      | (fil) d ds' f fs' where "ds = d # ds'" "fs = f # fs'" "f < d"
      | (both) d ds' fs' where "ds = d # ds'" "fs = d # fs'"
      by (metis linorder_neqE list.exhaust)
    then show ?thesis
    proof cases
      case nil
      then show ?thesis using unroll by (simp add: entry_set_of_def)
    next
      case (dirs d ds')
      then show ?thesis using unroll lt k less.prems rest[of ds' "[]"] listing_dir_first[of ds' d "[]"] by simp
    next
      case (fs_only f fs')
      then show ?thesis using unroll lt k less.prems rest[of "[]" fs'] listing_file_first[of "[]" f fs'] by simp
    next
      case (dir d ds' f fs')
      then have "\<forall>x \<in> set fs. d \<le> x" using less.prems(2) by auto
      then show ?thesis
        using dir unroll lt k less.prems rest[of ds' fs] listing_dir_first[of ds' d fs] by simp
    next
      case (fil d ds' f fs')
      then have "\<forall>x \<in> set ds. f < x" using less.prems(1) by auto
      then show ?thesis
        using fil unroll lt k less.prems rest[of ds fs'] listing_file_first[of ds f fs'] less_not_sym[OF fil(3)] by simp
    next
      case (both d ds' fs')
      then have le: "\<forall>x \<in> set fs. d \<le> x" "\<forall>x \<in> set ds'. d < x" "\<forall>x \<in> set fs'. d < x"
        using less.prems by auto
      have S: "sorted_list_of_set (entry_set_of ds fs)
          = (d, CursorDirectory) # (d, CursorFile) # sorted_list_of_set (entry_set_of ds' fs')"
        using both listing_dir_first[OF le(2,1)] listing_file_first[OF le(2,3)] by simp
      show ?thesis
      proof (cases k)
        case 0
        then have "Suc (length out) = limit" using k by simp
        then show ?thesis using 0 both unroll lt k S by (simp add: Let_def)
      next
        case (Suc j)
        have j: "limit - Suc (Suc (length out)) = j" "Suc (Suc (length out)) \<le> limit" using k Suc by simp_all
        then have "list_loop limit ds' fs' ((out @ [(d, CursorDirectory)]) @ [(d, CursorFile)])
            = (out @ [(d, CursorDirectory), (d, CursorFile)]) @ take j (sorted_list_of_set (entry_set_of ds' fs'))"
          using less.hyps[of ds' fs' "out @ [(d, CursorDirectory), (d, CursorFile)]"] both less.prems k by simp
        moreover have "Suc (length out) \<noteq> limit" using k Suc by simp
        ultimately show ?thesis using both unroll lt k S Suc by (simp add: Let_def)
      qed
    qed
  qed
qed

section \<open>Pagination\<close>

lemma all_entries_set: "all_entries s = sorted_list_of_set (entry_set_of (bt_keys (dv_dirs s)) (bt_keys (dv_files s)))"
  by (simp add: all_entries_def entry_set_of_def)

lemma filter_sorted_list_of_set:
  "finite A \<Longrightarrow> filter P (sorted_list_of_set A) = sorted_list_of_set {x \<in> A. P x}"
  by (rule sorted_distinct_set_unique) (auto simp: sorted_wrt_filter)

text \<open>A page is the first entries after the cursor.\<close>

lemma list_page_entries:
  "fst (list_page E s cursor limit) =
    take limit (case cursor of
        None \<Rightarrow> all_entries s
      | Some c \<Rightarrow> (case fe_decode_cursor E c of
            None \<Rightarrow> all_entries s | Some p \<Rightarrow> filter (\<lambda>e. p < e) (all_entries s)))"
proof -
  let ?ds = "bt_keys (dv_dirs s)" and ?fs = "bt_keys (dv_files s)"
  note srt = bt_keys_sorted[of "dv_dirs s"] bt_keys_sorted[of "dv_files s"]
  have rng: "list_loop limit (filter P ?ds) (filter Q ?fs) [] = take limit (filter R (all_entries s))"
    if "\<And>n. R (n, CursorDirectory) = P n" "\<And>n. R (n, CursorFile) = Q n" for P Q R
  proof -
    have "entry_set_of (filter P ?ds) (filter Q ?fs) = {x \<in> entry_set_of ?ds ?fs. R x}"
      using that by (auto simp: entry_set_of_def)
    then show ?thesis
      using srt by (simp add: list_loop_take sorted_wrt_filter all_entries_set filter_sorted_list_of_set)
  qed
  have full: "list_loop limit ?ds ?fs [] = take limit (all_entries s)"
    using srt by (simp add: list_loop_take all_entries_set)
  have fil: "list_loop limit (filter (\<lambda>k. n < k) ?ds) (filter (\<lambda>k. n < k) ?fs) []
      = take limit (filter (\<lambda>e. (n, CursorFile) < e) (all_entries s))" for n
    by (rule rng) (auto simp: less_prod_def less_cursor_kind_def)
  have dir: "list_loop limit (filter (\<lambda>k. n < k) ?ds) (filter (\<lambda>k. n \<le> k) ?fs) []
      = take limit (filter (\<lambda>e. (n, CursorDirectory) < e) (all_entries s))" for n
    by (rule rng) (auto simp: less_prod_def less_cursor_kind_def)
  show ?thesis
    using full fil dir
    by (auto simp: list_page_def Let_def split: option.splits cursor_kind.splits)
qed

text \<open>A client that asks for pages until one is empty, with fuel for the number of requests.\<close>

fun fetch_all :: "(string option \<Rightarrow> list_result) \<Rightarrow> nat \<Rightarrow> string option \<Rightarrow> (string \<times> cursor_kind) list option" where
  "fetch_all page 0 cursor = None"
| "fetch_all page (Suc n) cursor =
    (case page cursor of
       (out, None) \<Rightarrow> Some out
     | (out, Some next_cursor) \<Rightarrow> map_option (\<lambda>rest. out @ rest) (fetch_all page n (Some next_cursor)))"

lemma sorted_filter_after:
  assumes "sorted_wrt (<) (xs @ x # ys)"
  shows "filter (\<lambda>e. x < e) (xs @ x # ys) = (ys :: 'a::linorder list)"
  using assms by (auto simp: sorted_wrt_append filter_empty_conv filter_id_conv dest: less_asym)

lemma all_entries_sorted: "sorted_wrt (<) (all_entries s)"
  by (simp add: all_entries_def)

definition cursor_codec_ok :: "'w fs_env \<Rightarrow> bool" where
  "cursor_codec_ok E \<longleftrightarrow> (\<forall>p. fe_decode_cursor E (fe_encode_cursor E p) = Some p)"

lemma list_page_after:
  assumes "cursor_codec_ok E" "all_entries s = xs @ ys"
  shows "list_page E s (if xs = [] then None else Some (fe_encode_cursor E (last xs))) limit
    = (take limit ys, if take limit ys = [] then None else Some (fe_encode_cursor E (last (take limit ys))))"
proof -
  have "filter (\<lambda>e. last xs < e) (all_entries s) = ys" if "xs \<noteq> []"
  proof -
    have "all_entries s = butlast xs @ last xs # ys" using that assms(2) by simp
    then show ?thesis using sorted_filter_after[of "butlast xs" "last xs" ys] all_entries_sorted[of s] by metis
  qed
  then have "fst (list_page E s (if xs = [] then None else Some (fe_encode_cursor E (last xs))) limit) = take limit ys"
    using assms by (auto simp: list_page_entries cursor_codec_ok_def simp del: split_paired_All)
  moreover have "snd (list_page E s c limit) = (let out = fst (list_page E s c limit)
      in if out = [] then None else Some (fe_encode_cursor E (last out)))" for c
    by (simp add: list_page_def Let_def)
  ultimately show ?thesis by (metis (no_types, lifting) prod.collapse)
qed

lemma fetch_all_from:
  assumes "cursor_codec_ok E" "limit > 0" "all_entries s = xs @ ys" "n > length ys"
  shows "fetch_all (\<lambda>c. list_page E s c limit) n (if xs = [] then None else Some (fe_encode_cursor E (last xs))) = Some ys"
  using assms(3,4)
proof (induction n arbitrary: xs ys)
  case (Suc n)
  note page = list_page_after[OF assms(1) Suc.prems(1), of limit]
  show ?case
  proof (cases "ys = []")
    case False
    then have ne: "take limit ys \<noteq> []" using assms(2) by simp
    have "length (drop limit ys) < n" using Suc.prems(2) assms(2) False by (cases ys) auto
    then have "fetch_all (\<lambda>c. list_page E s c limit) n
        (Some (fe_encode_cursor E (last (take limit ys)))) = Some (drop limit ys)"
      using Suc.IH[of "xs @ take limit ys" "drop limit ys"] Suc.prems(1) ne by simp
    then show ?thesis using page ne by (simp del: take_eq_Nil)
  qed (use page in simp)
qed simp

section \<open>Properties\<close>

text \<open>C31. Pagination is complete: with any page size above zero, a client that follows the cursors until
  a page comes back empty receives, after finitely many requests, every directory and file of the listing
  exactly once, in order of names, a directory before a file of the same name. A page never exceeds the
  limit.\<close>

theorem listing_pages_complete:
  assumes "cursor_codec_ok E" and "0 < limit"
  shows "fetch_all (\<lambda>c. list_page E s c limit) (Suc (length (all_entries s))) None = Some (all_entries s)
    \<and> sorted_wrt (<) (all_entries s)
    \<and> set (all_entries s) = {(d, CursorDirectory) | d. bt_get (dv_dirs s) d \<noteq> None}
        \<union> {(f, CursorFile) | f. bt_get (dv_files s) f \<noteq> None}
    \<and> (\<forall>c. length (fst (list_page E s c limit)) \<le> limit)"
proof -
  have "set (all_entries s) = {(d, CursorDirectory) | d. bt_get (dv_dirs s) d \<noteq> None}
      \<union> {(f, CursorFile) | f. bt_get (dv_files s) f \<noteq> None}"
    by (auto simp: all_entries_def bt_keys_iff image_iff)
  then show ?thesis
    using fetch_all_from[OF assms, of s "[]" "all_entries s" "Suc (length (all_entries s))"] all_entries_sorted[of s]
    by (simp add: list_page_entries)
qed

text \<open>An environment for the witnesses: an empty world with a marked cursor codec.\<close>

definition demo_env :: "memory_store fs_env" where
  "demo_env = \<lparr>fe_hash = demo_hashing, fe_codec = demo_dir_codec, fe_blobs = BlobStore_new MemoryStore,
     fe_registry = \<lparr>rg_get = \<lambda>_ _. Inr None, rg_set = \<lambda>_. act_ok (), rg_delete = \<lambda>_. act_ok ()\<rparr>, fe_pins = None,
     fe_fresh = \<lambda>w. (demo_fresh, w), fe_xxh3 = \<lambda>s. of_nat (length s), fe_sign = \<lambda>_ _. replicate 64 0,
     fe_encode_cursor = \<lambda>(n, k). (case k of CursorFile \<Rightarrow> CHR ''f'' | CursorDirectory \<Rightarrow> CHR ''d'') # n,
     fe_decode_cursor = \<lambda>c. (case c of [] \<Rightarrow> None
        | k # n \<Rightarrow> Some (n, if k = CHR ''f'' then CursorFile else CursorDirectory)),
     fe_read_file = \<lambda>_ _. Inl (Io NotFound ''''), fe_persist_file = \<lambda>_ _. act_ok (),
     fe_ask = \<lambda>_ _. act_err channel_closed, fe_tell = \<lambda>_ _. act_ok (), fe_upgrade = \<lambda>_ _. True,
     fe_spawn = \<lambda>_ _ _. act_ok 0, fe_autosave_tick_after = \<lambda>_ _. act_ok (), fe_registry_dir = \<lambda>_ _. None, fe_set_registry_dir = \<lambda>_ _. act_ok ()\<rparr>"

lemma demo_env_cursor: "cursor_codec_ok demo_env"
  by (auto simp: cursor_codec_ok_def demo_env_def split: cursor_kind.splits)

theorem listing_pages_complete_witness:
  "\<exists>n. fetch_all (\<lambda>c. list_page demo_env DirV1_new c 1) n None = Some (all_entries DirV1_new)"
  using listing_pages_complete[OF demo_env_cursor zero_less_one, of DirV1_new] by (meson conjunct1)

end
