(* ===== verification/Persistence.thy ===== *)
theory Persistence
  imports Dir_Actor
begin

text \<open>
  Loading and saving the state of a directory actor: \<^verbatim>\<open>s5_fs/src/actor/persistence.rs\<close> (the recursive
  flush \<^verbatim>\<open>save_if_dirty\<close> is in \<open>Actor_Loop\<close>).
\<close>

section \<open>Encoding under the keys of a context\<close>

definition decrypt_if_needed :: "dir_codec \<Rightarrow> bytes \<Rightarrow> dir_context \<Rightarrow> error + bytes" where
  "decrypt_if_needed D bs context =
    (case cx_encryption_type context of
       Some enc_type \<Rightarrow>
         if enc_type = ENCRYPTION_TYPE_XCHACHA20_POLY1305 then
           (case bt_get (cx_keys context) 0x0e of
              None \<Rightarrow> Inl (Anyhow ''missing encryption key 0x0e for XChaCha20-Poly1305'')
            | Some encryption_key \<Rightarrow> decrypt_dir_bytes D bs (Some encryption_key))
         else Inl (Anyhow ''encryption type not supported'')
     | None \<Rightarrow> Inr bs)"

definition encode_child_dir_bytes ::
  "'w fs_env \<Rightarrow> dir_v1 \<Rightarrow> dir_context \<Rightarrow> ('w, bytes \<times> (u8, bytes32) btree option) action" where
  "encode_child_dir_bytes E state context =
    (let enable_encryption = cx_encryption_type context \<noteq> None;
         plain = DirV1_to_bytes (fe_codec E) state
     in if enable_encryption then
          act_bind (act_fresh E) (\<lambda>x.
          act_ok (encrypt_dir_bytes (fe_codec E) (fx_key x) (fx_nonce x) plain,
                  Some (bt_insert 0x0e (fx_key x) bt_empty)))
        else act_ok (plain, None))"

definition encode_state_bytes :: "'w fs_env \<Rightarrow> ('w, bytes) handler" where
  "encode_state_bytes E =
    act_bind (self_get id) (\<lambda>self.
    let plain = DirV1_to_bytes (fe_codec E) (da_state self)
    in case cx_encryption_type (da_context self) of
         Some enc_type \<Rightarrow>
           if enc_type = ENCRYPTION_TYPE_XCHACHA20_POLY1305 then
             (case bt_get (cx_keys (da_context self)) 0x0e of
                None \<Rightarrow> act_err (Anyhow ''missing encryption key 0x0e for XChaCha20-Poly1305'')
              | Some encryption_key \<Rightarrow>
                  act_bind (on_snd (act_fresh E)) (\<lambda>x.
                  act_ok (encrypt_dir_bytes (fe_codec E) encryption_key (fx_nonce x) plain)))
           else act_err (Anyhow ''encryption type not supported'')
       | None \<Rightarrow> act_ok plain)"

text \<open>The meta blob store of the environment.\<close>

definition import_meta :: "'w fs_env \<Rightarrow> bytes \<Rightarrow> ('w, blob_id) action" where
  "import_meta E bs =
    act_bind (act_fresh E) (\<lambda>x. BlobStore_import_bytes (fe_hash E) (fe_blobs E) (fx_uuid x) bs)"

definition read_meta :: "'w fs_env \<Rightarrow> hash \<Rightarrow> 'w \<Rightarrow> error + bytes" where
  "read_meta E h = BlobStore_read_as_bytes (fe_hash E) (fe_blobs E) h 0 None"

definition export_snapshot_hash :: "'w fs_env \<Rightarrow> ('w, hash) handler" where
  "export_snapshot_hash E =
    act_bind (encode_state_bytes E) (\<lambda>bs.
    act_bind (on_snd (import_meta E bs)) (\<lambda>blob_id.
    act_ok (bid_hash blob_id)))"

section \<open>Loading\<close>

definition load_from :: "'w fs_env \<Rightarrow> hash \<Rightarrow> dir_context \<Rightarrow> 'w \<Rightarrow> error + dir_v1 \<times> nat" where
  "load_from E h context w =
    res_bind (read_meta E h w) (\<lambda>bs.
    res_bind (decrypt_if_needed (fe_codec E) bs context) (\<lambda>decrypted.
    res_bind (DirV1_from_bytes (fe_codec E) decrypted) (\<lambda>st. Inr (st, length decrypted))))"

definition load :: "'w fs_env \<Rightarrow> ('w, unit) handler" where
  "load E =
    act_bind (self_get da_context) (\<lambda>context.
    case cx_link context of
      LinkLocalFile path \<Rightarrow>
        act_bind (on_snd (act_read (fe_read_file E path))) (\<lambda>buffer.
        act_bind (self_set (\<lambda>a. a\<lparr>da_current_hash := Some (h_blake3 (fe_hash E) buffer),
                                  da_last_serialized_len := length buffer\<rparr>)) (\<lambda>_.
        act_bind (act_lift (DirV1_from_bytes (fe_codec E) buffer)) (\<lambda>st.
        self_set (\<lambda>a. a\<lparr>da_state := st\<rparr>))))
    | LinkDirHandle _ _ initial_hash _ \<Rightarrow>
        act_bind (on_snd (act_read (load_from E initial_hash context))) (\<lambda>(st, n).
        self_set (\<lambda>a. a\<lparr>da_last_serialized_len := n, da_state := st\<rparr>))
    | LinkRegistryKey public_key _ \<Rightarrow>
        act_bind (on_snd (act_read (rg_get (fe_registry E) public_key))) (\<lambda>eo.
        case eo of
          Some entry \<Rightarrow>
            act_bind (on_snd (act_read (load_from E (sm_hash entry) context))) (\<lambda>(st, n).
            self_set (\<lambda>a. a\<lparr>da_last_serialized_len := n, da_state := st\<rparr>))
        | None \<Rightarrow> self_set (\<lambda>a. a\<lparr>da_last_serialized_len := 0, da_state := DirV1_new\<rparr>)))"

section \<open>Saving\<close>

text \<open>\<^verbatim>\<open>Path::parent\<close> of an absolute or relative path without trailing slashes.\<close>

definition path_parent :: "string \<Rightarrow> string option" where
  "path_parent p =
    (if p = [] \<or> p = ''/'' then None
     else Some (rev (drop 1 (dropWhile (\<lambda>c. c \<noteq> CHR ''/'') (rev p)))))"

definition set_link_hash :: "hash \<Rightarrow> dir_actor \<Rightarrow> dir_actor" where
  "set_link_hash h a =
    (case cx_link (da_context a) of
       LinkDirHandle path handle _ shard_level \<Rightarrow>
         a\<lparr>da_context := (da_context a)\<lparr>cx_link := LinkDirHandle path handle h shard_level\<rparr>\<rparr>
     | _ \<Rightarrow> a)"

definition update_head_pin :: "'w fs_env \<Rightarrow> hash \<Rightarrow> ('w, unit) handler" where
  "update_head_pin E h =
    (case fe_pins E of
       None \<Rightarrow> act_ok ()
     | Some pins \<Rightarrow>
        act_bind (self_get da_current_hash) (\<lambda>current.
        act_bind (case current of
            Some prev \<Rightarrow>
              act_bind (self_set (\<lambda>a. a\<lparr>da_current_hash := None\<rparr>)) (\<lambda>_.
              act_ignore (on_snd (pn_unpin_hash pins prev LocalFsHead)))
          | None \<Rightarrow> act_ok ()) (\<lambda>_.
        act_bind (on_snd (pn_pin_hash pins h LocalFsHead)) (\<lambda>_.
        self_set (\<lambda>a. a\<lparr>da_current_hash := Some h\<rparr>)))))"

text \<open>The bytes a registry update signs.\<close>

definition registry_sign_bytes :: "stream_key \<Rightarrow> u64 \<Rightarrow> hash \<Rightarrow> bytes" where
  "registry_sign_bytes public_key revision h =
    (case StreamKey_to_bytes public_key of (key_type, key_bytes) \<Rightarrow>
       [message_type_u8 Registry, key_type] @ key_bytes @ be_bytes 8 revision @ [0x21] @ Hash_as_bytes h)"

definition publish :: "'w fs_env \<Rightarrow> stream_key \<Rightarrow> signing_key \<Rightarrow> hash \<Rightarrow> ('w, unit) action" where
  "publish E public_key sk h =
    act_bind (act_read (rg_get (fe_registry E) public_key)) (\<lambda>current.
    let revision = (case current of None \<Rightarrow> 0 | Some entry \<Rightarrow> sm_revision entry + 1);
        signature = fe_sign E sk (registry_sign_bytes public_key revision h)
    in case StreamMessage_new Registry public_key revision h signature None of
         Inl e \<Rightarrow> act_err (MessageError e)
       | Inr entry \<Rightarrow> rg_set (fe_registry E) entry)"

definition save :: "'w fs_env \<Rightarrow> bool \<Rightarrow> ('w, hash option) handler" where
  "save E notify_parent =
    act_bind (encode_state_bytes E) (\<lambda>bs.
    act_bind (self_get (\<lambda>a. cx_link (da_context a))) (\<lambda>link.
    case link of
      LinkLocalFile path \<Rightarrow>
        act_bind (on_snd (import_meta E bs)) (\<lambda>blob_id.
        act_bind (update_head_pin E (bid_hash blob_id)) (\<lambda>_.
        case path_parent path of
          None \<Rightarrow> act_err (Io NotFound ''Could not find parent directory'')
        | Some _ \<Rightarrow>
            act_bind (on_snd (fe_persist_file E path bs)) (\<lambda>_. act_ok None)))
    | LinkDirHandle path parent _ _ \<Rightarrow>
        act_bind (on_snd (import_meta E bs)) (\<lambda>blob_id.
        act_bind (\<lambda>(a, w).
            if notify_parent \<and> fe_upgrade E parent w
            then on_snd (fe_tell E parent (UpdateDirRefHash path (bid_hash blob_id))) (a, w)
            else (Inr (), (a, w))) (\<lambda>_.
        act_bind (self_set (set_link_hash (bid_hash blob_id))) (\<lambda>_.
        act_ok (Some (bid_hash blob_id)))))
    | LinkRegistryKey public_key signing_key \<Rightarrow>
        act_bind (on_snd (import_meta E bs)) (\<lambda>blob_id.
        act_bind (case signing_key of
            Some sk \<Rightarrow> on_snd (publish E public_key sk (bid_hash blob_id))
          | None \<Rightarrow> act_ok ()) (\<lambda>_. act_ok None))))"

section \<open>The contract of the world\<close>

text \<open>What an actor relies on: imports into the meta store add the blob and never replace one, reads return
  it, the registry keeps its contract, and neither disturbs the other; nonces have 24 bytes.\<close>

locale fs_world =
  reliable_registry "fe_registry E" entries winv storable
  for E :: "'w fs_env" and entries winv storable +
  fixes blob :: "'w \<Rightarrow> hash \<Rightarrow> bytes option"
  assumes codec_ok: "winv w \<Longrightarrow> dir_codec_ok (fe_codec E)"
    and storable_law: "message_ok m \<Longrightarrow> sm_data m = None \<Longrightarrow> storable m"
    and fresh_law: "winv w \<Longrightarrow> fe_fresh E w = (x, w') \<Longrightarrow>
      winv w' \<and> blob w' = blob w \<and> entries w' = entries w \<and> length (fx_nonce x) = 24"
    and import_law: "winv w \<Longrightarrow> import_meta E c w = (r, w') \<Longrightarrow>
      winv w' \<and> entries w' = entries w
      \<and> (\<forall>h. blob w' h = blob w h \<or> h = h_blake3 (fe_hash E) c \<and> blob w h = None \<and> blob w' h = Some c)
      \<and> (\<forall>i. r = Inr i \<longrightarrow> bid_hash i = h_blake3 (fe_hash E) c \<and> blob w' (h_blake3 (fe_hash E) c) \<noteq> None)"
    and read_meta_law: "winv w \<Longrightarrow> blob w h = Some c \<Longrightarrow> read_meta E h w = Inr c"
    and set_keeps_blobs: "act_keeps blob (rg_set (fe_registry E) m)"
begin

lemma encode_state:
  assumes "winv w" "encode_state_bytes E (a, w) = (r, (a', w'))"
  shows "a' = a \<and> winv w' \<and> blob w' = blob w \<and> entries w' = entries w
    \<and> (\<forall>bs. r = Inr bs \<longrightarrow>
         res_bind (decrypt_if_needed (fe_codec E) bs (da_context a)) (DirV1_from_bytes (fe_codec E)) = Inr (da_state a))"
proof -
  have D: "DirV1_from_bytes (fe_codec E) (DirV1_to_bytes (fe_codec E) d) = Inr d" for d
    using codec_ok[OF assms(1)] by (simp add: dir_codec_ok_def DirV1_from_bytes_def DirV1_to_bytes_def)
  obtain x w1 where x: "fe_fresh E w = (x, w1)" by fastforce
  note f = fresh_law[OF assms(1) x]
  show ?thesis
    using assms x f decrypt_encrypt[OF codec_ok[OF assms(1)], of "fx_nonce x"] D
    by (auto simp: encode_state_bytes_def act_bind_def act_fresh_def Let_def decrypt_if_needed_def res_bind_def
        split: option.splits if_splits)
qed

lemma load_from_stored:
  assumes "winv w" "blob w h = Some bs"
    and "res_bind (decrypt_if_needed (fe_codec E) bs ctx) (DirV1_from_bytes (fe_codec E)) = Inr st"
  shows "\<exists>n. load_from E h ctx w = Inr (st, n)"
  using assms read_meta_law[OF assms(1,2)] by (auto simp: load_from_def res_bind_def split: sum.splits)

lemma import_stores:
  assumes "winv w" "import_meta E c w = (Inr i, w')" "blob w (h_blake3 (fe_hash E) c) \<in> {None, Some c}"
  shows "winv w' \<and> entries w' = entries w \<and> bid_hash i = h_blake3 (fe_hash E) c \<and> blob w' (bid_hash i) = Some c"
  using import_law[OF assms(1,2)] assms(3) by (metis insertE singletonD)

lemma publish_stores:
  assumes "winv w" "publish E pk sk h w = (Inr (), w')" "\<And>m. entries w pk = Some m \<Longrightarrow> sm_revision m < - 1"
  shows "winv w' \<and> blob w' = blob w \<and> (\<exists>m. entries w' pk = Some m \<and> sm_hash m = h
    \<and> (\<forall>m0. entries w pk = Some m0 \<longrightarrow> sm_revision m0 < sm_revision m))"
proof -
  let ?rev = "case entries w pk of None \<Rightarrow> 0 | Some entry \<Rightarrow> sm_revision entry + 1"
  obtain m where m: "StreamMessage_new Registry pk ?rev h (fe_sign E sk (registry_sign_bytes pk ?rev h)) None = Inr m"
    and set: "rg_set (fe_registry E) m w = (Inr (), w')"
    using assms(2) get_total[OF assms(1), of pk] by (auto simp: publish_def act_bind_def Let_def split: sum.splits)
  from m have mm: "message_ok m" "sm_type_id m = Registry" "sm_key m = pk" "sm_revision m = ?rev" "sm_hash m = h"
    "sm_data m = None"
    by (auto simp: StreamMessage_new_Inr_iff)
  have e: "winv w' \<and> entries w' = entry_set m (entries w)"
    using set_law[OF assms(1) storable_law[OF mm(1,6)] set] by simp
  have lt: "sm_revision m0 < sm_revision m" if "entries w pk = Some m0" for m0
    using that assms(3)[OF that] mm(4) less_plus_one by simp
  then have "StreamMessage_should_store m (entries w pk)"
    using mm(2)
    by (auto simp: StreamMessage_should_store_def StreamMessage_cmp_def then_with_def cmp_of_def split: option.splits)
  then have "entries w' pk = Some m" using e mm(3) by (simp add: entry_set_def)
  moreover have "blob w' = blob w" by (rule act_keepsD[OF set_keeps_blobs set])
  ultimately show ?thesis using e lt mm by blast
qed

lemma save_load_handle:
  assumes "winv w" "cx_link (da_context a) = LinkDirHandle p parent h0 lvl"
    and "save E False (a, w) = (Inr r, (a', w'))"
    and "\<And>bs x. encode_state_bytes E (a, w) = (Inr bs, x) \<Longrightarrow> blob w (h_blake3 (fe_hash E) bs) \<in> {None, Some bs}"
    and "da_context b = da_context a'"
  shows "\<exists>h n. r = Some h \<and> cx_link (da_context a') = LinkDirHandle p parent h lvl
    \<and> load E (b, w') = (Inr (), (b\<lparr>da_last_serialized_len := n, da_state := da_state a\<rparr>, w'))"
proof -
  obtain bs a1 w1 where enc: "encode_state_bytes E (a, w) = (Inr bs, (a1, w1))"
    using assms(3) by (auto simp: save_def act_bind_def split: prod.splits sum.splits)
  note e = encode_state[OF assms(1) enc]
  then obtain i where i: "import_meta E bs w1 = (Inr i, w')" "r = Some (bid_hash i)" "a' = set_link_hash (bid_hash i) a"
    using assms(2,3) enc by (auto simp: save_def act_bind_def split: prod.splits sum.splits)
  have st: "winv w'" "blob w' (bid_hash i) = Some bs"
    using import_stores[OF _ i(1)] e assms(4)[OF enc] by auto
  have ctx: "da_context a' = (da_context a)\<lparr>cx_link := LinkDirHandle p parent (bid_hash i) lvl\<rparr>"
    using i(3) assms(2) by (simp add: set_link_hash_def)
  have dec: "decrypt_if_needed D bs (da_context a') = decrypt_if_needed D bs (da_context a)" for D
    by (simp add: ctx decrypt_if_needed_def split: option.splits)
  obtain n where "load_from E (bid_hash i) (da_context a') w' = Inr (da_state a, n)"
    using load_from_stored[OF st, of "da_context a'" "da_state a"] e by (auto simp: dec)
  then show ?thesis using i(2) ctx assms(5) by (auto simp: load_def act_bind_def)
qed

lemma save_load_registry:
  assumes "winv w" "cx_link (da_context a) = LinkRegistryKey pk (Some sk)"
    and "save E False (a, w) = (Inr r, (a', w'))"
    and "\<And>bs x. encode_state_bytes E (a, w) = (Inr bs, x) \<Longrightarrow> blob w (h_blake3 (fe_hash E) bs) \<in> {None, Some bs}"
    and "\<And>m. entries w pk = Some m \<Longrightarrow> sm_revision m < - 1"
    and "da_context b = da_context a'"
  shows "a' = a \<and> (\<exists>n. load E (b, w') = (Inr (), (b\<lparr>da_last_serialized_len := n, da_state := da_state a\<rparr>, w')))"
proof -
  obtain bs a1 w1 where enc: "encode_state_bytes E (a, w) = (Inr bs, (a1, w1))"
    using assms(3) by (auto simp: save_def act_bind_def split: prod.splits sum.splits)
  note e = encode_state[OF assms(1) enc]
  then obtain i w2 where i: "import_meta E bs w1 = (Inr i, w2)" "publish E pk sk (bid_hash i) w2 = (Inr (), w')" "a' = a"
    using assms(2,3) enc by (auto simp: save_def act_bind_def split: prod.splits sum.splits)
  have st: "winv w2" "blob w2 (bid_hash i) = Some bs" "entries w2 = entries w"
    using import_stores[OF _ i(1)] e assms(4)[OF enc] by auto
  obtain m where m: "winv w'" "blob w' = blob w2" "entries w' pk = Some m" "sm_hash m = bid_hash i"
    using publish_stores[OF st(1) i(2)] assms(5) st(3) by auto
  obtain n where "load_from E (bid_hash i) (da_context a) w' = Inr (da_state a, n)"
    using load_from_stored[of w' "bid_hash i" bs] m st(2) e by auto
  then show ?thesis
    using i(3) assms(2,6) m get_total[OF m(1), of pk] by (auto simp: load_def act_bind_def)
qed

end

section \<open>An in-memory world\<close>

text \<open>The in-memory store, the in-memory registry and files in memory, side by side; the other actors are
  not there. Hashing, codec, cipher, signatures, name hash and the random draws are parameters.\<close>

type_synonym mem_fs = "memory_store \<times> memory_registry \<times> (string, bytes) btree"

definition registry_on_mid :: "memory_registry registry \<Rightarrow> mem_fs registry" where
  "registry_on_mid R =
    \<lparr>rg_get = \<lambda>k w. rg_get R k (fst (snd w)), rg_set = \<lambda>m. on_snd (on_fst (rg_set R m)),
     rg_delete = \<lambda>k. on_snd (on_fst (rg_delete R k))\<rparr>"

definition mem_env ::
  "hashing \<Rightarrow> dir_codec \<Rightarrow> (signing_key \<Rightarrow> bytes \<Rightarrow> bytes) \<Rightarrow> (string \<Rightarrow> u64) \<Rightarrow> fresh \<Rightarrow> mem_fs fs_env" where
  "mem_env H D sign xxh3 x =
    \<lparr>fe_hash = H, fe_codec = D, fe_blobs = BlobStore_new (store_on_fst MemoryStore),
     fe_registry = registry_on_mid MemoryRegistry, fe_pins = None, fe_fresh = \<lambda>w. (x, w), fe_xxh3 = xxh3,
     fe_sign = sign, fe_encode_cursor = \<lambda>(n, k). n, fe_decode_cursor = \<lambda>c. None,
     fe_read_file = \<lambda>p w. (case bt_get (snd (snd w)) p of None \<Rightarrow> Inl (Io NotFound p) | Some c \<Rightarrow> Inr c),
     fe_persist_file = \<lambda>p c. on_snd (on_snd (\<lambda>m. (Inr (), bt_insert p c m))),
     fe_ask = \<lambda>_ _. act_err channel_closed, fe_tell = \<lambda>_ _. act_err channel_closed, fe_upgrade = \<lambda>_ _. False,
     fe_spawn = \<lambda>_ _ _. act_ok 0, fe_autosave_tick_after = \<lambda>_ _. act_ok (), fe_registry_dir = \<lambda>_ _. None, fe_set_registry_dir = \<lambda>_ _. act_ok ()\<rparr>"

definition mem_blob :: "hashing \<Rightarrow> mem_fs \<Rightarrow> hash \<Rightarrow> bytes option" where
  "mem_blob H = blob_at H (store_on_fst MemoryStore) (\<lambda>w. bt_get (fst w))"

definition libs_ok :: "hashing \<Rightarrow> dir_codec \<Rightarrow> fresh \<Rightarrow> bool" where
  "libs_ok H D x \<longleftrightarrow> path_codec_ok (h_codec H) \<and> bao_ok H \<and> bao_total H \<and> dir_codec_ok D \<and> length (fx_nonce x) = 24"

lemma mem_registry_reliable:
  "reliable_registry (registry_on_mid MemoryRegistry) (\<lambda>w. bt_get (fst (snd w))) (\<lambda>w. P) (\<lambda>_. True)"
proof (unfold_locales, goal_cases)
  case (2 w m r w')
  then show ?case
    using memory_registry.set_law[OF TrueI TrueI, of m "fst (snd w)" r "fst (snd w')"]
    by (cases w) (auto simp: registry_on_mid_def split: prod.splits)
next
  case (3 w k r w')
  then show ?case
    using memory_registry.delete_law[OF TrueI, of k "fst (snd w)" r "fst (snd w')"]
    by (cases w) (auto simp: registry_on_mid_def split: prod.splits)
next
  case (5 w m)
  then show ?case
    using memory_registry.set_total[OF TrueI TrueI, of m "fst (snd w)"]
    by (cases w) (auto simp: registry_on_mid_def split: prod.splits)
next
  case (6 w k)
  then show ?case
    using memory_registry.delete_total[OF TrueI, of k "fst (snd w)"]
    by (cases w) (auto simp: registry_on_mid_def split: prod.splits)
qed (auto simp: registry_on_mid_def memory_registry.get_total)

lemma mem_import_law:
  assumes "libs_ok H D x" "import_meta (mem_env H D sg xx x) c w = (r, w')"
  shows "snd w' = snd w
    \<and> (\<forall>h. mem_blob H w' h = mem_blob H w h \<or> h = h_blake3 H c \<and> mem_blob H w h = None \<and> mem_blob H w' h = Some c)
    \<and> (\<forall>i. r = Inr i \<longrightarrow> bid_hash i = h_blake3 H c \<and> mem_blob H w' (h_blake3 H c) \<noteq> None)"
proof -
  let ?S = "store_on_fst MemoryStore :: mem_fs store"
  have step: "BlobStore_import_bytes H (BlobStore_new ?S) (fx_uuid x) c w = (r, w')"
    using assms(2) by (simp add: import_meta_def mem_env_def act_fresh_def act_bind_def)
  have sc: "store_contract ?S (\<lambda>w. bt_get (fst w)) (\<lambda>w. True) (\<lambda>_. True)"
    by (rule memory_store.on_fst_contract)
  have fr: "outboard_frame H ?S (Some ?S) (\<lambda>w. bt_get (fst w)) (\<lambda>w. True) (fx_uuid x)"
    using assms(1) store_contract.outboard_frame_same[OF sc] by (simp add: libs_ok_def)
  have "import_outcome H ?S (\<lambda>w. bt_get (fst w)) (\<lambda>w. True) c w r w'"
    using store_contract.import_bytes_outcome[OF sc _ _ _ _ fr, of c w r w'] assms(1) step
    by (simp add: libs_ok_def BlobStore_import_bytes_def BlobStore_new_def)
  moreover have "snd w' = snd w"
    using act_keepsD[OF BlobStore_import_bytes_keeps step, of snd] store_on_fst_keeps[of id MemoryStore]
    by (auto simp: blobs_keep_def BlobStore_new_def)
  ultimately show ?thesis by (auto simp: import_outcome_def adds_blob_def mem_blob_def is_ok_iff)
qed

lemma mem_blob_fst: "mem_blob H = (\<lambda>w. blob_at H MemoryStore bt_get (fst w))"
  by (simp add: mem_blob_def blob_at_def store_on_fst_def fun_eq_iff)

lemma mem_import_total:
  assumes "libs_ok H D x"
  shows "is_ok (fst (import_meta (mem_env H D sg xx x) c w))"
  using assms reliable_store.import_bytes_total[OF memory_store.on_fst_reliable, of H "Some (store_on_fst MemoryStore)" "fx_uuid x" c w]
  by (simp add: libs_ok_def import_meta_def mem_env_def act_fresh_def act_bind_def BlobStore_import_bytes_def BlobStore_new_def)

interpretation mem_fs: fs_world "mem_env H D sg xx x" "\<lambda>w. bt_get (fst (snd w))" "\<lambda>w. libs_ok H D x" "\<lambda>_. True" "mem_blob H"
  for H D sg xx x
proof -
  have rr: "reliable_registry (fe_registry (mem_env H D sg xx x)) (\<lambda>w. bt_get (fst (snd w))) (\<lambda>w. libs_ok H D x) (\<lambda>_. True)"
    using mem_registry_reliable by (simp add: mem_env_def)
  show "fs_world (mem_env H D sg xx x) (\<lambda>w. bt_get (fst (snd w))) (\<lambda>w. libs_ok H D x) (\<lambda>_. True) (mem_blob H)"
  proof (intro fs_world.intro rr fs_world_axioms.intro, goal_cases)
    case (3 w y w')
    then show ?case by (auto simp: mem_env_def libs_ok_def)
  next
    case (4 w c r w')
    then show ?case using mem_import_law[OF 4] by (simp add: mem_env_def)
  next
    case (5 w h c)
    then show ?case
      using memory_store.read_total
      by (simp add: read_meta_def mem_env_def BlobStore_read_as_bytes_def read_as_bytes_def BlobStore_new_def
          store_on_fst_def mem_blob_def blob_at_def)
  next
    case (6 m)
    then show ?case
      using on_snd_keeps[of "\<lambda>a. blob_at H MemoryStore bt_get a"]
      by (simp add: mem_env_def registry_on_mid_def mem_blob_fst)
  qed (simp_all add: mem_env_def libs_ok_def)
qed

section \<open>Properties\<close>

text \<open>C17. Saving and loading are inverse. A directory saved under a parent (encrypted or not) returns a hash,
  keeps it in its link, and an actor opened from that link loads exactly the saved state. A directory saved
  under a registry key publishes a new revision, and an actor opened on the same key loads exactly the saved
  state, as long as the revision counter has not reached its maximum. In both cases the store must not hold
  different bytes under the hash of the encoding.\<close>

theorem save_load_roundtrip:
  assumes "libs_ok H D x"
    and "save (mem_env H D sg xx x) False (a, w) = (Inr r, (a', w'))"
    and "\<And>bs y. encode_state_bytes (mem_env H D sg xx x) (a, w) = (Inr bs, y) \<Longrightarrow> mem_blob H w (h_blake3 H bs) \<in> {None, Some bs}"
    and "(\<exists>p parent h0 lvl. cx_link (da_context a) = LinkDirHandle p parent h0 lvl)
      \<or> (\<exists>pk sk. cx_link (da_context a) = LinkRegistryKey pk (Some sk)
          \<and> (\<forall>m. bt_get (fst (snd w)) pk = Some m \<longrightarrow> sm_revision m < - 1))"
    and "da_context b = da_context a'"
  shows "\<exists>n. load (mem_env H D sg xx x) (b, w') = (Inr (), (b\<lparr>da_last_serialized_len := n, da_state := da_state a\<rparr>, w'))"
  using assms(4)
proof (elim disjE exE conjE)
  fix p parent h0 lvl
  assume "cx_link (da_context a) = LinkDirHandle p parent h0 lvl"
  from mem_fs.save_load_handle[OF assms(1) this assms(2) _ assms(5)] assms(3) show ?thesis by (auto simp: mem_env_def)
next
  fix pk sk
  assume "cx_link (da_context a) = LinkRegistryKey pk (Some sk)" "\<forall>m. bt_get (fst (snd w)) pk = Some m \<longrightarrow> sm_revision m < - 1"
  from mem_fs.save_load_registry[OF assms(1) this(1) assms(2) _ _ assms(5)] this(2) assms(3) show ?thesis
    by (auto simp: mem_env_def)
qed

definition demo_mem_env :: "mem_fs fs_env" where
  "demo_mem_env = mem_env demo_hashing demo_dir_codec (\<lambda>_ _. replicate 64 0) (\<lambda>s. of_nat (length s)) demo_fresh"

definition demo_child :: "dir_v1 \<Rightarrow> dir_actor" where
  "demo_child st = (DirActor_new (DirContext_new (LinkDirHandle (HandlePath ''d'') 0 (fill32 0) 0)) None None)\<lparr>da_state := st\<rparr>"

lemma demo_libs_ok: "libs_ok demo_hashing demo_dir_codec demo_fresh"
  by (simp add: libs_ok_def demo_dir_codec_ok demo_fresh_def)

theorem save_load_roundtrip_witness:
  "\<exists>r a' w' n. save demo_mem_env False (demo_child DirV1_new_web_app, (MemoryStore_new, MemoryRegistry_new, bt_empty)) = (Inr r, (a', w'))
    \<and> load demo_mem_env (a', w') = (Inr (), (a'\<lparr>da_last_serialized_len := n, da_state := DirV1_new_web_app\<rparr>, w'))"
proof -
  let ?a = "demo_child DirV1_new_web_app" and ?w = "(MemoryStore_new, MemoryRegistry_new, bt_empty) :: mem_fs"
  have enc: "encode_state_bytes demo_mem_env (?a, ?w) = (Inr (DirV1_to_bytes demo_dir_codec DirV1_new_web_app), (?a, ?w))"
    by (simp add: encode_state_bytes_def act_bind_def demo_mem_env_def mem_env_def demo_child_def DirActor_new_def DirContext_new_def)
  obtain i w' where i: "import_meta demo_mem_env (DirV1_to_bytes demo_dir_codec DirV1_new_web_app) ?w = (Inr i, w')"
    using is_ok_fstD[OF mem_import_total[OF demo_libs_ok]] unfolding demo_mem_env_def by blast
  have sv: "save demo_mem_env False (?a, ?w) = (Inr (Some (bid_hash i)), (set_link_hash (bid_hash i) ?a, w'))"
    using enc i by (simp add: save_def act_bind_def demo_child_def DirActor_new_def DirContext_new_def)
  have "mem_blob demo_hashing ?w h = None" for h by (simp add: mem_blob_fst blob_at_def MemoryStore_new_def)
  then have "\<exists>n. load demo_mem_env (set_link_hash (bid_hash i) ?a, w')
      = (Inr (), ((set_link_hash (bid_hash i) ?a)\<lparr>da_last_serialized_len := n, da_state := da_state ?a\<rparr>, w'))"
    using save_load_roundtrip[OF demo_libs_ok sv[unfolded demo_mem_env_def], of "set_link_hash (bid_hash i) ?a"]
    by (simp add: demo_mem_env_def[symmetric] demo_child_def DirActor_new_def DirContext_new_def)
  moreover have "da_state ?a = DirV1_new_web_app" by (simp add: demo_child_def)
  ultimately show ?thesis using sv by auto
qed

end
