(* ===== verification/Sharding.thy ===== *)
theory Sharding
  imports Persistence
begin

text \<open>
  Subdirectories, promotion of path prefixes and sharding: \<^verbatim>\<open>s5_fs/src/actor/sharding.rs\<close> and the functions
  of \<^verbatim>\<open>s5_fs/src/actor.rs\<close> that open children. The name hash XXH3 is a field of the environment.
\<close>

unbundle bit_operations_syntax

section \<open>Names and buckets\<close>

definition MAX_DIR_BYTES_BEFORE_SHARD :: nat where
  "MAX_DIR_BYTES_BEFORE_SHARD = 65536"

definition MAX_SHARD_LEVEL :: u8 where
  "MAX_SHARD_LEVEL = 7"

definition SHARD_SIZE_CHECK_OP_INTERVAL :: u64 where
  "SHARD_SIZE_CHECK_OP_INTERVAL = 128"

definition FS5_PROMOTION_THRESHOLD :: nat where
  "FS5_PROMOTION_THRESHOLD = 10"

text \<open>The assertion of \<^verbatim>\<open>shard_bucket_for\<close> fails with a panic, which ends the actor: \<open>None\<close> here, the error
  \<open>panicked\<close> in a handler.\<close>

definition panicked :: error where
  "panicked = Anyhow ''panicked''"

definition shard_index :: "(string \<Rightarrow> u64) \<Rightarrow> string \<Rightarrow> u8 \<Rightarrow> u8" where
  "shard_index xxh3 name shard_level = ucast (drop_bit (8 * unat shard_level) (xxh3 name) AND 0xFF)"

definition shard_bucket_for :: "(string \<Rightarrow> u64) \<Rightarrow> string \<Rightarrow> u8 \<Rightarrow> u8 option" where
  "shard_bucket_for xxh3 name shard_level =
    (if shard_level \<le> MAX_SHARD_LEVEL then Some (shard_index xxh3 name shard_level) else None)"

definition starts_with :: "string \<Rightarrow> string \<Rightarrow> bool" where
  "starts_with p s \<longleftrightarrow> take (length p) s = p"

definition prefix_slash :: "string \<Rightarrow> string" where
  "prefix_slash p = p @ ''/''"

section \<open>Child directories\<close>

text \<open>The files below a prefix move into a new directory, under their names relative to it.\<close>

definition extract_child_dir_state :: "string \<Rightarrow> dir_v1 \<Rightarrow> dir_v1 \<times> dir_v1" where
  "extract_child_dir_state p state =
    (let matching_keys = filter (starts_with (prefix_slash p)) (bt_keys (dv_files state))
     in fold (\<lambda>file_path (new_dir_state, state).
          case bt_get (dv_files state) file_path of
            Some file_ref \<Rightarrow>
              (new_dir_state\<lparr>dv_files := bt_insert (drop (length (prefix_slash p)) file_path) file_ref (dv_files new_dir_state)\<rparr>,
               state\<lparr>dv_files := bt_remove file_path (dv_files state)\<rparr>)
          | None \<Rightarrow> (new_dir_state, state)) matching_keys (DirV1_new, state))"

definition build_child_dir_ref :: "bool \<Rightarrow> dir_context \<Rightarrow> fresh \<Rightarrow> dir_ref" where
  "build_child_dir_ref enable_encryption context x =
    (let keys = (if enable_encryption then bt_insert 0x0e (fx_key x) bt_empty else bt_empty);
         (ref_type, h) = (if cx_signing_key context \<noteq> None then (Some DirRegistryKey, fx_pointer x) else (None, fill32 0))
     in \<lparr>dr_ref_type = ref_type, dr_hash = h, dr_ts_seconds = Some (fx_seconds x), dr_ts_nanos = Some (fx_nanos x),
         dr_keys = (if enable_encryption then Some keys else None),
         dr_encryption_type = (if enable_encryption then Some ENCRYPTION_TYPE_XCHACHA20_POLY1305 else None),
         dr_extra = None\<rparr>)"

text \<open>A reference to a child snapshot that was just stored.\<close>

definition stored_dir_ref :: "dir_context \<Rightarrow> hash \<Rightarrow> (u8, bytes32) btree option \<Rightarrow> fresh \<Rightarrow> dir_ref" where
  "stored_dir_ref context h keys now =
    \<lparr>dr_ref_type = None, dr_hash = h, dr_ts_seconds = Some (fx_seconds now), dr_ts_nanos = Some (fx_nanos now),
     dr_keys = keys,
     dr_encryption_type =
       (if cx_encryption_type context \<noteq> None then Some ENCRYPTION_TYPE_XCHACHA20_POLY1305 else None),
     dr_extra = None\<rparr>"

definition store_child :: "'w fs_env \<Rightarrow> dir_context \<Rightarrow> dir_v1 \<Rightarrow> ('w, dir_ref) action" where
  "store_child E context state =
    act_bind (act_fresh E) (\<lambda>now.
    act_bind (encode_child_dir_bytes E state context) (\<lambda>(bs, keys).
    act_bind (import_meta E bs) (\<lambda>blob_id.
    act_ok (stored_dir_ref context (bid_hash blob_id) keys now))))"

definition open_dir :: "'w fs_env \<Rightarrow> string \<Rightarrow> dir_v1 option \<Rightarrow> ('w, actor_id) handler" where
  "open_dir E sub_path initial_state =
    act_bind (self_get id) (\<lambda>self.
    case bt_get (da_dir_handles self) sub_path of
      Some handle \<Rightarrow> act_ok handle
    | None \<Rightarrow>
       (case bt_get (dv_dirs (da_state self)) sub_path of
          None \<Rightarrow> act_err (Anyhow ''dir not found'')
        | Some dir_ref \<Rightarrow>
           (case DirRef_ref_type dir_ref of
              DirBlake3Hash \<Rightarrow>
                (case da_handle self of
                   None \<Rightarrow> act_err (Anyhow ''actor has no handle'')
                 | Some me \<Rightarrow>
                    let link = LinkDirHandle (HandlePath sub_path) me (dr_hash dir_ref) 0;
                        context = DirContext_with_new_ref (da_context self) dir_ref link
                    in act_bind (on_snd (fe_spawn E context initial_state (da_autosave_debounce_ms self))) (\<lambda>handle.
                       act_bind (self_set (\<lambda>a. a\<lparr>da_dir_handles := bt_insert sub_path handle (da_dir_handles a)\<rparr>)) (\<lambda>_.
                       act_ok handle)))
            | DirRegistryKey \<Rightarrow>
                let key = PublicKeyEd25519 (dr_hash dir_ref)
                in act_bind (on_snd (act_read (\<lambda>w. Inr (fe_registry_dir E key w)))) (\<lambda>known.
                   case known of
                     Some handle \<Rightarrow> act_ok handle
                   | None \<Rightarrow>
                      let link = LinkRegistryKey key (cx_signing_key (da_context self));
                          context = DirContext_with_new_ref (da_context self) dir_ref link
                      in act_bind (on_snd (fe_spawn E context initial_state (da_autosave_debounce_ms self))) (\<lambda>handle.
                         act_bind (on_snd (fe_set_registry_dir E key handle)) (\<lambda>_.
                         act_bind (self_set (\<lambda>a. a\<lparr>da_dir_handles := bt_insert sub_path handle (da_dir_handles a)\<rparr>)) (\<lambda>_.
                         act_ok handle)))))))"

definition create_dir_at :: "'w fs_env \<Rightarrow> string \<Rightarrow> bool \<Rightarrow> ('w, unit) handler" where
  "create_dir_at E path enable_encryption =
    act_bind (self_get id) (\<lambda>self.
    if bt_contains (dv_dirs (da_state self)) path then act_ok ()
    else
      let (new_dir_state, state) = extract_child_dir_state path (da_state self)
      in act_bind (on_snd (act_fresh E)) (\<lambda>x.
         let dir_ref = build_child_dir_ref enable_encryption (da_context self) x
         in act_bind (self_set (\<lambda>a. a\<lparr>da_state := state\<lparr>dv_dirs := bt_insert path dir_ref (dv_dirs state)\<rparr>\<rparr>)) (\<lambda>_.
            act_bind (open_dir E path (Some new_dir_state)) (\<lambda>_.
            mark_as_dirty E))))"

section \<open>Promotion\<close>

text \<open>The files of a directory grouped by their first path segment; the groups are visited in the order of
  their names. The recursion descends one segment per call: \<open>fuel\<close> bounds the number of segments.\<close>

definition prefix_groups :: "dir_v1 \<Rightarrow> (string \<times> string list) list" where
  "prefix_groups state =
    (let firsts = [fst pr. path \<leftarrow> bt_keys (dv_files state), pr \<leftarrow> (case split_once path of Some pr \<Rightarrow> [pr] | None \<Rightarrow> [])]
     in map (\<lambda>p. (p, [path \<leftarrow> bt_keys (dv_files state). map_option fst (split_once path) = Some p]))
          (remdups firsts))"

definition move_paths :: "string \<Rightarrow> string list \<Rightarrow> dir_v1 \<Rightarrow> dir_v1 \<times> dir_v1" where
  "move_paths p paths state =
    fold (\<lambda>path (child_state, state).
      case bt_get (dv_files state) path of
        Some file_ref \<Rightarrow>
          (child_state\<lparr>dv_files := bt_insert (drop (length (prefix_slash p)) path) file_ref (dv_files child_state)\<rparr>,
           state\<lparr>dv_files := bt_remove path (dv_files state)\<rparr>)
      | None \<Rightarrow> (child_state, state)) paths (DirV1_new, state)"

fun optimize_dir_structure :: "nat \<Rightarrow> 'w fs_env \<Rightarrow> dir_context \<Rightarrow> dir_v1 \<Rightarrow> ('w, dir_v1) action"
  and optimize_groups ::
    "nat \<Rightarrow> 'w fs_env \<Rightarrow> dir_context \<Rightarrow> (string \<times> string list) list \<Rightarrow> dir_v1 \<Rightarrow> ('w, dir_v1) action" where
  "optimize_dir_structure 0 E context state = act_err (Anyhow ''out of fuel'')"
| "optimize_dir_structure (Suc fuel) E context state = optimize_groups fuel E context (prefix_groups state) state"
| "optimize_groups fuel E context [] state = act_ok state"
| "optimize_groups fuel E context ((p, paths) # groups) state =
    (if length paths > FS5_PROMOTION_THRESHOLD then
       let (child_state, state) = move_paths p paths state
       in act_bind (optimize_dir_structure fuel E context child_state) (\<lambda>optimized_child.
          act_bind (store_child E context optimized_child) (\<lambda>dir_ref.
          optimize_groups fuel E context groups (state\<lparr>dv_dirs := bt_insert p dir_ref (dv_dirs state)\<rparr>)))
     else optimize_groups fuel E context groups state)"

text \<open>More segments than the longest path has characters cannot occur.\<close>

definition path_fuel :: "dir_v1 \<Rightarrow> nat" where
  "path_fuel state = Suc (Max (insert 0 (length ` set (bt_keys (dv_files state)))))"

definition promote_prefix :: "'w fs_env \<Rightarrow> string \<Rightarrow> ('w, unit) handler" where
  "promote_prefix E p =
    act_bind (self_get id) (\<lambda>self.
    if bt_contains (dv_dirs (da_state self)) p then act_ok ()
    else
      let (new_dir_state, state) = extract_child_dir_state p (da_state self);
          enable_encryption = cx_encryption_type (da_context self) \<noteq> None
      in act_bind (on_snd (act_fresh E)) (\<lambda>x.
         let dir_ref = build_child_dir_ref enable_encryption (da_context self) x
         in act_bind (self_set (\<lambda>a. a\<lparr>da_state := state\<lparr>dv_dirs := bt_insert p dir_ref (dv_dirs state)\<rparr>\<rparr>)) (\<lambda>_.
            act_bind (on_snd (optimize_dir_structure (path_fuel new_dir_state) E (da_context self) new_dir_state)) (\<lambda>optimized_state.
            act_bind (open_dir E p (Some optimized_state)) (\<lambda>_. act_ok ())))))"

definition check_auto_promote :: "'w fs_env \<Rightarrow> string \<Rightarrow> ('w, unit) handler" where
  "check_auto_promote E path =
    (case split_once path of
       None \<Rightarrow> act_ok ()
     | Some (p, _) \<Rightarrow>
        act_bind (self_get da_state) (\<lambda>state.
        let count = length (filter (starts_with (prefix_slash p)) (bt_keys (dv_files state)))
        in if count > FS5_PROMOTION_THRESHOLD then promote_prefix E p else act_ok ()))"

section \<open>Shards\<close>

definition open_dir_shard_impl :: "'w fs_env \<Rightarrow> u8 \<Rightarrow> dir_v1 option \<Rightarrow> ('w, actor_id) handler" where
  "open_dir_shard_impl E index initial_state =
    act_bind (self_get id) (\<lambda>self.
    case bt_get (da_dir_shard_handles self) index of
      Some handle \<Rightarrow> act_ok handle
    | None \<Rightarrow>
       (case (case dh_shards (dv_header (da_state self)) of None \<Rightarrow> None | Some s \<Rightarrow> bt_get s index) of
          None \<Rightarrow> act_err (Anyhow ''shard not found'')
        | Some dir_ref \<Rightarrow>
           (case DirRef_ref_type dir_ref of
              DirRegistryKey \<Rightarrow> act_err (Anyhow ''dir shards can only be blake3 hash dir refs'')
            | DirBlake3Hash \<Rightarrow>
               (case dh_shard_level (dv_header (da_state self)) of
                  None \<Rightarrow> act_err (Anyhow ''missing shard level in parent when opening shard'')
                | Some parent_shard_level \<Rightarrow>
                   if parent_shard_level = 255 then act_err (Anyhow ''shard level overflow'')
                   else
                     let child_shard_level = parent_shard_level + 1
                     in if child_shard_level > MAX_SHARD_LEVEL then act_err (Anyhow ''shard level exceeds maximum allowed level'')
                        else
                          (case da_handle self of
                             None \<Rightarrow> act_err (Anyhow ''actor has no handle'')
                           | Some me \<Rightarrow>
                              let link = LinkDirHandle (HandleShard index) me (dr_hash dir_ref) child_shard_level;
                                  context = DirContext_with_new_ref (da_context self) dir_ref link
                              in act_bind (on_snd (fe_spawn E context initial_state (da_autosave_debounce_ms self))) (\<lambda>handle.
                                 act_bind (self_set (\<lambda>a. a\<lparr>da_dir_shard_handles := bt_insert index handle (da_dir_shard_handles a)\<rparr>)) (\<lambda>_.
                                 act_ok handle)))))))"

definition put_shard_dir :: "(string \<Rightarrow> u64) \<Rightarrow> u8 \<Rightarrow> string \<times> dir_ref \<Rightarrow> dir_v1 list \<Rightarrow> dir_v1 list" where
  "put_shard_dir xxh3 level e shard_states =
    (case e of (name, dir_ref) \<Rightarrow>
       let index = unat (shard_index xxh3 name level); s = shard_states ! index
       in shard_states[index := s\<lparr>dv_dirs := bt_insert name dir_ref (dv_dirs s)\<rparr>])"

definition put_shard_file :: "(string \<Rightarrow> u64) \<Rightarrow> u8 \<Rightarrow> string \<times> file_ref \<Rightarrow> dir_v1 list \<Rightarrow> dir_v1 list" where
  "put_shard_file xxh3 level e shard_states =
    (case e of (name, file_ref) \<Rightarrow>
       let index = unat (shard_index xxh3 name level); s = shard_states ! index
       in shard_states[index := s\<lparr>dv_files := bt_insert name file_ref (dv_files s)\<rparr>])"

definition shard_states :: "(string \<Rightarrow> u64) \<Rightarrow> u8 \<Rightarrow> dir_v1 \<Rightarrow> dir_v1 list" where
  "shard_states xxh3 level state =
    fold (put_shard_file xxh3 level) (bt_entries (dv_files state))
      (fold (put_shard_dir xxh3 level) (bt_entries (dv_dirs state)) (replicate 256 DirV1_new))"

definition set_shards :: "((u8, dir_ref) btree option \<Rightarrow> (u8, dir_ref) btree option) \<Rightarrow> dir_actor \<Rightarrow> dir_actor" where
  "set_shards f a = a\<lparr>da_state := (da_state a)\<lparr>dv_header := (dv_header (da_state a))\<lparr>dh_shards := f (dh_shards (dv_header (da_state a)))\<rparr>\<rparr>\<rparr>"

fun persist_shards :: "'w fs_env \<Rightarrow> (nat \<times> dir_v1) list \<Rightarrow> ('w, unit) handler" where
  "persist_shards E [] = act_ok ()"
| "persist_shards E ((i, shard_state) # rest) =
    (if bt_is_empty (dv_dirs shard_state) \<and> bt_is_empty (dv_files shard_state) then persist_shards E rest
     else
       act_bind (self_set (set_shards (\<lambda>s. case s of None \<Rightarrow> Some bt_empty | Some m \<Rightarrow> Some m))) (\<lambda>_.
       act_bind (self_get da_context) (\<lambda>context.
       act_bind (on_snd (store_child E context shard_state)) (\<lambda>dir_ref.
       act_bind (self_set (set_shards (map_option (bt_insert (of_nat i) dir_ref)))) (\<lambda>_.
       act_bind (open_dir_shard_impl E (of_nat i) None) (\<lambda>_.
       persist_shards E rest))))))"

definition shard :: "'w fs_env \<Rightarrow> ('w, unit) handler" where
  "shard E =
    act_bind (self_get id) (\<lambda>self.
    if dh_shard_level (dv_header (da_state self)) \<noteq> None then act_err (Anyhow ''already sharded; cannot shard again'')
    else
      let shard_level = (case cx_link (da_context self) of LinkDirHandle _ _ _ l \<Rightarrow> l | _ \<Rightarrow> 0)
      in act_bind (self_set (\<lambda>a. a\<lparr>da_state := (da_state a)\<lparr>dv_header := (dv_header (da_state a))\<lparr>dh_shard_level := Some shard_level\<rparr>\<rparr>\<rparr>)) (\<lambda>_.
         act_bind (persist_shards E (enumerate 0 (shard_states (fe_xxh3 E) shard_level (da_state self)))) (\<lambda>_.
         act_bind (self_set (set_shards (\<lambda>s. case s of Some m \<Rightarrow> if bt_is_empty m then None else Some m | None \<Rightarrow> None))) (\<lambda>_.
         self_set (\<lambda>a. a\<lparr>da_state := (da_state a)\<lparr>dv_dirs := bt_empty, dv_files := bt_empty\<rparr>\<rparr>)))))"

definition shard_if_needed :: "'w fs_env \<Rightarrow> ('w, unit) handler" where
  "shard_if_needed E =
    act_bind (self_get id) (\<lambda>self.
    if dh_shard_level (dv_header (da_state self)) \<noteq> None then act_ok ()
    else if da_last_serialized_len self < MAX_DIR_BYTES_BEFORE_SHARD
        \<and> da_shard_size_check_ops self < SHARD_SIZE_CHECK_OP_INTERVAL then act_ok ()
    else
      let exact_len = length (DirV1_to_bytes (fe_codec E) (da_state self))
      in act_bind (self_set (\<lambda>a. a\<lparr>da_last_serialized_len := exact_len, da_shard_size_check_ops := 0\<rparr>)) (\<lambda>_.
         if exact_len \<ge> MAX_DIR_BYTES_BEFORE_SHARD then shard E else act_ok ()))"

section \<open>Moving files below a prefix\<close>

lemma starts_with_append [simp]: "starts_with p (p @ s)"
  by (simp add: starts_with_def)

lemma starts_with_drop: "starts_with p s \<Longrightarrow> p @ drop (length p) s = s"
  unfolding starts_with_def by (metis append_take_drop_id)

lemma extract_is_move:
  "extract_child_dir_state p st = move_paths p (filter (starts_with (prefix_slash p)) (bt_keys (dv_files st))) st"
  by (simp add: extract_child_dir_state_def move_paths_def)

lemma move_paths_fold:
  assumes "distinct ks" "\<forall>k \<in> set ks. starts_with q k"
  shows "\<exists>child' st'. fold (\<lambda>path (child_state, state).
      case bt_get (dv_files state) path of
        Some file_ref \<Rightarrow>
          (child_state\<lparr>dv_files := bt_insert (drop (length q) path) file_ref (dv_files child_state)\<rparr>,
           state\<lparr>dv_files := bt_remove path (dv_files state)\<rparr>)
      | None \<Rightarrow> (child_state, state)) ks (child, st) = (child', st')
    \<and> (\<forall>k. bt_get (dv_files child') k =
          (if q @ k \<in> set ks \<and> bt_get (dv_files st) (q @ k) \<noteq> None then bt_get (dv_files st) (q @ k)
           else bt_get (dv_files child) k))
    \<and> (\<forall>k. bt_get (dv_files st') k = (if k \<in> set ks then None else bt_get (dv_files st) k))
    \<and> dv_dirs child' = dv_dirs child \<and> dv_header child' = dv_header child
    \<and> dv_dirs st' = dv_dirs st \<and> dv_header st' = dv_header st"
  using assms
proof (induction ks arbitrary: child st)
  case (Cons x ks)
  have x: "q @ drop (length q) x = x" using Cons.prems(2) starts_with_drop by auto
  have inj: "k = drop (length q) x" if "q @ k = x" for k using that by auto
  let ?step = "case bt_get (dv_files st) x of
      Some file_ref \<Rightarrow> (child\<lparr>dv_files := bt_insert (drop (length q) x) file_ref (dv_files child)\<rparr>,
           st\<lparr>dv_files := bt_remove x (dv_files st)\<rparr>)
    | None \<Rightarrow> (child, st)"
  obtain c1 s1 where step: "?step = (c1, s1)" by fastforce
  have c1: "bt_get (dv_files c1) k = (if q @ k = x \<and> bt_get (dv_files st) x \<noteq> None then bt_get (dv_files st) x else bt_get (dv_files child) k)"
    and s1: "bt_get (dv_files s1) k = (if k = x then None else bt_get (dv_files st) k)"
    and fr: "dv_dirs c1 = dv_dirs child \<and> dv_header c1 = dv_header child \<and> dv_dirs s1 = dv_dirs st \<and> dv_header s1 = dv_header st" for k
    using step x inj[of k] by (auto split: option.splits)
  obtain c2 s2 where IH: "fold (\<lambda>path (child_state, state).
      case bt_get (dv_files state) path of
        Some file_ref \<Rightarrow>
          (child_state\<lparr>dv_files := bt_insert (drop (length q) path) file_ref (dv_files child_state)\<rparr>,
           state\<lparr>dv_files := bt_remove path (dv_files state)\<rparr>)
      | None \<Rightarrow> (child_state, state)) ks (c1, s1) = (c2, s2)"
    "\<forall>k. bt_get (dv_files c2) k =
          (if q @ k \<in> set ks \<and> bt_get (dv_files s1) (q @ k) \<noteq> None then bt_get (dv_files s1) (q @ k)
           else bt_get (dv_files c1) k)"
    "\<forall>k. bt_get (dv_files s2) k = (if k \<in> set ks then None else bt_get (dv_files s1) k)"
    "dv_dirs c2 = dv_dirs c1 \<and> dv_header c2 = dv_header c1 \<and> dv_dirs s2 = dv_dirs s1 \<and> dv_header s2 = dv_header s1"
    using Cons.IH[of c1 s1] Cons.prems by auto
  show ?case
    using IH step Cons.prems(1) c1 s1 fr by (intro exI[of _ c2] exI[of _ s2]) auto
qed simp

lemma move_paths_files:
  assumes "distinct ks" "\<forall>k \<in> set ks. starts_with (prefix_slash p) k" "move_paths p ks st = (child, st')"
  shows "bt_get (dv_files child) k = (if prefix_slash p @ k \<in> set ks then bt_get (dv_files st) (prefix_slash p @ k) else None)"
    "bt_get (dv_files st') k = (if k \<in> set ks then None else bt_get (dv_files st) k)"
    "dv_dirs child = bt_empty" "dv_header child = DirHeader_new" "dv_dirs st' = dv_dirs st" "dv_header st' = dv_header st"
  using move_paths_fold[OF assms(1,2), of DirV1_new st] assms(3) by (auto simp: move_paths_def DirV1_new_def)

lemma extract_child_files:
  assumes "extract_child_dir_state p st = (child, st')"
  shows "bt_get (dv_files child) k = bt_get (dv_files st) (prefix_slash p @ k)"
    "bt_get (dv_files st') k = (if starts_with (prefix_slash p) k then None else bt_get (dv_files st) k)"
    "dv_dirs child = bt_empty" "dv_dirs st' = dv_dirs st" "dv_header st' = dv_header st"
proof -
  let ?ks = "filter (starts_with (prefix_slash p)) (bt_keys (dv_files st))"
  have ks: "distinct ?ks" "\<forall>k \<in> set ?ks. starts_with (prefix_slash p) k" by simp_all
  note m = move_paths_files[OF ks assms[unfolded extract_is_move]]
  show "bt_get (dv_files child) k = bt_get (dv_files st) (prefix_slash p @ k)"
    by (cases "bt_get (dv_files st) (prefix_slash p @ k)") (simp_all add: m(1) bt_keys_iff)
  show "bt_get (dv_files st') k = (if starts_with (prefix_slash p) k then None else bt_get (dv_files st) k)"
    by (cases "bt_get (dv_files st) k") (simp_all add: m(2) bt_keys_iff)
  show "dv_dirs child = bt_empty" "dv_dirs st' = dv_dirs st" "dv_header st' = dv_header st"
    using m(3,5,6) by simp_all
qed

section \<open>Buckets\<close>

lemma shard_index_less: "unat (shard_index x n l) < 256"
  using unsigned_less[of "shard_index x n l", where 'a = nat] by simp

lemma unat_shard_index: "unat (shard_index x n l) = unat (x n) div 2 ^ (8 * unat l) mod 256"
proof -
  have "(0xFF :: u64) = mask 8" by (simp add: mask_eq_exp_minus_1)
  then have "shard_index x n l = ucast (take_bit 8 (drop_bit (8 * unat l) (x n)))"
    by (simp only: shard_index_def take_bit_eq_mask)
  then show ?thesis
    using unsigned_less[of "x n", where 'a = nat]
    by (simp add: unsigned_ucast_eq unsigned_take_bit_eq unsigned_drop_bit_eq)
       (simp add: take_bit_eq_mod drop_bit_eq_div)
qed

lemma put_shard_dir_nth:
  assumes "length v = 256"
  shows "length (put_shard_dir x l (n, d) v) = 256"
    "i < 256 \<Longrightarrow> put_shard_dir x l (n, d) v ! i =
      (if i = unat (shard_index x n l) then (v ! i)\<lparr>dv_dirs := bt_insert n d (dv_dirs (v ! i))\<rparr> else v ! i)"
  using assms by (auto simp: put_shard_dir_def Let_def)

lemma put_shard_file_nth:
  assumes "length v = 256"
  shows "length (put_shard_file x l (n, f) v) = 256"
    "i < 256 \<Longrightarrow> put_shard_file x l (n, f) v ! i =
      (if i = unat (shard_index x n l) then (v ! i)\<lparr>dv_files := bt_insert n f (dv_files (v ! i))\<rparr> else v ! i)"
  using assms by (auto simp: put_shard_file_def Let_def)

lemma put_shard_dirs_nth:
  assumes "length v = 256" "distinct (map fst xs)"
  shows "length (fold (put_shard_dir x l) xs v) = 256
    \<and> (\<forall>i < 256. dv_files (fold (put_shard_dir x l) xs v ! i) = dv_files (v ! i)
        \<and> dv_header (fold (put_shard_dir x l) xs v ! i) = dv_header (v ! i)
        \<and> dv_magic (fold (put_shard_dir x l) xs v ! i) = dv_magic (v ! i)
        \<and> (\<forall>n. bt_get (dv_dirs (fold (put_shard_dir x l) xs v ! i)) n =
            (if i = unat (shard_index x n l) \<and> map_of xs n \<noteq> None then map_of xs n else bt_get (dv_dirs (v ! i)) n)))"
  using assms
proof (induction xs arbitrary: v)
  case (Cons e xs)
  obtain n d where e: "e = (n, d)" by (cases e)
  note v1 = put_shard_dir_nth[OF Cons.prems(1), where x = x and l = l and n = n and d = d]
  have "map_of xs n = None" using Cons.prems(2) e by (auto simp: map_of_eq_None_iff)
  with Cons.IH[OF v1(1)] Cons.prems(2) v1(2) e show ?case by auto
qed simp

lemma put_shard_files_nth:
  assumes "length v = 256" "distinct (map fst xs)"
  shows "length (fold (put_shard_file x l) xs v) = 256
    \<and> (\<forall>i < 256. dv_dirs (fold (put_shard_file x l) xs v ! i) = dv_dirs (v ! i)
        \<and> dv_header (fold (put_shard_file x l) xs v ! i) = dv_header (v ! i)
        \<and> dv_magic (fold (put_shard_file x l) xs v ! i) = dv_magic (v ! i)
        \<and> (\<forall>n. bt_get (dv_files (fold (put_shard_file x l) xs v ! i)) n =
            (if i = unat (shard_index x n l) \<and> map_of xs n \<noteq> None then map_of xs n else bt_get (dv_files (v ! i)) n)))"
  using assms
proof (induction xs arbitrary: v)
  case (Cons e xs)
  obtain n d where e: "e = (n, d)" by (cases e)
  note v1 = put_shard_file_nth[OF Cons.prems(1), where x = x and l = l and n = n and f = d]
  have "map_of xs n = None" using Cons.prems(2) e by (auto simp: map_of_eq_None_iff)
  with Cons.IH[OF v1(1)] Cons.prems(2) v1(2) e show ?case by auto
qed simp

lemma entries_distinct: "distinct (map fst (bt_entries m))"
  using bt_keys_distinct[of m] by (simp add: bt_keys_def)

text \<open>Bucket \<open>i\<close> holds exactly the entries whose name hashes to \<open>i\<close>.\<close>

lemma shard_states_nth:
  assumes "i < 256"
  shows "length (shard_states x l st) = 256"
    "bt_get (dv_dirs (shard_states x l st ! i)) n = (if i = unat (shard_index x n l) then bt_get (dv_dirs st) n else None)"
    "bt_get (dv_files (shard_states x l st ! i)) n = (if i = unat (shard_index x n l) then bt_get (dv_files st) n else None)"
    "dv_header (shard_states x l st ! i) = DirHeader_new"
proof -
  let ?v = "fold (put_shard_dir x l) (bt_entries (dv_dirs st)) (replicate 256 DirV1_new)"
  note d = put_shard_dirs_nth[of "replicate 256 DirV1_new" "bt_entries (dv_dirs st)" x l, OF _ entries_distinct, simplified]
  note f = put_shard_files_nth[of ?v "bt_entries (dv_files st)" x l, OF _ entries_distinct]
  show "length (shard_states x l st) = 256" using d f by (simp add: shard_states_def)
  show "bt_get (dv_dirs (shard_states x l st ! i)) n = (if i = unat (shard_index x n l) then bt_get (dv_dirs st) n else None)"
    "bt_get (dv_files (shard_states x l st ! i)) n = (if i = unat (shard_index x n l) then bt_get (dv_files st) n else None)"
    "dv_header (shard_states x l st ! i) = DirHeader_new"
    using d f assms by (auto simp: shard_states_def bt_get_map_of DirV1_new_def)
qed

section \<open>What a reference stands for\<close>

text \<open>A reference stands for a state when its hash is the hash of an encoding of that state that the keys
  of the reference decrypt, and the store holds a blob under that hash.\<close>

definition refers ::
  "'w fs_env \<Rightarrow> (hash \<Rightarrow> bytes option) \<Rightarrow> dir_context \<Rightarrow> dir_ref \<Rightarrow> dir_v1 \<Rightarrow> bool" where
  "refers E b context dir_ref st \<longleftrightarrow>
    (\<exists>bs. dr_hash dir_ref = h_blake3 (fe_hash E) bs \<and> b (dr_hash dir_ref) \<noteq> None
      \<and> (\<forall>link. res_bind (decrypt_if_needed (fe_codec E) bs (DirContext_with_new_ref context dir_ref link))
           (DirV1_from_bytes (fe_codec E)) = Inr st))"

lemma refers_mono: "refers E b ctx r st \<Longrightarrow> b \<subseteq>\<^sub>m b' \<Longrightarrow> refers E b' ctx r st"
  unfolding refers_def map_le_def by (metis domI not_None_eq)

definition encrypts :: "dir_context \<Rightarrow> bool" where
  "encrypts context \<longleftrightarrow> cx_encryption_type context \<noteq> None"

locale actor_world = fs_world E entries winv storable blob
  for E :: "'w fs_env" and entries winv storable blob +
  assumes spawn_law: "winv w \<Longrightarrow> fe_spawn E c i m w = (r, w') \<Longrightarrow> winv w' \<and> blob w \<subseteq>\<^sub>m blob w'"
begin

lemma import_grows:
  assumes "winv w" "import_meta E c w = (r, w')"
  shows "winv w' \<and> blob w \<subseteq>\<^sub>m blob w'"
  using import_law[OF assms] unfolding map_le_def by (metis domD option.distinct(1))

lemma encode_child:
  assumes "winv w" "encode_child_dir_bytes E st ctx w = (r, w')"
  shows "winv w' \<and> blob w' = blob w \<and> (\<forall>bs keys now h link ctx2. r = Inr (bs, keys) \<longrightarrow> encrypts ctx2 = encrypts ctx \<longrightarrow>
    res_bind (decrypt_if_needed (fe_codec E) bs (DirContext_with_new_ref ctx2 (stored_dir_ref ctx h keys now) link))
      (DirV1_from_bytes (fe_codec E)) = Inr st)"
proof -
  have D: "DirV1_from_bytes (fe_codec E) (DirV1_to_bytes (fe_codec E) d) = Inr d" for d
    using codec_ok[OF assms(1)] by (simp add: dir_codec_ok_def DirV1_from_bytes_def DirV1_to_bytes_def)
  obtain x w1 where x: "fe_fresh E w = (x, w1)" by fastforce
  note f = fresh_law[OF assms(1) x]
  show ?thesis
    using assms x f decrypt_encrypt[OF codec_ok[OF assms(1)], of "fx_nonce x" "fx_key x"] D
    by (auto simp: encode_child_dir_bytes_def act_bind_def act_fresh_def Let_def decrypt_if_needed_def res_bind_def
        encrypts_def DirContext_with_new_ref_def stored_dir_ref_def bt_get_extend split: option.splits if_splits)
qed

lemma store_child_refers:
  assumes "winv w" "store_child E ctx st w = (r, w')"
  shows "winv w' \<and> blob w \<subseteq>\<^sub>m blob w' \<and> (\<forall>ref. r = Inr ref \<longrightarrow>
    (\<forall>ctx2. encrypts ctx2 = encrypts ctx \<longrightarrow> refers E (blob w') ctx2 ref st \<and> (\<forall>link. encrypts (DirContext_with_new_ref ctx2 ref link) = encrypts ctx)))"
proof -
  obtain x w1 where x: "fe_fresh E w = (x, w1)" by fastforce
  note f = fresh_law[OF assms(1) x]
  obtain r2 w2 where e: "encode_child_dir_bytes E st ctx w1 = (r2, w2)" by fastforce
  note enc = encode_child[OF conjunct1[OF f] e]
  show ?thesis
  proof (cases r2)
    case (Inl e')
    then show ?thesis using assms(2) x e f enc by (auto simp: store_child_def act_fresh_def act_bind_def)
  next
    case (Inr p)
    then obtain bs keys where p: "p = (bs, keys)" by (cases p)
    obtain r3 w3 where i: "import_meta E bs w2 = (r3, w3)" by fastforce
    have g: "winv w3 \<and> blob w2 \<subseteq>\<^sub>m blob w3" using import_grows[OF _ i] enc by blast
    have w3: "w' = w3" "r = (case r3 of Inl e \<Rightarrow> Inl e | Inr b \<Rightarrow> Inr (stored_dir_ref ctx (bid_hash b) keys x))"
      using assms(2) x e Inr p i by (auto simp: store_child_def act_fresh_def act_bind_def split: sum.splits)
    have "refers E (blob w3) ctx2 (stored_dir_ref ctx (bid_hash b) keys x) st" if "r3 = Inr b" "encrypts ctx2 = encrypts ctx" for b ctx2
      unfolding refers_def
    proof (intro exI[of _ bs] conjI allI)
      have "bid_hash b = h_blake3 (fe_hash E) bs" "blob w3 (h_blake3 (fe_hash E) bs) \<noteq> None"
        using import_law[OF _ i] enc that by blast+
      then show "dr_hash (stored_dir_ref ctx (bid_hash b) keys x) = h_blake3 (fe_hash E) bs"
        "blob w3 (dr_hash (stored_dir_ref ctx (bid_hash b) keys x)) \<noteq> None"
        by (simp_all add: stored_dir_ref_def)
    qed (use enc Inr p that(2) in blast)
    moreover have "encrypts (DirContext_with_new_ref ctx2 (stored_dir_ref ctx h keys x) link) = encrypts ctx"
      if "encrypts ctx2 = encrypts ctx" for ctx2 link h
      using that by (auto simp: encrypts_def DirContext_with_new_ref_def stored_dir_ref_def Let_def split: option.splits)
    ultimately show ?thesis using w3 g enc f by (auto split: sum.splits)
  qed
qed

lemma open_shard_effect:
  assumes "winv w" "open_dir_shard_impl E i init (a, w) = (r, (a', w'))"
  shows "winv w' \<and> blob w \<subseteq>\<^sub>m blob w' \<and> da_state a' = da_state a \<and> da_context a' = da_context a"
  using assms spawn_law[OF assms(1)]
  by (auto simp: open_dir_shard_impl_def act_bind_def Let_def split: option.splits dir_ref_type.splits if_splits sum.splits prod.splits)

end

definition get_shard :: "dir_v1 \<Rightarrow> u8 \<Rightarrow> dir_ref option" where
  "get_shard st i = (case dh_shards (dv_header st) of None \<Rightarrow> None | Some m \<Rightarrow> bt_get m i)"

definition same_but_shards :: "dir_v1 \<Rightarrow> dir_v1 \<Rightarrow> bool" where
  "same_but_shards st st' \<longleftrightarrow> dv_dirs st' = dv_dirs st \<and> dv_files st' = dv_files st
    \<and> dh_shard_level (dv_header st') = dh_shard_level (dv_header st)"

definition empty_state :: "dir_v1 \<Rightarrow> bool" where
  "empty_state st \<longleftrightarrow> bt_is_empty (dv_dirs st) \<and> bt_is_empty (dv_files st)"

lemma set_shards_sel [simp]:
  "da_context (set_shards f a) = da_context a" "same_but_shards (da_state a) (da_state (set_shards f a))"
  "dh_shards (dv_header (da_state (set_shards f a))) = f (dh_shards (dv_header (da_state a)))"
  by (simp_all add: set_shards_def same_but_shards_def)

lemma same_but_shards_trans: "same_but_shards a b \<Longrightarrow> same_but_shards b c \<Longrightarrow> same_but_shards a c"
  by (simp add: same_but_shards_def)

lemma unat_of_nat_u8: "i < 256 \<Longrightarrow> unat (of_nat i :: u8) = i"
  by (simp add: unsigned_of_nat take_bit_nat_eq_self_iff)

lemma of_nat_u8_inj: "i < 256 \<Longrightarrow> j < 256 \<Longrightarrow> (of_nat i :: u8) = of_nat j \<longleftrightarrow> i = j"
  by (metis unat_of_nat_u8)

context actor_world
begin

lemma persist_shards_step:
  assumes "winv w" "\<not> empty_state s" "persist_shards E ((i, s) # xs) (a, w) = (Inr (), (a', w'))"
  obtains a1 w1 ref where "persist_shards E xs (a1, w1) = (Inr (), (a', w'))" "winv w1" "blob w \<subseteq>\<^sub>m blob w1"
    "refers E (blob w1) (da_context a) ref s" "da_context a1 = da_context a" "same_but_shards (da_state a) (da_state a1)"
    "\<And>j. get_shard (da_state a1) j = (if j = of_nat i then Some ref else get_shard (da_state a) j)"
proof -
  let ?b = "set_shards (\<lambda>s. case s of None \<Rightarrow> Some bt_empty | Some m \<Rightarrow> Some m) a"
  have ne: "\<not> (bt_is_empty (dv_dirs s) \<and> bt_is_empty (dv_files s))" using assms(2) by (simp add: empty_state_def)
  obtain r2 w2 where sc: "store_child E (da_context a) s w = (r2, w2)" by fastforce
  have step: "act_bind (on_snd (store_child E (da_context a) s)) (\<lambda>dir_ref.
       act_bind (self_set (set_shards (map_option (bt_insert (of_nat i) dir_ref)))) (\<lambda>_.
       act_bind (open_dir_shard_impl E (of_nat i) None) (\<lambda>_. persist_shards E xs))) (?b, w) = (Inr (), (a', w'))"
    using assms(3) ne by (simp add: act_bind_def)
  then obtain ref where ref: "r2 = Inr ref" using sc by (cases r2) (auto simp: act_bind_def)
  let ?c = "set_shards (map_option (bt_insert (of_nat i) ref)) ?b"
  obtain r3 a3 w3 where op: "open_dir_shard_impl E (of_nat i) None (?c, w2) = (r3, (a3, w3))" by (metis surj_pair)
  have r3: "persist_shards E xs (a3, w3) = (Inr (), (a', w'))"
    using step sc ref op by (cases r3) (simp_all add: act_bind_def)
  note st = store_child_refers[OF assms(1) sc]
  note eff = open_shard_effect[OF conjunct1[OF st] op]
  show ?thesis
  proof (rule that[OF r3])
    show "winv w3" using eff by blast
    show "blob w \<subseteq>\<^sub>m blob w3" using st eff map_le_trans by blast
    show "refers E (blob w3) (da_context a) ref s" using st ref eff refers_mono by blast
    show "da_context a3 = da_context a" using eff by simp
    have "same_but_shards (da_state a) (da_state ?c)"
      by (rule same_but_shards_trans[OF set_shards_sel(2) set_shards_sel(2)])
    then show "same_but_shards (da_state a) (da_state a3)" using eff by simp
    show "get_shard (da_state a3) j = (if j = of_nat i then Some ref else get_shard (da_state a) j)" for j
      using eff by (auto simp: get_shard_def split: option.splits)
  qed
qed

lemma persist_shards_effect:
  assumes "winv w" "persist_shards E xs (a, w) = (Inr (), (a', w'))" "distinct (map fst xs)" "\<forall>e \<in> set xs. fst e < 256"
  shows "winv w' \<and> blob w \<subseteq>\<^sub>m blob w' \<and> da_context a' = da_context a \<and> same_but_shards (da_state a) (da_state a')
    \<and> (\<forall>(i, s) \<in> set xs. \<not> empty_state s \<longrightarrow>
         (\<exists>ref. get_shard (da_state a') (of_nat i) = Some ref \<and> refers E (blob w') (da_context a) ref s))
    \<and> (\<forall>j. (\<forall>(i, s) \<in> set xs. j = of_nat i \<longrightarrow> empty_state s) \<longrightarrow> get_shard (da_state a') j = get_shard (da_state a) j)"
  using assms
proof (induction xs arbitrary: a w)
  case Nil
  then show ?case by (simp add: same_but_shards_def)
next
  case (Cons e xs)
  obtain i s where e: "e = (i, s)" by (cases e)
  show ?case
  proof (cases "empty_state s")
    case True
    then have "persist_shards E xs (a, w) = (Inr (), (a', w'))" using Cons.prems(2) e by (simp add: empty_state_def)
    from Cons.IH[OF Cons.prems(1) this] Cons.prems(3,4) True e show ?thesis by auto
  next
    case False
    obtain a1 w1 ref where s1: "persist_shards E xs (a1, w1) = (Inr (), (a', w'))" "winv w1" "blob w \<subseteq>\<^sub>m blob w1"
      "refers E (blob w1) (da_context a) ref s" "da_context a1 = da_context a" "same_but_shards (da_state a) (da_state a1)"
      "\<And>j. get_shard (da_state a1) j = (if j = of_nat i then Some ref else get_shard (da_state a) j)"
      using persist_shards_step[OF Cons.prems(1) False Cons.prems(2)[unfolded e]] by metis
    note IH = Cons.IH[OF s1(2,1)]
    have other: "\<forall>(k, t) \<in> set xs. (of_nat i :: u8) = of_nat k \<longrightarrow> empty_state t"
      using Cons.prems(3,4) e by (force simp: of_nat_u8_inj)
    have "get_shard (da_state a') (of_nat i) = Some ref" using IH Cons.prems(3,4) other s1(7) by auto
    moreover have "refers E (blob w') (da_context a) ref s" using IH Cons.prems(3,4) s1(4) refers_mono by auto
    ultimately show ?thesis
      using IH Cons.prems(3,4) e False s1(3,5,7) same_but_shards_trans[OF s1(6)] map_le_trans[OF s1(3)]
      by auto
  qed
qed

end

section \<open>Sharding loses nothing\<close>

lemma map_fst_enumerate: "map fst (enumerate n xs) = [n..<n + length xs]"
  by (simp add: enumerate_eq_zip)

lemma in_enumerate: "(i, s) \<in> set (enumerate 0 xs) \<longleftrightarrow> i < length xs \<and> xs ! i = s"
  by (auto simp: in_set_enumerate_eq)

context actor_world
begin

lemma shard_effect:
  assumes "winv w" "dh_shards (dv_header (da_state a)) = None" "shard E (a, w) = (Inr (), (a', w'))"
  shows "\<exists>level. dh_shard_level (dv_header (da_state a')) = Some level
    \<and> bt_is_empty (dv_dirs (da_state a')) \<and> bt_is_empty (dv_files (da_state a'))
    \<and> winv w' \<and> blob w \<subseteq>\<^sub>m blob w'
    \<and> (\<forall>i < 256. let s = shard_states (fe_xxh3 E) level (da_state a) ! i in
         if empty_state s then get_shard (da_state a') (of_nat i) = None
         else \<exists>ref. get_shard (da_state a') (of_nat i) = Some ref \<and> refers E (blob w') (da_context a) ref s)"
proof -
  let ?level = "case cx_link (da_context a) of LinkDirHandle _ _ _ l \<Rightarrow> l | _ \<Rightarrow> 0"
  let ?b = "a\<lparr>da_state := (da_state a)\<lparr>dv_header := (dv_header (da_state a))\<lparr>dh_shard_level := Some ?level\<rparr>\<rparr>\<rparr>"
  let ?ss = "shard_states (fe_xxh3 E) ?level (da_state a)"
  have fresh: "dh_shard_level (dv_header (da_state a)) = None" using assms(3) by (auto simp: shard_def act_bind_def split: if_splits)
  obtain r1 c w1 where pz: "persist_shards E (enumerate 0 ?ss) (?b, w) = (r1, (c, w1))" by (metis surj_pair)
  have r1: "r1 = Inr ()" using assms(3) fresh pz by (cases r1) (auto simp: shard_def act_bind_def Let_def)
  let ?fin = "set_shards (\<lambda>s. case s of Some m \<Rightarrow> if bt_is_empty m then None else Some m | None \<Rightarrow> None) c"
  have a': "a' = ?fin\<lparr>da_state := (da_state ?fin)\<lparr>dv_dirs := bt_empty, dv_files := bt_empty\<rparr>\<rparr>" "w' = w1"
    using assms(3) fresh pz r1 by (auto simp: shard_def act_bind_def Let_def)
  have len: "length ?ss = 256" by (rule shard_states_nth(1)[of 0]) simp
  have d: "distinct (map fst (enumerate 0 ?ss))" by (simp add: map_fst_enumerate)
  have l: "\<forall>e \<in> set (enumerate 0 ?ss). fst e < 256" using len by (auto simp: in_enumerate)
  have cb: "da_context ?b = da_context a" by simp
  note eff = persist_shards_effect[OF assms(1) pz[unfolded r1] d l, unfolded cb]
  have gs: "get_shard (da_state a') j = get_shard (da_state c) j" for j
    by (auto simp: a' get_shard_def bt_is_empty_iff split: option.splits)
  have none: "get_shard (da_state ?b) j = None" for j using assms(2) by (simp add: get_shard_def)
  have "let s = ?ss ! i in if empty_state s then get_shard (da_state a') (of_nat i) = None
         else \<exists>ref. get_shard (da_state a') (of_nat i) = Some ref \<and> refers E (blob w') (da_context a) ref s" if "i < 256" for i
  proof (cases "empty_state (?ss ! i)")
    case True
    then have "\<forall>(k, s) \<in> set (enumerate 0 ?ss). (of_nat i :: u8) = of_nat k \<longrightarrow> empty_state s"
      using that len by (auto simp: in_enumerate of_nat_u8_inj)
    then have "get_shard (da_state c) (of_nat i) = None" using eff none by presburger
    then show ?thesis using True gs by (simp add: Let_def)
  next
    case False
    have "(i, ?ss ! i) \<in> set (enumerate 0 ?ss)" using that len by (simp add: in_enumerate)
    then show ?thesis using eff False gs a'(2) by (auto simp: Let_def)
  qed
  moreover have "dh_shard_level (dv_header (da_state a')) = Some ?level"
    using eff by (simp add: a' same_but_shards_def set_shards_def)
  moreover have "bt_is_empty (dv_dirs (da_state a'))" "bt_is_empty (dv_files (da_state a'))"
    by (simp_all add: a' bt_is_empty_iff)
  ultimately show ?thesis using eff a'(2) by blast
qed

end

lemma split_once_starts: "split_once path = Some (p, rest) \<Longrightarrow> path = prefix_slash p @ rest"
proof (induction path arbitrary: p)
  case (Cons c path)
  then show ?case
    by (cases "c = CHR ''/''") (auto simp: split_once_def prefix_slash_def split: if_splits)
qed (simp add: split_once_def)

section \<open>In memory nothing fails\<close>

interpretation mem_actor: actor_world "mem_env H D sg xx x" "\<lambda>w. bt_get (fst (snd w))" "\<lambda>w. libs_ok H D x" "\<lambda>_. True" "mem_blob H"
  for H D sg xx x
  by (intro actor_world.intro mem_fs.fs_world_axioms actor_world_axioms.intro) (auto simp: mem_env_def)

lemma mem_store_child_total:
  assumes "libs_ok H D x"
  obtains ref w' where "store_child (mem_env H D sg xx x) ctx st w = (Inr ref, w')" "DirRef_ref_type ref = DirBlake3Hash"
proof -
  have fr: "act_fresh (mem_env H D sg xx x) v = (Inr x, v)" for v by (simp add: act_fresh_def mem_env_def)
  obtain bs keys where e: "encode_child_dir_bytes (mem_env H D sg xx x) st ctx w = (Inr (bs, keys), w)"
    by (cases "cx_encryption_type ctx") (auto simp: encode_child_dir_bytes_def Let_def act_bind_def fr)
  obtain i w' where "import_meta (mem_env H D sg xx x) bs w = (Inr i, w')"
    using is_ok_fstD[OF mem_import_total[OF assms]] by blast
  with e fr show ?thesis
    by (intro that) (auto simp: store_child_def act_bind_def DirRef_ref_type_def stored_dir_ref_def)
qed

lemma mem_optimize_total:
  assumes "libs_ok H D x"
  shows "0 < fuel \<Longrightarrow> \<forall>k \<in> set (bt_keys (dv_files st)). length k < fuel \<Longrightarrow>
    is_ok (fst (optimize_dir_structure fuel (mem_env H D sg xx x) ctx st w))"
proof (induction fuel arbitrary: st w)
  case (Suc fuel)
  let ?E = "mem_env H D sg xx x"
  have "is_ok (fst (optimize_groups fuel ?E ctx gs st w))"
    if "\<forall>k \<in> set (bt_keys (dv_files st)). length k < Suc fuel"
      "\<forall>(p, paths) \<in> set gs. distinct paths \<and> (\<forall>k \<in> set paths. starts_with (prefix_slash p) k \<and> length k < Suc fuel)" for gs st w
    using that
  proof (induction gs arbitrary: st w)
    case (Cons g gs)
    obtain p paths where g: "g = (p, paths)" by (cases g)
    have ks: "distinct paths" "\<forall>k \<in> set paths. starts_with (prefix_slash p) k" "\<forall>k \<in> set paths. length k < Suc fuel"
      using Cons.prems(2) g by auto
    show ?case
    proof (cases "length paths > FS5_PROMOTION_THRESHOLD")
      case False
      then show ?thesis using Cons g by simp
    next
      case True
      obtain child st1 where mv: "move_paths p paths st = (child, st1)" by fastforce
      note m = move_paths_files[OF ks(1,2) mv]
      obtain k0 where "k0 \<in> set paths" using True by (cases paths) auto
      then have "prefix_slash p @ drop (length (prefix_slash p)) k0 = k0" "length k0 < Suc fuel"
        using ks(2,3) starts_with_drop by auto
      from arg_cong[OF this(1), of length] this(2) have pos: "0 < fuel" by (simp add: prefix_slash_def)
      have "\<forall>k \<in> set (bt_keys (dv_files child)). length k < fuel"
        using m(1) ks(3) by (force simp: bt_keys_iff prefix_slash_def split: if_splits)
      then obtain opt w1 where o: "optimize_dir_structure fuel ?E ctx child w = (Inr opt, w1)"
        using is_ok_fstD[OF Suc.IH[OF pos]] by metis
      obtain ref w2 where sc: "store_child ?E ctx opt w1 = (Inr ref, w2)" using mem_store_child_total[OF assms] by metis
      have "\<forall>k \<in> set (bt_keys (dv_files st1)). length k < Suc fuel"
        using m(2) Cons.prems(1) by (auto simp: bt_keys_iff split: if_splits)
      then have "is_ok (fst (optimize_groups fuel ?E ctx gs (st1\<lparr>dv_dirs := bt_insert p ref (dv_dirs st1)\<rparr>) w2))"
        using Cons.prems(2) by (intro Cons.IH) auto
      then show ?thesis using True g mv o sc by (simp add: act_bind_def)
    qed
  qed simp
  moreover have "\<forall>(p, paths) \<in> set (prefix_groups st). distinct paths \<and>
      (\<forall>k \<in> set paths. starts_with (prefix_slash p) k \<and> length k < Suc fuel)"
    using Suc.prems(2) split_once_starts by (fastforce simp: prefix_groups_def Let_def)
  ultimately show ?case using Suc.prems(2) by simp
qed simp

lemma path_fuel_enough: "0 < path_fuel st \<and> (\<forall>k \<in> set (bt_keys (dv_files st)). length k < path_fuel st)"
  by (auto simp: path_fuel_def less_Suc_eq_le intro: Max_ge)

lemma mem_open_shard_total:
  assumes "get_shard (da_state a) i = Some ref" "DirRef_ref_type ref = DirBlake3Hash"
    "dh_shard_level (dv_header (da_state a)) = Some l" "l \<noteq> 255" "\<not> MAX_SHARD_LEVEL < l + 1" "da_handle a \<noteq> None"
  shows "\<exists>h a'. open_dir_shard_impl (mem_env H D sg xx x) i init (a, w) = (Inr h, (a', w))
    \<and> da_handle a' = da_handle a \<and> da_state a' = da_state a"
  using assms
  by (cases "bt_get (da_dir_shard_handles a) i")
     (auto simp: open_dir_shard_impl_def act_bind_def get_shard_def Let_def mem_env_def)

lemma mem_persist_total:
  assumes "libs_ok H D x" "da_handle a \<noteq> None" "dh_shard_level (dv_header (da_state a)) = Some l" "l < MAX_SHARD_LEVEL"
  shows "is_ok (fst (persist_shards (mem_env H D sg xx x) xs (a, w)))"
  using assms(2-)
proof (induction xs arbitrary: a w)
  case (Cons e xs)
  let ?E = "mem_env H D sg xx x"
  obtain i s where e: "e = (i, s)" by (cases e)
  have l: "l \<noteq> 255" "\<not> MAX_SHARD_LEVEL < l + 1"
    using Cons.prems(3) unfolding MAX_SHARD_LEVEL_def by (unat_arith, unat_arith)
  let ?b = "set_shards (\<lambda>s. case s of None \<Rightarrow> Some bt_empty | Some m \<Rightarrow> Some m) a"
  obtain ref w1 where sc: "store_child ?E (da_context a) s w = (Inr ref, w1)" "DirRef_ref_type ref = DirBlake3Hash"
    using mem_store_child_total[OF assms(1)] by metis
  let ?c = "set_shards (map_option (bt_insert (of_nat i) ref)) ?b"
  have c: "get_shard (da_state ?c) (of_nat i) = Some ref" "da_handle ?c = da_handle a"
    "dh_shard_level (dv_header (da_state ?c)) = Some l"
    using Cons.prems(2) by (auto simp: get_shard_def set_shards_def split: option.splits)
  then obtain h a3 where op: "open_dir_shard_impl ?E (of_nat i) None (?c, w1) = (Inr h, (a3, w1))"
    and a3: "da_handle a3 = da_handle a" "dh_shard_level (dv_header (da_state a3)) = Some l"
    using mem_open_shard_total[OF c(1) sc(2) c(3) l] Cons.prems(1) by metis
  have "is_ok (fst (persist_shards ?E xs (a3, w1)))" using Cons.IH[of a3 w1] a3 Cons.prems by simp
  then show ?case
    using e sc(1) op Cons.IH[OF Cons.prems, of w] by (simp add: act_bind_def)
qed simp

lemma if_ex_intro:
  "(if Q then N else \<exists>r. A r \<and> B r s) \<Longrightarrow> R s \<Longrightarrow> (if Q then N else \<exists>r t. A r \<and> B r t \<and> R t)"
  by (auto split: if_splits)

lemma mem_shard_total:
  assumes "libs_ok H D x" "da_handle a \<noteq> None" "dh_shard_level (dv_header (da_state a)) = None"
    and "(case cx_link (da_context a) of LinkDirHandle _ _ _ l \<Rightarrow> l | _ \<Rightarrow> 0) = l" "l < MAX_SHARD_LEVEL"
  shows "\<exists>a' w'. shard (mem_env H D sg xx x) (a, w) = (Inr (), (a', w'))"
proof -
  let ?E = "mem_env H D sg xx x"
  let ?b = "a\<lparr>da_state := (da_state a)\<lparr>dv_header := (dv_header (da_state a))\<lparr>dh_shard_level := Some l\<rparr>\<rparr>\<rparr>"
  let ?xs = "enumerate 0 (shard_states (fe_xxh3 ?E) l (da_state a))"
  have "is_ok (fst (persist_shards ?E ?xs (?b, w)))"
    by (rule mem_persist_total[OF assms(1) _ _ assms(5)]) (use assms(2) in simp_all)
  then obtain y z where "persist_shards ?E ?xs (?b, w) = (Inr y, z)" using is_ok_fstD by blast
  moreover obtain c w' where "z = (c, w')" by (cases z)
  ultimately have "persist_shards ?E ?xs (?b, w) = (Inr (), (c, w'))" by simp
  then show ?thesis using assms(3,4) by (cases w') (simp add: shard_def act_bind_def Let_def)
qed

text \<open>The entries of a bucket of a directory, and what a successful split leaves for it.\<close>

definition bucket_entries :: "(string \<Rightarrow> u64) \<Rightarrow> u8 \<Rightarrow> u8 \<Rightarrow> (string, 'v) btree \<Rightarrow> string \<Rightarrow> 'v option" where
  "bucket_entries xxh3 level i m n = (if shard_index xxh3 n level = i then bt_get m n else None)"

lemma shard_states_bucket:
  "bt_get (dv_files (shard_states xx level st ! unat i)) = bucket_entries xx level i (dv_files st)"
  "bt_get (dv_dirs (shard_states xx level st ! unat i)) = bucket_entries xx level i (dv_dirs st)"
proof -
  have i: "unat i < 256" using unsigned_less[of i, where 'a = nat] by simp
  have "unat i = unat j \<longleftrightarrow> j = i" for j using unsigned_word_eqI[of i j] by auto
  then show "bt_get (dv_files (shard_states xx level st ! unat i)) = bucket_entries xx level i (dv_files st)"
    "bt_get (dv_dirs (shard_states xx level st ! unat i)) = bucket_entries xx level i (dv_dirs st)"
    by (simp_all add: fun_eq_iff bucket_entries_def shard_states_nth(2,3)[OF i])
qed

lemma shard_bucket_contents:
  assumes "actor_world E entries winv storable blob" "winv w" "dh_shards (dv_header (da_state a)) = None"
    and "shard E (a, w) = (Inr (), (a', w'))" "dh_shard_level (dv_header (da_state a')) = Some level"
  shows "bt_is_empty (dv_dirs (da_state a'))" "bt_is_empty (dv_files (da_state a'))" "blob w \<subseteq>\<^sub>m blob w'"
    and "\<forall>n. bucket_entries (fe_xxh3 E) level i (dv_files (da_state a)) n = None
          \<and> bucket_entries (fe_xxh3 E) level i (dv_dirs (da_state a)) n = None
        \<Longrightarrow> get_shard (da_state a') i = None"
    and "\<not> (\<forall>n. bucket_entries (fe_xxh3 E) level i (dv_files (da_state a)) n = None
          \<and> bucket_entries (fe_xxh3 E) level i (dv_dirs (da_state a)) n = None)
        \<Longrightarrow> \<exists>ref st. get_shard (da_state a') i = Some ref \<and> refers E (blob w') (da_context a) ref st
          \<and> bt_get (dv_files st) = bucket_entries (fe_xxh3 E) level i (dv_files (da_state a))
          \<and> bt_get (dv_dirs st) = bucket_entries (fe_xxh3 E) level i (dv_dirs (da_state a))"
proof -
  obtain l where lv: "dh_shard_level (dv_header (da_state a')) = Some l"
    "bt_is_empty (dv_dirs (da_state a'))" "bt_is_empty (dv_files (da_state a'))" "blob w \<subseteq>\<^sub>m blob w'"
    and sh: "\<And>i. i < 256 \<Longrightarrow> let s = shard_states (fe_xxh3 E) l (da_state a) ! i in
         if empty_state s then get_shard (da_state a') (of_nat i) = None
         else \<exists>ref. get_shard (da_state a') (of_nat i) = Some ref \<and> refers E (blob w') (da_context a) ref s"
    using actor_world.shard_effect[OF assms(1-4)] by blast
  from lv assms(5) have l: "l = level" by simp
  let ?s = "shard_states (fe_xxh3 E) level (da_state a) ! unat i"
  have i: "unat i < 256" using unsigned_less[of i, where 'a = nat] by simp
  have ii: "of_nat (unat i) = i" by (metis i unat_of_nat_u8 unsigned_word_eqI)
  have e: "empty_state ?s \<longleftrightarrow> (\<forall>n. bucket_entries (fe_xxh3 E) level i (dv_files (da_state a)) n = None
          \<and> bucket_entries (fe_xxh3 E) level i (dv_dirs (da_state a)) n = None)"
    by (auto simp: empty_state_def bt_is_empty_iff shard_states_bucket)
  have s: "if empty_state ?s then get_shard (da_state a') i = None
      else \<exists>ref. get_shard (da_state a') i = Some ref \<and> refers E (blob w') (da_context a) ref ?s"
    using sh[OF i] by (simp only: Let_def ii l)
  show "bt_is_empty (dv_dirs (da_state a'))" "bt_is_empty (dv_files (da_state a'))" "blob w \<subseteq>\<^sub>m blob w'"
    using lv by simp_all
  show "get_shard (da_state a') i = None"
    if "\<forall>n. bucket_entries (fe_xxh3 E) level i (dv_files (da_state a)) n = None
          \<and> bucket_entries (fe_xxh3 E) level i (dv_dirs (da_state a)) n = None"
    using s that[folded e] by simp
  show "\<exists>ref st. get_shard (da_state a') i = Some ref \<and> refers E (blob w') (da_context a) ref st
          \<and> bt_get (dv_files st) = bucket_entries (fe_xxh3 E) level i (dv_files (da_state a))
          \<and> bt_get (dv_dirs st) = bucket_entries (fe_xxh3 E) level i (dv_dirs (da_state a))"
    if "\<not> (\<forall>n. bucket_entries (fe_xxh3 E) level i (dv_files (da_state a)) n = None
          \<and> bucket_entries (fe_xxh3 E) level i (dv_dirs (da_state a)) n = None)"
    using s that[folded e] shard_states_bucket by (metis (no_types, lifting))
qed

section \<open>Properties\<close>

text \<open>C32. Sharding loses nothing and invents nothing: after a directory has been split, its own maps are empty,
  and for each of the 256 buckets there is a shard exactly when some entry hashes to the bucket; the shard's
  reference then stands for a stored snapshot that holds exactly the files and directories of the bucket,
  and its recorded keys decrypt that snapshot. No blob that was stored before is lost. Every name belongs to
  the one bucket given by eight bits of its hash.\<close>

theorem sharding_lossless:
  assumes "actor_world E entries winv storable blob" and "winv w"
    and "dh_shards (dv_header (da_state a)) = None" and "shard E (a, w) = (Inr (), (a', w'))"
  shows "\<exists>level. dh_shard_level (dv_header (da_state a')) = Some level
    \<and> bt_is_empty (dv_dirs (da_state a')) \<and> bt_is_empty (dv_files (da_state a')) \<and> blob w \<subseteq>\<^sub>m blob w'
    \<and> (\<forall>i. let bucket = {n. shard_index (fe_xxh3 E) n level = i} in
        if (\<forall>n \<in> bucket. bt_get (dv_files (da_state a)) n = None \<and> bt_get (dv_dirs (da_state a)) n = None)
        then get_shard (da_state a') i = None
        else \<exists>ref st. get_shard (da_state a') i = Some ref \<and> refers E (blob w') (da_context a) ref st
          \<and> (\<forall>n. bt_get (dv_files st) n = (if n \<in> bucket then bt_get (dv_files (da_state a)) n else None)
               \<and> bt_get (dv_dirs st) n = (if n \<in> bucket then bt_get (dv_dirs (da_state a)) n else None)))
    \<and> (\<forall>n. unat (shard_index (fe_xxh3 E) n level) = unat (fe_xxh3 E n) div 2 ^ (8 * unat level) mod 256)"
proof -
  obtain level where lv: "dh_shard_level (dv_header (da_state a')) = Some level"
    using actor_world.shard_effect[OF assms] by blast
  note c = shard_bucket_contents[OF assms lv]
  have "let bucket = {n. shard_index (fe_xxh3 E) n level = i} in
        if (\<forall>n \<in> bucket. bt_get (dv_files (da_state a)) n = None \<and> bt_get (dv_dirs (da_state a)) n = None)
        then get_shard (da_state a') i = None
        else \<exists>ref st. get_shard (da_state a') i = Some ref \<and> refers E (blob w') (da_context a) ref st
          \<and> (\<forall>n. bt_get (dv_files st) n = (if n \<in> bucket then bt_get (dv_files (da_state a)) n else None)
               \<and> bt_get (dv_dirs st) n = (if n \<in> bucket then bt_get (dv_dirs (da_state a)) n else None))" for i
  proof (cases "\<forall>n \<in> {n. shard_index (fe_xxh3 E) n level = i}.
      bt_get (dv_files (da_state a)) n = None \<and> bt_get (dv_dirs (da_state a)) n = None")
    case True
    then have "get_shard (da_state a') i = None" using c(4)[of i] by (simp add: bucket_entries_def)
    then show ?thesis using True by simp
  next
    case False
    then have "\<not> (\<forall>n. bucket_entries (fe_xxh3 E) level i (dv_files (da_state a)) n = None
        \<and> bucket_entries (fe_xxh3 E) level i (dv_dirs (da_state a)) n = None)"
      by (auto simp: bucket_entries_def split: if_splits)
    from c(5)[OF this] obtain ref st where "get_shard (da_state a') i = Some ref" "refers E (blob w') (da_context a) ref st"
      "bt_get (dv_files st) = bucket_entries (fe_xxh3 E) level i (dv_files (da_state a))"
      "bt_get (dv_dirs st) = bucket_entries (fe_xxh3 E) level i (dv_dirs (da_state a))"
      by blast
    then have "\<exists>ref st. get_shard (da_state a') i = Some ref \<and> refers E (blob w') (da_context a) ref st
      \<and> (\<forall>n. bt_get (dv_files st) n = (if n \<in> {n. shard_index (fe_xxh3 E) n level = i} then bt_get (dv_files (da_state a)) n else None)
           \<and> bt_get (dv_dirs st) n = (if n \<in> {n. shard_index (fe_xxh3 E) n level = i} then bt_get (dv_dirs (da_state a)) n else None))"
      by (auto simp: bucket_entries_def)
    then show ?thesis using False by (simp only: Let_def if_False)
  qed
  then show ?thesis using lv c(1-3) unat_shard_index by blast
qed

definition demo_sharded :: dir_actor where
  "demo_sharded = (demo_child (DirV1_new\<lparr>dv_files := bt_insert ''a'' (FileRef_new (fill32 7) 3) bt_empty\<rparr>))\<lparr>da_handle := Some 1\<rparr>"

theorem sharding_lossless_witness:
  "\<exists>a' w' level. shard demo_mem_env (demo_sharded, (MemoryStore_new, MemoryRegistry_new, bt_empty)) = (Inr (), (a', w'))
    \<and> dh_shard_level (dv_header (da_state a')) = Some level \<and> bt_is_empty (dv_files (da_state a'))"
proof -
  let ?w = "(MemoryStore_new, MemoryRegistry_new, bt_empty) :: mem_fs"
  have n: "dh_shard_level (dv_header (da_state demo_sharded)) = None" "dh_shards (dv_header (da_state demo_sharded)) = None"
    by (simp_all add: demo_sharded_def demo_child_def DirV1_new_def DirHeader_new_def)
  obtain a' w' where s: "shard demo_mem_env (demo_sharded, ?w) = (Inr (), (a', w'))"
    unfolding demo_mem_env_def
    using mem_shard_total[OF demo_libs_ok _ n(1), of 0 "\<lambda>_ _. replicate 64 0" "\<lambda>s. of_nat (length s)" ?w]
    by (auto simp: demo_sharded_def demo_child_def DirActor_new_def DirContext_new_def MAX_SHARD_LEVEL_def)
  have "actor_world demo_mem_env (\<lambda>w. bt_get (fst (snd w))) (\<lambda>w. libs_ok demo_hashing demo_dir_codec demo_fresh) (\<lambda>_. True) (mem_blob demo_hashing)"
    unfolding demo_mem_env_def by (rule mem_actor.actor_world_axioms)
  from sharding_lossless[OF this demo_libs_ok n(2) s] s show ?thesis by blast
qed

end
