(* ===== verification/Snapshots.thy ===== *)
theory Snapshots
  imports Sharding
begin

text \<open>
  Named snapshots: \<^verbatim>\<open>s5_fs/src/snapshots.rs\<close> (the index file) and \<^verbatim>\<open>s5_fs/src/actor/snapshots.rs\<close> (merged
  snapshots of sharded directories, creating and deleting named snapshots).
\<close>

section \<open>The index file\<close>

record snapshot_index =
  si_path :: string
  si_dir :: dir_v1

definition snapshots_path :: "string \<Rightarrow> string" where
  "snapshots_path fs_root = path_join fs_root ''snapshots.fs5.cbor''"

definition SnapshotIndex_open :: "'w fs_env \<Rightarrow> string \<Rightarrow> 'w \<Rightarrow> error + snapshot_index" where
  "SnapshotIndex_open E fs_root w =
    (let path = snapshots_path fs_root
     in res_bind (case fe_read_file E path w of
          Inr bs \<Rightarrow> DirV1_from_bytes (fe_codec E) bs
        | Inl (Io NotFound _) \<Rightarrow> Inr DirV1_new
        | Inl e \<Rightarrow> Inl e) (\<lambda>dir. Inr \<lparr>si_path = path, si_dir = dir\<rparr>))"

definition SnapshotIndex_list :: "snapshot_index \<Rightarrow> (string \<times> hash) list" where
  "SnapshotIndex_list self = map (\<lambda>(name, dir_ref). (name, dr_hash dir_ref)) (bt_entries (dv_dirs (si_dir self)))"

text \<open>\<^verbatim>\<open>format!("{}-{}", base_name, counter)\<close>.\<close>

fun dec_string :: "nat \<Rightarrow> string" where
  "dec_string n = (if n < 10 then [char_of (48 + n)] else dec_string (n div 10) @ [char_of (48 + n mod 10)])"

declare dec_string.simps [simp del]

definition numbered_name :: "string \<Rightarrow> u32 \<Rightarrow> string" where
  "numbered_name base counter = base @ ''-'' @ dec_string (unat counter)"

text \<open>The search for an unused name; the counter saturates, so the search may never end.\<close>

partial_function (option) unique_name :: "(string, dir_ref) btree \<Rightarrow> string \<Rightarrow> u32 \<Rightarrow> string \<Rightarrow> string option" where
  "unique_name dirs base counter name =
    (if bt_contains dirs name then unique_name dirs base (sat_add32 counter 1) (numbered_name base counter)
     else Some name)"

definition SnapshotIndex_insert_snapshot :: "snapshot_index \<Rightarrow> fresh \<Rightarrow> hash \<Rightarrow> ((string \<times> hash) \<times> snapshot_index) option" where
  "SnapshotIndex_insert_snapshot self now h =
    (let base_name = fx_rfc3339 now
     in case unique_name (dv_dirs (si_dir self)) base_name 1 base_name of
          None \<Rightarrow> None
        | Some name \<Rightarrow>
           let dir_ref = \<lparr>dr_ref_type = None, dr_hash = h, dr_ts_seconds = Some (fx_seconds now),
                 dr_ts_nanos = Some (fx_nanos now), dr_keys = None, dr_encryption_type = None, dr_extra = None\<rparr>
           in Some ((name, h),
                self\<lparr>si_dir := (si_dir self)\<lparr>dv_dirs := bt_insert name dir_ref (dv_dirs (si_dir self))\<rparr>\<rparr>))"

definition SnapshotIndex_remove_snapshot :: "snapshot_index \<Rightarrow> string \<Rightarrow> hash option \<times> snapshot_index" where
  "SnapshotIndex_remove_snapshot self name =
    (map_option dr_hash (bt_get (dv_dirs (si_dir self)) name),
     self\<lparr>si_dir := (si_dir self)\<lparr>dv_dirs := bt_remove name (dv_dirs (si_dir self))\<rparr>\<rparr>)"

definition SnapshotIndex_persist :: "'w fs_env \<Rightarrow> snapshot_index \<Rightarrow> ('w, unit) action" where
  "SnapshotIndex_persist E self =
    (case path_parent (si_path self) of
       None \<Rightarrow> act_err (Io NotFound ''Could not find parent directory for snapshots.fs5.cbor'')
     | Some _ \<Rightarrow> fe_persist_file E (si_path self) (DirV1_to_bytes (fe_codec E) (si_dir self)))"

definition list_snapshots :: "'w fs_env \<Rightarrow> string \<Rightarrow> 'w \<Rightarrow> error + (string \<times> hash) list" where
  "list_snapshots E fs_root w = res_bind (SnapshotIndex_open E fs_root w) (\<lambda>index. Inr (SnapshotIndex_list index))"

section \<open>Snapshots of a directory\<close>

fun merge_shard_snapshots :: "'w fs_env \<Rightarrow> u8 list \<Rightarrow> dir_v1 \<Rightarrow> ('w, dir_v1) handler" where
  "merge_shard_snapshots E [] merged = act_ok merged"
| "merge_shard_snapshots E (index # rest) merged =
    act_bind (open_dir_shard_impl E index None) (\<lambda>handle.
    act_bind (on_snd (ask_dir E handle ExportMergedSnapshot)) (\<lambda>shard_snapshot.
    let merged = merged\<lparr>dv_dirs := bt_extend (bt_entries (dv_dirs shard_snapshot)) (dv_dirs merged)\<rparr>;
        merged = merged\<lparr>dv_files := bt_extend (bt_entries (dv_files shard_snapshot)) (dv_files merged)\<rparr>
    in merge_shard_snapshots E rest merged))"

definition export_merged_snapshot :: "'w fs_env \<Rightarrow> ('w, dir_v1) handler" where
  "export_merged_snapshot E =
    act_bind (self_get da_state) (\<lambda>state.
    act_bind (case dh_shards (dv_header state) of
        Some shards \<Rightarrow> merge_shard_snapshots E (bt_keys shards) state
      | None \<Rightarrow> act_ok state) (\<lambda>merged.
    act_ok (merged\<lparr>dv_header := (dv_header merged)\<lparr>dh_shard_level := None, dh_shards := None\<rparr>\<rparr>)))"

definition local_snapshots_root :: "string \<Rightarrow> dir_actor \<Rightarrow> error + string" where
  "local_snapshots_root what self =
    (case cx_link (da_context self) of
       LinkLocalFile path \<Rightarrow>
         (case path_parent path of
            None \<Rightarrow> Inl (Io NotFound ''Could not find parent directory for snapshots.fs5.cbor'')
          | Some parent \<Rightarrow> Inr parent)
     | _ \<Rightarrow> Inl (Anyhow (what @ '' is only supported on local FS5 roots'')))"

text \<open>A search for a name that does not end is an actor that never answers: the handler has no value then.\<close>

definition create_snapshot :: "'w fs_env \<Rightarrow> dir_actor \<times> 'w \<Rightarrow> ((error + string \<times> hash) \<times> dir_actor \<times> 'w) option" where
  "create_snapshot E s =
    (case act_bind (self_get (local_snapshots_root ''create_snapshot'')) act_lift s of
       (Inl e, s) \<Rightarrow> Some (Inl e, s)
     | (Inr parent, s) \<Rightarrow>
        (case export_snapshot_hash E s of
           (Inl e, s) \<Rightarrow> Some (Inl e, s)
         | (Inr root_hash, (a, w)) \<Rightarrow>
            let a = a\<lparr>da_current_hash := Some root_hash\<rparr>
            in (case SnapshotIndex_open E parent w of
                  Inl e \<Rightarrow> Some (Inl e, (a, w))
                | Inr index \<Rightarrow>
                   (case fe_fresh E w of
                      (now, w) \<Rightarrow>
                        map_option (\<lambda>((name, h), index).
                          act_bind (on_snd (SnapshotIndex_persist E index)) (\<lambda>_.
                          act_bind (case fe_pins E of
                              Some pins \<Rightarrow> on_snd (pn_pin_hash pins root_hash (LocalFsSnapshot root_hash))
                            | None \<Rightarrow> act_ok ()) (\<lambda>_.
                          act_ok (name, h))) (a, w))
                        (SnapshotIndex_insert_snapshot index now root_hash)))))"

definition delete_snapshot :: "'w fs_env \<Rightarrow> string \<Rightarrow> ('w, unit) handler" where
  "delete_snapshot E name =
    act_bind (self_get (local_snapshots_root ''delete_snapshot'')) (\<lambda>r.
    act_bind (act_lift r) (\<lambda>parent.
    (\<lambda>(a, w).
      case SnapshotIndex_open E parent w of
        Inl (Io NotFound _) \<Rightarrow> (Inr (), (a, w))
      | Inl e \<Rightarrow> (Inl e, (a, w))
      | Inr index \<Rightarrow>
         (case SnapshotIndex_remove_snapshot index name of
            (None, _) \<Rightarrow> (Inr (), (a, w))
          | (Some root_hash, index) \<Rightarrow>
              act_bind (on_snd (SnapshotIndex_persist E index)) (\<lambda>_.
              case fe_pins E of
                Some pins \<Rightarrow> act_ignore (on_snd (pn_unpin_hash pins root_hash (LocalFsSnapshot root_hash)))
              | None \<Rightarrow> act_ok ()) (a, w)))))"

section \<open>Unused names\<close>

definition dec_value :: "string \<Rightarrow> nat" where
  "dec_value s = fold (\<lambda>c v. v * 10 + (of_char c - 48)) s 0"

lemma dec_value_snoc: "dec_value (s @ [c]) = dec_value s * 10 + (of_char c - 48)"
  by (simp add: dec_value_def)

lemma dec_value_inverse: "dec_value (dec_string n) = n"
proof (induction n rule: dec_string.induct)
  case (1 n)
  have digit: "of_char (char_of (48 + d) :: char) = 48 + d" if "d < 10" for d :: nat
    using that by simp
  show ?case
  proof (cases "n < 10")
    case True
    then show ?thesis using digit[of n] by (simp add: dec_string.simps[of n] dec_value_def)
  next
    case False
    then show ?thesis
      using 1 digit[of "n mod 10"] by (simp add: dec_string.simps[of n] dec_value_snoc)
  qed
qed

lemma numbered_name_inj: "numbered_name b c = numbered_name b d \<longleftrightarrow> c = d"
  using dec_value_inverse by (auto simp: numbered_name_def) (metis unsigned_word_eqI)

lemma unique_name_fresh:
  assumes "unique_name dirs base counter name = Some n"
  shows "bt_get dirs n = None"
  by (rule unique_name.raw_induct[OF _ assms, where P = "\<lambda>d b c m n. bt_get d n = None"])
     (auto simp: bt_contains_def split: if_splits)

lemma unique_name_step:
  assumes "bt_get dirs (numbered_name base k) = None" "unat c \<le> unat k"
  shows "\<exists>n. unique_name dirs base c name = Some n"
  using assms(2)
proof (induction "unat k - unat c" arbitrary: c name)
  case 0
  then have "c = k" by (metis diff_is_0_eq le_antisym unsigned_word_eqI)
  with assms(1) show ?case
    by (subst unique_name.simps) (simp add: unique_name.simps[of dirs base "sat_add32 k 1"] bt_contains_def)
next
  case (Suc d)
  have lt: "unat c < unat k" using Suc.hyps(2) by simp
  have "unat k < 2 ^ 32" using unsigned_less[of k, where 'a = nat] by simp
  then have "unat (sat_add32 c 1) = unat c + 1" using lt by (simp add: unat_sat_add32)
  then have "\<exists>n. unique_name dirs base (sat_add32 c 1) (numbered_name base c) = Some n"
    using Suc.hyps lt by (intro Suc.hyps(1)) simp_all
  then show ?case by (subst unique_name.simps) simp
qed

text \<open>There is always a free number while the index has fewer entries than the counter has values.\<close>

lemma free_number:
  assumes "bt_len dirs < 2 ^ 32 - 1"
  shows "\<exists>k. 1 \<le> unat k \<and> bt_get dirs (numbered_name base k) = None"
proof (rule ccontr)
  assume c: "\<not> ?thesis"
  then have "numbered_name base ` {k. 1 \<le> unat k} \<subseteq> set (bt_keys dirs)" by (auto simp: bt_keys_iff)
  then have "card (numbered_name base ` {k. 1 \<le> unat k}) \<le> card (set (bt_keys dirs))" by (intro card_mono) auto
  also have "card (set (bt_keys dirs)) = bt_len dirs" by (simp add: distinct_card bt_len_def bt_keys_def[symmetric])
       (simp add: bt_keys_def)
  finally have "card {k :: u32. 1 \<le> unat k} \<le> bt_len dirs"
    using numbered_name_inj by (subst (asm) card_image) (auto simp: inj_on_def)
  moreover have "{k :: u32. 1 \<le> unat k} = UNIV - {0}" by (auto simp: Suc_le_eq) (metis neq0_conv unsigned_0 unsigned_word_eqI)
  ultimately show False using assms by (simp add: card_Diff_subset card_word)
qed

lemma unique_name_total:
  assumes "bt_len dirs < 2 ^ 32 - 1"
  shows "\<exists>n. unique_name dirs base 1 name = Some n"
  using free_number[OF assms, of base] unique_name_step[of dirs base _ 1 name] by auto

section \<open>The merged view of a sharded directory\<close>

definition overlay :: "('k::linorder, 'v) btree list \<Rightarrow> ('k, 'v) btree \<Rightarrow> ('k, 'v) btree" where
  "overlay ms m = fold (\<lambda>x. bt_extend (bt_entries x)) ms m"

lemma merge_shards_overlay:
  assumes "\<And>i. i \<in> set is \<Longrightarrow> bt_get (da_dir_shard_handles a) i = Some (hof i)"
    and "\<And>i. i \<in> set is \<Longrightarrow> ask_dir E (hof i) ExportMergedSnapshot w = (Inr (snap i), w)"
  shows "\<exists>m. merge_shard_snapshots E is m0 (a, w) = (Inr m, (a, w)) \<and> dv_header m = dv_header m0
    \<and> dv_files m = overlay (map (\<lambda>i. dv_files (snap i)) is) (dv_files m0)
    \<and> dv_dirs m = overlay (map (\<lambda>i. dv_dirs (snap i)) is) (dv_dirs m0)"
  using assms
proof (induction "is" arbitrary: m0)
  case (Cons i js)
  then show ?case
    using Cons.IH[of "m0\<lparr>dv_dirs := bt_extend (bt_entries (dv_dirs (snap i))) (dv_dirs m0),
        dv_files := bt_extend (bt_entries (dv_files (snap i))) (dv_files m0)\<rparr>"]
    by (auto simp: act_bind_def open_dir_shard_impl_def overlay_def)
qed (simp add: overlay_def)

lemma map_of_rev_entries: "map_of (rev (bt_entries m)) = bt_get m"
proof -
  have "distinct (map fst (bt_entries m))" by (rule entries_distinct)
  then have "map_of (rev (bt_entries m)) k = Some v \<longleftrightarrow> bt_get m k = Some v" for k v
    by (simp add: bt_get_map_of map_of_eq_Some_iff rev_map[symmetric])
  then show ?thesis by (intro ext) (metis option.exhaust)
qed

lemma overlay_get:
  "bt_get (overlay ms m) k =
    (case find (\<lambda>x. bt_get x k \<noteq> None) (rev ms) of None \<Rightarrow> bt_get m k | Some x \<Rightarrow> bt_get x k)"
proof (induction ms arbitrary: m rule: rev_induct)
  case (snoc x ms)
  then show ?case by (auto simp: overlay_def bt_get_extend map_of_rev_entries split: option.splits)
qed (simp add: overlay_def)

text \<open>Maps over disjoint buckets of \<open>M\<close> put together give \<open>M\<close>.\<close>

lemma overlay_buckets:
  assumes "\<And>i n. i \<in> set is \<Longrightarrow> bt_get (g i) n = (if h n = i then bt_get M n else None)"
    and "\<And>n. bt_get M n \<noteq> None \<Longrightarrow> h n \<in> set is" and "bt_is_empty m"
  shows "overlay (map g is) m = M"
proof (rule bt_eqI)
  fix n
  show "bt_get (overlay (map g is) m) n = bt_get M n"
  proof (cases "find (\<lambda>x. bt_get x n \<noteq> None) (rev (map g is))")
    case None
    then have "\<forall>i \<in> set is. bt_get (g i) n = None" by (auto simp: find_None_iff)
    then have "bt_get M n = None" using assms(1,2) by metis
    then show ?thesis using None assms(3) by (simp add: overlay_get bt_is_empty_iff)
  next
    case (Some x)
    then have "x \<in> set (rev (map g is))" "bt_get x n \<noteq> None" unfolding find_Some_iff using nth_mem by blast+
    then obtain i where "i \<in> set is" "x = g i" "bt_get x n \<noteq> None" by auto
    then show ?thesis using Some assms(1) by (auto simp: overlay_get split: if_splits)
  qed
qed

section \<open>Properties\<close>

text \<open>Sharding is invisible: when a directory is split as a whole (its own maps are empty, every bucket
  with entries has a shard) and each shard answers with the entries of its bucket, the merged snapshot of
  the directory has exactly the original files and directories, without any shard layout.\<close>

theorem sharded_view_is_flat:
  assumes "dh_shards (dv_header (da_state a)) = Some shards"
    and "bt_is_empty (dv_dirs (da_state a))" and "bt_is_empty (dv_files (da_state a))"
    and "\<And>i. i \<in> set (bt_keys shards) \<Longrightarrow> bt_get (da_dir_shard_handles a) i = Some (hof i)"
    and "\<And>i. i \<in> set (bt_keys shards) \<Longrightarrow> ask_dir E (hof i) ExportMergedSnapshot w = (Inr (snap i), w)"
    and "\<And>i n. i \<in> set (bt_keys shards) \<Longrightarrow>
      bt_get (dv_files (snap i)) n = (if shard_index (fe_xxh3 E) n level = i then bt_get (dv_files st) n else None)
      \<and> bt_get (dv_dirs (snap i)) n = (if shard_index (fe_xxh3 E) n level = i then bt_get (dv_dirs st) n else None)"
    and "\<And>n. bt_get (dv_files st) n \<noteq> None \<or> bt_get (dv_dirs st) n \<noteq> None \<Longrightarrow>
      shard_index (fe_xxh3 E) n level \<in> set (bt_keys shards)"
  shows "\<exists>m. export_merged_snapshot E (a, w) = (Inr m, (a, w)) \<and> dv_dirs m = dv_dirs st \<and> dv_files m = dv_files st
    \<and> dh_shard_level (dv_header m) = None \<and> dh_shards (dv_header m) = None"
proof -
  obtain m where m: "merge_shard_snapshots E (bt_keys shards) (da_state a) (a, w) = (Inr m, (a, w))"
    "dv_files m = overlay (map (\<lambda>i. dv_files (snap i)) (bt_keys shards)) (dv_files (da_state a))"
    "dv_dirs m = overlay (map (\<lambda>i. dv_dirs (snap i)) (bt_keys shards)) (dv_dirs (da_state a))"
    using merge_shards_overlay[of "bt_keys shards" a hof E w snap "da_state a", OF assms(4,5)] by blast
  have "dv_files m = dv_files st" unfolding m(2)
    by (rule overlay_buckets[where h = "\<lambda>n. shard_index (fe_xxh3 E) n level"]) (use assms(3,6,7) in auto)
  moreover have "dv_dirs m = dv_dirs st" unfolding m(3)
    by (rule overlay_buckets[where h = "\<lambda>n. shard_index (fe_xxh3 E) n level"]) (use assms(2,6,7) in auto)
  ultimately show ?thesis using m(1) assms(1) by (simp add: export_merged_snapshot_def act_bind_def)
qed

definition demo_flat :: dir_v1 where
  "demo_flat = DirV1_new\<lparr>dv_files := bt_insert ''a'' (FileRef_new (fill32 7) 3) bt_empty\<rparr>"

definition demo_split :: dir_actor where
  "demo_split = (demo_child (DirV1_new\<lparr>dv_header := DirHeader_new\<lparr>dh_shard_level := Some 0,
     dh_shards := Some (bt_insert 1 (DirRef_from_hash (fill32 0)) bt_empty)\<rparr>\<rparr>))\<lparr>da_dir_shard_handles := bt_insert 1 5 bt_empty\<rparr>"

definition demo_shard_env :: "mem_fs fs_env" where
  "demo_shard_env = demo_mem_env\<lparr>fe_ask := \<lambda>_ _. act_ok (AnsDir (Inr demo_flat))\<rparr>"

theorem sharded_view_is_flat_witness:
  "\<exists>m. export_merged_snapshot demo_shard_env (demo_split, (MemoryStore_new, MemoryRegistry_new, bt_empty)) =
      (Inr m, (demo_split, (MemoryStore_new, MemoryRegistry_new, bt_empty))) \<and> dv_files m = dv_files demo_flat"
proof -
  let ?w = "(MemoryStore_new, MemoryRegistry_new, bt_empty) :: mem_fs"
  let ?shards = "bt_insert 1 (DirRef_from_hash (fill32 0)) bt_empty :: (u8, dir_ref) btree"
  have ix: "shard_index (fe_xxh3 demo_shard_env) ''a'' 0 = 1"
    by (simp add: shard_index_def demo_shard_env_def demo_mem_env_def mem_env_def)
  have keys: "i \<in> set (bt_keys ?shards) \<longleftrightarrow> i = 1" for i by (simp add: bt_keys_iff)
  have flat: "bt_get (dv_dirs demo_flat) n = None" "bt_get (dv_files demo_flat) n = None \<or> n = ''a''" for n
    by (simp_all add: demo_flat_def DirV1_new_def)
  have "\<exists>m. export_merged_snapshot demo_shard_env (demo_split, ?w) = (Inr m, (demo_split, ?w))
      \<and> dv_dirs m = dv_dirs demo_flat \<and> dv_files m = dv_files demo_flat
      \<and> dh_shard_level (dv_header m) = None \<and> dh_shards (dv_header m) = None"
  proof (rule sharded_view_is_flat[where shards = ?shards and hof = "\<lambda>_. 5" and snap = "\<lambda>_. demo_flat" and level = 0])
    show "dh_shards (dv_header (da_state demo_split)) = Some ?shards" "bt_is_empty (dv_dirs (da_state demo_split))"
      "bt_is_empty (dv_files (da_state demo_split))"
      by (simp_all add: demo_split_def demo_child_def DirV1_new_def bt_is_empty_iff)
    show "bt_get (da_dir_shard_handles demo_split) i = Some 5" if "i \<in> set (bt_keys ?shards)" for i
      using that by (simp add: keys demo_split_def)
    show "ask_dir demo_shard_env 5 ExportMergedSnapshot ?w = (Inr demo_flat, ?w)"
      by (simp add: ask_dir_def demo_shard_env_def act_bind_def)
  qed (use ix flat keys in metis)+
  then show ?thesis by blast
qed

text \<open>The snapshot index never overwrites a snapshot: while it has fewer than \<open>2 ^ 32 - 1\<close> entries an
  insert always ends and picks a name that is not in use, so that the listing gains exactly the new entry and
  keeps all others; removing a name takes away exactly that entry and reports its hash; and an index that
  was written reads back unchanged.\<close>

theorem snapshot_index_keeps_entries:
  assumes "bt_len (dv_dirs (si_dir idx)) < 2 ^ 32 - 1"
    and "dir_codec_ok (fe_codec E)" and "fe_read_file E (snapshots_path root) w = Inr (DirV1_to_bytes (fe_codec E) d)"
  shows "\<exists>name idx'. SnapshotIndex_insert_snapshot idx now h = Some ((name, h), idx')
      \<and> bt_get (dv_dirs (si_dir idx)) name = None
      \<and> set (SnapshotIndex_list idx') = insert (name, h) (set (SnapshotIndex_list idx))
      \<and> set (SnapshotIndex_list (snd (SnapshotIndex_remove_snapshot idx' name))) = set (SnapshotIndex_list idx)
      \<and> fst (SnapshotIndex_remove_snapshot idx' name) = Some h
      \<and> SnapshotIndex_open E root w = Inr \<lparr>si_path = snapshots_path root, si_dir = d\<rparr>"
proof -
  obtain name where n: "unique_name (dv_dirs (si_dir idx)) (fx_rfc3339 now) 1 (fx_rfc3339 now) = Some name"
    using unique_name_total[OF assms(1)] by blast
  have fresh: "bt_get (dv_dirs (si_dir idx)) name = None" by (rule unique_name_fresh[OF n])
  have lst: "(m, x) \<in> set (SnapshotIndex_list j) \<longleftrightarrow> (\<exists>r. bt_get (dv_dirs (si_dir j)) m = Some r \<and> x = dr_hash r)" for m x j
    by (auto simp: SnapshotIndex_list_def bt_get_Some_iff intro: rev_image_eqI)
  have "SnapshotIndex_open E root w = Inr \<lparr>si_path = snapshots_path root, si_dir = d\<rparr>"
    using assms(2,3) by (simp add: SnapshotIndex_open_def Let_def DirV1_to_bytes_def DirV1_from_bytes_def dir_codec_ok_def)
  then show ?thesis
    using n fresh
    by (auto simp: SnapshotIndex_insert_snapshot_def SnapshotIndex_remove_snapshot_def Let_def lst split: if_splits)
qed

theorem snapshot_index_keeps_entries_witness:
  "\<exists>name idx'. SnapshotIndex_insert_snapshot \<lparr>si_path = ''/r/snapshots.fs5.cbor'', si_dir = DirV1_new\<rparr> demo_fresh (fill32 1)
      = Some ((name, fill32 1), idx') \<and> set (SnapshotIndex_list idx') = {(name, fill32 1)}"
proof -
  let ?w = "(MemoryStore_new, MemoryRegistry_new,
    bt_insert (snapshots_path ''/r'') (DirV1_to_bytes demo_dir_codec DirV1_new) bt_empty) :: mem_fs"
  have c: "fe_codec demo_mem_env = demo_dir_codec" by (simp add: demo_mem_env_def mem_env_def)
  have "fe_read_file demo_mem_env (snapshots_path ''/r'') ?w = Inr (DirV1_to_bytes (fe_codec demo_mem_env) DirV1_new)"
    by (simp add: demo_mem_env_def mem_env_def)
  from snapshot_index_keeps_entries[OF _ _ this, of "\<lparr>si_path = ''/r/snapshots.fs5.cbor'', si_dir = DirV1_new\<rparr>" demo_fresh "fill32 1"]
  show ?thesis
    using demo_dir_codec_ok by (auto simp: c DirV1_new_def bt_len_def SnapshotIndex_list_def)
qed

text \<open>Two snapshots of the same directory state share one pin: after two snapshots with the same root hash,
  deleting one of them removes the snapshot pin of that hash although the other snapshot is still listed in the
  index and refers to it.\<close>

theorem delete_shared_snapshot_unpins:
  assumes "pins_contract P pinned pinv room" and "fe_pins E = Some P"
    and "cx_link (da_context a) = LinkLocalFile path" and "path_parent path = Some root"
    and "SnapshotIndex_open E root w = Inr idx" and "name \<noteq> other"
    and "bt_get (dv_dirs (si_dir idx)) name = Some r" and "bt_get (dv_dirs (si_dir idx)) other = Some r'"
    and "dr_hash r = h" and "dr_hash r' = h"
    and "SnapshotIndex_persist E (snd (SnapshotIndex_remove_snapshot idx name)) w = (Inr (), w1)" and "pinv w1" and "room w1"
    and "pn_unpin_hash P h (LocalFsSnapshot h) w1 = (Inr orphaned, w2)"
  shows "delete_snapshot E name (a, w) = (Inr (), (a, w2))
    \<and> (other, h) \<in> set (SnapshotIndex_list (snd (SnapshotIndex_remove_snapshot idx name)))
    \<and> LocalFsSnapshot h \<notin> pinned w2 h"
proof -
  have "LocalFsSnapshot h \<notin> pinned w2 h"
    using pins_contract.unpin_law[OF assms(1,12,13,14)] by (auto simp: fun_eq_iff)
  moreover have "(other, h) \<in> set (SnapshotIndex_list (snd (SnapshotIndex_remove_snapshot idx name)))"
    using assms(6,8,10)
    by (auto simp: SnapshotIndex_list_def SnapshotIndex_remove_snapshot_def bt_get_Some_iff[symmetric] intro!: image_eqI[of _ _ "(other, r')"])
  moreover have "delete_snapshot E name (a, w) = (Inr (), (a, w2))"
    using assms(2-5,7,9,11,14)
    by (simp add: delete_snapshot_def act_bind_def local_snapshots_root_def SnapshotIndex_remove_snapshot_def)
  ultimately show ?thesis by blast
qed

text \<open>A world for the witness: two snapshots of one hash in the index, and its pin in the registry.\<close>

definition demo_actor_at :: "string \<Rightarrow> dir_actor" where
  "demo_actor_at path = DirActor_new (DirContext_new (LinkLocalFile path)) None None"

definition demo_pins :: "mem_fs pins" where
  "demo_pins = pins_on_snd (pins_on_fst (RegistryPinner demo_pin_codec MemoryRegistry))"

definition demo_pinned_env :: "mem_fs fs_env" where
  "demo_pinned_env = demo_mem_env\<lparr>fe_pins := Some demo_pins\<rparr>"

definition demo_two_snapshots :: dir_v1 where
  "demo_two_snapshots = DirV1_new\<lparr>dv_dirs := bt_insert ''s1'' (DirRef_from_hash (fill32 6)) (bt_insert ''s2'' (DirRef_from_hash (fill32 6)) bt_empty)\<rparr>"

lemma demo_pins_contract:
  "pins_contract demo_pins (\<lambda>w. pins_of demo_pin_codec (bt_get (fst (snd w))))
    (\<lambda>w. pin_codec_ok demo_pin_codec \<and> True \<and> pins_ok demo_pin_codec (bt_get (fst (snd w)))) (\<lambda>w. pins_room (bt_get (fst (snd w))))"
  unfolding demo_pins_def
  by (rule pins_contract.on_snd_contract[OF pins_contract.pins_on_fst_contract[OF memory_pinner.pins_contract_axioms]])

theorem delete_shared_snapshot_unpins_witness:
  "\<exists>w w2. delete_snapshot demo_pinned_env ''s1'' (demo_actor_at ''/r/root.fs5.cbor'', w) = (Inr (), (demo_actor_at ''/r/root.fs5.cbor'', w2))
    \<and> LocalFsSnapshot (fill32 6) \<notin> pins_of demo_pin_codec (bt_get (fst (snd w2))) (fill32 6)"
proof -
  let ?idx = "\<lparr>si_path = snapshots_path ''/r'', si_dir = demo_two_snapshots\<rparr>"
  let ?idx1 = "snd (SnapshotIndex_remove_snapshot ?idx ''s1'')"
  let ?f = "bt_insert (snapshots_path ''/r'') (DirV1_to_bytes demo_dir_codec demo_two_snapshots) bt_empty"
  let ?w = "(MemoryStore_new, MemoryRegistry_new, ?f) :: mem_fs"
  let ?w1 = "(MemoryStore_new, MemoryRegistry_new, bt_insert (snapshots_path ''/r'') (DirV1_to_bytes demo_dir_codec (si_dir ?idx1)) ?f) :: mem_fs"
  have env: "fe_codec demo_pinned_env = demo_dir_codec" "fe_pins demo_pinned_env = Some demo_pins"
    by (simp_all add: demo_pinned_env_def demo_mem_env_def mem_env_def)
  have op: "SnapshotIndex_open demo_pinned_env ''/r'' ?w = Inr ?idx"
    using demo_dir_codec_ok
    by (simp add: SnapshotIndex_open_def env demo_pinned_env_def demo_mem_env_def mem_env_def Let_def
        DirV1_to_bytes_def DirV1_from_bytes_def dir_codec_ok_def)
  have pp: "path_parent (snapshots_path ''/r'') = Some ''/r''" "path_parent ''/r/root.fs5.cbor'' = Some ''/r''"
    by (simp_all add: path_parent_def snapshots_path_def path_join_def)
  have pz: "SnapshotIndex_persist demo_pinned_env ?idx1 ?w = (Inr (), ?w1)"
    using pp by (simp add: SnapshotIndex_persist_def SnapshotIndex_remove_snapshot_def env demo_pinned_env_def demo_mem_env_def mem_env_def)
  have ok: "pin_codec_ok demo_pin_codec \<and> True \<and> pins_ok demo_pin_codec (bt_get (fst (snd ?w1)))" "pins_room (bt_get (fst (snd ?w1)))"
    using demo_pin_codec_ok by (simp_all add: pins_ok_def pins_room_def MemoryRegistry_new_def)
  have un: "pn_unpin_hash demo_pins (fill32 6) (LocalFsSnapshot (fill32 6)) ?w1 = (Inr True, ?w1)"
    by (simp add: demo_pins_def pins_on_snd_def pins_on_fst_def RegistryPinner_def unpin_hash_def Let_def act_bind_def
        get_internal_def memory_registry_defs MemoryRegistry_new_def)
  have refs: "bt_get (dv_dirs (si_dir ?idx)) ''s1'' = Some (DirRef_from_hash (fill32 6))"
    "bt_get (dv_dirs (si_dir ?idx)) ''s2'' = Some (DirRef_from_hash (fill32 6))" "dr_hash (DirRef_from_hash (fill32 6)) = fill32 6"
    by (simp_all add: demo_two_snapshots_def DirRef_from_hash_def)
  have link: "cx_link (da_context (demo_actor_at ''/r/root.fs5.cbor'')) = LinkLocalFile ''/r/root.fs5.cbor''"
    by (simp add: demo_actor_at_def DirActor_new_def DirContext_new_def)
  have ne: "''s1'' \<noteq> ''s2''" by simp
  from delete_shared_snapshot_unpins[OF demo_pins_contract env(2) link pp(2) op ne refs(1,2,3,3) pz ok un]
  show ?thesis by blast
qed

end
