(* ===== verification/Actor_Loop.thy ===== *)
theory Actor_Loop
  imports Merge Listing Snapshots
begin

text \<open>
  The message loop of a directory actor: \<^verbatim>\<open>s5_fs/src/actor.rs\<close>, with the recursive flush of
  \<^verbatim>\<open>s5_fs/src/actor/persistence.rs\<close> and the handlers of \<^verbatim>\<open>listing.rs\<close>, \<^verbatim>\<open>snapshots.rs\<close> and \<^verbatim>\<open>merge.rs\<close> that
  send messages to other actors. A message that is forwarded to a child is delivered before the
  handler returns, one of the orders in which the actors may run.
\<close>

section \<open>Routing\<close>

definition first_component :: "string \<Rightarrow> string \<times> string" where
  "first_component path = (case split_once path of Some (d, r) \<Rightarrow> (d, r) | None \<Rightarrow> (path, ''''))"

definition route_to_child :: "'w fs_env \<Rightarrow> string \<Rightarrow> ('w, (actor_id \<times> string) option) handler" where
  "route_to_child E path =
    (case first_component path of (dir_name, rest) \<Rightarrow>
       let direct = act_bind (self_get da_state) (\<lambda>state.
             if bt_contains (dv_dirs state) dir_name
             then act_bind (open_dir E dir_name None) (\<lambda>handle. act_ok (Some (handle, rest)))
             else act_ok None)
       in act_bind (self_get (\<lambda>a. dv_header (da_state a))) (\<lambda>header.
          case dh_shard_level header of
            Some shard_level \<Rightarrow>
              (case shard_bucket_for (fe_xxh3 E) dir_name shard_level of
                 None \<Rightarrow> act_err panicked
               | Some index \<Rightarrow>
                  (case dh_shards header of
                     Some shards \<Rightarrow>
                       if bt_contains shards index
                       then act_bind (open_dir_shard_impl E index None) (\<lambda>handle. act_ok (Some (handle, path)))
                       else direct
                   | None \<Rightarrow> direct))
          | None \<Rightarrow> direct))"

section \<open>Flushing\<close>

fun save_children :: "'w fs_env \<Rightarrow> ('k \<times> actor_id) list \<Rightarrow> 'w \<Rightarrow> (error + hash option) list \<times> 'w" where
  "save_children E [] w = ([], w)"
| "save_children E ((k, h) # rest) w =
    (case ask_hash_opt E h SaveIfDirty w of (r, w) \<Rightarrow>
     case save_children E rest w of (rs, w) \<Rightarrow> (r # rs, w))"

definition note_shard_hash :: "(u8 \<times> actor_id) \<times> (error + hash option) \<Rightarrow> dir_actor \<Rightarrow> dir_actor" where
  "note_shard_hash e a =
    (case e of ((index, _), result) \<Rightarrow>
       case result of
         Inr (Some hash) \<Rightarrow>
           (case dh_shards (dv_header (da_state a)) of
              Some shards \<Rightarrow>
                (case bt_get shards index of
                   Some dir_ref \<Rightarrow>
                     if dr_hash dir_ref \<noteq> hash
                     then (set_shards (map_option (bt_insert index (dir_ref\<lparr>dr_hash := hash\<rparr>))) a)\<lparr>da_dirty := True\<rparr>
                     else a
                 | None \<Rightarrow> a)
            | None \<Rightarrow> a)
       | _ \<Rightarrow> a)"

definition note_dir_hash :: "(string \<times> actor_id) \<times> (error + hash option) \<Rightarrow> dir_actor \<Rightarrow> dir_actor" where
  "note_dir_hash e a =
    (case e of ((name, _), result) \<Rightarrow>
       case result of
         Inr (Some hash) \<Rightarrow>
           (case bt_get (dv_dirs (da_state a)) name of
              Some dir_ref \<Rightarrow>
                if dr_hash dir_ref \<noteq> hash
                then a\<lparr>da_state := (da_state a)\<lparr>dv_dirs := bt_insert name (dir_ref\<lparr>dr_hash := hash\<rparr>) (dv_dirs (da_state a))\<rparr>,
                       da_dirty := True\<rparr>
                else a
            | None \<Rightarrow> a)
       | _ \<Rightarrow> a)"

definition is_root :: "dir_actor \<Rightarrow> bool" where
  "is_root a = (case cx_link (da_context a) of LinkRegistryKey _ _ \<Rightarrow> True | LinkLocalFile _ \<Rightarrow> True | _ \<Rightarrow> False)"

definition save_if_dirty :: "'w fs_env \<Rightarrow> ('w, hash option) handler" where
  "save_if_dirty E =
    act_bind (self_get id) (\<lambda>self.
    if da_dirty self \<or> is_root self then
      act_bind (shard_if_needed E) (\<lambda>_.
      act_bind (self_get id) (\<lambda>self.
      let shard_handles = bt_entries (da_dir_shard_handles self);
          dir_handles = bt_entries (da_dir_handles self)
      in (\<lambda>(a, w).
        case save_children E shard_handles w of (shard_results, w) \<Rightarrow>
        case save_children E dir_handles w of (dir_results, w) \<Rightarrow>
        let a = fold note_shard_hash (zip shard_handles shard_results) a;
            a = fold note_dir_hash (zip dir_handles dir_results) a
        in if da_dirty a then
             act_bind (save E False) (\<lambda>res.
             act_bind (self_set (\<lambda>a. a\<lparr>da_dirty := False\<rparr>)) (\<lambda>_. act_ok res)) (a, w)
           else (Inr None, (a, w)))))
    else act_ok None)"

section \<open>Handlers that ask other actors\<close>

definition list_entries :: "'w fs_env \<Rightarrow> string option \<Rightarrow> nat \<Rightarrow> ('w, list_result) handler" where
  "list_entries E cursor limit =
    act_bind (export_merged_snapshot E) (\<lambda>snapshot. act_ok (list_page E snapshot cursor limit))"

definition list_at_path :: "'w fs_env \<Rightarrow> string \<Rightarrow> string option \<Rightarrow> nat \<Rightarrow> ('w, list_result) handler" where
  "list_at_path E path cursor limit =
    (if path = [] then list_entries E cursor limit
     else act_bind (route_to_child E path) (\<lambda>child.
       case child of
         Some (handle, next_path) \<Rightarrow> on_snd (ask_list E handle (ListAt next_path cursor limit))
       | None \<Rightarrow> act_err (Anyhow ''directory not found'')))"

definition export_snapshot_at :: "'w fs_env \<Rightarrow> string \<Rightarrow> ('w, dir_v1) handler" where
  "export_snapshot_at E path =
    (if path = [] then self_get da_state
     else act_bind (route_to_child E path) (\<lambda>child.
       case child of
         Some (handle, next_path) \<Rightarrow> on_snd (ask_dir E handle (ExportSnapshotAt next_path))
       | None \<Rightarrow> act_err (Anyhow ''directory not found'')))"

definition export_merged_snapshot_at :: "'w fs_env \<Rightarrow> string \<Rightarrow> ('w, dir_v1) handler" where
  "export_merged_snapshot_at E path =
    (if path = [] then export_merged_snapshot E
     else act_bind (route_to_child E path) (\<lambda>child.
       case child of
         Some (handle, next_path) \<Rightarrow> on_snd (ask_dir E handle (ExportMergedSnapshotAt next_path))
       | None \<Rightarrow> act_err (Anyhow ''directory not found'')))"

text \<open>The entries of a snapshot grouped by bucket.\<close>

definition group_entries :: "(string \<Rightarrow> u64) \<Rightarrow> u8 \<Rightarrow> (string, 'v) btree \<Rightarrow> (u8, (string, 'v) btree) btree" where
  "group_entries xxh3 level entries =
    fold (\<lambda>(name, v) groups.
      let bucket = shard_index xxh3 name level;
          group = (case bt_get groups bucket of Some g \<Rightarrow> g | None \<Rightarrow> bt_empty)
      in bt_insert bucket (bt_insert name v group) groups) (bt_entries entries) bt_empty"

fun merge_buckets ::
  "'w fs_env \<Rightarrow> (u8, (string, dir_ref) btree) btree \<Rightarrow> (u8, (string, file_ref) btree) btree \<Rightarrow> u8 list \<Rightarrow> ('w, unit) handler" where
  "merge_buckets E shard_dirs shard_files [] = act_ok ()"
| "merge_buckets E shard_dirs shard_files (bucket # rest) =
    (let bucket_dirs = (case bt_get shard_dirs bucket of Some m \<Rightarrow> m | None \<Rightarrow> bt_empty);
         bucket_files = (case bt_get shard_files bucket of Some m \<Rightarrow> m | None \<Rightarrow> bt_empty);
         shard_snapshot = DirV1_new\<lparr>dv_dirs := bucket_dirs, dv_files := bucket_files\<rparr>
     in act_bind (self_get (\<lambda>a. dh_shards (dv_header (da_state a)))) (\<lambda>shards.
        if (case shards of Some s \<Rightarrow> bt_contains s bucket | None \<Rightarrow> False) then
          act_bind (open_dir_shard_impl E bucket None) (\<lambda>handle.
          act_bind (on_snd (ask_done E handle (MergeSnapshot shard_snapshot))) (\<lambda>_.
          merge_buckets E shard_dirs shard_files rest))
        else merge_buckets E shard_dirs shard_files rest))"

definition merge_snapshot_into_shards ::
  "'w fs_env \<Rightarrow> u8 \<Rightarrow> (string, dir_ref) btree \<Rightarrow> (string, file_ref) btree \<Rightarrow> dir_header \<Rightarrow> ('w, unit) handler" where
  "merge_snapshot_into_shards E shard_level dirs files remote_header =
    (if shard_level > MAX_SHARD_LEVEL \<and> \<not> (bt_is_empty dirs \<and> bt_is_empty files) then act_err panicked
     else
       let shard_dirs = group_entries (fe_xxh3 E) shard_level dirs;
           shard_files = group_entries (fe_xxh3 E) shard_level files;
           buckets = sorted_list_of_set (set (bt_keys shard_dirs) \<union> set (bt_keys shard_files))
       in act_bind (merge_buckets E shard_dirs shard_files buckets) (\<lambda>_.
          act_bind (self_set (merge_header_fields remote_header)) (\<lambda>_.
          mark_as_dirty E)))"

definition merge_snapshot :: "'w fs_env \<Rightarrow> dir_v1 \<Rightarrow> ('w, unit) handler" where
  "merge_snapshot E snapshot =
    act_bind (self_get (\<lambda>a. dh_shard_level (dv_header (da_state a)))) (\<lambda>level.
    case level of
      Some shard_level \<Rightarrow>
        merge_snapshot_into_shards E shard_level (dv_dirs snapshot) (dv_files snapshot) (dv_header snapshot)
    | None \<Rightarrow>
        act_bind (self_set (merge_entries_local (dv_dirs snapshot) (dv_files snapshot))) (\<lambda>_.
        act_bind (self_set (merge_header_fields (dv_header snapshot))) (\<lambda>_.
        mark_as_dirty E)))"

definition open_subdir :: "'w fs_env \<Rightarrow> string \<Rightarrow> ('w, actor_id) handler" where
  "open_subdir E path =
    act_bind (route_to_child E path) (\<lambda>child.
    case child of
      Some (handle, next_path) \<Rightarrow>
        if next_path = [] then act_ok handle else on_snd (ask_handle E handle (OpenSubdir next_path))
    | None \<Rightarrow>
        case first_component path of (first, rest) \<Rightarrow>
        act_bind (self_get id) (\<lambda>self.
        act_bind (if bt_contains (dv_dirs (da_state self)) first then act_ok ()
                  else create_dir_at E first (cx_encryption_type (da_context self) \<noteq> None)) (\<lambda>_.
        act_bind (open_dir E first None) (\<lambda>handle.
        if rest = [] then act_ok handle else on_snd (ask_handle E handle (OpenSubdir rest))))))"

definition update_dir_ref_hash :: "'w fs_env \<Rightarrow> dir_handle_path \<Rightarrow> hash \<Rightarrow> ('w, bool) handler" where
  "update_dir_ref_hash E path hash =
    act_bind (self_get da_state) (\<lambda>state.
    case path of
      HandlePath p \<Rightarrow>
        (case bt_get (dv_dirs state) p of
           None \<Rightarrow> act_err (Anyhow ''dir does not exist'')
         | Some dir_ref \<Rightarrow>
            if dr_hash dir_ref = hash then act_ok False
            else act_bind (self_set (\<lambda>a. a\<lparr>da_state := state\<lparr>dv_dirs := bt_insert p (dir_ref\<lparr>dr_hash := hash\<rparr>) (dv_dirs state)\<rparr>\<rparr>)) (\<lambda>_.
                 act_bind (mark_as_dirty E) (\<lambda>_. act_ok True)))
    | HandleShard index \<Rightarrow>
        (case (case dh_shards (dv_header state) of None \<Rightarrow> None | Some s \<Rightarrow> bt_get s index) of
           None \<Rightarrow> act_err (Anyhow ''dir shard not exist'')
         | Some dir_ref \<Rightarrow>
            if dr_hash dir_ref = hash then act_ok False
            else act_bind (self_set (set_shards (map_option (bt_insert index (dir_ref\<lparr>dr_hash := hash\<rparr>))))) (\<lambda>_.
                 act_bind (mark_as_dirty E) (\<lambda>_. act_ok True))))"

fun tell_all :: "'w fs_env \<Rightarrow> actor_id list \<Rightarrow> actor_message \<Rightarrow> ('w, unit) action" where
  "tell_all E [] msg = act_ok ()"
| "tell_all E (h # hs) msg = act_bind (act_ignore (fe_tell E h msg)) (\<lambda>_. tell_all E hs msg)"

definition autosave_tick :: "'w fs_env \<Rightarrow> ('w, unit) handler" where
  "autosave_tick E =
    act_bind (self_set (\<lambda>a. a\<lparr>da_autosave_timer_active := False\<rparr>)) (\<lambda>_.
    act_bind (self_get da_dirty) (\<lambda>dirty.
    if dirty then
      act_bind (shard_if_needed E) (\<lambda>_.
      (\<lambda>s. case save E True s of
             (Inr _, (a, w)) \<Rightarrow> (Inr (), (a\<lparr>da_dirty := False\<rparr>, w))
           | (Inl _, s) \<Rightarrow> (Inr (), s)))
    else act_ok ()))"

section \<open>Processing a message\<close>

text \<open>How a handler ends: normally, by returning early, or with an error that the loop logs. A panic
  unwinds the handler, so its responder is dropped unused.\<close>

datatype step_outcome = Finished | Returned | Failed error

type_synonym 'w processed = "((actor_answer \<times> step_outcome) \<times> dir_actor \<times> 'w) option"

definition answering :: "((error + 'a) \<Rightarrow> actor_answer) \<Rightarrow> ('w, 'a) handler \<Rightarrow> dir_actor \<times> 'w \<Rightarrow> 'w processed" where
  "answering f m s =
    (case m s of (r, s') \<Rightarrow>
       Some (if r = Inl panicked then (Dropped, Failed panicked) else (f r, Finished), s'))"

definition silent :: "('w, unit) handler \<Rightarrow> dir_actor \<times> 'w \<Rightarrow> 'w processed" where
  "silent m s = (case m s of (Inl e, s') \<Rightarrow> Some ((AnsEmpty, Failed e), s') | (Inr _, s') \<Rightarrow> Some ((AnsEmpty, Finished), s'))"

definition file_op :: "'w fs_env \<Rightarrow> string \<Rightarrow> file_task \<Rightarrow> dir_actor \<times> 'w \<Rightarrow> 'w processed" where
  "file_op E path task s =
    (case s of (a, w) \<Rightarrow>
     let state = da_state a;
         a = a\<lparr>da_state := state\<lparr>dv_files := bt_remove path (dv_files state)\<rparr>\<rparr>
     in case task (bt_get (dv_files state) path) of
          (Some file_ref, result) \<Rightarrow>
            let a = a\<lparr>da_state := (da_state a)\<lparr>dv_files := bt_insert path file_ref (dv_files (da_state a))\<rparr>\<rparr>
            in (case act_bind (check_auto_promote E path) (\<lambda>_. mark_as_dirty E) (a, w) of
                  (Inl e, s) \<Rightarrow> Some ((AnsValue result, Failed e), s)
                | (Inr _, s) \<Rightarrow> Some ((AnsValue result, Finished), s))
        | (None, result) \<Rightarrow> (case mark_as_dirty E (a, w) of (_, s) \<Rightarrow> Some ((AnsValue result, Finished), s)))"

fun process_core :: "'w fs_env \<Rightarrow> actor_message \<Rightarrow> dir_actor \<times> 'w \<Rightarrow> 'w processed" where
  "process_core E (PathOp path op) s =
    (case route_to_child E path s of
       (Inl e, s) \<Rightarrow> Some ((Dropped, Failed e), s)
     | (Inr (Some (handle, next_path)), (a, w)) \<Rightarrow>
        (case fe_ask E handle (PathOp next_path op) w of
           (Inr answer, w) \<Rightarrow> Some ((answer, Returned), (a, w))
         | (Inl _, w) \<Rightarrow> Some ((Dropped, Returned), (a, w)))
     | (Inr None, s) \<Rightarrow>
        (case op of
           FileOp task \<Rightarrow> file_op E path task s
         | CreateDir enable_encryption \<Rightarrow> answering AnsDone (create_dir_at E path enable_encryption) s))"
| "process_core E (OpenSubdir path) s = answering AnsHandle (open_subdir E path) s"
| "process_core E (UpdateDirRefHash path hash) s =
    (case update_dir_ref_hash E path hash s of
       (Inl e, s) \<Rightarrow> Some ((AnsEmpty, Failed e), s)
     | (Inr changed, s) \<Rightarrow> Some ((AnsEmpty, if changed then Finished else Returned), s))"
| "process_core E SaveIfDirty s = answering AnsHashOpt (save_if_dirty E) s"
| "process_core E (ListMsg cursor limit) s = answering AnsList (list_entries E cursor limit) s"
| "process_core E (ListAt path cursor limit) s = answering AnsList (list_at_path E path cursor limit) s"
| "process_core E ExportSnapshot s = answering AnsDir (self_get da_state) s"
| "process_core E ExportMergedSnapshot s = answering AnsDir (export_merged_snapshot E) s"
| "process_core E (ExportSnapshotAt path) s = answering AnsDir (export_snapshot_at E path) s"
| "process_core E (ExportMergedSnapshotAt path) s = answering AnsDir (export_merged_snapshot_at E path) s"
| "process_core E (MergeSnapshot snapshot) s = answering AnsDone (merge_snapshot E snapshot) s"
| "process_core E (SetAutosave debounce_ms) s =
    silent (act_bind (self_set (\<lambda>a. a\<lparr>da_autosave_debounce_ms := Some debounce_ms\<rparr>)) (\<lambda>_.
            act_bind (self_get id) (\<lambda>self.
            on_snd (tell_all E (bt_vals (da_dir_handles self) @ bt_vals (da_dir_shard_handles self)) (SetAutosave debounce_ms))))) s"
| "process_core E AutosaveTick s = silent (autosave_tick E) s"
| "process_core E MarkAsDirty s = silent (mark_as_dirty E) s"
| "process_core E ExportSnapshotHash s = answering AnsHash (export_snapshot_hash E) s"
| "process_core E CreateSnapshot s = map_option (\<lambda>(r, s). ((AnsSnapshot r, Finished), s)) (create_snapshot E s)"
| "process_core E (DeleteSnapshot name) s = answering AnsDone (delete_snapshot E name) s"
| "process_core E Shutdown s = Some ((AnsEmpty, Finished), s)"

text \<open>After a handler that did not return early, a dirty actor with autosave arms its timer once.\<close>

definition arm_autosave :: "'w fs_env \<Rightarrow> ('w, unit) handler" where
  "arm_autosave E =
    act_bind (self_get id) (\<lambda>self.
    case da_autosave_debounce_ms self of
      Some ms \<Rightarrow>
        if da_dirty self \<and> \<not> da_autosave_timer_active self then
          act_bind (self_set (\<lambda>a. a\<lparr>da_autosave_timer_active := True\<rparr>)) (\<lambda>_.
          case da_handle self of
            Some me \<Rightarrow> act_ignore (on_snd (fe_autosave_tick_after E ms me))
          | None \<Rightarrow> act_ok ())
        else act_ok ()
    | None \<Rightarrow> act_ok ())"

definition process_msg :: "'w fs_env \<Rightarrow> actor_message \<Rightarrow> dir_actor \<times> 'w \<Rightarrow> 'w processed" where
  "process_msg E msg s =
    (case process_core E msg s of
       None \<Rightarrow> None
     | Some ((answer, Finished), s) \<Rightarrow> Some ((answer, Finished), snd (arm_autosave E s))
     | Some (r, s) \<Rightarrow> Some (r, s))"

section \<open>The loop\<close>

definition shutdown_save :: "'w fs_env \<Rightarrow> dir_actor \<times> 'w \<Rightarrow> dir_actor \<times> 'w" where
  "shutdown_save E s =
    (if da_dirty (fst s) then snd (save E False (snd (shard_if_needed E s))) else s)"

fun ask_all :: "'w fs_env \<Rightarrow> actor_id list \<Rightarrow> actor_message \<Rightarrow> 'w \<Rightarrow> 'w" where
  "ask_all E [] msg w = w"
| "ask_all E (h # hs) msg w = ask_all E hs msg (snd (fe_ask E h msg w))"

definition shut_down :: "'w fs_env \<Rightarrow> dir_actor \<times> 'w \<Rightarrow> dir_actor \<times> 'w" where
  "shut_down E s =
    (case shutdown_save E s of (a, w) \<Rightarrow>
       (a, ask_all E (bt_vals (da_dir_handles a) @ bt_vals (da_dir_shard_handles a)) Shutdown w))"

text \<open>The loop takes the messages in order until a shutdown or until the channel is closed, and answers
  each; a panic ends it at once.\<close>

fun run_loop :: "'w fs_env \<Rightarrow> actor_message list \<Rightarrow> dir_actor \<times> 'w \<Rightarrow> (actor_answer list \<times> dir_actor \<times> 'w) option" where
  "run_loop E [] s = Some ([], shutdown_save E s)"
| "run_loop E (Shutdown # msgs) s = Some ([AnsEmpty], shutdown_save E (shut_down E s))"
| "run_loop E (msg # msgs) s =
    (case process_msg E msg s of
       None \<Rightarrow> None
     | Some ((answer, outcome), s) \<Rightarrow>
        if outcome = Failed panicked then Some ([answer], s)
        else map_option (\<lambda>(answers, s). (answer # answers, s)) (run_loop E msgs s))"

definition run_actor :: "'w fs_env \<Rightarrow> actor_message list \<Rightarrow> dir_actor \<times> 'w \<Rightarrow> (actor_answer list \<times> dir_actor \<times> 'w) option" where
  "run_actor E msgs s =
    (case s of (a, w) \<Rightarrow>
     case da_initial_state a of
       Some initial_state \<Rightarrow>
         run_loop E msgs (snd (save E True (a\<lparr>da_initial_state := None, da_state := initial_state\<rparr>, w)))
     | None \<Rightarrow>
        (case load E (a, w) of
           (Inl _, s) \<Rightarrow> Some ([], s)
         | (Inr _, s) \<Rightarrow> run_loop E msgs s))"

end
