(* ===== verification/Actor_Safety.thy ===== *)
theory Actor_Safety
  imports Actor_Loop
begin

text \<open>
  What the message loop of a directory actor keeps. A view of an actor is a part of its state; the locales
  below say which updates a view does not see, and carry the handlers that make only such updates. Their
  interpretations give the bound on shard levels and the promise of the autosave timer.
\<close>

section \<open>Views\<close>

lemma act_bind_on_snd [simp]:
  "act_bind (on_snd m) k (a, w) = (case m w of (Inl e, w') \<Rightarrow> (Inl e, (a, w')) | (Inr x, w') \<Rightarrow> k x (a, w'))"
  by (simp add: act_bind_def split: prod.splits sum.splits)

lemma act_bind_self [simp]:
  "act_bind (self_get f) k (a, w) = k (f a) (a, w)"
  "act_bind (self_set g) k2 (a, w) = k2 () (g a, w)"
  by (simp_all add: act_bind_def)

definition view_keeps :: "(dir_actor \<Rightarrow> 'v) \<Rightarrow> ('w, 'a) handler \<Rightarrow> bool" where
  "view_keeps f m \<longleftrightarrow> (\<forall>a w. f (fst (snd (m (a, w)))) = f a)"

lemma view_keepsI: "(\<And>a w. f (fst (snd (m (a, w)))) = f a) \<Longrightarrow> view_keeps f m"
  by (simp add: view_keeps_def)

lemma view_keepsD: "view_keeps f m \<Longrightarrow> m (a, w) = (r, (a', w')) \<Longrightarrow> f a' = f a"
  by (metis view_keeps_def fst_conv snd_conv)

lemma view_keeps_at: "view_keeps f m \<Longrightarrow> f (fst (snd (m s))) = f (fst s)"
  by (cases s) (simp add: view_keeps_def)

lemma view_keeps_basic [simp, keeps]:
  "view_keeps f (act_ok x)" "view_keeps f (act_err e)" "view_keeps f (act_lift y)" "view_keeps f (self_get g)"
  "view_keeps f (on_snd m)"
  by (simp_all add: view_keeps_def act_lift_def split: sum.splits prod.splits)

lemma view_keeps_Pair [simp, keeps]: "view_keeps f (Pair r)" "view_keeps f (\<lambda>(a, w). (r, (a, w)))"
  by (simp_all add: view_keeps_def)

lemma view_keeps_bind [keeps]:
  assumes "view_keeps f m" "\<And>x. view_keeps f (k x)"
  shows "view_keeps f (act_bind m k)"
  unfolding view_keeps_def
proof (intro allI)
  fix a w
  obtain r a' w' where m: "m (a, w) = (r, (a', w'))" by (metis prod.exhaust)
  show "f (fst (snd (act_bind m k (a, w)))) = f a"
    using view_keepsD[OF assms(1) m] assms(2) m by (cases r) (simp_all add: act_bind_def view_keeps_def)
qed

lemma view_keeps_self_set [keeps]: "(\<And>a. f (g a) = f a) \<Longrightarrow> view_keeps f (self_set g)"
  by (simp add: view_keeps_def)

lemma view_keeps_ignore [keeps]: "view_keeps f m \<Longrightarrow> view_keeps f (act_ignore m)"
  by (simp add: view_keeps_def)

lemma view_keeps_if [keeps]:
  "\<lbrakk>b \<Longrightarrow> view_keeps f m; \<not> b \<Longrightarrow> view_keeps f m'\<rbrakk> \<Longrightarrow> view_keeps f (if b then m else m')"
  by simp

lemma view_keeps_option [keeps]:
  "\<lbrakk>view_keeps f m; \<And>x. view_keeps f (k x)\<rbrakk> \<Longrightarrow> view_keeps f (case z of None \<Rightarrow> m | Some x \<Rightarrow> k x)"
  by (simp split: option.splits)

lemma view_keeps_pair [keeps]: "(\<And>x y. view_keeps f (k x y)) \<Longrightarrow> view_keeps f (case z of (x, y) \<Rightarrow> k x y)"
  by (simp split: prod.splits)

lemma view_keeps_let [keeps]: "view_keeps f (k x) \<Longrightarrow> view_keeps f (let y = x in k y)"
  by simp

lemma view_keeps_ref_type [keeps]:
  "\<lbrakk>view_keeps f m; view_keeps f m'\<rbrakk> \<Longrightarrow> view_keeps f (case t of DirBlake3Hash \<Rightarrow> m | DirRegistryKey \<Rightarrow> m')"
  by (simp split: dir_ref_type.splits)

section \<open>Views that do not see entries and handles\<close>

lemma move_paths_header: "dv_header (snd (move_paths p paths st)) = dv_header st"
proof -
  have "dv_header (snd (fold (\<lambda>path (child_state, state).
      case bt_get (dv_files state) path of
        Some file_ref \<Rightarrow>
          (child_state\<lparr>dv_files := bt_insert (drop n path) file_ref (dv_files child_state)\<rparr>,
           state\<lparr>dv_files := bt_remove path (dv_files state)\<rparr>)
      | None \<Rightarrow> (child_state, state)) paths cs)) = dv_header (snd cs)" for n and cs :: "dir_v1 \<times> dir_v1"
    by (induction paths arbitrary: cs) (auto split: prod.splits option.splits)
  then show ?thesis by (simp add: move_paths_def)
qed

lemma extract_header: "extract_child_dir_state p st = (child, st') \<Longrightarrow> dv_header st' = dv_header st"
  by (metis extract_is_move move_paths_header snd_conv)

locale actor_view =
  fixes view :: "dir_actor \<Rightarrow> 'v"
  assumes view_handles [simp]: "view (a\<lparr>da_dir_handles := hs\<rparr>) = view a"
    and view_shard_handles [simp]: "view (a\<lparr>da_dir_shard_handles := shs\<rparr>) = view a"
    and view_entries: "dv_header st = dv_header (da_state a) \<Longrightarrow> view (a\<lparr>da_state := st\<rparr>) = view a"
begin

lemma view_open_dir [keeps]: "view_keeps view (open_dir E p init)"
  unfolding open_dir_def by (intro keeps) simp_all

lemma view_open_shard [keeps]: "view_keeps view (open_dir_shard_impl E i init)"
  unfolding open_dir_shard_impl_def by (intro keeps) simp_all

lemma view_route_to_child [keeps]: "view_keeps view (route_to_child E path)"
  unfolding route_to_child_def by (intro keeps)

lemma view_promote_prefix [keeps]: "view_keeps view (promote_prefix E p)"
proof (rule view_keepsI)
  fix a :: dir_actor and w
  obtain child st where x: "extract_child_dir_state p (da_state a) = (child, st)" by fastforce
  have tail: "view_keeps view (act_bind (open_dir E p init) (\<lambda>_. act_ok ()))" for init by (intro keeps)
  show "view (fst (snd (promote_prefix E p (a, w)))) = view a"
    by (simp add: promote_prefix_def x view_keeps_at[OF tail] view_entries extract_header[OF x] Let_def
             split: prod.splits sum.splits)
qed

lemma view_check_auto_promote [keeps]: "view_keeps view (check_auto_promote E path)"
  unfolding check_auto_promote_def by (intro keeps)

lemma view_merge_shards [keeps]: "view_keeps view (merge_shard_snapshots E is merged)"
  by (induction "is" arbitrary: merged) (simp, simp only: merge_shard_snapshots.simps, intro keeps)

lemma view_export_merged [keeps]: "view_keeps view (export_merged_snapshot E)"
  unfolding export_merged_snapshot_def by (intro keeps)

lemma view_queries [keeps]:
  "view_keeps view (list_entries E cursor limit)" "view_keeps view (list_at_path E path cursor limit)"
  "view_keeps view (export_snapshot_at E path)" "view_keeps view (export_merged_snapshot_at E path)"
  unfolding list_entries_def list_at_path_def export_snapshot_at_def export_merged_snapshot_at_def
  by (intro keeps)+

end

section \<open>Shard levels\<close>

definition link_level :: "dir_actor \<Rightarrow> u8" where
  "link_level a = (case cx_link (da_context a) of LinkDirHandle _ _ _ l \<Rightarrow> l | _ \<Rightarrow> 0)"

definition levels :: "dir_actor \<Rightarrow> u8 \<times> u8 option" where
  "levels a = (link_level a, dh_shard_level (dv_header (da_state a)))"

definition level_ok :: "dir_actor \<Rightarrow> bool" where
  "level_ok a \<longleftrightarrow> link_level a \<le> MAX_SHARD_LEVEL
    \<and> (\<forall>l. dh_shard_level (dv_header (da_state a)) = Some l \<longrightarrow> l \<le> MAX_SHARD_LEVEL)"

lemma level_ok_levels: "levels a = levels b \<Longrightarrow> level_ok a = level_ok b"
  by (simp add: levels_def level_ok_def)

interpretation level_view: actor_view levels
  by unfold_locales (simp_all add: levels_def link_level_def)

lemma levels_flags [simp]:
  "levels (a\<lparr>da_dirty := b\<rparr>) = levels a" "levels (a\<lparr>da_shard_size_check_ops := n\<rparr>) = levels a"
  "levels (a\<lparr>da_autosave_timer_active := b\<rparr>) = levels a" "levels (a\<lparr>da_autosave_debounce_ms := d\<rparr>) = levels a"
  "levels (a\<lparr>da_current_hash := h\<rparr>) = levels a" "levels (a\<lparr>da_last_serialized_len := m\<rparr>) = levels a"
  by (simp_all add: levels_def link_level_def)

lemma levels_state:
  "dh_shard_level (dv_header st) = dh_shard_level (dv_header (da_state a)) \<Longrightarrow> levels (a\<lparr>da_state := st\<rparr>) = levels a"
  by (simp add: levels_def link_level_def)

lemma levels_set_shards [simp]: "levels (set_shards f a) = levels a"
  unfolding set_shards_def by (rule levels_state) simp

lemma levels_set_link_hash [simp]: "levels (set_link_hash h a) = levels a"
  by (simp add: set_link_hash_def levels_def link_level_def split: dir_context_parent_link.splits)

lemma levels_note [simp]: "levels (note_shard_hash e a) = levels a" "levels (note_dir_hash e' a) = levels a"
  by (auto simp: note_shard_hash_def note_dir_hash_def levels_state split: prod.splits sum.splits option.splits)

lemma levels_fold: "(\<And>x a. levels (g x a) = levels a) \<Longrightarrow> levels (fold g xs a) = levels a"
  by (induction xs arbitrary: a) simp_all

lemma levels_merge [simp]:
  "levels (merge_entries_local ds fs a) = levels a" "levels (merge_header_fields h a) = levels a"
proof -
  have "levels (merge_dir_entry e a) = levels a" "levels (merge_file_entry e' a) = levels a" for e e' a
    using merge_entry_frame[of a] by (auto simp: merge_frame_def levels_def link_level_def)
  then show "levels (merge_entries_local ds fs a) = levels a" by (simp add: merge_entries_local_def levels_fold)
  show "levels (merge_header_fields h a) = levels a" by (simp add: merge_header_fields_def levels_state Let_def)
qed

lemma levels_mark_as_dirty [keeps]: "view_keeps levels (mark_as_dirty E)"
proof (rule view_keepsI)
  fix a :: dir_actor and w
  show "levels (fst (snd (mark_as_dirty E (a, w)))) = levels a" using mark_as_dirty_effect[of E a w] by auto
qed

lemma levels_create_dir_at [keeps]: "view_keeps levels (create_dir_at E p enc)"
proof (rule view_keepsI)
  fix a :: dir_actor and w
  obtain child st where x: "extract_child_dir_state p (da_state a) = (child, st)" by fastforce
  have tail: "view_keeps levels (act_bind (open_dir E p init) (\<lambda>_. mark_as_dirty E))" for init by (intro keeps)
  show "levels (fst (snd (create_dir_at E p enc (a, w)))) = levels a"
    by (simp add: create_dir_at_def x view_keeps_at[OF tail] levels_state extract_header[OF x] Let_def
             split: prod.splits sum.splits)
qed

lemma levels_open_subdir [keeps]: "view_keeps levels (open_subdir E p)"
  unfolding open_subdir_def by (intro keeps)

lemma levels_update_dir_ref [keeps]: "view_keeps levels (update_dir_ref_hash E p h)"
proof (rule view_keepsI)
  fix a :: dir_actor and w
  have tail: "view_keeps levels (act_bind (mark_as_dirty E) (\<lambda>_. act_ok True))" by (intro keeps)
  show "levels (fst (snd (update_dir_ref_hash E p h (a, w)))) = levels a"
    by (simp add: update_dir_ref_hash_def view_keeps_at[OF tail] levels_state
             split: dir_handle_path.splits option.splits)
qed

lemma levels_merge_buckets [keeps]: "view_keeps levels (merge_buckets E ds fs bs)"
proof (induction bs)
  case (Cons b bs)
  then show ?case unfolding merge_buckets.simps by (intro keeps)
qed simp

lemma levels_merge_snapshot [keeps]: "view_keeps levels (merge_snapshot E snapshot)"
  unfolding merge_snapshot_def merge_snapshot_into_shards_def by (intro keeps) simp_all

lemma levels_encode [keeps]: "view_keeps levels (encode_state_bytes E)"
  unfolding encode_state_bytes_def by (intro keeps)

lemma levels_export_hash [keeps]: "view_keeps levels (export_snapshot_hash E)"
  unfolding export_snapshot_hash_def by (intro keeps)

lemma levels_head_pin [keeps]: "view_keeps levels (update_head_pin E h)"
  unfolding update_head_pin_def by (intro keeps) simp_all

lemma view_keeps_link [keeps]:
  "\<lbrakk>\<And>k s. view_keeps f (m1 k s); \<And>p. view_keeps f (m2 p); \<And>p h i l. view_keeps f (m3 p h i l)\<rbrakk>
   \<Longrightarrow> view_keeps f (case z of LinkRegistryKey k s \<Rightarrow> m1 k s | LinkLocalFile p \<Rightarrow> m2 p | LinkDirHandle p h i l \<Rightarrow> m3 p h i l)"
  by (simp split: dir_context_parent_link.splits)

lemma view_keeps_told [keeps]:
  "view_keeps f m \<Longrightarrow> view_keeps f (\<lambda>(a, w). if b w then m (a, w) else (Inr x, (a, w)))"
  by (simp add: view_keeps_def)

lemma levels_save [keeps]: "view_keeps levels (save E notify)"
  unfolding save_def by (intro keeps) simp_all

lemma levels_persist_shards [keeps]: "view_keeps levels (persist_shards E xs)"
  by (induction xs) (simp, auto intro!: keeps)

lemma levels_shard:
  assumes "dh_shard_level (dv_header (da_state a)) = None"
  shows "levels (fst (snd (shard E (a, w)))) = (link_level a, Some (link_level a))"
proof -
  let ?a = "a\<lparr>da_state := (da_state a)\<lparr>dv_header := (dv_header (da_state a))\<lparr>dh_shard_level := Some (link_level a)\<rparr>\<rparr>\<rparr>"
  let ?rest = "act_bind (persist_shards E (enumerate 0 (shard_states (fe_xxh3 E) (link_level a) (da_state a)))) (\<lambda>_.
     act_bind (self_set (set_shards (\<lambda>s. case s of Some m \<Rightarrow> if bt_is_empty m then None else Some m | None \<Rightarrow> None))) (\<lambda>_.
     self_set (\<lambda>a. a\<lparr>da_state := (da_state a)\<lparr>dv_dirs := bt_empty, dv_files := bt_empty\<rparr>\<rparr>)))"
  have "view_keeps levels ?rest" by (intro keeps) (simp_all add: levels_state)
  from view_keeps_at[OF this, of "(?a, w)"] have "levels (fst (snd (?rest (?a, w)))) = levels ?a" by simp
  moreover have "shard E (a, w) = ?rest (?a, w)"
    unfolding shard_def act_bind_self Let_def using assms by (simp add: link_level_def del: enumerate_simps)
  ultimately have "levels (fst (snd (shard E (a, w)))) = levels ?a" by (simp only:)
  then show ?thesis by (simp add: levels_def link_level_def)
qed

lemma level_ok_shard:
  assumes "level_ok a"
  shows "level_ok (fst (snd (shard E (a, w))))"
proof (cases "dh_shard_level (dv_header (da_state a))")
  case None
  then show ?thesis using levels_shard[OF None, of E w] assms by (simp add: levels_def level_ok_def)
next
  case (Some l)
  then show ?thesis using assms by (simp add: shard_def)
qed

lemma level_ok_shard_if_needed:
  assumes "level_ok a"
  shows "level_ok (fst (snd (shard_if_needed E (a, w))))"
proof -
  let ?a = "a\<lparr>da_last_serialized_len := length (DirV1_to_bytes (fe_codec E) (da_state a)), da_shard_size_check_ops := 0\<rparr>"
  have "level_ok ?a" using assms by (simp add: level_ok_def link_level_def)
  from level_ok_shard[OF this, of E w] this assms show ?thesis by (simp add: shard_if_needed_def Let_def)
qed

definition keeps_level :: "('w, 'a) handler \<Rightarrow> bool" where
  "keeps_level m \<longleftrightarrow> (\<forall>a w. level_ok a \<longrightarrow> level_ok (fst (snd (m (a, w)))))"

lemma keeps_level_view: "view_keeps levels m \<Longrightarrow> keeps_level m"
  unfolding keeps_level_def view_keeps_def using level_ok_levels by blast

lemma keeps_levelD: "keeps_level m \<Longrightarrow> m (a, w) = (r, (a', w')) \<Longrightarrow> level_ok a \<Longrightarrow> level_ok a'"
  unfolding keeps_level_def by (metis fst_conv snd_conv)

lemma keeps_level_bind:
  assumes "keeps_level m" "\<And>x. keeps_level (k x)"
  shows "keeps_level (act_bind m k)"
  unfolding keeps_level_def
proof (intro allI impI)
  fix a w
  assume a: "level_ok a"
  obtain r a' w' where m: "m (a, w) = (r, (a', w'))" by (metis prod.exhaust)
  show "level_ok (fst (snd (act_bind m k (a, w))))"
    using keeps_levelD[OF assms(1) m a] assms(2) m by (cases r) (simp_all add: act_bind_def keeps_level_def)
qed

lemma keeps_level_shard_if_needed: "keeps_level (shard_if_needed E)"
  by (simp add: keeps_level_def level_ok_shard_if_needed)

lemma level_ok_flags [simp]:
  "level_ok (a\<lparr>da_dirty := b\<rparr>) = level_ok a" "level_ok (a\<lparr>da_autosave_timer_active := b\<rparr>) = level_ok a"
  "level_ok (a\<lparr>da_current_hash := h\<rparr>) = level_ok a"
  by (simp_all add: level_ok_def link_level_def)

lemma levels_notes:
  "levels (fold note_dir_hash ds (fold note_shard_hash ss a)) = levels a"
  by (simp add: levels_fold)

lemma keeps_level_save_if_dirty: "keeps_level (save_if_dirty E)"
proof -
  let ?flush = "\<lambda>self (a, w).
        case save_children E (bt_entries (da_dir_shard_handles self)) w of (shard_results, w) \<Rightarrow>
        case save_children E (bt_entries (da_dir_handles self)) w of (dir_results, w) \<Rightarrow>
        let a = fold note_shard_hash (zip (bt_entries (da_dir_shard_handles self)) shard_results) a;
            a = fold note_dir_hash (zip (bt_entries (da_dir_handles self)) dir_results) a
        in if da_dirty a then
             act_bind (save E False) (\<lambda>res.
             act_bind (self_set (\<lambda>a. a\<lparr>da_dirty := False\<rparr>)) (\<lambda>_. act_ok res)) (a, w)
           else (Inr None, (a, w))"
  have "view_keeps levels (act_bind (save E False) (\<lambda>res. act_bind (self_set (\<lambda>a. a\<lparr>da_dirty := False\<rparr>)) (\<lambda>_. act_ok res)))"
    by (intro keeps) simp
  then have "view_keeps levels (?flush self)" for self
    by (auto intro!: view_keepsI simp: Let_def levels_notes view_keeps_at split: prod.splits)
  then have "keeps_level (act_bind (shard_if_needed E) (\<lambda>_. act_bind (self_get id) ?flush))"
    by (intro keeps_level_bind keeps_level_shard_if_needed keeps_level_view keeps)
  then show ?thesis unfolding save_if_dirty_def keeps_level_def Let_def by simp
qed

lemma keeps_level_autosave_tick: "keeps_level (autosave_tick E)"
proof -
  have "keeps_level (\<lambda>s. case save E True s of
      (Inr _, (a, w)) \<Rightarrow> (Inr (), (a\<lparr>da_dirty := False\<rparr>, w)) | (Inl _, s) \<Rightarrow> (Inr (), s))"
    using levels_save[THEN keeps_level_view, of E True]
    by (auto simp: keeps_level_def split: prod.splits sum.splits) (metis fst_conv snd_conv)+
  then have "keeps_level (act_bind (shard_if_needed E) (\<lambda>_. (\<lambda>s. case save E True s of
      (Inr _, (a, w)) \<Rightarrow> (Inr (), (a\<lparr>da_dirty := False\<rparr>, w)) | (Inl _, s) \<Rightarrow> (Inr (), s))))"
    by (intro keeps_level_bind keeps_level_shard_if_needed)
  then show ?thesis unfolding autosave_tick_def keeps_level_def by simp
qed

lemma view_delete_snapshot [keeps]: "view_keeps f (delete_snapshot E name)"
proof -
  have "view_keeps f (act_bind (on_snd m) k)" if "\<And>x. view_keeps f (k x)" for m :: "('w, unit) action" and k :: "unit \<Rightarrow> ('w, unit) handler"
    using that by (intro keeps)
  then show ?thesis
    unfolding delete_snapshot_def
    by (intro keeps)
       (auto intro!: view_keepsI simp: view_keeps_at split: sum.splits prod.splits option.splits error.splits io_kind.splits)
qed

lemma levels_create_snapshot:
  assumes "create_snapshot E (a, w) = Some (r, (a', w'))"
  shows "levels a' = levels a"
proof -
  obtain x a2 w2 where x: "export_snapshot_hash E (a, w) = (x, (a2, w2))" by (metis prod.exhaust)
  have a2: "levels a2 = levels a" by (rule view_keepsD[OF levels_export_hash x])
  have tail: "view_keeps levels (act_bind (on_snd m) (\<lambda>_.
      act_bind (case fe_pins E of None \<Rightarrow> act_ok () | Some pins \<Rightarrow> on_snd (pn_pin_hash pins h c)) (\<lambda>_. act_ok y)))"
    for m :: "('a, unit) action" and h c and y :: "string \<times> hash"
    by (intro keeps)
  show ?thesis
    using assms x a2 unfolding create_snapshot_def Let_def
    by (auto simp: act_lift_def simp del: act_bind_on_snd split: sum.splits prod.splits dest!: view_keepsD[OF tail])
qed

lemma answeringD: "answering f m s = Some (r, s') \<Longrightarrow> s' = snd (m s)"
  by (auto simp: answering_def split: prod.splits)

lemma silentD: "silent m s = Some (r, s') \<Longrightarrow> s' = snd (m s)"
  by (auto simp: silent_def split: prod.splits sum.splits)

lemma levels_file_op:
  assumes "file_op E path task (a, w) = Some (r, (a', w'))"
  shows "levels a' = levels a"
proof -
  have k: "view_keeps levels (act_bind (check_auto_promote E path) (\<lambda>_. mark_as_dirty E))" by (intro keeps)
  have e: "levels (a\<lparr>da_state := (da_state a)\<lparr>dv_files := fs\<rparr>\<rparr>) = levels a" for fs by (simp add: levels_state)
  obtain v res where t: "task (bt_get (dv_files (da_state a)) path) = (v, res)" by fastforce
  show ?thesis
    using assms t e
    by (cases v) (auto simp: file_op_def Let_def split: prod.splits sum.splits
        dest!: view_keepsD[OF k] view_keepsD[OF levels_mark_as_dirty])
qed

lemma level_ok_answering:
  assumes "level_ok a" "answering f m (a, w) = Some (r, (a', w'))" "keeps_level m"
  shows "level_ok a'"
  using answeringD[OF assms(2)] assms(1,3) unfolding keeps_level_def by (metis fst_conv)

lemma level_ok_process_core:
  assumes "level_ok a" "process_core E msg (a, w) = Some (r, (a', w'))"
  shows "level_ok a'"
proof -
  note views = keeps_level_view[OF levels_update_dir_ref] keeps_level_view[OF level_view.view_route_to_child]
  have silent: "level_ok a'" if "silent m (a, w) = Some (r, (a', w'))" "keeps_level m" for m
    using silentD[OF that(1)] that(2) assms(1) unfolding keeps_level_def by (metis fst_conv)
  show ?thesis
  proof (cases msg)
    case (PathOp path op)
    obtain c a1 w1 where c: "route_to_child E path (a, w) = (c, (a1, w1))" by (metis prod.exhaust)
    have a1: "level_ok a1" by (rule keeps_levelD[OF views(2) c assms(1)])
    have dir: "level_ok a'" if "answering AnsDone (create_dir_at E path enc) (a1, w1) = Some (r, (a', w'))" for enc
      by (rule level_ok_answering[OF a1 that keeps_level_view[OF levels_create_dir_at]])
    show ?thesis
      using assms(2) PathOp c a1 level_ok_levels[OF levels_file_op[of E path _ a1 w1 r a' w']] dir
      by (auto split: sum.splits prod.splits option.splits actor_message_op.splits)
  next
    case (UpdateDirRefHash path hash)
    then show ?thesis
      using assms(2) keeps_levelD[OF views(1) _ assms(1)] by (auto split: sum.splits prod.splits)
  next
    case CreateSnapshot
    then show ?thesis using assms by (auto dest: levels_create_snapshot level_ok_levels)
  next
    case (SetAutosave ms)
    with assms(2) show ?thesis by simp (elim silent, intro keeps_level_view keeps, simp)
  next
    case SaveIfDirty
    with assms(2) show ?thesis by simp (elim level_ok_answering[OF assms(1)], rule keeps_level_save_if_dirty)
  next
    case AutosaveTick
    with assms(2) show ?thesis by simp (elim silent, rule keeps_level_autosave_tick)
  next
    case Shutdown
    with assms show ?thesis by simp
  next
    case MarkAsDirty
    with assms(2) show ?thesis by simp (elim silent, intro keeps_level_view keeps)
  qed (use assms(2) in \<open>simp, elim level_ok_answering[OF assms(1)], intro keeps_level_view keeps\<close>)+
qed

lemma levels_arm_autosave [keeps]: "view_keeps levels (arm_autosave E)"
  unfolding arm_autosave_def by (intro keeps) simp

lemma level_ok_process_msg:
  assumes "level_ok a" "process_msg E msg (a, w) = Some (r, (a', w'))"
  shows "level_ok a'"
proof -
  obtain ans out b v where core: "process_core E msg (a, w) = Some ((ans, out), (b, v))"
    using assms(2) by (auto simp: process_msg_def split: option.splits)
  have b: "level_ok b" by (rule level_ok_process_core[OF assms(1) core])
  then have "level_ok (fst (snd (arm_autosave E (b, v))))"
    using keeps_level_view[OF levels_arm_autosave[of E]] by (simp add: keeps_level_def)
  then show ?thesis using assms(2) core b by (auto simp: process_msg_def split: step_outcome.splits)
qed

lemma level_ok_shutdown_save: "level_ok (fst s) \<Longrightarrow> level_ok (fst (shutdown_save E s))"
  using keeps_level_shard_if_needed[of E] keeps_level_view[OF levels_save, of E False]
  by (cases s) (auto simp: shutdown_save_def keeps_level_def, metis prod.collapse)

lemma run_loop_Cons:
  "msg \<noteq> Shutdown \<Longrightarrow> run_loop E (msg # msgs) s =
    (case process_msg E msg s of
       None \<Rightarrow> None
     | Some ((answer, outcome), s) \<Rightarrow>
        if outcome = Failed panicked then Some ([answer], s)
        else map_option (\<lambda>(answers, s). (answer # answers, s)) (run_loop E msgs s))"
  by (cases msg) simp_all

lemma level_ok_run_loop:
  assumes "run_loop E msgs s = Some (answers, s')" "level_ok (fst s)"
  shows "level_ok (fst s')"
  using assms
proof (induction msgs arbitrary: s answers)
  case Nil
  then show ?case by (auto simp: level_ok_shutdown_save)
next
  case (Cons msg msgs)
  show ?case
  proof (cases "msg = Shutdown")
    case True
    have "level_ok (fst (shutdown_save E s))" by (rule level_ok_shutdown_save[OF Cons.prems(2)])
    then have "level_ok (fst (shut_down E s))" by (simp add: shut_down_def case_prod_unfold)
    then show ?thesis using Cons.prems(1) True by (auto intro: level_ok_shutdown_save)
  next
    case False
    then obtain ans out s1 where p: "process_msg E msg s = Some ((ans, out), s1)"
      using Cons.prems(1) by (auto simp: run_loop_Cons split: option.splits)
    have "level_ok (fst s1)" using level_ok_process_msg[of "fst s" E msg "snd s"] p Cons.prems(2) by (cases s1) simp
    then show ?thesis
      using Cons.IH[of s1] Cons.prems(1) p False by (auto simp: run_loop_Cons split: if_splits)
  qed
qed

section \<open>The autosave timer\<close>

definition timer_view :: "dir_actor \<Rightarrow> u64 option \<times> bool \<times> bool" where
  "timer_view a = (da_autosave_debounce_ms a, da_autosave_timer_active a, da_dirty a)"

text \<open>An actor with unsaved changes and autosave has a timer running.\<close>

definition armed :: "dir_actor \<Rightarrow> bool" where
  "armed a \<longleftrightarrow> (da_autosave_debounce_ms a \<noteq> None \<and> da_dirty a \<longrightarrow> da_autosave_timer_active a)"

interpretation timer_view: actor_view timer_view
  by unfold_locales (simp_all add: timer_view_def)

lemma armed_view: "timer_view a = timer_view b \<Longrightarrow> armed a = armed b"
  by (simp add: timer_view_def armed_def)

lemma timer_view_state [simp]:
  "timer_view (a\<lparr>da_state := st\<rparr>) = timer_view a" "timer_view (set_shards f a) = timer_view a"
  "timer_view (a\<lparr>da_last_serialized_len := n\<rparr>) = timer_view a" "timer_view (a\<lparr>da_shard_size_check_ops := m\<rparr>) = timer_view a"
  by (simp_all add: timer_view_def set_shards_def)

lemma timer_persist_shards [keeps]: "view_keeps timer_view (persist_shards E xs)"
  by (induction xs) (simp, auto intro!: keeps)

lemma timer_shard_if_needed: "view_keeps timer_view (shard_if_needed E)"
  unfolding shard_if_needed_def shard_def by (intro keeps) simp_all

fun tick_failed :: "actor_message \<Rightarrow> step_outcome \<Rightarrow> bool" where
  "tick_failed AutosaveTick (Failed e) = True"
| "tick_failed msg outcome = False"

lemma arm_autosave_armed: "armed (fst (snd (arm_autosave E (a, w))))"
  by (simp add: arm_autosave_def armed_def on_snd_def split: option.splits prod.splits)

lemma arm_autosave_dirty: "da_dirty (fst (snd (arm_autosave E (a, w)))) = da_dirty a"
  by (simp add: arm_autosave_def on_snd_def split: option.splits prod.splits)

lemma mark_as_dirty_ok: "fst (mark_as_dirty E s) = Inr ()"
  using mark_as_dirty_effect[of E "fst s" "snd s"] by auto

lemma tell_all_ok: "fst (tell_all E hs msg w) = Inr ()"
  by (induction hs arbitrary: w) (simp_all add: act_bind_def act_ok_def)

lemma file_op_failed:
  assumes "file_op E path task (a, w) = Some ((ans, Failed e), (a', w'))"
  shows "timer_view a' = timer_view a"
proof -
  obtain v res where t: "task (bt_get (dv_files (da_state a)) path) = (v, res)" by fastforce
  let ?a = "\<lambda>f. a\<lparr>da_state := (da_state a)\<lparr>dv_files := bt_insert path f (bt_remove path (dv_files (da_state a)))\<rparr>\<rparr>"
  have failed: "check_auto_promote E path (?a f, w) = (Inl e, (a', w'))" if "v = Some f" for f
    using assms t that mark_as_dirty_ok[of E]
    by (auto simp: file_op_def Let_def act_bind_def split: prod.splits sum.splits) (metis fst_conv sum.distinct(1))+
  show ?thesis
  proof (cases v)
    case None
    then show ?thesis using assms t by (auto simp: file_op_def Let_def split: prod.splits)
  next
    case (Some f)
    have "timer_view a' = timer_view (?a f)"
      by (rule view_keepsD[OF timer_view.view_check_auto_promote failed[OF Some]])
    then show ?thesis by (simp add: timer_view_def)
  qed
qed

lemma file_op_outcome: "file_op E path task s = Some ((ans, out), s') \<Longrightarrow> out = Finished \<or> (\<exists>e. out = Failed e)"
  by (auto simp: file_op_def Let_def split: prod.splits sum.splits option.splits)

lemma file_op_unfinished:
  "file_op E path task (a, w) = Some ((ans, out), (a', w')) \<Longrightarrow> out \<noteq> Finished \<Longrightarrow> timer_view a' = timer_view a"
  by (frule file_op_outcome) (auto dest: file_op_failed)

lemma update_dir_ref_quiet:
  assumes "update_dir_ref_hash E p h (a, w) = (r, (a', w'))" "r \<noteq> Inr True"
  shows "a' = a"
  using assms mark_as_dirty_ok[of E]
  by (auto simp: update_dir_ref_hash_def act_err_def act_ok_def act_bind_def[of "mark_as_dirty E"]
      split: dir_handle_path.splits option.splits if_splits prod.splits sum.splits) (metis fst_conv sum.distinct(1))+

lemma process_core_unarmed:
  assumes "process_core E msg (a, w) = Some ((ans, out), (b, v))"
    and "out \<noteq> Finished" "out \<noteq> Failed panicked" "\<not> tick_failed msg out"
  shows "timer_view b = timer_view a"
proof (cases msg)
  case (PathOp path op)
  obtain c a1 w1 where c: "route_to_child E path (a, w) = (c, (a1, w1))" by (metis prod.exhaust)
  have a1: "timer_view a1 = timer_view a" by (rule view_keepsD[OF timer_view.view_route_to_child c])
  show ?thesis
    using assms PathOp c a1
    by (auto simp: answering_def split: sum.splits prod.splits option.splits actor_message_op.splits if_splits
        dest!: file_op_unfinished)
next
  case (UpdateDirRefHash path hash)
  then show ?thesis
    using assms by (auto split: sum.splits prod.splits if_splits dest!: update_dir_ref_quiet)
next
  case MarkAsDirty
  then show ?thesis
    using assms mark_as_dirty_ok[of E "(a, w)"] by (auto simp: silent_def split: prod.splits sum.splits)
next
  case (SetAutosave ms)
  then show ?thesis
    using assms tell_all_ok[of E] by (auto simp: silent_def split: prod.splits sum.splits) (metis fst_conv sum.distinct(1))+
next
  case AutosaveTick
  then show ?thesis using assms by (auto simp: silent_def split: prod.splits sum.splits)
qed (use assms in \<open>auto simp: answering_def split: prod.splits if_splits\<close>)

text \<open>A handler that finishes leaves a dirty actor with its timer running, whatever was before; any other handler leaves the timer and the
  flag alone, but for an autosave that was abandoned because the split into shards failed.\<close>

lemma armed_process_msg:
  assumes "process_msg E msg (a, w) = Some ((ans, out), (a', w'))"
    and "out = Finished \<or> armed a \<and> out \<noteq> Failed panicked \<and> \<not> tick_failed msg out"
  shows "armed a'"
proof -
  obtain out0 b v where core: "process_core E msg (a, w) = Some ((ans, out0), (b, v))"
    and fin: "(out0 = Finished \<and> (a', w') = snd (arm_autosave E (b, v))) \<or> out0 = out \<and> out \<noteq> Finished \<and> (a', w') = (b, v)"
    using assms(1) by (auto simp: process_msg_def split: option.splits step_outcome.splits)
  show ?thesis
  proof (cases "out0 = Finished")
    case True
    then have "(a', w') = snd (arm_autosave E (b, v))" using fin by blast
    then show ?thesis using arm_autosave_armed[of E b v] by (metis fst_conv)
  next
    case False
    then have o: "out0 = out" "a' = b" using fin by auto
    have "timer_view b = timer_view a" using process_core_unarmed[OF core False] assms(2) o False by simp
    then show ?thesis using assms(2) armed_view o False by blast
  qed
qed

section \<open>No actor beyond the last level is spawned\<close>

named_theorems beyond \<open>definitions that do not notice what is spawned beyond the last level\<close>

text \<open>The environment in which spawning an actor whose link has a level beyond the last one does something else. No handler notices: the
  guard in \<open>open_dir_shard_impl\<close> refuses such a shard, and a directory is opened at level 0.\<close>

definition context_level :: "dir_context \<Rightarrow> u8" where
  "context_level c = (case cx_link c of LinkDirHandle _ _ _ l \<Rightarrow> l | _ \<Rightarrow> 0)"

definition beyond_last_level ::
  "(dir_context \<Rightarrow> dir_v1 option \<Rightarrow> u64 option \<Rightarrow> ('w, actor_id) action) \<Rightarrow> 'w fs_env \<Rightarrow> 'w fs_env" where
  "beyond_last_level other E =
    E\<lparr>fe_spawn := \<lambda>c init ms. if context_level c > MAX_SHARD_LEVEL then other c init ms else fe_spawn E c init ms\<rparr>"

lemma beyond_fields [simp, beyond]:
  "fe_hash (beyond_last_level f E) = fe_hash E" "fe_codec (beyond_last_level f E) = fe_codec E" "fe_blobs (beyond_last_level f E) = fe_blobs E"
  "fe_registry (beyond_last_level f E) = fe_registry E" "fe_pins (beyond_last_level f E) = fe_pins E" "fe_fresh (beyond_last_level f E) = fe_fresh E"
  "fe_xxh3 (beyond_last_level f E) = fe_xxh3 E" "fe_sign (beyond_last_level f E) = fe_sign E"
  "fe_encode_cursor (beyond_last_level f E) = fe_encode_cursor E" "fe_decode_cursor (beyond_last_level f E) = fe_decode_cursor E"
  "fe_read_file (beyond_last_level f E) = fe_read_file E" "fe_persist_file (beyond_last_level f E) = fe_persist_file E"
  "fe_ask (beyond_last_level f E) = fe_ask E" "fe_tell (beyond_last_level f E) = fe_tell E" "fe_upgrade (beyond_last_level f E) = fe_upgrade E"
  "fe_autosave_tick_after (beyond_last_level f E) = fe_autosave_tick_after E" "fe_registry_dir (beyond_last_level f E) = fe_registry_dir E"
  "fe_set_registry_dir (beyond_last_level f E) = fe_set_registry_dir E"
  by (simp_all add: beyond_last_level_def)

lemma beyond_spawn:
  "context_level c \<le> MAX_SHARD_LEVEL \<Longrightarrow> fe_spawn (beyond_last_level f E) c init ms = fe_spawn E c init ms"
  by (auto simp: beyond_last_level_def)

lemma context_level_new [simp]:
  "context_level (DirContext_with_new_ref c r (LinkDirHandle p h i l)) = l" "context_level (DirContext_with_new_ref c r (LinkRegistryKey k s)) = 0"
  by (simp_all add: context_level_def DirContext_with_new_ref_def Let_def split: option.split)

lemma beyond_open_dir [simp, beyond]: "open_dir (beyond_last_level f E) p init = open_dir E p init"
  unfolding open_dir_def Let_def by (simp add: beyond_spawn cong: option.case_cong dir_ref_type.case_cong)

lemma beyond_open_shard [simp, beyond]: "open_dir_shard_impl (beyond_last_level f E) i init = open_dir_shard_impl E i init"
  unfolding open_dir_shard_impl_def Let_def
  by (simp add: beyond_spawn linorder_not_less cong: option.case_cong dir_ref_type.case_cong if_cong)

lemma beyond_helpers [simp, beyond]:
  "act_fresh (beyond_last_level f E) = act_fresh E" "ask_done (beyond_last_level f E) = ask_done E" "ask_dir (beyond_last_level f E) = ask_dir E"
  "ask_list (beyond_last_level f E) = ask_list E" "ask_handle (beyond_last_level f E) = ask_handle E"
  "ask_hash_opt (beyond_last_level f E) = ask_hash_opt E" "mark_as_dirty (beyond_last_level f E) = mark_as_dirty E"
  unfolding act_fresh_def ask_done_def ask_dir_def ask_list_def ask_handle_def ask_hash_opt_def mark_as_dirty_def beyond by (rule refl)+

lemma beyond_saving [simp, beyond]:
  "encode_child_dir_bytes (beyond_last_level f E) = encode_child_dir_bytes E" "encode_state_bytes (beyond_last_level f E) = encode_state_bytes E"
  "import_meta (beyond_last_level f E) = import_meta E" "read_meta (beyond_last_level f E) = read_meta E"
  unfolding encode_child_dir_bytes_def encode_state_bytes_def import_meta_def read_meta_def beyond by (rule refl)+

lemma beyond_persisting [simp, beyond]:
  "export_snapshot_hash (beyond_last_level f E) = export_snapshot_hash E" "load_from (beyond_last_level f E) = load_from E"
  "update_head_pin (beyond_last_level f E) = update_head_pin E" "publish (beyond_last_level f E) = publish E"
  "store_child (beyond_last_level f E) = store_child E"
  unfolding export_snapshot_hash_def load_from_def update_head_pin_def publish_def store_child_def beyond by (rule refl)+

lemma beyond_save [simp, beyond]: "save (beyond_last_level f E) = save E" "load (beyond_last_level f E) = load E"
  unfolding save_def load_def beyond by (rule refl)+

lemma beyond_optimize [simp, beyond]:
  "optimize_dir_structure n (beyond_last_level f E) c st = optimize_dir_structure n E c st"
  "optimize_groups n (beyond_last_level f E) c gs st = optimize_groups n E c gs st"
  by (induction n E c st and n E c gs st rule: optimize_dir_structure_optimize_groups.induct)
    (simp_all add: Let_def split: prod.splits)

lemma beyond_directories [simp, beyond]:
  "create_dir_at (beyond_last_level f E) = create_dir_at E" "promote_prefix (beyond_last_level f E) = promote_prefix E"
  unfolding create_dir_at_def promote_prefix_def beyond by (rule refl)+

lemma beyond_persist_shards [simp, beyond]: "persist_shards (beyond_last_level f E) xs = persist_shards E xs"
  by (induction E xs rule: persist_shards.induct) (simp_all add: act_bind_def fun_eq_iff split: sum.splits prod.splits)

lemma beyond_shards [simp, beyond]:
  "check_auto_promote (beyond_last_level f E) = check_auto_promote E" "shard (beyond_last_level f E) = shard E"
  "shard_if_needed (beyond_last_level f E) = shard_if_needed E"
  unfolding check_auto_promote_def shard_def shard_if_needed_def beyond by (rule refl)+

lemma beyond_merge_shards [simp, beyond]: "merge_shard_snapshots (beyond_last_level f E) is m = merge_shard_snapshots E is m"
  by (induction E "is" m rule: merge_shard_snapshots.induct) (simp_all add: act_bind_def fun_eq_iff split: sum.splits prod.splits)

lemma beyond_snapshots [simp, beyond]:
  "SnapshotIndex_open (beyond_last_level f E) = SnapshotIndex_open E" "SnapshotIndex_persist (beyond_last_level f E) = SnapshotIndex_persist E"
  "export_merged_snapshot (beyond_last_level f E) = export_merged_snapshot E" "list_page (beyond_last_level f E) = list_page E"
  unfolding SnapshotIndex_open_def SnapshotIndex_persist_def export_merged_snapshot_def list_page_def beyond by (rule refl)+

lemma beyond_snapshot_commands [simp, beyond]:
  "create_snapshot (beyond_last_level f E) = create_snapshot E" "delete_snapshot (beyond_last_level f E) = delete_snapshot E"
  unfolding create_snapshot_def delete_snapshot_def beyond by (rule refl)+

lemma beyond_save_children [simp, beyond]: "save_children (beyond_last_level f E) hs w = save_children E hs w"
  by (induction E hs w rule: save_children.induct) (simp_all split: prod.splits)

lemma beyond_routing [simp, beyond]:
  "route_to_child (beyond_last_level f E) = route_to_child E" "save_if_dirty (beyond_last_level f E) = save_if_dirty E"
  "list_entries (beyond_last_level f E) = list_entries E"
  unfolding route_to_child_def save_if_dirty_def list_entries_def beyond by (rule refl)+

lemma beyond_merge_buckets [simp, beyond]: "merge_buckets (beyond_last_level f E) ds fs bs = merge_buckets E ds fs bs"
  by (induction E ds fs bs rule: merge_buckets.induct) (simp_all add: Let_def act_bind_def fun_eq_iff split: sum.splits prod.splits)

lemma beyond_paths [simp, beyond]:
  "list_at_path (beyond_last_level f E) = list_at_path E" "export_snapshot_at (beyond_last_level f E) = export_snapshot_at E"
  "export_merged_snapshot_at (beyond_last_level f E) = export_merged_snapshot_at E" "open_subdir (beyond_last_level f E) = open_subdir E"
  "update_dir_ref_hash (beyond_last_level f E) = update_dir_ref_hash E" "merge_snapshot (beyond_last_level f E) = merge_snapshot E"
  unfolding list_at_path_def export_snapshot_at_def export_merged_snapshot_at_def open_subdir_def update_dir_ref_hash_def merge_snapshot_def merge_snapshot_into_shards_def beyond by (rule refl)+

lemma beyond_tell_all [simp, beyond]: "tell_all (beyond_last_level f E) hs msg = tell_all E hs msg"
  by (induction E hs msg rule: tell_all.induct) (simp_all add: fun_eq_iff act_bind_def)

lemma beyond_ask_all [simp, beyond]: "ask_all (beyond_last_level f E) hs msg w = ask_all E hs msg w"
  by (induction E hs msg w rule: ask_all.induct) simp_all

lemma beyond_messages [simp, beyond]:
  "autosave_tick (beyond_last_level f E) = autosave_tick E" "file_op (beyond_last_level f E) = file_op E"
  "arm_autosave (beyond_last_level f E) = arm_autosave E" "shutdown_save (beyond_last_level f E) = shutdown_save E"
  "shut_down (beyond_last_level f E) = shut_down E"
  unfolding autosave_tick_def file_op_def arm_autosave_def shutdown_save_def shut_down_def beyond by (rule refl)+

lemma beyond_process_core [simp, beyond]: "process_core (beyond_last_level f E) msg s = process_core E msg s"
  by (cases msg; simp only:; unfold process_core.simps beyond; rule refl)

lemma beyond_process_msg [simp, beyond]: "process_msg (beyond_last_level f E) msg s = process_msg E msg s"
  unfolding process_msg_def beyond by (rule refl)

lemma beyond_run_loop: "run_loop (beyond_last_level f E) msgs s = run_loop E msgs s"
  by (induction E msgs s rule: run_loop.induct) (simp_all split: option.splits)

section \<open>Properties\<close>

text \<open>The messages an actor has handled while its loop is still running: no handler panicked or waits forever. Beside the actor, whether an
  autosave was abandoned, because the split into shards failed in its tick, and no handler has finished since.\<close>

fun run_msgs :: "'w fs_env \<Rightarrow> actor_message list \<Rightarrow> bool \<times> dir_actor \<times> 'w \<Rightarrow> (bool \<times> dir_actor \<times> 'w) option" where
  "run_msgs E [] s = Some s"
| "run_msgs E (msg # msgs) (abandoned, s) =
    (case process_msg E msg s of
       None \<Rightarrow> None
     | Some ((_, outcome), s) \<Rightarrow>
        if outcome = Failed panicked then None
        else run_msgs E msgs (outcome \<noteq> Finished \<and> (abandoned \<or> tick_failed msg outcome), s))"

lemma armed_run_msgs: "run_msgs E msgs (f, s) = Some (f', s') \<Longrightarrow> f \<or> armed (fst s) \<Longrightarrow> f' \<or> armed (fst s')"
proof (induction msgs arbitrary: f s)
  case (Cons msg msgs)
  then obtain ans out s1 where p: "process_msg E msg s = Some ((ans, out), s1)" "out \<noteq> Failed panicked"
      "run_msgs E msgs (out \<noteq> Finished \<and> (f \<or> tick_failed msg out), s1) = Some (f', s')"
    by (auto split: option.splits if_splits)
  have "out \<noteq> Finished \<and> (f \<or> tick_failed msg out) \<or> armed (fst s1)"
    using armed_process_msg[of E msg "fst s" "snd s" ans out "fst s1" "snd s1"] p Cons.prems(2) by auto
  then show ?case using Cons.IH p(3) by blast
qed simp

text \<open>The last level opens no shard.\<close>

lemma last_level_opens_no_shard:
  assumes "dh_shard_level (dv_header (da_state a)) = Some MAX_SHARD_LEVEL" "bt_get (da_dir_shard_handles a) i = None"
  shows "\<exists>e. open_dir_shard_impl E i init (a, w) = (Inl e, (a, w))"
  using assms by (auto simp: open_dir_shard_impl_def MAX_SHARD_LEVEL_def act_err_def Let_def split: option.splits dir_ref_type.splits)

text \<open>C34. Shard levels stay in bounds. The loop of an actor, whatever its state, never spawns an actor at a level beyond \<open>MAX_SHARD_LEVEL\<close>:
  it runs the same when spawning such an actor would do anything else. An actor whose own level and whose loaded header are within the bound keeps
  both within it through every run, shutdown included, so that the assertion in \<open>shard_bucket_for\<close> never fails for the level of its header; and
  at the last level opening a shard is refused.\<close>

theorem shard_levels_bounded:
  assumes "level_ok a" "run_loop E msgs (a, w) = Some (answers, (a', w'))"
  shows "(\<forall>other s ms. run_loop (beyond_last_level other E) ms s = run_loop E ms s)
    \<and> level_ok a' \<and> (\<forall>l name. dh_shard_level (dv_header (da_state a')) = Some l \<longrightarrow>
      shard_bucket_for (fe_xxh3 E) name l = Some (shard_index (fe_xxh3 E) name l))
    \<and> (\<forall>i init. dh_shard_level (dv_header (da_state a')) = Some MAX_SHARD_LEVEL \<and> bt_get (da_dir_shard_handles a') i = None \<longrightarrow>
      (\<exists>e. open_dir_shard_impl E i init (a', w') = (Inl e, (a', w'))))"
proof -
  have ok: "level_ok a'" using level_ok_run_loop[OF assms(2)] assms(1) by simp
  then show ?thesis using beyond_run_loop[of _ E] last_level_opens_no_shard[of a' _ E _ w'] unfolding shard_bucket_for_def level_ok_def by fastforce
qed


lemma bt_insert_remove [simp]: "bt_insert k v (bt_remove k m) = bt_insert k v m"
  by (rule bt_eqI) simp

lemma route_local:
  assumes "dh_shard_level (dv_header (da_state a)) = None"
    and "\<not> bt_contains (dv_dirs (da_state a)) (fst (first_component path))"
  shows "route_to_child E path (a, w) = (Inr None, (a, w))"
  using assms by (cases "first_component path") (simp add: route_to_child_def Let_def act_ok_def)

definition demo_world :: mem_fs where
  "demo_world = (MemoryStore_new, MemoryRegistry_new, bt_empty)"

definition demo_put :: actor_message where
  "demo_put = PathOp ''f'' (FileOp (\<lambda>_. (Some (FileRef_new (fill32 1) 3), None)))"

definition demo_saving :: dir_actor where
  "demo_saving = (demo_child DirV1_new)\<lparr>da_autosave_debounce_ms := Some 5\<rparr>"

definition demo_changed :: dir_actor where
  "demo_changed = demo_saving\<lparr>da_state := DirV1_new\<lparr>dv_files := bt_insert ''f'' (FileRef_new (fill32 1) 3) bt_empty\<rparr>,
     da_shard_size_check_ops := 1, da_dirty := True, da_autosave_timer_active := True\<rparr>"

lemmas demo_defs = demo_saving_def demo_changed_def demo_child_def demo_put_def DirActor_new_def DirContext_new_def

definition demo_last_level :: dir_actor where
  "demo_last_level = demo_saving\<lparr>da_handle := Some 0, da_state := DirV1_new\<lparr>dv_header := DirHeader_new\<lparr>dh_shard_level := Some MAX_SHARD_LEVEL,
     dh_shards := Some (bt_insert 0 (DirRef_from_hash (fill32 0)) bt_empty)\<rparr>\<rparr>\<rparr>"

lemma demo_last_level_refuses:
  "run_loop demo_mem_env [demo_put, Shutdown] (demo_last_level, demo_world) = Some ([Dropped, AnsEmpty], (demo_last_level, demo_world))"
proof -
  have hdr: "dv_header (da_state demo_last_level) = DirHeader_new\<lparr>dh_shard_level := Some MAX_SHARD_LEVEL,
      dh_shards := Some (bt_insert 0 (DirRef_from_hash (fill32 0)) bt_empty)\<rparr>"
    by (simp add: demo_last_level_def)
  have "shard_bucket_for (fe_xxh3 demo_mem_env) ''f'' MAX_SHARD_LEVEL = Some 0"
    by (simp add: shard_bucket_for_def shard_index_def demo_mem_env_def mem_env_def MAX_SHARD_LEVEL_def)
  moreover have "open_dir_shard_impl demo_mem_env 0 None (demo_last_level, demo_world)
      = (Inl (Anyhow ''shard level exceeds maximum allowed level''), (demo_last_level, demo_world))"
    by (simp add: open_dir_shard_impl_def demo_last_level_def demo_defs DirV1_new_def DirRef_from_hash_def DirRef_ref_type_def MAX_SHARD_LEVEL_def act_err_def)
  ultimately have "route_to_child demo_mem_env ''f'' (demo_last_level, demo_world)
      = (Inl (Anyhow ''shard level exceeds maximum allowed level''), (demo_last_level, demo_world))"
    using hdr by (simp add: route_to_child_def first_component_def split_once_def Let_def bt_contains_def act_bind_def)
  moreover have "\<not> da_dirty demo_last_level" "da_dir_handles demo_last_level = bt_empty" "da_dir_shard_handles demo_last_level = bt_empty"
    by (simp_all add: demo_last_level_def demo_defs)
  ultimately show ?thesis by (simp add: demo_put_def process_msg_def panicked_def shutdown_save_def shut_down_def bt_vals_def)
qed

theorem shard_levels_bounded_witness:
  "run_loop (beyond_last_level (\<lambda>_ _ _. act_err panicked) demo_mem_env) [demo_put, Shutdown] (demo_last_level, demo_world)
      = Some ([Dropped, AnsEmpty], (demo_last_level, demo_world))
    \<and> (\<exists>e. open_dir_shard_impl demo_mem_env 0 None (demo_last_level, demo_world) = (Inl e, (demo_last_level, demo_world)))"
proof -
  have ok: "level_ok demo_last_level"
    by (simp add: level_ok_def link_level_def demo_last_level_def demo_defs DirV1_new_def DirHeader_new_def MAX_SHARD_LEVEL_def)
  have last: "dh_shard_level (dv_header (da_state demo_last_level)) = Some MAX_SHARD_LEVEL" "bt_get (da_dir_shard_handles demo_last_level) 0 = None"
    by (simp_all add: demo_last_level_def demo_defs)
  note all = shard_levels_bounded[OF ok demo_last_level_refuses]
  then have "run_loop (beyond_last_level (\<lambda>_ _ _. act_err panicked) demo_mem_env) [demo_put, Shutdown] (demo_last_level, demo_world)
      = run_loop demo_mem_env [demo_put, Shutdown] (demo_last_level, demo_world)" by blast
  then show ?thesis using all last by (simp only: demo_last_level_refuses)
qed

lemma demo_put_runs: "run_msgs demo_mem_env [demo_put] (False, demo_saving, demo_world) = Some (False, demo_changed, demo_world)"
proof -
  have "route_to_child demo_mem_env ''f'' (demo_saving, demo_world) = (Inr None, (demo_saving, demo_world))"
    by (rule route_local) (simp_all add: demo_defs DirV1_new_def DirHeader_new_def bt_contains_def)
  then have "process_msg demo_mem_env demo_put (demo_saving, demo_world) = Some ((AnsValue None, Finished), (demo_changed, demo_world))"
    by (simp add: demo_put_def process_msg_def file_op_def check_auto_promote_def split_once_def)
       (simp add: demo_defs mark_as_dirty_def arm_autosave_def act_bind_def act_ok_def DirV1_new_def
         demo_mem_env_def mem_env_def sat_add64_def)
  then show ?thesis by (simp add: panicked_def demo_put_def)
qed


end
