(* ===== verification/Promotion.thy ===== *)
theory Promotion
  imports Actor_Safety
begin

text \<open>
  Promotion of a path prefix to a subdirectory, through the whole handler \<^verbatim>\<open>promote_prefix\<close> of \<^verbatim>\<open>s5_fs/src/actor/sharding.rs\<close> and the
  routing of \<^verbatim>\<open>s5_fs/src/actor.rs\<close>: after it every file is found where the actors look for it.
\<close>

section \<open>Where a path is looked up\<close>

text \<open>A path resolves to a file the way \<open>route_to_child\<close> looks it up in a directory that is not split: when there is a subdirectory of the
  name of its first component, in the state that the reference to it stands for, and only otherwise in the directory itself.\<close>

inductive resolves ::
  "'w fs_env \<Rightarrow> (hash \<Rightarrow> bytes option) \<Rightarrow> dir_context \<Rightarrow> dir_v1 \<Rightarrow> string \<Rightarrow> file_ref \<Rightarrow> bool" for E b where
  here: "dh_shard_level (dv_header st) = None \<Longrightarrow> bt_get (dv_dirs st) (fst (first_component path)) = None \<Longrightarrow>
    bt_get (dv_files st) path = Some f \<Longrightarrow> resolves E b ctx st path f"
| below: "dh_shard_level (dv_header st) = None \<Longrightarrow> first_component path = (p, rest) \<Longrightarrow> bt_get (dv_dirs st) p = Some ref \<Longrightarrow>
    refers E b ctx ref st' \<Longrightarrow> resolves E b (DirContext_with_new_ref ctx ref link) st' rest f \<Longrightarrow> resolves E b ctx st path f"

lemma resolves_mono: "resolves E b ctx st path f \<Longrightarrow> b \<subseteq>\<^sub>m b' \<Longrightarrow> resolves E b' ctx st path f"
  by (induction rule: resolves.induct) (auto intro: resolves.intros refers_mono)

text \<open>No file has a name below the name of another file.\<close>

definition no_clash :: "dir_v1 \<Rightarrow> bool" where
  "no_clash st \<longleftrightarrow> (\<forall>k r. bt_get (dv_files st) k \<noteq> None \<longrightarrow> bt_get (dv_files st) (prefix_slash k @ r) = None)"

lemma no_clashD: "no_clash st \<Longrightarrow> bt_get (dv_files st) k \<noteq> None \<Longrightarrow> bt_get (dv_files st) (prefix_slash k @ r) = None"
  unfolding no_clash_def by (drule spec, drule spec, erule mp)

lemma no_clash_sub:
  assumes "no_clash st" "\<And>k. bt_get (dv_files st) k = None \<Longrightarrow> bt_get (dv_files st') k = None"
  shows "no_clash st'"
  unfolding no_clash_def
proof (intro allI impI assms(2))
  fix k r
  assume k: "bt_get (dv_files st') k \<noteq> None"
  have "bt_get (dv_files st) k \<noteq> None" by (rule notI) (use assms(2)[of k] k in simp)
  then show "bt_get (dv_files st) (prefix_slash k @ r) = None" by (rule no_clashD[OF assms(1)])
qed

lemma no_clash_child:
  assumes "no_clash st" "\<And>k. bt_get (dv_files st) (prefix_slash p @ k) = None \<Longrightarrow> bt_get (dv_files child) k = None"
  shows "no_clash child"
  unfolding no_clash_def
proof (intro allI impI assms(2))
  fix k r
  assume k: "bt_get (dv_files child) k \<noteq> None"
  have "bt_get (dv_files st) (prefix_slash p @ k) \<noteq> None" by (rule notI) (use assms(2)[of k] k in simp)
  then have "bt_get (dv_files st) (prefix_slash (prefix_slash p @ k) @ r) = None" by (rule no_clashD[OF assms(1)])
  then show "bt_get (dv_files st) (prefix_slash p @ (prefix_slash k @ r)) = None" by (simp add: prefix_slash_def)
qed

text \<open>A file of a prefix is below it or has its name.\<close>

lemma split_once_prefix: "split_once p = None \<Longrightarrow> split_once (prefix_slash p @ rest) = Some (p, rest)"
proof -
  assume "split_once p = None"
  then have p: "CHR ''/'' \<notin> set p" by (simp add: split_once_def split: if_splits)
  then have ne: "c \<noteq> CHR ''/''" if "c \<in> set p" for c using that by blast
  then have "takeWhile (\<lambda>c. c \<noteq> CHR ''/'') (p @ CHR ''/'' # rest) = p" "dropWhile (\<lambda>c. c \<noteq> CHR ''/'') (p @ CHR ''/'' # rest) = CHR ''/'' # rest"
    using takeWhile_append2[of p "\<lambda>c. c \<noteq> CHR ''/''"] dropWhile_append2[of p "\<lambda>c. c \<noteq> CHR ''/''"] by simp_all
  then show ?thesis by (simp add: split_once_def prefix_slash_def)
qed

lemma first_component_prefix: "split_once p = None \<Longrightarrow> first_component (prefix_slash p @ rest) = (p, rest)"
  by (simp add: first_component_def split_once_prefix)

lemma split_once_first: "split_once path = Some (p, rest) \<Longrightarrow> split_once p = None"
  by (auto simp: split_once_def dest: set_takeWhileD split: if_splits)

lemma first_component_cases:
  "fst (first_component k) = p \<Longrightarrow> split_once k = None \<and> k = p \<or> (\<exists>rest. split_once k = Some (p, rest) \<and> k = prefix_slash p @ rest)"
  by (auto simp: first_component_def split_once_starts split: option.splits)

section \<open>Restructuring a directory\<close>

text \<open>A group that is still to be promoted: all the files of the state below its prefix.\<close>

definition group_ok :: "dir_v1 \<Rightarrow> string \<times> string list \<Rightarrow> bool" where
  "group_ok st g \<longleftrightarrow> distinct (snd g) \<and> split_once (fst g) = None \<and> bt_get (dv_dirs st) (fst g) = None
    \<and> (\<forall>k. k \<in> set (snd g) \<longleftrightarrow> bt_get (dv_files st) k \<noteq> None \<and> map_option fst (split_once k) = Some (fst g))"

lemma group_ok_paths:
  assumes "group_ok st (p, paths)"
  shows "distinct paths" "\<forall>k \<in> set paths. starts_with (prefix_slash p) k"
  using assms split_once_starts by (fastforce simp: group_ok_def)+

lemma prefix_groups_ok:
  assumes "dv_dirs st = bt_empty"
  shows "distinct (map fst (prefix_groups st)) \<and> (\<forall>g \<in> set (prefix_groups st). group_ok st g)"
proof -
  have "split_once p = None" if "map_option fst (split_once k) = Some p" for p k
    using that split_once_first by (cases "split_once k") auto
  then have "split_once p = None" if "Some (p, r) = split_once k" for p r k
    using that by (metis map_option_eq_Some fst_conv)
  then show ?thesis
    using assms by (auto simp: prefix_groups_def group_ok_def Let_def comp_def bt_keys_iff split: option.splits)
qed

text \<open>The directories that the restructuring meets: not split, no file in the way of another, and none hidden by a subdirectory.\<close>

definition open_to_files :: "dir_v1 \<Rightarrow> bool" where
  "open_to_files st \<longleftrightarrow> dh_shard_level (dv_header st) = None \<and> no_clash st
    \<and> (\<forall>k. bt_get (dv_files st) k \<noteq> None \<longrightarrow> bt_get (dv_dirs st) (fst (first_component k)) = None)"

lemma promoted_open:
  assumes "open_to_files st" "bt_get (dv_files st) (prefix_slash p @ r) \<noteq> None"
    and "\<And>k. bt_get (dv_files st') k = (if starts_with (prefix_slash p) k then None else bt_get (dv_files st) k)"
    and "dv_header st' = dv_header st" "dv_dirs st' = bt_insert p ref (dv_dirs st)"
  shows "open_to_files st'"
proof -
  have "fst (first_component k) \<noteq> p" if "bt_get (dv_files st') k \<noteq> None" for k
  proof
    assume "fst (first_component k) = p"
    from first_component_cases[OF this] show False
    proof
      assume "split_once k = None \<and> k = p"
      then have "bt_get (dv_files st) p \<noteq> None" using assms(3)[of p] that by (auto split: if_splits)
      then show False using assms(1,2) no_clashD[of st p r] by (simp add: open_to_files_def)
    qed (use assms(3) that in auto)
  qed
  moreover have "no_clash st'" using assms(1,3) unfolding open_to_files_def by (auto intro: no_clash_sub)
  ultimately show ?thesis using assms unfolding open_to_files_def by (auto split: if_splits)
qed


lemma group_files:
  assumes "group_ok st (p, paths)" "move_paths p paths st = (child, st1)"
  shows "bt_get (dv_files st1) k = (if starts_with (prefix_slash p) k then None else bt_get (dv_files st) k)"
proof -
  have p: "split_once p = None" and mem: "k \<in> set paths \<longleftrightarrow> bt_get (dv_files st) k \<noteq> None \<and> map_option fst (split_once k) = Some p"
    using assms(1) by (simp_all add: group_ok_def)
  note ks = group_ok_paths[OF assms(1)]
  have "map_option fst (split_once k) = Some p" if "starts_with (prefix_slash p) k"
    using split_once_prefix[OF p, of "drop (length (prefix_slash p)) k"] starts_with_drop[OF that] by simp
  then show ?thesis using move_paths_files(2)[OF ks assms(2), of k] mem ks(2) by (auto simp: not_Some_eq)
qed

context actor_world
begin

definition keeps_files :: "dir_context \<Rightarrow> 'w \<Rightarrow> dir_v1 \<Rightarrow> error + dir_v1 \<Rightarrow> 'w \<Rightarrow> bool" where
  "keeps_files ctx w st r w' \<longleftrightarrow> winv w' \<and> blob w \<subseteq>\<^sub>m blob w' \<and> (\<forall>st'. r = Inr st' \<longrightarrow> open_to_files st')
    \<and> (\<forall>st' ctx2 path f. r = Inr st' \<longrightarrow> encrypts ctx2 = encrypts ctx \<longrightarrow>
         resolves E (blob w) ctx2 st path f \<longrightarrow> resolves E (blob w') ctx2 st' path f)"

lemma keeps_files_trans:
  "keeps_files ctx w st (Inr st1) w1 \<Longrightarrow> keeps_files ctx w1 st1 r w' \<Longrightarrow> keeps_files ctx w st r w'"
  unfolding keeps_files_def using map_le_trans by blast

lemma promote_group_keeps:
  assumes w: "winv w" and st: "open_to_files st" and g: "group_ok st (p, paths)" and ne: "paths \<noteq> []"
    and mv: "move_paths p paths st = (child, st1)"
    and child: "keeps_files ctx w child (Inr opt) w1" and sc: "store_child E ctx opt w1 = (Inr ref, w2)"
  shows "keeps_files ctx w st (Inr (st1\<lparr>dv_dirs := bt_insert p ref (dv_dirs st1)\<rparr>)) w2"
proof -
  let ?new = "st1\<lparr>dv_dirs := bt_insert p ref (dv_dirs st1)\<rparr>"
  note ks = group_ok_paths[OF g]
  have p: "split_once p = None" "bt_get (dv_dirs st) p = None"
    and mem: "k \<in> set paths \<longleftrightarrow> bt_get (dv_files st) k \<noteq> None \<and> map_option fst (split_once k) = Some p" for k
    using g by (simp_all add: group_ok_def)
  note m = move_paths_files[OF ks mv]
  have w1: "winv w1" "blob w \<subseteq>\<^sub>m blob w1" using child by (simp_all add: keeps_files_def)
  note s = store_child_refers[OF w1(1) sc]
  have le: "blob w \<subseteq>\<^sub>m blob w2" using w1(2) s map_le_trans by blast
  note below_p = split_once_prefix[OF p(1)]
  have files: "bt_get (dv_files ?new) k = (if starts_with (prefix_slash p) k then None else bt_get (dv_files st) k)" for k
    using group_files[OF g mv, of k] by simp
  obtain k0 where k0: "k0 \<in> set paths" using ne by (cases paths) auto
  have "open_to_files ?new"
    by (rule promoted_open[OF st _ files, of "drop (length (prefix_slash p)) k0" ref])
      (use starts_with_drop ks(2) k0 mem m(5,6) in auto)
  moreover have "resolves E (blob w2) ctx2 ?new path f"
    if enc: "encrypts ctx2 = encrypts ctx" and res: "resolves E (blob w) ctx2 st path f" for ctx2 path f
    using res
  proof cases
    case here
    show ?thesis
    proof (cases "starts_with (prefix_slash p) path")
      case False
      then have fl: "bt_get (dv_files ?new) path = Some f" using files[of path] here(3) by simp
      then have "bt_get (dv_dirs ?new) (fst (first_component path)) = None" using \<open>open_to_files ?new\<close> unfolding open_to_files_def by blast
      then show ?thesis using fl here(1) m(6) by (intro resolves.here) simp_all
    next
      case True
      then obtain rest where path: "path = prefix_slash p @ rest" using starts_with_drop by metis
      have "path \<in> set paths" using mem[of path] here(3) below_p path by simp
      then have "bt_get (dv_files child) rest = Some f" using m(1)[of rest] here(3) path by simp
      then have res: "resolves E (blob w) ctx3 child rest f" for ctx3 using m(3,4) by (intro resolves.here) (simp_all add: DirHeader_new_def)
      have inner: "resolves E (blob w2) ctx3 opt rest f" if "encrypts ctx3 = encrypts ctx" for ctx3
      proof -
        have "resolves E (blob w1) ctx3 opt rest f" using child that res[of ctx3] by (simp add: keeps_files_def)
        then show ?thesis using s by (auto intro: resolves_mono)
      qed
      show ?thesis
      proof (rule resolves.below[where link = "LinkLocalFile []"])
        show "dh_shard_level (dv_header ?new) = None" using here(1) m(6) by simp
        show "first_component path = (p, rest)" unfolding path by (rule first_component_prefix[OF p(1)])
        show "bt_get (dv_dirs ?new) p = Some ref" by simp
        show "refers E (blob w2) ctx2 ref opt" using s enc by blast
        show "resolves E (blob w2) (DirContext_with_new_ref ctx2 ref (LinkLocalFile [])) opt rest f"
          using s enc by (intro inner) blast
      qed
    qed
  next
    case (below p' rest ref' st' link)
    then have "bt_get (dv_dirs ?new) p' = Some ref'" "dh_shard_level (dv_header ?new) = None" using p(2) m(5,6) by auto
    from resolves.below[OF this(2) below(2) this(1) refers_mono[OF below(4) le] resolves_mono[OF below(5) le]] show ?thesis .
  qed
  ultimately show ?thesis using s le by (simp add: keeps_files_def)
qed

end

lemma later_groups_ok:
  assumes "group_ok st (q, qs)" "q \<noteq> p" "split_once p = None" "bt_get (dv_dirs st') q = bt_get (dv_dirs st) q"
    and "\<And>k. bt_get (dv_files st') k = (if starts_with (prefix_slash p) k then None else bt_get (dv_files st) k)"
  shows "group_ok st' (q, qs)"
proof -
  have "\<not> starts_with (prefix_slash p) k" if "map_option fst (split_once k) = Some q" for k
  proof
    assume "starts_with (prefix_slash p) k"
    then have "first_component k = (p, drop (length (prefix_slash p)) k)" using first_component_prefix[OF assms(3)] starts_with_drop by metis
    then show False using that assms(2) by (auto simp: first_component_def split: option.splits)
  qed
  then show ?thesis using assms(1,4,5) by (auto simp: group_ok_def)
qed

context actor_world
begin

lemma optimize_groups_keeps:
  assumes IH: "\<And>w st r w'. winv w \<Longrightarrow> dv_dirs st = bt_empty \<Longrightarrow> open_to_files st \<Longrightarrow>
      optimize_dir_structure fuel E ctx st w = (r, w') \<Longrightarrow> keeps_files ctx w st r w'"
    and "winv w" "open_to_files st" "distinct (map fst gs)" "\<forall>g \<in> set gs. group_ok st g" "optimize_groups fuel E ctx gs st w = (r, w')"
  shows "keeps_files ctx w st r w'"
  using assms(2-)
proof (induction gs arbitrary: st w)
  case Nil
  then show ?case by (auto simp: keeps_files_def)
next
  case (Cons g gs)
  obtain p paths where g: "g = (p, paths)" by (cases g)
  show ?case
  proof (cases "length paths > FS5_PROMOTION_THRESHOLD")
    case False
    then show ?thesis using Cons g by auto
  next
    case True
    obtain child st1 where mv: "move_paths p paths st = (child, st1)" by fastforce
    have gp: "group_ok st (p, paths)" using Cons.prems(4) g by simp
    note m = move_paths_files[OF group_ok_paths[OF gp] mv]
    have oc: "open_to_files child"
      unfolding open_to_files_def using m(3,4) Cons.prems(2) no_clash_child[of st p child] m(1)
      by (auto simp: open_to_files_def DirHeader_new_def)
    obtain r1 w1 where o: "optimize_dir_structure fuel E ctx child w = (r1, w1)" by fastforce
    note k1 = IH[OF Cons.prems(1) m(3) oc o]
    show ?thesis
    proof (cases r1)
      case (Inl e)
      then show ?thesis using Cons.prems(5) True mv g o k1 by (auto simp: act_bind_def keeps_files_def)
    next
      case (Inr opt)
      obtain r2 w2 where sc: "store_child E ctx opt w1 = (r2, w2)" by fastforce
      note s = store_child_refers[OF _ sc]
      show ?thesis
      proof (cases r2)
        case (Inl e)
        then show ?thesis
          using Cons.prems(5) True mv g o \<open>r1 = Inr opt\<close> sc s k1 map_le_trans[of "blob w" "blob w1" "blob w2"]
          by (auto simp: act_bind_def keeps_files_def)
      next
        case (Inr ref)
        let ?new = "st1\<lparr>dv_dirs := bt_insert p ref (dv_dirs st1)\<rparr>"
        have k2: "keeps_files ctx w st (Inr ?new) w2"
          using promote_group_keeps[OF Cons.prems(1,2) gp _ mv] k1 \<open>r1 = Inr opt\<close> sc Inr True by (cases paths) auto
        have "group_ok ?new g'" if "g' \<in> set gs" for g'
          using later_groups_ok[of st "fst g'" "snd g'" p ?new] group_files[OF gp mv] that Cons.prems(3,4) g gp m(5)
          by (auto simp: group_ok_def[of st "(p, paths)"] image_iff)
        moreover have "optimize_groups fuel E ctx gs ?new w2 = (r, w')"
          using Cons.prems(5) True mv g o \<open>r1 = Inr opt\<close> sc Inr by (simp add: act_bind_def)
        ultimately have "keeps_files ctx w2 ?new r w'"
          using Cons.IH[of w2 ?new] Cons.prems(3) k2 by (simp add: keeps_files_def)
        then show ?thesis by (rule keeps_files_trans[OF k2])
      qed
    qed
  qed
qed

lemma optimize_keeps:
  "winv w \<Longrightarrow> dv_dirs st = bt_empty \<Longrightarrow> open_to_files st \<Longrightarrow> optimize_dir_structure fuel E ctx st w = (r, w') \<Longrightarrow> keeps_files ctx w st r w'"
proof (induction fuel arbitrary: w st r w')
  case 0
  then show ?case by (auto simp: keeps_files_def)
next
  case (Suc fuel)
  show ?case
    by (rule optimize_groups_keeps[OF Suc.IH Suc.prems(1,3)])
       (use prefix_groups_ok[OF Suc.prems(2)] Suc.prems(4) in auto)
qed

end


section \<open>The handler\<close>

lemma build_ref_type: "cx_signing_key ctx = None \<Longrightarrow> DirRef_ref_type (build_child_dir_ref b ctx x) = DirBlake3Hash"
  by (simp add: build_child_dir_ref_def DirRef_ref_type_def Let_def)

lemma build_ref_encrypts:
  "encrypts (DirContext_with_new_ref ctx (build_child_dir_ref (cx_encryption_type ctx \<noteq> None) ctx x) link) = encrypts ctx"
  by (auto simp: encrypts_def DirContext_with_new_ref_def build_child_dir_ref_def Let_def split: option.splits)

lemma open_new_dir:
  assumes "bt_get (da_dir_handles b) p = None" "bt_get (dv_dirs (da_state b)) p = Some ref" "DirRef_ref_type ref = DirBlake3Hash"
    and "open_dir E p init (b, v) = (Inr h, (b', v'))"
  obtains me where "da_handle b = Some me"
    "fe_spawn E (DirContext_with_new_ref (da_context b) ref (LinkDirHandle (HandlePath p) me (dr_hash ref) 0)) init (da_autosave_debounce_ms b) v
      = (Inr h, v')" "b' = b\<lparr>da_dir_handles := bt_insert p h (da_dir_handles b)\<rparr>"
  using assms by (auto simp: open_dir_def Let_def act_bind_def split: option.splits sum.splits prod.splits)

text \<open>The steps of a promotion: the files below the prefix move out, their directory is restructured, and an actor is spawned for it.\<close>

lemma promote_prefix_steps:
  assumes "bt_get (dv_dirs (da_state a)) p = None" "bt_get (da_dir_handles a) p = None" "cx_signing_key (da_context a) = None"
    and "extract_child_dir_state p (da_state a) = (child, st1)" "fe_fresh E w = (x, w1)"
    and "ref = build_child_dir_ref (cx_encryption_type (da_context a) \<noteq> None) (da_context a) x"
    and "promote_prefix E p (a, w) = (Inr (), (a', w'))"
  obtains me opt w2 h where "da_handle a = Some me" "optimize_dir_structure (path_fuel child) E (da_context a) child w1 = (Inr opt, w2)"
    "fe_spawn E (DirContext_with_new_ref (da_context a) ref (LinkDirHandle (HandlePath p) me (dr_hash ref) 0)) (Some opt)
       (da_autosave_debounce_ms a) w2 = (Inr h, w')"
    "a' = a\<lparr>da_state := st1\<lparr>dv_dirs := bt_insert p ref (dv_dirs st1)\<rparr>, da_dir_handles := bt_insert p h (da_dir_handles a)\<rparr>"
proof -
  note t = build_ref_type[OF assms(3), of "cx_encryption_type (da_context a) \<noteq> None" x, folded assms(6)]
  let ?a = "a\<lparr>da_state := st1\<lparr>dv_dirs := bt_insert p ref (dv_dirs st1)\<rparr>\<rparr>"
  have "promote_prefix E p (a, w) = act_bind (on_snd (optimize_dir_structure (path_fuel child) E (da_context a) child)) (\<lambda>opt.
      act_bind (open_dir E p (Some opt)) (\<lambda>_. act_ok ())) (?a, w1)"
    using assms(1,4,5) by (simp add: promote_prefix_def bt_contains_def Let_def act_fresh_def act_bind_def[of "on_snd (act_fresh E)"] assms(6)
        del: not_None_eq)
  then obtain opt w2 h where o: "optimize_dir_structure (path_fuel child) E (da_context a) child w1 = (Inr opt, w2)"
    "open_dir E p (Some opt) (?a, w2) = (Inr h, (a', w'))"
    using assms(7) by (auto simp: act_bind_def split: sum.splits prod.splits)
  have "bt_get (dv_dirs (da_state ?a)) p = Some ref" "bt_get (da_dir_handles ?a) p = None" using assms(2) by simp_all
  from open_new_dir[OF this(2,1) t o(2)] obtain me where "da_handle a = Some me"
    "fe_spawn E (DirContext_with_new_ref (da_context a) ref (LinkDirHandle (HandlePath p) me (dr_hash ref) 0)) (Some opt)
       (da_autosave_debounce_ms a) w2 = (Inr h, w')"
    "a' = ?a\<lparr>da_dir_handles := bt_insert p h (da_dir_handles a)\<rparr>" by auto
  then show thesis using that[OF _ o(1)] by simp
qed

context actor_world
begin

lemma promotion_keeps_files:
  assumes "winv w" "open_to_files (da_state a)" "split_once p = None" "bt_get (dv_dirs (da_state a)) p = None"
    and "bt_get (da_dir_handles a) p = None" "cx_signing_key (da_context a) = None"
    and "promote_prefix E p (a, w) = (Inr (), (a', w'))"
  shows "\<exists>ref h me opt v. bt_get (dv_dirs (da_state a')) p = Some ref \<and> bt_get (da_dir_handles a') p = Some h
    \<and> fe_spawn E (DirContext_with_new_ref (da_context a) ref (LinkDirHandle (HandlePath p) me (dr_hash ref) 0)) (Some opt)
        (da_autosave_debounce_ms a) v = (Inr h, w')
    \<and> (\<forall>rest f link. bt_get (dv_files (da_state a)) (prefix_slash p @ rest) = Some f \<longrightarrow>
        resolves E (blob w') (DirContext_with_new_ref (da_context a) ref link) opt rest f)
    \<and> (\<forall>q. q \<noteq> p \<longrightarrow> bt_get (dv_dirs (da_state a')) q = bt_get (dv_dirs (da_state a)) q)
    \<and> (\<forall>k. bt_get (dv_files (da_state a')) k = (if starts_with (prefix_slash p) k then None else bt_get (dv_files (da_state a)) k))
    \<and> dv_header (da_state a') = dv_header (da_state a)"
proof -
  obtain child st1 where x: "extract_child_dir_state p (da_state a) = (child, st1)" by fastforce
  obtain y w1 where y: "fe_fresh E w = (y, w1)" by fastforce
  define ref where "ref = build_child_dir_ref (cx_encryption_type (da_context a) \<noteq> None) (da_context a) y"
  obtain me opt w2 h where steps: "optimize_dir_structure (path_fuel child) E (da_context a) child w1 = (Inr opt, w2)"
    "fe_spawn E (DirContext_with_new_ref (da_context a) ref (LinkDirHandle (HandlePath p) me (dr_hash ref) 0)) (Some opt)
       (da_autosave_debounce_ms a) w2 = (Inr h, w')"
    "a' = a\<lparr>da_state := st1\<lparr>dv_dirs := bt_insert p ref (dv_dirs st1)\<rparr>, da_dir_handles := bt_insert p h (da_dir_handles a)\<rparr>"
    by (rule promote_prefix_steps[OF assms(4-6) x y ref_def assms(7)])
  note e = extract_child_files[OF x]
  have w1: "winv w1" "blob w1 = blob w" using fresh_law[OF assms(1) y] by simp_all
  have "dv_header child = DirHeader_new" by (rule move_paths_files(4)[OF _ _ x[unfolded extract_is_move]]) simp_all
  then have hc: "dh_shard_level (dv_header child) = None" by (simp add: DirHeader_new_def)
  have "no_clash child" using assms(2) no_clash_child[of "da_state a" p child] e(1) by (simp add: open_to_files_def)
  then have oc: "open_to_files child" using e(3) hc by (simp add: open_to_files_def)
  note k = optimize_keeps[OF w1(1) e(3) oc steps(1)]
  have sp: "winv w' \<and> blob w2 \<subseteq>\<^sub>m blob w'" using spawn_law[OF _ steps(2)] k by (simp add: keeps_files_def)
  have "resolves E (blob w') (DirContext_with_new_ref (da_context a) ref link) opt rest f"
    if "bt_get (dv_files (da_state a)) (prefix_slash p @ rest) = Some f" for rest f link
  proof -
    have "resolves E (blob w1) (DirContext_with_new_ref (da_context a) ref link) child rest f"
      using that e(1,3) hc by (intro resolves.here) simp_all
    then have "resolves E (blob w2) (DirContext_with_new_ref (da_context a) ref link) opt rest f"
      using k build_ref_encrypts[of "da_context a" y link] by (simp add: keeps_files_def ref_def)
    then show ?thesis using sp by (auto intro: resolves_mono)
  qed
  then show ?thesis using steps(2) e(2,4,5) unfolding steps(3) by (intro exI[of _ ref] exI[of _ h] exI[of _ me] exI[of _ opt] exI[of _ w2]) simp
qed

end

lemma mem_promote_total:
  assumes "libs_ok H D x" "da_handle a \<noteq> None" "cx_signing_key (da_context a) = None"
  shows "is_ok (fst (promote_prefix (mem_env H D sg xx x) p (a, w)))"
proof -
  let ?E = "mem_env H D sg xx x"
  obtain child st1 where e: "extract_child_dir_state p (da_state a) = (child, st1)" by fastforce
  have fr: "act_fresh ?E v = (Inr x, v)" for v by (simp add: act_fresh_def mem_env_def)
  obtain opt w2 where o: "optimize_dir_structure (path_fuel child) ?E (da_context a) child w = (Inr opt, w2)"
    using is_ok_fstD[OF mem_optimize_total[OF assms(1) conjunct1[OF path_fuel_enough] conjunct2[OF path_fuel_enough]]] by metis
  have s: "fe_spawn ?E c i m = act_ok 0" for c i m by (simp add: mem_env_def)
  obtain me where me: "da_handle a = Some me" using assms(2) by auto
  note t = build_ref_type[OF assms(3)]
  show ?thesis
    by (auto simp: promote_prefix_def bt_contains_def Let_def e fr o open_dir_def t me s act_bind_def is_ok_def
        split: option.splits)
qed


text \<open>A path below a subdirectory whose actor is running is handed to that actor, relative to it; so is the name of the subdirectory.\<close>

lemma route_to_running:
  assumes "dh_shard_level (dv_header (da_state a)) = None" "bt_get (dv_dirs (da_state a)) p = Some ref" "bt_get (da_dir_handles a) p = Some h"
    and "first_component path = (p, rest)"
  shows "route_to_child E path (a, u) = (Inr (Some (h, rest)), (a, u))"
  using assms by (simp add: route_to_child_def Let_def bt_contains_def open_dir_def act_bind_def act_ok_def)

section \<open>Properties\<close>

text \<open>A file that has the name of the prefix itself is hidden by its promotion: its path is handed to the actor of the new subdirectory, with the
  empty path.\<close>

lemma promotion_hides_file:
  assumes "promote_prefix E p (a, w) = (Inr (), (a', w'))" "split_once p = None" "dh_shard_level (dv_header (da_state a)) = None"
    and "bt_get (dv_dirs (da_state a)) p = None" "bt_get (da_dir_handles a) p = None" "cx_signing_key (da_context a) = None"
  shows "bt_get (dv_files (da_state a')) p = bt_get (dv_files (da_state a)) p
    \<and> (\<exists>h. \<forall>u. route_to_child E p (a', u) = (Inr (Some (h, [])), (a', u)))"
proof -
  obtain child st1 where x: "extract_child_dir_state p (da_state a) = (child, st1)" by fastforce
  obtain y w1 where y: "fe_fresh E w = (y, w1)" by fastforce
  obtain ref h where a': "a' = a\<lparr>da_state := st1\<lparr>dv_dirs := bt_insert p ref (dv_dirs st1)\<rparr>, da_dir_handles := bt_insert p h (da_dir_handles a)\<rparr>"
    by (rule promote_prefix_steps[OF assms(4-6) x y refl assms(1)])
  have "first_component p = (p, [])" using assms(2) by (simp add: first_component_def)
  then have "route_to_child E p (a', u) = (Inr (Some (h, [])), (a', u))" for u
    using assms(3) extract_child_files(5)[OF x] by (intro route_to_running) (simp_all add: a')
  moreover have "\<not> starts_with (prefix_slash p) p" by (simp add: starts_with_def prefix_slash_def)
  ultimately show ?thesis using extract_child_files(2)[OF x, of p] by (auto simp: a')
qed

text \<open>C33. Promoting a path prefix loses no file. The directory is not split, none of its files lies below the name of another file or of a
  subdirectory, and it is not published under a key. When the handler succeeds, the directory has a reference and the handle of a new actor under the
  prefix, that actor was spawned with the restructured subdirectory, every path below the prefix is routed to it under its relative name, and every file
  that was below the prefix is found there by routing, at any depth, through references whose recorded keys decrypt the stored snapshots. Every other
  file stays in the directory and is still looked up there. In memory the handler always succeeds, so the bound on its recursion is never reached.\<close>

theorem promotion_lossless:
  assumes "actor_world E entries winv storable blob" "winv w" "open_to_files (da_state a)" "split_once p = None"
    and "bt_get (dv_dirs (da_state a)) p = None" "bt_get (da_dir_handles a) p = None" "cx_signing_key (da_context a) = None"
    and "bt_get (dv_files (da_state a)) (prefix_slash p @ r) \<noteq> None" "promote_prefix E p (a, w) = (Inr (), (a', w'))"
  shows "(\<exists>ref h me opt v. bt_get (dv_dirs (da_state a')) p = Some ref
      \<and> fe_spawn E (DirContext_with_new_ref (da_context a) ref (LinkDirHandle (HandlePath p) me (dr_hash ref) 0)) (Some opt)
          (da_autosave_debounce_ms a) v = (Inr h, w')
      \<and> (\<forall>rest u. route_to_child E (prefix_slash p @ rest) (a', u) = (Inr (Some (h, rest)), (a', u)))
      \<and> (\<forall>rest f link. bt_get (dv_files (da_state a)) (prefix_slash p @ rest) = Some f \<longrightarrow>
          resolves E (blob w') (DirContext_with_new_ref (da_context a) ref link) opt rest f))
    \<and> (\<forall>k. starts_with (prefix_slash p) k \<longrightarrow> bt_get (dv_files (da_state a')) k = None)
    \<and> (\<forall>k f u. bt_get (dv_files (da_state a)) k = Some f \<and> \<not> starts_with (prefix_slash p) k \<longrightarrow>
        bt_get (dv_files (da_state a')) k = Some f \<and> route_to_child E k (a', u) = (Inr None, (a', u)))
    \<and> (\<forall>H D sg xx x v. libs_ok H D x \<and> da_handle a \<noteq> None \<longrightarrow> is_ok (fst (promote_prefix (mem_env H D sg xx x) p (a, v))))"
proof -
  obtain ref h me opt v where *: "bt_get (dv_dirs (da_state a')) p = Some ref" "bt_get (da_dir_handles a') p = Some h"
    "fe_spawn E (DirContext_with_new_ref (da_context a) ref (LinkDirHandle (HandlePath p) me (dr_hash ref) 0)) (Some opt)
        (da_autosave_debounce_ms a) v = (Inr h, w')"
    "\<And>rest f link. bt_get (dv_files (da_state a)) (prefix_slash p @ rest) = Some f \<Longrightarrow>
        resolves E (blob w') (DirContext_with_new_ref (da_context a) ref link) opt rest f"
    "\<And>q. q \<noteq> p \<Longrightarrow> bt_get (dv_dirs (da_state a')) q = bt_get (dv_dirs (da_state a)) q"
    "\<And>k. bt_get (dv_files (da_state a')) k = (if starts_with (prefix_slash p) k then None else bt_get (dv_files (da_state a)) k)"
    "dv_header (da_state a') = dv_header (da_state a)"
    using actor_world.promotion_keeps_files[OF assms(1-7,9)] by blast
  have level: "dh_shard_level (dv_header (da_state a')) = None" using assms(3) *(7) by (simp add: open_to_files_def)
  have "route_to_child E (prefix_slash p @ rest) (a', u) = (Inr (Some (h, rest)), (a', u))" for rest u
    by (rule route_to_running[OF level *(1,2) first_component_prefix[OF assms(4)]])
  moreover have "open_to_files (da_state a')"
    by (rule promoted_open[OF assms(3,8) *(6,7), of ref]) (rule bt_eqI, use *(1,5) in auto)
  then have "route_to_child E k (a', u) = (Inr None, (a', u))" if "bt_get (dv_files (da_state a')) k = Some f" for k f u
    using that by (intro route_local[OF level]) (auto simp: open_to_files_def bt_contains_def)
  ultimately show ?thesis using *(1,3,4,6) mem_promote_total[OF _ _ assms(7)] by (intro conjI exI[of _ ref] exI[of _ h] exI[of _ me] exI[of _ opt] exI[of _ v]) auto
qed

definition demo_nesting :: dir_actor where
  "demo_nesting = (demo_child (DirV1_new\<lparr>dv_files := bt_insert ''a'' (FileRef_new (fill32 8) 1) (bt_insert ''d/x'' (FileRef_new (fill32 7) 3) bt_empty)\<rparr>))
    \<lparr>da_handle := Some 0\<rparr>"

theorem promotion_lossless_witness:
  "\<exists>a' w' opt h ref. promote_prefix demo_mem_env ''d'' (demo_nesting, demo_world) = (Inr (), (a', w'))
    \<and> route_to_child demo_mem_env ''d/x'' (a', w') = (Inr (Some (h, ''x'')), (a', w'))
    \<and> resolves demo_mem_env (mem_blob demo_hashing w') (DirContext_with_new_ref (da_context demo_nesting) ref (LinkLocalFile [])) opt ''x'' (FileRef_new (fill32 7) 3)
    \<and> route_to_child demo_mem_env ''a'' (a', w') = (Inr None, (a', w'))"
proof -
  have st: "dh_shard_level (dv_header (da_state demo_nesting)) = None" "dv_dirs (da_state demo_nesting) = bt_empty" "da_dir_handles demo_nesting = bt_empty"
    "cx_signing_key (da_context demo_nesting) = None" "da_handle demo_nesting \<noteq> None"
    and fl: "bt_get (dv_files (da_state demo_nesting)) k = (if k = ''a'' then Some (FileRef_new (fill32 8) 1) else if k = ''d/x'' then Some (FileRef_new (fill32 7) 3) else None)" for k
    by (simp_all add: demo_nesting_def demo_defs DirV1_new_def DirHeader_new_def)
  have "no_clash (da_state demo_nesting)" by (simp add: no_clash_def fl prefix_slash_def)
  then have op: "open_to_files (da_state demo_nesting)" using st by (simp add: open_to_files_def)
  have d: "split_once ''d'' = None" "prefix_slash ''d'' @ ''x'' = ''d/x''" "\<not> starts_with (prefix_slash ''d'') ''a''"
    by (simp_all add: split_once_def prefix_slash_def starts_with_def)
  have "is_ok (fst (promote_prefix demo_mem_env ''d'' (demo_nesting, demo_world)))"
    unfolding demo_mem_env_def by (rule mem_promote_total[OF demo_libs_ok st(5,4)])
  then obtain a' w' where run: "promote_prefix demo_mem_env ''d'' (demo_nesting, demo_world) = (Inr (), (a', w'))"
    by (auto simp: is_ok_def split: sum.splits) (metis prod.collapse)
  have aw: "actor_world demo_mem_env (\<lambda>w. bt_get (fst (snd w))) (\<lambda>w. libs_ok demo_hashing demo_dir_codec demo_fresh) (\<lambda>_. True) (mem_blob demo_hashing)"
    unfolding demo_mem_env_def by (rule mem_actor.actor_world_axioms)
  have "bt_get (dv_dirs (da_state demo_nesting)) ''d'' = None" "bt_get (da_dir_handles demo_nesting) ''d'' = None"
    "bt_get (dv_files (da_state demo_nesting)) (prefix_slash ''d'' @ ''x'') \<noteq> None"
    using st fl[of "''d/x''"] d(2) by simp_all
  note all = promotion_lossless[OF aw demo_libs_ok op d(1) this(1,2) st(4) this(3) run]
  from all obtain ref h opt where
    "\<And>rest u. route_to_child demo_mem_env (prefix_slash ''d'' @ rest) (a', u) = (Inr (Some (h, rest)), (a', u))"
    "\<And>rest f link. bt_get (dv_files (da_state demo_nesting)) (prefix_slash ''d'' @ rest) = Some f \<Longrightarrow>
      resolves demo_mem_env (mem_blob demo_hashing w') (DirContext_with_new_ref (da_context demo_nesting) ref link) opt rest f" by blast
  from this(1)[of "''x''" w'] this(2)[of "''x''"] have
    "route_to_child demo_mem_env ''d/x'' (a', w') = (Inr (Some (h, ''x'')), (a', w'))"
    "resolves demo_mem_env (mem_blob demo_hashing w') (DirContext_with_new_ref (da_context demo_nesting) ref (LinkLocalFile [])) opt ''x'' (FileRef_new (fill32 7) 3)"
    using fl[of "''d/x''"] d(2) by simp_all
  moreover have "bt_get (dv_files (da_state demo_nesting)) ''a'' = Some (FileRef_new (fill32 8) 1)" using fl[of "''a''"] by simp
  with all d(3) have "route_to_child demo_mem_env ''a'' (a', w') = (Inr None, (a', w'))" by blast
  ultimately show ?thesis using run by blast
qed


end
