(* ===== verification/Fs_Api.thy ===== *)
theory Fs_Api
  imports Actor_Safety
begin

text \<open>
  The handle of a directory actor (\<^verbatim>\<open>s5_fs/src/actor.rs\<close>) and the file system API on top of it
  (\<^verbatim>\<open>s5_fs/src/api.rs\<close>). A handle is the sender of the actor's channel: a function that delivers a message
  and returns the answer. \<open>actor_send\<close> is the handle of an actor run by its own message loop.
\<close>

section \<open>Handles\<close>

type_synonym 'w dir_handle = "actor_message \<Rightarrow> ('w, actor_answer) action"

definition actor_closed :: error where
  "actor_closed = Anyhow ''Actor task has been closed.''"

text \<open>A message is in the channel, or the actor is gone. The answer of a fire-and-forget message is dropped.\<close>

definition send_msg :: "'w dir_handle \<Rightarrow> actor_message \<Rightarrow> ('w, unit) action" where
  "send_msg h msg = act_bind (h msg) (\<lambda>_. act_ok ())"

definition handle_save_if_dirty :: "'w dir_handle \<Rightarrow> ('w, hash option) action" where
  "handle_save_if_dirty h =
    act_bind (h SaveIfDirty) (\<lambda>a. case a of AnsHashOpt r \<Rightarrow> act_lift r | _ \<Rightarrow> act_err channel_closed)"

definition execute :: "'w dir_handle \<Rightarrow> string \<Rightarrow> file_task \<Rightarrow> ('w, file_ref option) action" where
  "execute h path f =
    act_bind (h (PathOp path (FileOp f))) (\<lambda>a. case a of AnsValue r \<Rightarrow> act_ok r | _ \<Rightarrow> act_err channel_closed)"

definition execute_and_forget :: "'w dir_handle \<Rightarrow> string \<Rightarrow> file_task \<Rightarrow> ('w, unit) action" where
  "execute_and_forget h path f = send_msg h (PathOp path (FileOp f))"

definition handle_shutdown :: "'w dir_handle \<Rightarrow> ('w, unit) action" where
  "handle_shutdown h = act_ignore (h Shutdown)"

text \<open>The actor behind a handle: \<open>None\<close> once its loop has ended. A handler that never returns gives no
  answer.\<close>

definition actor_send :: "'w fs_env \<Rightarrow> (dir_actor option \<times> 'w) dir_handle" where
  "actor_send E msg s =
    (case s of
       (None, w) \<Rightarrow> (Inl actor_closed, (None, w))
     | (Some a, w) \<Rightarrow>
        (case msg of
           Shutdown \<Rightarrow> (Inr AnsEmpty, (None, snd (shutdown_save E (shut_down E (a, w)))))
         | _ \<Rightarrow>
            (case process_msg E msg (a, w) of
               None \<Rightarrow> (Inl channel_closed, (None, w))
             | Some ((answer, outcome), (a, w)) \<Rightarrow>
                (Inr answer, (if outcome = Failed panicked then None else Some a, w)))))"

section \<open>The file system\<close>

record 'w fs5 =
  fs_root :: "'w dir_handle"

definition FS5_open :: "(dir_context \<Rightarrow> dir_v1 option \<Rightarrow> u64 option \<Rightarrow> 'w dir_handle) \<Rightarrow> dir_context \<Rightarrow> 'w fs5" where
  "FS5_open spawn context = \<lparr>fs_root = spawn context None None\<rparr>"

definition FS5_with_autosave :: "'w fs5 \<Rightarrow> u64 \<Rightarrow> ('w, 'w fs5) action" where
  "FS5_with_autosave self debounce_ms = act_bind (send_msg (fs_root self) (SetAutosave debounce_ms)) (\<lambda>_. act_ok self)"

definition FS5_save :: "'w fs5 \<Rightarrow> ('w, unit) action" where
  "FS5_save self = act_bind (handle_save_if_dirty (fs_root self)) (\<lambda>_. act_ok ())"

definition answer_done :: "'w fs5 \<Rightarrow> actor_message \<Rightarrow> ('w, unit) action" where
  "answer_done self msg = act_bind (fs_root self msg) (\<lambda>a. case a of AnsDone r \<Rightarrow> act_lift r | _ \<Rightarrow> act_err channel_closed)"

definition answer_dir :: "'w fs5 \<Rightarrow> actor_message \<Rightarrow> ('w, dir_v1) action" where
  "answer_dir self msg = act_bind (fs_root self msg) (\<lambda>a. case a of AnsDir r \<Rightarrow> act_lift r | _ \<Rightarrow> act_err channel_closed)"

definition answer_list :: "'w fs5 \<Rightarrow> actor_message \<Rightarrow> ('w, list_result) action" where
  "answer_list self msg = act_bind (fs_root self msg) (\<lambda>a. case a of AnsList r \<Rightarrow> act_lift r | _ \<Rightarrow> act_err channel_closed)"

definition FS5_export_snapshot :: "'w fs5 \<Rightarrow> ('w, dir_v1) action" where
  "FS5_export_snapshot self = answer_dir self ExportSnapshot"

definition FS5_export_merged_snapshot :: "'w fs5 \<Rightarrow> ('w, dir_v1) action" where
  "FS5_export_merged_snapshot self = answer_dir self ExportMergedSnapshot"

definition FS5_snapshot_hash :: "'w fs5 \<Rightarrow> ('w, hash) action" where
  "FS5_snapshot_hash self =
    act_bind (fs_root self ExportSnapshotHash) (\<lambda>a. case a of AnsHash r \<Rightarrow> act_lift r | _ \<Rightarrow> act_err channel_closed)"

definition FS5_create_snapshot :: "'w fs5 \<Rightarrow> ('w, string \<times> hash) action" where
  "FS5_create_snapshot self =
    act_bind (FS5_save self) (\<lambda>_.
    act_bind (fs_root self CreateSnapshot) (\<lambda>a. case a of AnsSnapshot r \<Rightarrow> act_lift r | _ \<Rightarrow> act_err channel_closed))"

definition FS5_delete_snapshot :: "'w fs5 \<Rightarrow> string \<Rightarrow> ('w, unit) action" where
  "FS5_delete_snapshot self name = answer_done self (DeleteSnapshot name)"

definition FS5_merge_from_snapshot :: "'w fs5 \<Rightarrow> dir_v1 \<Rightarrow> ('w, unit) action" where
  "FS5_merge_from_snapshot self snapshot = answer_done self (MergeSnapshot snapshot)"

definition FS5_create_dir :: "'w fs5 \<Rightarrow> string \<Rightarrow> bool \<Rightarrow> ('w, unit) action" where
  "FS5_create_dir self path enable_encryption = answer_done self (PathOp path (CreateDir enable_encryption))"

text \<open>The tasks the API sends to an actor.\<close>

definition put_task :: "file_ref \<Rightarrow> file_task" where
  "put_task file_ref = (\<lambda>_. (Some file_ref, None))"

definition get_task :: file_task where
  "get_task = (\<lambda>value. (value, value))"

definition delete_task :: "u32 \<Rightarrow> u32 \<Rightarrow> file_task" where
  "delete_task now_s now_ns = (\<lambda>value. (map_option (\<lambda>current. FileRef_from_deleted current now_s now_ns) value, None))"

definition FS5_file_put :: "'w fs5 \<Rightarrow> string \<Rightarrow> file_ref \<Rightarrow> ('w, unit) action" where
  "FS5_file_put self path file_ref = act_ignore (execute_and_forget (fs_root self) path (put_task file_ref))"

definition FS5_file_put_sync :: "'w fs5 \<Rightarrow> string \<Rightarrow> file_ref \<Rightarrow> ('w, unit) action" where
  "FS5_file_put_sync self path file_ref = act_bind (execute (fs_root self) path (put_task file_ref)) (\<lambda>_. act_ok ())"

definition FS5_batch :: "'w fs5 \<Rightarrow> ('w fs5 \<Rightarrow> ('w, unit) action) \<Rightarrow> ('w, unit) action" where
  "FS5_batch self f = act_bind (f self) (\<lambda>_. FS5_save self)"

definition trim_slashes :: "string \<Rightarrow> string" where
  "trim_slashes path = rev (dropWhile (\<lambda>c. c = CHR ''/'') (rev (dropWhile (\<lambda>c. c = CHR ''/'') path)))"

definition FS5_subdir :: "(actor_id \<Rightarrow> 'w dir_handle) \<Rightarrow> 'w fs5 \<Rightarrow> string \<Rightarrow> ('w, 'w fs5) action" where
  "FS5_subdir handles self path =
    (let normalized = trim_slashes path
     in if normalized = [] then act_ok self
        else act_bind (fs_root self (OpenSubdir normalized)) (\<lambda>a.
          case a of
            AnsHandle r \<Rightarrow> act_bind (act_lift r) (\<lambda>handle. act_ok \<lparr>fs_root = handles handle\<rparr>)
          | _ \<Rightarrow> act_err channel_closed))"

definition FS5_file_get :: "'w fs5 \<Rightarrow> string \<Rightarrow> 'w \<Rightarrow> file_ref option \<times> 'w" where
  "FS5_file_get self path w =
    (case execute (fs_root self) path get_task w of (r, w) \<Rightarrow>
       (case r of
          Inr (Some f) \<Rightarrow> if FileRef_ref_type f = Tombstone then None else Some f
        | _ \<Rightarrow> None, w))"

definition FS5_file_delete :: "'w fs5 \<Rightarrow> string \<Rightarrow> u32 \<Rightarrow> u32 \<Rightarrow> ('w, unit) action" where
  "FS5_file_delete self path now_s now_ns = act_bind (execute (fs_root self) path (delete_task now_s now_ns)) (\<lambda>_. act_ok ())"

definition FS5_file_exists :: "'w fs5 \<Rightarrow> string \<Rightarrow> 'w \<Rightarrow> bool \<times> 'w" where
  "FS5_file_exists self path w = (case FS5_file_get self path w of (r, w) \<Rightarrow> (r \<noteq> None, w))"

definition FS5_list :: "'w fs5 \<Rightarrow> string option \<Rightarrow> nat \<Rightarrow> ('w, list_result) action" where
  "FS5_list self cursor limit = answer_list self (ListMsg cursor limit)"

definition FS5_list_at :: "'w fs5 \<Rightarrow> string \<Rightarrow> string option \<Rightarrow> nat \<Rightarrow> ('w, list_result) action" where
  "FS5_list_at self path cursor limit = answer_list self (ListAt path cursor limit)"

definition FS5_export_snapshot_at :: "'w fs5 \<Rightarrow> string \<Rightarrow> ('w, dir_v1) action" where
  "FS5_export_snapshot_at self path = answer_dir self (ExportSnapshotAt path)"

definition FS5_export_merged_snapshot_at :: "'w fs5 \<Rightarrow> string \<Rightarrow> ('w, dir_v1) action" where
  "FS5_export_merged_snapshot_at self path = answer_dir self (ExportMergedSnapshotAt path)"

definition FS5_shutdown :: "'w fs5 \<Rightarrow> ('w, unit) action" where
  "FS5_shutdown self = handle_shutdown (fs_root self)"

text \<open>The file system of an actor.\<close>

definition actor_fs :: "'w fs_env \<Rightarrow> (dir_actor option \<times> 'w) fs5" where
  "actor_fs E = \<lparr>fs_root = actor_send E\<rparr>"

section \<open>Files as a map\<close>

datatype file_cmd =
    Put string file_ref
  | PutAsync string file_ref
  | Get string
  | Exists string
  | Delete string u32 u32

datatype file_result = Done "error + unit" | Got "file_ref option" | Found bool

fun cmd_path :: "file_cmd \<Rightarrow> string" where
  "cmd_path (Put p f) = p"
| "cmd_path (PutAsync p f) = p"
| "cmd_path (Get p) = p"
| "cmd_path (Exists p) = p"
| "cmd_path (Delete p s n) = p"

fun fs_step :: "'w fs5 \<Rightarrow> file_cmd \<Rightarrow> 'w \<Rightarrow> file_result \<times> 'w" where
  "fs_step fs (Put p f) w = apfst Done (FS5_file_put_sync fs p f w)"
| "fs_step fs (PutAsync p f) w = apfst Done (FS5_file_put fs p f w)"
| "fs_step fs (Get p) w = apfst Got (FS5_file_get fs p w)"
| "fs_step fs (Exists p) w = apfst Found (FS5_file_exists fs p w)"
| "fs_step fs (Delete p s n) w = apfst Done (FS5_file_delete fs p s n w)"

text \<open>The specification: a map from paths to file references, in which a tombstone reads as absent.\<close>

definition live_file :: "file_ref option \<Rightarrow> file_ref option" where
  "live_file v = (case v of Some f \<Rightarrow> if FileRef_is_tombstone f then None else Some f | None \<Rightarrow> None)"

fun map_step :: "file_cmd \<Rightarrow> (string \<rightharpoonup> file_ref) \<Rightarrow> file_result \<times> (string \<rightharpoonup> file_ref)" where
  "map_step (Put p f) m = (Done (Inr ()), m(p \<mapsto> f))"
| "map_step (PutAsync p f) m = (Done (Inr ()), m(p \<mapsto> f))"
| "map_step (Get p) m = (Got (live_file (m p)), m)"
| "map_step (Exists p) m = (Found (live_file (m p) \<noteq> None), m)"
| "map_step (Delete p s n) m = (Done (Inr ()), m(p := map_option (\<lambda>f. FileRef_from_deleted f s n) (m p)))"

text \<open>A set of paths that the actor handles itself: none lies in a subdirectory, and no prefix has enough of
  them to be promoted to one.\<close>

definition unpromoted :: "string set \<Rightarrow> bool" where
  "unpromoted S \<longleftrightarrow> finite S \<and> (\<forall>p \<in> S. \<forall>d r. split_once p = Some (d, r) \<longrightarrow>
    card {q \<in> S. starts_with (prefix_slash d) q} \<le> FS5_PROMOTION_THRESHOLD)"

definition local_paths :: "dir_v1 \<Rightarrow> string set \<Rightarrow> bool" where
  "local_paths st S \<longleftrightarrow> dh_shard_level (dv_header st) = None \<and> (\<forall>p. bt_contains (dv_files st) p \<longrightarrow> p \<in> S)
    \<and> (\<forall>p \<in> S. \<not> bt_contains (dv_dirs st) (fst (first_component p)))"

lemma no_promotion:
  assumes "unpromoted S" "\<forall>p. bt_contains (dv_files (da_state a)) p \<longrightarrow> p \<in> S" "path \<in> S"
  shows "check_auto_promote E path (a, w) = (Inr (), (a, w))"
proof (cases "split_once path")
  case None
  then show ?thesis by (simp add: check_auto_promote_def act_ok_def)
next
  case (Some dr)
  then obtain d r where d: "split_once path = Some (d, r)" by (cases dr) simp
  let ?keys = "filter (starts_with (prefix_slash d)) (bt_keys (dv_files (da_state a)))"
  have "length ?keys = card (set ?keys)" by (rule distinct_card[symmetric]) (simp add: bt_keys_distinct)
  also have "\<dots> \<le> card {q \<in> S. starts_with (prefix_slash d) q}"
    using assms(1,2) by (intro card_mono) (auto simp: unpromoted_def bt_keys_iff bt_contains_def)
  also have "\<dots> \<le> FS5_PROMOTION_THRESHOLD" using assms(1,3) d by (auto simp: unpromoted_def)
  finally show ?thesis by (simp add: check_auto_promote_def d act_ok_def Let_def)
qed

lemma state_arm_autosave: "view_keeps da_state (arm_autosave E)"
  unfolding arm_autosave_def by (intro keeps) simp

lemma local_task:
  assumes "unpromoted S" "local_paths (da_state a) S" "path \<in> S"
    and "task (bt_get (dv_files (da_state a)) path) = (v, res)"
  shows "\<exists>a' w'. actor_send E (PathOp path (FileOp task)) (Some a, w) = (Inr (AnsValue res), (Some a', w'))
    \<and> da_state a' = (da_state a)\<lparr>dv_files := (case v of None \<Rightarrow> bt_remove path (dv_files (da_state a))
        | Some f \<Rightarrow> bt_insert path f (dv_files (da_state a)))\<rparr>"
proof -
  let ?st = "(da_state a)\<lparr>dv_files := (case v of None \<Rightarrow> bt_remove path (dv_files (da_state a))
        | Some f \<Rightarrow> bt_insert path f (dv_files (da_state a)))\<rparr>"
  let ?a = "a\<lparr>da_state := ?st\<rparr>"
  have route: "route_to_child E path (a, w) = (Inr None, (a, w))"
    using assms(2,3) by (intro route_local) (auto simp: local_paths_def)
  have "\<forall>p. bt_contains (dv_files ?st) p \<longrightarrow> p \<in> S"
    using assms(2,3) by (auto simp: local_paths_def bt_contains_def split: option.splits if_splits)
  then have promote: "check_auto_promote E path (?a, w) = (Inr (), (?a, w))"
    using no_promotion[OF assms(1) _ assms(3), of ?a] by simp
  obtain w1 where dirty: "mark_as_dirty E (?a, w)
      = (Inr (), (?a\<lparr>da_shard_size_check_ops := sat_add64 (da_shard_size_check_ops ?a) 1, da_dirty := True\<rparr>, w1))"
    using mark_as_dirty_effect[of E ?a w] by blast
  let ?b = "?a\<lparr>da_shard_size_check_ops := sat_add64 (da_shard_size_check_ops ?a) 1, da_dirty := True\<rparr>"
  have core: "process_core E (PathOp path (FileOp task)) (a, w) = Some ((AnsValue res, Finished), (?b, w1))"
    using route promote dirty assms(4) by (cases v) (simp_all add: file_op_def Let_def act_bind_def)
  obtain x b' w2 where arm: "arm_autosave E (?b, w1) = (x, (b', w2))" by (metis prod.exhaust)
  have "da_state b' = ?st" using view_keepsD[OF state_arm_autosave arm] by simp
  then show ?thesis using core arm by (simp add: actor_send_def process_msg_def)
qed

definition files_of :: "dir_actor \<Rightarrow> string \<rightharpoonup> file_ref" where
  "files_of a = bt_get (dv_files (da_state a))"

text \<open>What every command keeps: the files stay within the given paths, and nothing else of the directory
  changes.\<close>

definition same_frame :: "dir_v1 \<Rightarrow> dir_v1 \<Rightarrow> bool" where
  "same_frame st st' \<longleftrightarrow> dv_header st' = dv_header st \<and> dv_dirs st' = dv_dirs st \<and> dv_magic st' = dv_magic st"

lemma local_execute:
  assumes "unpromoted S" "local_paths (da_state a) S" "path \<in> S" "task (files_of a path) = (v, res)"
  shows "\<exists>a' w'. execute (actor_send E) path task (Some a, w) = (Inr res, (Some a', w'))
    \<and> execute_and_forget (actor_send E) path task (Some a, w) = (Inr (), (Some a', w'))
    \<and> files_of a' = (files_of a)(path := v) \<and> local_paths (da_state a') S \<and> same_frame (da_state a) (da_state a')"
proof -
  obtain a' w' where s: "actor_send E (PathOp path (FileOp task)) (Some a, w) = (Inr (AnsValue res), (Some a', w'))"
    and st: "da_state a' = (da_state a)\<lparr>dv_files := (case v of None \<Rightarrow> bt_remove path (dv_files (da_state a))
        | Some f \<Rightarrow> bt_insert path f (dv_files (da_state a)))\<rparr>"
    using local_task[OF assms(1-3), of task v res E w] assms(4) unfolding files_of_def by blast
  have "files_of a' = (files_of a)(path := v)"
    by (rule ext) (simp add: files_of_def st split: option.splits)
  moreover have "local_paths (da_state a') S"
    using assms(2,3) by (auto simp: local_paths_def st bt_contains_def split: option.splits if_splits)
  moreover have "same_frame (da_state a) (da_state a')" by (simp add: same_frame_def st)
  ultimately show ?thesis using s by (simp add: execute_def execute_and_forget_def send_msg_def act_bind_def act_ok_def)
qed

lemma fs_step_sim:
  assumes "unpromoted S" "local_paths (da_state a) S" "cmd_path c \<in> S"
  shows "\<exists>a' w'. fs_step (actor_fs E) c (Some a, w) = (fst (map_step c (files_of a)), (Some a', w'))
    \<and> files_of a' = snd (map_step c (files_of a)) \<and> local_paths (da_state a') S \<and> same_frame (da_state a) (da_state a')"
proof -
  note run = local_execute[OF assms(1,2), of "cmd_path c" _ _ _ E w]
  show ?thesis
  proof (cases c)
    case (Put p f)
    then show ?thesis using run[of "put_task f" "Some f" None] assms(3)
      by (auto simp: put_task_def FS5_file_put_sync_def act_bind_def act_ok_def actor_fs_def)
  next
    case (PutAsync p f)
    then show ?thesis using run[of "put_task f" "Some f" None] assms(3)
      by (auto simp: put_task_def FS5_file_put_def actor_fs_def)
  next
    case (Get p)
    then show ?thesis using run[of get_task "files_of a p" "files_of a p"] assms(3)
      by (auto simp: get_task_def FS5_file_get_def actor_fs_def live_file_def FileRef_is_tombstone_def split: option.splits)
  next
    case (Exists p)
    then show ?thesis using run[of get_task "files_of a p" "files_of a p"] assms(3)
      by (auto simp: get_task_def FS5_file_exists_def FS5_file_get_def actor_fs_def live_file_def FileRef_is_tombstone_def
          split: option.splits)
  next
    case (Delete p s n)
    let ?v = "map_option (\<lambda>f. FileRef_from_deleted f s n) (files_of a p)"
    show ?thesis using run[of "delete_task s n" ?v None] assms(3) Delete
      by (auto simp: delete_task_def FS5_file_delete_def act_bind_def act_ok_def actor_fs_def)
  qed
qed

section \<open>Properties\<close>

text \<open>C3. The file operations of the API are those of a map. On the paths an actor handles itself, any
  sequence of puts, gets, deletions and existence tests, synchronous or not, returns what a map from paths to
  file references returns, with a deleted file read as absent; at the end the actor's files are that map and
  its subdirectories and header are as before. No operation on one path disturbs another.\<close>

theorem fs_files_are_a_map:
  assumes "unpromoted S" "local_paths (da_state a) S" "\<forall>c \<in> set cmds. cmd_path c \<in> S"
  shows "\<exists>a' w'. run_ops (fs_step (actor_fs E)) cmds (Some a, w)
      = (fst (run_ops map_step cmds (files_of a)), (Some a', w'))
    \<and> files_of a' = snd (run_ops map_step cmds (files_of a)) \<and> same_frame (da_state a) (da_state a')"
  using assms(2,3)
proof (induction cmds arbitrary: a w)
  case (Cons c cmds)
  obtain a1 w1 where 1: "fs_step (actor_fs E) c (Some a, w) = (fst (map_step c (files_of a)), (Some a1, w1))"
    "files_of a1 = snd (map_step c (files_of a))" "local_paths (da_state a1) S" "same_frame (da_state a) (da_state a1)"
    using fs_step_sim[OF assms(1) Cons.prems(1), of c E w] Cons.prems(2) by auto
  have "\<exists>a' w'. run_ops (fs_step (actor_fs E)) cmds (Some a1, w1)
      = (fst (run_ops map_step cmds (files_of a1)), (Some a', w'))
    \<and> files_of a' = snd (run_ops map_step cmds (files_of a1)) \<and> same_frame (da_state a1) (da_state a')"
    using Cons.IH[of a1 w1] 1(3) Cons.prems(2) by simp
  then show ?case using 1 by (auto simp: same_frame_def split: prod.splits)
qed (simp add: same_frame_def)

theorem fs_files_are_a_map_witness:
  "\<exists>a' w'. run_ops (fs_step (actor_fs demo_mem_env)) [Put ''f'' (FileRef_new (fill32 1) 3), Get ''f'', Delete ''f'' 7 8, Exists ''f'']
      (Some demo_saving, demo_world)
    = ([Done (Inr ()), Got (Some (FileRef_new (fill32 1) 3)), Done (Inr ()), Found False], (Some a', w'))"
proof -
  have "unpromoted {''f''}" by (simp add: unpromoted_def split_once_def)
  moreover have "local_paths (da_state demo_saving) {''f''}"
    by (simp add: local_paths_def demo_defs DirV1_new_def DirHeader_new_def bt_contains_def)
  ultimately show ?thesis
    using fs_files_are_a_map[of "{''f''}" demo_saving
        "[Put ''f'' (FileRef_new (fill32 1) 3), Get ''f'', Delete ''f'' 7 8, Exists ''f'']" demo_mem_env demo_world]
    by (auto simp: live_file_def FileRef_new_def FileRef_is_tombstone_def FileRef_ref_type_def FileRef_from_deleted_def)
qed

section \<open>Nested paths in a sharded directory\<close>

lemma route_past_shards:
  assumes "dh_shard_level (dv_header (da_state a)) = Some l" "l \<le> MAX_SHARD_LEVEL"
    and "get_shard (da_state a) (shard_index (fe_xxh3 E) (fst (first_component path)) l) = None"
    and "\<not> bt_contains (dv_dirs (da_state a)) (fst (first_component path))"
  shows "route_to_child E path (a, w) = (Inr None, (a, w))"
  using assms
  by (cases "first_component path")
     (auto simp: route_to_child_def Let_def act_ok_def shard_bucket_for_def get_shard_def bt_contains_def split: option.splits)

lemma absent_file_get:
  assumes "route_to_child E path (a, w) = (Inr None, (a, w))" "\<not> bt_contains (dv_files (da_state a)) path"
  shows "fst (FS5_file_get (actor_fs E) path (Some a, w)) = None"
proof -
  let ?a = "a\<lparr>da_state := (da_state a)\<lparr>dv_files := bt_remove path (dv_files (da_state a))\<rparr>\<rparr>"
  obtain b w1 where "mark_as_dirty E (?a, w) = (Inr (), (b, w1))" using mark_as_dirty_effect[of E ?a w] by blast
  then have "process_core E (PathOp path (FileOp get_task)) (a, w) = Some ((AnsValue None, Finished), (b, w1))"
    using assms by (simp add: file_op_def get_task_def Let_def bt_contains_def)
  moreover obtain x b' w2 where "arm_autosave E (b, w1) = (x, (b', w2))" by (metis prod.exhaust)
  ultimately show ?thesis
    by (simp add: FS5_file_get_def execute_def actor_fs_def actor_send_def process_msg_def act_bind_def act_ok_def)
qed

lemma route_to_shard:
  assumes "dh_shard_level (dv_header (da_state a)) = Some l" "l \<le> MAX_SHARD_LEVEL"
    and "get_shard (da_state a) (shard_index (fe_xxh3 E) (fst (first_component path)) l) = Some ref"
    and "route_to_child E path (a, w) = (Inr c, s)"
  shows "\<exists>h. open_dir_shard_impl E (shard_index (fe_xxh3 E) (fst (first_component path)) l) None (a, w) = (Inr h, s) \<and> c = Some (h, path)"
  using assms
  by (cases "first_component path")
     (auto simp: route_to_child_def Let_def act_ok_def act_bind_def shard_bucket_for_def get_shard_def bt_contains_def split: option.splits sum.splits prod.splits)

text \<open>C37. A file below a directory prefix is lost by sharding when its path and its first component hash to different buckets. The split puts the
  entry \<open>d/r\<close> into the shard of its whole path, where it is stored, while requests for it are routed by the bucket of the first component
  \<open>d\<close>. If no entry hashes to that bucket, the request stays with the directory, whose own maps are now empty, and reading the file
  finds nothing; otherwise it goes, under its full path, to the shard of that bucket and no other, whose stored state does not have the file.\<close>

theorem nested_file_lost_by_sharding:
  assumes "actor_world E entries winv storable blob" "winv w" "dh_shards (dv_header (da_state a)) = None"
    and "shard E (a, w) = (Inr (), (a', w'))" "link_level a \<le> MAX_SHARD_LEVEL"
    and "bt_get (dv_files (da_state a)) (d @ ''/'' @ r) = Some f" "CHR ''/'' \<notin> set d"
    and "shard_index (fe_xxh3 E) (d @ ''/'' @ r) (link_level a) \<noteq> shard_index (fe_xxh3 E) d (link_level a)"
  shows "(\<exists>ref st. get_shard (da_state a') (shard_index (fe_xxh3 E) (d @ ''/'' @ r) (link_level a)) = Some ref
        \<and> refers E (blob w') (da_context a) ref st \<and> bt_get (dv_files st) (d @ ''/'' @ r) = Some f)
    \<and> (get_shard (da_state a') (shard_index (fe_xxh3 E) d (link_level a)) = None \<longrightarrow>
        fst (FS5_file_get (actor_fs E) (d @ ''/'' @ r) (Some a', w')) = None)
    \<and> (\<forall>ref. get_shard (da_state a') (shard_index (fe_xxh3 E) d (link_level a)) = Some ref \<longrightarrow>
        (\<exists>st. refers E (blob w') (da_context a) ref st \<and> bt_get (dv_files st) (d @ ''/'' @ r) = None)
        \<and> (\<forall>c s. route_to_child E (d @ ''/'' @ r) (a', w') = (Inr c, s) \<longrightarrow>
            (\<exists>h. open_dir_shard_impl E (shard_index (fe_xxh3 E) d (link_level a)) None (a', w') = (Inr h, s) \<and> c = Some (h, d @ ''/'' @ r))))"
proof -
  let ?p = "d @ ''/'' @ r" and ?l = "link_level a" and ?xx = "fe_xxh3 E"
  have first: "fst (first_component ?p) = d" using assms(7)
    by (simp add: first_component_def split_once_def) (subst takeWhile_append2; auto)
  have none: "dh_shard_level (dv_header (da_state a)) = None"
    using assms(4) by (cases "dh_shard_level (dv_header (da_state a))") (simp_all add: shard_def)
  have level: "dh_shard_level (dv_header (da_state a')) = Some ?l"
    using levels_shard[OF none, of E w] assms(4) by (simp add: levels_def)
  note effect = shard_bucket_contents[OF assms(1-4) level]
  have "fst (FS5_file_get (actor_fs E) ?p (Some a', w')) = None" if "get_shard (da_state a') (shard_index ?xx d ?l) = None"
  proof (rule absent_file_get)
    show "route_to_child E ?p (a', w') = (Inr None, (a', w'))"
      by (intro route_past_shards[OF level assms(5)]) (use that effect(1) in \<open>simp_all only: first bt_contains_def bt_is_empty_iff simp_thms\<close>)
  qed (use effect(2) in \<open>simp add: bt_contains_def bt_is_empty_iff\<close>)
  moreover have "\<exists>h. open_dir_shard_impl E (shard_index ?xx d ?l) None (a', w') = (Inr h, s) \<and> c = Some (h, ?p)"
    if "get_shard (da_state a') (shard_index ?xx d ?l) = Some ref" "route_to_child E ?p (a', w') = (Inr c, s)" for ref c s
    using route_to_shard[OF level assms(5), of E ?p ref w' c s] that unfolding first by blast
  moreover have "\<exists>st. refers E (blob w') (da_context a) ref st \<and> bt_get (dv_files st) ?p = None"
    if "get_shard (da_state a') (shard_index ?xx d ?l) = Some ref" for ref
  proof -
    have "bucket_entries ?xx ?l (shard_index ?xx d ?l) (dv_files (da_state a)) ?p = None" using assms(8) by (simp add: bucket_entries_def)
    then show ?thesis using effect(4,5)[of "shard_index ?xx d ?l"] that by (metis option.distinct(1) option.inject)
  qed
  moreover have "bucket_entries ?xx ?l (shard_index ?xx ?p ?l) (dv_files (da_state a)) ?p = Some f"
    using assms(6) by (simp add: bucket_entries_def)
  then have "\<exists>ref st. get_shard (da_state a') (shard_index ?xx ?p ?l) = Some ref
      \<and> refers E (blob w') (da_context a) ref st \<and> bt_get (dv_files st) ?p = Some f"
    using effect(5)[of "shard_index ?xx ?p ?l"] by (metis option.distinct(1))
  ultimately show ?thesis by blast
qed

definition demo_nested :: dir_actor where
  "demo_nested = (demo_child (DirV1_new\<lparr>dv_files := bt_insert ''a/b'' (FileRef_new (fill32 7) 3) bt_empty\<rparr>))\<lparr>da_handle := Some 1\<rparr>"

theorem nested_file_lost_by_sharding_witness:
  "\<exists>a' w'. shard demo_mem_env (demo_nested, demo_world) = (Inr (), (a', w'))
    \<and> fst (FS5_file_get (actor_fs demo_mem_env) ''a/b'' (Some a', w')) = None"
proof -
  have st: "dh_shard_level (dv_header (da_state demo_nested)) = None" "dh_shards (dv_header (da_state demo_nested)) = None"
    "link_level demo_nested = 0" "da_handle demo_nested \<noteq> None"
    by (simp_all add: demo_nested_def demo_defs DirV1_new_def DirHeader_new_def link_level_def)
  obtain a' w' where s: "shard demo_mem_env (demo_nested, demo_world) = (Inr (), (a', w'))"
    unfolding demo_mem_env_def
    using mem_shard_total[OF demo_libs_ok st(4,1), of 0 "\<lambda>_ _. replicate 64 0" "\<lambda>s. of_nat (length s)" demo_world] st(3)
    by (auto simp: link_level_def MAX_SHARD_LEVEL_def)
  have w: "actor_world demo_mem_env (\<lambda>w. bt_get (fst (snd w))) (\<lambda>w. libs_ok demo_hashing demo_dir_codec demo_fresh) (\<lambda>_. True) (mem_blob demo_hashing)"
    unfolding demo_mem_env_def by (rule mem_actor.actor_world_axioms)
  have f: "bt_get (dv_files (da_state demo_nested)) (''a'' @ ''/'' @ ''b'') = Some (FileRef_new (fill32 7) 3)"
    by (simp add: demo_nested_def demo_defs)
  have "link_level demo_nested \<le> MAX_SHARD_LEVEL" using st(3) by (simp add: MAX_SHARD_LEVEL_def)
  moreover have diff: "shard_index (fe_xxh3 demo_mem_env) (''a'' @ ''/'' @ ''b'') (link_level demo_nested) \<noteq> shard_index (fe_xxh3 demo_mem_env) ''a'' (link_level demo_nested)"
    unfolding st(3) by (simp add: shard_index_def demo_mem_env_def mem_env_def)
  moreover have "get_shard (da_state a') (shard_index (fe_xxh3 demo_mem_env) ''a'' (link_level demo_nested)) = None"
  proof -
    have "dh_shard_level (dv_header (da_state a')) = Some (link_level demo_nested)"
      using levels_shard[OF st(1), of demo_mem_env demo_world] s by (simp add: levels_def)
    from shard_bucket_contents(4)[OF w demo_libs_ok st(2) s this] diff show ?thesis
      by (auto simp: bucket_entries_def demo_nested_def demo_defs DirV1_new_def)
  qed
  ultimately show ?thesis using nested_file_lost_by_sharding[OF w demo_libs_ok st(2) s _ f] s by auto
qed

end
