(* ===== verification/Blobs_Server.thy ===== *)
theory Blobs_Server
  imports Node_World
begin

text \<open>
  The blob server of a node: \<^verbatim>\<open>s5_blobs/src/rpc.rs\<close>, \<^verbatim>\<open>s5_blobs/src/config.rs\<close> and
  \<^verbatim>\<open>s5_blobs/src/net_protocol.rs\<close>. A handler maps a request of a peer to the response and the new world;
  the irpc channels, over which requests and responses travel, are not modelled further. The text of an
  error is the parameter \<open>sv_show\<close>, the random name of a temporary file the argument \<open>uuid\<close>.
\<close>

section \<open>Requests and responses\<close>

record query_response =
  qr_exists :: bool
  qr_size :: "u64 option"
  qr_locations :: "blob_location list"
  qr_actual_hash :: "hash option"

definition QueryResponse_default :: query_response where
  "QueryResponse_default = \<lparr>qr_exists = False, qr_size = None, qr_locations = [], qr_actual_hash = None\<rparr>"

record query =
  q_hash :: hash
  q_location_types :: "u8 set"
  q_blinded :: bool

text \<open>An upload comes with the chunks that arrive before the sender closes the channel or the channel fails.\<close>

datatype blobs_rpc =
    Query query
  | UploadBlob hash u64 "bytes list"
  | DownloadBlob hash u64 "u64 option"
  | DeleteBlob hash
  | PinBlob hash

datatype blobs_response =
    QueryResult query_response
  | UploadResult "string + unit"
  | DownloadChunks "bytes list"
  | DeleteResult "string + bool"
  | PinResult "string + bool"

record peer_config_blobs =
  readable_stores :: "string list"
  store_uploads_in :: "string option"

record 'w blobs_server =
  sv_hash :: hashing
  sv_show :: "error \<Rightarrow> string"
  sv_stores :: "(string, 'w blob_store) btree"
  sv_peer_cfg :: "(string, peer_config_blobs) btree"
  sv_pinner :: "'w pins option"

definition BlobsServer_cfg_for :: "'w blobs_server \<Rightarrow> string \<Rightarrow> peer_config_blobs option" where
  "BlobsServer_cfg_for self node_key =
    (case bt_get (sv_peer_cfg self) node_key of Some cfg \<Rightarrow> Some cfg | None \<Rightarrow> bt_get (sv_peer_cfg self) ''*'')"

definition CHUNK_SIZE :: nat where
  "CHUNK_SIZE = 64 * 1024"

section \<open>Handlers\<close>

definition handle_pin ::
  "'w blobs_server \<Rightarrow> bytes32 \<Rightarrow> peer_config_blobs option \<Rightarrow> hash \<Rightarrow> 'w \<Rightarrow> (string + bool) \<times> 'w" where
  "handle_pin S node_id cfg hash w =
    (case cfg of
       None \<Rightarrow> (Inl ''permission denied'', w)
     | Some cfg \<Rightarrow>
        (case store_uploads_in cfg of
           None \<Rightarrow> (Inl ''uploads (pinning) not allowed'', w)
         | Some store_name \<Rightarrow>
            (case bt_get (sv_stores S) store_name of
               None \<Rightarrow> (Inl ''invalid upload store'', w)
             | Some store \<Rightarrow>
                (case BlobStore_contains (sv_hash S) store hash w of
                   Inr True \<Rightarrow>
                     (case sv_pinner S of
                        None \<Rightarrow> (Inr True, w)
                      | Some pinner \<Rightarrow>
                         (case pn_pin_hash pinner hash (NodeId node_id) w of
                            (Inl e, w) \<Rightarrow> (Inl (''pinning failed: '' @ sv_show S e), w)
                          | (Inr _, w) \<Rightarrow> (Inr True, w)))
                 | Inr False \<Rightarrow> (Inr False, w)
                 | Inl e \<Rightarrow> (Inl (''store error: '' @ sv_show S e), w)))))"

text \<open>\<^verbatim>\<open>find_blob_by_blinded_hash\<close>: the first stored hash whose own hash is the one asked for.\<close>

definition find_blob_by_blinded_hash :: "hashing \<Rightarrow> 'w blob_store \<Rightarrow> hash \<Rightarrow> 'w \<Rightarrow> hash option" where
  "find_blob_by_blinded_hash H store blinded_hash w =
    (case BlobStore_list_hashes H store w of
       Inl _ \<Rightarrow> None
     | Inr hashes \<Rightarrow> List.find (\<lambda>hash. h_blake3 H (Hash_as_bytes hash) = blinded_hash) hashes)"

definition note_blob :: "'w blobs_server \<Rightarrow> 'w blob_store \<Rightarrow> hash \<Rightarrow> 'w \<Rightarrow> query_response \<Rightarrow> query_response" where
  "note_blob S store hash w resp =
    (let resp = resp\<lparr>qr_exists := True\<rparr>;
         resp = (case (qr_size resp, BlobStore_size (sv_hash S) store hash w) of
                   (None, Inr sz) \<Rightarrow> resp\<lparr>qr_size := Some sz\<rparr>
                 | _ \<Rightarrow> resp)
     in case BlobStore_provide (sv_hash S) store hash w of
          Inr locs \<Rightarrow> resp\<lparr>qr_locations := qr_locations resp @ locs\<rparr>
        | Inl _ \<Rightarrow> resp)"

fun query_stores :: "'w blobs_server \<Rightarrow> hash \<Rightarrow> 'w \<Rightarrow> string list \<Rightarrow> query_response \<Rightarrow> query_response" where
  "query_stores S hash w [] resp = resp"
| "query_stores S hash w (name # names) resp =
    query_stores S hash w names
      (case bt_get (sv_stores S) name of
         Some store \<Rightarrow> if BlobStore_contains (sv_hash S) store hash w = Inr True then note_blob S store hash w resp else resp
       | None \<Rightarrow> resp)"

fun query_blinded_stores :: "'w blobs_server \<Rightarrow> hash \<Rightarrow> 'w \<Rightarrow> string list \<Rightarrow> query_response \<Rightarrow> query_response" where
  "query_blinded_stores S blinded_hash w [] resp = resp"
| "query_blinded_stores S blinded_hash w (name # names) resp =
    (case bt_get (sv_stores S) name of
       None \<Rightarrow> query_blinded_stores S blinded_hash w names resp
     | Some store \<Rightarrow>
        (case find_blob_by_blinded_hash (sv_hash S) store blinded_hash w of
           None \<Rightarrow> query_blinded_stores S blinded_hash w names resp
         | Some actual_hash \<Rightarrow> note_blob S store actual_hash w (resp\<lparr>qr_actual_hash := Some actual_hash\<rparr>)))"

definition handle_query :: "'w blobs_server \<Rightarrow> peer_config_blobs option \<Rightarrow> query \<Rightarrow> 'w \<Rightarrow> query_response" where
  "handle_query S cfg query w =
    (case cfg of
       None \<Rightarrow> QueryResponse_default
     | Some cfg \<Rightarrow>
        if q_blinded query then query_blinded_stores S (q_hash query) w (readable_stores cfg) QueryResponse_default
        else query_stores S (q_hash query) w (readable_stores cfg) QueryResponse_default)"

definition handle_upload ::
  "'w blobs_server \<Rightarrow> string \<Rightarrow> bytes32 \<Rightarrow> peer_config_blobs option \<Rightarrow> hash \<Rightarrow> u64 \<Rightarrow> bytes list \<Rightarrow> 'w \<Rightarrow> (string + unit) \<times> 'w" where
  "handle_upload S uuid node_id cfg expected_hash sz chunks w =
    (case cfg of
       None \<Rightarrow> (Inl ''permission denied'', w)
     | Some cfg \<Rightarrow>
        (case store_uploads_in cfg of
           None \<Rightarrow> (Inl ''uploads not allowed'', w)
         | Some store_name \<Rightarrow>
            (case bt_get (sv_stores S) store_name of
               None \<Rightarrow> (Inl ''invalid upload store'', w)
             | Some store \<Rightarrow>
                (case BlobStore_import_stream (sv_hash S) store uuid (map (\<lambda>c. Ready (Inr c)) chunks) w of
                   (Inl e, w) \<Rightarrow> (Inl (''upload failed: '' @ sv_show S e), w)
                 | (Inr blob, w) \<Rightarrow>
                    if bid_hash blob \<noteq> expected_hash \<or> bid_size blob \<noteq> sz
                    then (Inl ''hash/size mismatch'', snd (BlobStore_delete (sv_hash S) store (bid_hash blob) w))
                    else
                      (case sv_pinner S of
                         None \<Rightarrow> (Inr (), w)
                       | Some pinner \<Rightarrow>
                          (case pn_pin_hash pinner (bid_hash blob) (NodeId node_id) w of
                             (Inl e, w) \<Rightarrow> (Inl (''pinning failed: '' @ sv_show S e),
                                           snd (BlobStore_delete (sv_hash S) store (bid_hash blob) w))
                           | (Inr _, w) \<Rightarrow> (Inr (), w)))))))"

text \<open>The first readable store that has the blob, with the size it reports.\<close>

fun find_readable :: "'w blobs_server \<Rightarrow> hash \<Rightarrow> 'w \<Rightarrow> string list \<Rightarrow> ('w blob_store \<times> u64 option) option" where
  "find_readable S hash w [] = None"
| "find_readable S hash w (name # names) =
    (case bt_get (sv_stores S) name of
       Some store \<Rightarrow>
         if BlobStore_contains (sv_hash S) store hash w = Inr True
         then Some (store, case BlobStore_size (sv_hash S) store hash w of Inr sz \<Rightarrow> Some sz | Inl _ \<Rightarrow> None)
         else find_readable S hash w names
     | None \<Rightarrow> find_readable S hash w names)"

text \<open>The sending loop; a receiver that goes away ends it earlier.\<close>

function send_chunks :: "'w blobs_server \<Rightarrow> 'w blob_store \<Rightarrow> hash \<Rightarrow> u64 \<Rightarrow> nat \<Rightarrow> nat \<Rightarrow> 'w \<Rightarrow> bytes list" where
  "send_chunks S store hash offset to_send sent w =
    (if sent < to_send then
       let want = min CHUNK_SIZE (to_send - sent)
       in case BlobStore_read_as_bytes (sv_hash S) store hash (offset + of_nat sent) (Some (of_nat want)) w of
            Inl _ \<Rightarrow> []
          | Inr bs \<Rightarrow> if bs = [] then [] else bs # send_chunks S store hash offset to_send (sent + length bs) w
     else [])"
  by pat_completeness auto

termination
  by (relation "measure (\<lambda>(S, store, hash, offset, to_send, sent, w). to_send - sent)")
     (auto simp: length_greater_0_conv[symmetric] simp del: length_greater_0_conv)

declare send_chunks.simps [simp del]

definition handle_download ::
  "'w blobs_server \<Rightarrow> bytes32 \<Rightarrow> peer_config_blobs option \<Rightarrow> hash \<Rightarrow> u64 \<Rightarrow> u64 option \<Rightarrow> 'w \<Rightarrow> bytes list" where
  "handle_download S node_id cfg hash offset max_len w =
    (case cfg of
       None \<Rightarrow> []
     | Some cfg \<Rightarrow>
        if (case sv_pinner S of
              Some pinner \<Rightarrow> (case pn_is_pinned pinner hash (NodeId node_id) w of Inr b \<Rightarrow> \<not> b | Inl _ \<Rightarrow> True)
            | None \<Rightarrow> False) then []
        else
          (case find_readable S hash w (readable_stores cfg) of
             Some (store, Some sz) \<Rightarrow>
               if offset > sz then []
               else
                 let to_send = (case max_len of Some m \<Rightarrow> min m (sz - offset) | None \<Rightarrow> sz - offset)
                 in send_chunks S store hash offset (unat to_send) 0 w
           | _ \<Rightarrow> []))"

fun delete_everywhere :: "hashing \<Rightarrow> 'w blob_store list \<Rightarrow> hash \<Rightarrow> 'w \<Rightarrow> 'w" where
  "delete_everywhere H [] hash w = w"
| "delete_everywhere H (store # rest) hash w = delete_everywhere H rest hash (snd (BlobStore_delete H store hash w))"

definition handle_delete ::
  "'w blobs_server \<Rightarrow> bytes32 \<Rightarrow> peer_config_blobs option \<Rightarrow> hash \<Rightarrow> 'w \<Rightarrow> (string + bool) \<times> 'w" where
  "handle_delete S node_id cfg hash w =
    (case cfg of
       None \<Rightarrow> (Inl ''permission denied'', w)
     | Some cfg \<Rightarrow>
        if store_uploads_in cfg = None then (Inl ''delete not allowed'', w)
        else
          (case sv_pinner S of
             None \<Rightarrow> (Inl ''pinning not enabled'', w)
           | Some pinner \<Rightarrow>
              (case pn_unpin_hash pinner hash (NodeId node_id) w of
                 (Inl e, w) \<Rightarrow> (Inl (''unpin failed: '' @ sv_show S e), w)
               | (Inr orphaned, w) \<Rightarrow>
                  if orphaned then (Inr True, delete_everywhere (sv_hash S) (bt_vals (sv_stores S)) hash w)
                  else (Inr False, w))))"

text \<open>One round of the accept loop for a peer: the key of its configuration is the text of its id.\<close>

fun BlobsServer_handle :: "'w blobs_server \<Rightarrow> string \<Rightarrow> string \<Rightarrow> bytes32 \<Rightarrow> blobs_rpc \<Rightarrow> 'w \<Rightarrow> blobs_response \<times> 'w" where
  "BlobsServer_handle S uuid node_key node_id (Query query) w =
    (QueryResult (handle_query S (BlobsServer_cfg_for S node_key) query w), w)"
| "BlobsServer_handle S uuid node_key node_id (UploadBlob h sz chunks) w =
    apfst UploadResult (handle_upload S uuid node_id (BlobsServer_cfg_for S node_key) h sz chunks w)"
| "BlobsServer_handle S uuid node_key node_id (DownloadBlob h offset max_len) w =
    (DownloadChunks (handle_download S node_id (BlobsServer_cfg_for S node_key) h offset max_len w), w)"
| "BlobsServer_handle S uuid node_key node_id (DeleteBlob h) w =
    apfst DeleteResult (handle_delete S node_id (BlobsServer_cfg_for S node_key) h w)"
| "BlobsServer_handle S uuid node_key node_id (PinBlob h) w =
    apfst PinResult (handle_pin S node_id (BlobsServer_cfg_for S node_key) h w)"

text \<open>The loop itself, over the requests of a connection with a fresh name for each.\<close>

fun BlobsServer_accept ::
  "'w blobs_server \<Rightarrow> string \<Rightarrow> bytes32 \<Rightarrow> (string \<times> blobs_rpc) list \<Rightarrow> 'w \<Rightarrow> blobs_response list \<times> 'w" where
  "BlobsServer_accept S node_key node_id [] w = ([], w)"
| "BlobsServer_accept S node_key node_id ((uuid, msg) # msgs) w =
    (case BlobsServer_handle S uuid node_key node_id msg w of (r, w) \<Rightarrow>
     case BlobsServer_accept S node_key node_id msgs w of (rs, w) \<Rightarrow> (r # rs, w))"

section \<open>Frames\<close>

lemma take_min_length: "take (min n (length xs)) xs = take n xs"
  by (simp add: min_def)

lemma stream_items_ready_map: "stream_items (map (\<lambda>c. Ready (Inr c)) cs) = map Inr cs"
  by (induction cs) simp_all

section \<open>A server on a node\<close>

definition hash_libs_ok :: "hashing \<Rightarrow> bool" where
  "hash_libs_ok H \<longleftrightarrow> path_codec_ok (h_codec H) \<and> bao_ok H \<and> bao_total H"

text \<open>A server whose named stores are the store of a node world and whose pinner is the node's: the store does
  not fail, and the pinner answers every request.\<close>

locale blobs_node =
  node_world ops contents sinv good P pinned pinv room + reliable_store ops contents sinv good
  for ops :: "'w store" and contents sinv good and P :: "'w pins" and pinned pinv room +
  fixes S :: "'w blobs_server" and ob :: "'w store option"
  assumes pinner: "sv_pinner S = Some P"
    and stores: "bt_get (sv_stores S) n = Some st \<Longrightarrow> st = \<lparr>bs_store = ops, bs_outboard_store = ob\<rparr>"
    and outboard: "ob = None \<or> ob = Some ops"
    and all_good: "good p"
    and pin_total: "pinv w \<Longrightarrow> is_ok (fst (pn_pin_hash P h c w))"
    and unpin_total: "pinv w \<Longrightarrow> is_ok (fst (pn_unpin_hash P h c w))"
    and is_pinned_total: "pinv w \<Longrightarrow> is_ok (pn_is_pinned P h c w)"
begin

lemma blobs_keep_pins:
  "blobs_keep (\<lambda>w. (pinned w, pinv w, room w)) \<lparr>bs_store = ops, bs_outboard_store = ob\<rparr>"
  using store_keeps_pins outboard by (auto simp: blobs_keep_def)

lemma import_upload:
  assumes "hash_libs_ok (sv_hash S)" "sinv w" "bt_get (sv_stores S) n = Some st"
    and "blob_at (sv_hash S) ops contents w (h_blake3 (sv_hash S) (concat cs)) \<in> {None, Some (concat cs)}"
  obtains w' where "BlobStore_import_stream (sv_hash S) st uuid (map (\<lambda>c. Ready (Inr c)) cs) w
      = (Inr \<lparr>bid_hash = h_blake3 (sv_hash S) (concat cs), bid_size = of_nat (length (concat cs))\<rparr>, w')"
    "sinv w'" "blob_at (sv_hash S) ops contents w' (h_blake3 (sv_hash S) (concat cs)) = Some (concat cs)"
    "\<And>h. h \<noteq> h_blake3 (sv_hash S) (concat cs) \<Longrightarrow> blob_at (sv_hash S) ops contents w' h = blob_at (sv_hash S) ops contents w h"
    "pinned w' = pinned w" "pinv w' = pinv w" "room w' = room w"
proof -
  let ?H = "sv_hash S" and ?s = "map (\<lambda>c. Ready (Inr c)) cs"
  have libs: "path_codec_ok (h_codec ?H)" "bao_ok ?H" "bao_total ?H" using assms(1) by (simp_all add: hash_libs_ok_def)
  have st: "st = \<lparr>bs_store = ops, bs_outboard_store = ob\<rparr>" by (rule stores[OF assms(3)])
  obtain r w' where i: "import_stream ?H ops ob uuid ?s w = (r, w')" by fastforce
  have fr: "outboard_frame ?H ops ob contents sinv uuid"
    using outboard outboard_frame_same[OF libs(1) all_good all_good all_good] by auto
  have ok: "is_ok r"
    using import_stream_total[OF all_good all_good all_good libs outboard assms(2) stream_items_ready_map, of uuid cs] i by simp
  have out: "import_outcome ?H ops contents sinv (concat cs) w r w'"
    using import_stream_outcome[OF all_good all_good libs(1) fr assms(2) i] ok
    by (auto simp: stream_items_ready_map inj_map_eq_map)
  have step: "BlobStore_import_stream ?H st uuid ?s w = (r, w')" using i by (simp add: st BlobStore_import_stream_def)
  have pins: "(pinned w', pinv w', room w') = (pinned w, pinv w, room w)"
    using act_keepsD[OF BlobStore_import_stream_keeps[OF blobs_keep_pins] step[unfolded st]] .
  have r: "r = Inr \<lparr>bid_hash = h_blake3 ?H (concat cs), bid_size = of_nat (length (concat cs))\<rparr>"
    and blobs: "blob_at ?H ops contents w' h = blob_at ?H ops contents w h
      \<or> h = h_blake3 ?H (concat cs) \<and> blob_at ?H ops contents w' h = Some (concat cs)"
    and there: "blob_at ?H ops contents w' (h_blake3 ?H (concat cs)) \<noteq> None" for h
    using out ok by (auto simp: import_outcome_def adds_blob_def)
  show thesis
  proof (rule that[of w'])
    show "blob_at ?H ops contents w' (h_blake3 ?H (concat cs)) = Some (concat cs)"
      using blobs[of "h_blake3 ?H (concat cs)"] there assms(4) by auto
    show "blob_at ?H ops contents w' h = blob_at ?H ops contents w h" if "h \<noteq> h_blake3 ?H (concat cs)" for h
      using blobs[of h] that by blast
  qed (use step r out pins in \<open>auto simp: import_outcome_def\<close>)
qed

lemma pin_upload:
  assumes "sinv w" "pinv w" "room w"
  obtains w' where "pn_pin_hash P h c w = (Inr (), w')" "sinv w'" "pinv w'"
    "pinned w' = (pinned w)(h := insert c (pinned w h))" "contents w' = contents w"
proof -
  obtain w' where p: "pn_pin_hash P h c w = (Inr (), w')" using is_ok_fstD[OF pin_total[OF assms(2)]] by force
  have "act_keeps (\<lambda>w. (contents w, sinv w)) (pn_pin_hash P h c)" using pins_keep_store by (simp add: pins_keep_def)
  from act_keepsD[OF this p] show thesis using that[OF p] pin_law[OF assms(2,3) p] assms(1) by simp
qed

lemma read_part:
  assumes "sinv w" "blob_at (sv_hash S) ops contents w h = Some c" "unat off + sent + want \<le> length c" "length c < 2 ^ 64"
  shows "BlobStore_read_as_bytes (sv_hash S) \<lparr>bs_store = ops, bs_outboard_store = ob\<rparr> h (off + of_nat sent) (Some (of_nat want)) w
    = Inr (take want (drop (unat off + sent) c))"
proof -
  have "unat (off + of_nat sent) = unat off + sent" using assms(3,4) by (simp add: unat_word_ariths unat_of_nat)
  moreover have "unat (of_nat want :: u64) = want" using assms(3,4) by (simp add: unat_of_nat)
  ultimately show ?thesis
    using read_total[OF assms(1) all_good] assms(2)
    by (simp add: BlobStore_read_as_bytes_def read_as_bytes_def blob_at_def slice_of_def)
qed

lemma send_chunks_part:
  assumes "sinv w" "blob_at (sv_hash S) ops contents w h = Some c" "unat off + to_send \<le> length c" "length c < 2 ^ 64"
  shows "concat (send_chunks S \<lparr>bs_store = ops, bs_outboard_store = ob\<rparr> h off to_send sent w)
      = take (to_send - sent) (drop (unat off + sent) c)
    \<and> (\<forall>x \<in> set (send_chunks S \<lparr>bs_store = ops, bs_outboard_store = ob\<rparr> h off to_send sent w). length x \<le> CHUNK_SIZE)"
proof (induction "to_send - sent" arbitrary: sent rule: less_induct)
  case less
  show ?case
  proof (cases "sent < to_send")
    case True
    let ?st = "\<lparr>bs_store = ops, bs_outboard_store = ob\<rparr>"
    define want where "want = min CHUNK_SIZE (to_send - sent)"
    have want: "0 < want" "want \<le> to_send - sent" "want \<le> CHUNK_SIZE" using True by (simp_all add: want_def CHUNK_SIZE_def)
    let ?bs = "take want (drop (unat off + sent) c)"
    have fit: "unat off + sent + want \<le> length c" using want assms(3) True by linarith
    then have len: "length ?bs = want" by simp
    have "send_chunks S ?st h off to_send sent w = ?bs # send_chunks S ?st h off to_send (sent + want) w"
      using True read_part[OF assms(1,2) fit assms(4)] len want
      by (subst send_chunks.simps) (auto simp: want_def[symmetric] Let_def)
    moreover have "to_send - (sent + want) < to_send - sent" using want True by linarith
    note less[OF this]
    moreover have "take want (drop (unat off + sent) c) @ take (to_send - (sent + want)) (drop (unat off + (sent + want)) c)
        = take (to_send - sent) (drop (unat off + sent) c)"
    proof -
      have e: "to_send - sent = want + (to_send - (sent + want))" using want(2) by linarith
      show ?thesis by (subst e) (simp add: take_add ac_simps)
    qed
    ultimately show ?thesis using len want by simp
  next
    case False
    then show ?thesis by (simp add: send_chunks.simps)
  qed
qed

lemma find_readable_store:
  assumes "sinv w" "blob_at (sv_hash S) ops contents w h = Some c" "n \<in> set names" "bt_get (sv_stores S) n \<noteq> None"
  shows "find_readable S h w names = Some (\<lparr>bs_store = ops, bs_outboard_store = ob\<rparr>, Some (of_nat (length c)))"
  using assms(3)
proof (induction names)
  case (Cons m names)
  have "BlobStore_contains (sv_hash S) \<lparr>bs_store = ops, bs_outboard_store = ob\<rparr> h w = Inr True"
    "BlobStore_size (sv_hash S) \<lparr>bs_store = ops, bs_outboard_store = ob\<rparr> h w = Inr (of_nat (length c))"
    using assms(1,2) exists_total[OF assms(1) all_good] size_total[OF assms(1) all_good]
    by (simp_all add: BlobStore_contains_def contains_def BlobStore_size_def blob_size_def blob_at_def)
  moreover have "bt_get (sv_stores S) m = Some st \<Longrightarrow> st = \<lparr>bs_store = ops, bs_outboard_store = ob\<rparr>" for st
    by (rule stores)
  ultimately show ?case using Cons assms(4) by (cases "bt_get (sv_stores S) m") auto
qed simp

lemma download_slice:
  assumes "sinv w" "pinv w" "blob_at (sv_hash S) ops contents w h = Some c" "length c < 2 ^ 64"
    and "n \<in> set (readable_stores cfg)" "bt_get (sv_stores S) n \<noteq> None"
  shows "concat (handle_download S node (Some cfg) h off len w) = (if NodeId node \<in> pinned w h then slice_of off len c else [])
    \<and> (\<forall>x \<in> set (handle_download S node (Some cfg) h off len w). length x \<le> CHUNK_SIZE)"
proof -
  have pin: "pn_is_pinned P h (NodeId node) w = Inr (NodeId node \<in> pinned w h)"
    using is_pinned_total[OF assms(2), of h "NodeId node"] is_pinned_law[OF assms(2)] by (auto simp: is_ok_iff)
  note found = find_readable_store[OF assms(1,3,5,6)]
  let ?sz = "of_nat (length c) :: u64"
  have sz: "unat ?sz = length c" using assms(4) by (simp add: unat_of_nat)
  show ?thesis
  proof (cases "NodeId node \<in> pinned w h \<and> off \<le> ?sz")
    case True
    then have le: "unat off \<le> length c" using sz by (simp add: word_le_nat_alt)
    have diff: "unat (?sz - off) = length c - unat off" using le sz by (simp add: unat_sub word_le_nat_alt)
    let ?n = "case len of Some m \<Rightarrow> min m (?sz - off) | None \<Rightarrow> ?sz - off"
    have n: "unat ?n = (case len of Some m \<Rightarrow> min (unat m) (length c - unat off) | None \<Rightarrow> length c - unat off)"
      using diff by (auto simp: min_def word_le_nat_alt split: option.splits)
    then have "unat off + unat ?n \<le> length c" using le by (simp split: option.splits)
    from send_chunks_part[OF assms(1,3) this assms(4), of 0] show ?thesis
      using True pin found n pinner take_min_length[of _ "drop (unat off) c"]
      by (auto simp: handle_download_def Let_def slice_of_def not_less[symmetric] split: option.splits)
  next
    case False
    then show ?thesis
      using pin found pinner sz
      by (auto simp: handle_download_def slice_of_def word_less_nat_alt word_le_nat_alt Let_def split: option.splits)
  qed
qed

text \<open>An upload with the right hash and size stores the blob and pins it for the uploader, and only for it.\<close>

lemma upload_stores_and_pins:
  assumes "hash_libs_ok (sv_hash S)" "sinv w" "pinv w" "room w"
    and "store_uploads_in cfg = Some n" "bt_get (sv_stores S) n \<noteq> None"
    and "blob_at (sv_hash S) ops contents w (h_blake3 (sv_hash S) (concat cs)) \<in> {None, Some (concat cs)}"
  obtains w' where "handle_upload S uuid node (Some cfg) (h_blake3 (sv_hash S) (concat cs)) (of_nat (length (concat cs))) cs w
      = (Inr (), w')" "sinv w'" "pinv w'"
    "blob_at (sv_hash S) ops contents w' (h_blake3 (sv_hash S) (concat cs)) = Some (concat cs)"
    "pinned w' = (pinned w)(h_blake3 (sv_hash S) (concat cs) :=
      insert (NodeId node) (pinned w (h_blake3 (sv_hash S) (concat cs))))"
proof -
  let ?h = "h_blake3 (sv_hash S) (concat cs)"
  obtain st where st: "bt_get (sv_stores S) n = Some st" using assms(6) by blast
  obtain w1 where i: "BlobStore_import_stream (sv_hash S) st uuid (map (\<lambda>c. Ready (Inr c)) cs) w
      = (Inr \<lparr>bid_hash = ?h, bid_size = of_nat (length (concat cs))\<rparr>, w1)" "sinv w1"
    "blob_at (sv_hash S) ops contents w1 ?h = Some (concat cs)"
    "pinned w1 = pinned w" "pinv w1 = pinv w" "room w1 = room w"
    by (rule import_upload[OF assms(1,2) st assms(7), of uuid]) blast
  obtain w2 where p: "pn_pin_hash P ?h (NodeId node) w1 = (Inr (), w2)" "sinv w2" "pinv w2"
    "pinned w2 = (pinned w1)(?h := insert (NodeId node) (pinned w1 ?h))" "contents w2 = contents w1"
    using pin_upload[of w1 ?h "NodeId node"] i assms(3,4) by metis
  show thesis
    by (rule that[of w2]) (use assms(5) st i p pinner in \<open>simp_all add: handle_upload_def blob_at_def\<close>)
qed

lemma delete_everywhere_outcome:
  assumes "path_codec_ok (h_codec (sv_hash S))" "sinv w" "set sts \<subseteq> {\<lparr>bs_store = ops, bs_outboard_store = ob\<rparr>}"
  shows "sinv (delete_everywhere (sv_hash S) sts h w)
    \<and> pinned (delete_everywhere (sv_hash S) sts h w) = pinned w
    \<and> blob_at (sv_hash S) ops contents (delete_everywhere (sv_hash S) sts h w)
      = (if sts = [] then blob_at (sv_hash S) ops contents w else (blob_at (sv_hash S) ops contents w)(h := None))"
  using assms(2,3)
proof (induction sts arbitrary: w)
  case (Cons st sts)
  let ?st = "\<lparr>bs_store = ops, bs_outboard_store = ob\<rparr>"
  obtain r w1 where d: "BlobStore_delete (sv_hash S) ?st h w = (r, w1)" by fastforce
  have "is_ok (fst (BlobStore_delete (sv_hash S) ?st h w))"
    using delete_total[OF Cons.prems(1) all_good, of "blob_path_for_hash (h_codec (sv_hash S)) h (st_features ops)"]
    by (auto simp: BlobStore_delete_def BlobStore_blob_path_for_hash_def act_bind_def is_ok_iff split: sum.splits option.splits prod.splits)
  then have "is_ok r" using d by simp
  then have d': "sinv w1" "blob_at (sv_hash S) ops contents w1 = (blob_at (sv_hash S) ops contents w)(h := None)"
    using BlobStore_delete_outcome[OF all_good all_good assms(1) Cons.prems(1) outboard d] by auto
  moreover have "pinned w1 = pinned w" using delete_frame[OF d outboard] by blast
  ultimately show ?case using Cons.IH[of w1] Cons.prems(2) d by auto
qed simp

text \<open>Deleting drops the caller's pin and removes the blob exactly when no pin is left.\<close>

lemma delete_outcome:
  assumes "path_codec_ok (h_codec (sv_hash S))" "sinv w" "pinv w" "room w"
    and "store_uploads_in cfg \<noteq> None" "bt_vals (sv_stores S) \<noteq> []"
  obtains w' where "handle_delete S node (Some cfg) h w = (Inr (pinned w h \<subseteq> {NodeId node}), w')"
    "pinned w' = (pinned w)(h := pinned w h - {NodeId node})"
    "blob_at (sv_hash S) ops contents w' = (if pinned w h \<subseteq> {NodeId node}
       then (blob_at (sv_hash S) ops contents w)(h := None) else blob_at (sv_hash S) ops contents w)"
proof -
  obtain b w1 where u: "pn_unpin_hash P h (NodeId node) w = (Inr b, w1)"
    using is_ok_fstD[OF unpin_total[OF assms(3)]] by force
  have "act_keeps (\<lambda>w. (contents w, sinv w)) (pn_unpin_hash P h (NodeId node))"
    using pins_keep_store by (simp add: pins_keep_def)
  from act_keepsD[OF this u] have k: "contents w1 = contents w" "sinv w1" using assms(2) by simp_all
  have p: "pinned w1 = (pinned w)(h := pinned w h - {NodeId node})" and b: "b = (pinned w h \<subseteq> {NodeId node})"
    using unpin_law[OF assms(3,4) u] by auto
  have sts: "set (bt_vals (sv_stores S)) \<subseteq> {\<lparr>bs_store = ops, bs_outboard_store = ob\<rparr>}"
    using stores by (auto simp: bt_vals_iff)
  note d = delete_everywhere_outcome[OF assms(1) k(2) sts, of h]
  show thesis
    by (rule that[of "if b then delete_everywhere (sv_hash S) (bt_vals (sv_stores S)) h w1 else w1"])
       (use assms(5,6) u p b d k pinner in \<open>auto simp: handle_delete_def blob_at_def\<close>)
qed

text \<open>An upload whose hash or size does not match what was announced ends with the blob removed, whoever pins it.\<close>

lemma mismatch_outcome:
  assumes "hash_libs_ok (sv_hash S)" "sinv w"
    and "store_uploads_in cfg = Some n" "bt_get (sv_stores S) n \<noteq> None"
    and "blob_at (sv_hash S) ops contents w (h_blake3 (sv_hash S) (concat cs)) \<in> {None, Some (concat cs)}"
    and "(h, sz) \<noteq> (h_blake3 (sv_hash S) (concat cs), of_nat (length (concat cs)))"
  obtains w' where "handle_upload S uuid node (Some cfg) h sz cs w = (Inl ''hash/size mismatch'', w')"
    "blob_at (sv_hash S) ops contents w' = (blob_at (sv_hash S) ops contents w)(h_blake3 (sv_hash S) (concat cs) := None)"
    "pinned w' = pinned w"
proof -
  let ?h = "h_blake3 (sv_hash S) (concat cs)" and ?st = "\<lparr>bs_store = ops, bs_outboard_store = ob\<rparr>"
  have pc: "path_codec_ok (h_codec (sv_hash S))" using assms(1) by (simp add: hash_libs_ok_def)
  have st: "bt_get (sv_stores S) n = Some ?st" using assms(4) stores by blast
  obtain w1 where i: "BlobStore_import_stream (sv_hash S) ?st uuid (map (\<lambda>c. Ready (Inr c)) cs) w
      = (Inr \<lparr>bid_hash = ?h, bid_size = of_nat (length (concat cs))\<rparr>, w1)" "sinv w1"
    and keep: "\<And>h. h \<noteq> ?h \<Longrightarrow> blob_at (sv_hash S) ops contents w1 h = blob_at (sv_hash S) ops contents w h"
    and p: "pinned w1 = pinned w"
    by (rule import_upload[OF assms(1,2) st assms(5), of uuid]) blast
  have d: "delete_everywhere (sv_hash S) [?st] ?h w1 = snd (BlobStore_delete (sv_hash S) ?st ?h w1)" by simp
  show thesis
    by (rule that[of "delete_everywhere (sv_hash S) [?st] ?h w1"])
       (use delete_everywhere_outcome[OF pc i(2), of "[?st]" ?h] assms(3,6) st i(1) keep p
        in \<open>auto simp: handle_upload_def d simp del: delete_everywhere.simps\<close>)
qed

end

section \<open>The server of a node with a memory store\<close>

text \<open>All the named stores are the node's store; the pins are in the node's registry.\<close>

definition memory_blobs_server ::
  "hashing \<Rightarrow> (error \<Rightarrow> string) \<Rightarrow> pin_codec \<Rightarrow> string list \<Rightarrow> (string, peer_config_blobs) btree
   \<Rightarrow> (memory_store \<times> memory_registry) blobs_server" where
  "memory_blobs_server H shw C names cfgs =
    \<lparr>sv_hash = H, sv_show = shw,
     sv_stores = bt_extend (map (\<lambda>n. (n, BlobStore_new (store_on_fst MemoryStore))) names) bt_empty,
     sv_peer_cfg = cfgs, sv_pinner = Some (pins_on_snd (RegistryPinner C MemoryRegistry))\<rparr>"

lemma bt_get_extend_const:
  "bt_get (bt_extend (map (\<lambda>n. (n, v)) names) m) n = (if n \<in> set names then Some v else bt_get m n)"
  by (induction names arbitrary: m) (auto simp: bt_extend_def)

lemma memory_blobs_server_simps [simp]:
  "sv_hash (memory_blobs_server H shw C names cfgs) = H"
  "sv_pinner (memory_blobs_server H shw C names cfgs) = Some (pins_on_snd (RegistryPinner C MemoryRegistry))"
  "sv_peer_cfg (memory_blobs_server H shw C names cfgs) = cfgs"
  "bt_get (sv_stores (memory_blobs_server H shw C names cfgs)) n
    = (if n \<in> set names then Some (BlobStore_new (store_on_fst MemoryStore)) else None)"
  by (simp_all add: memory_blobs_server_def bt_get_extend_const)

lemma memory_save_ok: "is_ok (fst (save_internal C MemoryRegistry (hash_to_key h) s r w))"
  by (simp add: save_internal_def memory_registry_defs Let_def StreamMessage_new_def hash_to_key_def
      StreamKey_requires_signature_def)

lemma memory_pinner_total:
  assumes "pins_ok C (bt_get w)"
  shows "is_ok (fst (pin_hash C MemoryRegistry h c w))" "is_ok (fst (unpin_hash C MemoryRegistry h c w))"
    "is_ok (is_pinned C MemoryRegistry h c w)"
  using memory_get_internal[OF assms, of h] memory_save_ok[of C h]
  by (auto simp: pin_hash_def unpin_hash_def is_pinned_def Let_def act_bind_def is_ok_iff case_prod_unfold split: sum.splits)

interpretation memory_server: blobs_node "store_on_fst MemoryStore" "\<lambda>w. bt_get (fst w)" "\<lambda>w. True" "\<lambda>_. True"
  "pins_on_snd (RegistryPinner C MemoryRegistry)" "\<lambda>w. pins_of C (bt_get (snd w))"
  "\<lambda>w. pin_codec_ok C \<and> True \<and> pins_ok C (bt_get (snd w))" "\<lambda>w. pins_room (bt_get (snd w))"
  "memory_blobs_server H shw C names cfgs" "Some (store_on_fst MemoryStore)" for H shw C names cfgs
  by (intro blobs_node.intro blobs_node_axioms.intro memory_node.node_world_axioms
      memory_store.on_fst_reliable)
     (auto simp: BlobStore_new_def pins_on_snd_def RegistryPinner_def memory_pinner_total is_ok_on_snd
      simp del: on_snd_eq split: if_splits)

section \<open>Properties\<close>

fun denied :: "blobs_response \<Rightarrow> bool" where
  "denied (QueryResult r) \<longleftrightarrow> r = QueryResponse_default"
| "denied (UploadResult r) \<longleftrightarrow> r = Inl ''permission denied''"
| "denied (DownloadChunks cs) \<longleftrightarrow> cs = []"
| "denied (DeleteResult r) \<longleftrightarrow> r = Inl ''permission denied''"
| "denied (PinResult r) \<longleftrightarrow> r = Inl ''permission denied''"

definition may_write :: "'w blobs_server \<Rightarrow> string \<Rightarrow> bool" where
  "may_write S node_key = (case BlobsServer_cfg_for S node_key of None \<Rightarrow> False | Some cfg \<Rightarrow> store_uploads_in cfg \<noteq> None)"

lemma handle_without_write:
  assumes "\<not> may_write S node_key"
  shows "snd (BlobsServer_handle S uuid node_key node msg w) = w
    \<and> (BlobsServer_cfg_for S node_key = None \<longrightarrow> denied (fst (BlobsServer_handle S uuid node_key node msg w)))"
  using assms
  by (cases msg) (auto simp: may_write_def handle_query_def handle_upload_def handle_download_def handle_delete_def
      handle_pin_def split: option.splits)

text \<open>C19. Access control of the blob server: whatever a peer sends over a connection, a peer that has no upload
  store configured (by its own entry or by the wildcard) changes neither the stores nor the pins, and a peer with
  no configuration at all learns nothing: every answer is the empty query result, an empty download or a denial.\<close>

theorem peer_without_uploads_changes_nothing:
  assumes "\<not> may_write S node_key"
  shows "snd (BlobsServer_accept S node_key node msgs w) = w
    \<and> (BlobsServer_cfg_for S node_key = None \<longrightarrow> (\<forall>r \<in> set (fst (BlobsServer_accept S node_key node msgs w)). denied r))"
proof (induction msgs)
  case (Cons m msgs)
  obtain uuid msg where m: "m = (uuid, msg)" by fastforce
  show ?case using Cons handle_without_write[OF assms, of uuid node msg w] by (auto simp: m case_prod_unfold)
qed simp

definition demo_peers :: "(string, peer_config_blobs) btree" where
  "demo_peers = bt_insert ''alice'' \<lparr>readable_stores = [''main''], store_uploads_in = Some ''main''\<rparr>
     (bt_insert ''*'' \<lparr>readable_stores = [''main''], store_uploads_in = None\<rparr> bt_empty)"

abbreviation demo_blobs_server :: "(memory_store \<times> memory_registry) blobs_server" where
  "demo_blobs_server \<equiv> memory_blobs_server demo_hashing (\<lambda>_. ''error'') demo_pin_codec [''main''] demo_peers"

lemma demo_peers_cfg [simp]:
  "BlobsServer_cfg_for demo_blobs_server ''alice'' = Some \<lparr>readable_stores = [''main''], store_uploads_in = Some ''main''\<rparr>"
  "BlobsServer_cfg_for demo_blobs_server ''bob'' = Some \<lparr>readable_stores = [''main''], store_uploads_in = None\<rparr>"
  by (simp_all add: BlobsServer_cfg_for_def demo_peers_def)

theorem peer_without_uploads_changes_nothing_witness:
  "snd (BlobsServer_accept demo_blobs_server ''bob'' (fill32 2)
      [(''u'', UploadBlob (fill32 1) 1 [[1]]), (''v'', DeleteBlob (fill32 3)), (''w'', PinBlob (fill32 3))]
      (bt_insert ''x'' [5] bt_empty, bt_empty)) = (bt_insert ''x'' [5] bt_empty, bt_empty)"
  by (rule peer_without_uploads_changes_nothing[THEN conjunct1]) (simp add: may_write_def)

text \<open>C6. Upload and download fit together: on a node whose store and registry work, an upload that announces the
  hash and the size of its chunks succeeds; after it the uploader can download any range of the blob and gets
  exactly those bytes, in chunks of at most \<^const>\<open>CHUNK_SIZE\<close> bytes, while a peer that has not pinned the blob
  gets nothing.\<close>

theorem uploaded_blob_downloads:
  fixes H shw C names cfgs cs w
  defines "S \<equiv> memory_blobs_server H shw C names cfgs" and "c \<equiv> concat cs"
  assumes "hash_libs_ok H" "pin_codec_ok C" "pins_ok C (bt_get (snd w))" "pins_room (bt_get (snd w))"
    and "BlobsServer_cfg_for S key = Some cfg" "store_uploads_in cfg = Some n" "n \<in> set names" "n \<in> set (readable_stores cfg)"
    and "blob_at H (store_on_fst MemoryStore) (\<lambda>w. bt_get (fst w)) w (h_blake3 H c) \<in> {None, Some c}"
    and "length c < 2 ^ 64"
  shows "\<exists>w'. BlobsServer_handle S uuid key node (UploadBlob (h_blake3 H c) (of_nat (length c)) cs) w = (UploadResult (Inr ()), w')
    \<and> (\<forall>u off len. \<exists>ds. BlobsServer_handle S u key node (DownloadBlob (h_blake3 H c) off len) w' = (DownloadChunks ds, w')
        \<and> concat ds = slice_of off len c \<and> (\<forall>d \<in> set ds. length d \<le> CHUNK_SIZE))
    \<and> (\<forall>u key' other off len. NodeId other \<notin> insert (NodeId node) (pins_of C (bt_get (snd w)) (h_blake3 H c))
        \<longrightarrow> fst (BlobsServer_handle S u key' other (DownloadBlob (h_blake3 H c) off len) w') = DownloadChunks [])"
proof -
  have S: "sv_hash S = H" "bt_get (sv_stores S) n \<noteq> None" using assms(9) by (simp_all add: S_def)
  obtain w' where up: "handle_upload S uuid node (Some cfg) (h_blake3 H c) (of_nat (length c)) cs w = (Inr (), w')"
    and inv: "pin_codec_ok C \<and> True \<and> pins_ok C (bt_get (snd w'))"
    and blob: "blob_at H (store_on_fst MemoryStore) (\<lambda>w. bt_get (fst w)) w' (h_blake3 H c) = Some c"
    and pins: "pins_of C (bt_get (snd w')) = (pins_of C (bt_get (snd w)))(h_blake3 H c :=
      insert (NodeId node) (pins_of C (bt_get (snd w)) (h_blake3 H c)))"
    using memory_server.upload_stores_and_pins[where H = H and shw = shw and C = C and names = names and cfgs = cfgs
        and w = w and cfg = cfg and n = n and cs = cs and uuid = uuid and node = node,
        folded S_def c_def, unfolded S(1), OF assms(3) TrueI _ assms(6,8) S(2) assms(11)] assms(4,5) by metis
  have down: "concat (handle_download S i (Some cfg') (h_blake3 H c) off len w')
      = (if NodeId i \<in> pins_of C (bt_get (snd w')) (h_blake3 H c) then slice_of off len c else [])
    \<and> (\<forall>x \<in> set (handle_download S i (Some cfg') (h_blake3 H c) off len w'). length x \<le> CHUNK_SIZE)"
    if "n \<in> set (readable_stores cfg')" for i cfg' off len
    using memory_server.download_slice[OF TrueI inv, where H = H and shw = shw and names = names and cfgs = cfgs,
        folded S_def, unfolded S(1), OF blob assms(12) that S(2)] .
  have deny: "handle_download S other cfg' (h_blake3 H c) off len w' = []"
    if "NodeId other \<notin> pins_of C (bt_get (snd w')) (h_blake3 H c)" for other cfg' off len
    using that memory_pinner_total(3)[of C "snd w'" "h_blake3 H c" "NodeId other"] inv
      memory_node.is_pinned_law[OF inv, of "h_blake3 H c" "NodeId other"]
    by (auto simp: handle_download_def S_def pins_on_snd_def RegistryPinner_def is_ok_iff split: option.splits sum.splits)
  show ?thesis
    using up assms(7) down[OF assms(10), of node] deny pins by (intro exI[of _ w']) auto
qed

lemma demo_hash_libs_ok: "hash_libs_ok demo_hashing"
  by (simp add: hash_libs_ok_def)

lemma demo_blob_empty [simp]:
  "blob_at H (store_on_fst MemoryStore) (\<lambda>w. bt_get (fst w)) (MemoryStore_new, r) h = None"
  by (simp add: blob_at_def MemoryStore_new_def)

lemma demo_no_pins [simp]:
  "pins_ok C (bt_get MemoryRegistry_new)" "pins_room (bt_get MemoryRegistry_new)" "pins_of C (bt_get MemoryRegistry_new) h = {}"
  by (simp_all add: pins_ok_def pins_room_def pins_of_def MemoryRegistry_new_def)

theorem uploaded_blob_downloads_witness:
  "\<exists>w' ds. BlobsServer_handle demo_blobs_server ''u'' ''alice'' (fill32 1)
        (UploadBlob (arr32 [1, 2, 3]) 3 [[1], [2, 3]]) (MemoryStore_new, MemoryRegistry_new) = (UploadResult (Inr ()), w')
    \<and> BlobsServer_handle demo_blobs_server ''v'' ''alice'' (fill32 1) (DownloadBlob (arr32 [1, 2, 3]) 1 (Some 1)) w' = (DownloadChunks ds, w')
    \<and> concat ds = [2]
    \<and> fst (BlobsServer_handle demo_blobs_server ''w'' ''bob'' (fill32 2) (DownloadBlob (arr32 [1, 2, 3]) 0 None) w') = DownloadChunks []"
proof -
  let ?S = demo_blobs_server and ?h = "arr32 [1, 2, 3]" and ?w = "(MemoryStore_new, MemoryRegistry_new)"
  have eqs: "h_blake3 demo_hashing [1, 2, 3] = ?h" "of_nat (length [1, 2, 3 :: u8]) = (3 :: u64)"
    "concat [[1], [2, 3]] = [1, 2, 3 :: u8]" "NodeId i \<notin> insert (NodeId j) (pins_of demo_pin_codec (bt_get (snd ?w)) k) \<longleftrightarrow> i \<noteq> j" for i j k
    by simp_all
  have "\<exists>w'. BlobsServer_handle ?S ''u'' ''alice'' (fill32 1)
        (UploadBlob (h_blake3 demo_hashing (concat [[1], [2, 3]])) (of_nat (length (concat [[1], [2, 3 :: u8]]))) [[1], [2, 3]]) ?w = (UploadResult (Inr ()), w')
    \<and> (\<forall>u off len. \<exists>ds. BlobsServer_handle ?S u ''alice'' (fill32 1) (DownloadBlob (h_blake3 demo_hashing (concat [[1], [2, 3]])) off len) w'
          = (DownloadChunks ds, w')
        \<and> concat ds = slice_of off len (concat [[1], [2, 3]]) \<and> (\<forall>d \<in> set ds. length d \<le> CHUNK_SIZE))
    \<and> (\<forall>u key' other off len. NodeId other \<notin> insert (NodeId (fill32 1)) (pins_of demo_pin_codec (bt_get (snd ?w)) (h_blake3 demo_hashing (concat [[1], [2, 3]])))
        \<longrightarrow> fst (BlobsServer_handle ?S u key' other (DownloadBlob (h_blake3 demo_hashing (concat [[1], [2, 3]])) off len) w') = DownloadChunks [])"
    by (rule uploaded_blob_downloads[OF demo_hash_libs_ok demo_pin_codec_ok _ _ demo_peers_cfg(1)]) simp_all
  then obtain w' where up: "BlobsServer_handle ?S ''u'' ''alice'' (fill32 1) (UploadBlob ?h 3 [[1], [2, 3]]) ?w = (UploadResult (Inr ()), w')"
    and d: "\<And>u off len. \<exists>ds. BlobsServer_handle ?S u ''alice'' (fill32 1) (DownloadBlob ?h off len) w' = (DownloadChunks ds, w')
      \<and> concat ds = slice_of off len [1, 2, 3]"
    and n: "\<And>u key' other off len. other \<noteq> fill32 1 \<Longrightarrow>
      fst (BlobsServer_handle ?S u key' other (DownloadBlob ?h off len) w') = DownloadChunks []"
    unfolding eqs by metis
  have "slice_of 1 (Some 1) [1, 2, 3 :: u8] = [2]" by (simp add: slice_of_def)
  with up d[of "''v''" 1 "Some 1"] n[of "fill32 2" "''w''" "''bob''" 0 None] show ?thesis
    by (simp del: BlobsServer_handle.simps)
qed

text \<open>C18. Deletion over the network follows the pins: a peer that may upload gets the answer whether any other pin
  was left, its own pin is gone afterwards and no other one, and the blob is removed from the node exactly when no
  pin was left; every other blob stays. In particular a blob that some other peer or the local file system has
  pinned survives, and a blob that nobody has pinned is removed for any such peer.\<close>

theorem delete_removes_only_orphans:
  fixes H shw C names cfgs w
  defines "S \<equiv> memory_blobs_server H shw C names cfgs"
    and "blobs \<equiv> blob_at H (store_on_fst MemoryStore) (\<lambda>w. bt_get (fst w))" and "pins \<equiv> \<lambda>w. pins_of C (bt_get (snd w))"
  assumes "path_codec_ok (h_codec H)" "pin_codec_ok C" "pins_ok C (bt_get (snd w))" "pins_room (bt_get (snd w))"
    and "may_write S key" "names \<noteq> []"
  shows "\<exists>w'. BlobsServer_handle S uuid key node (DeleteBlob h) w = (DeleteResult (Inr (pins w h \<subseteq> {NodeId node})), w')
    \<and> pins w' = (pins w)(h := pins w h - {NodeId node})
    \<and> blobs w' = (if pins w h \<subseteq> {NodeId node} then (blobs w)(h := None) else blobs w)"
proof -
  obtain cfg where cfg: "BlobsServer_cfg_for S key = Some cfg" "store_uploads_in cfg \<noteq> None"
    using assms(8) by (auto simp: may_write_def split: option.splits)
  have "BlobStore_new (store_on_fst MemoryStore) \<in> set (bt_vals (sv_stores S))"
    using assms(9) by (auto simp: bt_vals_iff S_def neq_Nil_conv)
  then have st: "bt_vals (sv_stores S) \<noteq> []" by auto
  obtain w' where w': "handle_delete S node (Some cfg) h w = (Inr (pins w h \<subseteq> {NodeId node}), w')"
    "pins w' = (pins w)(h := pins w h - {NodeId node})"
    "blobs w' = (if pins w h \<subseteq> {NodeId node} then (blobs w)(h := None) else blobs w)"
    by (rule memory_server.delete_outcome[where H = H and shw = shw and C = C and names = names and cfgs = cfgs
          and w = w and cfg = cfg and node = node and h = h, folded S_def])
       (use assms(4-7) cfg(2) st in \<open>simp_all add: S_def blobs_def pins_def\<close>)
  show ?thesis by (rule exI[of _ w']) (simp add: cfg(1) w')
qed

theorem delete_removes_only_orphans_witness:
  "\<exists>w'. BlobsServer_handle demo_blobs_server ''u'' ''alice'' (fill32 1) (DeleteBlob (fill32 4)) (MemoryStore_new, MemoryRegistry_new)
    = (DeleteResult (Inr True), w')"
proof -
  have "may_write demo_blobs_server ''alice''" by (simp add: may_write_def)
  from delete_removes_only_orphans[OF demo_hashing_ok(1) demo_pin_codec_ok _ _ this,
      of "(MemoryStore_new, MemoryRegistry_new)" "''u''" "fill32 1" "fill32 4"]
  show ?thesis by (simp del: BlobsServer_handle.simps) blast
qed

text \<open>A mismatched upload removes a blob that others have pinned: when a peer uploads the bytes of a stored blob but
  announces another hash or size, the cleanup deletes the blob itself, whoever has pinned it, and the pins stay
  behind without a blob.\<close>

theorem mismatched_upload_removes_pinned_blob:
  fixes H shw C names cfgs cs w
  defines "S \<equiv> memory_blobs_server H shw C names cfgs" and "c \<equiv> concat cs"
    and "blobs \<equiv> blob_at H (store_on_fst MemoryStore) (\<lambda>w. bt_get (fst w))" and "pins \<equiv> \<lambda>w. pins_of C (bt_get (snd w))"
  assumes "hash_libs_ok H" "BlobsServer_cfg_for S key = Some cfg" "store_uploads_in cfg = Some n" "n \<in> set names"
    and "blobs w (h_blake3 H c) = Some c" "(h, sz) \<noteq> (h_blake3 H c, of_nat (length c))"
  shows "\<exists>w'. BlobsServer_handle S uuid key node (UploadBlob h sz cs) w = (UploadResult (Inl ''hash/size mismatch''), w')
    \<and> blobs w' = (blobs w)(h_blake3 H c := None) \<and> pins w' = pins w"
proof -
  have st: "bt_get (sv_stores S) n \<noteq> None" using assms(8) by (simp add: S_def)
  obtain w' where w': "handle_upload S uuid node (Some cfg) h sz cs w = (Inl ''hash/size mismatch'', w')"
    "blobs w' = (blobs w)(h_blake3 H c := None)" "pins w' = pins w"
    by (rule memory_server.mismatch_outcome[where H = H and shw = shw and C = C and names = names and cfgs = cfgs
          and w = w and cfg = cfg and node = node and h = h and sz = sz and n = n and cs = cs and uuid = uuid, folded S_def c_def])
       (use assms(5,7,9,10) st in \<open>simp_all add: S_def blobs_def pins_def c_def\<close>)
  show ?thesis by (rule exI[of _ w']) (simp add: assms(6) w')
qed

theorem mismatched_upload_removes_pinned_blob_witness:
  "\<exists>w'. BlobsServer_handle demo_blobs_server ''u'' ''alice'' (fill32 1) (UploadBlob (arr32 [7]) 2 [[7]])
      (bt_insert (blob_path_for_hash demo_codec (arr32 [7]) (st_features MemoryStore)) [7] bt_empty, MemoryRegistry_new)
    = (UploadResult (Inl ''hash/size mismatch''), w')
    \<and> blob_at demo_hashing (store_on_fst MemoryStore) (\<lambda>w. bt_get (fst w)) w' (arr32 [7]) = None"
proof -
  let ?w = "(bt_insert (blob_path_for_hash demo_codec (arr32 [7]) (st_features MemoryStore)) [7 :: u8] bt_empty, MemoryRegistry_new)"
  have "\<exists>w'. BlobsServer_handle demo_blobs_server ''u'' ''alice'' (fill32 1) (UploadBlob (arr32 [7]) 2 [[7]]) ?w
      = (UploadResult (Inl ''hash/size mismatch''), w')
    \<and> blob_at demo_hashing (store_on_fst MemoryStore) (\<lambda>w. bt_get (fst w)) w'
      = (blob_at demo_hashing (store_on_fst MemoryStore) (\<lambda>w. bt_get (fst w)) ?w)(h_blake3 demo_hashing (concat [[7]]) := None)
    \<and> pins_of demo_pin_codec (bt_get (snd w')) = pins_of demo_pin_codec (bt_get (snd ?w))"
    by (rule mismatched_upload_removes_pinned_blob[OF demo_hash_libs_ok demo_peers_cfg(1)])
       (simp_all add: blob_at_def store_on_fst_def, simp_all add: demo_hashing_def)
  then show ?thesis by (simp del: BlobsServer_handle.simps) auto
qed

end
