(* ===== verification/Blobs_Client.thy ===== *)
theory Blobs_Client
  imports Blobs_Server
begin

text \<open>
  The client side of the blob protocol: \<^verbatim>\<open>s5_blobs/src/client.rs\<close>, \<^verbatim>\<open>s5_blobs/src/store_remote.rs\<close> and
  \<^verbatim>\<open>s5_blobs/src/multi_fetcher.rs\<close>. The irpc transport is a parameter, the fields of \<open>blobs_client\<close>: what comes
  back for a request and what the remote node is afterwards. Queries and downloads leave the remote node as it
  is. \<open>server_client\<close> is the transport that delivers to a \<^verbatim>\<open>BlobsServer\<close> without loss.
\<close>

section \<open>The client\<close>

text \<open>Where an upload can fail on the way: opening the request, sending a chunk, waiting for the answer.\<close>

datatype upload_error = BeginFailed string | SendFailed string | ResponseFailed string

text \<open>The chunks given to \<open>cl_upload\<close> are those sent before the sender is dropped. A download is a list of chunks
  that ends at the end of the stream, or holds an error.\<close>

record 'w blobs_client =
  cl_hash :: hashing
  cl_query :: "query \<Rightarrow> 'w \<Rightarrow> string + query_response"
  cl_download :: "hash \<Rightarrow> u64 \<Rightarrow> u64 option \<Rightarrow> 'w \<Rightarrow> string + (string + bytes) list"
  cl_upload :: "hash \<Rightarrow> u64 \<Rightarrow> bytes list \<Rightarrow> 'w \<Rightarrow> (upload_error + (string + unit)) \<times> 'w"
  cl_delete :: "hash \<Rightarrow> 'w \<Rightarrow> (string + (string + bool)) \<times> 'w"
  cl_pin :: "hash \<Rightarrow> 'w \<Rightarrow> (string + (string + bool)) \<times> 'w"

definition Client_query :: "'w blobs_client \<Rightarrow> hash \<Rightarrow> u8 set \<Rightarrow> 'w \<Rightarrow> string + query_response" where
  "Client_query self hash location_types = cl_query self \<lparr>q_hash = hash, q_location_types = location_types, q_blinded = False\<rparr>"

definition Client_query_blinded :: "'w blobs_client \<Rightarrow> hash \<Rightarrow> u8 set \<Rightarrow> 'w \<Rightarrow> string + query_response" where
  "Client_query_blinded self blinded_hash location_types =
    cl_query self \<lparr>q_hash = blinded_hash, q_location_types = location_types, q_blinded = True\<rparr>"

text \<open>The receiving loop of a download.\<close>

fun recv_all :: "(string + bytes) list \<Rightarrow> string + bytes" where
  "recv_all [] = Inr []"
| "recv_all (Inr chunk # rest) = (case recv_all rest of Inl e \<Rightarrow> Inl e | Inr buffer \<Rightarrow> Inr (chunk @ buffer))"
| "recv_all (Inl err # rest) = Inl err"

definition Client_upload_bytes :: "'w blobs_client \<Rightarrow> bytes \<Rightarrow> 'w \<Rightarrow> (string + hash \<times> u64) \<times> 'w" where
  "Client_upload_bytes self bs w =
    (let sz = of_nat (length bs); hash = h_blake3 (cl_hash self) bs
     in case cl_upload self hash sz [bs] w of (r, w') \<Rightarrow>
        ((case r of
            Inl (BeginFailed e) \<Rightarrow> Inl (''upload_begin failed: '' @ e)
          | Inl (SendFailed e) \<Rightarrow> Inl (''failed to send upload chunk: '' @ e)
          | Inl (ResponseFailed e) \<Rightarrow> Inl (''upload response failed: '' @ e)
          | Inr (Inr _) \<Rightarrow> Inr (hash, sz)
          | Inr (Inl err) \<Rightarrow> Inl err), w'))"

definition Client_download_bytes :: "'w blobs_client \<Rightarrow> hash \<Rightarrow> u64 \<Rightarrow> u64 option \<Rightarrow> 'w \<Rightarrow> string + bytes" where
  "Client_download_bytes self hash offset max_len w =
    (case cl_download self hash offset max_len w of
       Inl e \<Rightarrow> Inl (''download failed: '' @ e)
     | Inr receiver \<Rightarrow>
        (case recv_all receiver of Inl err \<Rightarrow> Inl (''download stream failed: '' @ err) | Inr buffer \<Rightarrow> Inr buffer))"

subsection \<open>BlobsRead and BlobsWrite\<close>

definition blob_contains :: "'w blobs_client \<Rightarrow> hash \<Rightarrow> 'w \<Rightarrow> error + bool" where
  "blob_contains self hash w =
    (case Client_query self hash {} w of Inl e \<Rightarrow> Inl (Anyhow e) | Inr resp \<Rightarrow> Inr (qr_exists resp))"

text \<open>The texts of hashes in messages are left out.\<close>

definition blob_get_size :: "'w blobs_client \<Rightarrow> hash \<Rightarrow> 'w \<Rightarrow> error + u64" where
  "blob_get_size self hash w =
    (case Client_query self hash {} w of
       Inl e \<Rightarrow> Inl (Anyhow e)
     | Inr resp \<Rightarrow> (case qr_size resp of Some sz \<Rightarrow> Inr sz | None \<Rightarrow> Inl (Anyhow ''size unavailable for blob'')))"

definition blob_download_slice :: "'w blobs_client \<Rightarrow> hash \<Rightarrow> u64 \<Rightarrow> u64 option \<Rightarrow> 'w \<Rightarrow> error + bytes" where
  "blob_download_slice self hash offset max_len w =
    (case cl_download self hash offset max_len w of
       Inl e \<Rightarrow> Inl (Anyhow e)
     | Inr receiver \<Rightarrow>
        (case recv_all receiver of Inl err \<Rightarrow> Inl (Anyhow (''download failed: '' @ err)) | Inr buffer \<Rightarrow> Inr buffer))"

definition blob_download :: "'w blobs_client \<Rightarrow> hash \<Rightarrow> 'w \<Rightarrow> error + bytes" where
  "blob_download self hash = blob_download_slice self hash 0 None"

text \<open>A reader over bytes in memory is those bytes.\<close>

definition blob_read :: "'w blobs_client \<Rightarrow> hash \<Rightarrow> 'w \<Rightarrow> error + bytes" where
  "blob_read self hash w = (case blob_download self hash w of Inl e \<Rightarrow> Inl e | Inr bs \<Rightarrow> Inr bs)"

definition upload_answer :: "hash \<Rightarrow> u64 \<Rightarrow> upload_error + (string + unit) \<Rightarrow> error + blob_id" where
  "upload_answer hash sz r =
    (case r of
       Inl (BeginFailed e) \<Rightarrow> Inl (Anyhow e)
     | Inl (SendFailed e) \<Rightarrow> Inl (Anyhow (''failed to send upload chunk: '' @ e))
     | Inl (ResponseFailed e) \<Rightarrow> Inl (Anyhow e)
     | Inr (Inr _) \<Rightarrow> Inr \<lparr>bid_hash = hash, bid_size = sz\<rparr>
     | Inr (Inl err) \<Rightarrow> Inl (Anyhow err))"

definition blob_upload_bytes :: "'w blobs_client \<Rightarrow> bytes \<Rightarrow> ('w, blob_id) action" where
  "blob_upload_bytes self bs w =
    (let sz = of_nat (length bs); hash = h_blake3 (cl_hash self) bs
     in apfst (upload_answer hash sz) (cl_upload self hash sz [bs] w))"

text \<open>The loop of \<^verbatim>\<open>blob_upload_reader\<close>: the reads of the reader, the bytes counted so far and the chunks sent so
  far. A read of zero bytes ends it; the progress callback sees the count before the chunk is sent.\<close>

fun read_loop :: "(u64 \<Rightarrow> error + unit) \<Rightarrow> (error + bytes) list \<Rightarrow> u64 \<Rightarrow> bytes list \<Rightarrow> (error + u64) \<times> bytes list" where
  "read_loop on_progress [] sent chunks = (Inr sent, chunks)"
| "read_loop on_progress (Inl e # reads) sent chunks = (Inl e, chunks)"
| "read_loop on_progress (Inr buf # reads) sent chunks =
    (if buf = [] then (Inr sent, chunks)
     else
       let sent = sent + of_nat (length buf)
       in case on_progress sent of
            Inl e \<Rightarrow> (Inl e, chunks)
          | Inr _ \<Rightarrow> read_loop on_progress reads sent (chunks @ [buf]))"

text \<open>An error after the request was opened drops the sender, so that the server sees the chunks sent so far as the
  whole upload.\<close>

definition blob_upload_reader ::
  "'w blobs_client \<Rightarrow> hash \<Rightarrow> u64 \<Rightarrow> (error + bytes) list \<Rightarrow> (u64 \<Rightarrow> error + unit) \<Rightarrow> ('w, blob_id) action" where
  "blob_upload_reader self hash sz reader on_progress w =
    (case read_loop on_progress reader 0 [] of (res, chunks) \<Rightarrow>
     case cl_upload self hash sz chunks w of (r, w') \<Rightarrow>
       ((case r of
           Inl (BeginFailed e) \<Rightarrow> Inl (Anyhow e)
         | Inl (SendFailed e) \<Rightarrow> Inl (Anyhow (''failed to send upload chunk: '' @ e))
         | _ \<Rightarrow>
            (case res of
               Inl e \<Rightarrow> Inl e
             | Inr sent \<Rightarrow>
                if sent \<noteq> sz
                then Inl (Anyhow (''size mismatch while uploading blob: expected '' @ show_nat (unat sz) @ '', sent '' @ show_nat (unat sent)))
                else upload_answer hash sz r)), w'))"

definition blob_upload_stream :: "'w blobs_client \<Rightarrow> chunk list \<Rightarrow> ('w, blob_id) action" where
  "blob_upload_stream self stream w =
    (case try_collect stream of
       Inl e \<Rightarrow> (Inl e, w)
     | Inr chunks \<Rightarrow>
        (let total = (\<Sum>chunk \<leftarrow> chunks. of_nat (length chunk)); hash = h_blake3 (cl_hash self) (concat chunks)
         in apfst (upload_answer hash total) (cl_upload self hash total chunks w)))"

text \<open>The result of reading the file is an argument.\<close>

definition blob_upload_file :: "'w blobs_client \<Rightarrow> error + bytes \<Rightarrow> ('w, blob_id) action" where
  "blob_upload_file self data w = (case data of Inl e \<Rightarrow> (Inl e, w) | Inr bs \<Rightarrow> blob_upload_bytes self bs w)"

section \<open>RemoteBlobStore\<close>

definition ends_with :: "string \<Rightarrow> string \<Rightarrow> bool" where
  "ends_with p s \<longleftrightarrow> length p \<le> length s \<and> drop (length s - length p) s = p"

definition hash_from_path :: "hashing \<Rightarrow> string \<Rightarrow> error + hash" where
  "hash_from_path H path =
    (let relevant = (case split_once path of
           Some (pre, rest) \<Rightarrow> if ends_with ''blob3'' pre \<or> ends_with ''obao6'' pre then rest else path
         | None \<Rightarrow> path);
         b64 = filter (\<lambda>c. c \<noteq> CHR ''/'') relevant
     in case b64_decode (h_codec H) b64 of
          Inl err \<Rightarrow> Inl (Anyhow (''invalid blob path: '' @ err))
        | Inr bs \<Rightarrow>
           if length bs \<noteq> 32 then Inl (Anyhow ''invalid blob path: expected 32-byte hash'')
           else Inr (Hash_from_bytes (arr32 bs)))"

definition upload_chunks :: "'w blobs_client \<Rightarrow> hash \<Rightarrow> u64 \<Rightarrow> bytes list \<Rightarrow> ('w, unit) action" where
  "upload_chunks self hash total_size chunks w =
    (case cl_upload self hash total_size chunks w of (r, w') \<Rightarrow>
       ((case upload_answer hash total_size r of Inl e \<Rightarrow> Inl e | Inr _ \<Rightarrow> Inr ()), w'))"

text \<open>The attempt to pin that precedes an upload: done when the blob is there.\<close>

definition pin_or :: "'w blobs_client \<Rightarrow> hash \<Rightarrow> ('w, unit) action \<Rightarrow> ('w, unit) action" where
  "pin_or self hash upload w =
    (case cl_pin self hash w of
       (Inr (Inr True), w') \<Rightarrow> (Inr (), w')
     | (Inr (Inr False), w') \<Rightarrow> upload w'
     | (Inr (Inl e), w') \<Rightarrow> (Inl (Anyhow (''pin_blob error: '' @ e)), w')
     | (Inl e, w') \<Rightarrow> (Inl (Anyhow (''pin_blob RPC failed: '' @ e)), w'))"

definition Remote_put_stream :: "'w blobs_client \<Rightarrow> string \<Rightarrow> chunk list \<Rightarrow> ('w, unit) action" where
  "Remote_put_stream self path stream =
    act_bind (act_lift (hash_from_path (cl_hash self) path)) (\<lambda>expected_hash.
    pin_or self expected_hash
      (act_bind (act_lift (try_collect stream)) (\<lambda>chunks.
       let total = (\<Sum>chunk \<leftarrow> chunks. of_nat (length chunk)); actual_hash = h_blake3 (cl_hash self) (concat chunks)
       in if actual_hash \<noteq> expected_hash then act_err (HashMismatch expected_hash actual_hash)
          else upload_chunks self expected_hash total chunks)))"

definition Remote_put_temp :: "'w blobs_client \<Rightarrow> string \<Rightarrow> chunk list \<Rightarrow> ('w, string) action" where
  "Remote_put_temp self uuid stream =
    (let path = ''blob3/temp'' in act_bind (Remote_put_stream self path stream) (\<lambda>_. act_ok path))"

definition Remote_features :: store_features where
  "Remote_features = \<lparr>supports_rename = False, case_sensitive = True, recommended_max_dir_size = - 1\<rparr>"

definition Remote_exists :: "'w blobs_client \<Rightarrow> string \<Rightarrow> 'w \<Rightarrow> error + bool" where
  "Remote_exists self path w =
    (case hash_from_path (cl_hash self) path of
       Inl e \<Rightarrow> Inl e
     | Inr hash \<Rightarrow>
        (case Client_query self hash {} w of Inl e \<Rightarrow> Inl (Anyhow e) | Inr response \<Rightarrow> Inr (qr_exists response)))"

definition Remote_put_bytes :: "'w blobs_client \<Rightarrow> string \<Rightarrow> bytes \<Rightarrow> ('w, unit) action" where
  "Remote_put_bytes self path bs =
    act_bind (act_lift (hash_from_path (cl_hash self) path)) (\<lambda>hash.
    pin_or self hash (upload_chunks self hash (of_nat (length bs)) [bs]))"

text \<open>After an error of the channel the stream asks the channel again: the items of \<open>cl_download\<close>, errors included.\<close>

definition Remote_open_read_stream :: "'w blobs_client \<Rightarrow> string \<Rightarrow> u64 \<Rightarrow> u64 option \<Rightarrow> 'w \<Rightarrow> error + chunk list" where
  "Remote_open_read_stream self path offset max_len w =
    (case hash_from_path (cl_hash self) path of
       Inl e \<Rightarrow> Inl e
     | Inr hash \<Rightarrow>
        (case cl_download self hash offset max_len w of
           Inl e \<Rightarrow> Inl (Anyhow e)
         | Inr receiver \<Rightarrow> Inr (map (\<lambda>item. case item of Inr chunk \<Rightarrow> Inr chunk | Inl err \<Rightarrow> Inl (Io OtherKind err)) receiver)))"

definition Remote_open_read_bytes :: "'w blobs_client \<Rightarrow> string \<Rightarrow> u64 \<Rightarrow> u64 option \<Rightarrow> 'w \<Rightarrow> error + bytes" where
  "Remote_open_read_bytes self path offset max_len w =
    (case hash_from_path (cl_hash self) path of
       Inl e \<Rightarrow> Inl e
     | Inr hash \<Rightarrow>
        (case cl_download self hash offset max_len w of
           Inl e \<Rightarrow> Inl (Anyhow e)
         | Inr receiver \<Rightarrow>
            (case recv_all receiver of Inl err \<Rightarrow> Inl (Anyhow (''download failed: '' @ err)) | Inr buffer \<Rightarrow> Inr buffer)))"

definition Remote_size :: "'w blobs_client \<Rightarrow> string \<Rightarrow> 'w \<Rightarrow> error + u64" where
  "Remote_size self path w =
    (case hash_from_path (cl_hash self) path of
       Inl e \<Rightarrow> Inl e
     | Inr hash \<Rightarrow>
        (case Client_query self hash {} w of
           Inl e \<Rightarrow> Inl (Anyhow e)
         | Inr response \<Rightarrow>
            (case qr_size response of Some sz \<Rightarrow> Inr sz | None \<Rightarrow> Inl (Anyhow (''size unavailable for blob '' @ path)))))"

definition Remote_list :: "'w \<Rightarrow> error + (error + string) list" where
  "Remote_list w = Inl (Anyhow ''list not supported for RemoteBlobStore'')"

definition Remote_delete :: "'w blobs_client \<Rightarrow> string \<Rightarrow> ('w, unit) action" where
  "Remote_delete self path =
    act_bind (act_lift (hash_from_path (cl_hash self) path)) (\<lambda>hash w.
    case cl_delete self hash w of
      (Inl e, w') \<Rightarrow> (Inl (Anyhow e), w')
    | (Inr (Inr _), w') \<Rightarrow> (Inr (), w')
    | (Inr (Inl msg), w') \<Rightarrow> (Inl (Anyhow msg), w'))"

definition Remote_rename :: "string \<Rightarrow> string \<Rightarrow> ('w, unit) action" where
  "Remote_rename old_path new_path = act_err (Anyhow ''rename not supported for RemoteBlobStore'')"

definition Remote_provide :: "string \<Rightarrow> 'w \<Rightarrow> error + blob_location list" where
  "Remote_provide path w = Inr []"

definition RemoteBlobStore :: "'w blobs_client \<Rightarrow> 'w store" where
  "RemoteBlobStore client =
    \<lparr>st_features = Remote_features, st_put_stream = Remote_put_stream client, st_put_bytes = Remote_put_bytes client,
     st_exists = Remote_exists client, st_open_read_stream = Remote_open_read_stream client,
     st_open_read_bytes = Remote_open_read_bytes client, st_size = Remote_size client, st_list = Remote_list,
     st_delete = Remote_delete client, st_rename = Remote_rename, st_provide = Remote_provide,
     st_put_temp = Remote_put_temp client\<rparr>"

section \<open>MultiFetcher\<close>

record fetch_error =
  source_name :: string
  reason :: string

datatype fetch_result = FetchOk bytes | FetchNotFound | AllFailed "fetch_error list"

datatype 'w blob_source =
    Local string "'w blob_store"
  | Remote string "'w blobs_client" bytes32

text \<open>The hashing functions and the text of errors are parameters.\<close>

record 'w multi_fetcher =
  mf_hash :: hashing
  mf_show :: "error \<Rightarrow> string"
  mf_sources :: "'w blob_source list"

definition MultiFetcher_new :: "hashing \<Rightarrow> (error \<Rightarrow> string) \<Rightarrow> 'w multi_fetcher" where
  "MultiFetcher_new H shw = \<lparr>mf_hash = H, mf_show = shw, mf_sources = []\<rparr>"

definition with_source :: "'w multi_fetcher \<Rightarrow> 'w blob_source \<Rightarrow> 'w multi_fetcher" where
  "with_source self source = self\<lparr>mf_sources := mf_sources self @ [source]\<rparr>"

definition with_local :: "'w multi_fetcher \<Rightarrow> string \<Rightarrow> 'w blob_store \<Rightarrow> 'w multi_fetcher" where
  "with_local self name store = self\<lparr>mf_sources := mf_sources self @ [Local name store]\<rparr>"

definition with_remote :: "'w multi_fetcher \<Rightarrow> string \<Rightarrow> 'w blobs_client \<Rightarrow> bytes32 \<Rightarrow> 'w multi_fetcher" where
  "with_remote self name client node_id = self\<lparr>mf_sources := mf_sources self @ [Remote name client node_id]\<rparr>"

fun try_fetch_from :: "'w multi_fetcher \<Rightarrow> 'w blob_source \<Rightarrow> hash \<Rightarrow> 'w \<Rightarrow> fetch_error + bytes option" where
  "try_fetch_from self (Local name store) hash w =
    (case BlobStore_contains (mf_hash self) store hash w of
       Inr True \<Rightarrow>
         (case BlobStore_read_as_bytes (mf_hash self) store hash 0 None w of
            Inr bs \<Rightarrow> Inr (Some bs)
          | Inl e \<Rightarrow> Inl \<lparr>source_name = name, reason = ''read failed: '' @ mf_show self e\<rparr>)
     | Inr False \<Rightarrow> Inr None
     | Inl e \<Rightarrow> Inl \<lparr>source_name = name, reason = ''contains check failed: '' @ mf_show self e\<rparr>)"
| "try_fetch_from self (Remote name client node_id) hash w =
    (case Client_query client hash {} w of
       Inl e \<Rightarrow> Inl \<lparr>source_name = name, reason = ''query failed: '' @ e\<rparr>
     | Inr query_result \<Rightarrow>
        if \<not> qr_exists query_result then Inr None
        else
          (case Client_download_bytes client hash 0 None w of
             Inr bs \<Rightarrow> Inr (Some bs)
           | Inl e \<Rightarrow> Inl \<lparr>source_name = name, reason = ''download failed: '' @ e\<rparr>))"

fun fetch_loop :: "'w multi_fetcher \<Rightarrow> 'w blob_source list \<Rightarrow> hash \<Rightarrow> 'w \<Rightarrow> fetch_error list \<Rightarrow> fetch_result" where
  "fetch_loop self [] hash w errors = (if errors = [] then FetchNotFound else AllFailed errors)"
| "fetch_loop self (source # sources) hash w errors =
    (case try_fetch_from self source hash w of
       Inr (Some bs) \<Rightarrow> FetchOk bs
     | Inr None \<Rightarrow> fetch_loop self sources hash w errors
     | Inl e \<Rightarrow> fetch_loop self sources hash w (errors @ [e]))"

definition fetch :: "'w multi_fetcher \<Rightarrow> hash \<Rightarrow> 'w \<Rightarrow> fetch_result" where
  "fetch self hash w = fetch_loop self (mf_sources self) hash w []"

text \<open>\<^verbatim>\<open>join\<close> with a separator.\<close>

fun join_with :: "string \<Rightarrow> string list \<Rightarrow> string" where
  "join_with sep [] = []"
| "join_with sep [x] = x"
| "join_with sep (x # y # ys) = x @ sep @ join_with sep (y # ys)"

definition fetch_to_store :: "'w multi_fetcher \<Rightarrow> hash \<Rightarrow> 'w blob_store \<Rightarrow> string \<Rightarrow> 'w \<Rightarrow> (string + unit) \<times> 'w" where
  "fetch_to_store self hash dest uuid w =
    (if BlobStore_contains (mf_hash self) dest hash w = Inr True then (Inr (), w)
     else
       (case fetch self hash w of
          FetchOk bs \<Rightarrow>
            (case BlobStore_import_bytes (mf_hash self) dest uuid bs w of
               (Inl e, w') \<Rightarrow> (Inl (''failed to store blob: '' @ mf_show self e), w')
             | (Inr _, w') \<Rightarrow> (Inr (), w'))
        | FetchNotFound \<Rightarrow> (Inl ''blob not found in any source'', w)
        | AllFailed errors \<Rightarrow> (Inl (''all sources failed: '' @ join_with '', '' (map reason errors)), w)))"

fun check_exists :: "'w multi_fetcher \<Rightarrow> 'w blob_source \<Rightarrow> hash \<Rightarrow> 'w \<Rightarrow> bool" where
  "check_exists self (Local name store) hash w = (BlobStore_contains (mf_hash self) store hash w = Inr True)"
| "check_exists self (Remote name client node_id) hash w =
    (case Client_query client hash {} w of Inr r \<Rightarrow> qr_exists r | Inl _ \<Rightarrow> False)"

definition MultiFetcher_exists :: "'w multi_fetcher \<Rightarrow> hash \<Rightarrow> 'w \<Rightarrow> bool" where
  "MultiFetcher_exists self hash w = list_ex (\<lambda>source. check_exists self source hash w) (mf_sources self)"

fun check_exists_blinded :: "'w multi_fetcher \<Rightarrow> 'w blob_source \<Rightarrow> hash \<Rightarrow> 'w \<Rightarrow> hash option" where
  "check_exists_blinded self (Local name store) blinded_hash w =
    find_blob_by_blinded_hash (mf_hash self) store blinded_hash w"
| "check_exists_blinded self (Remote name client node_id) blinded_hash w =
    (case Client_query_blinded client blinded_hash {} w of
       Inl _ \<Rightarrow> None
     | Inr r \<Rightarrow> if qr_exists r then qr_actual_hash r else None)"

fun first_blinded :: "'w multi_fetcher \<Rightarrow> 'w blob_source list \<Rightarrow> hash \<Rightarrow> 'w \<Rightarrow> hash option" where
  "first_blinded self [] blinded_hash w = None"
| "first_blinded self (source # sources) blinded_hash w =
    (case check_exists_blinded self source blinded_hash w of
       Some actual \<Rightarrow> Some actual
     | None \<Rightarrow> first_blinded self sources blinded_hash w)"

definition exists_blinded :: "'w multi_fetcher \<Rightarrow> hash \<Rightarrow> 'w \<Rightarrow> hash option" where
  "exists_blinded self blinded_hash w = first_blinded self (mf_sources self) blinded_hash w"

section \<open>A client of a server\<close>

text \<open>The transport that delivers every request of the peer \<open>node\<close>, known to the server as \<open>node_key\<close>, to the server
  \<open>S\<close> and brings the whole answer back.\<close>

definition server_client :: "'w blobs_server \<Rightarrow> string \<Rightarrow> string \<Rightarrow> bytes32 \<Rightarrow> 'w blobs_client" where
  "server_client S uuid node_key node =
    (let cfg = BlobsServer_cfg_for S node_key in
     \<lparr>cl_hash = sv_hash S,
      cl_query = \<lambda>q w. Inr (handle_query S cfg q w),
      cl_download = \<lambda>h offset max_len w. Inr (map Inr (handle_download S node cfg h offset max_len w)),
      cl_upload = \<lambda>h sz chunks w. apfst Inr (handle_upload S uuid node cfg h sz chunks w),
      cl_delete = \<lambda>h w. apfst Inr (handle_delete S node cfg h w),
      cl_pin = \<lambda>h w. apfst Inr (handle_pin S node cfg h w)\<rparr>)"

lemma server_client_simps [simp]:
  "cl_hash (server_client S u k i) = sv_hash S"
  "cl_query (server_client S u k i) q w = Inr (handle_query S (BlobsServer_cfg_for S k) q w)"
  "cl_download (server_client S u k i) h off len w = Inr (map Inr (handle_download S i (BlobsServer_cfg_for S k) h off len w))"
  "cl_upload (server_client S u k i) h sz cs w = apfst Inr (handle_upload S u i (BlobsServer_cfg_for S k) h sz cs w)"
  "cl_delete (server_client S u k i) h w = apfst Inr (handle_delete S i (BlobsServer_cfg_for S k) h w)"
  "cl_pin (server_client S u k i) h w = apfst Inr (handle_pin S i (BlobsServer_cfg_for S k) h w)"
  by (simp_all add: server_client_def Let_def)

lemma recv_all_ready [simp]: "recv_all (map Inr cs) = Inr (concat cs)"
  by (induction cs) simp_all

lemma remote_features [simp]:
  "st_features (RemoteBlobStore c) = Remote_features" "\<not> supports_rename Remote_features" "case_sensitive Remote_features"
  by (simp_all add: RemoteBlobStore_def Remote_features_def)

lemma remote_ops:
  "st_exists (RemoteBlobStore c) = Remote_exists c" "st_put_bytes (RemoteBlobStore c) = Remote_put_bytes c"
  "st_open_read_bytes (RemoteBlobStore c) = Remote_open_read_bytes c" "st_size (RemoteBlobStore c) = Remote_size c"
  by (simp_all add: RemoteBlobStore_def)

text \<open>Both paths of a hash, the one of its data and the one of its outboard, read back as the hash itself.\<close>

lemma hash_from_path_remote:
  assumes "path_codec_ok (h_codec H)"
  shows "hash_from_path H (blob_path_for_hash (h_codec H) h Remote_features) = Inr h"
    "hash_from_path H (obao6_path_for_hash (h_codec H) h Remote_features) = Inr h"
proof -
  have "path_for_hash (h_codec H) h Remote_features = b64_encode (h_codec H) (arr_list h)"
    by (simp add: path_for_hash_def Remote_features_def Let_def Hash_as_bytes_def word_less_nat_alt
        unsigned_minus_1_eq_mask mask_eq_exp_minus_1)
  then show "hash_from_path H (blob_path_for_hash (h_codec H) h Remote_features) = Inr h"
    "hash_from_path H (obao6_path_for_hash (h_codec H) h Remote_features) = Inr h"
    using path_codec_okD[OF assms, of h]
    by (simp_all add: hash_from_path_def blob_path_for_hash_def obao6_path_for_hash_def split_once_def ends_with_def
        filter_no_slash Hash_from_bytes_def)
qed

context blobs_node
begin

abbreviation the_store :: "'w blob_store" where
  "the_store \<equiv> \<lparr>bs_store = ops, bs_outboard_store = ob\<rparr>"

lemma store_has:
  assumes "sinv w"
  shows "BlobStore_contains (sv_hash S) the_store h w = Inr (blob_at (sv_hash S) ops contents w h \<noteq> None)"
    "blob_at (sv_hash S) ops contents w h = Some c \<Longrightarrow> BlobStore_size (sv_hash S) the_store h w = Inr (of_nat (length c))"
  using exists_total[OF assms all_good] size_total[OF assms all_good]
  by (simp_all add: BlobStore_contains_def contains_def BlobStore_size_def blob_size_def blob_at_def)

lemma query_stores_law:
  assumes "sinv w"
  shows "qr_exists (query_stores S h w names resp) \<longleftrightarrow> qr_exists resp \<or>
      blob_at (sv_hash S) ops contents w h \<noteq> None \<and> (\<exists>n \<in> set names. bt_get (sv_stores S) n \<noteq> None)"
    and "blob_at (sv_hash S) ops contents w h = Some c \<Longrightarrow> qr_size resp \<in> {None, Some (of_nat (length c))} \<Longrightarrow>
      (\<exists>n \<in> set names. bt_get (sv_stores S) n \<noteq> None) \<Longrightarrow> qr_size (query_stores S h w names resp) = Some (of_nat (length c))"
    and "blob_at (sv_hash S) ops contents w h = Some c \<Longrightarrow> qr_size resp = Some (of_nat (length c)) \<Longrightarrow>
      qr_size (query_stores S h w names resp) = Some (of_nat (length c))"
proof (induction names arbitrary: resp)
  case (Cons m names)
  have nb: "qr_exists (note_blob S the_store h w r)"
    "blob_at (sv_hash S) ops contents w h = Some c \<Longrightarrow> qr_size r \<in> {None, Some (of_nat (length c))}
      \<Longrightarrow> qr_size (note_blob S the_store h w r) = Some (of_nat (length c))" for r
    using store_has(2)[OF assms, of h c] by (auto simp: note_blob_def Let_def split: option.splits sum.splits)
  have st: "bt_get (sv_stores S) m = Some st \<Longrightarrow> st = the_store" for st by (rule stores)
  { case 1 show ?case using Cons.IH(1) nb(1) st store_has(1)[OF assms, of h] by (auto split: option.splits) }
  { case 2 then show ?case
      using Cons.IH(2,3) nb(2) st store_has(1)[OF assms, of h] by (cases "bt_get (sv_stores S) m") auto }
  { case 3 then show ?case
      using Cons.IH(3) nb(2) st store_has(1)[OF assms, of h] by (cases "bt_get (sv_stores S) m") auto }
qed simp_all

end

context blobs_node
begin

lemma remote_query:
  assumes "path_codec_ok (h_codec (sv_hash S))" "sinv w" "BlobsServer_cfg_for S key = Some cfg"
    and "n \<in> set (readable_stores cfg)" "bt_get (sv_stores S) n \<noteq> None"
  shows "Remote_exists (server_client S u key node) (blob_path_for_hash (h_codec (sv_hash S)) h Remote_features) w
      = Inr (blob_at (sv_hash S) ops contents w h \<noteq> None)"
    "blob_at (sv_hash S) ops contents w h = Some c \<Longrightarrow>
      Remote_size (server_client S u key node) (blob_path_for_hash (h_codec (sv_hash S)) h Remote_features) w = Inr (of_nat (length c))"
proof -
  have ex: "\<exists>n \<in> set (readable_stores cfg). bt_get (sv_stores S) n \<noteq> None" using assms(4,5) by blast
  have "qr_exists (query_stores S h w (readable_stores cfg) QueryResponse_default) = (blob_at (sv_hash S) ops contents w h \<noteq> None)"
    using query_stores_law(1)[OF assms(2), of h "readable_stores cfg" QueryResponse_default] ex
    by (simp add: QueryResponse_default_def)
  then show "Remote_exists (server_client S u key node) (blob_path_for_hash (h_codec (sv_hash S)) h Remote_features) w
      = Inr (blob_at (sv_hash S) ops contents w h \<noteq> None)"
    using assms(3) hash_from_path_remote(1)[OF assms(1)] by (simp add: Remote_exists_def Client_query_def handle_query_def)
  assume c: "blob_at (sv_hash S) ops contents w h = Some c"
  have "qr_size (query_stores S h w (readable_stores cfg) QueryResponse_default) = Some (of_nat (length c))"
    by (rule query_stores_law(2)[OF assms(2) c _ ex]) (simp add: QueryResponse_default_def)
  then show "Remote_size (server_client S u key node) (blob_path_for_hash (h_codec (sv_hash S)) h Remote_features) w = Inr (of_nat (length c))"
    using assms(3) hash_from_path_remote(1)[OF assms(1)] by (simp add: Remote_size_def Client_query_def handle_query_def)
qed

lemma remote_read:
  assumes "path_codec_ok (h_codec (sv_hash S))" "sinv w" "pinv w" "BlobsServer_cfg_for S key = Some cfg"
    and "n \<in> set (readable_stores cfg)" "bt_get (sv_stores S) n \<noteq> None"
    and "blob_at (sv_hash S) ops contents w h = Some c" "length c < 2 ^ 64"
  shows "Remote_open_read_bytes (server_client S u key node) (blob_path_for_hash (h_codec (sv_hash S)) h Remote_features) off len w
    = Inr (if NodeId node \<in> pinned w h then slice_of off len c else [])"
  using download_slice[OF assms(2,3,7,8,5,6), of node off len] hash_from_path_remote(1)[OF assms(1)] assms(4)
  by (simp add: Remote_open_read_bytes_def)

lemma remote_put_new:
  assumes "hash_libs_ok (sv_hash S)" "sinv w" "pinv w" "room w" "BlobsServer_cfg_for S key = Some cfg"
    and "store_uploads_in cfg = Some n" "bt_get (sv_stores S) n \<noteq> None"
    and "blob_at (sv_hash S) ops contents w (h_blake3 (sv_hash S) c) = None"
  obtains w' where "Remote_put_bytes (server_client S u key node)
      (blob_path_for_hash (h_codec (sv_hash S)) (h_blake3 (sv_hash S) c) Remote_features) c w = (Inr (), w')"
    "sinv w'" "pinv w'" "blob_at (sv_hash S) ops contents w' (h_blake3 (sv_hash S) c) = Some c"
    "NodeId node \<in> pinned w' (h_blake3 (sv_hash S) c)"
proof -
  let ?h = "h_blake3 (sv_hash S) c" and ?C = "server_client S u key node"
  have pc: "path_codec_ok (h_codec (sv_hash S))" using assms(1) by (simp add: hash_libs_ok_def)
  have st: "bt_get (sv_stores S) n = Some the_store" using assms(7) stores by blast
  have new: "blob_at (sv_hash S) ops contents w (h_blake3 (sv_hash S) (concat [c])) \<in> {None, Some (concat [c])}"
    using assms(8) by simp
  obtain w' where up: "handle_upload S u node (Some cfg) ?h (of_nat (length c)) [c] w = (Inr (), w')" "sinv w'" "pinv w'"
    "blob_at (sv_hash S) ops contents w' ?h = Some c" "pinned w' = (pinned w)(?h := insert (NodeId node) (pinned w ?h))"
    by (rule upload_stores_and_pins[OF assms(1-4,6,7) new, where uuid = u and node = node]) simp
  have "cl_pin ?C ?h w = (Inr (Inr False), w)"
    using store_has(1)[OF assms(2), of ?h] assms(5,6,8) st by (simp add: handle_pin_def)
  then have "Remote_put_bytes ?C (blob_path_for_hash (h_codec (sv_hash S)) ?h Remote_features) c w = (Inr (), w')"
    using up(1) assms(5) hash_from_path_remote(1)[OF pc, of ?h]
    by (simp add: Remote_put_bytes_def act_bind_def act_lift_def pin_or_def upload_chunks_def upload_answer_def)
  then show thesis by (rule that) (use up in simp_all)
qed

text \<open>The outboard of a blob is announced under the hash of the blob, so that the server refuses it.\<close>

lemma remote_outboard_refused:
  assumes "hash_libs_ok (sv_hash S)" "sinv w" "BlobsServer_cfg_for S key = Some cfg"
    and "store_uploads_in cfg = Some n" "bt_get (sv_stores S) n \<noteq> None"
    and "blob_at (sv_hash S) ops contents w h = None" "blob_at (sv_hash S) ops contents w (h_blake3 (sv_hash S) obao) \<in> {None, Some obao}"
    and "h_blake3 (sv_hash S) obao \<noteq> h"
  shows "\<exists>w'. Remote_put_bytes (server_client S u key node) (obao6_path_for_hash (h_codec (sv_hash S)) h Remote_features) obao w
    = (Inl (Anyhow ''hash/size mismatch''), w')"
proof -
  let ?C = "server_client S u key node"
  have pc: "path_codec_ok (h_codec (sv_hash S))" using assms(1) by (simp add: hash_libs_ok_def)
  have st: "bt_get (sv_stores S) n = Some the_store" using assms(5) stores by blast
  obtain w' where up: "handle_upload S u node (Some cfg) h (of_nat (length obao)) [obao] w = (Inl ''hash/size mismatch'', w')"
    by (rule mismatch_outcome[OF assms(1,2,4,5), of "[obao]" h "of_nat (length obao)" u node]) (use assms(7,8) in simp_all)
  have "cl_pin ?C h w = (Inr (Inr False), w)"
    using store_has(1)[OF assms(2), of h] assms(3,4,6) st by (simp add: handle_pin_def)
  then show ?thesis
    using up assms(3) hash_from_path_remote(2)[OF pc, of h]
    by (intro exI[of _ w']) (simp add: Remote_put_bytes_def act_bind_def act_lift_def pin_or_def upload_chunks_def upload_answer_def)
qed

end

text \<open>The part of a blob store that the remote store uses: no outboard is written for the data.\<close>

lemma import_bytes_remote:
  assumes "B = BlobStore_without_outboard (RemoteBlobStore C) \<or> B = BlobStore_new (RemoteBlobStore C) \<and> length c < 2 ^ 16"
  shows "BlobStore_import_bytes H B uuid c w =
    (let h = h_blake3 H c; id = \<lparr>bid_hash = h, bid_size = of_nat (length c)\<rparr>; p = blob_path_for_hash (h_codec H) h Remote_features
     in case Remote_exists C p w of
          Inl e \<Rightarrow> (Inl e, w)
        | Inr True \<Rightarrow> (Inr id, w)
        | Inr False \<Rightarrow> (case Remote_put_bytes C p c w of (Inl e, w') \<Rightarrow> (Inl e, w') | (Inr _, w') \<Rightarrow> (Inr id, w')))"
proof -
  obtain ob where B: "B = \<lparr>bs_store = RemoteBlobStore C, bs_outboard_store = ob\<rparr>" and "ob = None \<or> length c < 2 ^ 16"
    using assms by (auto simp: BlobStore_new_def BlobStore_without_outboard_def)
  then have flag: "\<not> (ob \<noteq> None \<and> push_bit 16 1 \<le> (of_nat (length c) :: u64))"
    by (auto simp: word_le_nat_alt unat_of_nat push_bit_eq_mult)
  let ?p = "blob_path_for_hash (h_codec H) (h_blake3 H c) Remote_features"
  have "BlobStore_import_bytes H B uuid c =
      act_bind (act_read (Remote_exists C ?p)) (\<lambda>ex.
        if ex then act_ok \<lparr>bid_hash = h_blake3 H c, bid_size = of_nat (length c)\<rparr>
        else act_bind (Remote_put_bytes C ?p c) (\<lambda>_. act_ok \<lparr>bid_hash = h_blake3 H c, bid_size = of_nat (length c)\<rparr>))"
    unfolding BlobStore_import_bytes_def import_bytes_def B Let_def blob_store.simps if_not_P[OF flag] remote_ops remote_features(1)
      if_not_P[OF remote_features(2)]
    by (simp add: put_outboard_def act_bind_def act_lift_def act_ok_def fun_eq_iff)
  then show ?thesis
    by (simp add: act_bind_def act_read_def act_ok_def Let_def split: sum.split bool.split prod.split)
qed

text \<open>From 64 KiB on the outboard comes first.\<close>

lemma import_bytes_remote_large:
  assumes "B = BlobStore_new (RemoteBlobStore C)" "2 ^ 16 \<le> length c" "length c < 2 ^ 64" "bao_ok H"
    and "h_create_sized H c (of_nat (length c)) = Inr (root, obao)" "obao \<noteq> []"
    and "Remote_put_bytes C (obao6_path_for_hash (h_codec H) (h_blake3 H c) Remote_features) obao w = (Inl e, w')"
  shows "BlobStore_import_bytes H B uuid c w = (Inl e, w')"
proof -
  have flag: "push_bit 16 1 \<le> (of_nat (length c) :: u64)"
    using assms(2,3) by (simp add: word_le_nat_alt unat_of_nat push_bit_eq_mult)
  have "root = h_blake3 H c" using assms(4,5) unfolding bao_ok_def by blast
  then show ?thesis
    using assms(5-7) flag
    by (simp add: BlobStore_import_bytes_def import_bytes_def assms(1) BlobStore_new_def Let_def compute_outboard_def put_outboard_def remote_ops remote_features(1)
        act_bind_def act_lift_def act_ok_def)
qed

section \<open>Properties\<close>



text \<open>Importing bytes that the server already has for someone else reports success but does not give access: the
  import sees that the blob exists and stops there, so nothing is pinned for the importing node, the server is
  unchanged, and every read of the blob that was just imported gives no bytes.\<close>

theorem remote_import_of_shared_blob_unreadable:
  fixes H shw C names cfgs c w u key node
  defines "S \<equiv> memory_blobs_server H shw C names cfgs"
  defines "B \<equiv> BlobStore_without_outboard (RemoteBlobStore (server_client S u key node))"
  assumes "hash_libs_ok H" "pin_codec_ok C" "pins_ok C (bt_get (snd w))"
    and "BlobsServer_cfg_for S key = Some cfg" "n \<in> set names" "n \<in> set (readable_stores cfg)"
    and "blob_at H (store_on_fst MemoryStore) (\<lambda>w. bt_get (fst w)) w (h_blake3 H c) = Some c" "length c < 2 ^ 64"
    and "NodeId node \<notin> pins_of C (bt_get (snd w)) (h_blake3 H c)"
  shows "BlobStore_import_bytes H B uuid c w = (Inr \<lparr>bid_hash = h_blake3 H c, bid_size = of_nat (length c)\<rparr>, w)
    \<and> BlobStore_read_as_bytes H B (h_blake3 H c) off len w = Inr []"
proof -
  note laws = memory_server.remote_query(1)[where H = H and shw = shw and C = C and names = names and cfgs = cfgs, folded S_def]
    memory_server.remote_read[where H = H and shw = shw and C = C and names = names and cfgs = cfgs, folded S_def]
  have S: "sv_hash S = H" "bt_get (sv_stores S) n \<noteq> None" using assms(7) by (simp_all add: S_def)
  have pc: "path_codec_ok (h_codec H)" using assms(3) by (simp add: hash_libs_ok_def)
  have inv: "pin_codec_ok C \<and> True \<and> pins_ok C (bt_get (snd w))" using assms(4,5) by simp
  note q = laws(1)[unfolded S(1), OF pc TrueI assms(6,8) S(2)]
    and r = laws(2)[unfolded S(1), OF pc TrueI inv assms(6,8) S(2) assms(9,10)]
  show ?thesis
    using import_bytes_remote[OF disjI1[OF refl], of H "server_client S u key node" uuid c w] q[of u node "h_blake3 H c" w]
      r[of u node off len] assms(9,11)
    by (simp add: B_def Let_def BlobStore_read_as_bytes_def read_as_bytes_def BlobStore_without_outboard_def remote_ops)
qed

text \<open>A server that has one blob, pinned by nobody.\<close>

definition demo_shared :: "memory_store \<times> memory_registry" where
  "demo_shared = (bt_insert (blob_path_for_hash demo_codec (arr32 [7]) (st_features MemoryStore)) [7] bt_empty, MemoryRegistry_new)"

lemma demo_shared_blob: "blob_at demo_hashing (store_on_fst MemoryStore) (\<lambda>w. bt_get (fst w)) demo_shared (h_blake3 demo_hashing [7]) = Some [7]"
  by (simp add: demo_shared_def blob_at_def store_on_fst_def) (simp add: demo_hashing_def)

theorem remote_import_of_shared_blob_unreadable_witness:
  "BlobStore_read_as_bytes demo_hashing (BlobStore_without_outboard (RemoteBlobStore (server_client demo_blobs_server ''u'' ''alice'' (fill32 1))))
     (arr32 [7]) 0 None
     (snd (BlobStore_import_bytes demo_hashing (BlobStore_without_outboard (RemoteBlobStore (server_client demo_blobs_server ''u'' ''alice'' (fill32 1))))
       ''t'' [7] demo_shared)) = Inr []"
  using remote_import_of_shared_blob_unreadable[OF demo_hash_libs_ok demo_pin_codec_ok _ demo_peers_cfg(1) _ _ demo_shared_blob,
      where u = "''u''" and node = "fill32 1" and n = "''main''" and uuid = "''t''" and off = 0 and len = None]
  by (simp add: demo_shared_def)

text \<open>A client for a world that has a local part too.\<close>

definition client_on_snd :: "'b blobs_client \<Rightarrow> ('a \<times> 'b) blobs_client" where
  "client_on_snd C =
    \<lparr>cl_hash = cl_hash C, cl_query = \<lambda>q w. cl_query C q (snd w),
     cl_download = \<lambda>h off len w. cl_download C h off len (snd w),
     cl_upload = \<lambda>h sz cs (a, b). apsnd (Pair a) (cl_upload C h sz cs b),
     cl_delete = \<lambda>h (a, b). apsnd (Pair a) (cl_delete C h b), cl_pin = \<lambda>h (a, b). apsnd (Pair a) (cl_pin C h b)\<rparr>"

interpretation memory_on_fst: reliable_store "store_on_fst MemoryStore" "\<lambda>w. bt_get (fst w)" "\<lambda>w. True" "\<lambda>_. True"
  by (rule memory_store.on_fst_reliable)

context reliable_store
begin

lemma import_bytes_elsewhere:
  assumes "\<And>p. good p" "hash_libs_ok H" "inv w" "h \<noteq> h_blake3 H c" "ob = None \<or> ob = Some ops"
  obtains i w' where "BlobStore_import_bytes H \<lparr>bs_store = ops, bs_outboard_store = ob\<rparr> uuid c w = (Inr i, w')"
    "blob_at H ops contents w' h = blob_at H ops contents w h"
proof -
  have libs: "path_codec_ok (h_codec H)" "bao_ok H" "bao_total H" using assms(2) by (simp_all add: hash_libs_ok_def)
  obtain i w' where i: "import_bytes H ops ob uuid c w = (Inr i, w')"
    using is_ok_fstD[OF import_bytes_total[OF assms(1) assms(1) assms(1) libs(1,3) assms(5,3)]] by blast
  have "outboard_frame H ops ob contents inv uuid"
    using assms(5) outboard_frame_same[OF libs(1) assms(1) assms(1) assms(1)] by auto
  from import_bytes_outcome[OF assms(1) assms(1) libs(1,2) this assms(3) i]
  have "blob_at H ops contents w' h = blob_at H ops contents w h"
    using assms(4) by (auto simp: import_outcome_def adds_blob_def)
  with i show thesis by (intro that) (simp add: BlobStore_import_bytes_def)
qed

end

text \<open>Fetching takes what it gets: a peer that may read the server's stores but has not pinned a blob is told that
  the blob exists and is then sent nothing. The fetcher takes the empty answer for the blob; copying it to a local
  store reports success although the store does not have the blob, since the hash is never compared.\<close>

theorem fetch_takes_denied_download_for_blob:
  fixes H shw C names cfgs w u key node name peer
  defines "S \<equiv> memory_blobs_server H shw C names cfgs"
  defines "F \<equiv> with_remote (MultiFetcher_new H shw) name (client_on_snd (server_client S u key node)) peer"
  defines "dest \<equiv> BlobStore_new (store_on_fst MemoryStore)"
  assumes "hash_libs_ok H" "pin_codec_ok C" "pins_ok C (bt_get (snd (snd w)))"
    and "BlobsServer_cfg_for S key = Some cfg" "n \<in> set names" "n \<in> set (readable_stores cfg)"
    and "blob_at H (store_on_fst MemoryStore) (\<lambda>w. bt_get (fst w)) (snd w) h = Some c"
    and "NodeId node \<notin> pins_of C (bt_get (snd (snd w))) h" "h_blake3 H [] \<noteq> h"
    and "blob_at H (store_on_fst MemoryStore) (\<lambda>w. bt_get (fst w)) w h = None"
  shows "fetch F h w = FetchOk [] \<and> (\<exists>w'. fetch_to_store F h dest uuid w = (Inr (), w') \<and> BlobStore_contains H dest h w' = Inr False)"
proof -
  have S: "sv_hash S = H" "bt_get (sv_stores S) n \<noteq> None" using assms(8) by (simp_all add: S_def)
  have inv: "pin_codec_ok C \<and> True \<and> pins_ok C (bt_get (snd (snd w)))" using assms(5,6) by simp
  have "\<exists>n \<in> set (readable_stores cfg). bt_get (sv_stores S) n \<noteq> None" using S(2) assms(9) by blast
  then have q: "qr_exists (handle_query S (Some cfg) \<lparr>q_hash = h, q_location_types = {}, q_blinded = False\<rparr> (snd w))"
    using memory_server.query_stores_law(1)[where H = H and shw = shw and C = C and namesa = names and cfgs = cfgs and w = "snd w"
        and h = h and names = "readable_stores cfg" and resp = QueryResponse_default, folded S_def, unfolded S(1), OF TrueI] assms(10)
    by (simp add: handle_query_def)
  have "is_pinned C MemoryRegistry h (NodeId node) (snd (snd w)) = Inr False"
    using memory_get_internal[OF assms(6), of h] assms(11) by (simp add: is_pinned_def)
  then have d: "handle_download S node (Some cfg) h 0 None (snd w) = []"
    by (simp add: handle_download_def S_def pins_on_snd_def RegistryPinner_def)
  have f: "fetch F h w = FetchOk []"
    using q d assms(7) by (simp add: fetch_def F_def with_remote_def MultiFetcher_new_def client_on_snd_def Client_query_def
        Client_download_bytes_def)
  have dest: "dest = \<lparr>bs_store = store_on_fst MemoryStore, bs_outboard_store = Some (store_on_fst MemoryStore)\<rparr>"
    by (simp add: dest_def BlobStore_new_def)
  have has: "BlobStore_contains H dest h w'' = Inr (blob_at H (store_on_fst MemoryStore) (\<lambda>w. bt_get (fst w)) w'' h \<noteq> None)" for w''
    using memory_on_fst.exists_total[OF TrueI TrueI] by (simp add: dest BlobStore_contains_def contains_def blob_at_def)
  obtain i w' where w': "BlobStore_import_bytes H dest uuid [] w = (Inr i, w')"
    "blob_at H (store_on_fst MemoryStore) (\<lambda>w. bt_get (fst w)) w' h = None"
    using memory_on_fst.import_bytes_elsewhere[OF TrueI assms(4) TrueI assms(12)[symmetric] disjI2[OF refl], of uuid w] assms(13)
    unfolding dest by metis
  have "mf_hash F = H" by (simp add: F_def with_remote_def MultiFetcher_new_def)
  then show ?thesis using f has w' assms(13) by (intro conjI exI[of _ w']) (simp_all add: fetch_to_store_def)
qed

theorem fetch_takes_denied_download_for_blob_witness:
  "fetch (with_remote (MultiFetcher_new demo_hashing (\<lambda>_. ''error'')) ''n'' (client_on_snd (server_client demo_blobs_server ''u'' ''bob'' (fill32 2))) (fill32 9))
     (arr32 [7]) (MemoryStore_new, demo_shared) = FetchOk []"
proof -
  have "arr32 [] \<noteq> arr32 [7]" by (auto dest!: arg_cong[of _ _ "\<lambda>a. arr_list a ! 0"] simp: arr_list_arr32)
  then show ?thesis
    using fetch_takes_denied_download_for_blob[OF demo_hash_libs_ok demo_pin_codec_ok _ demo_peers_cfg(2),
        where w = "(MemoryStore_new, demo_shared)" and n = "''main''" and h = "arr32 [7]" and c = "[7]" and u = "''u''" and node = "fill32 2"]
      demo_shared_blob
    by (simp add: demo_shared_def)
qed

text \<open>The fetcher answers that a blob is nowhere only when every source says so, and reports the errors it met otherwise.\<close>

lemma fetch_loop_not_found:
  "fetch_loop F srcs h w es = FetchNotFound \<longleftrightarrow> es = [] \<and> (\<forall>s \<in> set srcs. try_fetch_from F s h w = Inr None)"
  by (induction srcs arbitrary: es) (auto split: sum.splits option.splits)

lemma fetch_not_found_iff:
  "fetch F h w = FetchNotFound \<longleftrightarrow> (\<forall>s \<in> set (mf_sources F). try_fetch_from F s h w = Inr None)"
  by (simp add: fetch_def fetch_loop_not_found)

end
