(* ===== verification/Client_Keys.thy ===== *)
theory Client_Keys
  imports Blob_Id
begin

text \<open>
  Encryption and keys of a client: \<^verbatim>\<open>bindings/s5_client/src/crypto.rs\<close>, \<^verbatim>\<open>bindings/s5_client/src/keys.rs\<close> and
  \<^verbatim>\<open>derive_sync_keys\<close> of \<^verbatim>\<open>s5_fs/src/lib.rs\<close>. XChaCha20-Poly1305, BLAKE3 with its key derivation, Ed25519, BIP39 and
  the hexadecimal printer are third-party crates, the fields of \<open>client_crypto\<close>; random draws are arguments, with
  \<open>None\<close> for a generator that fails.
\<close>

section \<open>Encryption\<close>

record client_crypto =
  cc_blake3 :: "bytes \<Rightarrow> bytes32"
  cc_derive_key :: "string \<Rightarrow> bytes \<Rightarrow> bytes32"
  cc_encrypt :: "bytes32 \<Rightarrow> bytes \<Rightarrow> bytes \<Rightarrow> bytes option"
  cc_decrypt :: "bytes32 \<Rightarrow> bytes \<Rightarrow> bytes \<Rightarrow> bytes option"
  cc_public_key :: "bytes32 \<Rightarrow> bytes32"
  cc_parse_mnemonic :: "string \<Rightarrow> string + string list"
  cc_to_seed :: "string list \<Rightarrow> string \<Rightarrow> bytes"
  cc_words :: "string list \<Rightarrow> string"
  cc_hex :: "bytes \<Rightarrow> string"

text \<open>An authenticated cipher gives back what it encrypted under the same key and nonce.\<close>

definition cipher_ok :: "client_crypto \<Rightarrow> bool" where
  "cipher_ok X \<longleftrightarrow> (\<forall>key nonce text out. cc_encrypt X key nonce text = Some out \<longrightarrow> cc_decrypt X key nonce out = Some text)"

datatype crypto_error = InvalidKeyLength | DataTooShort nat | EncryptionFailed | DecryptionFailed | RngFailed

definition hash_blake3 :: "client_crypto \<Rightarrow> bytes \<Rightarrow> bytes32" where
  "hash_blake3 X data = cc_blake3 X data"

definition generate_key :: "bytes32 option \<Rightarrow> crypto_error + bytes32" where
  "generate_key drawn = (case drawn of None \<Rightarrow> Inl RngFailed | Some key \<Rightarrow> Inr key)"

definition encrypt_xchacha20poly1305_with_nonce ::
  "client_crypto \<Rightarrow> bytes \<Rightarrow> bytes \<Rightarrow> bytes \<Rightarrow> crypto_error + bytes" where
  "encrypt_xchacha20poly1305_with_nonce X key nonce plaintext =
    (if length key \<noteq> 32 then Inl InvalidKeyLength
     else case cc_encrypt X (arr32 key) nonce plaintext of None \<Rightarrow> Inl EncryptionFailed | Some c \<Rightarrow> Inr c)"

definition encrypt_xchacha20poly1305 ::
  "client_crypto \<Rightarrow> bytes \<Rightarrow> bytes \<Rightarrow> bytes option \<Rightarrow> crypto_error + bytes" where
  "encrypt_xchacha20poly1305 X key plaintext drawn_nonce =
    (if length key \<noteq> 32 then Inl InvalidKeyLength
     else case drawn_nonce of
       None \<Rightarrow> Inl RngFailed
     | Some nonce \<Rightarrow>
        (case cc_encrypt X (arr32 key) nonce plaintext of None \<Rightarrow> Inl EncryptionFailed | Some c \<Rightarrow> Inr (nonce @ c)))"

definition decrypt_xchacha20poly1305_with_nonce ::
  "client_crypto \<Rightarrow> bytes \<Rightarrow> bytes \<Rightarrow> bytes \<Rightarrow> crypto_error + bytes" where
  "decrypt_xchacha20poly1305_with_nonce X key nonce ciphertext =
    (if length key \<noteq> 32 then Inl InvalidKeyLength
     else case cc_decrypt X (arr32 key) nonce ciphertext of None \<Rightarrow> Inl DecryptionFailed | Some p \<Rightarrow> Inr p)"

definition decrypt_xchacha20poly1305 :: "client_crypto \<Rightarrow> bytes \<Rightarrow> bytes \<Rightarrow> crypto_error + bytes" where
  "decrypt_xchacha20poly1305 X key data =
    (if length key \<noteq> 32 then Inl InvalidKeyLength
     else if length data < 24 then Inl (DataTooShort 24)
     else case cc_decrypt X (arr32 key) (take 24 data) (drop 24 data) of None \<Rightarrow> Inl DecryptionFailed | Some p \<Rightarrow> Inr p)"

definition chunk_nonce :: "u64 \<Rightarrow> bytes" where
  "chunk_nonce chunk_index = le_bytes 8 chunk_index @ replicate 16 0"

definition decrypt_chunk :: "client_crypto \<Rightarrow> bytes \<Rightarrow> u64 \<Rightarrow> bytes \<Rightarrow> crypto_error + bytes" where
  "decrypt_chunk X key chunk_index ciphertext =
    (if length key \<noteq> 32 then Inl InvalidKeyLength
     else decrypt_xchacha20poly1305_with_nonce X key (chunk_nonce chunk_index) ciphertext)"

definition encrypt_chunk :: "client_crypto \<Rightarrow> bytes \<Rightarrow> u64 \<Rightarrow> bytes \<Rightarrow> crypto_error + bytes" where
  "encrypt_chunk X key chunk_index plaintext =
    (if length key \<noteq> 32 then Inl InvalidKeyLength
     else encrypt_xchacha20poly1305_with_nonce X key (chunk_nonce chunk_index) plaintext)"

section \<open>Keys\<close>

datatype key_error = InvalidMnemonic string | InvalidRootSecret

text \<open>\<^verbatim>\<open>s5_fs::derive_sync_keys\<close>: the encryption key, the signing key and its public key.\<close>

definition derive_sync_keys :: "client_crypto \<Rightarrow> bytes \<Rightarrow> bytes32 \<times> bytes32 \<times> bytes32" where
  "derive_sync_keys X secret =
    (let encryption_key = cc_derive_key X ''s5/fs/sync/xchacha20'' secret;
         signing_key_bytes = cc_derive_key X ''s5/fs/sync/ed25519'' secret
     in (encryption_key, signing_key_bytes, cc_public_key X signing_key_bytes))"

record sync_keys =
  sk_encryption_key :: bytes32
  sk_signing_key_bytes :: bytes32
  sk_public_key :: bytes32

definition SyncKeys_derive :: "client_crypto \<Rightarrow> bytes32 \<Rightarrow> sync_keys" where
  "SyncKeys_derive X fs_root_secret =
    (case derive_sync_keys X (arr_list fs_root_secret) of (e, s, p) \<Rightarrow>
       \<lparr>sk_encryption_key = e, sk_signing_key_bytes = s, sk_public_key = p\<rparr>)"

definition SyncKeys_public_key_hex :: "client_crypto \<Rightarrow> sync_keys \<Rightarrow> string" where
  "SyncKeys_public_key_hex X self = cc_hex X (arr_list (sk_public_key self))"

record derived_keys =
  dk_root_secret :: bytes32
  dk_fs_root_secret :: bytes32
  dk_sync_keys :: sync_keys
  dk_iroh_secret_key :: bytes32

definition from_root_secret_array :: "client_crypto \<Rightarrow> bytes32 \<Rightarrow> derived_keys" where
  "from_root_secret_array X root_secret =
    (let fs_root_secret = cc_derive_key X ''s5/fs/root'' (arr_list root_secret);
         sync_keys = SyncKeys_derive X fs_root_secret;
         iroh_secret_key = cc_derive_key X ''s5/iroh/node'' (arr_list root_secret)
     in \<lparr>dk_root_secret = root_secret, dk_fs_root_secret = fs_root_secret, dk_sync_keys = sync_keys,
         dk_iroh_secret_key = iroh_secret_key\<rparr>)"

definition from_seed_bytes :: "client_crypto \<Rightarrow> bytes \<Rightarrow> derived_keys" where
  "from_seed_bytes X seed = from_root_secret_array X (cc_derive_key X ''s5/root'' seed)"

definition from_seed_phrase :: "client_crypto \<Rightarrow> string \<Rightarrow> key_error + derived_keys" where
  "from_seed_phrase X phrase =
    (case cc_parse_mnemonic X phrase of
       Inl e \<Rightarrow> Inl (InvalidMnemonic e)
     | Inr mnemonic \<Rightarrow> Inr (from_seed_bytes X (cc_to_seed X mnemonic '''')))"

definition from_root_secret :: "client_crypto \<Rightarrow> bytes \<Rightarrow> key_error + derived_keys" where
  "from_root_secret X root_secret =
    (if length root_secret \<noteq> 32 then Inl InvalidRootSecret else Inr (from_root_secret_array X (arr32 root_secret)))"

definition root_secret_hex :: "client_crypto \<Rightarrow> derived_keys \<Rightarrow> string" where
  "root_secret_hex X self = cc_hex X (arr_list (dk_root_secret self))"

definition DerivedKeys_public_key_hex :: "client_crypto \<Rightarrow> derived_keys \<Rightarrow> string" where
  "DerivedKeys_public_key_hex X self = SyncKeys_public_key_hex X (dk_sync_keys self)"

definition iroh_secret_key_hex :: "client_crypto \<Rightarrow> derived_keys \<Rightarrow> string" where
  "iroh_secret_key_hex X self = cc_hex X (arr_list (dk_iroh_secret_key self))"

definition generate_seed_phrase :: "client_crypto \<Rightarrow> string + string list \<Rightarrow> key_error + string" where
  "generate_seed_phrase X generated =
    (case generated of Inl e \<Rightarrow> Inl (InvalidMnemonic e) | Inr mnemonic \<Rightarrow> Inr (cc_words X mnemonic))"

definition validate_seed_phrase :: "client_crypto \<Rightarrow> string \<Rightarrow> bool" where
  "validate_seed_phrase X phrase = is_ok (cc_parse_mnemonic X phrase)"

definition recover_root_secret_hex :: "client_crypto \<Rightarrow> string \<Rightarrow> key_error + string" where
  "recover_root_secret_hex X phrase =
    (case from_seed_phrase X phrase of Inl e \<Rightarrow> Inl e | Inr keys \<Rightarrow> Inr (root_secret_hex X keys))"

section \<open>Round trips\<close>

lemma client_decrypt_encrypt:
  assumes "cipher_ok X" "length nonce = 24" "encrypt_xchacha20poly1305 X key text (Some nonce) = Inr data"
  shows "decrypt_xchacha20poly1305 X key data = Inr text"
  using assms
  by (auto simp: encrypt_xchacha20poly1305_def decrypt_xchacha20poly1305_def cipher_ok_def split: if_splits option.splits)

lemma decrypt_encrypt_chunk:
  assumes "cipher_ok X" "encrypt_chunk X key i text = Inr data"
  shows "decrypt_chunk X key i data = Inr text"
  using assms
  by (auto simp: encrypt_chunk_def decrypt_chunk_def encrypt_xchacha20poly1305_with_nonce_def
      decrypt_xchacha20poly1305_with_nonce_def cipher_ok_def split: if_splits option.splits)

text \<open>No two chunks of a file share a nonce.\<close>

lemma chunk_nonce_inject [simp]: "chunk_nonce i = chunk_nonce j \<longleftrightarrow> i = j"
proof
  assume "chunk_nonce i = chunk_nonce j"
  then have "le_bytes 8 i = le_bytes 8 j" by (simp add: chunk_nonce_def)
  then show "i = j" by (metis u64_bytes_roundtrip)
qed simp

text \<open>A stored root secret gives back the keys of the seed phrase it came from.\<close>

lemma root_secret_recovers_keys:
  "from_seed_phrase X phrase = Inr keys \<Longrightarrow> from_root_secret X (arr_list (dk_root_secret keys)) = Inr keys"
  by (auto simp: from_seed_phrase_def from_seed_bytes_def from_root_secret_def from_root_secret_array_def Let_def
      split: sum.splits)

lemma recover_root_secret_hex_iff: "is_ok (recover_root_secret_hex X phrase) = validate_seed_phrase X phrase"
  by (auto simp: recover_root_secret_hex_def validate_seed_phrase_def from_seed_phrase_def is_ok_iff split: sum.splits)

end
