(* ===== verification/S5_Client.thy ===== *)
theory S5_Client
  imports Fs_Api Blobs_Client Client_Keys
begin

text \<open>
  The storage clients of the browser (\<^verbatim>\<open>bindings/s5_wasm/src/client.rs\<close>, \<^verbatim>\<open>bindings/s5_wasm/src/lib.rs\<close>) and of Flutter
  (\<^verbatim>\<open>bindings/s5_flutter/src/api.rs\<close>). The two have the same operations and differ in their error types, their
  error texts and the width of \<^verbatim>\<open>usize\<close>; the operations are defined once over a table \<open>client_target\<close> of these
  differences, and \<open>wasm_target\<close> and \<open>flutter_target\<close> are the two tables. The iroh endpoint, the clock, the random
  generator and the JSON serialiser are parameters.
\<close>

section \<open>Constants and errors\<close>

definition INLINE_BLOB_THRESHOLD :: nat where
  "INLINE_BLOB_THRESHOLD = 4096"

definition ENCRYPTION_BLOCK_SIZE :: u64 where
  "ENCRYPTION_BLOCK_SIZE = 256 * 1024"

fun crypto_error_text :: "crypto_error \<Rightarrow> string" where
  "crypto_error_text InvalidKeyLength = ''Invalid key length: expected 32 bytes''"
| "crypto_error_text (DataTooShort n) = ''Data too short: expected at least '' @ show_nat n @ '' bytes''"
| "crypto_error_text EncryptionFailed = ''Encryption failed''"
| "crypto_error_text DecryptionFailed = ''Decryption failed: invalid ciphertext or wrong key''"
| "crypto_error_text RngFailed = ''Random number generation failed''"

fun key_error_text :: "key_error \<Rightarrow> string" where
  "key_error_text (InvalidMnemonic e) = ''Invalid mnemonic: '' @ e"
| "key_error_text InvalidRootSecret = ''Invalid root secret: must be 32 bytes''"

text \<open>What differs between the two clients: the bits of a \<^verbatim>\<open>usize\<close>, the text of an \<^verbatim>\<open>anyhow\<close> error, the serialiser and
  the errors. A panic is the value \<open>ct_panic\<close>.\<close>

record ('e, 'j) client_target =
  ct_usize_bits :: nat
  ct_show :: "error \<Rightarrow> string"
  ct_json :: "file_ref \<Rightarrow> 'e + 'j"
  ct_not_connected :: 'e
  ct_no_blobs_client :: 'e
  ct_storage :: "string \<Rightarrow> 'e"
  ct_crypto :: "string \<Rightarrow> 'e"
  ct_invalid :: "string \<Rightarrow> 'e"
  ct_not_found :: "string \<Rightarrow> 'e"
  ct_no_key :: 'e
  ct_upload_failed :: "string \<Rightarrow> 'e"
  ct_bad_location :: "blob_location \<Rightarrow> 'e"
  ct_panic :: 'e

text \<open>What a client holds once it is connected.\<close>

record 'w connection =
  cn_blobs :: "'w blobs_client option"
  cn_fs :: "'w fs5 option"

type_synonym ('w, 'e, 'a) client_op = "'w \<Rightarrow> ('e + 'a) \<times> 'w"

text \<open>\<^verbatim>\<open>ok_or_else\<close> on the file system, and \<^verbatim>\<open>map_err\<close> on one of its operations.\<close>

definition with_fs :: "('e, 'j) client_target \<Rightarrow> 'w connection \<Rightarrow> ('w fs5 \<Rightarrow> ('w, 'e, 'a) client_op) \<Rightarrow> ('w, 'e, 'a) client_op" where
  "with_fs T cn f w = (case cn_fs cn of None \<Rightarrow> (Inl (ct_not_connected T), w) | Some fs \<Rightarrow> f fs w)"

definition or_storage :: "('e, 'j) client_target \<Rightarrow> string \<Rightarrow> ('w, 'a) action \<Rightarrow> ('a \<Rightarrow> ('w, 'e, 'b) client_op) \<Rightarrow> ('w, 'e, 'b) client_op" where
  "or_storage T what m k w =
    (case m w of (Inl e, w) \<Rightarrow> (Inl (ct_storage T (what @ ct_show T e)), w) | (Inr x, w) \<Rightarrow> k x w)"

section \<open>Directories\<close>

definition is_root_path :: "string \<Rightarrow> bool" where
  "is_root_path path \<longleftrightarrow> path = [] \<or> path = ''/''"

definition full_path :: "string \<Rightarrow> string \<Rightarrow> string" where
  "full_path path name = (if is_root_path path then name else path @ ''/'' @ name)"

text \<open>The loop over the entries of a listing: the files that are still there, and the directory names.\<close>

fun collect_entries ::
  "'w fs5 \<Rightarrow> string \<Rightarrow> (string \<times> cursor_kind) list \<Rightarrow> 'w \<Rightarrow> ((string \<times> file_ref) list \<times> string list) \<times> 'w" where
  "collect_entries fs path [] w = (([], []), w)"
| "collect_entries fs path ((name, CursorFile) # entries) w =
    (case FS5_file_get fs (full_path path name) w of (f, w) \<Rightarrow>
     case collect_entries fs path entries w of ((fs', ds), w) \<Rightarrow>
       (((case f of Some file_ref \<Rightarrow> [(name, file_ref)] | None \<Rightarrow> []) @ fs', ds), w))"
| "collect_entries fs path ((name, CursorDirectory) # entries) w =
    (case collect_entries fs path entries w of ((fs', ds), w) \<Rightarrow> ((fs', name # ds), w))"

definition client_list_directory ::
  "('e, 'j) client_target \<Rightarrow> 'w connection \<Rightarrow> string \<Rightarrow> ('w, 'e, (string \<times> file_ref) list \<times> string list) client_op" where
  "client_list_directory T cn path =
    with_fs T cn (\<lambda>fs.
      or_storage T ''Failed to list directory: ''
        (if is_root_path path then FS5_list fs None 1000 else FS5_list_at fs path None 1000)
        (\<lambda>(entries, cursor) w. case collect_entries fs path entries w of (l, w) \<Rightarrow> (Inr l, w)))"

definition client_file_get ::
  "('e, 'j) client_target \<Rightarrow> 'w connection \<Rightarrow> string \<Rightarrow> ('w, 'e, 'j option) client_op" where
  "client_file_get T cn path =
    with_fs T cn (\<lambda>fs w. case FS5_file_get fs path w of
      (None, w) \<Rightarrow> (Inr None, w)
    | (Some file_ref, w) \<Rightarrow> ((case ct_json T file_ref of Inl e \<Rightarrow> Inl e | Inr j \<Rightarrow> Inr (Some j)), w))"

definition client_file_exists :: "('e, 'j) client_target \<Rightarrow> 'w connection \<Rightarrow> string \<Rightarrow> ('w, 'e, bool) client_op" where
  "client_file_exists T cn path = with_fs T cn (\<lambda>fs w. apfst Inr (FS5_file_exists fs path w))"

definition client_create_directory :: "('e, 'j) client_target \<Rightarrow> 'w connection \<Rightarrow> string \<Rightarrow> ('w, 'e, unit) client_op" where
  "client_create_directory T cn path =
    with_fs T cn (\<lambda>fs.
      or_storage T ''Failed to create directory: '' (FS5_create_dir fs path True) (\<lambda>_.
      or_storage T ''Failed to save: '' (FS5_save fs) (\<lambda>_ w. (Inr (), w))))"

definition client_delete_file ::
  "('e, 'j) client_target \<Rightarrow> 'w connection \<Rightarrow> string \<Rightarrow> u32 \<Rightarrow> u32 \<Rightarrow> ('w, 'e, unit) client_op" where
  "client_delete_file T cn path now_s now_ns =
    with_fs T cn (\<lambda>fs.
      or_storage T ''Failed to delete file: '' (FS5_file_delete fs path now_s now_ns) (\<lambda>_.
      or_storage T ''Failed to save: '' (FS5_save fs) (\<lambda>_ w. (Inr (), w))))"

section \<open>Uploading\<close>

text \<open>\<^verbatim>\<open>chunks\<close> of a slice.\<close>

function chunks_of :: "nat \<Rightarrow> 'a list \<Rightarrow> 'a list list" where
  "chunks_of n xs = (if xs = [] \<or> n = 0 then [] else take n xs # chunks_of n (drop n xs))"
  by pat_completeness auto
termination
  by (relation "measure (\<lambda>(n, xs). length xs)") (auto simp: length_greater_0_conv[symmetric] simp del: length_greater_0_conv)

declare chunks_of.simps [simp del]

fun encrypt_chunks :: "client_crypto \<Rightarrow> bytes \<Rightarrow> nat \<Rightarrow> bytes list \<Rightarrow> crypto_error + bytes list" where
  "encrypt_chunks X key chunk_index [] = Inr []"
| "encrypt_chunks X key chunk_index (chunk # rest) =
    res_bind (encrypt_chunk X key (of_nat chunk_index) chunk) (\<lambda>encrypted_chunk.
    res_bind (encrypt_chunks X key (Suc chunk_index) rest) (\<lambda>encrypted_chunks.
    Inr (encrypted_chunk # encrypted_chunks)))"

definition encrypted_size :: "nat \<Rightarrow> nat" where
  "encrypted_size content_len =
    (let block_size = unat ENCRYPTION_BLOCK_SIZE;
         overhead = 16;
         num_full_blocks = content_len div block_size;
         last_block_size = content_len mod block_size
     in if last_block_size > 0 then num_full_blocks * (block_size + overhead) + (last_block_size + overhead)
        else if num_full_blocks > 0 then num_full_blocks * (block_size + overhead)
        else 0)"

text \<open>Assignments to fields of a \<^verbatim>\<open>FileRef\<close>.\<close>

fun set_media_type :: "string \<Rightarrow> file_ref \<Rightarrow> file_ref" where
  "set_media_type m (FileRef t h s ts ns l _ wa e p c f) = FileRef t h s ts ns l (Some m) wa e p c f"

fun set_locations :: "blob_location list \<Rightarrow> file_ref \<Rightarrow> file_ref" where
  "set_locations l (FileRef t h s ts ns _ m wa e p c f) = FileRef t h s ts ns (Some l) m wa e p c f"

text \<open>The reference to a file whose encrypted contents are stored under \<open>encrypted_hash\<close>.\<close>

definition encrypted_file_ref :: "hashing \<Rightarrow> bytes \<Rightarrow> string \<Rightarrow> bytes32 \<Rightarrow> hash \<Rightarrow> file_ref" where
  "encrypted_file_ref H content media_type key encrypted_hash =
    set_locations [EncryptionXChaCha20Poly1305 (MultihashBlake3 encrypted_hash) key ENCRYPTION_BLOCK_SIZE]
      (set_media_type media_type (FileRef_new (h_blake3 H content) (of_nat (length content))))"

text \<open>The key drawn from the random generator is an argument, \<open>None\<close> when it fails. The chunks are all sent before the
  answer is awaited; the number of the chunk in the message of a failed send is left out.\<close>

definition client_upload_encrypted_blob ::
  "('e, 'j) client_target \<Rightarrow> client_crypto \<Rightarrow> hashing \<Rightarrow> 'w connection \<Rightarrow> bytes32 option \<Rightarrow> bytes \<Rightarrow> string
   \<Rightarrow> ('w, 'e, file_ref) client_op" where
  "client_upload_encrypted_blob T X H cn drawn_key content media_type w =
    (case cn_blobs cn of
       None \<Rightarrow> (Inl (ct_no_blobs_client T), w)
     | Some client \<Rightarrow>
        (case drawn_key of
           None \<Rightarrow> (Inl (ct_no_key T), w)
         | Some key \<Rightarrow>
            (case encrypt_chunks X (arr_list key) 0 (chunks_of (unat ENCRYPTION_BLOCK_SIZE) content) of
               Inl e \<Rightarrow> (Inl (ct_crypto T (''Encryption failed: '' @ crypto_error_text e)), w)
             | Inr encrypted_chunks \<Rightarrow>
                (let encrypted_hash = h_blake3 H (concat encrypted_chunks)
                 in case cl_upload client encrypted_hash (of_nat (encrypted_size (length content))) encrypted_chunks w of
                      (Inl (BeginFailed e), w) \<Rightarrow> (Inl (ct_storage T (''Upload begin failed: '' @ e)), w)
                    | (Inl (SendFailed e), w) \<Rightarrow> (Inl (ct_storage T (''Failed to send chunk: '' @ e)), w)
                    | (Inl (ResponseFailed e), w) \<Rightarrow> (Inl (ct_upload_failed T e), w)
                    | (Inr (Inl err), w) \<Rightarrow> (Inl (ct_storage T (''Upload rejected: '' @ err)), w)
                    | (Inr (Inr _), w) \<Rightarrow> (Inr (encrypted_file_ref H content media_type key encrypted_hash), w)))))"

definition client_upload_file ::
  "('e, 'j) client_target \<Rightarrow> client_crypto \<Rightarrow> hashing \<Rightarrow> 'w connection \<Rightarrow> bytes32 option \<Rightarrow> u32 \<Rightarrow> u32
   \<Rightarrow> string \<Rightarrow> string \<Rightarrow> bytes \<Rightarrow> string \<Rightarrow> ('w, 'e, 'j) client_op" where
  "client_upload_file T X H cn drawn_key now_secs now_nanos path filename content media_type =
    with_fs T cn (\<lambda>fs w.
      case (if length content \<le> INLINE_BLOB_THRESHOLD
            then (Inr (set_media_type media_type (FileRef_new_inline_blob (h_blake3 H) content)), w)
            else client_upload_encrypted_blob T X H cn drawn_key content media_type w) of
        (Inl e, w) \<Rightarrow> (Inl e, w)
      | (Inr file_ref, w) \<Rightarrow>
         (let file_ref = set_timestamp now_secs now_nanos file_ref
          in or_storage T ''Failed to put file: '' (FS5_file_put_sync fs (full_path path filename) file_ref) (\<lambda>_.
             or_storage T ''Failed to save: '' (FS5_save fs) (\<lambda>_ w. (ct_json T file_ref, w))) w))"

section \<open>Downloading\<close>

fun client_extract_hash :: "('e, 'j) client_target \<Rightarrow> blob_location \<Rightarrow> 'e + hash" where
  "client_extract_hash T (MultihashBlake3 hash) = Inr (Hash_from_bytes hash)"
| "client_extract_hash T (EncryptionXChaCha20Poly1305 inner key block_size) = client_extract_hash T inner"
| "client_extract_hash T loc = Inl (ct_bad_location T loc)"

text \<open>The decryption loop, with the arithmetic of \<^verbatim>\<open>usize\<close>: a block size that wraps can make a slice whose end lies
  before its start, which panics, or one that does not advance; \<open>None\<close> is a loop that never ends.\<close>

partial_function (option) decrypt_loop ::
  "('e, 'j) client_target \<Rightarrow> client_crypto \<Rightarrow> bytes \<Rightarrow> nat \<Rightarrow> bytes \<Rightarrow> nat \<Rightarrow> u64 \<Rightarrow> bytes \<Rightarrow> ('e + bytes) option" where
  "decrypt_loop T X key encrypted_block_size encrypted_bytes offset chunk_index plaintext =
    (if offset < length encrypted_bytes then
       let end = min ((offset + encrypted_block_size) mod 2 ^ ct_usize_bits T) (length encrypted_bytes)
       in if end < offset then Some (Inl (ct_panic T))
          else
            case decrypt_chunk X key chunk_index (take (end - offset) (drop offset encrypted_bytes)) of
              Inl e \<Rightarrow> Some (Inl (ct_crypto T (''Decryption failed at chunk '' @ show_nat (unat chunk_index) @ '': '' @ crypto_error_text e)))
            | Inr decrypted \<Rightarrow>
                decrypt_loop T X key encrypted_block_size encrypted_bytes end (chunk_index + 1) (plaintext @ decrypted)
     else Some (Inr plaintext))"

definition client_download_encrypted_blob ::
  "('e, 'j) client_target \<Rightarrow> client_crypto \<Rightarrow> 'w connection \<Rightarrow> blob_location \<Rightarrow> bytes32 \<Rightarrow> u64 \<Rightarrow> 'w \<Rightarrow> ('e + bytes) option" where
  "client_download_encrypted_blob T X cn inner key bsz w =
    (case cn_blobs cn of
       None \<Rightarrow> Some (Inl (ct_no_blobs_client T))
     | Some client \<Rightarrow>
        (case client_extract_hash T inner of
           Inl e \<Rightarrow> Some (Inl e)
         | Inr hash \<Rightarrow>
            (case Client_download_bytes client hash 0 None w of
               Inl e \<Rightarrow> Some (Inl (ct_storage T (''Download failed: '' @ e)))
             | Inr encrypted_bytes \<Rightarrow>
                (let block_size = unat bsz mod 2 ^ ct_usize_bits T
                 in if block_size = 0 then Some (Inl (ct_crypto T ''Invalid block size: 0''))
                    else decrypt_loop T X (arr_list key) ((block_size + 16) mod 2 ^ ct_usize_bits T) encrypted_bytes 0 0 []))))"

text \<open>The first location that holds or leads to the contents.\<close>

fun client_from_locations ::
  "('e, 'j) client_target \<Rightarrow> client_crypto \<Rightarrow> 'w connection \<Rightarrow> blob_location list \<Rightarrow> 'w \<Rightarrow> ('e + bytes) option option" where
  "client_from_locations T X cn [] w = None"
| "client_from_locations T X cn (IdentityRawBinary data # locs) w = Some (Some (Inr data))"
| "client_from_locations T X cn (EncryptionXChaCha20Poly1305 inner key block_size # locs) w =
    Some (client_download_encrypted_blob T X cn inner key block_size w)"
| "client_from_locations T X cn (loc # locs) w = client_from_locations T X cn locs w"

definition client_download_file ::
  "('e, 'j) client_target \<Rightarrow> client_crypto \<Rightarrow> 'w connection \<Rightarrow> string \<Rightarrow> 'w \<Rightarrow> ('e + bytes) option \<times> 'w" where
  "client_download_file T X cn path w =
    (case cn_fs cn of
       None \<Rightarrow> (Some (Inl (ct_not_connected T)), w)
     | Some fs \<Rightarrow>
        (case FS5_file_get fs path w of
           (None, w) \<Rightarrow> (Some (Inl (ct_not_found T path)), w)
         | (Some file_ref, w) \<Rightarrow>
            ((case client_from_locations T X cn (case fr_locations file_ref of None \<Rightarrow> [] | Some locs \<Rightarrow> locs) w of
                Some r \<Rightarrow> r
              | None \<Rightarrow>
                 (case cn_blobs cn of
                    None \<Rightarrow> Some (Inl (ct_panic T))
                  | Some client \<Rightarrow>
                     (case Client_download_bytes client (Hash_from_bytes (fr_hash file_ref)) 0 None w of
                        Inl e \<Rightarrow> Some (Inl (ct_storage T (''Download failed: '' @ e)))
                      | Inr bs \<Rightarrow> Some (Inr bs)))), w)))"

text \<open>The hexadecimal decoder is a parameter.\<close>

definition client_download_blob ::
  "('e, 'j) client_target \<Rightarrow> 'e \<Rightarrow> (string \<Rightarrow> string + bytes) \<Rightarrow> 'w connection \<Rightarrow> string \<Rightarrow> 'w \<Rightarrow> 'e + bytes" where
  "client_download_blob T not_connected hex_decode cn hash_hex w =
    (case cn_blobs cn of
       None \<Rightarrow> Inl not_connected
     | Some client \<Rightarrow>
        (case hex_decode hash_hex of
           Inl e \<Rightarrow> Inl (ct_invalid T (''Invalid hash hex: '' @ e))
         | Inr hash_bytes \<Rightarrow>
            if length hash_bytes \<noteq> 32 then Inl (ct_invalid T ''Hash must be 32 bytes'')
            else
              (case Client_download_bytes client (Hash_from_bytes (arr32 hash_bytes)) 0 None w of
                 Inl e \<Rightarrow> Inl (ct_storage T (''Download failed: '' @ e))
               | Inr bs \<Rightarrow> Inr bs)))"

definition client_test_connection :: "'e \<Rightarrow> (string \<Rightarrow> 'e) \<Rightarrow> 'w connection \<Rightarrow> 'w \<Rightarrow> 'e + string" where
  "client_test_connection not_connected query_failed cn w =
    (case cn_blobs cn of
       None \<Rightarrow> Inl not_connected
     | Some client \<Rightarrow>
        (case Client_query client (Hash_from_bytes (fill32 0)) {} w of
           Inl e \<Rightarrow> Inl (query_failed (''Query failed: '' @ e))
         | Inr resp \<Rightarrow> Inr (''Connection OK - '' @ show_nat (length (qr_locations resp)) @ '' locations'')))"

section \<open>Connecting\<close>

text \<open>The iroh crate: binding an endpoint with a secret key, the text of the public key, parsing a node id, and the clients
  an endpoint opens to a node. The actor of a file system is started on a blob store and a registry.\<close>

record ('w, 'ep) iroh_net =
  ir_bind :: "bytes32 \<Rightarrow> string + 'ep"
  ir_public :: "bytes32 \<Rightarrow> string"
  ir_parse_id :: "string \<Rightarrow> string + bytes32"
  ir_blobs :: "'ep \<Rightarrow> bytes32 \<Rightarrow> 'w blobs_client"
  ir_registry :: "'ep \<Rightarrow> bytes32 \<Rightarrow> 'w registry_peer"
  ir_start :: "'w blob_store \<Rightarrow> 'w registry \<Rightarrow> dir_context \<Rightarrow> dir_v1 option \<Rightarrow> u64 option \<Rightarrow> 'w dir_handle"

text \<open>The file system of a connected client: its root is the registry key of the user, its blobs and its registry are those
  of the remote node.\<close>

definition client_context :: "derived_keys \<Rightarrow> dir_context" where
  "client_context keys =
    DirContext_new_encrypted_registry (PublicKeyEd25519 (sk_public_key (dk_sync_keys keys)))
      (sk_signing_key_bytes (dk_sync_keys keys)) (sk_encryption_key (dk_sync_keys keys))"

definition client_open_fs :: "('w, 'ep) iroh_net \<Rightarrow> derived_keys \<Rightarrow> 'w blobs_client \<Rightarrow> 'w registry_peer \<Rightarrow> 'w fs5" where
  "client_open_fs N keys blobs_client peer =
    FS5_open (ir_start N (BlobStore_new (RemoteBlobStore blobs_client)) (RemoteRegistry peer)) (client_context keys)"

section \<open>The browser client\<close>

record ('w, 'ep) s5_client =
  sc_keys :: derived_keys
  sc_remote_node_id :: string
  sc_endpoint :: "'ep option"
  sc_blobs_client :: "'w blobs_client option"
  sc_fs :: "'w fs5 option"

text \<open>A \<^verbatim>\<open>JsError\<close> is its text; \<^verbatim>\<open>usize\<close> has 32 bits. The texts of a location type, of the random generator and of a panic
  are left out.\<close>

definition wasm_target :: "(error \<Rightarrow> string) \<Rightarrow> (file_ref \<Rightarrow> string + 'j) \<Rightarrow> (string, 'j) client_target" where
  "wasm_target shw to_value =
    \<lparr>ct_usize_bits = 32, ct_show = shw, ct_json = \<lambda>f. map_err (\<lambda>e. ''Failed to serialize FileRef: '' @ e) (to_value f),
     ct_not_connected = ''Not connected. Call connect() first.'', ct_no_blobs_client = ''Not connected'',
     ct_storage = id, ct_crypto = id, ct_invalid = id, ct_not_found = \<lambda>path. ''File not found: '' @ path,
     ct_no_key = ''Failed to generate key'', ct_upload_failed = \<lambda>e. ''Upload response failed: '' @ e,
     ct_bad_location = \<lambda>loc. case loc of Iroh _ \<Rightarrow> ''Iroh location without hash - not yet supported''
                              | _ \<Rightarrow> ''Unsupported inner location type'',
     ct_panic = ''panic''\<rparr>"

definition Wasm_conn :: "('w, 'ep) s5_client \<Rightarrow> 'w connection" where
  "Wasm_conn self = \<lparr>cn_blobs = sc_blobs_client self, cn_fs = sc_fs self\<rparr>"

definition Wasm_new :: "client_crypto \<Rightarrow> string \<Rightarrow> string \<Rightarrow> string + ('w, 'ep) s5_client" where
  "Wasm_new X seed_phrase remote_node_id =
    res_bind (map_err key_error_text (from_seed_phrase X seed_phrase)) (\<lambda>keys.
    Inr \<lparr>sc_keys = keys, sc_remote_node_id = remote_node_id, sc_endpoint = None, sc_blobs_client = None, sc_fs = None\<rparr>)"

text \<open>The query at the end only logs its result.\<close>

definition Wasm_connect :: "('w, 'ep) iroh_net \<Rightarrow> ('w, 'ep) s5_client \<Rightarrow> (string + unit) \<times> ('w, 'ep) s5_client" where
  "Wasm_connect N self =
    (case ir_bind N (dk_iroh_secret_key (sc_keys self)) of
       Inl e \<Rightarrow> (Inl (''Failed to bind endpoint: '' @ e), self)
     | Inr endpoint \<Rightarrow>
        (case ir_parse_id N (sc_remote_node_id self) of
           Inl e \<Rightarrow> (Inl (''Invalid remote node ID: '' @ e), self)
         | Inr remote_id \<Rightarrow>
            (let blobs_client = ir_blobs N endpoint remote_id;
                 fs = client_open_fs N (sc_keys self) blobs_client (ir_registry N endpoint remote_id)
             in (Inr (), self\<lparr>sc_endpoint := Some endpoint, sc_blobs_client := Some blobs_client, sc_fs := Some fs\<rparr>))))"

definition Wasm_is_connected :: "('w, 'ep) s5_client \<Rightarrow> bool" where
  "Wasm_is_connected self \<longleftrightarrow> sc_fs self \<noteq> None"

definition Wasm_test_connection :: "('w, 'ep) s5_client \<Rightarrow> 'w \<Rightarrow> string + string" where
  "Wasm_test_connection self = client_test_connection ''Not connected'' id (Wasm_conn self)"

definition Wasm_public_key :: "client_crypto \<Rightarrow> ('w, 'ep) s5_client \<Rightarrow> string" where
  "Wasm_public_key X self = DerivedKeys_public_key_hex X (sc_keys self)"

definition Wasm_node_id :: "('w, 'ep) iroh_net \<Rightarrow> ('w, 'ep) s5_client \<Rightarrow> string" where
  "Wasm_node_id N self = ir_public N (dk_iroh_secret_key (sc_keys self))"

record directory_listing =
  dl_files :: "(string, file_ref) btree"
  dl_dirs :: "string list"

definition Wasm_list_directory ::
  "(string, 'j) client_target \<Rightarrow> ('w, 'ep) s5_client \<Rightarrow> string \<Rightarrow> ('w, string, directory_listing) client_op" where
  "Wasm_list_directory T self path w =
    (case client_list_directory T (Wasm_conn self) path w of
       (Inl e, w) \<Rightarrow> (Inl e, w)
     | (Inr (fs, ds), w) \<Rightarrow> (Inr \<lparr>dl_files = bt_extend fs bt_empty, dl_dirs = ds\<rparr>, w))"

definition Listing_get_file :: "(file_ref \<Rightarrow> string + 'j) \<Rightarrow> directory_listing \<Rightarrow> string \<Rightarrow> string + 'j option" where
  "Listing_get_file to_value self name =
    (case bt_get (dl_files self) name of
       Some file_ref \<Rightarrow> (case to_value file_ref of Inl e \<Rightarrow> Inl (''Failed to serialize file: '' @ e) | Inr j \<Rightarrow> Inr (Some j))
     | None \<Rightarrow> Inr None)"

definition Listing_counts :: "directory_listing \<Rightarrow> nat \<times> nat" where
  "Listing_counts self = (bt_len (dl_files self), length (dl_dirs self))"

definition Wasm_file_get :: "(string, 'j) client_target \<Rightarrow> ('w, 'ep) s5_client \<Rightarrow> string \<Rightarrow> ('w, string, 'j option) client_op" where
  "Wasm_file_get T self path = client_file_get T (Wasm_conn self) path"

definition Wasm_create_directory :: "(string, 'j) client_target \<Rightarrow> ('w, 'ep) s5_client \<Rightarrow> string \<Rightarrow> ('w, string, unit) client_op" where
  "Wasm_create_directory T self path = client_create_directory T (Wasm_conn self) path"

text \<open>The clock counts milliseconds.\<close>

definition Wasm_upload_file ::
  "(string, 'j) client_target \<Rightarrow> client_crypto \<Rightarrow> hashing \<Rightarrow> ('w, 'ep) s5_client \<Rightarrow> bytes32 option \<Rightarrow> u64
   \<Rightarrow> string \<Rightarrow> string \<Rightarrow> bytes \<Rightarrow> string \<Rightarrow> ('w, string, 'j) client_op" where
  "Wasm_upload_file T X H self drawn_key now_ms path filename content media_type =
    client_upload_file T X H (Wasm_conn self) drawn_key (ucast (now_ms div 1000)) (ucast ((now_ms mod 1000) * 1000000))
      path filename content media_type"

definition Wasm_download_blob ::
  "(string, 'j) client_target \<Rightarrow> (string \<Rightarrow> string + bytes) \<Rightarrow> ('w, 'ep) s5_client \<Rightarrow> string \<Rightarrow> 'w \<Rightarrow> string + bytes" where
  "Wasm_download_blob T hex_decode self = client_download_blob T (ct_not_connected T) hex_decode (Wasm_conn self)"

definition Wasm_download_file ::
  "(string, 'j) client_target \<Rightarrow> client_crypto \<Rightarrow> ('w, 'ep) s5_client \<Rightarrow> string \<Rightarrow> 'w \<Rightarrow> (string + bytes) option \<times> 'w" where
  "Wasm_download_file T X self path = client_download_file T X (Wasm_conn self) path"

definition Wasm_delete_file :: "(string, 'j) client_target \<Rightarrow> ('w, 'ep) s5_client \<Rightarrow> string \<Rightarrow> u32 \<Rightarrow> u32 \<Rightarrow> ('w, string, unit) client_op" where
  "Wasm_delete_file T self path now_s now_ns = client_delete_file T (Wasm_conn self) path now_s now_ns"

definition Wasm_file_exists :: "(string, 'j) client_target \<Rightarrow> ('w, 'ep) s5_client \<Rightarrow> string \<Rightarrow> ('w, string, bool) client_op" where
  "Wasm_file_exists T self path = client_file_exists T (Wasm_conn self) path"

definition Wasm_disconnect :: "('w, 'ep) s5_client \<Rightarrow> 'w \<Rightarrow> ('w, 'ep) s5_client \<times> 'w" where
  "Wasm_disconnect self w =
    (self\<lparr>sc_fs := None, sc_blobs_client := None, sc_endpoint := None\<rparr>,
     case sc_fs self of Some fs \<Rightarrow> snd (FS5_save fs w) | None \<Rightarrow> w)"

subsection \<open>Free functions\<close>

definition Wasm_generate_seed_phrase :: "client_crypto \<Rightarrow> (bytes \<Rightarrow> string + string list) \<Rightarrow> bytes option \<Rightarrow> string + string" where
  "Wasm_generate_seed_phrase X from_entropy drawn_entropy =
    (case drawn_entropy of
       None \<Rightarrow> Inl ''RNG failed''
     | Some entropy \<Rightarrow>
        (case from_entropy entropy of
           Inl e \<Rightarrow> Inl (''Mnemonic generation failed: '' @ e)
         | Inr mnemonic \<Rightarrow> Inr (cc_words X mnemonic)))"

definition Wasm_derive_keys :: "client_crypto \<Rightarrow> string \<Rightarrow> string + derived_keys" where
  "Wasm_derive_keys X phrase = map_err key_error_text (from_seed_phrase X phrase)"

definition Wasm_encrypt :: "client_crypto \<Rightarrow> bytes \<Rightarrow> bytes \<Rightarrow> bytes option \<Rightarrow> string + bytes" where
  "Wasm_encrypt X key plaintext drawn_nonce =
    (if length key \<noteq> 32 then Inl ''Key must be 32 bytes''
     else case drawn_nonce of
       None \<Rightarrow> Inl ''RNG failed''
     | Some nonce \<Rightarrow>
        (case encrypt_xchacha20poly1305_with_nonce X key nonce plaintext of
           Inl e \<Rightarrow> Inl (''Encryption failed: '' @ crypto_error_text e)
         | Inr ciphertext \<Rightarrow> Inr (nonce @ ciphertext)))"

definition Wasm_decrypt :: "client_crypto \<Rightarrow> bytes \<Rightarrow> bytes \<Rightarrow> string + bytes" where
  "Wasm_decrypt X key data = map_err crypto_error_text (decrypt_xchacha20poly1305 X key data)"

definition Wasm_decrypt_chunk :: "client_crypto \<Rightarrow> bytes \<Rightarrow> u32 \<Rightarrow> bytes \<Rightarrow> string + bytes" where
  "Wasm_decrypt_chunk X key chunk_index ciphertext = map_err crypto_error_text (decrypt_chunk X key (ucast chunk_index) ciphertext)"

section \<open>The Flutter client\<close>

datatype s5_error =
    InvalidInput string
  | ConnectionError string
  | StorageError string
  | FileNotFound string
  | CryptoError string
  | InternalError string
  | Panic

record ('w, 'ep) flutter_inner =
  fi_keys :: derived_keys
  fi_endpoint :: 'ep
  fi_blobs_client :: "'w blobs_client"
  fi_fs :: "'w fs5"

record ('w, 'ep) flutter_client =
  fl_inner :: "('w, 'ep) flutter_inner option"
  fl_public_key_hex :: string
  fl_node_id :: string

definition flutter_target :: "(error \<Rightarrow> string) \<Rightarrow> (file_ref \<Rightarrow> string + string) \<Rightarrow> (s5_error, string) client_target" where
  "flutter_target shw to_json =
    \<lparr>ct_usize_bits = 64, ct_show = shw, ct_json = \<lambda>f. map_err (\<lambda>e. InternalError (''Serialization failed: '' @ e)) (to_json f),
     ct_not_connected = ConnectionError ''Not connected'', ct_no_blobs_client = ConnectionError ''Not connected'',
     ct_storage = StorageError, ct_crypto = CryptoError, ct_invalid = InvalidInput, ct_not_found = FileNotFound,
     ct_no_key = CryptoError ''Key generation failed: Random number generation failed'',
     ct_upload_failed = \<lambda>e. StorageError (''Upload failed: '' @ e),
     ct_bad_location = \<lambda>loc. InternalError ''Unsupported location type'', ct_panic = Panic\<rparr>"

definition Flutter_conn :: "('w, 'ep) flutter_client \<Rightarrow> 'w connection" where
  "Flutter_conn self = \<lparr>cn_blobs = map_option fi_blobs_client (fl_inner self), cn_fs = map_option fi_fs (fl_inner self)\<rparr>"

definition Flutter_connect ::
  "client_crypto \<Rightarrow> ('w, 'ep) iroh_net \<Rightarrow> string \<Rightarrow> string \<Rightarrow> s5_error + ('w, 'ep) flutter_client" where
  "Flutter_connect X N seed_phrase remote_node_id =
    res_bind (map_err (\<lambda>e. InvalidInput (key_error_text e)) (from_seed_phrase X seed_phrase)) (\<lambda>keys.
    res_bind (map_err (\<lambda>e. ConnectionError (''Failed to bind endpoint: '' @ e)) (ir_bind N (dk_iroh_secret_key keys))) (\<lambda>endpoint.
    res_bind (map_err (\<lambda>e. InvalidInput (''Invalid remote node ID: '' @ e)) (ir_parse_id N remote_node_id)) (\<lambda>remote_id.
    let blobs_client = ir_blobs N endpoint remote_id;
        fs = client_open_fs N keys blobs_client (ir_registry N endpoint remote_id)
    in Inr \<lparr>fl_inner = Some \<lparr>fi_keys = keys, fi_endpoint = endpoint, fi_blobs_client = blobs_client, fi_fs = fs\<rparr>,
            fl_public_key_hex = DerivedKeys_public_key_hex X keys, fl_node_id = ir_public N (dk_iroh_secret_key keys)\<rparr>)))"

definition Flutter_is_connected :: "('w, 'ep) flutter_client \<Rightarrow> bool" where
  "Flutter_is_connected self \<longleftrightarrow> fl_inner self \<noteq> None"

definition Flutter_test_connection :: "('w, 'ep) flutter_client \<Rightarrow> 'w \<Rightarrow> s5_error + string" where
  "Flutter_test_connection self =
    client_test_connection (ConnectionError ''Not connected'') ConnectionError (Flutter_conn self)"

record file_entry =
  fe_name :: string
  fe_file_ref_json :: string
  fe_size :: u64
  fe_media_type :: "string option"
  fe_timestamp :: "u32 option"

definition Flutter_list_directory ::
  "(s5_error, string) client_target \<Rightarrow> (file_ref \<Rightarrow> string + string) \<Rightarrow> ('w, 'ep) flutter_client \<Rightarrow> string
   \<Rightarrow> ('w, s5_error, file_entry list \<times> string list) client_op" where
  "Flutter_list_directory T to_json self path w =
    (case client_list_directory T (Flutter_conn self) path w of
       (Inl e, w) \<Rightarrow> (Inl e, w)
     | (Inr (fs, ds), w) \<Rightarrow>
        (Inr (map (\<lambda>(name, file_ref). \<lparr>fe_name = name,
                fe_file_ref_json = (case to_json file_ref of Inr j \<Rightarrow> j | Inl _ \<Rightarrow> ''{}''),
                fe_size = fr_size file_ref, fe_media_type = fr_media_type file_ref, fe_timestamp = fr_timestamp file_ref\<rparr>) fs, ds), w))"

definition Flutter_file_get :: "(s5_error, string) client_target \<Rightarrow> ('w, 'ep) flutter_client \<Rightarrow> string \<Rightarrow> ('w, s5_error, string option) client_op" where
  "Flutter_file_get T self path = client_file_get T (Flutter_conn self) path"

definition Flutter_file_exists :: "(s5_error, string) client_target \<Rightarrow> ('w, 'ep) flutter_client \<Rightarrow> string \<Rightarrow> ('w, s5_error, bool) client_op" where
  "Flutter_file_exists T self path = client_file_exists T (Flutter_conn self) path"

definition Flutter_create_directory :: "(s5_error, string) client_target \<Rightarrow> ('w, 'ep) flutter_client \<Rightarrow> string \<Rightarrow> ('w, s5_error, unit) client_op" where
  "Flutter_create_directory T self path = client_create_directory T (Flutter_conn self) path"

text \<open>The clock counts seconds and nanoseconds since the epoch; an earlier time counts as the epoch.\<close>

definition Flutter_upload_file ::
  "(s5_error, string) client_target \<Rightarrow> client_crypto \<Rightarrow> hashing \<Rightarrow> ('w, 'ep) flutter_client \<Rightarrow> bytes32 option \<Rightarrow> (u64 \<times> u32) option
   \<Rightarrow> string \<Rightarrow> string \<Rightarrow> bytes \<Rightarrow> string \<Rightarrow> ('w, s5_error, string) client_op" where
  "Flutter_upload_file T X H self drawn_key since_epoch path filename content media_type =
    (case (case since_epoch of Some t \<Rightarrow> t | None \<Rightarrow> (0, 0)) of (secs, nanos) \<Rightarrow>
       client_upload_file T X H (Flutter_conn self) drawn_key (ucast secs) nanos path filename content media_type)"

definition Flutter_upload_encrypted_blob ::
  "(s5_error, string) client_target \<Rightarrow> client_crypto \<Rightarrow> hashing \<Rightarrow> ('w, 'ep) flutter_client \<Rightarrow> bytes32 option \<Rightarrow> bytes \<Rightarrow> string
   \<Rightarrow> ('w, s5_error, file_ref) client_op" where
  "Flutter_upload_encrypted_blob T X H self = client_upload_encrypted_blob T X H (Flutter_conn self)"

definition Flutter_download_file ::
  "(s5_error, string) client_target \<Rightarrow> client_crypto \<Rightarrow> ('w, 'ep) flutter_client \<Rightarrow> string \<Rightarrow> 'w \<Rightarrow> (s5_error + bytes) option \<times> 'w" where
  "Flutter_download_file T X self path = client_download_file T X (Flutter_conn self) path"

definition Flutter_download_encrypted_blob ::
  "(s5_error, string) client_target \<Rightarrow> client_crypto \<Rightarrow> ('w, 'ep) flutter_client \<Rightarrow> blob_location \<Rightarrow> bytes32 \<Rightarrow> u64 \<Rightarrow> 'w
   \<Rightarrow> (s5_error + bytes) option" where
  "Flutter_download_encrypted_blob T X self = client_download_encrypted_blob T X (Flutter_conn self)"

definition Flutter_extract_hash :: "(s5_error, string) client_target \<Rightarrow> blob_location \<Rightarrow> s5_error + hash" where
  "Flutter_extract_hash T loc = client_extract_hash T loc"

definition Flutter_download_blob ::
  "(s5_error, string) client_target \<Rightarrow> (string \<Rightarrow> string + bytes) \<Rightarrow> ('w, 'ep) flutter_client \<Rightarrow> string \<Rightarrow> 'w \<Rightarrow> s5_error + bytes" where
  "Flutter_download_blob T hex_decode self = client_download_blob T (ct_not_connected T) hex_decode (Flutter_conn self)"

definition Flutter_delete_file :: "(s5_error, string) client_target \<Rightarrow> ('w, 'ep) flutter_client \<Rightarrow> string \<Rightarrow> u32 \<Rightarrow> u32 \<Rightarrow> ('w, s5_error, unit) client_op" where
  "Flutter_delete_file T self path now_s now_ns = client_delete_file T (Flutter_conn self) path now_s now_ns"

definition Flutter_disconnect :: "('w, 'ep) flutter_client \<Rightarrow> 'w \<Rightarrow> ('w, 'ep) flutter_client \<times> 'w" where
  "Flutter_disconnect self w =
    (case fl_inner self of
       Some inner \<Rightarrow> (self\<lparr>fl_inner := None\<rparr>, snd (FS5_save (fi_fs inner) w))
     | None \<Rightarrow> (self, w))"

record s5_keys =
  ky_root_secret_hex :: string
  ky_public_key_hex :: string
  ky_encryption_key_hex :: string
  ky_signing_key_hex :: string
  ky_iroh_secret_key_hex :: string

definition Flutter_derive_keys :: "client_crypto \<Rightarrow> string \<Rightarrow> s5_error + s5_keys" where
  "Flutter_derive_keys X phrase =
    res_bind (map_err (\<lambda>e. InvalidInput (key_error_text e)) (from_seed_phrase X phrase)) (\<lambda>keys.
    Inr \<lparr>ky_root_secret_hex = root_secret_hex X keys, ky_public_key_hex = DerivedKeys_public_key_hex X keys,
         ky_encryption_key_hex = cc_hex X (arr_list (sk_encryption_key (dk_sync_keys keys))),
         ky_signing_key_hex = cc_hex X (arr_list (sk_signing_key_bytes (dk_sync_keys keys))),
         ky_iroh_secret_key_hex = iroh_secret_key_hex X keys\<rparr>)"

definition Flutter_generate_seed_phrase :: "client_crypto \<Rightarrow> string + string list \<Rightarrow> s5_error + string" where
  "Flutter_generate_seed_phrase X generated = map_err (\<lambda>e. InvalidInput (key_error_text e)) (generate_seed_phrase X generated)"

definition Flutter_encrypt :: "client_crypto \<Rightarrow> bytes \<Rightarrow> bytes \<Rightarrow> bytes option \<Rightarrow> s5_error + bytes" where
  "Flutter_encrypt X key plaintext drawn_nonce =
    map_err (\<lambda>e. CryptoError (crypto_error_text e)) (encrypt_xchacha20poly1305 X key plaintext drawn_nonce)"

definition Flutter_decrypt :: "client_crypto \<Rightarrow> bytes \<Rightarrow> bytes \<Rightarrow> s5_error + bytes" where
  "Flutter_decrypt X key data = map_err (\<lambda>e. CryptoError (crypto_error_text e)) (decrypt_xchacha20poly1305 X key data)"

definition Flutter_decrypt_chunk :: "client_crypto \<Rightarrow> bytes \<Rightarrow> u64 \<Rightarrow> bytes \<Rightarrow> s5_error + bytes" where
  "Flutter_decrypt_chunk X key chunk_index ciphertext =
    map_err (\<lambda>e. CryptoError (crypto_error_text e)) (decrypt_chunk X key chunk_index ciphertext)"

section \<open>Chunked encryption\<close>

text \<open>The cipher adds a tag of 16 bytes and takes every text of at most a block.\<close>

definition cipher_sized :: "client_crypto \<Rightarrow> bool" where
  "cipher_sized X \<longleftrightarrow> (\<forall>key nonce text. length nonce = 24 \<longrightarrow> length text \<le> unat ENCRYPTION_BLOCK_SIZE \<longrightarrow>
    (\<exists>out. cc_encrypt X key nonce text = Some out \<and> length out = length text + 16))"

lemma block_size [simp]: "unat ENCRYPTION_BLOCK_SIZE = 262144"
  by (simp add: ENCRYPTION_BLOCK_SIZE_def)

lemma chunks_of_Nil [simp]: "chunks_of n [] = []"
  by (simp add: chunks_of.simps)

lemma chunks_of_step: "xs \<noteq> [] \<Longrightarrow> 0 < n \<Longrightarrow> chunks_of n xs = take n xs # chunks_of n (drop n xs)"
  by (simp add: chunks_of.simps[of n xs])

lemma concat_chunks_of: "0 < n \<Longrightarrow> concat (chunks_of n xs) = xs"
proof (induction n xs rule: chunks_of.induct)
  case (1 n xs)
  then show ?case by (cases "xs = []") (simp_all add: chunks_of_step)
qed

lemma chunks_of_bounded: "c \<in> set (chunks_of n xs) \<Longrightarrow> length c \<le> n"
proof (induction n xs rule: chunks_of.induct)
  case (1 n xs)
  then show ?case by (cases "xs = [] \<or> n = 0") (auto simp: chunks_of_step chunks_of.simps[of 0])
qed

lemma encrypt_chunk_ok:
  assumes "cipher_sized X" "length text \<le> unat ENCRYPTION_BLOCK_SIZE"
  obtains out where "encrypt_chunk X (arr_list key) i text = Inr out" "length out = length text + 16"
proof -
  have "length (chunk_nonce i) = 24" by (simp add: chunk_nonce_def)
  then obtain out where "cc_encrypt X key (chunk_nonce i) text = Some out" "length out = length text + 16"
    using assms unfolding cipher_sized_def by blast
  then show thesis by (intro that) (simp_all add: encrypt_chunk_def encrypt_xchacha20poly1305_with_nonce_def)
qed

lemma encrypt_chunks_ok:
  assumes "cipher_sized X" "\<forall>c \<in> set cs. length c \<le> unat ENCRYPTION_BLOCK_SIZE"
  obtains es where "encrypt_chunks X (arr_list key) i cs = Inr es" "length (concat es) = length (concat cs) + 16 * length cs"
  using assms(2)
proof (induction cs arbitrary: i thesis)
  case (Cons c cs)
  obtain e where e: "encrypt_chunk X (arr_list key) (of_nat i) c = Inr e" "length e = length c + 16"
    using encrypt_chunk_ok[OF assms(1), of c key "of_nat i"] Cons.prems(2) by auto
  obtain es where es: "encrypt_chunks X (arr_list key) (Suc i) cs = Inr es" "length (concat es) = length (concat cs) + 16 * length cs"
    using Cons.IH[of "Suc i"] Cons.prems(2) by auto
  show ?case by (rule Cons.prems(1)[of "e # es"]) (use e es in simp_all)
qed simp

lemma length_chunks_of: "0 < n \<Longrightarrow> length (chunks_of n xs) = (length xs + n - 1) div n"
proof (induction n xs rule: chunks_of.induct)
  case (1 n xs)
  show ?case
  proof (cases "xs = []")
    case False
    then have "length (chunks_of n xs) = Suc ((length xs - n + n - 1) div n)" using 1 by (simp add: chunks_of_step)
    also have "\<dots> = (length xs + n - 1) div n"
    proof (cases "n \<le> length xs")
      case True
      then have e: "length xs + n - 1 = (length xs - 1) + n" "length xs - n + n - 1 = length xs - 1" using \<open>0 < n\<close> by simp_all
      show ?thesis using \<open>0 < n\<close> unfolding e by simp
    next
      case small: False
      have "0 < length xs" using False by simp
      then have "(length xs + n - 1) div n = 1" using small \<open>0 < n\<close> by (intro div_nat_eqI; simp del: length_greater_0_conv; linarith)
      moreover have "(length xs - n + n - 1) div n = 0" using small \<open>0 < n\<close> by simp
      ultimately show ?thesis by simp
    qed
    finally show ?thesis .
  qed (use 1 in simp)
qed

text \<open>The size the client announces is the size of what it sends.\<close>

lemma encrypted_size_chunks: "encrypted_size (length xs) = length xs + 16 * length (chunks_of (unat ENCRYPTION_BLOCK_SIZE) xs)"
proof -
  define B where "B = unat ENCRYPTION_BLOCK_SIZE"
  define q r where "q = length xs div B" and "r = length xs mod B"
  have B: "0 < B" by (simp add: B_def)
  have len: "length xs = q * B + r" by (simp add: q_def r_def)
  have r: "r < B" using B by (simp add: r_def)
  have "(length xs + B - 1) div B = q + (if r = 0 then 0 else 1)"
    using r B by (intro div_nat_eqI) (auto simp: len algebra_simps)
  then have n: "length (chunks_of B xs) = q + (if r = 0 then 0 else 1)" using length_chunks_of[OF B, of xs] by argo
  show ?thesis
    unfolding encrypted_size_def Let_def B_def[symmetric] q_def[symmetric] r_def[symmetric] n
    by (auto simp: len algebra_simps)
qed

lemma decrypt_loop_end [simp]: "decrypt_loop T X key m bs (length bs) i acc = Some (Inr acc)"
  by (subst decrypt_loop.simps) simp

lemma decrypt_loop_step:
  assumes "e \<noteq> []" "length e \<le> m" "length e = m \<or> rest = []" "length (pre @ e @ rest) + m < 2 ^ ct_usize_bits T"
    and "decrypt_chunk X key i e = Inr c"
  shows "decrypt_loop T X key m (pre @ e @ rest) (length pre) i acc
    = decrypt_loop T X key m (pre @ e @ rest) (length (pre @ e)) (i + 1) (acc @ c)"
proof -
  have "(length pre + m) mod 2 ^ ct_usize_bits T = length pre + m" using assms(4) by simp
  then have fin: "min ((length pre + m) mod 2 ^ ct_usize_bits T) (length (pre @ e @ rest)) = length pre + length e"
    using assms(2,3) by auto
  have "length pre < length (pre @ e @ rest)" using assms(1) by simp
  then show ?thesis using assms(5) fin by (subst decrypt_loop.simps) (simp add: Let_def)
qed

text \<open>The decryption loop undoes chunked encryption, from any chunk on.\<close>

lemma decrypt_loop_encrypt:
  assumes "cipher_ok X" "cipher_sized X" "0 < n" "n \<le> unat ENCRYPTION_BLOCK_SIZE"
    and "encrypt_chunks X (arr_list key) i (chunks_of n content) = Inr es"
    and "length (pre @ concat es) + (n + 16) < 2 ^ ct_usize_bits T"
  shows "decrypt_loop T X (arr_list key) (n + 16) (pre @ concat es) (length pre) (of_nat i) acc = Some (Inr (acc @ content))"
  using assms(3-)
proof (induction n content arbitrary: i es pre acc rule: chunks_of.induct)
  case (1 n xs)
  show ?case
  proof (cases "xs = []")
    case True
    then show ?thesis using 1 decrypt_loop_end[of T X _ _ pre] by simp
  next
    case False
    obtain e es' where e: "encrypt_chunk X (arr_list key) (of_nat i) (take n xs) = Inr e"
      and es': "encrypt_chunks X (arr_list key) (Suc i) (chunks_of n (drop n xs)) = Inr es'" and es: "es = e # es'"
      using 1(4) False 1(2) by (auto simp: chunks_of_step res_bind_Inr_iff)
    have len: "length e = length (take n xs) + 16"
      using encrypt_chunk_ok[OF assms(2), of "take n xs" key "of_nat i"] e 1(3) by (auto simp: min_def)
    have last: "length e = n + 16 \<or> concat es' = []"
      using len es' by (cases "n \<le> length xs") auto
    have "decrypt_loop T X (arr_list key) (n + 16) (pre @ e @ concat es') (length pre) (of_nat i) acc
      = decrypt_loop T X (arr_list key) (n + 16) (pre @ e @ concat es') (length (pre @ e)) (of_nat i + 1) (acc @ take n xs)"
      by (rule decrypt_loop_step) (use len last 1(5) es decrypt_encrypt_chunk[OF assms(1) e] in auto)
    also have "\<dots> = decrypt_loop T X (arr_list key) (n + 16) ((pre @ e) @ concat es') (length (pre @ e)) (of_nat (Suc i)) (acc @ take n xs)"
      by (simp add: add.commute)
    also have "\<dots> = Some (Inr ((acc @ take n xs) @ drop n xs))"
      by (rule 1(1)) (use False 1 es es' in simp_all)
    finally show ?thesis by (simp add: es)
  qed
qed

section \<open>Listings\<close>

lemma collect_entries_bounded:
  "collect_entries fs path entries w = ((l, ds), w') \<Longrightarrow> length l + length ds \<le> length entries"
  by (induction fs path entries w arbitrary: l ds w' rule: collect_entries.induct)
     (fastforce split: prod.splits option.splits)+

text \<open>A listing of the root never has more than a thousand names, however many entries the directory has: the cursor of
  the page is dropped.\<close>

lemma root_listing_truncated:
  assumes "cn_fs cn = Some (actor_fs E)" "is_root_path path" "client_list_directory T cn path s = (Inr (l, ds), s')"
  shows "length l + length ds \<le> 1000"
proof -
  obtain entries cursor s1 where e: "FS5_list (actor_fs E) None 1000 s = (Inr (entries, cursor), s1)"
    and c: "collect_entries (actor_fs E) path entries s1 = ((l, ds), s')"
    using assms by (auto simp: client_list_directory_def with_fs_def or_storage_def split: prod.splits sum.splits)
  obtain a w where s: "s = (Some a, w)"
    using e by (cases s) (auto simp: FS5_list_def answer_list_def actor_fs_def actor_send_def act_bind_def split: option.splits)
  obtain snap cur where "list_page E snap None 1000 = (entries, cur)"
    using e
    by (auto simp: s FS5_list_def answer_list_def actor_fs_def actor_send_def process_msg_def answering_def act_bind_def act_lift_def
        list_entries_def split: prod.splits sum.splits option.splits if_splits actor_answer.splits step_outcome.splits)
  then have "length entries \<le> 1000" using list_page_entries[of E snap None 1000] by simp
  then show ?thesis using collect_entries_bounded[OF c] by simp
qed

text \<open>A client that is not connected, or was disconnected, refuses every operation and changes nothing.\<close>

lemma not_connected_refuses:
  assumes "cn_fs cn = None"
  shows "client_list_directory T cn path w = (Inl (ct_not_connected T), w)"
    "client_file_get T cn path w = (Inl (ct_not_connected T), w)"
    "client_file_exists T cn path w = (Inl (ct_not_connected T), w)"
    "client_create_directory T cn path w = (Inl (ct_not_connected T), w)"
    "client_delete_file T cn path t ns w = (Inl (ct_not_connected T), w)"
    "client_upload_file T X H cn k t ns path name content media w = (Inl (ct_not_connected T), w)"
    "client_download_file T X cn path w = (Some (Inl (ct_not_connected T)), w)"
  using assms
  by (simp_all add: client_list_directory_def client_file_get_def client_file_exists_def client_create_directory_def
      client_delete_file_def client_upload_file_def client_download_file_def with_fs_def)

lemma disconnected [simp]:
  "cn_fs (Wasm_conn (fst (Wasm_disconnect self w))) = None" "cn_fs (Flutter_conn (fst (Flutter_disconnect fl w))) = None"
  by (simp_all add: Wasm_conn_def Wasm_disconnect_def Flutter_conn_def Flutter_disconnect_def split: option.splits)

end
