(* ===== verification/Root_Session.thy ===== *)
theory Root_Session
  imports Fs_Api
begin

text \<open>
  A root actor that handles all its paths itself: no subdirectory is open and no autosave is set. Its header and its
  subdirectories are those of \<open>origin\<close>. Storing and reading a file changes the files of such an actor and nothing of the world, and
  a directory that is small enough is not split.
\<close>

definition root_link :: "dir_context \<Rightarrow> bool" where
  "root_link ctx \<longleftrightarrow> (case cx_link ctx of LinkDirHandle _ _ _ _ \<Rightarrow> False | _ \<Rightarrow> True)"

definition root_session :: "dir_context \<Rightarrow> dir_v1 \<Rightarrow> string set \<Rightarrow> dir_actor \<Rightarrow> bool" where
  "root_session ctx origin S a \<longleftrightarrow> da_context a = ctx \<and> root_link ctx \<and> same_frame origin (da_state a) \<and> local_paths (da_state a) S
    \<and> da_autosave_debounce_ms a = None \<and> da_dir_handles a = bt_empty \<and> da_dir_shard_handles a = bt_empty"

text \<open>What saving and exporting need of it: it is not split and nothing else is open.\<close>

definition quiet_root :: "dir_context \<Rightarrow> dir_actor \<Rightarrow> bool" where
  "quiet_root ctx a \<longleftrightarrow> da_context a = ctx \<and> root_link ctx \<and> dh_shard_level (dv_header (da_state a)) = None
    \<and> da_autosave_debounce_ms a = None \<and> da_dir_handles a = bt_empty \<and> da_dir_shard_handles a = bt_empty"

lemma root_session_quiet:
  "root_session ctx origin S a \<longleftrightarrow> quiet_root ctx a \<and> same_frame origin (da_state a) \<and> local_paths (da_state a) S"
  by (auto simp: root_session_def quiet_root_def local_paths_def)

lemma quiet_root_arm: "quiet_root ctx a \<Longrightarrow> arm_autosave E (a, w) = (Inr (), (a, w))"
  by (simp add: arm_autosave_def quiet_root_def act_ok_def)

lemma root_session_arm: "root_session ctx origin S a \<Longrightarrow> arm_autosave E (a, w) = (Inr (), (a, w))"
  using quiet_root_arm[of ctx a] by (simp add: root_session_quiet)

lemma quiet_root_flags [simp]:
  "quiet_root ctx (a\<lparr>da_shard_size_check_ops := c\<rparr>) = quiet_root ctx a" "quiet_root ctx (a\<lparr>da_dirty := b\<rparr>) = quiet_root ctx a"
  "quiet_root ctx (a\<lparr>da_last_serialized_len := l\<rparr>) = quiet_root ctx a"
  by (simp_all add: quiet_root_def)

lemma root_session_flags [simp]:
  "root_session ctx origin S (a\<lparr>da_shard_size_check_ops := c\<rparr>) = root_session ctx origin S a" "root_session ctx origin S (a\<lparr>da_dirty := b\<rparr>) = root_session ctx origin S a"
  "root_session ctx origin S (a\<lparr>da_last_serialized_len := l\<rparr>) = root_session ctx origin S a"
  by (simp_all add: root_session_def)

lemma root_session_task:
  assumes "root_session ctx origin S a" "unpromoted S" "path \<in> S" "task (files_of a path) = (v, res)"
  shows "\<exists>a'. actor_send E (PathOp path (FileOp task)) (Some a, w) = (Inr (AnsValue res), (Some a', w))
    \<and> root_session ctx origin S a' \<and> files_of a' = (files_of a)(path := v) \<and> da_dirty a'"
proof -
  let ?st = "(da_state a)\<lparr>dv_files := (case v of None \<Rightarrow> bt_remove path (dv_files (da_state a))
        | Some f \<Rightarrow> bt_insert path f (dv_files (da_state a)))\<rparr>"
  let ?a = "a\<lparr>da_state := ?st\<rparr>"
  let ?b = "?a\<lparr>da_shard_size_check_ops := sat_add64 (da_shard_size_check_ops ?a) 1, da_dirty := True\<rparr>"
  have lp: "local_paths (da_state a) S" and ctx: "da_context a = ctx" and link: "root_link ctx" using assms(1) by (simp_all add: root_session_def)
  have lp': "local_paths ?st S"
    using lp assms(3) by (auto simp: local_paths_def bt_contains_def split: option.splits if_splits)
  have route: "route_to_child E path (a, w) = (Inr None, (a, w))"
    using lp assms(3) by (intro route_local) (auto simp: local_paths_def)
  have promote: "check_auto_promote E path (?a, w) = (Inr (), (?a, w))"
    using no_promotion[OF assms(2) _ assms(3), of ?a] lp' by (simp add: local_paths_def)
  have dirty: "mark_as_dirty E (?a, w) = (Inr (), (?b, w))"
    using ctx link by (cases a) (simp add: mark_as_dirty_def act_bind_def root_link_def split: dir_context_parent_link.splits)
  have ses: "root_session ctx origin S ?b" using assms(1) lp' by (simp add: root_session_def same_frame_def)
  have "process_core E (PathOp path (FileOp task)) (a, w) = Some ((AnsValue res, Finished), (?b, w))"
    using route promote dirty assms(4) by (cases v) (simp_all add: file_op_def Let_def act_bind_def files_of_def)
  then have "actor_send E (PathOp path (FileOp task)) (Some a, w) = (Inr (AnsValue res), (Some ?b, w))"
    using root_session_arm[OF ses, of E w] by (simp add: actor_send_def process_msg_def)
  moreover have "files_of ?b = (files_of a)(path := v)" by (rule ext) (simp add: files_of_def split: option.splits)
  moreover have "da_dirty ?b" by simp
  ultimately show ?thesis using ses by blast
qed

lemma shard_if_needed_small:
  assumes "dh_shard_level (dv_header (da_state a)) = None" "length (DirV1_to_bytes (fe_codec E) (da_state a)) < MAX_DIR_BYTES_BEFORE_SHARD"
  shows "\<exists>l c. shard_if_needed E (a, w) = (Inr (), (a\<lparr>da_last_serialized_len := l, da_shard_size_check_ops := c\<rparr>, w))"
proof (cases "da_last_serialized_len a < MAX_DIR_BYTES_BEFORE_SHARD \<and> da_shard_size_check_ops a < SHARD_SIZE_CHECK_OP_INTERVAL")
  case True
  then show ?thesis using assms
    by (intro exI[of _ "da_last_serialized_len a"] exI[of _ "da_shard_size_check_ops a"]) (simp add: shard_if_needed_def act_ok_def)
next
  case False
  then show ?thesis using assms
    by (intro exI[of _ "length (DirV1_to_bytes (fe_codec E) (da_state a))"] exI[of _ 0]) (auto simp: shard_if_needed_def act_ok_def Let_def)
qed

lemma fs_put_get_task:
  assumes "root_session ctx origin S a" "unpromoted S" "p \<in> S"
  shows "\<exists>a'. FS5_file_put_sync (actor_fs E) p f (Some a, w) = (Inr (), (Some a', w)) \<and> root_session ctx origin S a'
      \<and> files_of a' = (files_of a)(p \<mapsto> f) \<and> da_dirty a' \<and> FS5_file_put (actor_fs E) p f (Some a, w) = (Inr (), (Some a', w))"
    and "\<exists>a'. FS5_file_get (actor_fs E) p (Some a, w) = (live_file (files_of a p), (Some a', w)) \<and> root_session ctx origin S a' \<and> files_of a' = files_of a"
proof -
  obtain a' where "actor_send E (PathOp p (FileOp (put_task f))) (Some a, w) = (Inr (AnsValue None), (Some a', w))"
    "root_session ctx origin S a'" "files_of a' = (files_of a)(p := Some f)" "da_dirty a'"
    using root_session_task[OF assms, of "put_task f" "Some f" None E w] by (auto simp: put_task_def)
  then show "\<exists>a'. FS5_file_put_sync (actor_fs E) p f (Some a, w) = (Inr (), (Some a', w)) \<and> root_session ctx origin S a'
      \<and> files_of a' = (files_of a)(p \<mapsto> f) \<and> da_dirty a' \<and> FS5_file_put (actor_fs E) p f (Some a, w) = (Inr (), (Some a', w))"
    by (auto simp: FS5_file_put_sync_def FS5_file_put_def execute_def execute_and_forget_def send_msg_def actor_fs_def act_bind_def act_ok_def act_ignore_def)
  obtain b where "actor_send E (PathOp p (FileOp get_task)) (Some a, w) = (Inr (AnsValue (files_of a p)), (Some b, w))"
    "root_session ctx origin S b" "files_of b = (files_of a)(p := files_of a p)"
    using root_session_task[OF assms, of get_task "files_of a p" "files_of a p" E w] by (auto simp: get_task_def)
  then show "\<exists>a'. FS5_file_get (actor_fs E) p (Some a, w) = (live_file (files_of a p), (Some a', w)) \<and> root_session ctx origin S a' \<and> files_of a' = files_of a"
    by (intro exI[of _ b])
       (auto simp: FS5_file_get_def execute_def actor_fs_def act_bind_def act_ok_def live_file_def FileRef_is_tombstone_def split: option.splits)
qed

text \<open>A codec that encodes one directory in few bytes.\<close>

definition short_codec :: "dir_v1 \<Rightarrow> dir_codec" where
  "short_codec d = \<lparr>dc_to_vec = \<lambda>e. if e = d then [] else 1 # replicate (to_nat e) 0,
     dc_from_bytes = \<lambda>bs. if bs = [] then Inr d else Inr (from_nat (length bs - 1)),
     dc_encrypt = \<lambda>_ _ p. p, dc_decrypt = \<lambda>_ _ c. Inr c\<rparr>"

lemma short_codec_ok: "dir_codec_ok (short_codec d)"
  by (simp add: dir_codec_ok_def short_codec_def)

end
