(* ===== verification/Client_Roundtrip.thy ===== *)
theory Client_Roundtrip
  imports S5_Client Root_Session
begin

text \<open>
  What a storage client promises: a file that was uploaded can be downloaded. The client relies on its connection, a
  blob client and a file system; the locale \<open>client_world\<close> states what it needs of the two, and its interpretation
  \<open>memory_client\<close> is a client whose root actor and whose blobs live on a server with a memory store.
\<close>

section \<open>The contract\<close>

text \<open>What the client will read back: the contents under a hash as the client may download them, and the files by path.
  \<open>ready n\<close> says that the connection works and that \<open>n\<close> more blobs can be pinned or published; \<open>fits\<close> that a directory
  with these files can be saved, \<open>fresh\<close> that the node has no blob yet under the hash of its encoding. \<open>published\<close> are the
  files that a session opened by \<open>reopen\<close> will see.\<close>

locale client_world =
  fixes C :: "'w blobs_client" and fs :: "'w fs5"
    and readable stored :: "'w \<Rightarrow> hash \<Rightarrow> bytes option" and view :: "'w \<Rightarrow> string \<Rightarrow> file_ref option"
    and ready :: "nat \<Rightarrow> 'w \<Rightarrow> bool" and paths :: "string set" and fits :: "(string \<Rightarrow> file_ref option) \<Rightarrow> bool"
    and fresh :: "(hash \<Rightarrow> bytes option) \<Rightarrow> (string \<Rightarrow> file_ref option) \<Rightarrow> bool" and dirty :: "'w \<Rightarrow> bool"
    and published :: "'w \<Rightarrow> (string \<Rightarrow> file_ref option) \<Rightarrow> bool" and reopen :: "'w \<Rightarrow> 'w"
  assumes upload_law: "ready (Suc n) w \<Longrightarrow> stored w (h_blake3 (cl_hash C) (concat cs)) \<in> {None, Some (concat cs)} \<Longrightarrow>
      \<exists>w'. cl_upload C (h_blake3 (cl_hash C) (concat cs)) (of_nat (length (concat cs))) cs w = (Inr (Inr ()), w')
        \<and> ready n w' \<and> view w' = view w \<and> readable w' (h_blake3 (cl_hash C) (concat cs)) = Some (concat cs)
        \<and> stored w' = (stored w)(h_blake3 (cl_hash C) (concat cs) \<mapsto> concat cs)"
    and download_law: "ready n w \<Longrightarrow> readable w h = Some c \<Longrightarrow> length c < 2 ^ 64 \<Longrightarrow>
      Client_download_bytes C h 0 None w = Inr c"
    and put_law: "ready n w \<Longrightarrow> p \<in> paths \<Longrightarrow> \<exists>w'. FS5_file_put_sync fs p f w = (Inr (), w')
      \<and> ready n w' \<and> view w' = (view w)(p \<mapsto> f) \<and> readable w' = readable w \<and> stored w' = stored w \<and> dirty w'"
    and get_law: "ready n w \<Longrightarrow> p \<in> paths \<Longrightarrow> \<exists>w'. FS5_file_get fs p w = (live_file (view w p), w')
      \<and> ready n w' \<and> view w' = view w \<and> readable w' = readable w"
    and save_law: "ready (Suc n) w \<Longrightarrow> fits (view w) \<Longrightarrow> \<exists>w'. FS5_save fs w = (Inr (), w')
      \<and> ready n w' \<and> view w' = view w \<and> (\<forall>h c. readable w h = Some c \<longrightarrow> readable w' h = Some c)
      \<and> (dirty w \<longrightarrow> fresh (stored w) (view w) \<longrightarrow> published w' (view w))"
    and reopen_law: "ready n w \<Longrightarrow> published w m \<Longrightarrow> \<forall>p. m p \<noteq> None \<longrightarrow> p \<in> paths \<Longrightarrow>
      ready n (reopen w) \<and> view (reopen w) = m \<and> readable (reopen w) = readable w"
    and view_paths: "ready n w \<Longrightarrow> view w p \<noteq> None \<Longrightarrow> p \<in> paths"

text \<open>The encrypted chunks of a file, and the reference an upload stores.\<close>

definition encrypted_chunks :: "client_crypto \<Rightarrow> bytes32 \<Rightarrow> bytes \<Rightarrow> bytes list" where
  "encrypted_chunks X key content =
    (case encrypt_chunks X (arr_list key) 0 (chunks_of (unat ENCRYPTION_BLOCK_SIZE) content) of Inr es \<Rightarrow> es | Inl _ \<Rightarrow> [])"

definition uploaded_ref :: "client_crypto \<Rightarrow> hashing \<Rightarrow> bytes32 \<Rightarrow> u32 \<Rightarrow> u32 \<Rightarrow> bytes \<Rightarrow> string \<Rightarrow> file_ref" where
  "uploaded_ref X H key s ns content media_type = set_timestamp s ns
    (if length content \<le> INLINE_BLOB_THRESHOLD then set_media_type media_type (FileRef_new_inline_blob (h_blake3 H) content)
     else encrypted_file_ref H content media_type key (h_blake3 H (concat (encrypted_chunks X key content))))"

lemma set_fields [simp]:
  "fr_ref_type (set_timestamp s ns f) = fr_ref_type f" "fr_locations (set_timestamp s ns f) = fr_locations f"
  "fr_ref_type (set_media_type m f) = fr_ref_type f" "fr_locations (set_media_type m f) = fr_locations f"
  "fr_ref_type (set_locations l f) = fr_ref_type f" "fr_locations (set_locations l f) = Some l"
  by (cases f; simp)+

lemma uploaded_ref_live: "live_file (Some (uploaded_ref X H key s ns content m)) = Some (uploaded_ref X H key s ns content m)"
  by (simp add: live_file_def FileRef_is_tombstone_def FileRef_ref_type_def uploaded_ref_def encrypted_file_ref_def
      FileRef_new_inline_blob_def FileRef_new_def)

lemma encrypted_chunks_ok:
  assumes "cipher_sized X"
  shows "encrypt_chunks X (arr_list key) 0 (chunks_of (unat ENCRYPTION_BLOCK_SIZE) content) = Inr (encrypted_chunks X key content)"
    "length (concat (encrypted_chunks X key content)) = encrypted_size (length content)"
proof -
  obtain es where "encrypt_chunks X (arr_list key) 0 (chunks_of (unat ENCRYPTION_BLOCK_SIZE) content) = Inr es"
    "length (concat es) = length (concat (chunks_of (unat ENCRYPTION_BLOCK_SIZE) content))
      + 16 * length (chunks_of (unat ENCRYPTION_BLOCK_SIZE) content)"
    using encrypt_chunks_ok[OF assms] chunks_of_bounded by metis
  then show "encrypt_chunks X (arr_list key) 0 (chunks_of (unat ENCRYPTION_BLOCK_SIZE) content) = Inr (encrypted_chunks X key content)"
    "length (concat (encrypted_chunks X key content)) = encrypted_size (length content)"
    by (simp_all add: encrypted_chunks_def encrypted_size_chunks concat_chunks_of)
qed

text \<open>What a download does with the reference of an upload.\<close>

lemma download_uploaded:
  assumes "cipher_ok X" "cipher_sized X" "encrypted_size (length content) + 262160 < 2 ^ ct_usize_bits T" "18 < ct_usize_bits T"
    and "INLINE_BLOB_THRESHOLD < length content \<Longrightarrow> cn_blobs cn = Some C
      \<and> Client_download_bytes C (h_blake3 H (concat (encrypted_chunks X key content))) 0 None w
        = Inr (concat (encrypted_chunks X key content))"
  shows "client_from_locations T X cn (the (fr_locations (uploaded_ref X H key s ns content m))) w = Some (Some (Inr content))"
proof (cases "length content \<le> INLINE_BLOB_THRESHOLD")
  case False
  let ?es = "encrypted_chunks X key content"
  have len: "length (concat ?es) = encrypted_size (length content)" by (rule encrypted_chunks_ok(2)[OF assms(2)])
  have "(2 :: nat) ^ 19 \<le> 2 ^ ct_usize_bits T" using assms(4) by (intro power_increasing) auto
  then have small: "(262144 :: nat) mod 2 ^ ct_usize_bits T = 262144" "(262144 + 16 :: nat) mod 2 ^ ct_usize_bits T = 262144 + 16"
    by simp_all
  have "decrypt_loop T X (arr_list key) (262144 + 16) ([] @ concat ?es) (length ([] :: bytes)) (of_nat 0) [] = Some (Inr ([] @ content))"
    by (rule decrypt_loop_encrypt[OF assms(1,2) _ _ encrypted_chunks_ok(1)[OF assms(2), simplified block_size]])
       (use assms(3) len in simp_all)
  then have "client_download_encrypted_blob T X cn (MultihashBlake3 (h_blake3 H (concat ?es))) key ENCRYPTION_BLOCK_SIZE w = Some (Inr content)"
    using assms(5) False small by (simp add: client_download_encrypted_blob_def Hash_from_bytes_def Let_def)
  then show ?thesis using False by (simp add: uploaded_ref_def encrypted_file_ref_def)
qed (simp add: uploaded_ref_def FileRef_new_inline_blob_def)

context client_world
begin

lemma upload_encrypted:
  assumes "cipher_sized X" "ready (Suc n) w" "cn_blobs cn = Some C"
    and "stored w (h_blake3 (cl_hash C) (concat (encrypted_chunks X key content))) \<in> {None, Some (concat (encrypted_chunks X key content))}"
  obtains w' where "client_upload_encrypted_blob T X (cl_hash C) cn (Some key) content m w
      = (Inr (encrypted_file_ref (cl_hash C) content m key (h_blake3 (cl_hash C) (concat (encrypted_chunks X key content)))), w')"
    "ready n w'" "view w' = view w"
    "readable w' (h_blake3 (cl_hash C) (concat (encrypted_chunks X key content))) = Some (concat (encrypted_chunks X key content))"
    "stored w' = (stored w)(h_blake3 (cl_hash C) (concat (encrypted_chunks X key content)) \<mapsto> concat (encrypted_chunks X key content))"
  using upload_law[OF assms(2,4)] assms(3) encrypted_chunks_ok[OF assms(1), of key content]
  by (auto simp: client_upload_encrypted_blob_def Let_def)

lemma upload_then_download:
  assumes "cipher_ok X" "cipher_sized X" "cn_blobs cn = Some C" "cn_fs cn = Some fs" "ready 2 w"
    and "full_path path name \<in> paths" "fits ((view w)(full_path path name \<mapsto> uploaded_ref X (cl_hash C) key s ns content m))"
    and "stored w (h_blake3 (cl_hash C) (concat (encrypted_chunks X key content))) \<in> {None, Some (concat (encrypted_chunks X key content))}"
    and "encrypted_size (length content) + 262160 < 2 ^ ct_usize_bits T" "18 < ct_usize_bits T" "ct_usize_bits T \<le> 64"
    and "ct_json T (uploaded_ref X (cl_hash C) key s ns content m) = Inr j"
    and "fresh (if length content \<le> INLINE_BLOB_THRESHOLD then stored w
        else (stored w)(h_blake3 (cl_hash C) (concat (encrypted_chunks X key content)) \<mapsto> concat (encrypted_chunks X key content)))
      ((view w)(full_path path name \<mapsto> uploaded_ref X (cl_hash C) key s ns content m))"
  shows "\<exists>w'. client_upload_file T X (cl_hash C) cn (Some key) s ns path name content m w = (Inr j, w')
    \<and> fst (client_download_file T X cn (full_path path name) w') = Some (Inr content)
    \<and> fst (client_download_file T X cn (full_path path name) (reopen w')) = Some (Inr content)"
proof -
  let ?p = "full_path path name" and ?es = "encrypted_chunks X key content" and ?f = "uploaded_ref X (cl_hash C) key s ns content m"
  let ?h = "h_blake3 (cl_hash C) (concat ?es)"
  obtain r w1 where 1: "(if length content \<le> INLINE_BLOB_THRESHOLD
            then (Inr (set_media_type m (FileRef_new_inline_blob (h_blake3 (cl_hash C)) content)), w)
            else client_upload_encrypted_blob T X (cl_hash C) cn (Some key) content m w) = (Inr r, w1)"
    "set_timestamp s ns r = ?f" "ready 1 w1 \<or> ready 2 w1" "view w1 = view w"
    "INLINE_BLOB_THRESHOLD < length content \<Longrightarrow> readable w1 ?h = Some (concat ?es)"
    "fresh (stored w1) ((view w)(?p \<mapsto> ?f))"
  proof (cases "length content \<le> INLINE_BLOB_THRESHOLD")
    case False
    obtain v where v: "client_upload_encrypted_blob T X (cl_hash C) cn (Some key) content m w
        = (Inr (encrypted_file_ref (cl_hash C) content m key ?h), v)"
      "ready 1 v" "view v = view w" "readable v ?h = Some (concat ?es)" "stored v = (stored w)(?h \<mapsto> concat ?es)"
      using upload_encrypted[OF assms(2) _ assms(3,8), of 1 T m] assms(5) by (metis One_nat_def numeral_2_eq_2)
    show thesis
      by (rule that[of "encrypted_file_ref (cl_hash C) content m key ?h" v]) (use False v assms(13) in \<open>simp_all add: uploaded_ref_def\<close>)
  qed (rule that[of "set_media_type m (FileRef_new_inline_blob (h_blake3 (cl_hash C)) content)" w],
       use assms(5,13) in \<open>simp_all add: uploaded_ref_def\<close>)
  then obtain n where n: "ready (Suc n) w1" by (metis One_nat_def numeral_2_eq_2)
  obtain w2 where 2: "FS5_file_put_sync fs ?p ?f w1 = (Inr (), w2)" "ready (Suc n) w2" "view w2 = (view w)(?p \<mapsto> ?f)" "readable w2 = readable w1"
    "stored w2 = stored w1" "dirty w2"
    using put_law[OF n assms(6), of ?f] 1(4) by auto
  obtain w3 where 3: "FS5_save fs w2 = (Inr (), w3)" "ready n w3" "view w3 = view w2" "\<forall>h c. readable w2 h = Some c \<longrightarrow> readable w3 h = Some c"
    "published w3 (view w3)"
    using save_law[OF 2(2)] 2(3,5,6) 1(6) assms(7) by auto
  have re: "ready n (reopen w3)" "view (reopen w3) = view w3" "readable (reopen w3) = readable w3"
    using reopen_law[OF 3(2,5)] view_paths[OF 3(2)] by blast+
  have len: "length (concat ?es) < 2 ^ 64"
  proof -
    have "(2 :: nat) ^ ct_usize_bits T \<le> 2 ^ 64" using assms(11) by (intro power_increasing) auto
    then show ?thesis using assms(9) encrypted_chunks_ok(2)[OF assms(2), of key content] by linarith
  qed
  have "fr_locations ?f \<noteq> None" by (simp add: uploaded_ref_def encrypted_file_ref_def FileRef_new_inline_blob_def)
  then obtain locs where locs: "fr_locations ?f = Some locs" by blast
  have d: "fst (client_download_file T X cn ?p v) = Some (Inr content)" if v: "ready n v" "view v = view w3" "readable v = readable w3" for v
  proof -
    obtain v' where v': "FS5_file_get fs ?p v = (Some ?f, v')" "ready n v'" "readable v' = readable v"
      using get_law[OF v(1) assms(6)] v(2) 2(3) 3(3) uploaded_ref_live by auto
    have "cn_blobs cn = Some C \<and> Client_download_bytes C ?h 0 None v' = Inr (concat ?es)" if "INLINE_BLOB_THRESHOLD < length content"
      using download_law[OF v'(2) _ len, of ?h] 1(5)[OF that] 2(4) 3(4) v(3) v'(3) assms(3) by simp
    from download_uploaded[OF assms(1,2,9,10) this, of s ns m] locs v'(1) assms(4) show ?thesis by (simp add: client_download_file_def)
  qed
  have "client_upload_file T X (cl_hash C) cn (Some key) s ns path name content m w = (Inr j, w3)"
    using 1(1,2) 2(1) 3(1) assms(4,12) by (simp add: client_upload_file_def with_fs_def or_storage_def Let_def)
  with d[OF 3(2)] d[OF re] show ?thesis by blast
qed

end

section \<open>A server with a memory store\<close>

text \<open>The node serves its blobs and its registry, where it also keeps the pins.\<close>

type_synonym node_state = "memory_store \<times> memory_registry"

definition registry_on_snd :: "'b registry \<Rightarrow> ('a \<times> 'b) registry" where
  "registry_on_snd R =
    \<lparr>rg_get = \<lambda>k w. rg_get R k (snd w), rg_set = \<lambda>m. on_snd (rg_set R m), rg_delete = \<lambda>k. on_snd (rg_delete R k)\<rparr>"

definition node_registry :: "(error \<Rightarrow> string) \<Rightarrow> node_state registry_peer" where
  "node_registry shw = \<lparr>peer_link = \<lambda>_. None, peer_show = shw, peer_registry = registry_on_snd MemoryRegistry\<rparr>"

abbreviation node_blob :: "hashing \<Rightarrow> node_state \<Rightarrow> hash \<Rightarrow> bytes option" where
  "node_blob H \<equiv> blob_at H (store_on_fst MemoryStore) (\<lambda>w. bt_get (fst w))"

text \<open>What the peer \<open>node\<close> may download.\<close>

definition own_blob :: "hashing \<Rightarrow> pin_codec \<Rightarrow> bytes32 \<Rightarrow> node_state \<Rightarrow> hash \<Rightarrow> bytes option" where
  "own_blob H P node w h = (if NodeId node \<in> pins_of P (bt_get (snd w)) h then node_blob H w h else None)"

text \<open>The registry has room for \<open>n\<close> more pins of any blob, and for \<open>n\<close> more revisions of the entry of the user.\<close>

definition registry_ready :: "pin_codec \<Rightarrow> stream_key \<Rightarrow> nat \<Rightarrow> memory_registry \<Rightarrow> bool" where
  "registry_ready P pk n r \<longleftrightarrow> pins_ok P (bt_get r) \<and> revisions_le (2 ^ 64 - 2 - n) r \<and> n < 2 ^ 63
    \<and> (\<forall>m. bt_get r pk = Some m \<longrightarrow> wire_ok m \<and> unat (sm_revision m) + n < 2 ^ 64)"

lemma registry_ready_Suc: "registry_ready P pk (Suc n) r \<Longrightarrow> registry_ready P pk n r"
  by (force simp: registry_ready_def revisions_le_def)

lemma pins_room_ready: "registry_ready P pk (Suc n) r \<Longrightarrow> pins_room (bt_get r)"
  by (force simp: registry_ready_def revisions_le_def pins_room_def word_less_nat_alt unsigned_minus_1_eq_mask mask_eq_exp_minus_1)

lemma pin_ready:
  assumes "pin_codec_ok P" "registry_ready P (PublicKeyEd25519 k) (Suc n) r"
  obtains r' where "pin_hash P MemoryRegistry h c r = (Inr (), r')" "registry_ready P (PublicKeyEd25519 k) n r'"
    "pins_of P (bt_get r') = (pins_of P (bt_get r))(h := insert c (pins_of P (bt_get r) h))"
    "bt_get r' (PublicKeyEd25519 k) = bt_get r (PublicKeyEd25519 k)"
proof -
  have ok: "pins_ok P (bt_get r)" using assms(2) by (simp add: registry_ready_def)
  let ?s = "insert c (pins_of P (bt_get r) h)"
  obtain r' where r': "save_internal P MemoryRegistry (hash_to_key h) ?s (entry_revision (bt_get r) h + 1) r = (Inr (), r')"
    "revisions_le (Suc (2 ^ 64 - 2 - Suc n)) r'"
  proof -
    have "(2 ^ 64 - 2 - Suc n :: nat) < 2 ^ 64 - 1" by (rule le_less_trans[OF diff_le_self]) simp
    then show thesis
      using memory_save_internal[of "2 ^ 64 - 2 - Suc n" r ?s P h] assms(2) that by (auto simp: registry_ready_def)
  qed
  have "bt_get r' (PublicKeyEd25519 k) = bt_get r (PublicKeyEd25519 k)"
    using r'(1) by (auto simp: save_internal_def memory_registry_defs Let_def StreamMessage_new_Inr_iff hash_to_key_def split: sum.splits if_splits)
  moreover have "pins_ok P (bt_get r') \<and> pins_of P (bt_get r') = (pins_of P (bt_get r))(h := ?s)"
    using memory_registry.save_internal_law[OF TrueI _ assms(1) ok pins_room_ready[OF assms(2)] _ r'(1)] by simp
  moreover have "n < 2 ^ 63" using assms(2) by (simp add: registry_ready_def)
  then have "Suc (2 ^ 64 - 2 - Suc n) = 2 ^ 64 - 2 - n" by (subst Suc_diff_Suc) simp_all
  moreover have "pin_hash P MemoryRegistry h c r = (Inr (), r')"
    using r'(1) memory_get_internal[OF ok, of h] by (simp add: pin_hash_def Let_def act_bind_def)
  ultimately show thesis using that[of r'] registry_ready_Suc[OF assms(2)] r'(2) by (simp add: registry_ready_def)
qed

text \<open>A peer that may upload to and read from one of the stores of the node.\<close>

definition peer_served :: "hashing \<Rightarrow> pin_codec \<Rightarrow> string list \<Rightarrow> (string, peer_config_blobs) btree \<Rightarrow> string \<Rightarrow> bool" where
  "peer_served H P names cfgs key \<longleftrightarrow> hash_libs_ok H \<and> pin_codec_ok P \<and>
    (\<exists>cfg n. BlobsServer_cfg_for (memory_blobs_server H (\<lambda>_. []) P names cfgs) key = Some cfg
      \<and> store_uploads_in cfg = Some n \<and> n \<in> set names \<and> n \<in> set (readable_stores cfg))"

lemma cfg_for_memory:
  "BlobsServer_cfg_for (memory_blobs_server H shw P names cfgs) key = BlobsServer_cfg_for (memory_blobs_server H (\<lambda>_. []) P names cfgs) key"
  by (simp add: BlobsServer_cfg_for_def split: option.split)

lemma peer_servedD:
  assumes "peer_served H P names cfgs key"
  obtains cfg n where "hash_libs_ok H" "pin_codec_ok P"
    "BlobsServer_cfg_for (memory_blobs_server H shw P names cfgs) key = Some cfg"
    "store_uploads_in cfg = Some n" "n \<in> set names" "n \<in> set (readable_stores cfg)"
  using assms unfolding peer_served_def cfg_for_memory[of H shw P names cfgs key] by blast

text \<open>An upload makes the blob readable for the peer and leaves what it could read before.\<close>

lemma upload_ready:
  assumes "peer_served H P names cfgs key" "registry_ready P (PublicKeyEd25519 k) (Suc n) (snd w)"
    and "node_blob H w (h_blake3 H (concat cs)) \<in> {None, Some (concat cs)}"
  obtains w' where "cl_upload (server_client (memory_blobs_server H shw P names cfgs) u key node)
      (h_blake3 H (concat cs)) (of_nat (length (concat cs))) cs w = (Inr (Inr ()), w')"
    "registry_ready P (PublicKeyEd25519 k) n (snd w')" "own_blob H P node w' (h_blake3 H (concat cs)) = Some (concat cs)"
    "\<And>h. h \<noteq> h_blake3 H (concat cs) \<Longrightarrow> own_blob H P node w' h = own_blob H P node w h"
    "bt_get (snd w') (PublicKeyEd25519 k) = bt_get (snd w) (PublicKeyEd25519 k)"
    "node_blob H w' = (node_blob H w)(h_blake3 H (concat cs) \<mapsto> concat cs)"
proof -
  let ?S = "memory_blobs_server H shw P names cfgs" and ?h = "h_blake3 H (concat cs)"
  obtain cfg nm where cfg: "hash_libs_ok H" "pin_codec_ok P" "BlobsServer_cfg_for ?S key = Some cfg"
    "store_uploads_in cfg = Some nm" "nm \<in> set names"
    using peer_servedD[OF assms(1)] by metis
  have st: "bt_get (sv_stores ?S) nm = Some (BlobStore_new (store_on_fst MemoryStore))" using cfg(5) by simp
  obtain w1 where i: "BlobStore_import_stream H (BlobStore_new (store_on_fst MemoryStore)) u (map (\<lambda>c. Ready (Inr c)) cs) w
      = (Inr \<lparr>bid_hash = ?h, bid_size = of_nat (length (concat cs))\<rparr>, w1)"
    "node_blob H w1 ?h = Some (concat cs)" "\<And>h. h \<noteq> ?h \<Longrightarrow> node_blob H w1 h = node_blob H w h"
    by (rule memory_server.import_upload[where H = H and shw = shw and C = P and names = names and cfgs = cfgs and n = nm and cs = cs,
          unfolded memory_blobs_server_simps(1), OF cfg(1) TrueI st assms(3), where uuid = u]) blast
  have "blobs_keep snd (BlobStore_new (store_on_fst MemoryStore) :: node_state blob_store)"
    using store_on_fst_keeps[of id MemoryStore] by (simp add: blobs_keep_def BlobStore_new_def)
  from act_keepsD[OF BlobStore_import_stream_keeps[OF this] i(1)] have sn: "snd w1 = snd w" .
  obtain r' where p: "pin_hash P MemoryRegistry ?h (NodeId node) (snd w1) = (Inr (), r')" "registry_ready P (PublicKeyEd25519 k) n r'"
    "pins_of P (bt_get r') = (pins_of P (bt_get (snd w1)))(?h := insert (NodeId node) (pins_of P (bt_get (snd w1)) ?h))"
    "bt_get r' (PublicKeyEd25519 k) = bt_get (snd w1) (PublicKeyEd25519 k)"
    using pin_ready[OF cfg(2), of k n "snd w1" ?h "NodeId node"] assms(2) sn by metis
  have blob: "node_blob H (fst w1, r') = node_blob H w1" by (simp add: blob_at_def fun_eq_iff)
  have up: "handle_upload ?S u node (Some cfg) ?h (of_nat (length (concat cs))) cs w = (Inr (), (fst w1, r'))"
    using i(1) p(1) cfg(4) st by (cases w1) (simp add: handle_upload_def pins_on_snd_def RegistryPinner_def)
  have "node_blob H (fst w1, r') = (node_blob H w)(?h \<mapsto> concat cs)"
    unfolding blob by (rule ext) (use i(2,3) in simp)
  then show thesis
    by (intro that[of "(fst w1, r')"]) (use up cfg(3) p i blob sn in \<open>simp_all add: own_blob_def\<close>)
qed

lemma download_ready:
  assumes "peer_served H P names cfgs key" "registry_ready P pk n (snd w)" "own_blob H P node w h = Some c" "length c < 2 ^ 64"
  shows "Client_download_bytes (server_client (memory_blobs_server H shw P names cfgs) u key node) h 0 None w = Inr c"
proof -
  let ?S = "memory_blobs_server H shw P names cfgs"
  obtain cfg nm where cfg: "hash_libs_ok H" "pin_codec_ok P" "BlobsServer_cfg_for ?S key = Some cfg" "nm \<in> set (readable_stores cfg)" "nm \<in> set names"
    using peer_servedD[OF assms(1)] by metis
  have own: "NodeId node \<in> pins_of P (bt_get (snd w)) h" "node_blob H w h = Some c"
    using assms(3) by (auto simp: own_blob_def split: if_splits)
  have "concat (handle_download ?S node (Some cfg) h 0 None w) = slice_of 0 None c"
    using memory_server.download_slice[where H = H and shw = shw and C = P and names = names and cfgs = cfgs and w = w and h = h and c = c
        and cfg = cfg and n = nm and node = node and off = 0 and len = None] own assms(2,4) cfg by (simp add: registry_ready_def)
  then show ?thesis using cfg(3) by (simp add: Client_download_bytes_def slice_of_def)
qed

subsection \<open>Saving to the node\<close>

text \<open>The environment of the root actor of a connected client: the blobs and the registry are those of the node, nothing
  is pinned locally. What else an actor uses is taken from \<open>base\<close>.\<close>

definition connected_env :: "hashing \<Rightarrow> 'w blobs_client \<Rightarrow> 'w registry_peer \<Rightarrow> 'w fs_env \<Rightarrow> 'w fs_env" where
  "connected_env H C peer base =
    base\<lparr>fe_hash := H, fe_blobs := BlobStore_new (RemoteBlobStore C), fe_registry := RemoteRegistry peer, fe_pins := None\<rparr>"

lemma import_ready:
  assumes "peer_served H P names cfgs key" "registry_ready P (PublicKeyEd25519 k) (Suc n) (snd w)" "length c < 2 ^ 16"
  obtains w' where "BlobStore_import_bytes H (BlobStore_new (RemoteBlobStore (server_client (memory_blobs_server H shw P names cfgs) u key node)))
      uuid c w = (Inr \<lparr>bid_hash = h_blake3 H c, bid_size = of_nat (length c)\<rparr>, w')"
    "registry_ready P (PublicKeyEd25519 k) n (snd w')" "\<And>h d. own_blob H P node w h = Some d \<Longrightarrow> own_blob H P node w' h = Some d"
    "bt_get (snd w') (PublicKeyEd25519 k) = bt_get (snd w) (PublicKeyEd25519 k)"
    "node_blob H w (h_blake3 H c) = None \<Longrightarrow> own_blob H P node w' (h_blake3 H c) = Some c"
proof -
  let ?S = "memory_blobs_server H shw P names cfgs"
  let ?C = "server_client ?S u key node" and ?h = "h_blake3 H c"
  obtain cfg nm where cfg: "hash_libs_ok H" "pin_codec_ok P" "BlobsServer_cfg_for ?S key = Some cfg" "store_uploads_in cfg = Some nm"
    "nm \<in> set (readable_stores cfg)" "nm \<in> set names"
    using peer_servedD[OF assms(1)] by metis
  have pc: "path_codec_ok (h_codec H)" using cfg(1) by (simp add: hash_libs_ok_def)
  have ex: "Remote_exists ?C (blob_path_for_hash (h_codec H) ?h Remote_features) w = Inr (node_blob H w ?h \<noteq> None)"
    using memory_server.remote_query(1)[where H = H and shw = shw and C = P and names = names and cfgs = cfgs, unfolded memory_blobs_server_simps(1),
        OF pc TrueI cfg(3,5), of u node ?h w] cfg(6) by simp
  note imp = import_bytes_remote[OF disjI2[OF conjI[OF refl assms(3)]], of H ?C uuid w]
  show thesis
  proof (cases "node_blob H w ?h")
    case None
    obtain w' where up: "cl_upload ?C (h_blake3 H (concat [c])) (of_nat (length (concat [c]))) [c] w = (Inr (Inr ()), w')"
      "registry_ready P (PublicKeyEd25519 k) n (snd w')" "own_blob H P node w' (h_blake3 H (concat [c])) = Some (concat [c])"
      "\<And>h. h \<noteq> h_blake3 H (concat [c]) \<Longrightarrow> own_blob H P node w' h = own_blob H P node w h"
      "bt_get (snd w') (PublicKeyEd25519 k) = bt_get (snd w) (PublicKeyEd25519 k)"
      using upload_ready[OF assms(1,2), of "[c]" shw u node] None by (metis concat.simps append_Nil2 insertI1)
    have frame: "own_blob H P node w' h = Some d" if "own_blob H P node w h = Some d" for h d
      using up(4)[of h] that None by (cases "h = ?h") (simp_all add: own_blob_def split: if_splits)
    have "cl_pin ?C ?h w = (Inr (Inr False), w)"
      using memory_server.store_has(1)[where H = H and shw = shw and C = P and names = names and cfgs = cfgs and h = ?h and w = w, OF TrueI]
        cfg(3,4,6) None by (simp add: handle_pin_def BlobStore_new_def)
    then have "Remote_put_bytes ?C (blob_path_for_hash (h_codec H) ?h Remote_features) c w = (Inr (), w')"
      using up(1) hash_from_path_remote(1)[OF pc, of ?h]
      by (simp add: Remote_put_bytes_def act_bind_def act_lift_def pin_or_def upload_chunks_def upload_answer_def del: server_client_simps(4))
    then show thesis using that[OF _ up(2) frame up(5)] up(3) imp ex None by (simp add: Let_def)
  next
    case (Some d)
    then show thesis using that[of w] imp ex registry_ready_Suc[OF assms(2)] by (simp add: Let_def)
  qed
qed

lemma Client_get_ready:
  assumes "registry_ready P (PublicKeyEd25519 k) n (snd w)"
  shows "rg_get (RemoteRegistry (node_registry shw)) (PublicKeyEd25519 k) w = Inr (bt_get (snd w) (PublicKeyEd25519 k))"
proof -
  have "StreamKey_from_bytes PUBLIC_KEY_ED25519_ID (arr_list k) = Inr (PublicKeyEd25519 k)"
    by (simp add: StreamKey_from_bytes_def stream_key_ids)
  then show ?thesis
    using assms
    by (auto simp: node_registry_def RemoteRegistry_def Client_get_def RegistryServer_handle_get_def registry_on_snd_def
        memory_registry_defs registry_ready_def case_prod_unfold Let_def length_StreamKey_to_bytes split: option.splits)
qed

text \<open>The signature of an Ed25519 key has 64 bytes, so a published entry is a valid message.\<close>

lemma publish_ready:
  assumes "registry_ready P (PublicKeyEd25519 k) n (snd w)" "\<And>bs. length (fe_sign base sk bs) = 64"
    and "\<And>m. bt_get (snd w) (PublicKeyEd25519 k) = Some m \<Longrightarrow> unat (sm_revision m) + Suc n < 2 ^ 64"
  obtains r' where "publish (connected_env H C (node_registry shw) base) (PublicKeyEd25519 k) sk h w = (Inr (), (fst w, r'))"
    "registry_ready P (PublicKeyEd25519 k) n r'" "pins_of P (bt_get r') = pins_of P (bt_get (snd w))"
    "\<exists>m. bt_get r' (PublicKeyEd25519 k) = Some m \<and> sm_hash m = h"
proof -
  let ?pk = "PublicKeyEd25519 k" and ?E = "connected_env H C (node_registry shw) base"
  let ?cur = "bt_get (snd w) ?pk"
  define rv where "rv = (case ?cur of None \<Rightarrow> 0 | Some e \<Rightarrow> sm_revision e + 1)"
  define m where "m = \<lparr>sm_type_id = Registry, sm_key = ?pk, sm_revision = rv, sm_hash = h,
    sm_signature = fe_sign base sk (registry_sign_bytes ?pk rv h), sm_data = None\<rparr>"
  have ok: "message_ok m" using assms(2) by (simp add: m_def message_ok_def)
  have new: "StreamMessage_new Registry ?pk rv h (fe_sign base sk (registry_sign_bytes ?pk rv h)) None = Inr m"
    using ok by (simp add: StreamMessage_new_Inr_iff m_def)
  have wire: "wire_ok m" using ok by (simp add: wire_ok_def m_def)
  have get: "rg_get (fe_registry ?E) ?pk w = Inr ?cur" using Client_get_ready[OF assms(1)] by (simp add: connected_env_def)
  have "sm_revision e < sm_revision m" if "?cur = Some e" for e
    using assms(3)[OF that] that by (simp add: m_def rv_def word_less_nat_alt unat_word_ariths)
  then have "StreamMessage_should_store m ?cur"
    by (auto simp: m_def StreamMessage_should_store_def StreamMessage_cmp_def then_with_def cmp_of_def split: option.splits)
  moreover have "sm_key m = ?pk" by (simp add: m_def)
  ultimately obtain r' where set: "MemoryRegistry_set m (snd w) = (Inr (), r')" "r' = bt_insert ?pk m (snd w)"
    by (simp add: MemoryRegistry_set_def Let_def)
  have "rg_set (fe_registry ?E) m w = (Inr (), (fst w, r'))"
    using set(1) wire
    by (cases w) (simp add: connected_env_def node_registry_def RemoteRegistry_def
        Client_set_def RegistryServer_handle_set_def registry_on_snd_def MemoryRegistry_def)
  moreover have "fe_sign ?E = fe_sign base" by (simp add: connected_env_def)
  ultimately have "publish ?E ?pk sk h w = (Inr (), (fst w, r'))"
    using get new by (simp add: publish_def act_bind_def rv_def[symmetric] Let_def)
  moreover have keys: "bt_get r' (hash_to_key x) = bt_get (snd w) (hash_to_key x)" for x using set(2) by (auto simp: hash_to_key_def)
  moreover have "unat rv + n < 2 ^ 64" if "?cur = Some e" for e
    using assms(3)[OF that] that by (simp add: rv_def unat_word_ariths)
  ultimately show thesis
    using that[of r'] assms(1) set(2) wire
    by (auto simp: registry_ready_def pins_ok_def revisions_le_def pins_of_def m_def rv_def fun_eq_iff split: option.splits)
qed

subsection \<open>The root actor of a client\<close>

text \<open>A root actor on the user's key that handles all its paths itself: no subdirectory is open and no autosave is set. Its
  header and its subdirectories are those of \<open>origin\<close>.\<close>

abbreviation session :: "derived_keys \<Rightarrow> dir_v1 \<Rightarrow> string set \<Rightarrow> dir_actor \<Rightarrow> bool" where
  "session keys \<equiv> root_session (client_context keys)"

lemma client_context_simps [simp]:
  "cx_link (client_context keys) = LinkRegistryKey (PublicKeyEd25519 (sk_public_key (dk_sync_keys keys))) (Some (sk_signing_key_bytes (dk_sync_keys keys)))"
  "cx_encryption_type (client_context keys) = Some ENCRYPTION_TYPE_XCHACHA20_POLY1305"
  "bt_get (cx_keys (client_context keys)) 0x0e = Some (sk_encryption_key (dk_sync_keys keys))"
  by (simp_all add: client_context_def DirContext_new_encrypted_registry_def DirContext_new_def Let_def)

lemma client_root_link [simp]: "root_link (client_context keys)"
  by (simp add: root_link_def)

text \<open>A directory that is stored whole: small enough not to be split, and below the size from which a blob store wants an
  outboard.\<close>

definition dir_fits :: "dir_codec \<Rightarrow> bytes32 \<Rightarrow> dir_v1 \<Rightarrow> (string \<Rightarrow> file_ref option) \<Rightarrow> bool" where
  "dir_fits D key origin m \<longleftrightarrow> (\<forall>st. same_frame origin st \<and> bt_get (dv_files st) = m \<longrightarrow>
    length (DirV1_to_bytes D st) < MAX_DIR_BYTES_BEFORE_SHARD
    \<and> (\<forall>nonce. length nonce = 24 \<longrightarrow> length (encrypt_dir_bytes D key nonce (DirV1_to_bytes D st)) < 2 ^ 16))"

text \<open>What is stored for a directory, and the session of a device that opens the file system anew.\<close>

definition dir_blob :: "'w fs_env \<Rightarrow> derived_keys \<Rightarrow> fresh \<Rightarrow> dir_v1 \<Rightarrow> bytes" where
  "dir_blob base keys x st =
    encrypt_dir_bytes (fe_codec base) (sk_encryption_key (dk_sync_keys keys)) (fx_nonce x) (DirV1_to_bytes (fe_codec base) st)"

definition open_session :: "'w fs_env \<Rightarrow> derived_keys \<Rightarrow> dir_actor option \<times> 'w \<Rightarrow> dir_actor option \<times> 'w" where
  "open_session E keys s =
    (case load E (DirActor_new (client_context keys) None None, snd s) of
       (Inl _, (a, w)) \<Rightarrow> (None, w)
     | (Inr _, (a, w)) \<Rightarrow> (Some a, w))"

text \<open>The same for any keys: the root on a public key, and its stored form.\<close>

definition sync_context :: "sync_keys \<Rightarrow> dir_context" where
  "sync_context ks =
    DirContext_new_encrypted_registry (PublicKeyEd25519 (sk_public_key ks)) (sk_signing_key_bytes ks) (sk_encryption_key ks)"

definition sync_blob :: "'w fs_env \<Rightarrow> sync_keys \<Rightarrow> fresh \<Rightarrow> dir_v1 \<Rightarrow> bytes" where
  "sync_blob base ks x st = encrypt_dir_bytes (fe_codec base) (sk_encryption_key ks) (fx_nonce x) (DirV1_to_bytes (fe_codec base) st)"

lemma sync_context_simps [simp]:
  "cx_link (sync_context ks) = LinkRegistryKey (PublicKeyEd25519 (sk_public_key ks)) (Some (sk_signing_key_bytes ks))"
  "cx_encryption_type (sync_context ks) = Some ENCRYPTION_TYPE_XCHACHA20_POLY1305"
  "bt_get (cx_keys (sync_context ks)) 0x0e = Some (sk_encryption_key ks)"
  by (simp_all add: sync_context_def DirContext_new_encrypted_registry_def DirContext_new_def Let_def)

lemma client_sync: "client_context keys = sync_context (dk_sync_keys keys)" "dir_blob base keys x st = sync_blob base (dk_sync_keys keys) x st"
  by (simp_all add: client_context_def sync_context_def dir_blob_def sync_blob_def)

lemma quiet_remote_save:
  fixes H shw P names cfgs u key node base
  defines "E \<equiv> connected_env H (server_client (memory_blobs_server H shw P names cfgs) u key node) (node_registry shw) base"
  assumes "peer_served H P names cfgs key" "quiet_root (sync_context ks) a"
    and small: "length (DirV1_to_bytes (fe_codec base) (da_state a)) < MAX_DIR_BYTES_BEFORE_SHARD" "length (sync_blob base ks x (da_state a)) < 2 ^ 16"
    and "registry_ready P (PublicKeyEd25519 (sk_public_key ks)) (Suc n) (snd w)"
    and "\<And>sk bs. length (fe_sign base sk bs) = 64"
    and fx: "fe_fresh base = Pair x"
  shows "\<exists>a' w'. FS5_save (actor_fs E) (Some a, w) = (Inr (), (Some a', w')) \<and> quiet_root (sync_context ks) a' \<and> da_state a' = da_state a
    \<and> registry_ready P (PublicKeyEd25519 (sk_public_key ks)) n (snd w')
    \<and> (\<forall>h c. own_blob H P node w h = Some c \<longrightarrow> own_blob H P node w' h = Some c)
    \<and> (da_dirty a \<longrightarrow> node_blob H w (h_blake3 H (sync_blob base ks x (da_state a))) = None \<longrightarrow>
        own_blob H P node w' (h_blake3 H (sync_blob base ks x (da_state a))) = Some (sync_blob base ks x (da_state a))
        \<and> (\<exists>m. bt_get (snd w') (PublicKeyEd25519 (sk_public_key ks)) = Some m \<and> sm_hash m = h_blake3 H (sync_blob base ks x (da_state a))))"
proof -
  let ?pk = "PublicKeyEd25519 (sk_public_key ks)" and ?sk = "sk_signing_key_bytes ks"
  have E: "fe_codec E = fe_codec base" "fe_fresh E = fe_fresh base" "fe_hash E = H"
    "fe_blobs E = BlobStore_new (RemoteBlobStore (server_client (memory_blobs_server H shw P names cfgs) u key node))"
    by (simp_all add: E_def connected_env_def)
  have fresh: "fe_fresh base w = (x, w)" using fx by simp
  have lvl: "dh_shard_level (dv_header (da_state a)) = None" using assms(3) by (simp add: quiet_root_def)
  obtain l c where sh: "shard_if_needed E (a, w) = (Inr (), (a\<lparr>da_last_serialized_len := l, da_shard_size_check_ops := c\<rparr>, w))"
    using shard_if_needed_small[of a E w] lvl small(1) E(1) by auto
  let ?a = "a\<lparr>da_last_serialized_len := l, da_shard_size_check_ops := c\<rparr>"
  have root: "is_root a" "da_dir_handles ?a = bt_empty" "da_dir_shard_handles ?a = bt_empty" "da_context ?a = sync_context ks"
    using assms(3) by (simp_all add: is_root_def quiet_root_def)
  define bs where "bs = sync_blob base ks x (da_state a)"
  have enc: "encode_state_bytes E (?a, w) = (Inr bs, (?a, w))"
    using fresh root(4) by (simp add: encode_state_bytes_def Let_def act_fresh_def act_ok_def E bs_def sync_blob_def)
  have len: "length bs < 2 ^ 16" unfolding bs_def by (rule small(2))
  obtain w1 where w1: "import_meta E bs w = (Inr \<lparr>bid_hash = h_blake3 H bs, bid_size = of_nat (length bs)\<rparr>, w1)"
    "registry_ready P ?pk n (snd w1)" "\<And>h d. own_blob H P node w h = Some d \<Longrightarrow> own_blob H P node w1 h = Some d"
    "bt_get (snd w1) ?pk = bt_get (snd w) ?pk" "node_blob H w (h_blake3 H bs) = None \<Longrightarrow> own_blob H P node w1 (h_blake3 H bs) = Some bs"
    using import_ready[OF assms(2) assms(6) len, of shw u node "fx_uuid x"] fresh
    by (auto simp: import_meta_def act_bind_def act_fresh_def E)
  obtain r' where pub: "publish E ?pk ?sk (h_blake3 H bs) w1 = (Inr (), (fst w1, r'))" "registry_ready P ?pk n r'"
    "pins_of P (bt_get r') = pins_of P (bt_get (snd w1))" "\<exists>m. bt_get r' ?pk = Some m \<and> sm_hash m = h_blake3 H bs"
  proof -
    have "unat (sm_revision m) + Suc n < 2 ^ 64" if "bt_get (snd w1) ?pk = Some m" for m
      using assms(6) that w1(4) by (simp add: registry_ready_def)
    from publish_ready[OF w1(2) assms(7) this, where h = "h_blake3 H bs" and H = H and shw = shw
        and C = "server_client (memory_blobs_server H shw P names cfgs) u key node", folded E_def]
    show thesis using that by blast
  qed
  have sv: "save E False (?a, w) = (Inr None, (?a, (fst w1, r')))"
    using enc w1(1) pub(1) root(4) by (simp add: save_def act_bind_def)
  let ?a' = "if da_dirty a then ?a\<lparr>da_dirty := False\<rparr> else ?a" and ?w' = "if da_dirty a then (fst w1, r') else w"
  have "save_if_dirty E (a, w) = (Inr None, (?a', ?w'))"
    using sh root sv by (simp add: save_if_dirty_def act_bind_def Let_def)
  moreover have ses': "quiet_root (sync_context ks) ?a'" using assms(3) by simp
  ultimately have "FS5_save (actor_fs E) (Some a, w) = (Inr (), (Some ?a', ?w'))"
    using quiet_root_arm[OF ses', of E ?w']
    by (simp add: FS5_save_def handle_save_if_dirty_def actor_fs_def actor_send_def process_msg_def answering_def act_bind_def act_lift_def)
  moreover have "own_blob H P node (fst w1, r') h = own_blob H P node w1 h" for h
    using pub(3) by (simp add: own_blob_def blob_at_def)
  moreover have "da_state ?a' = da_state a" by simp
  ultimately show ?thesis
    using ses' pub(2,4) w1(3,5) registry_ready_Suc[OF assms(6)] unfolding bs_def
    by (intro exI[of _ ?a'] exI[of _ ?w'] conjI) simp_all
qed

lemma session_save:
  fixes H shw P names cfgs u key node base
  defines "E \<equiv> connected_env H (server_client (memory_blobs_server H shw P names cfgs) u key node) (node_registry shw) base"
  assumes "peer_served H P names cfgs key" "session keys origin S a" "dir_fits (fe_codec base) (sk_encryption_key (dk_sync_keys keys)) origin (files_of a)"
    and "registry_ready P (PublicKeyEd25519 (sk_public_key (dk_sync_keys keys))) (Suc n) (snd w)"
    and "\<And>sk bs. length (fe_sign base sk bs) = 64"
    and "fe_fresh base = Pair x" "length (fx_nonce x) = 24"
  shows "\<exists>a' w'. FS5_save (actor_fs E) (Some a, w) = (Inr (), (Some a', w')) \<and> session keys origin S a' \<and> files_of a' = files_of a
    \<and> registry_ready P (PublicKeyEd25519 (sk_public_key (dk_sync_keys keys))) n (snd w')
    \<and> (\<forall>h c. own_blob H P node w h = Some c \<longrightarrow> own_blob H P node w' h = Some c)
    \<and> (da_dirty a \<longrightarrow> node_blob H w (h_blake3 H (dir_blob base keys x (da_state a))) = None \<longrightarrow>
        own_blob H P node w' (h_blake3 H (dir_blob base keys x (da_state a))) = Some (dir_blob base keys x (da_state a))
        \<and> (\<exists>m. bt_get (snd w') (PublicKeyEd25519 (sk_public_key (dk_sync_keys keys))) = Some m \<and> sm_hash m = h_blake3 H (dir_blob base keys x (da_state a))))"
proof -
  have a: "quiet_root (sync_context (dk_sync_keys keys)) a" "same_frame origin (da_state a)" "local_paths (da_state a) S"
    using assms(3) by (simp_all add: root_session_quiet client_sync)
  have small: "length (DirV1_to_bytes (fe_codec base) (da_state a)) < MAX_DIR_BYTES_BEFORE_SHARD"
    "length (sync_blob base (dk_sync_keys keys) x (da_state a)) < 2 ^ 16"
    using assms(4,8) a(2) by (simp_all add: dir_fits_def files_of_def sync_blob_def)
  show ?thesis
    using quiet_remote_save[OF assms(2) a(1) small assms(5,6,7), of shw u node, folded E_def] a(2,3)
    unfolding root_session_quiet files_of_def client_sync by metis
qed

lemma read_own_blob:
  assumes "peer_served H P names cfgs key" "registry_ready P pk n (snd w)" "own_blob H P node w h = Some c" "length c < 2 ^ 64"
  shows "BlobStore_read_as_bytes H (BlobStore_new (RemoteBlobStore (server_client (memory_blobs_server H shw P names cfgs) u key node))) h 0 None w = Inr c"
proof -
  have "path_codec_ok (h_codec H)" using assms(1) by (simp add: peer_served_def hash_libs_ok_def)
  moreover have "recv_all (map Inr (handle_download (memory_blobs_server H shw P names cfgs) node
      (BlobsServer_cfg_for (memory_blobs_server H shw P names cfgs) key) h 0 None w)) = Inr c"
    using download_ready[OF assms, of shw u] by (auto simp: Client_download_bytes_def split: sum.splits)
  ultimately show ?thesis
    using hash_from_path_remote(1)[of H h]
    by (simp add: BlobStore_read_as_bytes_def read_as_bytes_def BlobStore_new_def remote_ops Remote_open_read_bytes_def)
qed

text \<open>A device that opens the file system finds the directory that was last published.\<close>

lemma remote_load:
  fixes H shw P names cfgs u key node base
  defines "E \<equiv> connected_env H (server_client (memory_blobs_server H shw P names cfgs) u key node) (node_registry shw) base"
  assumes "peer_served H P names cfgs key" "dir_codec_ok (fe_codec base)" "length (fx_nonce x) = 24"
    and "registry_ready P (PublicKeyEd25519 (sk_public_key ks)) n (snd w)"
    and "bt_get (snd w) (PublicKeyEd25519 (sk_public_key ks)) = Some m" "sm_hash m = h_blake3 H (sync_blob base ks x st)"
    and "own_blob H P node w (h_blake3 H (sync_blob base ks x st)) = Some (sync_blob base ks x st)" "length (sync_blob base ks x st) < 2 ^ 64"
  obtains l where "load E (DirActor_new (sync_context ks) None None, w) =
    (Inr (), ((DirActor_new (sync_context ks) None None)\<lparr>da_last_serialized_len := l, da_state := st\<rparr>, w))"
proof -
  have "read_meta E (sm_hash m) w = Inr (sync_blob base ks x st)"
    using read_own_blob[OF assms(2,5,8,9), of shw u] assms(7) by (simp add: read_meta_def E_def connected_env_def)
  moreover have "res_bind (decrypt_if_needed (fe_codec base) (sync_blob base ks x st) (sync_context ks)) (DirV1_from_bytes (fe_codec base)) = Inr st"
    using assms(3) decrypt_encrypt[OF assms(3,4)]
    by (simp add: decrypt_if_needed_def sync_blob_def dir_codec_ok_def DirV1_from_bytes_def DirV1_to_bytes_def)
  moreover have "fe_codec E = fe_codec base" by (simp add: E_def connected_env_def)
  ultimately obtain l where lf: "load_from E (sm_hash m) (sync_context ks) w = Inr (st, l)"
    by (auto simp: load_from_def res_bind_def split: sum.splits)
  have "rg_get (fe_registry E) (PublicKeyEd25519 (sk_public_key ks)) w = Inr (Some m)"
    using Client_get_ready[OF assms(5)] assms(6) by (simp add: E_def connected_env_def)
  with lf show thesis by (intro that[of l]) (simp add: load_def act_bind_def DirActor_new_def)
qed

lemma session_reopen:
  fixes H shw P names cfgs u key node base
  defines "E \<equiv> connected_env H (server_client (memory_blobs_server H shw P names cfgs) u key node) (node_registry shw) base"
  assumes "peer_served H P names cfgs key" "dir_codec_ok (fe_codec base)" "length (fx_nonce x) = 24"
    and "registry_ready P (PublicKeyEd25519 (sk_public_key (dk_sync_keys keys))) n (snd w)"
    and "bt_get (snd w) (PublicKeyEd25519 (sk_public_key (dk_sync_keys keys))) = Some m" "sm_hash m = h_blake3 H (dir_blob base keys x st)"
    and "own_blob H P node w (h_blake3 H (dir_blob base keys x st)) = Some (dir_blob base keys x st)" "length (dir_blob base keys x st) < 2 ^ 64"
    and "same_frame origin st" "local_paths st S"
  obtains b where "open_session E keys (a, w) = (Some b, w)" "session keys origin S b" "da_state b = st"
proof -
  obtain l where "load E (DirActor_new (client_context keys) None None, w) =
      (Inr (), ((DirActor_new (client_context keys) None None)\<lparr>da_last_serialized_len := l, da_state := st\<rparr>, w))"
    using remote_load[OF assms(2-9)[unfolded client_sync], of shw u thesis] unfolding E_def client_sync by blast
  then have "open_session E keys (a, w) = (Some ((DirActor_new (client_context keys) None None)\<lparr>da_last_serialized_len := l, da_state := st\<rparr>), w)"
    by (simp add: open_session_def)
  then show thesis by (rule that) (use assms(10,11) in \<open>simp_all add: root_session_def DirActor_new_def\<close>)
qed

subsection \<open>The contract holds\<close>

definition base_ok :: "'w fs_env \<Rightarrow> fresh \<Rightarrow> bool" where
  "base_ok base x \<longleftrightarrow> (\<forall>sk bs. length (fe_sign base sk bs) = 64) \<and> fe_fresh base = Pair x \<and> length (fx_nonce x) = 24
    \<and> dir_codec_ok (fe_codec base)"

definition client_ready ::
  "hashing \<Rightarrow> pin_codec \<Rightarrow> string list \<Rightarrow> (string, peer_config_blobs) btree \<Rightarrow> string \<Rightarrow> node_state fs_env \<Rightarrow> fresh \<Rightarrow> derived_keys \<Rightarrow> dir_v1
   \<Rightarrow> string set \<Rightarrow> nat \<Rightarrow> dir_actor option \<times> node_state \<Rightarrow> bool" where
  "client_ready H P names cfgs key base x keys origin S n s \<longleftrightarrow> peer_served H P names cfgs key \<and> base_ok base x \<and> unpromoted S
    \<and> registry_ready P (PublicKeyEd25519 (sk_public_key (dk_sync_keys keys))) n (snd (snd s))
    \<and> (\<exists>a. fst s = Some a \<and> session keys origin S a)"

text \<open>No stored blob has the hash of the directory with these files.\<close>

definition dir_fresh ::
  "hashing \<Rightarrow> 'w fs_env \<Rightarrow> derived_keys \<Rightarrow> fresh \<Rightarrow> dir_v1 \<Rightarrow> (hash \<Rightarrow> bytes option) \<Rightarrow> (string \<Rightarrow> file_ref option) \<Rightarrow> bool" where
  "dir_fresh H base keys x origin sto m \<longleftrightarrow>
    (\<forall>st. same_frame origin st \<and> bt_get (dv_files st) = m \<longrightarrow> sto (h_blake3 H (dir_blob base keys x st)) = None)"

text \<open>The user's registry entry names a directory with these files, which the peer may read.\<close>

definition dir_published ::
  "hashing \<Rightarrow> pin_codec \<Rightarrow> bytes32 \<Rightarrow> 'w fs_env \<Rightarrow> derived_keys \<Rightarrow> fresh \<Rightarrow> dir_v1 \<Rightarrow> dir_actor option \<times> node_state
   \<Rightarrow> (string \<Rightarrow> file_ref option) \<Rightarrow> bool" where
  "dir_published H P node base keys x origin s m \<longleftrightarrow>
    (\<exists>st msg. same_frame origin st \<and> bt_get (dv_files st) = m
      \<and> bt_get (snd (snd s)) (PublicKeyEd25519 (sk_public_key (dk_sync_keys keys))) = Some msg
      \<and> sm_hash msg = h_blake3 H (dir_blob base keys x st) \<and> length (dir_blob base keys x st) < 2 ^ 64
      \<and> own_blob H P node (snd s) (h_blake3 H (dir_blob base keys x st)) = Some (dir_blob base keys x st))"

definition files_view :: "dir_actor option \<times> 'w \<Rightarrow> string \<Rightarrow> file_ref option" where
  "files_view s = (case fst s of None \<Rightarrow> (\<lambda>_. None) | Some a \<Rightarrow> files_of a)"

definition node_client ::
  "hashing \<Rightarrow> (error \<Rightarrow> string) \<Rightarrow> pin_codec \<Rightarrow> string list \<Rightarrow> (string, peer_config_blobs) btree \<Rightarrow> string \<Rightarrow> string \<Rightarrow> bytes32
   \<Rightarrow> node_state blobs_client" where
  "node_client H shw P names cfgs u key node = server_client (memory_blobs_server H shw P names cfgs) u key node"

definition node_fs ::
  "hashing \<Rightarrow> (error \<Rightarrow> string) \<Rightarrow> pin_codec \<Rightarrow> string list \<Rightarrow> (string, peer_config_blobs) btree \<Rightarrow> string \<Rightarrow> string \<Rightarrow> bytes32
   \<Rightarrow> node_state fs_env \<Rightarrow> (dir_actor option \<times> node_state) fs5" where
  "node_fs H shw P names cfgs u key node base =
    actor_fs (connected_env H (node_client H shw P names cfgs u key node) (node_registry shw) base)"

definition node_reopen ::
  "hashing \<Rightarrow> (error \<Rightarrow> string) \<Rightarrow> pin_codec \<Rightarrow> string list \<Rightarrow> (string, peer_config_blobs) btree \<Rightarrow> string \<Rightarrow> string \<Rightarrow> bytes32
   \<Rightarrow> node_state fs_env \<Rightarrow> derived_keys \<Rightarrow> dir_actor option \<times> node_state \<Rightarrow> dir_actor option \<times> node_state" where
  "node_reopen H shw P names cfgs u key node base keys =
    open_session (connected_env H (node_client H shw P names cfgs u key node) (node_registry shw) base) keys"

interpretation memory_client: client_world "client_on_snd (node_client H shw P names cfgs u key node)"
  "node_fs H shw P names cfgs u key node base" "\<lambda>s. own_blob H P node (snd s)" "\<lambda>s. node_blob H (snd s)" files_view
  "client_ready H P names cfgs key base x keys origin S" S "dir_fits (fe_codec base) (sk_encryption_key (dk_sync_keys keys)) origin"
  "dir_fresh H base keys x origin" "\<lambda>s. \<exists>a. fst s = Some a \<and> da_dirty a" "dir_published H P node base keys x origin"
  "node_reopen H shw P names cfgs u key node base keys"
  for H shw P names cfgs u key node base x keys origin S
proof (unfold_locales, goal_cases)
  case (1 n s cs)
  have H: "cl_hash (client_on_snd (node_client H shw P names cfgs u key node)) = H" by (simp add: client_on_snd_def node_client_def)
  obtain w' where "cl_upload (node_client H shw P names cfgs u key node) (h_blake3 H (concat cs)) (of_nat (length (concat cs))) cs (snd s) = (Inr (Inr ()), w')"
    "registry_ready P (PublicKeyEd25519 (sk_public_key (dk_sync_keys keys))) n (snd w')"
    "own_blob H P node w' (h_blake3 H (concat cs)) = Some (concat cs)" "node_blob H w' = (node_blob H (snd s))(h_blake3 H (concat cs) \<mapsto> concat cs)"
    using upload_ready[of H P names cfgs key "sk_public_key (dk_sync_keys keys)" n "snd s" cs shw u node thesis] 1(1) 1(2)[unfolded H]
    unfolding node_client_def client_ready_def by blast
  then show ?case using 1(1) unfolding H
    by (cases s) (auto simp: client_on_snd_def client_ready_def files_view_def)
next
  case (2 n s h c)
  then show ?case using download_ready[of H P names cfgs key _ n "snd s" node h c shw u]
    by (auto simp: client_ready_def Client_download_bytes_def client_on_snd_def node_client_def)
next
  case (3 n s p f)
  then obtain a w where s: "s = (Some a, w)" "session keys origin S a" "unpromoted S" by (cases s) (auto simp: client_ready_def)
  obtain a' where "FS5_file_put_sync (node_fs H shw P names cfgs u key node base) p f (Some a, w) = (Inr (), (Some a', w))"
    "session keys origin S a'" "files_of a' = (files_of a)(p \<mapsto> f)" "da_dirty a'"
    using fs_put_get_task(1)[OF s(2,3) 3(2)] unfolding node_fs_def by metis
  then show ?case using 3(1) s by (intro exI[of _ "(Some a', w)"]) (simp add: client_ready_def files_view_def)
next
  case (4 n s p)
  then obtain a w where s: "s = (Some a, w)" "session keys origin S a" "unpromoted S" by (cases s) (auto simp: client_ready_def)
  obtain a' where "FS5_file_get (node_fs H shw P names cfgs u key node base) p (Some a, w) = (live_file (files_of a p), (Some a', w))"
    "session keys origin S a'" "files_of a' = files_of a"
    using fs_put_get_task(2)[OF s(2,3) 4(2)] unfolding node_fs_def by metis
  then show ?case using 4(1) s by (intro exI[of _ "(Some a', w)"]) (simp add: client_ready_def files_view_def)
next
  case (5 n s)
  let ?pk = "PublicKeyEd25519 (sk_public_key (dk_sync_keys keys))"
  from 5(1) obtain a w where s: "s = (Some a, w)" "session keys origin S a" "peer_served H P names cfgs key" "base_ok base x"
    "registry_ready P ?pk (Suc n) (snd w)" by (cases s) (auto simp: client_ready_def)
  have fits: "dir_fits (fe_codec base) (sk_encryption_key (dk_sync_keys keys)) origin (files_of a)" using 5(2) s(1) by (simp add: files_view_def)
  have b: "\<And>sk bs. length (fe_sign base sk bs) = 64" "fe_fresh base = Pair x" "length (fx_nonce x) = 24" using s(4) by (simp_all add: base_ok_def)
  have frame: "same_frame origin (da_state a)" using s(2) by (simp add: root_session_def)
  have len: "length (dir_blob base keys x (da_state a)) < 2 ^ 64"
    using fits frame b(3) by (force simp: dir_fits_def dir_blob_def files_of_def)
  obtain a' w' where "FS5_save (node_fs H shw P names cfgs u key node base) (Some a, w) = (Inr (), (Some a', w'))" "session keys origin S a'"
    "files_of a' = files_of a" "registry_ready P ?pk n (snd w')"
    "\<forall>h c. own_blob H P node w h = Some c \<longrightarrow> own_blob H P node w' h = Some c"
    "da_dirty a \<longrightarrow> node_blob H w (h_blake3 H (dir_blob base keys x (da_state a))) = None \<longrightarrow>
        own_blob H P node w' (h_blake3 H (dir_blob base keys x (da_state a))) = Some (dir_blob base keys x (da_state a))
        \<and> (\<exists>m. bt_get (snd w') ?pk = Some m \<and> sm_hash m = h_blake3 H (dir_blob base keys x (da_state a)))"
    using session_save[OF s(3,2) fits s(5) b, of shw u node, folded node_client_def, folded node_fs_def]
    by (elim exE conjE) (rule that, assumption+)
  then show ?case using 5(1) s(1) frame len
    by (intro exI[of _ "(Some a', w')"])
       (auto simp: client_ready_def files_view_def dir_fresh_def dir_published_def files_of_def intro!: exI[of _ "da_state a"])
next
  case (6 n s m)
  let ?pk = "PublicKeyEd25519 (sk_public_key (dk_sync_keys keys))"
  from 6(1) obtain a w where s: "s = (Some a, w)" "session keys origin S a" "peer_served H P names cfgs key" "base_ok base x"
    "registry_ready P ?pk n (snd w)" by (cases s) (auto simp: client_ready_def)
  from 6(2) s(1) obtain st msg where st: "same_frame origin st" "bt_get (dv_files st) = m" "bt_get (snd w) ?pk = Some msg"
    "sm_hash msg = h_blake3 H (dir_blob base keys x st)" "length (dir_blob base keys x st) < 2 ^ 64"
    "own_blob H P node w (h_blake3 H (dir_blob base keys x st)) = Some (dir_blob base keys x st)"
    by (auto simp: dir_published_def)
  have b: "dir_codec_ok (fe_codec base)" "length (fx_nonce x) = 24" using s(4) by (simp_all add: base_ok_def)
  have "local_paths st S" using s(2) st(1,2) 6(3) by (auto simp: root_session_def local_paths_def same_frame_def bt_contains_def)
  from session_reopen[OF s(3) b s(5) st(3,4,6,5,1) this, of shw u "Some a"]
  obtain b where "node_reopen H shw P names cfgs u key node base keys (Some a, w) = (Some b, w)" "session keys origin S b" "da_state b = st"
    unfolding node_reopen_def node_client_def by blast
  then show ?case using 6(1) s(1) st(2) by (simp add: client_ready_def files_view_def files_of_def)
next
  case (7 n s p)
  then show ?case
    by (auto simp: client_ready_def files_view_def root_session_def local_paths_def files_of_def bt_contains_def split: option.splits)
qed

section \<open>Properties\<close>

text \<open>C7. A file uploaded by a client can be downloaded, by the same session and by any other session on the same keys. The
  client is connected to a node with a memory store that lets it upload; small files travel inside the directory, large
  ones are encrypted chunk by chunk and stored as a blob of their own. If the directory stays below 64 KiB and the node
  holds no other bytes under the two hashes, the upload succeeds, downloading the path afterwards gives the contents,
  and so it does on a device that opens the file system from the registry. Both clients are covered: the browser client
  with 32-bit sizes and the Flutter client with 64-bit sizes.\<close>

theorem client_upload_then_download:
  fixes H shw P names cfgs u key node base
  defines "cn \<equiv> \<lparr>cn_blobs = Some (client_on_snd (node_client H shw P names cfgs u key node)),
    cn_fs = Some (node_fs H shw P names cfgs u key node base)\<rparr>"
  assumes "cipher_ok X" "cipher_sized X" "client_ready H P names cfgs key base x keys origin S 2 s"
    and "full_path path name \<in> S"
    and "dir_fits (fe_codec base) (sk_encryption_key (dk_sync_keys keys)) origin
      ((files_view s)(full_path path name \<mapsto> uploaded_ref X H fkey t ns content media))"
    and "node_blob H (snd s) (h_blake3 H (concat (encrypted_chunks X fkey content))) \<in> {None, Some (concat (encrypted_chunks X fkey content))}"
    and "encrypted_size (length content) + 262160 < 2 ^ ct_usize_bits T" "ct_usize_bits T \<in> {32, 64}"
    and "ct_json T (uploaded_ref X H fkey t ns content media) = Inr j"
    and "dir_fresh H base keys x origin
      (if length content \<le> INLINE_BLOB_THRESHOLD then node_blob H (snd s)
       else (node_blob H (snd s))(h_blake3 H (concat (encrypted_chunks X fkey content)) \<mapsto> concat (encrypted_chunks X fkey content)))
      ((files_view s)(full_path path name \<mapsto> uploaded_ref X H fkey t ns content media))"
  shows "\<exists>s'. client_upload_file T X H cn (Some fkey) t ns path name content media s = (Inr j, s')
    \<and> fst (client_download_file T X cn (full_path path name) s') = Some (Inr content)
    \<and> fst (client_download_file T X cn (full_path path name) (node_reopen H shw P names cfgs u key node base keys s')) = Some (Inr content)"
proof -
  have H: "cl_hash (client_on_snd (node_client H shw P names cfgs u key node)) = H" by (simp add: client_on_snd_def node_client_def)
  show ?thesis
    by (rule memory_client.upload_then_download[where H = H and shw = shw and P = P and names = names and cfgs = cfgs and u = u
          and keya = key and node = node and base = base and x = x and keys = keys and origin = origin and S = S and X = X and T = T and cn = cn
          and key = fkey and s = t and ns = ns and content = content and m = media and w = s and j = j and path = path and name = name,
          unfolded H])
       (use assms in \<open>auto simp: cn_def\<close>)
qed

text \<open>A cipher that appends a tag of zeros, and a codec with a short form for one directory.\<close>

definition demo_crypto :: client_crypto where
  "demo_crypto = \<lparr>cc_blake3 = arr32, cc_derive_key = \<lambda>_. arr32, cc_encrypt = \<lambda>_ _ t. Some (t @ replicate 16 0),
     cc_decrypt = \<lambda>_ _ c. Some (take (length c - 16) c), cc_public_key = id, cc_parse_mnemonic = \<lambda>p. Inr [p],
     cc_to_seed = \<lambda>ws _. [], cc_words = concat, cc_hex = \<lambda>_. []\<rparr>"

lemma demo_cipher_ok: "cipher_ok demo_crypto" "cipher_sized demo_crypto"
  by (simp_all add: cipher_ok_def cipher_sized_def demo_crypto_def)

definition demo_base :: "dir_v1 \<Rightarrow> node_state fs_env" where
  "demo_base d =
    \<lparr>fe_hash = demo_hashing, fe_codec = short_codec d, fe_blobs = BlobStore_new (store_on_fst MemoryStore),
     fe_registry = registry_on_snd MemoryRegistry, fe_pins = None, fe_fresh = Pair demo_fresh, fe_xxh3 = \<lambda>_. 0,
     fe_sign = \<lambda>_ _. replicate 64 0, fe_encode_cursor = fst, fe_decode_cursor = \<lambda>_. None,
     fe_read_file = \<lambda>p w. Inl (Io NotFound p), fe_persist_file = \<lambda>p c. act_ok (), fe_ask = \<lambda>_ _. act_err channel_closed,
     fe_tell = \<lambda>_ _. act_err channel_closed, fe_upgrade = \<lambda>_ _. False, fe_spawn = \<lambda>_ _ _. act_ok 0,
     fe_autosave_tick_after = \<lambda>_ _. act_ok (), fe_registry_dir = \<lambda>_ _. None, fe_set_registry_dir = \<lambda>_ _. act_ok ()\<rparr>"

definition demo_content :: bytes where
  "demo_content = replicate 5000 7"

definition demo_keys :: derived_keys where
  "demo_keys = from_seed_bytes demo_crypto []"

definition demo_uploaded :: file_ref where
  "demo_uploaded = uploaded_ref demo_crypto demo_hashing (fill32 5) 1 2 demo_content ''text/plain''"

definition demo_dir :: dir_v1 where
  "demo_dir = DirV1_new\<lparr>dv_files := bt_insert ''f'' demo_uploaded bt_empty\<rparr>"

definition demo_root :: "dir_actor option \<times> node_state" where
  "demo_root = (Some (DirActor_new (client_context demo_keys) None None), (MemoryStore_new, MemoryRegistry_new))"

lemma demo_encrypted: "encrypted_chunks demo_crypto k demo_content = [demo_content @ replicate 16 0]"
proof -
  have "chunks_of 262144 demo_content = [demo_content]"
    by (subst chunks_of.simps) (simp add: demo_content_def)
  then show ?thesis
    by (simp add: encrypted_chunks_def encrypt_chunk_def encrypt_xchacha20poly1305_with_nonce_def demo_crypto_def)
qed

lemma demo_frame: "same_frame DirV1_new st \<Longrightarrow> bt_get (dv_files st) = bt_get (dv_files demo_dir) \<Longrightarrow> st = demo_dir"
  by (cases st) (auto simp: same_frame_def demo_dir_def DirV1_new_def bt_eq_iff)

lemma demo_root_files: "(files_view demo_root)(''f'' \<mapsto> demo_uploaded) = bt_get (dv_files demo_dir)"
  by (rule ext) (simp add: files_view_def demo_root_def files_of_def DirActor_new_def DirV1_new_def demo_dir_def)

lemma demo_ready: "client_ready demo_hashing demo_pin_codec [''main''] demo_peers ''alice'' (demo_base d) demo_fresh demo_keys DirV1_new {''f''} 2 demo_root"
proof -
  have "peer_served demo_hashing demo_pin_codec [''main''] demo_peers ''alice''"
    by (simp add: peer_served_def demo_hash_libs_ok demo_pin_codec_ok BlobsServer_cfg_for_def demo_peers_def)
  moreover have "base_ok (demo_base d) demo_fresh" by (simp add: base_ok_def demo_base_def short_codec_ok demo_fresh_def)
  moreover have "session demo_keys DirV1_new {''f''} (DirActor_new (client_context demo_keys) None None)"
    by (simp add: root_session_def DirActor_new_def same_frame_def local_paths_def DirV1_new_def DirHeader_new_def bt_contains_def)
  ultimately show ?thesis
    by (simp add: client_ready_def demo_root_def unpromoted_def split_once_def registry_ready_def MemoryRegistry_new_def
        revisions_le_def pins_ok_def)
qed

theorem client_upload_then_download_witness:
  "\<exists>s'. client_upload_file (flutter_target (\<lambda>_. '''') (\<lambda>_. Inr ''json'')) demo_crypto demo_hashing
        \<lparr>cn_blobs = Some (client_on_snd (node_client demo_hashing (\<lambda>_. '''') demo_pin_codec [''main''] demo_peers ''u'' ''alice'' (fill32 1))),
         cn_fs = Some (node_fs demo_hashing (\<lambda>_. '''') demo_pin_codec [''main''] demo_peers ''u'' ''alice'' (fill32 1) (demo_base demo_dir))\<rparr>
        (Some (fill32 5)) 1 2 ''/'' ''f'' demo_content ''text/plain'' demo_root = (Inr ''json'', s')"
proof -
  have hash: "h_blake3 demo_hashing (dir_blob (demo_base demo_dir) demo_keys demo_fresh demo_dir) = fill32 0"
    by (simp add: dir_blob_def encrypt_dir_bytes_def demo_base_def short_codec_def DirV1_to_bytes_def demo_fresh_def)
       (simp add: arr_eq_iff arr_list_fill32 arr_list_arr32 flip: replicate_add)
  have "arr_list (arr32 (demo_content @ replicate 16 0)) ! 0 = 7" by (simp add: arr_list_arr32 demo_content_def nth_append)
  then have differ: "arr32 (demo_content @ replicate 16 0) \<noteq> fill32 0" by (auto simp: arr_list_fill32)
  have none: "node_blob demo_hashing (snd demo_root) h = None" for h by (simp add: demo_root_def blob_at_def MemoryStore_new_def)
  have fits: "dir_fits (fe_codec (demo_base demo_dir)) k DirV1_new (bt_get (dv_files demo_dir))" for k
    using demo_frame by (auto simp: dir_fits_def demo_base_def short_codec_def DirV1_to_bytes_def encrypt_dir_bytes_def MAX_DIR_BYTES_BEFORE_SHARD_def)
  have new: "dir_fresh demo_hashing (demo_base demo_dir) demo_keys demo_fresh DirV1_new
      (if length demo_content \<le> INLINE_BLOB_THRESHOLD then node_blob demo_hashing (snd demo_root)
       else (node_blob demo_hashing (snd demo_root))(h_blake3 demo_hashing (concat (encrypted_chunks demo_crypto (fill32 5) demo_content))
         \<mapsto> concat (encrypted_chunks demo_crypto (fill32 5) demo_content))) (bt_get (dv_files demo_dir))"
    using differ none hash by (auto simp: dir_fresh_def demo_encrypted INLINE_BLOB_THRESHOLD_def dest!: demo_frame)
  have size: "encrypted_size (length demo_content) = 5016" by (simp add: encrypted_size_def demo_content_def)
  show ?thesis
    using client_upload_then_download[OF demo_cipher_ok demo_ready[of demo_dir], where path = "''/''" and name = "''f''" and fkey = "fill32 5"
        and t = 1 and ns = 2 and content = demo_content and media = "''text/plain''" and shw = "\<lambda>_. ''''" and u = "''u''" and node = "fill32 1"
        and T = "flutter_target (\<lambda>_. '''') (\<lambda>_. Inr ''json'')" and j = "''json''"] fits new none size
    unfolding demo_root_files[unfolded demo_uploaded_def] full_path_def is_root_path_def
    by (force simp: flutter_target_def demo_root_files[unfolded demo_uploaded_def])
qed

end
