(* ===== verification/Fuse_Fs.thy ===== *)
theory Fuse_Fs
  imports Fs_Api
begin

text \<open>
  The FUSE mount of a file system: \<^verbatim>\<open>s5_fuse/src/fs.rs\<close> and \<^verbatim>\<open>s5_fuse/src/cache.rs\<close>. A handler works on the mount and on the
  world of the file system and the blob store. The string interner of the lasso crate that numbers the paths is a
  parameter, the table \<open>interner\<close>; its documented laws are the locale \<open>interning\<close>. Requests are handled one at a time. Names
  are taken as valid strings.
\<close>

section \<open>Results and state\<close>

text \<open>Handlers with errors of any type.\<close>

type_synonym ('s, 'e, 'a) op = "'s \<Rightarrow> ('e + 'a) \<times> 's"

definition op_ok :: "'a \<Rightarrow> ('s, 'e, 'a) op" where
  "op_ok x s = (Inr x, s)"

definition op_err :: "'e \<Rightarrow> ('s, 'e, 'a) op" where
  "op_err e s = (Inl e, s)"

definition op_bind :: "('s, 'e, 'a) op \<Rightarrow> ('a \<Rightarrow> ('s, 'e, 'b) op) \<Rightarrow> ('s, 'e, 'b) op" where
  "op_bind m k s = (case m s of (Inl e, s) \<Rightarrow> (Inl e, s) | (Inr x, s) \<Rightarrow> k x s)"

definition op_map_err :: "('e \<Rightarrow> 'f) \<Rightarrow> ('s, 'e, 'a) op \<Rightarrow> ('s, 'f, 'a) op" where
  "op_map_err f m s = apfst (map_err f) (m s)"

definition op_ignore :: "('s, 'e, 'a) op \<Rightarrow> ('s, 'f, unit) op" where
  "op_ignore m s = (Inr (), snd (m s))"

text \<open>The interner: interning fails (and the code panics) when the 32-bit keys have run out; a number that is no key resolves
  to nothing.\<close>

record 'i interner =
  in_new :: 'i
  in_get_or_intern :: "string \<Rightarrow> 'i \<Rightarrow> (nat \<times> 'i) option"
  in_resolve :: "'i \<Rightarrow> nat \<Rightarrow> string option"
  in_len :: "'i \<Rightarrow> nat"

datatype file_type = Directory | RegularFile

text \<open>Times are seconds after the epoch.\<close>

record file_attr =
  fa_ino :: u64
  fa_size :: u64
  fa_blocks :: u64
  fa_time :: u32
  fa_kind :: file_type
  fa_perm :: u16
  fa_nlink :: u32
  fa_blksize :: u32

record cached_dir =
  cd_dir :: dir_v1
  cd_keys :: "(u8, bytes32) btree"

record dir_entry_meta =
  de_inode :: u64
  de_file_type :: file_type
  de_name :: string

record open_file =
  of_path :: string
  of_buf :: bytes

record fs_cache =
  fc_attrs :: "(u64, file_attr) btree"
  fc_parents :: "(u64, u64) btree"
  fc_dirs :: "(u64, cached_dir) btree"
  fc_dir_entries :: "(u64, dir_entry_meta list) btree"

definition FsCache_new :: fs_cache where
  "FsCache_new = \<lparr>fc_attrs = bt_empty, fc_parents = bt_empty, fc_dirs = bt_empty, fc_dir_entries = bt_empty\<rparr>"

datatype fuse_error = NoFileDir | ReadOnly | Unimplemented | InvalidArgument | Panicked

record ('w, 'i) mount =
  mt_hash :: hashing
  mt_interner :: "'i interner"
  mt_fs :: "'w fs5"
  mt_store :: "'w blob_store"
  mt_inodes :: 'i
  mt_cache :: fs_cache
  mt_open_files :: "(u64, open_file) btree"
  mt_next_fh :: u64
  mt_read_only :: bool

type_synonym ('w, 'i, 'e, 'a) fuse_op = "(('w, 'i) mount \<times> 'w, 'e, 'a) op"

definition Mount_new :: "hashing \<Rightarrow> 'i interner \<Rightarrow> 'w fs5 \<Rightarrow> 'w blob_store \<Rightarrow> bool \<Rightarrow> fuse_error + ('w, 'i) mount" where
  "Mount_new H I fs store read_only =
    (case in_get_or_intern I '''' (in_new I) of
       None \<Rightarrow> Inl Panicked
     | Some (_, inodes) \<Rightarrow>
        (case in_get_or_intern I ''/'' inodes of
           None \<Rightarrow> Inl Panicked
         | Some (_, inodes) \<Rightarrow>
            Inr \<lparr>mt_hash = H, mt_interner = I, mt_fs = fs, mt_store = store, mt_inodes = inodes, mt_cache = FsCache_new,
                 mt_open_files = bt_empty, mt_next_fh = 1, mt_read_only = read_only\<rparr>))"

definition on_mount :: "(('w, 'i) mount \<Rightarrow> 'a) \<Rightarrow> ('w, 'i, 'e, 'a) fuse_op" where
  "on_mount f = (\<lambda>(m, w). (Inr (f m), (m, w)))"

definition set_mount :: "(('w, 'i) mount \<Rightarrow> ('w, 'i) mount) \<Rightarrow> ('w, 'i, 'e, unit) fuse_op" where
  "set_mount f = (\<lambda>(m, w). (Inr (), (f m, w)))"

text \<open>A call of the file system or of the store.\<close>

definition on_world :: "('w fs5 \<Rightarrow> 'w blob_store \<Rightarrow> ('w, 'a) action) \<Rightarrow> ('w, 'i, error, 'a) fuse_op" where
  "on_world f = (\<lambda>(m, w). case f (mt_fs m) (mt_store m) w of (r, w) \<Rightarrow> (r, (m, w)))"

section \<open>Paths and attributes\<close>

definition BLOCK_SIZE :: u32 where
  "BLOCK_SIZE = 512"

definition path_for_ino :: "('w, 'i) mount \<Rightarrow> u64 \<Rightarrow> string option" where
  "path_for_ino self ino = in_resolve (mt_interner self) (mt_inodes self) (unat ino)"

text \<open>The argument \<open>panic\<close> is the value of a panic.\<close>

definition ino_for_path :: "'e \<Rightarrow> string \<Rightarrow> ('w, 'i, 'e, u64) fuse_op" where
  "ino_for_path panic path = (\<lambda>(m, w).
    case in_get_or_intern (mt_interner m) path (mt_inodes m) of
      None \<Rightarrow> (Inl panic, (m, w))
    | Some (idx, inodes) \<Rightarrow> (Inr (of_nat idx), (m\<lparr>mt_inodes := inodes\<rparr>, w)))"

definition child_path :: "string \<Rightarrow> string \<Rightarrow> string" where
  "child_path parent_path name = (if parent_path = ''/'' then ''/'' @ name else parent_path @ ''/'' @ name)"

definition fs_path_from_ino :: "('w, 'i) mount \<Rightarrow> u64 \<Rightarrow> string option" where
  "fs_path_from_ino self ino = map_option trim_start (path_for_ino self ino)"

definition root_attr :: file_attr where
  "root_attr = \<lparr>fa_ino = 1, fa_size = 0, fa_blocks = 0, fa_time = 0, fa_kind = Directory, fa_perm = 493, fa_nlink = 2, fa_blksize = 512\<rparr>"

definition make_dir_attr :: "u64 \<Rightarrow> u32 option \<Rightarrow> file_attr" where
  "make_dir_attr ino ts =
    \<lparr>fa_ino = ino, fa_size = 0, fa_blocks = 0, fa_time = (case ts of Some t \<Rightarrow> t | None \<Rightarrow> 0), fa_kind = Directory, fa_perm = 493,
     fa_nlink = 2, fa_blksize = 512\<rparr>"

definition div_ceil :: "u64 \<Rightarrow> u64 \<Rightarrow> u64" where
  "div_ceil a b = (if a mod b = 0 then a div b else a div b + 1)"

definition make_file_attr :: "u64 \<Rightarrow> u64 \<Rightarrow> u32 option \<Rightarrow> file_attr" where
  "make_file_attr ino sz ts =
    \<lparr>fa_ino = ino, fa_size = sz, fa_blocks = div_ceil sz (ucast BLOCK_SIZE), fa_time = (case ts of Some t \<Rightarrow> t | None \<Rightarrow> 0),
     fa_kind = RegularFile, fa_perm = 420, fa_nlink = 1, fa_blksize = 512\<rparr>"

section \<open>The directory cache\<close>

definition cache_attr :: "u64 \<Rightarrow> file_attr \<Rightarrow> ('w, 'i) mount \<Rightarrow> ('w, 'i) mount" where
  "cache_attr ino attr m = m\<lparr>mt_cache := (mt_cache m)\<lparr>fc_attrs := bt_insert ino attr (fc_attrs (mt_cache m))\<rparr>\<rparr>"

definition cache_parent :: "u64 \<Rightarrow> u64 \<Rightarrow> ('w, 'i) mount \<Rightarrow> ('w, 'i) mount" where
  "cache_parent ino parent m = m\<lparr>mt_cache := (mt_cache m)\<lparr>fc_parents := bt_insert ino parent (fc_parents (mt_cache m))\<rparr>\<rparr>"

definition cache_dir :: "u64 \<Rightarrow> cached_dir \<Rightarrow> ('w, 'i) mount \<Rightarrow> ('w, 'i) mount" where
  "cache_dir ino d m = m\<lparr>mt_cache := (mt_cache m)\<lparr>fc_dirs := bt_insert ino d (fc_dirs (mt_cache m))\<rparr>\<rparr>"

definition cache_entries :: "u64 \<Rightarrow> dir_entry_meta list option \<Rightarrow> ('w, 'i) mount \<Rightarrow> ('w, 'i) mount" where
  "cache_entries ino es m = m\<lparr>mt_cache := (mt_cache m)\<lparr>fc_dir_entries :=
    (case es of Some es \<Rightarrow> bt_insert ino es (fc_dir_entries (mt_cache m)) | None \<Rightarrow> bt_remove ino (fc_dir_entries (mt_cache m)))\<rparr>\<rparr>"

definition cached :: "u64 \<Rightarrow> ('w, 'i) mount \<Rightarrow> cached_dir option" where
  "cached ino m = bt_get (fc_dirs (mt_cache m)) ino"

definition load_root_dir :: "('w, 'i, error, cached_dir) fuse_op" where
  "load_root_dir =
    op_bind (on_world (\<lambda>fs _. FS5_export_merged_snapshot fs)) (\<lambda>dir. op_ok \<lparr>cd_dir = dir, cd_keys = bt_empty\<rparr>)"

definition load_child_dir :: "cached_dir \<Rightarrow> dir_ref \<Rightarrow> string \<Rightarrow> ('w, 'i, error, cached_dir) fuse_op" where
  "load_child_dir parent dir_ref child_fs_path =
    op_bind (on_world (\<lambda>fs _. FS5_export_merged_snapshot_at fs (trim_start child_fs_path))) (\<lambda>dir.
    op_ok \<lparr>cd_dir = dir, cd_keys = cd_keys parent\<rparr>)"

text \<open>The non-empty parts of a path between slashes.\<close>

definition segments :: "string \<Rightarrow> string list" where
  "segments path = filter (\<lambda>s. s \<noteq> []) (split_slash [] path)"

fun walk :: "string \<Rightarrow> u64 \<Rightarrow> string list \<Rightarrow> ('w, 'i, error, unit) fuse_op" where
  "walk cur_path cur_ino [] = op_ok ()"
| "walk cur_path cur_ino (seg # segs) =
    (let path = child_path cur_path seg
     in op_bind (ino_for_path panicked path) (\<lambda>child_ino.
        op_bind (on_mount (cached child_ino)) (\<lambda>have_child.
        op_bind (case have_child of
            Some _ \<Rightarrow> op_ok ()
          | None \<Rightarrow>
              op_bind (on_mount (cached cur_ino)) (\<lambda>p.
              case p of
                None \<Rightarrow> op_err (Anyhow ''parent not cached'')
              | Some parent \<Rightarrow>
                 (case bt_get (dv_dirs (cd_dir parent)) seg of
                    None \<Rightarrow> op_err (Anyhow ''dir not found'')
                  | Some dr \<Rightarrow>
                     op_bind (load_child_dir parent dr path) (\<lambda>child.
                     set_mount (cache_attr child_ino (make_dir_attr child_ino (dr_ts_seconds dr))
                       \<circ> cache_parent child_ino cur_ino \<circ> cache_dir child_ino child))))) (\<lambda>_.
        walk path child_ino segs))))"

definition ensure_dir_cached :: "u64 \<Rightarrow> ('w, 'i, error, unit) fuse_op" where
  "ensure_dir_cached ino =
    op_bind (on_mount (cached 1)) (\<lambda>root.
    op_bind (case root of
        Some _ \<Rightarrow> op_ok ()
      | None \<Rightarrow> op_bind load_root_dir (\<lambda>root. set_mount (cache_attr 1 root_attr \<circ> cache_dir 1 root))) (\<lambda>_.
    op_bind (on_mount (cached ino)) (\<lambda>here.
    if ino = 1 \<or> here \<noteq> None then op_ok ()
    else
      op_bind (on_mount (\<lambda>m. path_for_ino m ino)) (\<lambda>p.
      case p of None \<Rightarrow> op_err (Anyhow ''unknown inode'') | Some path \<Rightarrow> walk ''/'' 1 (segments path)))))"

definition fs_file_get :: "string \<Rightarrow> ('w, 'i, error, file_ref option) fuse_op" where
  "fs_file_get path = (\<lambda>(m, w). case FS5_file_get (mt_fs m) path w of (r, w) \<Rightarrow> (Inr r, (m, w)))"

definition get_file_ref :: "u64 \<Rightarrow> ('w, 'i, error, file_ref) fuse_op" where
  "get_file_ref ino =
    op_bind (on_mount (\<lambda>m. fs_path_from_ino m ino)) (\<lambda>p.
    case p of
      None \<Rightarrow> op_err (Anyhow ''unknown inode'')
    | Some fs_path \<Rightarrow>
        op_bind (fs_file_get fs_path) (\<lambda>fr. case fr of None \<Rightarrow> op_err (Anyhow ''file not found'') | Some fr \<Rightarrow> op_ok fr))"

definition refresh_dir_cache :: "u64 \<Rightarrow> ('w, 'i, error, unit) fuse_op" where
  "refresh_dir_cache ino =
    op_bind (on_mount (\<lambda>m. path_for_ino m ino)) (\<lambda>p.
    case p of
      None \<Rightarrow> op_err (Anyhow ''unknown inode'')
    | Some path \<Rightarrow>
        (let fs_path = trim_start path
         in op_bind (on_world (\<lambda>fs _. if fs_path = [] then FS5_export_merged_snapshot fs else FS5_export_merged_snapshot_at fs fs_path)) (\<lambda>dir.
            set_mount (cache_entries ino None \<circ> cache_dir ino \<lparr>cd_dir = dir, cd_keys = bt_empty\<rparr>))))"

section \<open>Requests\<close>

text \<open>\<^verbatim>\<open>map_err(|_| NoFileDir)\<close>; a panic stays one.\<close>

definition enoent :: "error \<Rightarrow> fuse_error" where
  "enoent e = (if e = panicked then Panicked else NoFileDir)"

definition Fuse_inodes :: "('w, 'i) mount \<Rightarrow> u64 set" where
  "Fuse_inodes self = of_nat ` {1..<in_len (mt_interner self) (mt_inodes self)}"

definition known_path :: "u64 \<Rightarrow> ('w, 'i, fuse_error, string) fuse_op" where
  "known_path ino =
    op_bind (on_mount (\<lambda>m. path_for_ino m ino)) (\<lambda>p. case p of None \<Rightarrow> op_err NoFileDir | Some path \<Rightarrow> op_ok path)"

text \<open>What \<^verbatim>\<open>lookup\<close> and \<^verbatim>\<open>readdir\<close> do with a child they found.\<close>

definition note_child :: "u64 \<Rightarrow> string \<Rightarrow> string \<Rightarrow> (u64 \<Rightarrow> file_attr) \<Rightarrow> ('w, 'i, fuse_error, file_attr) fuse_op" where
  "note_child parent parent_path name mk_attr =
    op_bind (ino_for_path Panicked (child_path parent_path name)) (\<lambda>ino.
    let attr = mk_attr ino
    in op_bind (set_mount (cache_parent ino parent \<circ> cache_attr ino attr)) (\<lambda>_. op_ok attr))"

definition Fuse_lookup :: "u64 \<Rightarrow> string \<Rightarrow> ('w, 'i, fuse_error, file_attr) fuse_op" where
  "Fuse_lookup parent name =
    op_bind (known_path parent) (\<lambda>parent_path.
    op_bind (op_map_err enoent (ensure_dir_cached parent)) (\<lambda>_.
    op_bind (on_mount (cached parent)) (\<lambda>d.
    case d of
      None \<Rightarrow> op_err Panicked
    | Some parent_dir \<Rightarrow>
       (case bt_get (dv_dirs (cd_dir parent_dir)) name of
          Some dr \<Rightarrow> note_child parent parent_path name (\<lambda>ino. make_dir_attr ino (dr_ts_seconds dr))
        | None \<Rightarrow>
           (case bt_get (dv_files (cd_dir parent_dir)) name of
              Some fr \<Rightarrow> note_child parent parent_path name (\<lambda>ino. make_file_attr ino (fr_size fr) (fr_timestamp fr))
            | None \<Rightarrow> op_err NoFileDir)))))"

definition Fuse_getattr :: "u64 \<Rightarrow> ('w, 'i, fuse_error, file_attr) fuse_op" where
  "Fuse_getattr ino =
    (if ino = 1 then op_ok root_attr
     else op_bind (on_mount (\<lambda>m. bt_get (fc_attrs (mt_cache m)) ino)) (\<lambda>a. case a of Some a \<Rightarrow> op_ok a | None \<Rightarrow> op_err NoFileDir))"

definition Fuse_setattr :: "u64 \<Rightarrow> u64 option \<Rightarrow> ('w, 'i, fuse_error, file_attr) fuse_op" where
  "Fuse_setattr ino sz = op_bind (on_mount mt_read_only) (\<lambda>ro. if ro then op_err ReadOnly else op_err Unimplemented)"

record dir_entry_iter =
  it_entries :: "dir_entry_meta list"
  it_index :: nat

definition DirEntryIter_next :: "dir_entry_iter \<Rightarrow> dir_entry_meta option \<times> dir_entry_iter" where
  "DirEntryIter_next self =
    (if it_index self \<ge> length (it_entries self) then (None, self)
     else (Some (it_entries self ! it_index self), self\<lparr>it_index := it_index self + 1\<rparr>))"

fun list_children ::
  "u64 \<Rightarrow> string \<Rightarrow> file_type \<Rightarrow> (string \<times> (u64 \<Rightarrow> file_attr)) list \<Rightarrow> ('w, 'i, fuse_error, dir_entry_meta list) fuse_op" where
  "list_children ino path kind [] = op_ok []"
| "list_children ino path kind ((name, mk_attr) # rest) =
    op_bind (note_child ino path name mk_attr) (\<lambda>attr.
    op_bind (list_children ino path kind rest) (\<lambda>es. op_ok (\<lparr>de_inode = fa_ino attr, de_file_type = kind, de_name = name\<rparr> # es)))"

definition entries_of_dir :: "u64 \<Rightarrow> u64 \<Rightarrow> string \<Rightarrow> cached_dir \<Rightarrow> ('w, 'i, fuse_error, dir_entry_meta list) fuse_op" where
  "entries_of_dir ino parent_inode path d =
    op_bind (list_children ino path Directory
      (map (\<lambda>(name, dref). (name, \<lambda>i. make_dir_attr i (dr_ts_seconds dref))) (bt_entries (dv_dirs (cd_dir d))))) (\<lambda>ds.
    op_bind (list_children ino path RegularFile
      (map (\<lambda>(name, fr). (name, \<lambda>i. make_file_attr i (fr_size fr) (fr_timestamp fr))) (bt_entries (dv_files (cd_dir d))))) (\<lambda>fs.
    op_ok ([\<lparr>de_inode = ino, de_file_type = Directory, de_name = ''.''\<rparr>,
            \<lparr>de_inode = parent_inode, de_file_type = Directory, de_name = ''..''\<rparr>] @ ds @ fs)))"

definition build_entries :: "u64 \<Rightarrow> cached_dir \<Rightarrow> ('w, 'i, fuse_error, dir_entry_meta list) fuse_op" where
  "build_entries ino d =
    op_bind (on_mount (\<lambda>m. case bt_get (fc_parents (mt_cache m)) ino of Some p \<Rightarrow> p | None \<Rightarrow> 1)) (\<lambda>parent_inode.
    op_bind (on_mount (\<lambda>m. case path_for_ino m ino of Some q \<Rightarrow> q | None \<Rightarrow> ''/'')) (\<lambda>path.
    op_bind (entries_of_dir ino parent_inode path d) (\<lambda>entries.
    op_bind (set_mount (cache_entries ino (Some entries))) (\<lambda>_. op_ok entries))))"

definition Fuse_readdir :: "u64 \<Rightarrow> u64 \<Rightarrow> ('w, 'i, fuse_error, dir_entry_iter) fuse_op" where
  "Fuse_readdir ino offset =
    op_bind (on_mount (cached ino)) (\<lambda>have_dir.
    op_bind (if have_dir = None then op_map_err enoent (refresh_dir_cache ino) else op_ok ()) (\<lambda>_.
    op_bind (op_map_err enoent (ensure_dir_cached ino)) (\<lambda>_.
    op_bind (on_mount (\<lambda>m. (cached ino m, bt_get (fc_dir_entries (mt_cache m)) ino))) (\<lambda>(d, es).
    case d of
      None \<Rightarrow> op_err NoFileDir
    | Some d \<Rightarrow>
        op_bind (case es of Some entries \<Rightarrow> op_ok entries | None \<Rightarrow> build_entries ino d) (\<lambda>entries.
        op_ok \<lparr>it_entries = entries, it_index = unat offset\<rparr>)))))"

definition Fuse_open :: "u64 \<Rightarrow> ('w, 'i, fuse_error, u64) fuse_op" where
  "Fuse_open ino = op_ok 0"

text \<open>\<^verbatim>\<open>rsplit_once('/')\<close>: what comes before the last slash.\<close>

definition before_last_slash :: "string \<Rightarrow> string option" where
  "before_last_slash p =
    (if CHR ''/'' \<in> set p then Some (rev (drop 1 (dropWhile (\<lambda>c. c \<noteq> CHR ''/'') (rev p)))) else None)"

definition Fuse_release :: "string \<Rightarrow> u64 \<Rightarrow> u64 \<Rightarrow> ('w, 'i, fuse_error, unit) fuse_op" where
  "Fuse_release uuid ino fh =
    op_bind (on_mount (\<lambda>m. (mt_read_only m, bt_get (mt_open_files m) fh, mt_hash m))) (\<lambda>(ro, opened, H).
    if ro then op_ok ()
    else case opened of
      None \<Rightarrow> op_ok ()
    | Some of' \<Rightarrow>
        op_bind (set_mount (\<lambda>m. m\<lparr>mt_open_files := bt_remove fh (mt_open_files m)\<rparr>)) (\<lambda>_.
        let sz = of_nat (length (of_buf of')); fs_path = trim_start (of_path of')
        in op_bind (op_map_err enoent (on_world (\<lambda>_ store. BlobStore_import_bytes H store uuid (of_buf of')))) (\<lambda>blob.
           op_bind (op_map_err enoent (on_world (\<lambda>fs _. FS5_file_put_sync fs fs_path (FileRef_from_blob_id blob)))) (\<lambda>_.
           op_bind (op_map_err enoent (on_world (\<lambda>fs _. FS5_save fs))) (\<lambda>_.
           let parent_path = (case before_last_slash fs_path of Some p \<Rightarrow> p | None \<Rightarrow> '''')
           in op_bind (if parent_path = [] then op_ok 1 else ino_for_path Panicked (''/'' @ parent_path)) (\<lambda>parent_ino.
              op_bind (op_ignore (refresh_dir_cache parent_ino)) (\<lambda>_.
              op_bind (ino_for_path Panicked (of_path of')) (\<lambda>file_ino.
              set_mount (cache_attr file_ino (make_file_attr file_ino sz None)))))))))) "

fun find_inline :: "blob_location list \<Rightarrow> bytes option" where
  "find_inline [] = None"
| "find_inline (IdentityRawBinary v # locs) = Some v"
| "find_inline (loc # locs) = find_inline locs"

text \<open>The offset is signed.\<close>

definition Fuse_read :: "u64 \<Rightarrow> u64 \<Rightarrow> u64 \<Rightarrow> u32 \<Rightarrow> ('w, 'i, fuse_error, bytes) fuse_op" where
  "Fuse_read ino fh offset sz =
    (if sint offset < 0 then op_err InvalidArgument
     else
       op_bind (op_map_err enoent (get_file_ref ino)) (\<lambda>fr.
       case (case fr_locations fr of None \<Rightarrow> None | Some locs \<Rightarrow> find_inline locs) of
         Some data \<Rightarrow>
           (let start = min (unat offset) (length data); fin = min (start + unat sz) (length data)
            in op_ok (take (fin - start) (drop start data)))
       | None \<Rightarrow>
           op_bind (on_mount mt_hash) (\<lambda>H.
           op_map_err enoent (on_world (\<lambda>_ store. act_read (BlobStore_read_as_bytes H store (Hash_from_bytes (fr_hash fr)) offset (Some (ucast sz))))))))"

definition Fuse_write :: "u64 \<Rightarrow> u64 \<Rightarrow> bytes \<Rightarrow> u64 \<Rightarrow> ('w, 'i, fuse_error, u32) fuse_op" where
  "Fuse_write ino fh data offset =
    op_bind (on_mount (\<lambda>m. (mt_read_only m, bt_get (mt_open_files m) fh))) (\<lambda>(ro, opened).
    if ro then op_err ReadOnly
    else if sint offset < 0 then op_err InvalidArgument
    else case opened of
      None \<Rightarrow> op_err NoFileDir
    | Some entry \<Rightarrow>
        if unat offset \<noteq> length (of_buf entry) then op_err InvalidArgument
        else
          op_bind (set_mount (\<lambda>m. m\<lparr>mt_open_files := bt_insert fh (entry\<lparr>of_buf := of_buf entry @ data\<rparr>) (mt_open_files m)\<rparr>)) (\<lambda>_.
          op_ok (of_nat (length data))))"

definition Fuse_create :: "u64 \<Rightarrow> string \<Rightarrow> ('w, 'i, fuse_error, file_attr \<times> u64) fuse_op" where
  "Fuse_create parent name =
    op_bind (on_mount mt_read_only) (\<lambda>ro.
    if ro then op_err ReadOnly
    else
      op_bind (known_path parent) (\<lambda>parent_path.
      op_bind (op_map_err enoent (ensure_dir_cached parent)) (\<lambda>_.
      let file_path = child_path parent_path name
      in op_bind (ino_for_path Panicked file_path) (\<lambda>ino.
         op_bind (on_mount mt_next_fh) (\<lambda>fh.
         let attr = make_file_attr ino 0 None
         in op_bind (set_mount (\<lambda>m. cache_parent ino parent (cache_attr ino attr
                (m\<lparr>mt_next_fh := fh + 1, mt_open_files := bt_insert fh \<lparr>of_path = file_path, of_buf = []\<rparr> (mt_open_files m)\<rparr>)))) (\<lambda>_.
            op_ok (attr, fh)))))))"

definition Fuse_mkdir :: "u64 \<Rightarrow> string \<Rightarrow> ('w, 'i, fuse_error, file_attr) fuse_op" where
  "Fuse_mkdir parent name =
    op_bind (on_mount mt_read_only) (\<lambda>ro.
    if ro then op_err ReadOnly
    else
      op_bind (known_path parent) (\<lambda>parent_path.
      let fs_parent = trim_start parent_path;
          path = (if fs_parent = [] then name else fs_parent @ ''/'' @ name)
      in op_bind (op_map_err enoent (on_world (\<lambda>fs _. FS5_create_dir fs path False))) (\<lambda>_.
         op_bind (op_map_err enoent (on_world (\<lambda>fs _. FS5_save fs))) (\<lambda>_.
         op_bind (op_ignore (refresh_dir_cache parent)) (\<lambda>_.
         note_child parent parent_path name (\<lambda>ino. make_dir_attr ino None))))))"

text \<open>What is done before the mount is handed to the kernel: the root is loaded, whether that works or not.\<close>

definition Fuse_mount :: "hashing \<Rightarrow> 'i interner \<Rightarrow> 'w fs5 \<Rightarrow> 'w blob_store \<Rightarrow> bool \<Rightarrow> 'w \<Rightarrow> fuse_error + ('w, 'i) mount \<times> 'w" where
  "Fuse_mount H I fs store read_only w =
    (let w = snd (FS5_list fs None 16 w)
     in case Mount_new H I fs store read_only of
          Inl e \<Rightarrow> Inl e
        | Inr m \<Rightarrow> Inr (snd (ensure_dir_cached 1 (m, w))))"

section \<open>The request loop\<close>

datatype fuse_req =
    ReqLookup u64 string
  | ReqGetattr u64
  | ReqSetattr u64 "u64 option"
  | ReqReaddir u64 u64
  | ReqOpen u64
  | ReqRelease string u64 u64
  | ReqRead u64 u64 u64 u32
  | ReqWrite u64 u64 bytes u64
  | ReqCreate u64 string
  | ReqMkdir u64 string

datatype fuse_reply =
    RepAttr "fuse_error + file_attr"
  | RepEntries "fuse_error + dir_entry_iter"
  | RepHandle "fuse_error + u64"
  | RepDone "fuse_error + unit"
  | RepData "fuse_error + bytes"
  | RepWritten "fuse_error + u32"
  | RepCreated "fuse_error + file_attr \<times> u64"

fun fuse_step :: "fuse_req \<Rightarrow> ('w, 'i) mount \<times> 'w \<Rightarrow> fuse_reply \<times> ('w, 'i) mount \<times> 'w" where
  "fuse_step (ReqLookup parent name) s = apfst RepAttr (Fuse_lookup parent name s)"
| "fuse_step (ReqGetattr ino) s = apfst RepAttr (Fuse_getattr ino s)"
| "fuse_step (ReqSetattr ino sz) s = apfst RepAttr (Fuse_setattr ino sz s)"
| "fuse_step (ReqReaddir ino offset) s = apfst RepEntries (Fuse_readdir ino offset s)"
| "fuse_step (ReqOpen ino) s = apfst RepHandle (Fuse_open ino s)"
| "fuse_step (ReqRelease uuid ino fh) s = apfst RepDone (Fuse_release uuid ino fh s)"
| "fuse_step (ReqRead ino fh offset sz) s = apfst RepData (Fuse_read ino fh offset sz s)"
| "fuse_step (ReqWrite ino fh data offset) s = apfst RepWritten (Fuse_write ino fh data offset s)"
| "fuse_step (ReqCreate parent name) s = apfst RepCreated (Fuse_create parent name s)"
| "fuse_step (ReqMkdir parent name) s = apfst RepAttr (Fuse_mkdir parent name s)"

section \<open>Inodes\<close>

text \<open>What the mount relies on in the interner: a string keeps its key, different strings have different keys, the keys are
  handed out in order, and interning works while there are keys left and for strings that have one.\<close>

locale interning =
  fixes I :: "'i interner" and iok :: "'i \<Rightarrow> bool"
  assumes new_law: "iok (in_new I) \<and> in_len I (in_new I) = 0"
    and intern_law: "iok i \<Longrightarrow> in_get_or_intern I s i = Some (n, i') \<Longrightarrow>
      iok i' \<and> in_resolve I i' n = Some s \<and> (\<forall>k t. in_resolve I i k = Some t \<longrightarrow> in_resolve I i' k = Some t)
      \<and> (if \<exists>k. in_resolve I i k = Some s then in_len I i' = in_len I i else n = in_len I i \<and> in_len I i' = Suc (in_len I i))"
    and injective: "iok i \<Longrightarrow> in_resolve I i k = Some t \<Longrightarrow> in_resolve I i l = Some t \<Longrightarrow> k = l"
    and range: "iok i \<Longrightarrow> in_resolve I i k \<noteq> None \<longleftrightarrow> k < in_len I i"
    and bounded: "iok i \<Longrightarrow> in_len I i < 2 ^ 32"
    and room: "iok i \<Longrightarrow> in_len I i < 2 ^ 32 - 1 \<or> (\<exists>k. in_resolve I i k = Some s) \<Longrightarrow> in_get_or_intern I s i \<noteq> None"

text \<open>Every number the mount has handed out is known, belongs to one path, and is the number its attributes carry; the parent
  of a child is the directory above it.\<close>

definition mount_ok :: "'i interner \<Rightarrow> ('i \<Rightarrow> bool) \<Rightarrow> ('w, 'i) mount \<Rightarrow> bool" where
  "mount_ok I iok m \<longleftrightarrow> mt_interner m = I \<and> iok (mt_inodes m) \<and> path_for_ino m 1 = Some ''/''
    \<and> (\<forall>ino a. bt_get (fc_attrs (mt_cache m)) ino = Some a \<longrightarrow> path_for_ino m ino \<noteq> None \<and> fa_ino a = ino)
    \<and> (\<forall>ino p. bt_get (fc_parents (mt_cache m)) ino = Some p \<longrightarrow>
        (\<exists>pp name. path_for_ino m p = Some pp \<and> path_for_ino m ino = Some (child_path pp name)))
    \<and> (\<forall>ino d. bt_get (fc_dirs (mt_cache m)) ino = Some d \<longrightarrow> path_for_ino m ino \<noteq> None)
    \<and> (\<forall>ino es e. bt_get (fc_dir_entries (mt_cache m)) ino = Some es \<longrightarrow> e \<in> set es \<longrightarrow> path_for_ino m (de_inode e) \<noteq> None)
    \<and> (\<forall>fh f. bt_get (mt_open_files m) fh = Some f \<longrightarrow> (\<exists>ino. path_for_ino m ino = Some (of_path f)))"

definition keeps_inodes :: "('w, 'i) mount \<Rightarrow> ('w, 'i) mount \<Rightarrow> bool" where
  "keeps_inodes m m' \<longleftrightarrow> (\<forall>ino p. path_for_ino m ino = Some p \<longrightarrow> path_for_ino m' ino = Some p)"

lemma keeps_inodes_refl [simp]: "keeps_inodes m m"
  by (simp add: keeps_inodes_def)

lemma keeps_inodes_trans [trans]: "keeps_inodes m n \<Longrightarrow> keeps_inodes n k \<Longrightarrow> keeps_inodes m k"
  by (simp add: keeps_inodes_def)

text \<open>Facts about inodes that no request can undo.\<close>

definition stable :: "(('w, 'i) mount \<Rightarrow> bool) \<Rightarrow> bool" where
  "stable K \<longleftrightarrow> (\<forall>m m'. keeps_inodes m m' \<longrightarrow> K m \<longrightarrow> K m')"

named_theorems stables
named_theorems safe_ops

lemma stable_basic [stables, simp]:
  "stable (\<lambda>m. True)" "stable (\<lambda>m. b)" "stable (\<lambda>m. path_for_ino m ino = Some p)" "stable (\<lambda>m. path_for_ino m ino \<noteq> None)"
  by (auto simp: stable_def keeps_inodes_def)

lemma stable_conj [stables]: "stable K \<Longrightarrow> stable L \<Longrightarrow> stable (\<lambda>m. K m \<and> L m)"
  unfolding stable_def by blast

lemma stable_ex [stables]: "(\<And>x. stable (K x)) \<Longrightarrow> stable (\<lambda>m. \<exists>x. K x m)"
  unfolding stable_def by blast

lemma stable_all [stables]: "(\<And>x. stable (K x)) \<Longrightarrow> stable (\<lambda>m. \<forall>x. K x m)"
  unfolding stable_def by blast

lemma stable_imp [stables]: "stable L \<Longrightarrow> stable (\<lambda>m. b \<longrightarrow> L m)"
  unfolding stable_def by blast

lemma op_bind_ok [simp]: "op_bind (op_ok x) k = k x"
  by (simp add: op_bind_def op_ok_def fun_eq_iff)

lemma op_bind_err [simp]: "op_bind (op_err e) k = op_err e"
  by (simp add: op_bind_def op_err_def fun_eq_iff)

text \<open>An operation that keeps the invariant and the inodes, given \<open>K\<close>, and establishes \<open>Q\<close>.\<close>

definition safe_op ::
  "'i interner \<Rightarrow> ('i \<Rightarrow> bool) \<Rightarrow> (('w, 'i) mount \<Rightarrow> bool) \<Rightarrow> ('w, 'i, 'e, 'a) fuse_op \<Rightarrow> ('a \<Rightarrow> ('w, 'i) mount \<Rightarrow> bool) \<Rightarrow> bool" where
  "safe_op I iok K f Q \<longleftrightarrow> (\<forall>m w r m' w'. mount_ok I iok m \<longrightarrow> K m \<longrightarrow> f (m, w) = (r, (m', w')) \<longrightarrow>
    mount_ok I iok m' \<and> keeps_inodes m m' \<and> (\<forall>x. r = Inr x \<longrightarrow> Q x m'))"

lemma safe_bind:
  assumes "stable K" "safe_op I iok K f Q" "\<And>x. safe_op I iok (\<lambda>m. K m \<and> Q x m) (k x) Q'"
  shows "safe_op I iok K (op_bind f k) Q'"
  unfolding safe_op_def
proof (intro allI impI)
  fix m w r m' w'
  assume m: "mount_ok I iok m" "K m" and run: "op_bind f k (m, w) = (r, (m', w'))"
  obtain r1 m1 w1 where f: "f (m, w) = (r1, (m1, w1))" by (metis prod.exhaust)
  have 1: "mount_ok I iok m1" "keeps_inodes m m1" "\<And>x. r1 = Inr x \<Longrightarrow> Q x m1"
    using assms(2) m f unfolding safe_op_def by blast+
  have K1: "K m1" using assms(1) 1(2) m(2) unfolding stable_def by blast
  show "mount_ok I iok m' \<and> keeps_inodes m m' \<and> (\<forall>x. r = Inr x \<longrightarrow> Q' x m')"
  proof (cases r1)
    case (Inl e)
    then show ?thesis using f run 1 by (auto simp: op_bind_def)
  next
    case (Inr x)
    then have "k x (m1, w1) = (r, (m', w'))" using f run by (simp add: op_bind_def)
    then have "mount_ok I iok m' \<and> keeps_inodes m1 m' \<and> (\<forall>x. r = Inr x \<longrightarrow> Q' x m')"
      using assms(3)[of x] 1(1) 1(3)[OF Inr] K1 unfolding safe_op_def by blast
    then show ?thesis using keeps_inodes_trans[OF 1(2)] by blast
  qed
qed

lemma safe_weaken:
  assumes "safe_op I iok K f Q" "\<And>m. K' m \<Longrightarrow> K m" "\<And>x m. mount_ok I iok m \<Longrightarrow> Q x m \<Longrightarrow> Q' x m"
  shows "safe_op I iok K' f Q'"
  using assms unfolding safe_op_def by blast

lemma safe_bind_any:
  assumes "stable K" "safe_op I iok K f Q" "\<And>x. safe_op I iok K (k x) Q'"
  shows "safe_op I iok K (op_bind f k) Q'"
  by (rule safe_bind[OF assms(1,2)]) (rule safe_weaken[OF assms(3)], auto)

lemma safe_ok [safe_ops]: "(\<And>m. mount_ok I iok m \<Longrightarrow> K m \<Longrightarrow> Q x m) \<Longrightarrow> safe_op I iok K (op_ok x) Q"
  by (simp add: safe_op_def op_ok_def)

lemma safe_err [safe_ops]: "safe_op I iok K (op_err e) Q"
  by (auto simp: safe_op_def op_err_def)

lemma safe_on_mount: "(\<And>m. mount_ok I iok m \<Longrightarrow> K m \<Longrightarrow> Q (f m) m) \<Longrightarrow> safe_op I iok K (on_mount f) Q"
  by (simp add: safe_op_def on_mount_def)

lemma safe_look: "safe_op I iok K (on_mount f) (\<lambda>_ _. True)"
  by (simp add: safe_on_mount)

lemma safe_set_mount:
  "(\<And>m. mount_ok I iok m \<Longrightarrow> K m \<Longrightarrow> mount_ok I iok (f m) \<and> keeps_inodes m (f m)) \<Longrightarrow> safe_op I iok K (set_mount f) (\<lambda>_ _. True)"
  by (simp add: safe_op_def set_mount_def)

lemma safe_on_world [safe_ops]: "safe_op I iok K (on_world f) (\<lambda>_ _. True)"
  by (auto simp: safe_op_def on_world_def split: prod.splits)

lemma safe_fs_file_get [safe_ops]: "safe_op I iok K (fs_file_get p) (\<lambda>_ _. True)"
  by (auto simp: safe_op_def fs_file_get_def split: prod.splits)

lemma safe_map_err: "safe_op I iok K f Q \<Longrightarrow> safe_op I iok K (op_map_err g f) Q"
  unfolding safe_op_def op_map_err_def by (auto simp: apfst_def map_prod_def map_err_def split: prod.splits sum.splits)

lemma safe_ignore: "safe_op I iok K f Q \<Longrightarrow> safe_op I iok K (op_ignore f) (\<lambda>_ _. True)"
  unfolding safe_op_def op_ignore_def by (auto simp: prod_eq_iff)

abbreviation all_known :: "dir_entry_meta list \<Rightarrow> ('w, 'i) mount \<Rightarrow> bool" where
  "all_known es m \<equiv> \<forall>e \<in> set es. path_for_ino m (de_inode e) \<noteq> None"

lemma stable_known [stables]: "stable (all_known es)" "stable (\<lambda>m. all_known es m)"
  unfolding stable_def keeps_inodes_def by fastforce+

lemma mount_ok_root: "mount_ok I iok m \<Longrightarrow> path_for_ino m 1 = Some ''/''"
  by (simp add: mount_ok_def)

lemma mount_ok_parents: "mount_ok I iok m \<Longrightarrow> bt_get (fc_parents (mt_cache m)) ino = Some p \<Longrightarrow> path_for_ino m p \<noteq> None"
  unfolding mount_ok_def by blast

lemma mount_ok_cached: "mount_ok I iok m \<Longrightarrow> bt_get (fc_dirs (mt_cache m)) ino = Some d \<Longrightarrow> path_for_ino m ino \<noteq> None"
  unfolding mount_ok_def by blast

lemma mount_ok_listed:
  "mount_ok I iok m \<Longrightarrow> bt_get (fc_dir_entries (mt_cache m)) ino = Some es \<Longrightarrow> e \<in> set es \<Longrightarrow> path_for_ino m (de_inode e) \<noteq> None"
  unfolding mount_ok_def by blast

lemma mount_ok_open: "mount_ok I iok m \<Longrightarrow> bt_get (mt_open_files m) fh = Some f \<Longrightarrow> \<exists>ino. path_for_ino m ino = Some (of_path f)"
  unfolding mount_ok_def by blast

lemma safe_op_root: "safe_op I iok (\<lambda>m. path_for_ino m 1 = Some ''/'') f Q \<Longrightarrow> safe_op I iok K f Q"
  unfolding safe_op_def using mount_ok_root by blast

text \<open>The changes of the cache.\<close>

lemma path_for_ino_update [simp]:
  "path_for_ino (m\<lparr>mt_cache := c\<rparr>) = path_for_ino m" "path_for_ino (m\<lparr>mt_open_files := o'\<rparr>) = path_for_ino m"
  "path_for_ino (m\<lparr>mt_next_fh := h\<rparr>) = path_for_ino m"
  by (simp_all add: path_for_ino_def fun_eq_iff)

lemma path_for_ino_cache [simp]:
  "path_for_ino (cache_attr ino a m) = path_for_ino m" "path_for_ino (cache_parent ino p m) = path_for_ino m"
  "path_for_ino (cache_dir ino d m) = path_for_ino m" "path_for_ino (cache_entries ino es m) = path_for_ino m"
  by (simp_all add: cache_attr_def cache_parent_def cache_dir_def cache_entries_def)

lemma keeps_inodes_same [simp]: "path_for_ino m' = path_for_ino m \<Longrightarrow> keeps_inodes m m'"
  by (simp add: keeps_inodes_def)

lemma mount_ok_attr [simp]:
  "mount_ok I iok m \<Longrightarrow> path_for_ino m ino \<noteq> None \<Longrightarrow> fa_ino a = ino \<Longrightarrow> mount_ok I iok (cache_attr ino a m)"
  unfolding mount_ok_def path_for_ino_cache by (auto simp: cache_attr_def bt_get_insert)

lemma mount_ok_parent [simp]:
  "mount_ok I iok m \<Longrightarrow> path_for_ino m p = Some pp \<Longrightarrow> path_for_ino m ino = Some (child_path pp name)
    \<Longrightarrow> mount_ok I iok (cache_parent ino p m)"
  unfolding mount_ok_def path_for_ino_cache by (auto simp: cache_parent_def bt_get_insert)

lemma mount_ok_dir [simp]:
  "mount_ok I iok m \<Longrightarrow> path_for_ino m ino \<noteq> None \<Longrightarrow> mount_ok I iok (cache_dir ino d m)"
  unfolding mount_ok_def path_for_ino_cache by (auto simp: cache_dir_def bt_get_insert)

lemma mount_ok_entries [simp]:
  "mount_ok I iok m \<Longrightarrow> (\<And>es e. o' = Some es \<Longrightarrow> e \<in> set es \<Longrightarrow> path_for_ino m (de_inode e) \<noteq> None) \<Longrightarrow> mount_ok I iok (cache_entries ino o' m)"
  unfolding mount_ok_def path_for_ino_cache
  by (cases o') (auto simp: cache_entries_def bt_get_insert bt_get_remove split: if_splits)

lemma mount_ok_write [simp]:
  "mount_ok I iok m \<Longrightarrow> path_for_ino m i = Some (of_path f) \<Longrightarrow> mount_ok I iok (m\<lparr>mt_open_files := bt_insert fh f (mt_open_files m)\<rparr>)"
  "mount_ok I iok m \<Longrightarrow> path_for_ino m i = Some (of_path f) \<Longrightarrow>
    mount_ok I iok (m\<lparr>mt_next_fh := h, mt_open_files := bt_insert fh f (mt_open_files m)\<rparr>)"
  unfolding mount_ok_def path_for_ino_update by auto

lemma mount_ok_closed: "mount_ok I iok m \<Longrightarrow> mount_ok I iok (m\<lparr>mt_open_files := bt_remove fh (mt_open_files m)\<rparr>)"
  unfolding mount_ok_def path_for_ino_update by simp

lemma fa_ino_made [simp]: "fa_ino (make_dir_attr ino ts) = ino" "fa_ino (make_file_attr ino sz ts) = ino" "fa_ino root_attr = 1"
  by (simp_all add: make_dir_attr_def make_file_attr_def root_attr_def)

lemma keeps_inodesD:
  "keeps_inodes m m' \<Longrightarrow> path_for_ino m ino = Some p \<Longrightarrow> path_for_ino m' ino = Some p"
  "keeps_inodes m m' \<Longrightarrow> path_for_ino m ino \<noteq> None \<Longrightarrow> path_for_ino m' ino \<noteq> None"
  by (auto simp: keeps_inodes_def)

lemma mount_ok_keeps:
  assumes ok: "mount_ok I iok m" and keep: "keeps_inodes m m'" and same: "mt_interner m' = mt_interner m" "mt_cache m' = mt_cache m"
      "mt_open_files m' = mt_open_files m" and i: "iok (mt_inodes m')"
  shows "mount_ok I iok m'"
proof -
  note k = keeps_inodesD[OF keep]
  show ?thesis unfolding mount_ok_def same
  proof (intro conjI allI impI i, goal_cases)
    case 1 show ?case using ok by (simp add: mount_ok_def)
  next
    case 2 show ?case using ok k(1) by (simp add: mount_ok_def)
  next
    case (3 ino a) then show ?case using ok k(2) by (simp add: mount_ok_def)
  next
    case (4 ino a) then show ?case using ok by (simp add: mount_ok_def)
  next
    case (5 ino p) then show ?case using ok k(1) unfolding mount_ok_def by blast
  next
    case (6 ino d) then show ?case using ok k(2) by (simp add: mount_ok_def)
  next
    case (7 ino es e) then show ?case using ok k(2) unfolding mount_ok_def by blast
  next
    case (8 fh f) then show ?case using ok k(1) unfolding mount_ok_def by blast
  qed
qed

context interning
begin

lemma interned_path:
  assumes "mount_ok I iok m" "in_get_or_intern I path (mt_inodes m) = Some (n, i)"
  shows "mount_ok I iok (m\<lparr>mt_inodes := i\<rparr>) \<and> keeps_inodes m (m\<lparr>mt_inodes := i\<rparr>)
    \<and> path_for_ino (m\<lparr>mt_inodes := i\<rparr>) (of_nat n) = Some path"
proof -
  let ?m = "m\<lparr>mt_inodes := i\<rparr>"
  have I: "mt_interner m = I" and ok: "iok (mt_inodes m)" using assms(1) by (auto simp: mount_ok_def)
  note law = intern_law[OF ok assms(2)]
  have keep: "keeps_inodes m ?m" using law I by (auto simp: keeps_inodes_def path_for_ino_def)
  have "n < 2 ^ 32" using range[of i n] bounded[of i] law by fastforce
  then have "unat (of_nat n :: u64) = n" by (simp add: unat_of_nat)
  then have here: "path_for_ino ?m (of_nat n) = Some path" using law I by (simp add: path_for_ino_def)
  have "mount_ok I iok ?m" by (rule mount_ok_keeps[OF assms(1) keep]) (use law in simp_all)
  then show ?thesis using keep here by blast
qed

lemma safe_ino_for_path: "safe_op I iok K (ino_for_path e path) (\<lambda>ino m. path_for_ino m ino = Some path)"
  unfolding safe_op_def ino_for_path_def
proof (intro allI impI)
  fix m w r m' w'
  assume m: "mount_ok I iok m"
    and run: "(case (m, w) of (m, w) \<Rightarrow> case in_get_or_intern (mt_interner m) path (mt_inodes m) of None \<Rightarrow> (Inl e, m, w)
      | Some (idx, inodes) \<Rightarrow> (Inr (of_nat idx :: u64), m\<lparr>mt_inodes := inodes\<rparr>, w)) = (r, m', w')"
  have I: "mt_interner m = I" using m by (simp add: mount_ok_def)
  show "mount_ok I iok m' \<and> keeps_inodes m m' \<and> (\<forall>ino. r = Inr ino \<longrightarrow> path_for_ino m' ino = Some path)"
    using run m interned_path[OF m] by (auto simp: I split: option.splits)
qed

lemma safe_known_path: "safe_op I iok K (known_path ino) (\<lambda>path m. path_for_ino m ino = Some path)"
  by (auto simp: safe_op_def known_path_def op_bind_def on_mount_def op_err_def op_ok_def split: option.splits)

lemma safe_note_child:
  assumes "\<And>i. fa_ino (mk i) = i"
  shows "safe_op I iok (\<lambda>m. path_for_ino m parent = Some pp) (note_child parent pp name mk)
    (\<lambda>a m. path_for_ino m (fa_ino a) = Some (child_path pp name))"
  unfolding note_child_def Let_def
  by (rule safe_bind[OF _ safe_ino_for_path], simp,
      rule safe_bind[where Q = "\<lambda>_ _. True"], (intro stables), rule safe_set_mount)
     (auto intro!: mount_ok_parent mount_ok_attr safe_ok simp: assms)

lemma safe_load:
  "safe_op I iok K load_root_dir (\<lambda>_ _. True)" "safe_op I iok K (load_child_dir d r p) (\<lambda>_ _. True)" if "stable K"
  unfolding load_root_dir_def load_child_dir_def by (rule safe_bind[OF that safe_on_world] safe_ok; simp)+

lemma safe_walk:
  "safe_op I iok (\<lambda>m. path_for_ino m cur_ino = Some cur_path) (walk cur_path cur_ino segs) (\<lambda>_ _. True)"
proof (induction segs arbitrary: cur_ino cur_path)
  case Nil
  show ?case by (auto intro: safe_ok)
next
  case (Cons seg segs)
  let ?path = "child_path cur_path seg"
  let ?K = "\<lambda>ino m. path_for_ino m cur_ino = Some cur_path \<and> path_for_ino m ino = Some ?path"
  have load: "safe_op I iok (?K ino) (op_bind (load_child_dir parent dr ?path) (\<lambda>child.
      set_mount (cache_attr ino (make_dir_attr ino ts) \<circ> cache_parent ino cur_ino \<circ> cache_dir ino child))) (\<lambda>_ _. True)"
    for ino parent dr ts
    by (rule safe_bind[where Q = "\<lambda>_ _. True"], (intro stables), rule safe_load, (intro stables), rule safe_set_mount) auto
  have parent: "safe_op I iok (?K ino) (op_bind (on_mount (cached cur_ino)) (\<lambda>p. case p of
        None \<Rightarrow> op_err (Anyhow ''parent not cached'')
      | Some parent \<Rightarrow> (case bt_get (dv_dirs (cd_dir parent)) seg of
          None \<Rightarrow> op_err (Anyhow ''dir not found'')
        | Some dr \<Rightarrow> op_bind (load_child_dir parent dr ?path) (\<lambda>child.
            set_mount (cache_attr ino (make_dir_attr ino (dr_ts_seconds dr)) \<circ> cache_parent ino cur_ino \<circ> cache_dir ino child)))))
      (\<lambda>_ _. True)" for ino
    by (rule safe_bind[where Q = "\<lambda>_ _. True"], (intro stables), rule safe_on_mount, simp)
      (auto intro: safe_err load split: option.split)
  show ?case unfolding walk.simps Let_def
    apply (rule safe_bind[OF _ safe_ino_for_path], simp)
    apply (rule safe_bind[where Q = "\<lambda>_ _. True"], (intro stables), rule safe_on_mount, simp)
    apply (rule safe_bind[where Q = "\<lambda>_ _. True"], (intro stables))
     apply (auto intro: safe_ok parent safe_weaken[OF parent] split: option.split)[1]
    apply (rule safe_weaken[OF Cons.IH], auto)
    done
qed

lemma safe_ensure_dir_cached: "stable K \<Longrightarrow> safe_op I iok K (ensure_dir_cached ino) (\<lambda>_ _. True)"
  unfolding ensure_dir_cached_def
  apply (rule safe_bind_any[OF _ safe_look], assumption)
  apply (rule safe_bind_any[where Q = "\<lambda>_ _. True"], assumption)
   apply (auto split: option.split intro!: safe_ok safe_bind_any[OF _ safe_load(1)] safe_set_mount simp: mount_ok_root)[1]
  apply (rule safe_bind_any[OF _ safe_look], assumption)
  apply (auto split: option.split intro!: safe_ok safe_err safe_bind_any[OF _ safe_look])
  apply (rule safe_op_root[OF safe_walk])
  done

lemma safe_get_file_ref: "stable K \<Longrightarrow> safe_op I iok K (get_file_ref ino) (\<lambda>_ _. True)"
  unfolding get_file_ref_def
  by (rule safe_bind_any[OF _ safe_look], assumption)
    (auto split: option.split intro!: safe_ok safe_err safe_bind_any[OF _ safe_fs_file_get])

lemma safe_refresh_dir_cache: "stable K \<Longrightarrow> safe_op I iok K (refresh_dir_cache ino) (\<lambda>_ _. True)"
  unfolding refresh_dir_cache_def Let_def
  apply (rule safe_bind[where Q = "\<lambda>p m. p \<noteq> None \<longrightarrow> path_for_ino m ino \<noteq> None"], assumption, rule safe_on_mount, simp)
  apply (auto split: option.split intro!: safe_err safe_bind_any[OF _ safe_on_world] safe_set_mount stables mount_ok_entries)
  done

lemma safe_lookup: "safe_op I iok (\<lambda>_. True) (Fuse_lookup parent name) (\<lambda>a m. path_for_ino m (fa_ino a) \<noteq> None)"
  unfolding Fuse_lookup_def
  apply (rule safe_bind[OF _ safe_known_path], simp)
  apply (rule safe_bind_any[OF _ safe_map_err[OF safe_ensure_dir_cached]], (intro stables)+)
  apply (rule safe_bind_any[OF _ safe_look], (intro stables))
  apply (auto split: option.split intro!: safe_err safe_weaken[OF safe_note_child])
  done

lemma safe_list_children:
  assumes "\<And>name mk i. (name, mk) \<in> set xs \<Longrightarrow> fa_ino (mk i) = i"
  shows "safe_op I iok (\<lambda>m. path_for_ino m ino = Some path) (list_children ino path kind xs)
    (\<lambda>es m. all_known es m)"
  using assms
proof (induction xs)
  case Nil
  show ?case by (auto intro: safe_ok)
next
  case (Cons x xs)
  obtain name mk where x: "x = (name, mk)" by (cases x)
  have mk: "fa_ino (mk i) = i" for i using Cons.prems x by auto
  have rest: "fa_ino (mk' i) = i" if "(n, mk') \<in> set xs" for n mk' i using Cons.prems that by auto
  show ?case unfolding x list_children.simps
    apply (rule safe_bind[OF _ safe_note_child[OF mk]], simp)
    apply (rule safe_bind[where Q = "\<lambda>es m. all_known es m"], (intro stables)+)
     apply (rule safe_weaken[OF Cons.IH], erule rest, simp, simp)
    apply (auto intro!: safe_ok)
    done
qed

lemma safe_entries_of_dir:
  "safe_op I iok (\<lambda>m. path_for_ino m parent_inode \<noteq> None \<and> path_for_ino m ino = Some path) (entries_of_dir ino parent_inode path d)
    (\<lambda>es m. all_known es m)"
  unfolding entries_of_dir_def
  apply (rule safe_bind[where Q = "\<lambda>es m. all_known es m"], (intro stables)+, rule safe_weaken[OF safe_list_children], force, simp, simp)
  apply (rule safe_bind[where Q = "\<lambda>es m. all_known es m"], (intro stables)+, rule safe_weaken[OF safe_list_children], force, simp, simp)
  apply (auto intro!: safe_ok)
  done

lemma safe_build_entries:
  "safe_op I iok (\<lambda>m. path_for_ino m ino \<noteq> None) (build_entries ino d) (\<lambda>es m. all_known es m)"
  unfolding build_entries_def
  apply (rule safe_bind[where Q = "\<lambda>p m. path_for_ino m p \<noteq> None"], (intro stables), rule safe_on_mount)
   apply (auto simp: mount_ok_root dest: mount_ok_parents split: option.split)[1]
  apply (rule safe_bind[where Q = "\<lambda>p m. path_for_ino m ino = Some p"], (intro stables), rule safe_on_mount, force)
  apply (rule safe_bind[where Q = "\<lambda>es m. all_known es m"], (intro stables)+, rule safe_weaken[OF safe_entries_of_dir], simp, simp)
  apply (rule safe_bind_any[OF _ safe_set_mount], (intro stables))
   apply (auto intro!: mount_ok_entries safe_ok)
  done

lemma safe_readdir:
  "safe_op I iok (\<lambda>_. True) (Fuse_readdir ino offset) (\<lambda>it m. all_known (it_entries it) m)"
  unfolding Fuse_readdir_def
  apply (rule safe_bind_any[OF _ safe_look], simp)
  apply (rule safe_bind_any[where Q = "\<lambda>_ _. True"], simp)
   apply (auto intro!: safe_ok safe_map_err safe_refresh_dir_cache)[1]
  apply (rule safe_bind_any[OF _ safe_map_err[OF safe_ensure_dir_cached]], (intro stables)+)
  apply (rule safe_bind[where Q = "\<lambda>x m. (fst x \<noteq> None \<longrightarrow> path_for_ino m ino \<noteq> None)
    \<and> (\<forall>es. snd x = Some es \<longrightarrow> all_known es m)"], simp, rule safe_on_mount)
   apply (simp add: cached_def, blast dest: mount_ok_cached mount_ok_listed)
  apply (clarsimp split: option.split, intro conjI allI impI safe_err)
   apply (rule safe_bind[where Q = "\<lambda>es m. all_known es m"], (intro stables)+, rule safe_weaken[OF safe_build_entries])
     apply (auto intro!: safe_ok)
  done

lemma safe_read: "safe_op I iok (\<lambda>_. True) (Fuse_read ino fh offset sz) (\<lambda>_ _. True)"
  unfolding Fuse_read_def Let_def
  by (auto intro!: safe_err safe_ok safe_map_err safe_on_world safe_bind_any[OF _ safe_map_err[OF safe_get_file_ref]]
      safe_bind_any[OF _ safe_look] split: option.split)

lemma safe_write: "safe_op I iok (\<lambda>_. True) (Fuse_write ino fh data offset) (\<lambda>_ _. True)"
  unfolding Fuse_write_def
  apply (rule safe_bind[where Q = "\<lambda>x m. \<forall>e. snd x = Some e \<longrightarrow> (\<exists>i. path_for_ino m i = Some (of_path e))"], simp, rule safe_on_mount)
   apply (auto dest: mount_ok_open)[1]
  apply (auto intro!: safe_err safe_ok safe_bind_any[OF _ safe_set_mount] mount_ok_write stables split: option.split)
  done

lemma safe_create:
  "safe_op I iok (\<lambda>_. True) (Fuse_create parent name) (\<lambda>r m. path_for_ino m (fa_ino (fst r)) \<noteq> None)"
  unfolding Fuse_create_def Let_def
  apply (rule safe_bind_any[OF _ safe_look], simp)
  apply (split if_split, intro conjI impI, rule safe_err)
  apply (rule safe_bind[OF _ safe_known_path], simp)
  apply (rule safe_bind_any[OF _ safe_map_err[OF safe_ensure_dir_cached]], (intro stables)+)
  apply (rule safe_bind[OF _ safe_ino_for_path], (intro stables))
  apply (rule safe_bind_any[OF _ safe_look], (intro stables))
  apply (rule safe_bind_any[OF _ safe_set_mount], (intro stables))
   apply (auto intro!: mount_ok_parent mount_ok_attr mount_ok_write safe_ok)
  done

lemma safe_mkdir: "safe_op I iok (\<lambda>_. True) (Fuse_mkdir parent name) (\<lambda>a m. path_for_ino m (fa_ino a) \<noteq> None)"
  unfolding Fuse_mkdir_def Let_def
  apply (rule safe_bind_any[OF _ safe_look], simp)
  apply (split if_split, intro conjI impI, rule safe_err)
  apply (rule safe_bind[OF _ safe_known_path], simp)
  apply (rule safe_bind_any[OF _ safe_map_err[OF safe_on_world]], (intro stables))+
  apply (rule safe_bind_any[OF _ safe_ignore[OF safe_refresh_dir_cache]], (intro stables)+)
  apply (rule safe_weaken[OF safe_note_child], auto)
  done

lemma safe_release: "safe_op I iok (\<lambda>_. True) (Fuse_release uuid ino fh) (\<lambda>_ _. True)"
  unfolding Fuse_release_def Let_def
  apply (rule safe_bind_any[OF _ safe_look], simp)
  apply (simp only: split_paired_all prod.case, rename_tac ro opened H, case_tac opened)
   apply (simp add: safe_ok)
  apply (case_tac ro, simp add: safe_ok)
  apply (simp only: option.case if_False)
  apply (rule safe_bind_any[OF _ safe_set_mount], simp, simp add: mount_ok_closed)
  apply (rule safe_bind_any[OF _ safe_map_err[OF safe_on_world]], (intro stables))+
  apply (rule safe_bind_any[where Q = "\<lambda>_ _. True"], simp)
   apply (auto intro!: safe_ok safe_weaken[OF safe_ino_for_path])[1]
  apply (rule safe_bind_any[OF _ safe_ignore[OF safe_refresh_dir_cache]], (intro stables)+)
  apply (rule safe_bind[OF _ safe_ino_for_path], (intro stables))
  apply (auto intro!: safe_set_mount mount_ok_attr)
  done

lemma fuse_step_keeps:
  assumes "mount_ok I iok m" "fuse_step q (m, w) = (r, (m', w'))"
  shows "mount_ok I iok m' \<and> keeps_inodes m m'"
proof -
  have use: "mount_ok I iok m' \<and> keeps_inodes m m'"
    if safe: "safe_op I iok (\<lambda>_. True) f Q" and run: "apfst rep (f (m, w)) = (r, (m', w'))"
    for f :: "('a, 'i, fuse_error, 'x) fuse_op" and Q and rep :: "fuse_error + 'x \<Rightarrow> fuse_reply"
  proof -
    obtain a where "f (m, w) = (a, (m', w'))" using run by (cases "f (m, w)") auto
    then show ?thesis using safe assms(1) unfolding safe_op_def by blast
  qed
  have here: "safe_op I iok (\<lambda>_. True) (Fuse_getattr ino) (\<lambda>_ _. True)" "safe_op I iok (\<lambda>_. True) (Fuse_setattr ino sz) (\<lambda>_ _. True)"
    "safe_op I iok (\<lambda>_. True) (Fuse_open ino) (\<lambda>_ _. True)" for ino sz
    unfolding Fuse_getattr_def Fuse_setattr_def Fuse_open_def
    by (auto intro!: safe_ok safe_err safe_bind_any[OF _ safe_look] split: option.split)
  show ?thesis using assms(2)
    by (cases q) (simp_all only: fuse_step.simps, (erule use[OF safe_lookup] use[OF safe_readdir] use[OF safe_release] use[OF safe_read]
      use[OF safe_write] use[OF safe_create] use[OF safe_mkdir] use[OF here(1)] use[OF here(2)] use[OF here(3)])+)
qed

lemma Mount_new_ok:
  assumes "Mount_new H I fs store ro = Inr m"
  shows "mount_ok I iok m \<and> in_len I (mt_inodes m) = 2"
proof -
  obtain n i k j where i: "in_get_or_intern I '''' (in_new I) = Some (n, i)" and j: "in_get_or_intern I ''/'' i = Some (k, j)"
      and m: "m = \<lparr>mt_hash = H, mt_interner = I, mt_fs = fs, mt_store = store, mt_inodes = j, mt_cache = FsCache_new,
                 mt_open_files = bt_empty, mt_next_fh = 1, mt_read_only = ro\<rparr>"
    using assms unfolding Mount_new_def by (auto split: option.splits)
  have none: "in_resolve I (in_new I) x = None" for x using range[of "in_new I" x] new_law by auto
  have 1: "iok i" "in_resolve I i 0 = Some ''''" "in_len I i = 1" using intern_law[OF _ i] new_law none by auto
  have "in_resolve I i x \<noteq> Some ''/''" for x using range[OF 1(1), of x] 1 by (cases x) auto
  then have "iok j \<and> in_resolve I j 1 = Some ''/'' \<and> in_len I j = 2" using intern_law[OF 1(1) j] 1(3) by auto
  then show ?thesis by (simp add: m mount_ok_def path_for_ino_def FsCache_new_def)
qed

lemma run_fuse_keeps:
  "mount_ok I iok m \<Longrightarrow> run_ops fuse_step reqs (m, w) = (rs, (m', w')) \<Longrightarrow> mount_ok I iok m' \<and> keeps_inodes m m'"
proof (induction reqs arbitrary: m w rs)
  case (Cons q reqs)
  obtain r n v where q: "fuse_step q (m, w) = (r, (n, v))" by (metis prod.exhaust)
  obtain rs' where rest: "run_ops fuse_step reqs (n, v) = (rs', (m', w'))" using Cons.prems(2) q by (auto split: prod.splits)
  have 1: "mount_ok I iok n" "keeps_inodes m n" using fuse_step_keeps[OF Cons.prems(1) q] by blast+
  show ?case using Cons.IH[OF 1(1) rest] keeps_inodes_trans[OF 1(2)] by blast
qed simp

lemma inodes_unique:
  assumes "mount_ok I iok m" "path_for_ino m i = Some p" "path_for_ino m j = Some p"
  shows "i = j"
proof -
  have "mt_interner m = I" "iok (mt_inodes m)" using assms(1) by (auto simp: mount_ok_def)
  then have "unat i = unat j" using assms(2,3) injective unfolding path_for_ino_def by blast
  then show ?thesis by (simp add: word_unat_eq_iff)
qed

end

text \<open>An interner that keeps the strings in the order of their keys.\<close>

definition list_interner :: "string list interner" where
  "list_interner = \<lparr>in_new = [],
    in_get_or_intern = (\<lambda>s l. if s \<in> set l then Some (length (takeWhile (\<lambda>t. t \<noteq> s) l), l)
      else if length l < 2 ^ 32 - 1 then Some (length l, l @ [s]) else None),
    in_resolve = (\<lambda>l k. if k < length l then Some (l ! k) else None),
    in_len = length\<rparr>"

lemma position_of: "s \<in> set l \<Longrightarrow> length (takeWhile (\<lambda>t. t \<noteq> s) l) < length l \<and> l ! length (takeWhile (\<lambda>t. t \<noteq> s) l) = s"
  by (induction l) auto

interpretation list_interning: interning list_interner "\<lambda>l. distinct l \<and> length l < 2 ^ 32"
proof (unfold_locales, goal_cases)
  case (2 i s n i')
  show ?case
  proof (cases "s \<in> set i")
    case True
    then have i': "i' = i" and n: "n < length i" "i ! n = s" using 2(2) position_of[OF True] by (auto simp: list_interner_def)
    then have "\<exists>k. in_resolve list_interner i k = Some s" by (auto simp: list_interner_def intro!: exI[of _ n])
    then show ?thesis using 2(1) i' n by (simp add: list_interner_def)
  next
    case False
    then have r: "n = length i" "i' = i @ [s]" "length i < 2 ^ 32 - 1" using 2(2) by (auto simp: list_interner_def split: if_splits)
    have "\<not> (\<exists>k. in_resolve list_interner i k = Some s)" using False by (auto simp: list_interner_def split: if_splits)
    then show ?thesis using 2(1) r False by (simp add: list_interner_def nth_append)
  qed
qed (auto simp: list_interner_def nth_eq_iff_index_eq split: if_splits)

section \<open>The mount stays well-formed\<close>

text \<open>C16. Whatever requests the kernel sends to a mount, in whatever order, and whatever the file system and the store answer,
  the mount stays well-formed: inode 1 is the root, every attribute, cached directory, listed entry and open file belongs to an
  inode whose path is known, the attributes carry the inode they are stored under, the parent of an inode is the directory
  above its path, an inode once handed out keeps its path, and no path has two inodes.\<close>

theorem mount_well_formed:
  assumes lasso: "interning I iok" and mounted: "Fuse_mount H I fs store read_only w = Inr (m, v)"
    and run: "run_ops fuse_step reqs (m, v) = (replies, (m', v'))"
  shows "mount_ok I iok m' \<and> keeps_inodes m m'
    \<and> (\<forall>i j p. path_for_ino m' i = Some p \<longrightarrow> path_for_ino m' j = Some p \<longrightarrow> i = j)"
proof -
  obtain n where n: "Mount_new H I fs store read_only = Inr n" and m: "snd (ensure_dir_cached 1 (n, snd (FS5_list fs None 16 w))) = (m, v)"
    using mounted by (auto simp: Fuse_mount_def Let_def split: sum.splits)
  have "safe_op I iok (\<lambda>_. True) (ensure_dir_cached 1) (\<lambda>_ _. True)" by (rule interning.safe_ensure_dir_cached[OF lasso]) simp
  then have "mount_ok I iok m"
    using m interning.Mount_new_ok[OF lasso n] unfolding safe_op_def by (metis prod.collapse snd_conv)
  then have "mount_ok I iok m'" "keeps_inodes m m'" using interning.run_fuse_keeps[OF lasso _ run] by blast+
  then show ?thesis using interning.inodes_unique[OF lasso] by blast
qed

section \<open>Mounts that only read\<close>

text \<open>Operations that use the file system only to read from it: they keep every property \<open>P\<close> of the world that exporting a directory and
  looking up a file keep, and they open and close nothing.\<close>

definition reads_only :: "('w \<Rightarrow> bool) \<Rightarrow> 'w fs5 \<Rightarrow> ('w, 'i, 'e, 'a) fuse_op \<Rightarrow> bool" where
  "reads_only P fs f \<longleftrightarrow> (\<forall>m w r m' w'. mt_fs m = fs \<longrightarrow> P w \<longrightarrow> f (m, w) = (r, (m', w')) \<longrightarrow>
    mt_fs m' = fs \<and> mt_read_only m' = mt_read_only m \<and> mt_open_files m' = mt_open_files m \<and> P w')"

named_theorems reads

lemma reads_bind [reads]:
  assumes "reads_only P fs f" "\<And>x. reads_only P fs (k x)"
  shows "reads_only P fs (op_bind f k)"
  unfolding reads_only_def
proof (intro allI impI)
  fix m w r m' w'
  assume m: "mt_fs m = fs" "P w" and run: "op_bind f k (m, w) = (r, (m', w'))"
  obtain r1 m1 w1 where f: "f (m, w) = (r1, (m1, w1))" by (metis prod.exhaust)
  note 1 = assms(1)[unfolded reads_only_def, rule_format, OF m f]
  show "mt_fs m' = fs \<and> mt_read_only m' = mt_read_only m \<and> mt_open_files m' = mt_open_files m \<and> P w'"
  proof (cases r1)
    case (Inl e)
    then show ?thesis using f run 1 by (auto simp: op_bind_def)
  next
    case (Inr x)
    then have "k x (m1, w1) = (r, (m', w'))" using f run by (simp add: op_bind_def)
    from assms(2)[unfolded reads_only_def, rule_format, OF _ _ this] 1 show ?thesis by simp
  qed
qed

lemma reads_basic [reads]:
  "reads_only P fs (op_ok x)" "reads_only P fs (op_err e)" "reads_only P fs (on_mount g)" "reads_only P fs (ino_for_path e' p)"
  by (auto simp: reads_only_def op_ok_def op_err_def on_mount_def ino_for_path_def split: option.splits)

lemma reads_set_mount [reads]:
  "(\<And>m. mt_fs (g m) = mt_fs m \<and> mt_read_only (g m) = mt_read_only m \<and> mt_open_files (g m) = mt_open_files m) \<Longrightarrow> reads_only P fs (set_mount g)"
  by (auto simp: reads_only_def set_mount_def)

lemma reads_map_err [reads]:
  assumes "reads_only P fs f"
  shows "reads_only P fs (op_map_err g f)"
  unfolding reads_only_def
proof (intro allI impI)
  fix m w r m' w'
  assume m: "mt_fs m = fs" "P w" and run: "op_map_err g f (m, w) = (r, (m', w'))"
  then obtain a where "f (m, w) = (a, (m', w'))" by (cases "f (m, w)") (auto simp: op_map_err_def)
  from assms[unfolded reads_only_def, rule_format, OF m this]
  show "mt_fs m' = fs \<and> mt_read_only m' = mt_read_only m \<and> mt_open_files m' = mt_open_files m \<and> P w'" .
qed

lemma reads_if [reads]: "reads_only P fs f \<Longrightarrow> reads_only P fs g \<Longrightarrow> reads_only P fs (if b then f else g)"
  by simp

lemma reads_option [reads]:
  "reads_only P fs f \<Longrightarrow> (\<And>x. reads_only P fs (k x)) \<Longrightarrow> reads_only P fs (case v of None \<Rightarrow> f | Some x \<Rightarrow> k x)"
  by (cases v) simp_all

lemma reads_prod [reads]: "(\<And>x y. reads_only P fs (h x y)) \<Longrightarrow> reads_only P fs (case z of (x, y) \<Rightarrow> h x y)"
  by (cases z) simp

lemma reads_on_world:
  assumes "\<And>w store. P w \<Longrightarrow> P (snd (f fs store w))"
  shows "reads_only P fs (on_world f)"
  unfolding reads_only_def on_world_def
proof (intro allI impI)
  fix m w r m' w'
  assume m: "mt_fs m = fs" "P w" and run: "(case (m, w) of (m, w) \<Rightarrow> case f (mt_fs m) (mt_store m) w of (r, w) \<Rightarrow> (r, m, w)) = (r, m', w')"
  then have "f fs (mt_store m) w = (r, w')" "m' = m" by (auto split: prod.splits)
  then show "mt_fs m' = fs \<and> mt_read_only m' = mt_read_only m \<and> mt_open_files m' = mt_open_files m \<and> P w'"
    using assms[OF m(2), of "mt_store m"] m(1) by simp
qed

text \<open>What reading the file system keeps.\<close>

definition reading_keeps :: "('w \<Rightarrow> bool) \<Rightarrow> 'w fs5 \<Rightarrow> bool" where
  "reading_keeps P fs \<longleftrightarrow> (\<forall>w. P w \<longrightarrow> P (snd (FS5_export_merged_snapshot fs w))
    \<and> (\<forall>p. P (snd (FS5_export_merged_snapshot_at fs p w)) \<and> P (snd (FS5_file_get fs p w))))"

lemma reads_fs:
  assumes "reading_keeps P fs"
  shows "reads_only P fs (on_world (\<lambda>fs _. FS5_export_merged_snapshot fs))"
    "reads_only P fs (on_world (\<lambda>fs _. FS5_export_merged_snapshot_at fs p))"
    "reads_only P fs (on_world (\<lambda>fs _. if b then FS5_export_merged_snapshot fs else FS5_export_merged_snapshot_at fs p))"
    "reads_only P fs (on_world (\<lambda>_ store. act_read (g store)))"
  using assms by (auto intro!: reads_on_world simp: reading_keeps_def act_read_def)

lemma reads_file_get: "reading_keeps P fs \<Longrightarrow> reads_only P fs (fs_file_get p)"
  unfolding reads_only_def fs_file_get_def reading_keeps_def by (auto split: prod.splits) (metis snd_conv)

lemma cache_updates_keep [simp]:
  "mt_fs (cache_attr j a m) = mt_fs m" "mt_read_only (cache_attr j a m) = mt_read_only m" "mt_open_files (cache_attr j a m) = mt_open_files m"
  "mt_fs (cache_parent j p m) = mt_fs m" "mt_read_only (cache_parent j p m) = mt_read_only m" "mt_open_files (cache_parent j p m) = mt_open_files m"
  "mt_fs (cache_dir j d m) = mt_fs m" "mt_read_only (cache_dir j d m) = mt_read_only m" "mt_open_files (cache_dir j d m) = mt_open_files m"
  "mt_fs (cache_entries j es m) = mt_fs m" "mt_read_only (cache_entries j es m) = mt_read_only m" "mt_open_files (cache_entries j es m) = mt_open_files m"
  by (simp_all add: cache_attr_def cache_parent_def cache_dir_def cache_entries_def)

lemma reads_walk: "reading_keeps P fs \<Longrightarrow> reads_only P fs (walk path ino segs)"
  by (induction segs arbitrary: path ino) (auto intro!: reads reads_fs simp: Let_def load_child_dir_def)

lemma reads_ensure: "reading_keeps P fs \<Longrightarrow> reads_only P fs (ensure_dir_cached ino)"
  unfolding ensure_dir_cached_def load_root_dir_def by (intro reads reads_fs reads_walk) auto

lemma reads_refresh: "reading_keeps P fs \<Longrightarrow> reads_only P fs (refresh_dir_cache ino)"
  unfolding refresh_dir_cache_def Let_def by (intro reads reads_fs) auto

lemma reads_note_child [reads]: "reads_only P fs (note_child parent pp name mk)"
  unfolding note_child_def Let_def by (intro reads) auto

lemma reads_list_children [reads]: "reads_only P fs (list_children ino path kind xs)"
  by (induction xs) (auto intro!: reads)

lemma reads_requests:
  assumes "reading_keeps P fs"
  shows "reads_only P fs (Fuse_lookup parent name)" "reads_only P fs (Fuse_getattr ino)" "reads_only P fs (Fuse_setattr ino len)"
    "reads_only P fs (Fuse_readdir ino offset)" "reads_only P fs (Fuse_open ino)" "reads_only P fs (Fuse_read ino fh offset sz)"
  unfolding Fuse_lookup_def Fuse_getattr_def Fuse_setattr_def Fuse_open_def Fuse_read_def Fuse_readdir_def build_entries_def
    entries_of_dir_def get_file_ref_def known_path_def Let_def
  by (intro reads reads_fs reads_file_get reads_ensure reads_refresh assms; simp)+

text \<open>The answer of a mount that only reads to a request that would change something.\<close>

fun refused :: "fuse_req \<Rightarrow> fuse_reply option" where
  "refused (ReqSetattr ino sz) = Some (RepAttr (Inl ReadOnly))"
| "refused (ReqWrite ino fh data offset) = Some (RepWritten (Inl ReadOnly))"
| "refused (ReqCreate parent name) = Some (RepCreated (Inl ReadOnly))"
| "refused (ReqMkdir parent name) = Some (RepAttr (Inl ReadOnly))"
| "refused _ = None"

lemma read_only_step:
  assumes keeps: "reading_keeps P fs" and m: "mt_fs m = fs" "mt_read_only m" "P w" and run: "fuse_step q (m, w) = (r, (m', w'))"
  shows "mt_fs m' = fs \<and> mt_read_only m' \<and> mt_open_files m' = mt_open_files m \<and> P w' \<and> (\<forall>a. refused q = Some a \<longrightarrow> r = a \<and> (m', w') = (m, w))"
proof -
  have use: "mt_fs m' = fs \<and> mt_read_only m' \<and> mt_open_files m' = mt_open_files m \<and> P w'"
    if read: "reads_only P fs f" and step: "apfst rep (f (m, w)) = (r, (m', w'))"
    for f :: "('a, 'b, fuse_error, 'x) fuse_op" and rep :: "fuse_error + 'x \<Rightarrow> fuse_reply"
  proof -
    obtain a where "f (m, w) = (a, (m', w'))" using step by (cases "f (m, w)") auto
    then show ?thesis using read m unfolding reads_only_def by blast
  qed
  show ?thesis
  proof (cases q)
    case (ReqRelease uuid ino fh)
    then show ?thesis using run m by (auto simp: Fuse_release_def op_bind_def on_mount_def op_ok_def)
  next
    case (ReqWrite ino fh data offset)
    then show ?thesis using run m by (auto simp: Fuse_write_def op_bind_def on_mount_def op_err_def)
  next
    case (ReqCreate parent name)
    then show ?thesis using run m by (auto simp: Fuse_create_def op_bind_def on_mount_def op_err_def)
  next
    case (ReqMkdir parent name)
    then show ?thesis using run m by (auto simp: Fuse_mkdir_def op_bind_def on_mount_def op_err_def)
  next
    case (ReqSetattr ino sz)
    then show ?thesis using run m by (auto simp: Fuse_setattr_def op_bind_def on_mount_def op_err_def)
  qed (use run use[OF reads_requests(1)[OF keeps]] use[OF reads_requests(2)[OF keeps]] use[OF reads_requests(4)[OF keeps]]
      use[OF reads_requests(5)[OF keeps]] use[OF reads_requests(6)[OF keeps]] in \<open>simp_all only: fuse_step.simps refused.simps, blast+\<close>)
qed

text \<open>C24. A mount that only reads changes nothing. Whatever requests arrive, everything in the world that exporting directories and
  looking up files leaves alone stays as it is: no blob is stored, no file put, no directory created or saved. Nothing is
  opened for writing, and every request to create, write, make a directory or set attributes is answered with the read-only error.\<close>

theorem read_only_mount_only_reads:
  assumes "reading_keeps P (mt_fs m)" "mt_read_only m" "P w" "run_ops fuse_step reqs (m, w) = (replies, (m', w'))"
  shows "P w' \<and> mt_read_only m' \<and> mt_open_files m' = mt_open_files m
    \<and> (\<forall>i a. i < length reqs \<longrightarrow> refused (reqs ! i) = Some a \<longrightarrow> replies ! i = a)"
proof -
  define fs where "fs = mt_fs m"
  have "P w' \<and> mt_read_only m' \<and> mt_open_files m' = mt_open_files m
    \<and> (\<forall>i a. i < length reqs \<longrightarrow> refused (reqs ! i) = Some a \<longrightarrow> replies ! i = a)"
    if "mt_fs m = fs" "reading_keeps P fs" "mt_read_only m" "P w" "run_ops fuse_step reqs (m, w) = (replies, (m', w'))" for m w replies
    using that
  proof (induction reqs arbitrary: m w replies)
    case (Cons q reqs)
    obtain r n v where q: "fuse_step q (m, w) = (r, (n, v))" by (metis prod.exhaust)
    obtain rs where rest: "run_ops fuse_step reqs (n, v) = (rs, (m', w'))" "replies = r # rs"
      using Cons.prems(5) q by (auto split: prod.splits)
    have 1: "mt_fs n = fs" "mt_read_only n" "mt_open_files n = mt_open_files m" "P v" "\<forall>a. refused q = Some a \<longrightarrow> r = a"
      using read_only_step[OF Cons.prems(2,1,3,4) q] by auto
    note 2 = Cons.IH[OF 1(1) Cons.prems(2) 1(2,4) rest(1)]
    show ?case using 1 2 rest(2) by (auto simp: nth_Cons split: nat.splits)
  qed simp
  then show ?thesis using assms fs_def by blast
qed

text \<open>A file system that always shows one directory.\<close>

definition demo_shown :: "memory_store fs5" where
  "demo_shown = \<lparr>fs_root = \<lambda>_ w. (Inr (AnsDir (Inr (DirV1_new\<lparr>dv_files := bt_insert ''f'' (FileRef_new (fill32 7) 3) bt_empty\<rparr>))), w)\<rparr>"

definition demo_ro_mount :: "(memory_store, string list) mount" where
  "demo_ro_mount = \<lparr>mt_hash = demo_hashing, mt_interner = list_interner, mt_fs = demo_shown, mt_store = BlobStore_new MemoryStore,
    mt_inodes = ['''', ''/''], mt_cache = FsCache_new, mt_open_files = bt_empty, mt_next_fh = 1, mt_read_only = True\<rparr>"

theorem read_only_mount_only_reads_witness:
  "\<exists>replies m' w'. run_ops fuse_step [ReqLookup 1 ''f'', ReqCreate 1 ''g'', ReqMkdir 1 ''d'', ReqReaddir 1 0] (demo_ro_mount, MemoryStore_new)
      = (replies, (m', w'))
    \<and> w' = MemoryStore_new \<and> replies ! 1 = RepCreated (Inl ReadOnly) \<and> replies ! 2 = RepAttr (Inl ReadOnly)"
proof -
  obtain replies m' w' where run: "run_ops fuse_step [ReqLookup 1 ''f'', ReqCreate 1 ''g'', ReqMkdir 1 ''d'', ReqReaddir 1 0]
      (demo_ro_mount, MemoryStore_new) = (replies, (m', w'))" by (metis prod.exhaust)
  have "reading_keeps (\<lambda>w. w = MemoryStore_new) (mt_fs demo_ro_mount)"
    by (simp add: reading_keeps_def demo_ro_mount_def demo_shown_def FS5_export_merged_snapshot_def FS5_export_merged_snapshot_at_def
        answer_dir_def FS5_file_get_def execute_def act_bind_def act_lift_def act_err_def)
  moreover have "mt_read_only demo_ro_mount" by (simp add: demo_ro_mount_def)
  ultimately have "w' = MemoryStore_new" and r: "\<forall>i a. i < 4 \<longrightarrow>
      refused ([ReqLookup 1 ''f'', ReqCreate 1 ''g'', ReqMkdir 1 ''d'', ReqReaddir 1 0] ! i) = Some a \<longrightarrow> replies ! i = a"
    using read_only_mount_only_reads[where P = "\<lambda>w. w = MemoryStore_new", OF _ _ refl run] by simp_all
  then show ?thesis using run r[rule_format, of 1] r[rule_format, of 2] by auto
qed

end
