(* ===== verification/File_World.thy ===== *)
theory File_World
  imports Root_Session
begin

text \<open>
  A file system beside a blob store, as the programs on top of them use it: importing bytes, a file or a stream stores a blob, files
  are stored and read by path, a directory is saved and exported. The contracts \<open>file_world\<close> and \<open>saving_world\<close> are met by a root
  directory kept in a local file with an in-memory blob store.
\<close>

section \<open>Imports\<close>

text \<open>The operations of a blob store that import the bytes \<open>c\<close>: as a byte string, from a file that has the length of its metadata, and
  from a stream.\<close>

definition import_op :: "hashing \<Rightarrow> 'w blob_store \<Rightarrow> bytes \<Rightarrow> ('w, blob_id) action \<Rightarrow> bool" where
  "import_op H store c m \<longleftrightarrow> (\<exists>uuid. m = BlobStore_import_bytes H store uuid c
    \<or> (\<exists>cs. c = concat cs \<and> m = BlobStore_import_file H store uuid (Inr (of_nat (length c))) (Inr (map Inr cs)))
    \<or> (\<exists>s cs. stream_items s = map Inr cs \<and> c = concat cs \<and> m = BlobStore_import_stream H store uuid s))"

lemma import_op_intros [simp, intro]:
  "import_op H store c (BlobStore_import_bytes H store uuid c)"
  "import_op H store (concat cs) (BlobStore_import_file H store uuid (Inr (of_nat (length (concat cs)))) (Inr (map Inr cs)))"
  "stream_items s = map Inr cs \<Longrightarrow> import_op H store (concat cs) (BlobStore_import_stream H store uuid s)"
  unfolding import_op_def by blast+

lemma import_op_keeps: "blobs_keep f store \<Longrightarrow> import_op H store c m \<Longrightarrow> act_keeps f m"
  using BlobStore_import_bytes_keeps[of f store] BlobStore_import_file_keeps[of f store] BlobStore_import_stream_keeps[of f store]
  by (auto simp: import_op_def)

lemma import_op_outcome:
  assumes rs: "reliable_store ops ct iv (\<lambda>_. True)" and libs: "path_codec_ok (h_codec H)" "bao_ok H" "bao_total H" and w: "iv w"
    and ob: "ob = None \<or> ob = Some ops" and op: "import_op H \<lparr>bs_store = ops, bs_outboard_store = ob\<rparr> c m"
  shows "\<exists>w'. m w = (Inr \<lparr>bid_hash = h_blake3 H c, bid_size = of_nat (length c)\<rparr>, w') \<and> iv w'
    \<and> adds_blob H ops ct (h_blake3 H c) c w w' \<and> blob_at H ops ct w' (h_blake3 H c) \<noteq> None"
proof -
  have sc: "store_contract ops ct iv (\<lambda>_. True)" using rs by (rule reliable_store.axioms(1))
  have fr: "outboard_frame H ops ob ct iv u" for u
    using ob store_contract.outboard_frame_same[OF sc libs(1)] by auto
  obtain r w' where step: "m w = (r, w')" by (metis prod.exhaust)
  from op consider u where "m = import_bytes H ops ob u c"
    | u cs where "c = concat cs" "m = import_file H ops ob u (Inr (of_nat (length c))) (Inr (map Inr cs))"
    | u s cs where "stream_items s = map Inr cs" "c = concat cs" "m = import_stream H ops ob u s"
    by (auto simp: import_op_def BlobStore_import_bytes_def BlobStore_import_file_def BlobStore_import_stream_def)
  then have "import_outcome H ops ct iv c w r w' \<and> is_ok r"
  proof cases
    case 1
    then show ?thesis using step store_contract.import_bytes_outcome[OF sc _ _ libs(1,2) fr w, of u c r w']
        reliable_store.import_bytes_total[OF rs _ _ _ libs(1,3) ob w, of u c] by simp
  next
    case 2
    then show ?thesis using step store_contract.import_file_outcome[OF sc _ _ libs(1,2) fr w, of u cs r w']
        reliable_store.import_file_total[OF rs _ _ _ libs(1,3) ob w, of u cs] by simp
  next
    case 3
    have ok: "is_ok r" using step 3(3) reliable_store.import_stream_total[OF rs _ _ _ libs ob w 3(1), of u] by simp
    have "\<exists>ds. stream_items s = map Inr ds \<and> import_outcome H ops ct iv (concat ds) w r w'"
      using step 3(3) store_contract.import_stream_outcome[OF sc _ _ libs(1) fr w, of u s r w'] ok by auto
    then show ?thesis using 3 ok by (auto simp: inj_map_eq_map)
  qed
  then show ?thesis using step by (auto simp: import_outcome_def is_ok_iff)
qed

section \<open>The contracts\<close>

text \<open>In a world that is \<open>ready\<close>: an import stores its bytes and changes no file, files at \<open>paths\<close> can be stored and read, and a blob reads
  back in any range.\<close>

locale file_world =
  fixes H :: hashing and fs :: "'w fs5" and store :: "'w blob_store"
    and files_at :: "'w \<Rightarrow> string \<Rightarrow> file_ref option" and blob :: "'w \<Rightarrow> hash \<Rightarrow> bytes option"
    and ready :: "'w \<Rightarrow> bool" and paths :: "string set"
  assumes import_law: "ready w \<Longrightarrow> import_op H store c m \<Longrightarrow> blob w (h_blake3 H c) \<in> {None, Some c} \<Longrightarrow>
      \<exists>w'. m w = (Inr \<lparr>bid_hash = h_blake3 H c, bid_size = of_nat (length c)\<rparr>, w')
        \<and> ready w' \<and> files_at w' = files_at w \<and> blob w' = (blob w)(h_blake3 H c \<mapsto> c)"
    and put_law: "ready w \<Longrightarrow> p \<in> paths \<Longrightarrow> \<exists>w'. FS5_file_put_sync fs p f w = (Inr (), w') \<and> FS5_file_put fs p f w = (Inr (), w')
      \<and> ready w' \<and> files_at w' = (files_at w)(p \<mapsto> f) \<and> blob w' = blob w"
    and get_law: "ready w \<Longrightarrow> p \<in> paths \<Longrightarrow> \<exists>w'. FS5_file_get fs p w = (live_file (files_at w p), w')
      \<and> ready w' \<and> files_at w' = files_at w \<and> blob w' = blob w"
    and read_law: "ready w \<Longrightarrow> blob w h = Some c \<Longrightarrow> BlobStore_read_as_bytes H store h off len w = Inr (slice_of off len c)"

text \<open>A directory that \<open>fits\<close> can also be saved, and the exported directory has the files.\<close>

locale saving_world = file_world H fs store files_at blob ready paths
  for H and fs :: "'w fs5" and store files_at blob ready paths +
  fixes fits :: "(string \<Rightarrow> file_ref option) \<Rightarrow> bool"
  assumes save_law: "ready w \<Longrightarrow> fits (files_at w) \<Longrightarrow> \<exists>w'. FS5_save fs w = (Inr (), w')
      \<and> ready w' \<and> files_at w' = files_at w \<and> (\<forall>h c. blob w h = Some c \<longrightarrow> blob w' h = Some c)"
    and export_law: "ready w \<Longrightarrow> \<exists>d w'. FS5_export_merged_snapshot fs w = (Inr d, w')
      \<and> ready w' \<and> files_at w' = files_at w \<and> blob w' = blob w \<and> bt_get (dv_files d) = files_at w
      \<and> (\<forall>p \<in> paths. CHR ''/'' \<notin> set p \<longrightarrow> bt_get (dv_dirs d) p = None)"

section \<open>A root in a local file\<close>

text \<open>The world of a mount: the root actor, the blob store, the registry and the files.\<close>

definition mount_store :: "(dir_actor option \<times> mem_fs) blob_store" where
  "mount_store = BlobStore_new (store_on_snd (store_on_fst MemoryStore))"

definition local_ready :: "hashing \<Rightarrow> dir_codec \<Rightarrow> fresh \<Rightarrow> string \<Rightarrow> dir_v1 \<Rightarrow> string set \<Rightarrow> dir_actor option \<times> mem_fs \<Rightarrow> bool" where
  "local_ready H D x path origin S s \<longleftrightarrow> libs_ok H D x \<and> unpromoted S \<and> path_parent path \<noteq> None \<and> dh_shards (dv_header origin) = None
    \<and> (\<exists>a. fst s = Some a \<and> root_session (DirContext_new (LinkLocalFile path)) origin S a)"

definition local_fits :: "dir_codec \<Rightarrow> dir_v1 \<Rightarrow> (string \<Rightarrow> file_ref option) \<Rightarrow> bool" where
  "local_fits D origin m \<longleftrightarrow> (\<forall>st. same_frame origin st \<and> bt_get (dv_files st) = m \<longrightarrow>
    length (DirV1_to_bytes D st) < MAX_DIR_BYTES_BEFORE_SHARD)"

definition root_files :: "dir_actor option \<times> 'w \<Rightarrow> string \<Rightarrow> file_ref option" where
  "root_files s = (case fst s of Some a \<Rightarrow> files_of a | None \<Rightarrow> (\<lambda>_. None))"

lemma local_blob: "blob_at H (store_on_snd (store_on_fst MemoryStore)) (\<lambda>w. bt_get (fst (snd w))) s = mem_blob H (snd s)"
  by (simp add: mem_blob_def blob_at_def store_on_snd_def fun_eq_iff)

lemma local_import:
  assumes "libs_ok H D x" "import_op H mount_store c m" "mem_blob H (snd s) (h_blake3 H c) \<in> {None, Some c}"
  shows "\<exists>s'. m s = (Inr \<lparr>bid_hash = h_blake3 H c, bid_size = of_nat (length c)\<rparr>, s')
    \<and> fst s' = fst s \<and> mem_blob H (snd s') = (mem_blob H (snd s))(h_blake3 H c \<mapsto> c)"
proof -
  let ?S = "store_on_snd (store_on_fst MemoryStore) :: (dir_actor option \<times> mem_fs) store" and ?ct = "\<lambda>w. bt_get (fst (snd w))"
  have rs: "reliable_store ?S ?ct (\<lambda>w. True) (\<lambda>_. True)"
    by (rule reliable_store.store_on_snd_reliable[OF memory_store.on_fst_reliable])
  have libs: "path_codec_ok (h_codec H)" "bao_ok H" "bao_total H" using assms(1) by (simp_all add: libs_ok_def)
  have B: "(mount_store :: (dir_actor option \<times> mem_fs) blob_store) = \<lparr>bs_store = ?S, bs_outboard_store = Some ?S\<rparr>"
    by (simp add: BlobStore_new_def mount_store_def)
  obtain s' where step: "m s = (Inr \<lparr>bid_hash = h_blake3 H c, bid_size = of_nat (length c)\<rparr>, s')"
    and adds: "adds_blob H ?S ?ct (h_blake3 H c) c s s'" "blob_at H ?S ?ct s' (h_blake3 H c) \<noteq> None"
    using import_op_outcome[OF rs libs TrueI disjI2[OF refl] assms(2)[unfolded B], of s] by blast
  have "blobs_keep fst (mount_store :: (dir_actor option \<times> mem_fs) blob_store)"
    using store_on_snd_keeps[of id] by (simp add: blobs_keep_def BlobStore_new_def mount_store_def)
  from act_keepsD[OF import_op_keeps[OF this assms(2)] step] have keep: "fst s' = fst s" .
  have "mem_blob H (snd s') h = ((mem_blob H (snd s))(h_blake3 H c \<mapsto> c)) h" for h
    using adds(1)[unfolded adds_blob_def local_blob, THEN spec, of h] adds(2)[unfolded local_blob] assms(3) by (cases "h = h_blake3 H c") auto
  with step keep show ?thesis by blast
qed

lemma mem_import_keeps:
  assumes "libs_ok H D x"
  obtains i w' where "import_meta (mem_env H D sg xx x) bs w = (Inr i, w')" "\<And>h c. mem_blob H w h = Some c \<Longrightarrow> mem_blob H w' h = Some c"
proof -
  obtain r w' where s: "import_meta (mem_env H D sg xx x) bs w = (r, w')" by (metis prod.exhaust)
  moreover obtain i where "r = Inr i" using mem_import_total[OF assms, of sg xx bs w] s by (auto simp: is_ok_iff)
  moreover have "mem_blob H w' h = Some c" if "mem_blob H w h = Some c" for h c using mem_import_law[OF assms s] that by (metis option.distinct(1))
  ultimately show thesis using that by blast
qed

lemma quiet_local_save:
  assumes "libs_ok H D x" "path_parent path \<noteq> None" "quiet_root (DirContext_new (LinkLocalFile path)) a"
    and "length (DirV1_to_bytes D (da_state a)) < MAX_DIR_BYTES_BEFORE_SHARD"
  shows "\<exists>a' w'. FS5_save (actor_fs (mem_env H D sg xx x)) (Some a, w) = (Inr (), (Some a', w'))
    \<and> quiet_root (DirContext_new (LinkLocalFile path)) a' \<and> da_state a' = da_state a
    \<and> (\<forall>h c. mem_blob H w h = Some c \<longrightarrow> mem_blob H w' h = Some c)
    \<and> (da_dirty a \<longrightarrow> bt_get (snd (snd w')) path = Some (DirV1_to_bytes D (da_state a)))"
proof -
  let ?E = "mem_env H D sg xx x" and ?ctx = "DirContext_new (LinkLocalFile path)"
  have lvl: "dh_shard_level (dv_header (da_state a)) = None" using assms(3) by (simp add: quiet_root_def)
  obtain l c where sh: "shard_if_needed ?E (a, w) = (Inr (), (a\<lparr>da_last_serialized_len := l, da_shard_size_check_ops := c\<rparr>, w))"
    using shard_if_needed_small[of a ?E w] lvl assms(4) by (auto simp: mem_env_def)
  let ?a = "a\<lparr>da_last_serialized_len := l, da_shard_size_check_ops := c\<rparr>" and ?bs = "DirV1_to_bytes D (da_state a)"
  have root: "is_root a" "da_dir_handles ?a = bt_empty" "da_dir_shard_handles ?a = bt_empty" "da_context ?a = ?ctx"
    using assms(3) by (simp_all add: is_root_def quiet_root_def DirContext_new_def)
  have enc: "encode_state_bytes ?E (?a, w) = (Inr ?bs, (?a, w))"
    using root(4) by (simp add: encode_state_bytes_def act_bind_def act_ok_def DirContext_new_def mem_env_def)
  obtain i w1 where i: "import_meta ?E ?bs w = (Inr i, w1)" "\<And>h c. mem_blob H w h = Some c \<Longrightarrow> mem_blob H w1 h = Some c"
    using mem_import_keeps[OF assms(1), where sg = sg and xx = xx and bs = ?bs and w = w] by metis
  obtain w2 where w2: "fe_persist_file ?E path ?bs w1 = (Inr (), w2)" "fst w2 = fst w1" "bt_get (snd (snd w2)) path = Some ?bs"
    by (cases w1) (simp add: mem_env_def)
  have pins: "update_head_pin ?E h s = (Inr (), s)" for h s by (simp add: update_head_pin_def mem_env_def act_ok_def)
  have sv: "save ?E False (?a, w) = (Inr None, (?a, w2))"
    using enc i(1) w2(1) root(4) assms(2) pins by (auto simp: save_def act_bind_def DirContext_new_def act_ok_def)
  let ?a' = "if da_dirty a then ?a\<lparr>da_dirty := False\<rparr> else ?a" and ?w' = "if da_dirty a then w2 else w"
  have "save_if_dirty ?E (a, w) = (Inr None, (?a', ?w'))"
    using sh root sv by (simp add: save_if_dirty_def act_bind_def Let_def)
  moreover have ses: "quiet_root ?ctx ?a'" using assms(3) by simp
  ultimately have "FS5_save (actor_fs ?E) (Some a, w) = (Inr (), (Some ?a', ?w'))"
    using quiet_root_arm[OF ses, of ?E ?w']
    by (simp add: FS5_save_def handle_save_if_dirty_def actor_fs_def actor_send_def process_msg_def answering_def act_bind_def act_lift_def)
  moreover have "mem_blob H ?w' h = Some c" if "mem_blob H w h = Some c" for h c using i(2) that w2(2) by (simp add: mem_blob_fst)
  moreover have "da_state ?a' = da_state a" by simp
  ultimately show ?thesis using ses w2(3) by (intro exI[of _ ?a'] exI[of _ ?w'] conjI allI impI) simp_all
qed

lemma local_save:
  assumes "libs_ok H D x" "path_parent path \<noteq> None" "root_session (DirContext_new (LinkLocalFile path)) origin S a" "local_fits D origin (files_of a)"
  shows "\<exists>a' w'. FS5_save (actor_fs (mem_env H D sg xx x)) (Some a, w) = (Inr (), (Some a', w'))
    \<and> root_session (DirContext_new (LinkLocalFile path)) origin S a' \<and> files_of a' = files_of a
    \<and> (\<forall>h c. mem_blob H w h = Some c \<longrightarrow> mem_blob H w' h = Some c)"
proof -
  have "length (DirV1_to_bytes D (da_state a)) < MAX_DIR_BYTES_BEFORE_SHARD"
    using assms(3,4) by (simp add: local_fits_def files_of_def root_session_def)
  from quiet_local_save[OF assms(1,2) _ this, of sg xx w] show ?thesis
    using assms(3) unfolding root_session_quiet files_of_def by metis
qed

lemma local_export:
  assumes "root_session ctx origin S a" "dh_shards (dv_header origin) = None"
  obtains d where "FS5_export_merged_snapshot (actor_fs E) (Some a, w) = (Inr d, (Some a, w))" "bt_get (dv_files d) = files_of a"
    "dv_dirs d = dv_dirs origin"
proof -
  have "dh_shards (dv_header (da_state a)) = None" "dv_dirs (da_state a) = dv_dirs origin"
    using assms by (simp_all add: root_session_def same_frame_def)
  then show thesis
    using that root_session_arm[OF assms(1), of E w]
    by (simp add: FS5_export_merged_snapshot_def answer_dir_def actor_fs_def actor_send_def process_msg_def answering_def export_merged_snapshot_def
        act_bind_def act_ok_def act_lift_def files_of_def)
qed

lemma first_component_slashless: "CHR ''/'' \<notin> set p \<Longrightarrow> fst (first_component p) = p"
  by (simp add: first_component_def split_once_def)

interpretation local_files: file_world H "actor_fs (mem_env H D sg xx x)" mount_store root_files "\<lambda>s. mem_blob H (snd s)"
  "local_ready H D x path origin S" S
  for H D sg xx x path origin S
proof (unfold_locales, goal_cases)
  case (1 s c m)
  then obtain s' where "m s = (Inr \<lparr>bid_hash = h_blake3 H c, bid_size = of_nat (length c)\<rparr>, s')"
    "fst s' = fst s" "mem_blob H (snd s') = (mem_blob H (snd s))(h_blake3 H c \<mapsto> c)"
    using local_import[of H D x c m s] by (auto simp: local_ready_def)
  then show ?case using 1(1) by (intro exI[of _ s']) (simp add: local_ready_def root_files_def)
next
  case (2 s p f)
  then obtain a w where s: "s = (Some a, w)" "root_session (DirContext_new (LinkLocalFile path)) origin S a" "unpromoted S"
    by (cases s) (auto simp: local_ready_def)
  obtain a' where "FS5_file_put_sync (actor_fs (mem_env H D sg xx x)) p f (Some a, w) = (Inr (), (Some a', w))"
    "FS5_file_put (actor_fs (mem_env H D sg xx x)) p f (Some a, w) = (Inr (), (Some a', w))"
    "root_session (DirContext_new (LinkLocalFile path)) origin S a'" "files_of a' = (files_of a)(p \<mapsto> f)"
    using fs_put_get_task(1)[OF s(2,3) 2(2)] by metis
  then show ?case using 2(1) s by (intro exI[of _ "(Some a', w)"]) (simp add: local_ready_def root_files_def)
next
  case (3 s p)
  then obtain a w where s: "s = (Some a, w)" "root_session (DirContext_new (LinkLocalFile path)) origin S a" "unpromoted S"
    by (cases s) (auto simp: local_ready_def)
  obtain a' where "FS5_file_get (actor_fs (mem_env H D sg xx x)) p (Some a, w) = (live_file (files_of a p), (Some a', w))"
    "root_session (DirContext_new (LinkLocalFile path)) origin S a'" "files_of a' = files_of a"
    using fs_put_get_task(2)[OF s(2,3) 3(2)] by metis
  then show ?case using 3(1) s by (intro exI[of _ "(Some a', w)"]) (simp add: local_ready_def root_files_def)
next
  case (4 s h c off len)
  then show ?case
    using memory_store.read_total
    by (simp add: BlobStore_read_as_bytes_def read_as_bytes_def BlobStore_new_def mount_store_def store_on_snd_def store_on_fst_def
        mem_blob_def blob_at_def)
qed

interpretation local_saves: saving_world H "actor_fs (mem_env H D sg xx x)" mount_store root_files "\<lambda>s. mem_blob H (snd s)"
  "local_ready H D x path origin S" S "local_fits D origin"
  for H D sg xx x path origin S
proof (unfold_locales, goal_cases)
  case (1 s)
  then obtain a w where s: "s = (Some a, w)" "root_session (DirContext_new (LinkLocalFile path)) origin S a" "libs_ok H D x" "path_parent path \<noteq> None"
    by (cases s) (auto simp: local_ready_def)
  have "local_fits D origin (files_of a)" using 1(2) s(1) by (simp add: root_files_def)
  then obtain a' w' where "FS5_save (actor_fs (mem_env H D sg xx x)) (Some a, w) = (Inr (), (Some a', w'))"
    "root_session (DirContext_new (LinkLocalFile path)) origin S a'" "files_of a' = files_of a"
    "\<forall>h c. mem_blob H w h = Some c \<longrightarrow> mem_blob H w' h = Some c"
    using local_save[OF s(3,4,2), of sg xx w] by blast
  then show ?case using 1(1) s(1) by (intro exI[of _ "(Some a', w')"]) (auto simp: local_ready_def root_files_def)
next
  case (2 s)
  then obtain a w where s: "s = (Some a, w)" "root_session (DirContext_new (LinkLocalFile path)) origin S a" "dh_shards (dv_header origin) = None"
    by (cases s) (auto simp: local_ready_def)
  obtain d where d: "FS5_export_merged_snapshot (actor_fs (mem_env H D sg xx x)) (Some a, w) = (Inr d, (Some a, w))"
    "bt_get (dv_files d) = files_of a" "dv_dirs d = dv_dirs origin"
    using local_export[OF s(2,3)] by metis
  have "bt_get (dv_dirs d) p = None" if "p \<in> S" "CHR ''/'' \<notin> set p" for p
    using s(2) that first_component_slashless[OF that(2)] d(3)
    by (auto simp: root_session_def local_paths_def same_frame_def bt_contains_def split: option.splits)
  then show ?case using 2 s(1) d(1,2) by (intro exI[of _ d] exI[of _ s]) (simp add: root_files_def)
qed

section \<open>A small example\<close>

definition demo_local_path :: string where
  "demo_local_path = ''/r/root.fs5.cbor''"

definition demo_local :: "dir_actor option \<times> mem_fs" where
  "demo_local = (Some ((DirActor_new (DirContext_new (LinkLocalFile demo_local_path)) None None)\<lparr>da_state := DirV1_new\<rparr>), demo_world)"

definition demo_written :: dir_v1 where
  "demo_written = DirV1_new\<lparr>dv_files := bt_insert ''f'' (FileRef_new (h_blake3 demo_hashing [1, 2, 3]) 3) bt_empty\<rparr>"

definition demo_local_env :: "mem_fs fs_env" where
  "demo_local_env = mem_env demo_hashing (short_codec demo_written) (\<lambda>_ _. replicate 64 0) (\<lambda>s. of_nat (length s)) demo_fresh"

lemma demo_local_ready: "local_ready demo_hashing (short_codec demo_written) demo_fresh demo_local_path DirV1_new {''f''} demo_local"
proof -
  have "libs_ok demo_hashing (short_codec demo_written) demo_fresh" using demo_libs_ok short_codec_ok by (simp add: libs_ok_def)
  moreover have "unpromoted {''f''}" by (simp add: unpromoted_def split_once_def)
  moreover have "path_parent demo_local_path \<noteq> None" by (simp add: path_parent_def demo_local_path_def)
  ultimately show ?thesis
    by (simp add: local_ready_def demo_local_def root_session_def root_link_def DirActor_new_def DirContext_new_def same_frame_def
        local_paths_def DirV1_new_def DirHeader_new_def bt_contains_def)
qed

lemma demo_local_fits: "local_fits (short_codec demo_written) DirV1_new (bt_get (dv_files demo_written))"
proof -
  have "st = demo_written" if "same_frame DirV1_new st" "bt_get (dv_files st) = bt_get (dv_files demo_written)" for st
    using that by (cases st) (auto simp: same_frame_def demo_written_def DirV1_new_def bt_eq_iff)
  then show ?thesis by (auto simp: local_fits_def short_codec_def DirV1_to_bytes_def MAX_DIR_BYTES_BEFORE_SHARD_def)
qed

end
