(* ===== verification/Fuse_Roundtrip.thy ===== *)
theory Fuse_Roundtrip
  imports Fuse_Fs File_World
begin

text \<open>
  A file written through the mount reads back: creating, writing piece by piece, closing, looking up and reading, over the
  contract of the file system and the store behind the mount. The contract is met by a root directory kept in a local file
  with an in-memory blob store.
\<close>

text \<open>The requests that write a file in pieces.\<close>

fun write_reqs :: "u64 \<Rightarrow> u64 \<Rightarrow> nat \<Rightarrow> bytes list \<Rightarrow> fuse_req list" where
  "write_reqs ino fh off [] = []"
| "write_reqs ino fh off (c # cs) = ReqWrite ino fh c (of_nat off) # write_reqs ino fh (off + length c) cs"

definition attached :: "hashing \<Rightarrow> 'w fs5 \<Rightarrow> 'w blob_store \<Rightarrow> ('w, 'i) mount \<Rightarrow> bool" where
  "attached H fs store m \<longleftrightarrow> mt_hash m = H \<and> mt_fs m = fs \<and> mt_store m = store \<and> \<not> mt_read_only m"

lemma attached_updates [simp]:
  "attached H fs store (m\<lparr>mt_inodes := i\<rparr>) = attached H fs store m" "attached H fs store (m\<lparr>mt_cache := c\<rparr>) = attached H fs store m"
  "attached H fs store (m\<lparr>mt_open_files := o'\<rparr>) = attached H fs store m" "attached H fs store (m\<lparr>mt_next_fh := h\<rparr>) = attached H fs store m"
  "attached H fs store (cache_attr j a m) = attached H fs store m" "attached H fs store (cache_parent j p m) = attached H fs store m"
  "attached H fs store (cache_dir j d m) = attached H fs store m" "attached H fs store (cache_entries j es m) = attached H fs store m"
  by (simp_all add: attached_def cache_attr_def cache_parent_def cache_dir_def cache_entries_def)

lemma cache_updates [simp]:
  "mt_inodes (cache_attr j a m) = mt_inodes m" "mt_inodes (cache_parent j p m) = mt_inodes m" "mt_inodes (cache_dir j d m) = mt_inodes m"
  "mt_inodes (cache_entries j es m) = mt_inodes m"
  "mt_next_fh (cache_attr j a m) = mt_next_fh m"
  "mt_next_fh (cache_parent j p m) = mt_next_fh m" "mt_next_fh (cache_dir j d m) = mt_next_fh m"
  "mt_next_fh (cache_entries j es m) = mt_next_fh m"
  "cached k (cache_attr j a m) = cached k m" "cached k (cache_parent j p m) = cached k m" "cached k (cache_entries j es m) = cached k m"
  "cached k (cache_dir j d m) = (if k = j then Some d else cached k m)"
  "cached k (m\<lparr>mt_open_files := o'\<rparr>) = cached k m" "cached k (m\<lparr>mt_next_fh := h\<rparr>) = cached k m" "cached k (m\<lparr>mt_inodes := i\<rparr>) = cached k m"
  by (simp_all add: cache_attr_def cache_parent_def cache_dir_def cache_entries_def cached_def)

lemma sint_of_nat_nonneg: "n < 2 ^ 63 \<Longrightarrow> 0 \<le> sint (of_nat n :: u64)"
  by (simp add: signed_of_nat signed_take_bit_int_eq_self)

lemma unat_ucast_widen: "unat (ucast (n :: u32) :: u64) = unat n"
proof -
  have "unat n < 2 ^ 32" using unsigned_less[of n] by simp
  then have "unat n < 2 ^ 64" by (rule less_trans) simp
  then show ?thesis by (simp add: unsigned_ucast_eq take_bit_nat_eq_self_iff)
qed

locale mounted_world =
  interning I iok + saving_world H fs store files_at blob ready paths fits
  for I :: "'i interner" and iok H and fs :: "'w fs5" and store files_at blob ready paths fits
begin

lemma number_for:
  assumes "mount_ok I iok m" "in_len I (mt_inodes m) < 2 ^ 32 - 1 \<or> path_for_ino m j = Some p"
  obtains ino i where "\<And>w. ino_for_path e p (m, w) = (Inr ino, (m\<lparr>mt_inodes := i\<rparr>, w))"
    "mount_ok I iok (m\<lparr>mt_inodes := i\<rparr>)" "keeps_inodes m (m\<lparr>mt_inodes := i\<rparr>)" "path_for_ino (m\<lparr>mt_inodes := i\<rparr>) ino = Some p"
    "path_for_ino m j = Some p \<Longrightarrow> ino = j"
proof -
  have I: "mt_interner m = I" "iok (mt_inodes m)" using assms(1) by (auto simp: mount_ok_def)
  obtain n i where n: "in_get_or_intern I p (mt_inodes m) = Some (n, i)"
    using room[OF I(2), of p] assms(2) I(1) by (auto simp: path_for_ino_def)
  note new = interned_path[OF assms(1) n]
  have "of_nat n = j" if "path_for_ino m j = Some p"
    using new keeps_inodesD(1)[of m "m\<lparr>mt_inodes := i\<rparr>" j p] that by (intro inodes_unique[of "m\<lparr>mt_inodes := i\<rparr>"]) auto
  then show thesis using that[of "of_nat n" i] new n I(1) by (simp add: ino_for_path_def)
qed

lemma root_cached:
  assumes "attached H fs store m" "mount_ok I iok m" "ready w"
  obtains m' w' where "ensure_dir_cached 1 (m, w) = (Inr (), (m', w'))" "attached H fs store m'" "mount_ok I iok m'" "ready w'"
    "mt_inodes m' = mt_inodes m" "mt_open_files m' = mt_open_files m" "mt_next_fh m' = mt_next_fh m" "path_for_ino m' = path_for_ino m"
    "files_at w' = files_at w" "blob w' = blob w" "cached 1 m \<noteq> None \<Longrightarrow> m' = m"
proof (cases "cached 1 m")
  case (Some d)
  then show thesis
    using assms by (intro that[of m w]) (simp_all add: ensure_dir_cached_def op_bind_def on_mount_def op_ok_def)
next
  case None
  obtain d w' where d: "FS5_export_merged_snapshot fs w = (Inr d, w')" "ready w'" "files_at w' = files_at w" "blob w' = blob w"
    using export_law[OF assms(3)] by metis
  let ?m = "cache_attr 1 root_attr (cache_dir 1 \<lparr>cd_dir = d, cd_keys = bt_empty\<rparr> m)"
  have fs: "mt_fs m = fs" using assms(1) by (simp add: attached_def)
  have run: "ensure_dir_cached 1 (m, w) = (Inr (), (?m, w'))"
    using None d(1) by (simp add: ensure_dir_cached_def load_root_dir_def op_bind_def on_mount_def op_ok_def on_world_def set_mount_def fs)
  show thesis
    by (rule that[OF run]) (use assms d None mount_ok_root[OF assms(2)] in simp_all)
qed

lemma create_file:
  assumes "attached H fs store m" "mount_ok I iok m" "ready w" "in_len I (mt_inodes m) < 2 ^ 32 - 1"
  obtains ino m' w' where "Fuse_create 1 name (m, w) = (Inr (make_file_attr ino 0 None, mt_next_fh m), (m', w'))"
    "attached H fs store m'" "mount_ok I iok m'" "ready w'" "path_for_ino m' ino = Some (''/'' @ name)"
    "bt_get (mt_open_files m') (mt_next_fh m) = Some \<lparr>of_path = ''/'' @ name, of_buf = []\<rparr>"
    "files_at w' = files_at w" "blob w' = blob w"
proof -
  obtain m1 w' where 1: "ensure_dir_cached 1 (m, w) = (Inr (), (m1, w'))" "attached H fs store m1" "mount_ok I iok m1" "ready w'"
    "mt_inodes m1 = mt_inodes m" "mt_next_fh m1 = mt_next_fh m" "path_for_ino m1 = path_for_ino m" "files_at w' = files_at w" "blob w' = blob w"
    using root_cached[OF assms(1-3)] by metis
  have root: "path_for_ino m 1 = Some ''/''" by (rule mount_ok_root[OF assms(2)])
  obtain ino i where 2: "\<And>w. ino_for_path Panicked (''/'' @ name) (m1, w) = (Inr ino, (m1\<lparr>mt_inodes := i\<rparr>, w))"
    "mount_ok I iok (m1\<lparr>mt_inodes := i\<rparr>)" "keeps_inodes m1 (m1\<lparr>mt_inodes := i\<rparr>)" "path_for_ino (m1\<lparr>mt_inodes := i\<rparr>) ino = Some (''/'' @ name)"
    using number_for[OF 1(3), where p = "''/'' @ name" and j = 1] assms(4) 1(5) by metis
  let ?m = "m1\<lparr>mt_inodes := i\<rparr>" and ?f = "\<lparr>of_path = ''/'' @ name, of_buf = []\<rparr>"
  let ?n = "cache_parent ino 1 (cache_attr ino (make_file_attr ino 0 None)
      (?m\<lparr>mt_next_fh := mt_next_fh m + 1, mt_open_files := bt_insert (mt_next_fh m) ?f (mt_open_files m1)\<rparr>))"
  have here: "path_for_ino ?m 1 = Some ''/''" using keeps_inodesD(1)[OF 2(3), of 1] root 1(7) by simp
  have "mount_ok I iok (?m\<lparr>mt_next_fh := mt_next_fh m + 1, mt_open_files := bt_insert (mt_next_fh m) ?f (mt_open_files m1)\<rparr>)"
    using mount_ok_write(2)[OF 2(2), where i = ino and f = ?f and h = "mt_next_fh m + 1" and fh = "mt_next_fh m"] 2(4) by simp
  then have ok: "mount_ok I iok ?n" using here 2(4) by (simp add: mount_ok_parent[where pp = "''/''" and name = name] child_path_def)
  have run: "Fuse_create 1 name (m, w) = (Inr (make_file_attr ino 0 None, mt_next_fh m), (?n, w'))"
    using assms(1) root 1(1,6) 2(1)
    by (simp add: Fuse_create_def op_bind_def on_mount_def attached_def known_path_def op_ok_def op_map_err_def child_path_def
        set_mount_def Let_def)
  show thesis by (rule that[OF run]) (use 1 2 ok in simp_all)
qed

lemma write_file:
  assumes "attached H fs store m" "mount_ok I iok m" "bt_get (mt_open_files m) fh = Some f" "length (of_buf f @ concat cs) < 2 ^ 63"
  obtains m' where "run_ops fuse_step (write_reqs ino fh (length (of_buf f)) cs) (m, w)
      = (map (\<lambda>c. RepWritten (Inr (of_nat (length c)))) cs, (m', w))"
    "attached H fs store m'" "mount_ok I iok m'" "path_for_ino m' = path_for_ino m"
    "bt_get (mt_open_files m') fh = Some (f\<lparr>of_buf := of_buf f @ concat cs\<rparr>)"
  using assms
proof (induction cs arbitrary: m f thesis)
  case Nil
  then show ?case by simp
next
  case (Cons c cs)
  let ?f = "f\<lparr>of_buf := of_buf f @ c\<rparr>" and ?m = "m\<lparr>mt_open_files := bt_insert fh (f\<lparr>of_buf := of_buf f @ c\<rparr>) (mt_open_files m)\<rparr>"
  have len: "length (of_buf f) < 2 ^ 63" using Cons.prems(5) by simp
  then have un: "unat (of_nat (length (of_buf f)) :: u64) = length (of_buf f)" by (simp add: unat_of_nat)
  have "0 \<le> sint (of_nat (length (of_buf f)) :: u64)" using len by (simp add: sint_of_nat_nonneg)
  then have run: "fuse_step (ReqWrite ino fh c (of_nat (length (of_buf f)))) (m, w) = (RepWritten (Inr (of_nat (length c))), (?m, w))"
    using Cons.prems(2,4) un by (simp add: Fuse_write_def op_bind_def on_mount_def attached_def set_mount_def op_ok_def)
  obtain j where j: "path_for_ino m j = Some (of_path f)" using mount_ok_open[OF Cons.prems(3,4)] by blast
  obtain m' where m': "run_ops fuse_step (write_reqs ino fh (length (of_buf ?f)) cs) (?m, w)
      = (map (\<lambda>c. RepWritten (Inr (of_nat (length c)))) cs, (m', w))"
    "attached H fs store m'" "mount_ok I iok m'" "path_for_ino m' = path_for_ino ?m" "bt_get (mt_open_files m') fh = Some (?f\<lparr>of_buf := of_buf ?f @ concat cs\<rparr>)"
    by (rule Cons.IH[where m = ?m and f = ?f]) (use Cons.prems(2,3,5) j in \<open>simp_all add: mount_ok_write(1)[where i = j]\<close>)
  show ?case by (rule Cons.prems(1)[of m']) (use run m' in \<open>simp_all\<close>)
qed

lemma slashless:
  assumes "CHR ''/'' \<notin> set name"
  shows "trim_start (''/'' @ name) = name" "before_last_slash name = None"
proof -
  have "dropWhile (\<lambda>c. c = CHR ''/'') name = name" using assms by (cases name) auto
  then show "trim_start (''/'' @ name) = name" by (simp add: trim_start_def)
  show "before_last_slash name = None" using assms by (simp add: before_last_slash_def)
qed

lemma refresh_root:
  assumes "attached H fs store m" "mount_ok I iok m" "ready w"
  obtains d m' w' where "refresh_dir_cache 1 (m, w) = (Inr (), (m', w'))" "attached H fs store m'" "mount_ok I iok m'" "ready w'"
    "path_for_ino m' = path_for_ino m" "files_at w' = files_at w" "blob w' = blob w" "cached 1 m' = Some d"
    "bt_get (dv_files (cd_dir d)) = files_at w" "\<And>p. p \<in> paths \<Longrightarrow> CHR ''/'' \<notin> set p \<Longrightarrow> bt_get (dv_dirs (cd_dir d)) p = None"
proof -
  obtain d w' where d: "FS5_export_merged_snapshot fs w = (Inr d, w')" "ready w'" "files_at w' = files_at w" "blob w' = blob w"
    "bt_get (dv_files d) = files_at w" "\<forall>p \<in> paths. CHR ''/'' \<notin> set p \<longrightarrow> bt_get (dv_dirs d) p = None"
    using export_law[OF assms(3)] by metis
  let ?d = "\<lparr>cd_dir = d, cd_keys = bt_empty\<rparr>"
  let ?m = "cache_entries 1 None (cache_dir 1 ?d m)"
  have fs: "mt_fs m = fs" using assms(1) by (simp add: attached_def)
  have root: "path_for_ino m 1 = Some ''/''" by (rule mount_ok_root[OF assms(2)])
  have run: "refresh_dir_cache 1 (m, w) = (Inr (), (?m, w'))"
    using d(1) root by (simp add: refresh_dir_cache_def op_bind_def on_mount_def trim_start_def on_world_def fs set_mount_def)
  have ok: "mount_ok I iok ?m" by (rule mount_ok_entries) (use assms(2) root in simp_all)
  show thesis by (rule that[OF run _ ok, of ?d]) (use assms d in simp_all)
qed

lemma release_file:
  assumes m: "attached H fs store m" "mount_ok I iok m" "ready w"
    and f: "bt_get (mt_open_files m) fh = Some \<lparr>of_path = ''/'' @ name, of_buf = c\<rparr>" "path_for_ino m ino = Some (''/'' @ name)"
    and name: "name \<in> paths" "CHR ''/'' \<notin> set name" "name \<noteq> []"
    and room: "blob w (h_blake3 H c) \<in> {None, Some c}" "fits ((files_at w)(name \<mapsto> FileRef_new (h_blake3 H c) (of_nat (length c))))"
  obtains d m' w' where "Fuse_release uuid ino fh (m, w) = (Inr (), (m', w'))" "attached H fs store m'" "mount_ok I iok m'" "ready w'"
    "path_for_ino m' ino = Some (''/'' @ name)" "files_at w' = (files_at w)(name \<mapsto> FileRef_new (h_blake3 H c) (of_nat (length c)))"
    "blob w' (h_blake3 H c) = Some c" "cached 1 m' = Some d" "bt_get (dv_files (cd_dir d)) = files_at w'" "bt_get (dv_dirs (cd_dir d)) name = None"
proof -
  let ?r = "FileRef_new (h_blake3 H c) (of_nat (length c))" and ?b = "\<lparr>bid_hash = h_blake3 H c, bid_size = of_nat (length c)\<rparr>"
  let ?m = "m\<lparr>mt_open_files := bt_remove fh (mt_open_files m)\<rparr>"
  obtain w1 where 1: "BlobStore_import_bytes H store uuid c w = (Inr ?b, w1)" "ready w1" "files_at w1 = files_at w" "blob w1 (h_blake3 H c) = Some c"
    using import_law[OF m(3) import_op_intros(1)[where uuid = uuid] room(1)] by auto
  obtain w2 where 2: "FS5_file_put_sync fs name ?r w1 = (Inr (), w2)" "ready w2" "files_at w2 = (files_at w)(name \<mapsto> ?r)" "blob w2 = blob w1"
    using put_law[OF 1(2) name(1), of ?r] 1(3) by auto
  obtain w3 where 3: "FS5_save fs w2 = (Inr (), w3)" "ready w3" "files_at w3 = files_at w2" "\<forall>h c. blob w2 h = Some c \<longrightarrow> blob w3 h = Some c"
    using save_law[OF 2(2)] room(2) 2(3) by auto
  have ok: "attached H fs store ?m" "mount_ok I iok ?m" using m by (simp_all add: mount_ok_closed)
  obtain d n w4 where 4: "refresh_dir_cache 1 (?m, w3) = (Inr (), (n, w4))" "attached H fs store n" "mount_ok I iok n" "ready w4"
    "path_for_ino n = path_for_ino ?m" "files_at w4 = files_at w3" "blob w4 = blob w3" "cached 1 n = Some d"
    "bt_get (dv_files (cd_dir d)) = files_at w3" "bt_get (dv_dirs (cd_dir d)) name = None"
    using refresh_root[OF ok 3(2)] name(1,2) by metis
  have known: "path_for_ino n ino = Some (''/'' @ name)" using 4(5) f(2) by simp
  obtain i where 5: "\<And>w. ino_for_path Panicked (''/'' @ name) (n, w) = (Inr ino, (n\<lparr>mt_inodes := i\<rparr>, w))" "mount_ok I iok (n\<lparr>mt_inodes := i\<rparr>)"
    "path_for_ino (n\<lparr>mt_inodes := i\<rparr>) ino = Some (''/'' @ name)"
    using number_for[OF 4(3), where p = "''/'' @ name" and j = ino and e = Panicked] known by metis
  let ?n = "cache_attr ino (make_file_attr ino (of_nat (length c)) None) (n\<lparr>mt_inodes := i\<rparr>)"
  have at: "mt_hash m = H" "mt_fs m = fs" "mt_store m = store" "\<not> mt_read_only m" using m(1) by (simp_all add: attached_def)
  have put: "FS5_file_put_sync fs name (FileRef_from_blob_id ?b) w1 = (Inr (), w2)" using 2(1) by (simp add: FileRef_from_blob_id_def)
  have run: "Fuse_release uuid ino fh (m, w) = (Inr (), (?n, w4))"
    using f(1) 1(1) put 3(1) 4(1) 5(1) slashless[OF name(2)]
    by (simp add: Fuse_release_def op_bind_def on_mount_def set_mount_def op_map_err_def on_world_def at op_ignore_def op_ok_def Let_def)
  show thesis
    by (rule that[OF run, of d]) (use 1(4) 2(3,4) 3(3,4) 4 5 in simp_all)
qed

lemma lookup_file:
  assumes m: "attached H fs store m" "mount_ok I iok m" "ready w" "cached 1 m = Some d" "path_for_ino m ino = Some (''/'' @ name)"
    and d: "bt_get (dv_dirs (cd_dir d)) name = None" "bt_get (dv_files (cd_dir d)) name = Some fr"
  obtains m' where "Fuse_lookup 1 name (m, w) = (Inr (make_file_attr ino (fr_size fr) (fr_timestamp fr)), (m', w))"
    "attached H fs store m'" "mount_ok I iok m'" "path_for_ino m' ino = Some (''/'' @ name)"
proof -
  have root: "path_for_ino m 1 = Some ''/''" by (rule mount_ok_root[OF m(2)])
  obtain i where i: "\<And>w. ino_for_path Panicked (''/'' @ name) (m, w) = (Inr ino, (m\<lparr>mt_inodes := i\<rparr>, w))" "mount_ok I iok (m\<lparr>mt_inodes := i\<rparr>)"
    "keeps_inodes m (m\<lparr>mt_inodes := i\<rparr>)" "path_for_ino (m\<lparr>mt_inodes := i\<rparr>) ino = Some (''/'' @ name)"
    using number_for[OF m(2), where p = "''/'' @ name" and j = ino and e = Panicked] m(5) by metis
  let ?a = "make_file_attr ino (fr_size fr) (fr_timestamp fr)"
  let ?m = "cache_parent ino 1 (cache_attr ino ?a (m\<lparr>mt_inodes := i\<rparr>))"
  have ens: "ensure_dir_cached 1 (m, w) = (Inr (), (m, w))"
    using m(4) by (simp add: ensure_dir_cached_def op_bind_def on_mount_def op_ok_def)
  have run: "Fuse_lookup 1 name (m, w) = (Inr ?a, (?m, w))"
    using root ens m(4) d i(1)
    by (simp add: Fuse_lookup_def known_path_def op_bind_def on_mount_def op_ok_def op_map_err_def note_child_def child_path_def set_mount_def Let_def)
  have "path_for_ino (m\<lparr>mt_inodes := i\<rparr>) 1 = Some ''/''" by (rule keeps_inodesD(1)[OF i(3) root])
  then have "mount_ok I iok ?m"
    using i(2,4) by (simp add: mount_ok_parent[where pp = "''/''" and name = name] child_path_def)
  then show thesis using that[OF run] m(1) i(4) by simp
qed

lemma read_file:
  assumes m: "attached H fs store m" "ready w" "path_for_ino m ino = Some (''/'' @ name)"
    and name: "name \<in> paths" "CHR ''/'' \<notin> set name"
    and f: "files_at w name = Some (FileRef_new (h_blake3 H c) (of_nat (length c)))" "blob w (h_blake3 H c) = Some c" and off: "off < 2 ^ 63"
  shows "\<exists>w'. Fuse_read ino fh (of_nat off) sz (m, w) = (Inr (take (unat sz) (drop off c)), (m, w'))"
proof -
  let ?r = "FileRef_new (h_blake3 H c) (of_nat (length c))"
  have live: "live_file (Some ?r) = Some ?r" by (simp add: live_file_def FileRef_is_tombstone_def FileRef_ref_type_def FileRef_new_def)
  obtain w' where w': "FS5_file_get fs name w = (Some ?r, w')" "ready w'" "blob w' = blob w"
    using get_law[OF m(2) name(1)] f(1) live by metis
  have at: "mt_hash m = H" "mt_fs m = fs" "mt_store m = store" using m(1) by (simp_all add: attached_def)
  have un: "unat (of_nat off :: u64) = off" "unat (ucast sz :: u64) = unat sz" using off
    by (simp_all add: unat_of_nat unat_ucast_widen)
  have get: "get_file_ref ino (m, w) = (Inr ?r, (m, w'))"
    using m(3) w'(1) slashless[OF name(2)]
    by (simp add: get_file_ref_def op_bind_def on_mount_def fs_path_from_ino_def fs_file_get_def op_ok_def at)
  have "BlobStore_read_as_bytes H store (h_blake3 H c) (of_nat off) (Some (ucast sz)) w' = Inr (take (unat sz) (drop off c))"
    using read_law[OF w'(2), of "h_blake3 H c" c] f(2) w'(3) un by (simp add: slice_of_def)
  then show ?thesis
    using sint_of_nat_nonneg[OF off] get
    by (simp add: Fuse_read_def op_bind_def op_map_err_def FileRef_new_def on_mount_def on_world_def at act_read_def Hash_from_bytes_def)
qed

lemma run_ops_append:
  "run_ops step (xs @ ys) s = (case run_ops step xs s of (as, s) \<Rightarrow> case run_ops step ys s of (bs, s) \<Rightarrow> (as @ bs, s))"
  by (induction xs arbitrary: s) (auto split: prod.splits)

lemma write_then_read:
  assumes m: "attached H fs store m" "mount_ok I iok m" "ready w" "in_len I (mt_inodes m) < 2 ^ 32 - 1"
    and name: "name \<in> paths" "CHR ''/'' \<notin> set name" "name \<noteq> []"
    and c: "length (concat cs) < 2 ^ 63" "blob w (h_blake3 H (concat cs)) \<in> {None, Some (concat cs)}"
      "fits ((files_at w)(name \<mapsto> FileRef_new (h_blake3 H (concat cs)) (of_nat (length (concat cs)))))"
    and off: "off < 2 ^ 63"
  shows "\<exists>ino m' w'. run_ops fuse_step (ReqCreate 1 name # write_reqs ino (mt_next_fh m) 0 cs
      @ [ReqRelease uuid ino (mt_next_fh m), ReqLookup 1 name, ReqRead ino fh (of_nat off) sz]) (m, w)
    = (RepCreated (Inr (make_file_attr ino 0 None, mt_next_fh m)) # map (\<lambda>c. RepWritten (Inr (of_nat (length c)))) cs
      @ [RepDone (Inr ()), RepAttr (Inr (make_file_attr ino (of_nat (length (concat cs))) None)),
         RepData (Inr (take (unat sz) (drop off (concat cs))))], (m', w'))"
proof -
  let ?h = "mt_next_fh m" and ?c = "concat cs"
  let ?r = "FileRef_new (h_blake3 H ?c) (of_nat (length ?c))"
  obtain ino m1 w1 where 1: "Fuse_create 1 name (m, w) = (Inr (make_file_attr ino 0 None, ?h), (m1, w1))" "attached H fs store m1" "mount_ok I iok m1"
    "ready w1" "path_for_ino m1 ino = Some (''/'' @ name)" "bt_get (mt_open_files m1) ?h = Some \<lparr>of_path = ''/'' @ name, of_buf = []\<rparr>"
    "files_at w1 = files_at w" "blob w1 = blob w"
    using create_file[OF m, of name] by metis
  obtain m2 where 2: "run_ops fuse_step (write_reqs ino ?h 0 cs) (m1, w1) = (map (\<lambda>c. RepWritten (Inr (of_nat (length c)))) cs, (m2, w1))"
    "attached H fs store m2" "mount_ok I iok m2" "path_for_ino m2 = path_for_ino m1"
    "bt_get (mt_open_files m2) ?h = Some \<lparr>of_path = ''/'' @ name, of_buf = ?c\<rparr>"
    using write_file[OF 1(2,3,6), where cs = cs and ino = ino and w = w1 and thesis = thesis] c(1) by simp
  obtain d m3 w3 where 3: "Fuse_release uuid ino ?h (m2, w1) = (Inr (), (m3, w3))" "attached H fs store m3" "mount_ok I iok m3" "ready w3"
    "path_for_ino m3 ino = Some (''/'' @ name)" "files_at w3 name = Some ?r" "blob w3 (h_blake3 H ?c) = Some ?c"
    "cached 1 m3 = Some d" "bt_get (dv_files (cd_dir d)) name = Some ?r" "bt_get (dv_dirs (cd_dir d)) name = None"
  proof (rule release_file[OF 2(2,3) 1(4) 2(5) _ name, of ino])
    show "path_for_ino m2 ino = Some (''/'' @ name)" using 2(4) 1(5) by simp
    show "blob w1 (h_blake3 H ?c) \<in> {None, Some ?c}" using c(2) 1(8) by simp
    show "fits ((files_at w1)(name \<mapsto> ?r))" using c(3) 1(7) by simp
  qed (rule that, auto)
  obtain m4 where 4: "Fuse_lookup 1 name (m3, w3) = (Inr (make_file_attr ino (fr_size ?r) (fr_timestamp ?r)), (m4, w3))"
    "attached H fs store m4" "path_for_ino m4 ino = Some (''/'' @ name)"
    using lookup_file[OF 3(2,3,4,8,5,10,9)] by metis
  obtain w5 where 5: "Fuse_read ino fh (of_nat off) sz (m4, w3) = (Inr (take (unat sz) (drop off ?c)), (m4, w5))"
    using read_file[OF 4(2) 3(4) 4(3) name(1,2) 3(6,7) off] by blast
  show ?thesis
    by (intro exI[of _ ino] exI[of _ m4] exI[of _ w5])
      (use 1(1) 2(1) 3(1) 4(1) 5 in \<open>simp add: run_ops_append FileRef_new_def\<close>)
qed

end

interpretation local_mount: mounted_world list_interner "\<lambda>l. distinct l \<and> length l < 2 ^ 32" H "actor_fs (mem_env H D sg xx x)" mount_store
  root_files "\<lambda>s. mem_blob H (snd s)" "local_ready H D x path origin S" S "local_fits D origin"
  for H D sg xx x path origin S
  by (rule mounted_world.intro[OF list_interning.interning_axioms local_saves.saving_world_axioms])

section \<open>Properties\<close>

text \<open>C8. A file written through a mount reads back. On a writable mount of a root kept in a local file, with a new number to
  spare, creating a file in the root directory, writing it in any number of pieces one after the other, closing it and looking
  it up all succeed, the lookup gives the inode of the creation and the total length, and reading any range then gives those
  bytes of the pieces put together. The name has no slash and lies among the paths the root handles itself, the directory
  stays below the size that splits it, and the blob store holds nothing else under the hash of the content.\<close>

theorem mounted_file_reads_back:
  assumes lasso: "interning I iok" and m: "mount_ok I iok m" "in_len I (mt_inodes m) < 2 ^ 32 - 1"
    and at: "mt_hash m = H" "mt_fs m = actor_fs (mem_env H D sg xx x)" "mt_store m = mount_store" "\<not> mt_read_only m"
    and w: "local_ready H D x path origin S w" "name \<in> S" "CHR ''/'' \<notin> set name" "name \<noteq> []"
    and c: "length (concat cs) < 2 ^ 63" "mem_blob H (snd w) (h_blake3 H (concat cs)) \<in> {None, Some (concat cs)}"
      "local_fits D origin ((root_files w)(name \<mapsto> FileRef_new (h_blake3 H (concat cs)) (of_nat (length (concat cs)))))"
    and off: "off < 2 ^ 63"
  shows "\<exists>ino m' w'. run_ops fuse_step (ReqCreate 1 name # write_reqs ino (mt_next_fh m) 0 cs
      @ [ReqRelease uuid ino (mt_next_fh m), ReqLookup 1 name, ReqRead ino fh (of_nat off) sz]) (m, w)
    = (RepCreated (Inr (make_file_attr ino 0 None, mt_next_fh m)) # map (\<lambda>c. RepWritten (Inr (of_nat (length c)))) cs
      @ [RepDone (Inr ()), RepAttr (Inr (make_file_attr ino (of_nat (length (concat cs))) None)),
         RepData (Inr (take (unat sz) (drop off (concat cs))))], (m', w'))"
proof -
  have "attached H (actor_fs (mem_env H D sg xx x)) mount_store m" using at by (simp add: attached_def)
  from mounted_world.write_then_read[OF mounted_world.intro[OF lasso local_saves.saving_world_axioms] this m(1) w(1) m(2) w(2-4) c off]
  show ?thesis by (simp only: append_assoc)
qed

definition demo_mount :: "(dir_actor option \<times> mem_fs, string list) mount" where
  "demo_mount = \<lparr>mt_hash = demo_hashing, mt_interner = list_interner, mt_fs = actor_fs demo_local_env, mt_store = mount_store,
    mt_inodes = ['''', ''/''], mt_cache = FsCache_new, mt_open_files = bt_empty, mt_next_fh = 1, mt_read_only = False\<rparr>"

lemma demo_mount_new: "Mount_new demo_hashing list_interner (actor_fs demo_local_env) mount_store False = Inr demo_mount"
  by (simp add: Mount_new_def list_interner_def demo_mount_def)

theorem mounted_file_reads_back_witness:
  "\<exists>ino m' w'. run_ops fuse_step (ReqCreate 1 ''f'' # write_reqs ino 1 0 [[1, 2], [3]]
      @ [ReqRelease ''u'' ino 1, ReqLookup 1 ''f'', ReqRead ino 0 (of_nat 1) 9]) (demo_mount, demo_local)
    = ([RepCreated (Inr (make_file_attr ino 0 None, 1)), RepWritten (Inr 2), RepWritten (Inr 1),
        RepDone (Inr ()), RepAttr (Inr (make_file_attr ino 3 None)), RepData (Inr [2, 3])], (m', w'))"
proof -
  have m: "mount_ok list_interner (\<lambda>l. distinct l \<and> length l < 2 ^ 32) demo_mount" "in_len list_interner (mt_inodes demo_mount) < 2 ^ 32 - 1"
    using list_interning.Mount_new_ok[OF demo_mount_new] by (simp_all only: list_interner_def) simp_all
  have at: "mt_hash demo_mount = demo_hashing" "mt_fs demo_mount = actor_fs demo_local_env" "mt_store demo_mount = mount_store"
    "\<not> mt_read_only demo_mount" "mt_next_fh demo_mount = 1" by (simp_all add: demo_mount_def)
  have none: "mem_blob demo_hashing (snd demo_local) h = None" for h by (simp add: demo_local_def demo_world_def mem_blob_fst blob_at_def MemoryStore_new_def)
  have fits: "local_fits (short_codec demo_written) DirV1_new
      ((root_files demo_local)(''f'' \<mapsto> FileRef_new (h_blake3 demo_hashing (concat [[1, 2], [3]])) (of_nat (length (concat [[1, 2], [3 :: u8]])))))"
  proof -
    have "(root_files demo_local)(''f'' \<mapsto> FileRef_new (h_blake3 demo_hashing (concat [[1, 2], [3]])) (of_nat (length (concat [[1, 2], [3 :: u8]]))))
      = bt_get (dv_files demo_written)"
      by (rule ext) (simp add: root_files_def demo_local_def files_of_def DirV1_new_def demo_written_def)
    then show ?thesis using demo_local_fits by simp
  qed
  show ?thesis
    using mounted_file_reads_back[OF list_interning.interning_axioms m at(1) at(2)[unfolded demo_local_env_def] at(3,4) demo_local_ready,
        of "''f''" "[[1, 2], [3]]" 1 "''u''" 0 9] none fits at(5)
    by simp
qed

theorem mount_well_formed_witness:
  "\<exists>m v replies m' v'. Fuse_mount demo_hashing list_interner (actor_fs demo_local_env) mount_store False demo_local = Inr (m, v)
    \<and> run_ops fuse_step [ReqCreate 1 ''f'', ReqReaddir 1 0, ReqGetattr 2] (m, v) = (replies, (m', v'))
    \<and> mount_ok list_interner (\<lambda>l. distinct l \<and> length l < 2 ^ 32) m' \<and> keeps_inodes m m'"
proof -
  obtain m v where m: "Fuse_mount demo_hashing list_interner (actor_fs demo_local_env) mount_store False demo_local = Inr (m, v)"
    unfolding Fuse_mount_def Let_def demo_mount_new by (metis prod.exhaust sum.case(2))
  obtain replies m' v' where run: "run_ops fuse_step [ReqCreate 1 ''f'', ReqReaddir 1 0, ReqGetattr 2] (m, v) = (replies, (m', v'))"
    by (metis prod.exhaust)
  show ?thesis using mount_well_formed[OF list_interning.interning_axioms m run] m run by blast
qed

end
