(* ===== verification/Local_Store.thy ===== *)
theory Local_Store
  imports Blob_Store Pins
begin

text \<open>
  The store in a directory: \<^verbatim>\<open>blob_stores/local/src/lib.rs\<close>, over a model of the files of the operating system. The
  model has directories and regular files; links, permissions and failures of the disk are left out, and one process works on
  the directory. It is shown that on keys that are proper relative paths, none inside another, the store is a map.
\<close>

section \<open>Files of the operating system\<close>

datatype fs_node = DirNode | FileNode bytes

record os_files =
  os_nodes :: "(string list, fs_node) btree"
  os_dir_len :: u64

text \<open>Whether a path can only name a directory.\<close>

definition names_dir :: "string \<Rightarrow> bool" where
  "names_dir p \<longleftrightarrow> last (split_slash [] p) = [] \<or> last (split_slash [] p) = ''.''"

definition not_a_directory :: error where
  "not_a_directory = Io OtherKind ''Not a directory''"

definition is_a_directory :: error where
  "is_a_directory = Io OtherKind ''Is a directory''"

definition is_file :: "os_files \<Rightarrow> string list \<Rightarrow> bool" where
  "is_file w cs \<longleftrightarrow> (case bt_get (os_nodes w) cs of Some (FileNode _) \<Rightarrow> True | _ \<Rightarrow> False)"

definition is_dir :: "os_files \<Rightarrow> string list \<Rightarrow> bool" where
  "is_dir w cs \<longleftrightarrow> cs = [] \<or> bt_get (os_nodes w) cs = Some DirNode"

definition above_file :: "os_files \<Rightarrow> string list \<Rightarrow> bool" where
  "above_file w cs \<longleftrightarrow> list_ex (\<lambda>k. is_file w (take k cs)) [0..<length cs]"

definition os_stat :: "string \<Rightarrow> os_files \<Rightarrow> error + fs_node" where
  "os_stat p w =
    (let cs = os_components p
     in if p = [] then Inl (Io NotFound p)
        else if above_file w cs then Inl not_a_directory
        else if cs = [] then Inr DirNode
        else case bt_get (os_nodes w) cs of
          None \<Rightarrow> Inl (Io NotFound p)
        | Some DirNode \<Rightarrow> Inr DirNode
        | Some (FileNode c) \<Rightarrow> if names_dir p then Inl not_a_directory else Inr (FileNode c))"

definition set_node :: "string list \<Rightarrow> fs_node \<Rightarrow> os_files \<Rightarrow> os_files" where
  "set_node cs n w = w\<lparr>os_nodes := bt_insert cs n (os_nodes w)\<rparr>"

fun make_dirs :: "string list list \<Rightarrow> (os_files, unit) action" where
  "make_dirs [] w = (Inr (), w)"
| "make_dirs (cs # rest) w =
    (if is_file w cs then (Inl not_a_directory, w)
     else if is_dir w cs then make_dirs rest w
     else make_dirs rest (set_node cs DirNode w))"

definition create_dir_all :: "string list \<Rightarrow> (os_files, unit) action" where
  "create_dir_all cs = make_dirs (map (\<lambda>k. take (Suc k) cs) [0..<length cs])"

text \<open>Creating or truncating a file.\<close>

definition os_create :: "string \<Rightarrow> (os_files, unit) action" where
  "os_create p w =
    (let cs = os_components p
     in case os_stat p w of
          Inr DirNode \<Rightarrow> (Inl is_a_directory, w)
        | Inr (FileNode _) \<Rightarrow> (Inr (), set_node cs (FileNode []) w)
        | Inl (Io NotFound _) \<Rightarrow>
            if names_dir p then (Inl is_a_directory, w)
            else if is_dir w (butlast cs) then (Inr (), set_node cs (FileNode []) w)
            else (Inl (Io NotFound p), w)
        | Inl e \<Rightarrow> (Inl e, w))"

definition os_append :: "string \<Rightarrow> bytes \<Rightarrow> os_files \<Rightarrow> os_files" where
  "os_append p bs w =
    (case bt_get (os_nodes w) (os_components p) of
       Some (FileNode c) \<Rightarrow> set_node (os_components p) (FileNode (c @ bs)) w
     | _ \<Rightarrow> w)"

definition os_remove_file :: "string \<Rightarrow> (os_files, unit) action" where
  "os_remove_file p w =
    (case os_stat p w of
       Inl e \<Rightarrow> (Inl e, w)
     | Inr DirNode \<Rightarrow> (Inl is_a_directory, w)
     | Inr (FileNode _) \<Rightarrow> (Inr (), w\<lparr>os_nodes := bt_remove (os_components p) (os_nodes w)\<rparr>))"

text \<open>Moving a node with everything below it.\<close>

definition move_node :: "string list \<Rightarrow> string list \<Rightarrow> os_files \<Rightarrow> os_files" where
  "move_node old new w =
    (let below = filter (\<lambda>(cs, _). take (length old) cs = old) (bt_entries (os_nodes w))
     in w\<lparr>os_nodes := fold (\<lambda>(cs, n) m. bt_insert (new @ drop (length old) cs) n m) below
           (fold (\<lambda>(cs, n) m. bt_remove cs m) below (os_nodes w))\<rparr>)"

definition os_rename :: "string \<Rightarrow> string \<Rightarrow> (os_files, unit) action" where
  "os_rename old new w =
    (let oc = os_components old; nc = os_components new
     in case os_stat old w of
          Inl e \<Rightarrow> (Inl e, w)
        | Inr node \<Rightarrow>
            if oc = nc then (Inr (), w)
            else if above_file w nc then (Inl not_a_directory, w)
            else if \<not> is_dir w (butlast nc) then (Inl (Io NotFound new), w)
            else (case node of
                FileNode _ \<Rightarrow>
                  if is_dir w nc then (Inl is_a_directory, w)
                  else if names_dir new then (Inl not_a_directory, w)
                  else (Inr (), move_node oc nc w)
              | DirNode \<Rightarrow>
                  if take (length oc) nc = oc then (Inl (Io OtherKind ''Invalid argument''), w)
                  else if is_file w nc then (Inl not_a_directory, w)
                  else if list_ex (\<lambda>(cs, _). take (length nc) cs = nc \<and> cs \<noteq> nc) (bt_entries (os_nodes w))
                  then (Inl (Io OtherKind ''Directory not empty''), w)
                  else (Inr (), move_node oc nc w)))"

section \<open>LocalStore\<close>

record local_store_config =
  lc_base_path :: string

record local_store =
  ls_base_path :: string

definition LocalStore_new :: "string \<Rightarrow> local_store" where
  "LocalStore_new base_path = \<lparr>ls_base_path = base_path\<rparr>"

definition LocalStore_create :: "local_store_config \<Rightarrow> local_store" where
  "LocalStore_create config = \<lparr>ls_base_path = lc_base_path config\<rparr>"

text \<open>\<^verbatim>\<open>str::contains("..")\<close>.\<close>

fun contains_dots :: "string \<Rightarrow> bool" where
  "contains_dots (a # b # cs) = ((a = CHR ''.'' \<and> b = CHR ''.'') \<or> contains_dots (b # cs))"
| "contains_dots _ = False"

definition resolve_path :: "local_store \<Rightarrow> string \<Rightarrow> error + string" where
  "resolve_path self path =
    (if contains_dots path \<or> (path \<noteq> [] \<and> hd path = CHR ''/'')
     then Inl (Anyhow (''Invalid path: '' @ path @ ''. Must be a relative path without dots.''))
     else Inr (path_join (ls_base_path self) path))"

definition make_parent :: "string \<Rightarrow> (os_files, unit) action" where
  "make_parent full_path =
    (if os_components full_path = [] then act_ok () else create_dir_all (butlast (os_components full_path)))"

fun copy_stream :: "string \<Rightarrow> chunk list \<Rightarrow> (os_files, unit) action" where
  "copy_stream p [] w = (Inr (), w)"
| "copy_stream p (Inl e # st) w = (Inl e, w)"
| "copy_stream p (Inr c # st) w = copy_stream p st (os_append p c w)"

definition Local_put_stream :: "local_store \<Rightarrow> string \<Rightarrow> chunk list \<Rightarrow> (os_files, unit) action" where
  "Local_put_stream self path stream =
    act_bind (act_lift (resolve_path self path)) (\<lambda>full_path.
    act_bind (make_parent full_path) (\<lambda>_.
    act_bind (os_create full_path) (\<lambda>_.
    copy_stream full_path stream)))"

definition Local_features :: store_features where
  "Local_features = \<lparr>supports_rename = True, case_sensitive = False, recommended_max_dir_size = 1024\<rparr>"

definition Local_exists :: "local_store \<Rightarrow> string \<Rightarrow> os_files \<Rightarrow> error + bool" where
  "Local_exists self path w =
    (case resolve_path self path of
       Inl e \<Rightarrow> Inl e
     | Inr full_path \<Rightarrow>
        (case os_stat full_path w of
           Inr _ \<Rightarrow> Inr True
         | Inl (Io NotFound _) \<Rightarrow> Inr False
         | Inl e \<Rightarrow> Inl e))"

definition Local_put_bytes :: "local_store \<Rightarrow> string \<Rightarrow> bytes \<Rightarrow> (os_files, unit) action" where
  "Local_put_bytes self path bs =
    act_bind (act_lift (resolve_path self path)) (\<lambda>full_path.
    act_bind (make_parent full_path) (\<lambda>_.
    act_bind (os_create full_path) (\<lambda>_ w. (Inr (), os_append full_path bs w))))"

text \<open>A directory can be opened and fails at the first read. No file has a position from \<open>2 ^ 63\<close> on, where seeking fails. A stream of a file is
  one chunk here.\<close>

definition Local_open_read_stream :: "local_store \<Rightarrow> string \<Rightarrow> u64 \<Rightarrow> u64 option \<Rightarrow> os_files \<Rightarrow> error + chunk list" where
  "Local_open_read_stream self path offset max_len w =
    (case resolve_path self path of
       Inl e \<Rightarrow> Inl e
     | Inr full_path \<Rightarrow>
        (case os_stat full_path w of
           Inl e \<Rightarrow> Inl e
         | Inr node \<Rightarrow>
            if unat offset \<ge> 2 ^ 63 then Inl (Io OtherKind ''Invalid argument'')
            else
              (case node of
                 DirNode \<Rightarrow> Inr (if max_len = Some 0 then [] else [Inl is_a_directory])
               | FileNode file \<Rightarrow>
                  (let rest = drop (unat offset) file;
                       part = (case max_len of Some len \<Rightarrow> take (unat len) rest | None \<Rightarrow> rest)
                   in Inr (if part = [] then [] else [Inr part])))))"

definition Local_open_read_bytes :: "local_store \<Rightarrow> string \<Rightarrow> u64 \<Rightarrow> u64 option \<Rightarrow> os_files \<Rightarrow> error + bytes" where
  "Local_open_read_bytes self path offset max_len w =
    (case resolve_path self path of
       Inl e \<Rightarrow> Inl e
     | Inr full_path \<Rightarrow>
        (case os_stat full_path w of
           Inl e \<Rightarrow> Inl e
         | Inr DirNode \<Rightarrow> if offset \<ge> os_dir_len w \<or> max_len = Some 0 then Inr [] else Inl is_a_directory
         | Inr (FileNode file) \<Rightarrow>
             (let file_len = length file
              in if unat offset \<ge> file_len then Inr []
                 else
                   let len_to_read = (case max_len of Some len \<Rightarrow> min (unat len) (file_len - unat offset) | None \<Rightarrow> file_len - unat offset)
                   in Inr (take len_to_read (drop (unat offset) file)))))"

definition Local_delete :: "local_store \<Rightarrow> string \<Rightarrow> (os_files, unit) action" where
  "Local_delete self path =
    act_bind (act_lift (resolve_path self path)) (\<lambda>full_path w.
    case os_stat full_path w of
      Inr _ \<Rightarrow> os_remove_file full_path w
    | Inl (Io NotFound _) \<Rightarrow> (Inr (), w)
    | Inl e \<Rightarrow> (Inl e, w))"

definition Local_rename :: "local_store \<Rightarrow> string \<Rightarrow> string \<Rightarrow> (os_files, unit) action" where
  "Local_rename self old_path new_path =
    act_bind (act_lift (resolve_path self old_path)) (\<lambda>old_full_path.
    act_bind (act_lift (resolve_path self new_path)) (\<lambda>new_full_path.
    act_bind (make_parent new_full_path) (\<lambda>_.
    os_rename old_full_path new_full_path)))"

definition Local_provide :: "local_store \<Rightarrow> string \<Rightarrow> os_files \<Rightarrow> error + blob_location list" where
  "Local_provide self path w = Inr []"

definition Local_size :: "local_store \<Rightarrow> string \<Rightarrow> os_files \<Rightarrow> error + u64" where
  "Local_size self path w =
    (case resolve_path self path of
       Inl e \<Rightarrow> Inl e
     | Inr full_path \<Rightarrow>
        (case os_stat full_path w of
           Inl e \<Rightarrow> Inl e
         | Inr DirNode \<Rightarrow> Inr (os_dir_len w)
         | Inr (FileNode file) \<Rightarrow> Inr (of_nat (length file))))"

text \<open>\<^verbatim>\<open>WalkDir\<close> promises no order; the model lists the files in the order of their components.\<close>

definition Local_list :: "local_store \<Rightarrow> os_files \<Rightarrow> error + (error + string) list" where
  "Local_list self w =
    (let base = os_components (ls_base_path self)
     in case os_stat (ls_base_path self) w of
          Inl e \<Rightarrow> Inr [Inl e]
        | Inr _ \<Rightarrow>
            Inr (map (\<lambda>cs. Inr (join_slash (drop (length base) cs)))
              (filter (\<lambda>cs. take (length base) cs = base \<and> is_file w cs) (bt_keys (os_nodes w)))))"

definition LocalStore :: "local_store \<Rightarrow> os_files store" where
  "LocalStore self =
    \<lparr>st_features = Local_features, st_put_stream = Local_put_stream self, st_put_bytes = Local_put_bytes self,
     st_exists = Local_exists self, st_open_read_stream = Local_open_read_stream self,
     st_open_read_bytes = Local_open_read_bytes self, st_size = Local_size self, st_list = Local_list self,
     st_delete = Local_delete self, st_rename = Local_rename self, st_provide = Local_provide self,
     st_put_temp = Store_put_temp (Local_put_stream self)\<rparr>"

section \<open>Keys and files\<close>

lemma split_slash_append: "split_slash acc (xs @ CHR ''/'' # ys) = split_slash acc xs @ split_slash [] ys"
  by (induction xs arbitrary: acc) simp_all

lemma split_slash_nonempty [simp]: "split_slash acc xs \<noteq> []"
  by (induction xs arbitrary: acc) simp_all

lemma path_join_split:
  "path_join base p = p \<and> os_components base = []
    \<or> (\<exists>b. path_join base p = b @ CHR ''/'' # p \<and> os_components base = os_components b)"
proof (cases "base = []")
  case False
  show ?thesis
  proof (cases "last base = CHR ''/''")
    case True
    then obtain b where b: "base = b @ [CHR ''/'']" using False by (metis append_butlast_last_id)
    then have "path_join base p = b @ CHR ''/'' # p" by (simp add: path_join_def)
    moreover have "os_components base = os_components b" using split_slash_append[of "[]" b "[]"] by (simp add: b os_components_def)
    ultimately show ?thesis by blast
  qed (use False in \<open>auto simp: path_join_def\<close>)
qed (simp add: path_join_def os_components_def)

lemma path_join_components:
  "os_components (path_join base p) = os_components base @ os_components p" "names_dir (path_join base p) = names_dir p"
  using path_join_split[of base p] split_slash_append[of "[]" _ p] by (auto simp: os_components_def names_dir_def)

definition key_ok :: "string \<Rightarrow> bool" where
  "key_ok p \<longleftrightarrow> \<not> contains_dots p \<and> p \<noteq> [] \<and> hd p \<noteq> CHR ''/'' \<and> \<not> names_dir p \<and> os_components p \<noteq> []"

definition file_of_key :: "local_store \<Rightarrow> string \<Rightarrow> string list" where
  "file_of_key self p = os_components (ls_base_path self) @ os_components p"

lemma resolve_key:
  assumes "key_ok p"
  shows "resolve_path self p = Inr (path_join (ls_base_path self) p)" "path_join (ls_base_path self) p \<noteq> []"
    "os_components (path_join (ls_base_path self) p) = file_of_key self p" "\<not> names_dir (path_join (ls_base_path self) p)"
    "file_of_key self p \<noteq> []"
proof -
  have "path_join (ls_base_path self) p \<noteq> []" using assms by (auto simp: path_join_def key_ok_def)
  then show "resolve_path self p = Inr (path_join (ls_base_path self) p)" "path_join (ls_base_path self) p \<noteq> []"
    "os_components (path_join (ls_base_path self) p) = file_of_key self p" "\<not> names_dir (path_join (ls_base_path self) p)"
    "file_of_key self p \<noteq> []"
    using assms by (simp_all add: key_ok_def resolve_path_def path_join_components file_of_key_def)
qed

text \<open>Keys of which none is inside another, in a directory where they can be stored: nothing above a key is a file, and a key
  itself is no directory.\<close>

definition apart_keys :: "string set \<Rightarrow> bool" where
  "apart_keys K \<longleftrightarrow> (\<forall>p \<in> K. key_ok p \<and> (\<forall>q \<in> K. take (length (os_components p)) (os_components q) = os_components p \<longrightarrow> q = p))"

definition local_inv :: "local_store \<Rightarrow> string set \<Rightarrow> os_files \<Rightarrow> bool" where
  "local_inv self K w \<longleftrightarrow> apart_keys K \<and> (\<forall>p \<in> K. \<not> above_file w (file_of_key self p) \<and> \<not> is_dir w (file_of_key self p)
    \<and> (\<forall>cs. bt_get (os_nodes w) cs \<noteq> None \<longrightarrow> take (length (file_of_key self p)) cs = file_of_key self p \<longrightarrow> cs = file_of_key self p))"

definition local_contents :: "local_store \<Rightarrow> os_files \<Rightarrow> string \<Rightarrow> bytes option" where
  "local_contents self w p = (case bt_get (os_nodes w) (file_of_key self p) of Some (FileNode c) \<Rightarrow> Some c | _ \<Rightarrow> None)"

lemma above_file_iff: "above_file w cs \<longleftrightarrow> (\<exists>k < length cs. is_file w (take k cs))"
  by (auto simp: above_file_def list_ex_iff)

lemma file_of_key_apart:
  assumes "apart_keys K" "p \<in> K" "q \<in> K" "take (length (file_of_key self p)) (file_of_key self q) = file_of_key self p"
  shows "q = p"
  using assms by (auto simp: apart_keys_def file_of_key_def)

lemma file_of_key_inj: "apart_keys K \<Longrightarrow> p \<in> K \<Longrightarrow> q \<in> K \<Longrightarrow> file_of_key self p = file_of_key self q \<longleftrightarrow> p = q"
  using file_of_key_apart[of K p q self] by auto

lemma local_invD:
  assumes "local_inv self K w" "p \<in> K"
  shows "apart_keys K" "key_ok p" "\<not> above_file w (file_of_key self p)" "bt_get (os_nodes w) (file_of_key self p) \<noteq> Some DirNode"
    "bt_get (os_nodes w) cs \<noteq> None \<Longrightarrow> take (length (file_of_key self p)) cs = file_of_key self p \<Longrightarrow> cs = file_of_key self p"
  using assms resolve_key(5) by (auto simp: local_inv_def apart_keys_def is_dir_def)

lemma os_stat_key:
  assumes "local_inv self K w" "p \<in> K"
  shows "os_stat (path_join (ls_base_path self) p) w =
    (case local_contents self w p of None \<Rightarrow> Inl (Io NotFound (path_join (ls_base_path self) p)) | Some c \<Rightarrow> Inr (FileNode c))"
  using local_invD(2-4)[OF assms] resolve_key[OF local_invD(2)[OF assms], of self]
  by (auto simp: os_stat_def local_contents_def split: option.splits fs_node.splits)

section \<open>Changes of the files\<close>

lemma make_dirs_ok:
  assumes "\<forall>cs \<in> set css. cs \<noteq> [] \<and> \<not> is_file w cs"
  shows "\<exists>w'. make_dirs css w = (Inr (), w') \<and> os_dir_len w' = os_dir_len w
    \<and> (\<forall>cs. bt_get (os_nodes w') cs = (if cs \<in> set css \<and> bt_get (os_nodes w) cs = None then Some DirNode else bt_get (os_nodes w) cs))"
  using assms
proof (induction css arbitrary: w)
  case (Cons c css)
  show ?case
  proof (cases "is_dir w c")
    case True
    then show ?thesis using Cons.IH[of w] Cons.prems by (auto simp: is_dir_def)
  next
    case False
    have none: "bt_get (os_nodes w) c = None"
      using False Cons.prems by (auto simp: is_dir_def is_file_def split: option.splits fs_node.splits)
    have "\<forall>cs \<in> set css. cs \<noteq> [] \<and> \<not> is_file (set_node c DirNode w) cs"
      using Cons.prems by (auto simp: is_file_def set_node_def split: option.splits if_splits)
    from Cons.IH[OF this] show ?thesis using False Cons.prems none by (auto simp: set_node_def)
  qed
qed simp

text \<open>Making the directories above a key.\<close>

definition with_dirs :: "string list \<Rightarrow> os_files \<Rightarrow> os_files \<Rightarrow> bool" where
  "with_dirs f w w' \<longleftrightarrow> os_dir_len w' = os_dir_len w \<and> (\<forall>cs. bt_get (os_nodes w') cs =
    (if (\<exists>k. 0 < k \<and> k < length f \<and> cs = take k f) \<and> bt_get (os_nodes w) cs = None then Some DirNode else bt_get (os_nodes w) cs))"

lemma make_parent_key:
  assumes "local_inv self K w" "p \<in> K"
  obtains w' where "make_parent (path_join (ls_base_path self) p) w = (Inr (), w')" "with_dirs (file_of_key self p) w w'"
proof -
  let ?f = "file_of_key self p"
  let ?css = "map (\<lambda>k. take (Suc k) (butlast ?f)) [0..<length (butlast ?f)]"
  note key = resolve_key[OF local_invD(2)[OF assms], of self]
  have set: "cs \<in> set ?css \<longleftrightarrow> (\<exists>k. 0 < k \<and> k < length ?f \<and> cs = take k ?f)" for cs
  proof
    assume "cs \<in> set ?css"
    then obtain k where "k < length ?f - 1" "cs = take (Suc k) (butlast ?f)" by auto
    then show "\<exists>k. 0 < k \<and> k < length ?f \<and> cs = take k ?f" by (intro exI[of _ "Suc k"]) (auto simp: take_butlast)
  next
    assume "\<exists>k. 0 < k \<and> k < length ?f \<and> cs = take k ?f"
    then obtain k where "0 < k" "k < length ?f" "cs = take k ?f" by blast
    then show "cs \<in> set ?css" by (auto simp: take_butlast intro!: image_eqI[of _ _ "k - 1"])
  qed
  have ok: "\<forall>cs \<in> set ?css. cs \<noteq> [] \<and> \<not> is_file w cs"
  proof
    fix cs assume "cs \<in> set ?css"
    then obtain k where "0 < k" "k < length ?f" "cs = take k ?f" unfolding set by blast
    then show "cs \<noteq> [] \<and> \<not> is_file w cs" using local_invD(3)[OF assms] key(5) by (auto simp: above_file_iff)
  qed
  obtain w' where w': "make_dirs ?css w = (Inr (), w')" "os_dir_len w' = os_dir_len w"
    "\<forall>cs. bt_get (os_nodes w') cs = (if cs \<in> set ?css \<and> bt_get (os_nodes w) cs = None then Some DirNode else bt_get (os_nodes w) cs)"
    using make_dirs_ok[OF ok] by blast
  have "make_parent (path_join (ls_base_path self) p) w = (Inr (), w')"
    using w'(1) key(3,5) by (simp add: make_parent_def create_dir_all_def)
  moreover have "with_dirs ?f w w'" using w'(2,3) unfolding with_dirs_def set by simp
  ultimately show thesis by (rule that)
qed

lemma prefix_of_take: "k < length f \<Longrightarrow> take (length g) (take k f) = g \<Longrightarrow> take (length g) f = g \<and> length g < length f"
  by (metis length_take min.strict_coboundedI2 min_def nat_le_linear not_less take_all take_take)

lemma with_dirs_inv:
  assumes "local_inv self K w" "p \<in> K" "with_dirs (file_of_key self p) w w'"
  shows "local_inv self K w'" "local_contents self w' = local_contents self w" "is_dir w' (butlast (file_of_key self p))"
proof -
  let ?f = "file_of_key self p"
  have get: "bt_get (os_nodes w') cs = (if (\<exists>k. 0 < k \<and> k < length ?f \<and> cs = take k ?f) \<and> bt_get (os_nodes w) cs = None
      then Some DirNode else bt_get (os_nodes w) cs)" for cs using assms(3) by (simp add: with_dirs_def)
  have fl: "is_file w' cs = is_file w cs" for cs by (auto simp: is_file_def get split: option.splits)
  have not_above: "\<not> (k < length ?f \<and> take (length (file_of_key self q)) (take k ?f) = file_of_key self q)" if "q \<in> K" for q k
  proof
    assume "k < length ?f \<and> take (length (file_of_key self q)) (take k ?f) = file_of_key self q"
    then have "take (length (file_of_key self q)) ?f = file_of_key self q" "length (file_of_key self q) < length ?f"
      using prefix_of_take by blast+
    then show False using file_of_key_apart[OF local_invD(1)[OF assms(1,2)] that assms(2)] by auto
  qed
  have same: "bt_get (os_nodes w') (file_of_key self q) = bt_get (os_nodes w) (file_of_key self q)" if "q \<in> K" for q
  proof -
    have "\<not> (\<exists>k. 0 < k \<and> k < length ?f \<and> file_of_key self q = take k ?f)" using not_above[OF that] by (metis order_refl take_all)
    then show ?thesis unfolding get by simp
  qed
  show "local_inv self K w'"
    unfolding local_inv_def
  proof (intro conjI ballI allI impI, goal_cases)
    case 1 show ?case by (rule local_invD(1)[OF assms(1,2)])
  next
    case (2 q) then show ?case using local_invD(3)[OF assms(1) 2] by (simp add: above_file_iff fl)
  next
    case (3 q) then show ?case
      using local_invD(4)[OF assms(1) 3] same[OF 3] resolve_key(5)[OF local_invD(2)[OF assms(1) 3], of self] by (simp add: is_dir_def)
  next
    case (4 q cs) then show ?case using local_invD(5)[OF assms(1) 4(1), of cs] not_above[OF 4(1)] by (auto simp: get split: if_splits)
  qed
  show "local_contents self w' = local_contents self w"
  proof
    fix q
    show "local_contents self w' q = local_contents self w q"
      by (auto simp: local_contents_def get split: option.splits)
  qed
  show "is_dir w' (butlast ?f)"
  proof (cases "butlast ?f = []")
    case False
    then have l: "0 < length ?f - 1" "length ?f - 1 < length ?f" by (cases ?f; auto)+
    have "\<not> is_file w (butlast ?f)"
      using local_invD(3)[OF assms(1,2)] l unfolding above_file_iff by (auto simp: butlast_conv_take)
    then show ?thesis using l get[of "butlast ?f"]
      by (auto simp: is_dir_def is_file_def butlast_conv_take split: option.splits fs_node.splits if_splits)
  qed (simp add: is_dir_def)
qed

text \<open>Setting the file of a key, and removing it.\<close>

lemma set_file_inv:
  assumes "local_inv self K w" "p \<in> K"
  shows "local_inv self K (set_node (file_of_key self p) (FileNode c) w)"
    "q \<in> K \<Longrightarrow> local_contents self (set_node (file_of_key self p) (FileNode c) w) q = (if q = p then Some c else local_contents self w q)"
proof -
  let ?f = "file_of_key self p" and ?w = "set_node (file_of_key self p) (FileNode c) w"
  note apart = file_of_key_apart[OF local_invD(1)[OF assms]]
  have get: "bt_get (os_nodes ?w) cs = (if cs = ?f then Some (FileNode c) else bt_get (os_nodes w) cs)" for cs by (simp add: set_node_def)
  show "local_inv self K ?w"
    unfolding local_inv_def
  proof (intro conjI ballI allI impI, goal_cases)
    case 1 show ?case by (rule local_invD(1)[OF assms])
  next
    case (2 q)
    have "take k (file_of_key self q) \<noteq> ?f" if "k < length (file_of_key self q)" for k
      using apart[OF assms(2) 2, of self] that by (metis length_take less_imp_le_nat min.absorb2 nat_less_le take_all_iff)
    then show ?case using local_invD(3)[OF assms(1) 2] by (auto simp: above_file_iff is_file_def get)
  next
    case (3 q)
    then show ?case using local_invD(4)[OF assms(1) 3] resolve_key(5)[OF local_invD(2)[OF assms(1) 3], of self] by (simp add: is_dir_def get)
  next
    case (4 q cs)
    then show ?case using local_invD(5)[OF assms(1) 4(1), of cs] apart[OF 4(1) assms(2), of self] by (auto simp: get split: if_splits)
  qed
  show "local_contents self ?w q = (if q = p then Some c else local_contents self w q)" if "q \<in> K"
    using file_of_key_inj[OF local_invD(1)[OF assms] assms(2) that, of self] by (auto simp: local_contents_def get)
qed

lemma remove_file_inv:
  assumes "local_inv self K w" "p \<in> K" and get: "\<And>cs. bt_get (os_nodes w') cs = (if cs = file_of_key self p then None else bt_get (os_nodes w) cs)"
  shows "local_inv self K w'" "q \<in> K \<Longrightarrow> local_contents self w' q = (if q = p then None else local_contents self w q)"
proof -
  show "local_inv self K w'"
    unfolding local_inv_def
  proof (intro conjI ballI allI impI, goal_cases)
    case 1 show ?case by (rule local_invD(1)[OF assms(1,2)])
  next
    case (2 q) then show ?case using local_invD(3)[OF assms(1) 2] by (auto simp: above_file_iff is_file_def get split: if_splits)
  next
    case (3 q)
    then show ?case using local_invD(4)[OF assms(1) 3] resolve_key(5)[OF local_invD(2)[OF assms(1) 3], of self] by (simp add: is_dir_def get)
  next
    case (4 q cs)
    then show ?case using local_invD(5)[OF assms(1) 4(1), of cs] by (auto simp: get split: if_splits)
  qed
  show "local_contents self w' q = (if q = p then None else local_contents self w q)" if "q \<in> K"
    using file_of_key_inj[OF local_invD(1)[OF assms(1,2)] assms(2) that, of self] by (auto simp: local_contents_def get)
qed

text \<open>Creating the file of a key once its directory exists.\<close>

lemma os_create_key:
  assumes "local_inv self K w" "p \<in> K" "is_dir w (butlast (file_of_key self p))"
  shows "os_create (path_join (ls_base_path self) p) w = (Inr (), set_node (file_of_key self p) (FileNode []) w)"
  using os_stat_key[OF assms(1,2)] resolve_key[OF local_invD(2)[OF assms(1,2)], of self] assms(3)
  by (auto simp: os_create_def Let_def split: option.splits)

lemma create_key:
  assumes "local_inv self K w" "p \<in> K"
  obtains w' where "act_bind (make_parent (path_join (ls_base_path self) p)) (\<lambda>_. act_bind (os_create (path_join (ls_base_path self) p)) k) w = k () w'"
    "local_inv self K w'" "bt_get (os_nodes w') (file_of_key self p) = Some (FileNode [])"
    "\<And>q. q \<in> K \<Longrightarrow> local_contents self w' q = (if q = p then Some [] else local_contents self w q)"
proof -
  obtain w1 where w1: "make_parent (path_join (ls_base_path self) p) w = (Inr (), w1)" "with_dirs (file_of_key self p) w w1"
    by (rule make_parent_key[OF assms])
  note d = with_dirs_inv[OF assms w1(2)]
  show thesis
    by (rule that[OF _ set_file_inv(1)[OF d(1) assms(2), of "[]"]])
      (use w1(1) os_create_key[OF d(1) assms(2) d(3)] set_file_inv(2)[OF d(1) assms(2)] d(2) in \<open>auto simp: set_node_def\<close>)
qed

lemma os_append_key:
  assumes "local_inv self K w" "p \<in> K" "bt_get (os_nodes w) (file_of_key self p) = Some (FileNode c)"
  shows "os_append (path_join (ls_base_path self) p) bs w = set_node (file_of_key self p) (FileNode (c @ bs)) w"
  using assms(3) resolve_key(3)[OF local_invD(2)[OF assms(1,2)], of self] by (simp add: os_append_def)

lemma copy_stream_key:
  assumes "local_inv self K w" "p \<in> K" "bt_get (os_nodes w) (file_of_key self p) = Some (FileNode c)"
    and "copy_stream (path_join (ls_base_path self) p) st w = (r, w')"
  shows "local_inv self K w' \<and> (\<forall>q \<in> K. q \<noteq> p \<longrightarrow> local_contents self w' q = local_contents self w q)
    \<and> (is_ok r \<longrightarrow> (\<exists>cs. st = map Inr cs \<and> local_contents self w' p = Some (c @ concat cs))) \<and> ((\<exists>cs. st = map Inr cs) \<longrightarrow> is_ok r)"
  using assms
proof (induction "path_join (ls_base_path self) p" st w arbitrary: c rule: copy_stream.induct)
  case (1 w)
  then show ?case by (auto simp: local_contents_def)
next
  case (3 d st w)
  let ?w = "set_node (file_of_key self p) (FileNode (c @ d)) w"
  have app: "os_append (path_join (ls_base_path self) p) d w = ?w" by (rule os_append_key[OF 3(2-4)])
  note s = set_file_inv[OF 3(2,3), where c = "c @ d"]
  have "bt_get (os_nodes ?w) (file_of_key self p) = Some (FileNode (c @ d))" by (simp add: set_node_def)
  from 3(1)[OF _ 3(3)] this s(1) 3(5) app
  have ih: "local_inv self K w' \<and> (\<forall>q \<in> K. q \<noteq> p \<longrightarrow> local_contents self w' q = local_contents self ?w q)
    \<and> (is_ok r \<longrightarrow> (\<exists>cs. st = map Inr cs \<and> local_contents self w' p = Some ((c @ d) @ concat cs))) \<and> ((\<exists>cs. st = map Inr cs) \<longrightarrow> is_ok r)"
    by (metis copy_stream.simps(3))
  then have "\<exists>cs. Inr d # st = map Inr cs \<and> local_contents self w' p = Some (c @ concat cs)" if ok: "is_ok r"
    using ok by (elim conjE impE exE) (auto intro!: exI[of _ "d # _"])
  moreover have "\<forall>q \<in> K. q \<noteq> p \<longrightarrow> local_contents self w' q = local_contents self w q" using ih s(2) by auto
  ultimately show ?case using ih by auto
qed auto

lemma filter_single_key: "distinct (map fst xs) \<Longrightarrow> (k, v) \<in> set xs \<Longrightarrow> Q (k, v) \<Longrightarrow> (\<And>x. x \<in> set xs \<Longrightarrow> Q x \<Longrightarrow> fst x = k) \<Longrightarrow> filter Q xs = [(k, v)]"
proof (induction xs)
  case (Cons x xs)
  show ?case
  proof (cases "x = (k, v)")
    case True
    have "\<not> Q y" if "y \<in> set xs" for y using Cons.prems(1,4) that True by (metis fst_conv image_eqI list.set_map distinct.simps(2) list.map(2) list.set_intros(2))
    then show ?thesis using True Cons.prems(3) by simp
  next
    case False
    then have "(k, v) \<in> set xs" using Cons.prems(2) by auto
    moreover from this have "fst x \<noteq> k" using Cons.prems(1) by (metis distinct.simps(2) fst_conv image_eqI list.map(2) list.set_map)
    moreover have "Q x \<Longrightarrow> fst x = k" using Cons.prems(4)[of x] by simp
    ultimately have "\<not> Q x" "(k, v) \<in> set xs" by auto
    then show ?thesis using Cons.IH Cons.prems by auto
  qed
qed simp

lemma move_file:
  assumes "local_inv self K w" "p \<in> K" "bt_get (os_nodes w) (file_of_key self p) = Some n"
  shows "move_node (file_of_key self p) f w = w\<lparr>os_nodes := bt_insert f n (bt_remove (file_of_key self p) (os_nodes w))\<rparr>"
proof -
  have "filter (\<lambda>(cs, _). take (length (file_of_key self p)) cs = file_of_key self p) (bt_entries (os_nodes w)) = [(file_of_key self p, n)]"
  proof (rule filter_single_key)
    show "distinct (map fst (bt_entries (os_nodes w)))" using bt_keys_distinct[of "os_nodes w"] by (simp add: bt_keys_def)
    show "(file_of_key self p, n) \<in> set (bt_entries (os_nodes w))" using assms(3) by (simp add: bt_get_Some_iff)
    fix x assume "x \<in> set (bt_entries (os_nodes w))" "case x of (cs, _) \<Rightarrow> take (length (file_of_key self p)) cs = file_of_key self p"
    moreover from this(1) have "bt_get (os_nodes w) (fst x) = Some (snd x)" by (simp add: bt_get_Some_iff)
    ultimately show "fst x = file_of_key self p" using local_invD(5)[OF assms(1,2), of "fst x"] by (simp add: case_prod_beta)
  qed simp
  then show ?thesis by (simp add: move_node_def Let_def)
qed

lemma rename_key:
  assumes inv: "local_inv self K w" and keys: "p \<in> K" "q \<in> K" "p \<noteq> q" and run: "Local_rename self p q w = (r, w')"
  shows "local_inv self K w' \<and> (\<forall>x \<in> K. x \<noteq> p \<longrightarrow> x \<noteq> q \<longrightarrow> local_contents self w' x = local_contents self w x)
    \<and> (is_ok r \<longleftrightarrow> local_contents self w p \<noteq> None)
    \<and> (if is_ok r then local_contents self w' q = local_contents self w p \<and> local_contents self w' p = None
       else local_contents self w' = local_contents self w)"
proof -
  obtain w1 where w1: "make_parent (path_join (ls_base_path self) q) w = (Inr (), w1)" "with_dirs (file_of_key self q) w w1"
    by (rule make_parent_key[OF inv keys(2)])
  note d = with_dirs_inv[OF inv keys(2) w1(2)]
  note rp = resolve_key[OF local_invD(2)[OF inv keys(1)], of self] and rq = resolve_key[OF local_invD(2)[OF inv keys(2)], of self]
  have run: "os_rename (path_join (ls_base_path self) p) (path_join (ls_base_path self) q) w1 = (r, w')"
    using run rp(1) rq(1) w1(1) by (simp add: Local_rename_def act_bind_def)
  show ?thesis
  proof (cases "local_contents self w p")
    case None
    then show ?thesis using run os_stat_key[OF d(1) keys(1)] d by (auto simp: os_rename_def Let_def)
  next
    case (Some c)
    then have get: "bt_get (os_nodes w1) (file_of_key self p) = Some (FileNode c)"
      using d(2) by (auto simp: local_contents_def split: option.splits fs_node.splits dest: fun_cong[of _ _ p])
    define w2 where "w2 = w1\<lparr>os_nodes := bt_remove (file_of_key self p) (os_nodes w1)\<rparr>"
    have w': "r = Inr ()" "w' = set_node (file_of_key self q) (FileNode c) w2"
      using run os_stat_key[OF d(1) keys(1)] Some d file_of_key_inj[OF local_invD(1)[OF inv keys(1)] keys(1,2), of self] keys(3)
        local_invD(3,4)[OF d(1) keys(2)] move_file[OF d(1) keys(1) get] rp rq
      by (auto simp: os_rename_def Let_def w2_def set_node_def is_dir_def)
    have rem: "local_inv self K w2" "\<And>x. x \<in> K \<Longrightarrow> local_contents self w2 x = (if x = p then None else local_contents self w1 x)"
      using remove_file_inv[OF d(1) keys(1), of w2] by (auto simp: w2_def)
    show ?thesis using set_file_inv[OF rem(1) keys(2)] rem(2) keys d(2) w' Some by simp
  qed
qed

lemma Local_read_slice:
  assumes "local_inv self K w" "p \<in> K"
  shows "Local_open_read_bytes self p off len w = (case local_contents self w p of
      None \<Rightarrow> Inl (Io NotFound (path_join (ls_base_path self) p)) | Some c \<Rightarrow> Inr (slice_of off len c))"
    and "Local_open_read_stream self p off len w = (case local_contents self w p of
      None \<Rightarrow> Inl (Io NotFound (path_join (ls_base_path self) p))
    | Some c \<Rightarrow> if unat off \<ge> 2 ^ 63 then Inl (Io OtherKind ''Invalid argument'') else Inr (if slice_of off len c = [] then [] else [Inr (slice_of off len c)]))"
    and "Local_exists self p w = Inr (local_contents self w p \<noteq> None)"
    and "Local_size self p w = (case local_contents self w p of
      None \<Rightarrow> Inl (Io NotFound (path_join (ls_base_path self) p)) | Some c \<Rightarrow> Inr (of_nat (length c)))"
  using os_stat_key[OF assms] resolve_key(1)[OF local_invD(2)[OF assms], of self]
  by (auto simp: Local_open_read_bytes_def Local_open_read_stream_def Local_exists_def Local_size_def slice_of_def Let_def min_def
      split: option.splits)

lemma delete_key:
  assumes "local_inv self K w" "p \<in> K" "Local_delete self p w = (r, w')"
  shows "r = Inr () \<and> local_inv self K w' \<and> (\<forall>q \<in> K. local_contents self w' q = (if q = p then None else local_contents self w q))"
proof -
  note key = resolve_key[OF local_invD(2)[OF assms(1,2)], of self]
  show ?thesis
  proof (cases "local_contents self w p")
    case None
    then show ?thesis using assms os_stat_key[OF assms(1,2)] key by (auto simp: Local_delete_def act_bind_def)
  next
    case (Some c)
    then have "r = Inr ()" "w' = w\<lparr>os_nodes := bt_remove (file_of_key self p) (os_nodes w)\<rparr>"
      using assms os_stat_key[OF assms(1,2)] key by (auto simp: Local_delete_def act_bind_def os_remove_file_def)
    then show ?thesis using remove_file_inv[OF assms(1,2), of w'] by simp
  qed
qed

lemma put_bytes_key:
  assumes "local_inv self K w" "p \<in> K" "Local_put_bytes self p c w = (r, w')"
  shows "r = Inr () \<and> local_inv self K w' \<and> (\<forall>q \<in> K. local_contents self w' q = (if q = p then Some c else local_contents self w q))"
proof -
  note key = resolve_key[OF local_invD(2)[OF assms(1,2)], of self]
  have start: "Local_put_bytes self p c w = act_bind (make_parent (path_join (ls_base_path self) p)) (\<lambda>_.
      act_bind (os_create (path_join (ls_base_path self) p)) (\<lambda>_ w. (Inr (), os_append (path_join (ls_base_path self) p) c w))) w"
    using key(1) by (simp add: Local_put_bytes_def)
  obtain w1 where w1: "Local_put_bytes self p c w = (Inr (), os_append (path_join (ls_base_path self) p) c w1)" "local_inv self K w1"
    "bt_get (os_nodes w1) (file_of_key self p) = Some (FileNode [])"
    "\<And>q. q \<in> K \<Longrightarrow> local_contents self w1 q = (if q = p then Some [] else local_contents self w q)"
    using create_key[OF assms(1,2), where k = "\<lambda>_ w. (Inr (), os_append (path_join (ls_base_path self) p) c w)" and thesis = thesis, folded start] by blast
  then show ?thesis
    using assms(3) os_append_key[OF w1(2) assms(2) w1(3), of c] set_file_inv[OF w1(2) assms(2)] by simp
qed

lemma put_stream_key:
  assumes "local_inv self K w" "p \<in> K" "Local_put_stream self p st w = (r, w')"
  shows "local_inv self K w' \<and> (\<forall>q \<in> K. q \<noteq> p \<longrightarrow> local_contents self w' q = local_contents self w q)
    \<and> (is_ok r \<longrightarrow> (\<exists>cs. st = map Inr cs \<and> local_contents self w' p = Some (concat cs))) \<and> ((\<exists>cs. st = map Inr cs) \<longrightarrow> is_ok r)"
proof -
  note key = resolve_key[OF local_invD(2)[OF assms(1,2)], of self]
  have start: "Local_put_stream self p st w = act_bind (make_parent (path_join (ls_base_path self) p)) (\<lambda>_.
      act_bind (os_create (path_join (ls_base_path self) p)) (\<lambda>_. copy_stream (path_join (ls_base_path self) p) st)) w"
    using key(1) by (simp add: Local_put_stream_def)
  obtain w1 where w1: "Local_put_stream self p st w = copy_stream (path_join (ls_base_path self) p) st w1" "local_inv self K w1"
    "bt_get (os_nodes w1) (file_of_key self p) = Some (FileNode [])"
    "\<And>q. q \<in> K \<Longrightarrow> local_contents self w1 q = (if q = p then Some [] else local_contents self w q)"
    using create_key[OF assms(1,2), where k = "\<lambda>_. copy_stream (path_join (ls_base_path self) p) st" and thesis = thesis, folded start] by blast
  have "copy_stream (path_join (ls_base_path self) p) st w1 = (r, w')" using w1(1) assms(3) by simp
  from copy_stream_key[OF w1(2) assms(2) w1(3) this] show ?thesis using w1(4) by auto
qed

interpretation local_dir: reliable_store "LocalStore self" "local_contents self" "local_inv self K" "\<lambda>p. p \<in> K"
  for self K
proof (standard, goal_cases)
  case (3 w p off len st cs)
  then show ?case by (auto simp: LocalStore_def Local_read_slice try_collect_Inr_iff split: option.splits if_splits)
next
  case (5 w p c r w')
  then show ?case using put_bytes_key[OF 5(1,2)] by (auto simp: LocalStore_def Local_features_def)
next
  case (6 w p st r w')
  then show ?case using put_stream_key[OF 6(1,2)] by (simp add: LocalStore_def Local_features_def)
next
  case (7 w p r w')
  then show ?case using delete_key[OF 7(1,2)] by (auto simp: LocalStore_def)
next
  case (8 w p q r w')
  then show ?case using rename_key[OF 8(1-4)] by (auto simp: LocalStore_def split: if_splits)
next
  case (12 w p c off len)
  then show ?case
    by (auto simp: LocalStore_def Local_read_slice intro: exI[of _ "[]"] exI[of _ "[slice_of off len c]"])
next
  case (14 w p c)
  then show ?case using put_bytes_key[OF 14, of c] by (simp add: LocalStore_def is_ok_iff) (metis prod.collapse)
next
  case (15 w p cs)
  then show ?case using put_stream_key[OF 15] by (simp add: LocalStore_def) (metis prod.collapse)
next
  case (16 w p)
  then show ?case using delete_key[OF 16] by (simp add: LocalStore_def is_ok_iff) (metis prod.collapse)
next
  case (17 w p q)
  then show ?case using rename_key[OF 17(1-4)] by (simp add: LocalStore_def) (metis prod.collapse)
qed (auto simp: LocalStore_def Local_read_slice split: option.splits)

section \<open>A directory is a map\<close>

text \<open>The operations of a store and their answers; the text of an error is left out.\<close>

datatype store_cmd =
    CmdPut string bytes
  | CmdPutStream string "bytes list"
  | CmdExists string
  | CmdRead string u64 "u64 option"
  | CmdStream string u64 "u64 option"
  | CmdSize string
  | CmdDelete string
  | CmdRename string string

datatype store_ans = AnsFailed | AnsDone | AnsBool bool | AnsData bytes | AnsLen u64

definition ans_of :: "('a \<Rightarrow> store_ans) \<Rightarrow> error + 'a \<Rightarrow> store_ans" where
  "ans_of f r = (case r of Inl _ \<Rightarrow> AnsFailed | Inr x \<Rightarrow> f x)"

fun store_step :: "'w store \<Rightarrow> store_cmd \<Rightarrow> 'w \<Rightarrow> store_ans \<times> 'w" where
  "store_step S (CmdPut p c) w = apfst (ans_of (\<lambda>_. AnsDone)) (st_put_bytes S p c w)"
| "store_step S (CmdPutStream p cs) w = apfst (ans_of (\<lambda>_. AnsDone)) (st_put_stream S p (map Inr cs) w)"
| "store_step S (CmdExists p) w = (ans_of AnsBool (st_exists S p w), w)"
| "store_step S (CmdRead p off len) w = (ans_of AnsData (st_open_read_bytes S p off len w), w)"
| "store_step S (CmdStream p off len) w =
    (ans_of (\<lambda>st. ans_of (\<lambda>cs. AnsData (concat cs)) (try_collect st)) (st_open_read_stream S p off len w), w)"
| "store_step S (CmdSize p) w = (ans_of AnsLen (st_size S p w), w)"
| "store_step S (CmdDelete p) w = apfst (ans_of (\<lambda>_. AnsDone)) (st_delete S p w)"
| "store_step S (CmdRename p q) w = apfst (ans_of (\<lambda>_. AnsDone)) (st_rename S p q w)"

definition found :: "(bytes \<Rightarrow> store_ans) \<Rightarrow> bytes option \<Rightarrow> store_ans" where
  "found f v = (case v of None \<Rightarrow> AnsFailed | Some c \<Rightarrow> f c)"

fun map_store_step :: "store_cmd \<Rightarrow> (string \<Rightarrow> bytes option) \<Rightarrow> store_ans \<times> (string \<Rightarrow> bytes option)" where
  "map_store_step (CmdPut p c) m = (AnsDone, m(p \<mapsto> c))"
| "map_store_step (CmdPutStream p cs) m = (AnsDone, m(p \<mapsto> concat cs))"
| "map_store_step (CmdExists p) m = (AnsBool (m p \<noteq> None), m)"
| "map_store_step (CmdRead p off len) m = (found (\<lambda>c. AnsData (slice_of off len c)) (m p), m)"
| "map_store_step (CmdStream p off len) m = (if unat off \<ge> 2 ^ 63 then AnsFailed else found (\<lambda>c. AnsData (slice_of off len c)) (m p), m)"
| "map_store_step (CmdSize p) m = (found (\<lambda>c. AnsLen (of_nat (length c))) (m p), m)"
| "map_store_step (CmdDelete p) m = (AnsDone, m(p := None))"
| "map_store_step (CmdRename p q) m = (case m p of None \<Rightarrow> (AnsFailed, m) | Some c \<Rightarrow> (AnsDone, m(p := None, q \<mapsto> c)))"

fun cmd_keys_in :: "string set \<Rightarrow> store_cmd \<Rightarrow> bool" where
  "cmd_keys_in K (CmdPut p c) = (p \<in> K)"
| "cmd_keys_in K (CmdPutStream p cs) = (p \<in> K)"
| "cmd_keys_in K (CmdExists p) = (p \<in> K)"
| "cmd_keys_in K (CmdRead p off len) = (p \<in> K)"
| "cmd_keys_in K (CmdStream p off len) = (p \<in> K)"
| "cmd_keys_in K (CmdSize p) = (p \<in> K)"
| "cmd_keys_in K (CmdDelete p) = (p \<in> K)"
| "cmd_keys_in K (CmdRename p q) = (p \<in> K \<and> q \<in> K \<and> p \<noteq> q)"

lemma local_step_is_map:
  assumes "local_inv self K w" "cmd_keys_in K c" "\<forall>p \<in> K. m p = local_contents self w p"
    and "store_step (LocalStore self) c w = (r, w')"
  shows "r = fst (map_store_step c m) \<and> local_inv self K w' \<and> (\<forall>p \<in> K. snd (map_store_step c m) p = local_contents self w' p)"
proof (cases c)
  case (CmdPut p d)
  then obtain q where q: "Local_put_bytes self p d w = (q, w')" "r = ans_of (\<lambda>_. AnsDone) q"
    using assms(4) by (cases "Local_put_bytes self p d w") (auto simp: LocalStore_def)
  then show ?thesis using put_bytes_key[OF assms(1) _ q(1)] CmdPut assms(2,3) by (auto simp: ans_of_def)
next
  case (CmdPutStream p cs)
  then obtain q where q: "Local_put_stream self p (map Inr cs) w = (q, w')" "r = ans_of (\<lambda>_. AnsDone) q"
    using assms(4) by (cases "Local_put_stream self p (map Inr cs) w") (auto simp: LocalStore_def)
  have p: "p \<in> K" using CmdPutStream assms(2) by simp
  have "map Inr cs = map (Inr :: bytes \<Rightarrow> chunk) ds \<Longrightarrow> cs = ds" for ds by (metis inj_Inr inj_map_eq_map)
  then show ?thesis using put_stream_key[OF assms(1) p q(1)] q(2) CmdPutStream assms(3)
    by (auto simp: ans_of_def is_ok_iff)
next
  case (CmdDelete p)
  then obtain q where q: "Local_delete self p w = (q, w')" "r = ans_of (\<lambda>_. AnsDone) q"
    using assms(4) by (cases "Local_delete self p w") (auto simp: LocalStore_def)
  then show ?thesis using delete_key[OF assms(1) _ q(1)] CmdDelete assms(2,3) by (auto simp: ans_of_def)
next
  case (CmdRename p p')
  then obtain q where q: "Local_rename self p p' w = (q, w')" "r = ans_of (\<lambda>_. AnsDone) q"
    using assms(4) by (cases "Local_rename self p p' w") (auto simp: LocalStore_def)
  have k: "p \<in> K" "p' \<in> K" "p \<noteq> p'" using CmdRename assms(2) by simp_all
  note n = rename_key[OF assms(1) k q(1)]
  show ?thesis
  proof (cases "local_contents self w p")
    case None
    then have "\<not> is_ok q" using n by simp
    then have "local_contents self w' x = local_contents self w x" if "x \<in> K" for x
      using that n by auto
    then show ?thesis using None n CmdRename assms(3) q(2) k \<open>\<not> is_ok q\<close> by (auto simp: ans_of_def is_ok_def split: sum.splits)
  next
    case (Some d)
    then show ?thesis using n CmdRename assms(3) q(2) k by (auto simp: ans_of_def is_ok_iff)
  qed
qed (use assms in \<open>auto simp: LocalStore_def Local_read_slice ans_of_def found_def split: option.splits\<close>)

text \<open>The keys of blobs, outboards and temporary objects are apart: base32 writes neither dots nor slashes.\<close>

definition plain_name :: "string \<Rightarrow> bool" where
  "plain_name s \<longleftrightarrow> s \<noteq> [] \<and> CHR ''/'' \<notin> set s \<and> CHR ''.'' \<notin> set s"

definition b32_plain :: "path_codec \<Rightarrow> bool" where
  "b32_plain codec \<longleftrightarrow> (\<forall>h :: hash. plain_name (b32_encode codec (arr_list h)) \<and> 6 < length (b32_encode codec (arr_list h)))"

definition blob_keys :: "path_codec \<Rightarrow> string set" where
  "blob_keys codec = range (\<lambda>h. blob_path_for_hash codec h Local_features) \<union> range (\<lambda>h. obao6_path_for_hash codec h Local_features)
    \<union> tmp_path ` {u. plain_name u}"

definition hash_parts :: "path_codec \<Rightarrow> hash \<Rightarrow> string list" where
  "hash_parts codec h = (let s = b32_encode codec (arr_list h) in [str_range 0 2 s, str_range 2 4 s, str_range 4 6 s, drop 6 s])"

lemma split_slash_plain: "CHR ''/'' \<notin> set s \<Longrightarrow> split_slash acc s = [rev acc @ s]"
  by (induction s arbitrary: acc) auto

lemma split_join: "cs \<noteq> [] \<Longrightarrow> \<forall>c \<in> set cs. CHR ''/'' \<notin> set c \<Longrightarrow> split_slash [] (join_slash cs) = cs"
proof (induction cs rule: join_slash.induct)
  case (3 c d cs)
  then show ?case using split_slash_append[of "[]" c "join_slash (d # cs)"] by (simp add: split_slash_plain)
qed (simp_all add: split_slash_plain)

lemma no_dots: "CHR ''.'' \<notin> set p \<Longrightarrow> \<not> contains_dots p"
  by (induction p rule: contains_dots.induct) auto

lemma plain_parts:
  assumes "cs \<noteq> []" "\<forall>c \<in> set cs. plain_name c" "CHR ''/'' \<notin> set t" "t \<noteq> []" "t \<noteq> ''.''"
  shows "os_components (join_slash (t # cs)) = t # cs" "\<not> names_dir (join_slash (t # cs))"
proof -
  have sp: "split_slash [] (join_slash (t # cs)) = t # cs" using assms by (intro split_join) (auto simp: plain_name_def)
  have ok: "c \<noteq> [] \<and> c \<noteq> ''.''" if "c \<in> set cs" for c using assms(2) that by (auto simp: plain_name_def)
  show "os_components (join_slash (t # cs)) = t # cs" unfolding os_components_def sp using ok assms by (intro filter_True) auto
  have "last cs \<in> set cs" using assms(1) by simp
  then show "\<not> names_dir (join_slash (t # cs))" unfolding names_dir_def sp using ok[of "last cs"] assms(1) by simp
qed

lemma hash_parts_plain:
  assumes "b32_plain codec"
  shows "\<forall>c \<in> set (hash_parts codec h). plain_name c" "length (hash_parts codec h) = 4"
proof -
  let ?s = "b32_encode codec (arr_list h)"
  have s: "plain_name ?s" "6 < length ?s" using assms by (auto simp: b32_plain_def)
  then have "CHR ''/'' \<notin> set (take i (drop j ?s))" "CHR ''.'' \<notin> set (take i (drop j ?s))" for i j
    by (auto simp: plain_name_def dest!: in_set_takeD in_set_dropD)
  moreover have "CHR ''/'' \<notin> set (take 2 ?s)" "CHR ''.'' \<notin> set (take 2 ?s)" using s(1) by (auto simp: plain_name_def dest!: in_set_takeD)
  moreover have "CHR ''/'' \<notin> set (drop 6 ?s)" "CHR ''.'' \<notin> set (drop 6 ?s)" using s(1) by (auto simp: plain_name_def dest!: in_set_dropD)
  ultimately show "\<forall>c \<in> set (hash_parts codec h). plain_name c"
    using s(2) by (auto simp: hash_parts_def Let_def plain_name_def str_range_def)
  show "length (hash_parts codec h) = 4" by (simp add: hash_parts_def Let_def)
qed

lemma key_paths:
  "blob_path_for_hash codec h Local_features = join_slash (''blob3'' # hash_parts codec h)"
  "obao6_path_for_hash codec h Local_features = join_slash (''obao6'' # hash_parts codec h)"
  "tmp_path u = join_slash [''.tmp'', u]"
  by (simp_all add: blob_path_for_hash_def obao6_path_for_hash_def path_for_hash_def Local_features_def hash_parts_def Let_def Hash_as_bytes_def tmp_path_def)

lemma plain_join: "\<forall>c \<in> set cs. plain_name c \<Longrightarrow> CHR ''.'' \<notin> set (join_slash cs)"
  by (induction cs rule: join_slash.induct) (auto simp: plain_name_def)

lemma blob_keys_apart:
  assumes "b32_plain codec"
  shows "apart_keys (blob_keys codec)"
proof -
  note hp = hash_parts_plain[OF assms]
  have ne: "hash_parts codec h \<noteq> []" for h using hp(2)[of h] by auto
  have comps: "os_components (blob_path_for_hash codec h Local_features) = ''blob3'' # hash_parts codec h"
    "os_components (obao6_path_for_hash codec h Local_features) = ''obao6'' # hash_parts codec h"
    "plain_name u \<Longrightarrow> os_components (tmp_path u) = [''.tmp'', u]" for h u
    using plain_parts(1)[OF ne hp(1)] plain_parts(1)[of "[u]" "''.tmp''"] by (simp_all add: key_paths)
  have keys: "key_ok (blob_path_for_hash codec h Local_features)" "key_ok (obao6_path_for_hash codec h Local_features)" for h
  proof -
    have "CHR ''.'' \<notin> set (join_slash (t # hash_parts codec h))" if "plain_name t" for t
      using plain_join[of "t # hash_parts codec h"] hp(1) that by simp
    moreover have "plain_name ''blob3''" "plain_name ''obao6''" by (simp_all add: plain_name_def)
    ultimately show "key_ok (blob_path_for_hash codec h Local_features)" "key_ok (obao6_path_for_hash codec h Local_features)"
      using comps plain_parts(2)[OF ne hp(1)] ne[of h] no_dots by (auto simp: key_ok_def key_paths neq_Nil_conv)
  qed
  have tmp: "key_ok (tmp_path u)" if "plain_name u" for u
  proof -
    have "\<not> contains_dots (''tmp/'' @ u)" using that by (intro no_dots) (auto simp: plain_name_def)
    moreover have "\<not> names_dir (join_slash [''.tmp'', u])" using plain_parts(2)[of "[u]" "''.tmp''"] that by simp
    ultimately show ?thesis using comps(3)[OF that] by (simp add: key_ok_def key_paths)
  qed
  show ?thesis
    unfolding apart_keys_def blob_keys_def
    using keys tmp comps hp(2) by (auto simp: key_paths)
qed

lemma fresh_dir_inv: "apart_keys K \<Longrightarrow> os_nodes w = bt_empty \<Longrightarrow> local_inv self K w"
  using resolve_key(5) by (auto simp: local_inv_def apart_keys_def above_file_iff is_file_def is_dir_def)

section \<open>Properties\<close>

text \<open>C10. On a directory, the local store is a map from keys to contents. For keys that are proper relative paths, none of which is
  inside another, every sequence of writes, reads of any range, size and existence queries, deletions and renamings is answered
  as by a map; a missing object is an error for reads and renamings only, and a stream from a position that no file can have is one. At the end the files of the directory are that map,
  and the directory is ready for more.\<close>

theorem local_store_is_map:
  assumes "local_inv self K w" "\<forall>c \<in> set cmds. cmd_keys_in K c" "run_ops (store_step (LocalStore self)) cmds w = (answers, w')"
  shows "answers = fst (run_ops map_store_step cmds (local_contents self w)) \<and> local_inv self K w'
    \<and> (\<forall>p \<in> K. local_contents self w' p = snd (run_ops map_store_step cmds (local_contents self w)) p)"
proof -
  have "answers = fst (run_ops map_store_step cmds m) \<and> local_inv self K w' \<and> (\<forall>p \<in> K. local_contents self w' p = snd (run_ops map_store_step cmds m) p)"
    if "local_inv self K w" "\<forall>p \<in> K. m p = local_contents self w p" "\<forall>c \<in> set cmds. cmd_keys_in K c"
      "run_ops (store_step (LocalStore self)) cmds w = (answers, w')" for m w answers
    using that
  proof (induction cmds arbitrary: m w answers)
    case (Cons c cmds)
    obtain r v where c: "store_step (LocalStore self) c w = (r, v)" by (metis prod.exhaust)
    obtain as where rest: "run_ops (store_step (LocalStore self)) cmds v = (as, w')" "answers = r # as"
      using Cons.prems(4) c by (auto split: prod.splits)
    have 1: "r = fst (map_store_step c m)" "local_inv self K v" "\<forall>p \<in> K. snd (map_store_step c m) p = local_contents self v p"
      using local_step_is_map[OF Cons.prems(1) _ Cons.prems(2) c] Cons.prems(3) by auto
    show ?case using Cons.IH[OF 1(2,3) _ rest(1)] Cons.prems(3) rest(2) 1(1) by (simp add: case_prod_beta)
  qed simp
  then show ?thesis using assms by blast
qed

definition demo_os :: os_files where
  "demo_os = \<lparr>os_nodes = bt_empty, os_dir_len = 4096\<rparr>"

lemma demo_keys_apart: "apart_keys {''a/x'', ''a/y'', ''b''}"
  by (simp add: apart_keys_def key_ok_def names_dir_def os_components_def)

theorem local_store_is_map_witness:
  "fst (run_ops (store_step (LocalStore (LocalStore_new ''/srv'')))
      [CmdPut ''a/x'' [1, 2, 3], CmdRename ''a/x'' ''b'', CmdRead ''b'' 1 (Some 5), CmdExists ''a/x'', CmdDelete ''b'', CmdSize ''b''] demo_os)
    = [AnsDone, AnsDone, AnsData [2, 3], AnsBool False, AnsDone, AnsFailed]"
proof -
  have "local_inv (LocalStore_new ''/srv'') {''a/x'', ''a/y'', ''b''} demo_os"
    by (rule fresh_dir_inv[OF demo_keys_apart]) (simp add: demo_os_def)
  from local_store_is_map[OF this, of "[CmdPut ''a/x'' [1, 2, 3], CmdRename ''a/x'' ''b'', CmdRead ''b'' 1 (Some 5), CmdExists ''a/x'',
      CmdDelete ''b'', CmdSize ''b'']"]
  show ?thesis by (simp add: prod_eq_iff found_def slice_of_def)
qed

text \<open>A blob imported into a store on a directory reads back from its file. Over the blob layer with its path scheme, the hash
  tree and the temporary names, importing any bytes succeeds and gives their hash and length, every range of the blob then reads as
  written, no other blob is touched, and the directory stays one in which the next import works. A new directory is one.\<close>

theorem local_blob_reads_back:
  assumes libs: "path_codec_ok (h_codec H)" "b32_plain (h_codec H)" "bao_ok H" "bao_total H" and u: "plain_name uuid"
    and w: "local_inv self (blob_keys (h_codec H)) w"
    and c: "blob_at H (LocalStore self) (local_contents self) w (h_blake3 H c) \<in> {None, Some c}"
  shows "\<exists>w'. BlobStore_import_bytes H (BlobStore_new (LocalStore self)) uuid c w = (Inr \<lparr>bid_hash = h_blake3 H c, bid_size = of_nat (length c)\<rparr>, w')
    \<and> local_inv self (blob_keys (h_codec H)) w'
    \<and> (\<forall>off len. BlobStore_read_as_bytes H (BlobStore_new (LocalStore self)) (h_blake3 H c) off len w' = Inr (slice_of off len c))
    \<and> (\<forall>h. h \<noteq> h_blake3 H c \<longrightarrow> blob_at H (LocalStore self) (local_contents self) w' h = blob_at H (LocalStore self) (local_contents self) w h)"
proof -
  let ?S = "LocalStore self" and ?K = "blob_keys (h_codec H)"
  have ft: "st_features ?S = Local_features" by (simp add: LocalStore_def)
  have good: "blob_path_for_hash (h_codec H) h (st_features ?S) \<in> ?K" "obao6_path_for_hash (h_codec H) h (st_features ?S) \<in> ?K"
    "tmp_path uuid \<in> ?K" for h using u by (auto simp: blob_keys_def ft)
  have sc: "store_contract ?S (local_contents self) (local_inv self ?K) (\<lambda>p. p \<in> ?K)" by (rule local_dir.store_contract_axioms)
  have fr: "outboard_frame H ?S (Some ?S) (local_contents self) (local_inv self ?K) uuid"
    by (rule local_dir.outboard_frame_same[OF libs(1) good])
  obtain r w' where i: "import_bytes H ?S (Some ?S) uuid c w = (r, w')" by (metis prod.exhaust)
  have ok: "is_ok r" using local_dir.import_bytes_total[OF good libs(1,4) _ w, where ob = "Some ?S" and c = c] i by simp
  have out: "import_outcome H ?S (local_contents self) (local_inv self ?K) c w r w'"
    by (rule local_dir.import_bytes_outcome[OF good(3,1) libs(1,3) fr w i])
  then have r: "r = Inr \<lparr>bid_hash = h_blake3 H c, bid_size = of_nat (length c)\<rparr>" and inv: "local_inv self ?K w'"
    and there: "blob_at H ?S (local_contents self) w' (h_blake3 H c) \<noteq> None"
    and blobs: "\<And>h. blob_at H ?S (local_contents self) w' h = blob_at H ?S (local_contents self) w h
      \<or> h = h_blake3 H c \<and> blob_at H ?S (local_contents self) w' h = Some c"
    using ok unfolding import_outcome_def adds_blob_def by blast+
  have c': "blob_at H ?S (local_contents self) w' (h_blake3 H c) = Some c" using blobs[of "h_blake3 H c"] there c by auto
  have "BlobStore_read_as_bytes H (BlobStore_new ?S) (h_blake3 H c) off len w' = Inr (slice_of off len c)" for off len
    using local_dir.read_total[OF inv good(1), where c = c] c' by (simp add: BlobStore_read_as_bytes_def read_as_bytes_def BlobStore_new_def blob_at_def)
  moreover have "BlobStore_import_bytes H (BlobStore_new ?S) uuid c w = (Inr \<lparr>bid_hash = h_blake3 H c, bid_size = of_nat (length c)\<rparr>, w')"
    using i r by (simp add: BlobStore_import_bytes_def BlobStore_new_def)
  ultimately show ?thesis using inv blobs by (intro exI[of _ w']) auto
qed

lemma demo_b32_plain: "b32_plain (h_codec demo_hashing)"
proof -
  have nib: "nibble_char n \<noteq> CHR ''/'' \<and> nibble_char n \<noteq> CHR ''.''" if "n < 16" for n
  proof -
    have "of_char (nibble_char n) = (97 + n :: nat)" using that by simp
    then have "(of_char (nibble_char n) :: nat) \<noteq> of_char CHR ''/''" "(of_char (nibble_char n) :: nat) \<noteq> of_char CHR ''.''" by simp_all
    then show ?thesis by auto
  qed
  have "CHR ''/'' \<notin> set (char_pairs bs) \<and> CHR ''.'' \<notin> set (char_pairs bs) \<and> length (char_pairs bs) = 2 * length bs" for bs
  proof (induction bs)
    case (Cons b bs)
    have "unat b div 16 < 16" "unat b mod 16 < 16" using unat_byte_less[of b] by simp_all
    then show ?case using Cons nib[of "unat b div 16"] nib[of "unat b mod 16"] by auto
  qed simp
  note pairs = this
  have "length (char_pairs (arr_list h)) = 64" for h :: hash using pairs[of "arr_list h"] by simp
  moreover from this have "char_pairs (arr_list h) \<noteq> []" for h :: hash by (metis list.size(3) zero_neq_numeral)
  ultimately show ?thesis using pairs by (simp add: b32_plain_def plain_name_def demo_hashing_def demo_codec_def)
qed

theorem local_blob_reads_back_witness:
  "\<exists>w'. BlobStore_import_bytes demo_hashing (BlobStore_new (LocalStore (LocalStore_new ''/srv''))) ''u'' [1, 2, 3] demo_os
      = (Inr \<lparr>bid_hash = arr32 [1, 2, 3], bid_size = 3\<rparr>, w')
    \<and> BlobStore_read_as_bytes demo_hashing (BlobStore_new (LocalStore (LocalStore_new ''/srv''))) (arr32 [1, 2, 3]) 1 None w' = Inr [2, 3]"
proof -
  have w: "local_inv (LocalStore_new ''/srv'') (blob_keys (h_codec demo_hashing)) demo_os"
    by (rule fresh_dir_inv[OF blob_keys_apart[OF demo_b32_plain]]) (simp add: demo_os_def)
  have "blob_at demo_hashing (LocalStore (LocalStore_new ''/srv'')) (local_contents (LocalStore_new ''/srv'')) demo_os (h_blake3 demo_hashing [1, 2, 3])
      \<in> {None, Some [1, 2, 3]}" by (simp add: blob_at_def local_contents_def demo_os_def)
  from local_blob_reads_back[OF demo_hashing_ok(1) demo_b32_plain demo_hashing_ok(2,3) _ w this, of "''u''"]
  obtain w' where "BlobStore_import_bytes demo_hashing (BlobStore_new (LocalStore (LocalStore_new ''/srv''))) ''u'' [1, 2, 3] demo_os
      = (Inr \<lparr>bid_hash = arr32 [1, 2, 3], bid_size = 3\<rparr>, w')"
    "BlobStore_read_as_bytes demo_hashing (BlobStore_new (LocalStore (LocalStore_new ''/srv''))) (arr32 [1, 2, 3]) 1 None w' = Inr (slice_of 1 None [1, 2, 3])"
    by (auto simp: plain_name_def)
  then show ?thesis by (auto simp: slice_of_def)
qed

end
