(* ===== verification/Importer_Local.thy ===== *)
theory Importer_Local
  imports File_World
begin

text \<open>
  Importing a directory tree of the host: \<^verbatim>\<open>importers/local/src/lib.rs\<close>. The host's answers (canonical paths, the contents of files,
  the walk of the \<^verbatim>\<open>ignore\<close> crate) are a record of parameters; what an entry of the walk says of a file and what its import reads are
  given separately, since the file may change between them. The entries are imported one after another in the order of the walk, which is
  any order; the limit on concurrent imports plays no role then.
\<close>

section \<open>The host\<close>

datatype host_type = HostFile | HostDir | HostSymlink | HostOther

record host_meta =
  hm_len :: u64
  hm_mtime :: int
  hm_mtime_nsec :: int

record walk_entry =
  we_path :: string
  we_file_type :: "host_type option"
  we_metadata :: "error + host_meta"

text \<open>\<^verbatim>\<open>WalkBuilder\<close>: a new one has all the standard filters.\<close>

record walk_builder =
  wb_path :: string
  wb_hidden :: bool
  wb_parents :: bool
  wb_ignore :: bool
  wb_git_ignore :: bool
  wb_git_global :: bool
  wb_git_exclude :: bool
  wb_custom_ignore :: "string list"
  wb_filter_entry :: "(walk_entry \<Rightarrow> bool) option"

definition WalkBuilder_new :: "string \<Rightarrow> walk_builder" where
  "WalkBuilder_new path = \<lparr>wb_path = path, wb_hidden = True, wb_parents = True, wb_ignore = True, wb_git_ignore = True,
    wb_git_global = True, wb_git_exclude = True, wb_custom_ignore = [], wb_filter_entry = None\<rparr>"

definition standard_filters :: "bool \<Rightarrow> walk_builder \<Rightarrow> walk_builder" where
  "standard_filters yes b = b\<lparr>wb_hidden := yes, wb_parents := yes, wb_ignore := yes, wb_git_ignore := yes,
    wb_git_global := yes, wb_git_exclude := yes\<rparr>"

text \<open>Opening a file gives its length and, when read, its chunks.\<close>

record host =
  ho_canonicalize :: "string \<Rightarrow> error + string"
  ho_len :: "string \<Rightarrow> error + u64"
  ho_open :: "string \<Rightarrow> error + chunk list"
  ho_walk :: "walk_builder \<Rightarrow> (error + walk_entry) list"

text \<open>\<^verbatim>\<open>read_exact\<close> of \<open>n\<close> bytes: it fails on an error or at the end of the file.\<close>

fun read_exact :: "nat \<Rightarrow> chunk list \<Rightarrow> bytes option" where
  "read_exact n [] = (if n = 0 then Some [] else None)"
| "read_exact n (Inl e # cs) = (if n = 0 then Some [] else None)"
| "read_exact n (Inr c # cs) = (if n \<le> length c then Some (take n c) else map_option ((@) c) (read_exact (n - length c) cs))"

text \<open>\<^verbatim>\<open>Path::to_str\<close>: the path when its bytes are UTF-8.\<close>

definition to_str :: "string \<Rightarrow> string option" where
  "to_str path = (if is_utf8 (map of_char path) then Some path else None)"

text \<open>\<^verbatim>\<open>Path::strip_prefix\<close> on paths without empty components.\<close>

definition is_absolute :: "string \<Rightarrow> bool" where
  "is_absolute p \<longleftrightarrow> p \<noteq> [] \<and> hd p = CHR ''/''"

definition strip_prefix :: "string \<Rightarrow> string \<Rightarrow> string option" where
  "strip_prefix base p =
    (let b = os_components base; c = os_components p
     in if is_absolute base = is_absolute p \<and> take (length b) c = b then Some (join_slash (drop (length b) c)) else None)"

text \<open>\<^verbatim>\<open>i64\<close> to \<^verbatim>\<open>u32\<close> by \<^verbatim>\<open>try_into\<close>.\<close>

definition try_u32 :: "int \<Rightarrow> error + u32" where
  "try_u32 i = (if 0 \<le> i \<and> i < 2 ^ 32 then Inr (of_int i) else Inl (Anyhow ''out of range integral type conversion attempted''))"

section \<open>The importer\<close>

record 'w local_importer =
  li_fs :: "'w fs5"
  li_blob_store :: "'w blob_store"
  li_max_concurrent_ops :: nat
  li_use_base_relative_keys :: bool
  li_ignore :: bool
  li_ignore_vcs :: bool
  li_check_cachedir_tag :: bool
  li_always_import :: bool

definition Importer_create :: "'w fs5 \<Rightarrow> 'w blob_store \<Rightarrow> nat \<Rightarrow> bool \<Rightarrow> bool \<Rightarrow> bool \<Rightarrow> bool \<Rightarrow> error + 'w local_importer" where
  "Importer_create fs blob_store max_concurrent_ops use_base_relative_keys ignore ignore_vcs check_cachedir_tag =
    Inr \<lparr>li_fs = fs, li_blob_store = blob_store, li_max_concurrent_ops = max_concurrent_ops,
      li_use_base_relative_keys = use_base_relative_keys, li_ignore = ignore, li_ignore_vcs = ignore_vcs,
      li_check_cachedir_tag = check_cachedir_tag, li_always_import = False\<rparr>"

definition set_always_import :: "bool \<Rightarrow> 'w local_importer \<Rightarrow> 'w local_importer" where
  "set_always_import always_import self = self\<lparr>li_always_import := always_import\<rparr>"

text \<open>The filter on directories that carry a cache tag.\<close>

definition cachedir_signature :: bytes where
  "cachedir_signature = map of_char ''Signature: 8a477f597d28d172789f06886806bc55''"

definition keeps_entry :: "host \<Rightarrow> walk_entry \<Rightarrow> bool" where
  "keeps_entry h entry =
    (if we_file_type entry \<noteq> Some HostDir then True
     else case ho_open h (path_join (we_path entry) ''CACHEDIR.TAG'') of
       Inl _ \<Rightarrow> True
     | Inr chunks \<Rightarrow>
        (case read_exact 43 chunks of
           None \<Rightarrow> True
         | Some buf \<Rightarrow> buf \<noteq> cachedir_signature))"

definition walk_settings :: "host \<Rightarrow> 'w local_importer \<Rightarrow> string \<Rightarrow> walk_builder" where
  "walk_settings h self path =
    (let b = standard_filters False (WalkBuilder_new path);
         b = b\<lparr>wb_hidden := True, wb_parents := True\<rparr>;
         b = (if li_ignore self then b\<lparr>wb_ignore := True, wb_custom_ignore := wb_custom_ignore b @ [''.fdignore'']\<rparr> else b);
         b = (if li_ignore_vcs self then b\<lparr>wb_git_ignore := True, wb_git_global := True, wb_git_exclude := True\<rparr> else b)
     in if li_check_cachedir_tag self then b\<lparr>wb_filter_entry := Some (keeps_entry h)\<rparr> else b)"

definition entry_key :: "'w local_importer \<Rightarrow> string \<Rightarrow> string \<Rightarrow> error + string" where
  "entry_key self path base_path =
    (if li_use_base_relative_keys self then
       (let relative_path = (case strip_prefix base_path path of Some r \<Rightarrow> r | None \<Rightarrow> path)
        in case to_str relative_path of
             None \<Rightarrow> Inl (Anyhow (''Path is not valid UTF-8: '' @ path))
           | Some s \<Rightarrow> Inr s)
     else
       (case to_str path of
          None \<Rightarrow> Inl (Anyhow (''Path is not valid UTF-8: '' @ path))
        | Some s \<Rightarrow> Inr (trim_start s)))"

text \<open>Whether a stored file differs from the host's; the second conversion is reached only when the seconds agree.\<close>

definition file_changed :: "host_meta \<Rightarrow> file_ref \<Rightarrow> error + bool" where
  "file_changed meta current =
    (let size_changed = hm_len meta \<noteq> fr_size current
     in res_bind (try_u32 (hm_mtime meta)) (\<lambda>ts.
        if fr_timestamp current \<noteq> Some ts then Inr True
        else res_bind (try_u32 (hm_mtime_nsec meta)) (\<lambda>ns.
          Inr (size_changed \<or> fr_timestamp_subsec_nanos current \<noteq> Some ns))))"

definition should_update :: "'w local_importer \<Rightarrow> host_meta \<Rightarrow> string \<Rightarrow> ('w, bool) action" where
  "should_update self meta key w =
    (if li_always_import self then (Inr True, w)
     else case FS5_file_get (li_fs self) key w of (current, w) \<Rightarrow>
       (case current of
          Some current \<Rightarrow> (file_changed meta current, w)
        | None \<Rightarrow> (Inr True, w)))"

definition act_context :: "string \<Rightarrow> ('w, 'a) action \<Rightarrow> ('w, 'a) action" where
  "act_context msg m w = (case m w of (r, w) \<Rightarrow> (map_err (\<lambda>_. Anyhow msg) r, w))"

definition process_entry ::
  "hashing \<Rightarrow> host \<Rightarrow> 'w local_importer \<Rightarrow> string \<Rightarrow> walk_entry \<Rightarrow> string \<Rightarrow> ('w, unit) action" where
  "process_entry H h self uuid entry base_path =
    (let path = we_path entry
     in act_bind (act_context (''Failed to get metadata for '' @ path) (act_lift (we_metadata entry))) (\<lambda>meta.
        act_bind (act_lift (entry_key self path base_path)) (\<lambda>key.
        act_bind (should_update self meta key) (\<lambda>update.
        if \<not> update then act_ok ()
        else
          act_bind (act_context (''Failed to import file into blob store: '' @ path)
            (BlobStore_import_file H (li_blob_store self) uuid (ho_len h path) (ho_open h path))) (\<lambda>blob_id.
          act_bind (act_lift (try_u32 (hm_mtime meta))) (\<lambda>ts.
          act_bind (act_lift (try_u32 (hm_mtime_nsec meta))) (\<lambda>ns.
          FS5_file_put (li_fs self) key (set_timestamp ts ns (FileRef_from_blob_id blob_id)))))))))"

text \<open>The entries, with the name of the temporary object of each import; what follows the first error is not imported.\<close>

fun import_entries ::
  "hashing \<Rightarrow> host \<Rightarrow> 'w local_importer \<Rightarrow> (walk_entry \<Rightarrow> string) \<Rightarrow> string \<Rightarrow> walk_entry list \<Rightarrow> ('w, unit) action" where
  "import_entries H h self uuid base_path [] = act_ok ()"
| "import_entries H h self uuid base_path (entry # entries) =
    act_bind (if we_file_type entry \<noteq> Some HostFile then act_ok () else process_entry H h self (uuid entry) entry base_path) (\<lambda>_.
    import_entries H h self uuid base_path entries)"

definition walk_oks :: "('e + 'a) list \<Rightarrow> 'a list" where
  "walk_oks rs = concat (map (\<lambda>r. case r of Inl _ \<Rightarrow> [] | Inr x \<Rightarrow> [x]) rs)"

definition import_path :: "hashing \<Rightarrow> host \<Rightarrow> 'w local_importer \<Rightarrow> (walk_entry \<Rightarrow> string) \<Rightarrow> string \<Rightarrow> ('w, unit) action" where
  "import_path H h self uuid path =
    act_bind (act_context (''Failed to canonicalize base path: '' @ path) (act_lift (ho_canonicalize h path))) (\<lambda>path.
    import_entries H h self uuid path (walk_oks (ho_walk h (walk_settings h self path))))"

section \<open>What an import does\<close>

text \<open>The bytes of a regular file of the walk whose metadata can be read and stored: the times fit, the length is that of the content.\<close>

definition entry_file :: "host \<Rightarrow> walk_entry \<Rightarrow> host_meta \<Rightarrow> bytes \<Rightarrow> bool" where
  "entry_file h entry meta c \<longleftrightarrow> we_file_type entry = Some HostFile \<and> we_metadata entry = Inr meta
    \<and> 0 \<le> hm_mtime meta \<and> hm_mtime meta < 2 ^ 32 \<and> 0 \<le> hm_mtime_nsec meta \<and> hm_mtime_nsec meta < 2 ^ 32
    \<and> hm_len meta = of_nat (length c) \<and> ho_len h (we_path entry) = Inr (of_nat (length c))
    \<and> (\<exists>cs. ho_open h (we_path entry) = Inr (map Inr cs) \<and> concat cs = c)"

definition imported_ref :: "hashing \<Rightarrow> host_meta \<Rightarrow> bytes \<Rightarrow> file_ref" where
  "imported_ref H meta c = set_timestamp (of_int (hm_mtime meta)) (of_int (hm_mtime_nsec meta)) (FileRef_new (h_blake3 H c) (of_nat (length c)))"

definition up_to_date :: "host_meta \<Rightarrow> file_ref \<Rightarrow> bool" where
  "up_to_date meta f \<longleftrightarrow> fr_size f = hm_len meta \<and> fr_timestamp f = Some (of_int (hm_mtime meta))
    \<and> fr_timestamp_subsec_nanos f = Some (of_int (hm_mtime_nsec meta))"

definition skips :: "'w local_importer \<Rightarrow> host_meta \<Rightarrow> file_ref option \<Rightarrow> bool" where
  "skips self meta f \<longleftrightarrow> \<not> li_always_import self \<and> (\<exists>current. live_file f = Some current \<and> up_to_date meta current)"

definition after_import :: "hashing \<Rightarrow> 'w local_importer \<Rightarrow> host_meta \<Rightarrow> bytes \<Rightarrow> file_ref option \<Rightarrow> file_ref option" where
  "after_import H self meta c f = (if skips self meta f then f else Some (imported_ref H meta c))"

text \<open>The regular files of a walk, with their keys, metadata and contents.\<close>

definition regular :: "walk_entry list \<Rightarrow> walk_entry list" where
  "regular = filter (\<lambda>e. we_file_type e = Some HostFile)"

definition host_tree ::
  "host \<Rightarrow> 'w local_importer \<Rightarrow> string \<Rightarrow> walk_entry list \<Rightarrow> (walk_entry \<Rightarrow> string) \<Rightarrow> (walk_entry \<Rightarrow> host_meta) \<Rightarrow> (walk_entry \<Rightarrow> bytes) \<Rightarrow> bool" where
  "host_tree h self base es key meta content \<longleftrightarrow> (\<forall>e \<in> set (regular es).
    entry_file h e (meta e) (content e) \<and> entry_key self (we_path e) base = Inr (key e))"

lemma regular_simps [simp]:
  "regular [] = []" "regular (e # es) = (if we_file_type e = Some HostFile then e # regular es else regular es)"
  by (simp_all add: regular_def)

lemma imported_ref_simps [simp]:
  "fr_hash (imported_ref H meta c) = h_blake3 H c" "fr_size (imported_ref H meta c) = of_nat (length c)"
  "live_file (Some (imported_ref H meta c)) = Some (imported_ref H meta c)"
  by (simp_all add: imported_ref_def FileRef_new_def live_file_def FileRef_is_tombstone_def FileRef_ref_type_def)

lemma imported_up_to_date: "hm_len meta = of_nat (length c) \<Longrightarrow> up_to_date meta (imported_ref H meta c)"
  by (simp add: up_to_date_def imported_ref_def FileRef_new_def)

lemma file_changed_iff:
  assumes "entry_file h e meta c"
  shows "file_changed meta f = Inr (\<not> up_to_date meta f)"
  using assms by (auto simp: file_changed_def entry_file_def try_u32_def up_to_date_def Let_def)

context file_world
begin

lemma process_entry_effect:
  assumes w: "ready w" and e: "entry_file h e meta c" and key: "entry_key self (we_path e) base = Inr k" "k \<in> paths"
    and self: "li_fs self = fs" "li_blob_store self = store" and room: "blob w (h_blake3 H c) \<in> {None, Some c}"
  shows "\<exists>w'. process_entry H h self uuid e base w = (Inr (), w') \<and> ready w'
    \<and> files_at w' = (if skips self meta (files_at w k) then files_at w else (files_at w)(k \<mapsto> imported_ref H meta c))
    \<and> blob w' = (if skips self meta (files_at w k) then blob w else (blob w)(h_blake3 H c \<mapsto> c))"
proof -
  obtain w1 where 1: "should_update self meta k w = (Inr (\<not> skips self meta (files_at w k)), w1)"
    "ready w1" "files_at w1 = files_at w" "blob w1 = blob w"
  proof (cases "li_always_import self")
    case True
    then show thesis using that[of w] w by (simp add: should_update_def skips_def)
  next
    case False
    obtain w' where w': "FS5_file_get fs k w = (live_file (files_at w k), w')" "ready w'" "files_at w' = files_at w" "blob w' = blob w"
      using get_law[OF w key(2)] by metis
    show thesis
      by (rule that[of w'])
        (use False w' self(1) in \<open>simp_all add: should_update_def skips_def file_changed_iff[OF e] split: option.splits\<close>)
  qed
  have meta: "we_metadata e = Inr meta" using e by (simp add: entry_file_def)
  show ?thesis
  proof (cases "skips self meta (files_at w k)")
    case True
    then show ?thesis using 1 meta key(1)
      by (intro exI[of _ w1]) (simp add: process_entry_def Let_def act_bind_def act_context_def act_ok_def)
  next
    case False
    let ?b = "\<lparr>bid_hash = h_blake3 H c, bid_size = of_nat (length c)\<rparr>"
    obtain cs where cs: "ho_open h (we_path e) = Inr (map Inr cs)" "concat cs = c" "ho_len h (we_path e) = Inr (of_nat (length c))"
      using e by (auto simp: entry_file_def)
    obtain w2 where 2: "BlobStore_import_file H store uuid (ho_len h (we_path e)) (ho_open h (we_path e)) w1 = (Inr ?b, w2)"
      "ready w2" "files_at w2 = files_at w" "blob w2 = (blob w)(h_blake3 H c \<mapsto> c)"
      using import_law[OF 1(2) import_op_intros(2)[of H store cs uuid]] room 1(3,4) unfolding cs by auto
    obtain w3 where 3: "FS5_file_put fs k (imported_ref H meta c) w2 = (Inr (), w3)" "ready w3"
      "files_at w3 = (files_at w)(k \<mapsto> imported_ref H meta c)" "blob w3 = blob w2"
      using put_law[OF 2(2) key(2)] 2(3) by metis
    have "try_u32 (hm_mtime meta) = Inr (of_int (hm_mtime meta))" "try_u32 (hm_mtime_nsec meta) = Inr (of_int (hm_mtime_nsec meta))"
      using e by (simp_all add: entry_file_def try_u32_def)
    then have "process_entry H h self uuid e base w = (Inr (), w3)"
      using 1(1) 2(1) 3(1) meta key(1) self False
      by (simp add: process_entry_def Let_def act_bind_def act_context_def imported_ref_def FileRef_from_blob_id_def)
    then show ?thesis using 2 3 False by auto
  qed
qed

lemma import_entries_effect:
  assumes self: "li_fs self = fs" "li_blob_store self = store" and tree: "host_tree h self base es key meta content"
    and keys: "key ` set (regular es) \<subseteq> paths" "distinct (map key (regular es))" and w: "ready w"
    and room: "\<And>e. e \<in> set (regular es) \<Longrightarrow> blob w (h_blake3 H (content e)) \<in> {None, Some (content e)}"
    and coll: "\<And>e e'. e \<in> set (regular es) \<Longrightarrow> e' \<in> set (regular es) \<Longrightarrow> h_blake3 H (content e) = h_blake3 H (content e') \<Longrightarrow> content e = content e'"
  shows "\<exists>w'. import_entries H h self uuid base es w = (Inr (), w') \<and> ready w'
    \<and> (\<forall>e \<in> set (regular es). files_at w' (key e) = after_import H self (meta e) (content e) (files_at w (key e)))
    \<and> (\<forall>k. k \<notin> key ` set (regular es) \<longrightarrow> files_at w' k = files_at w k)
    \<and> (\<forall>e \<in> set (regular es). \<not> skips self (meta e) (files_at w (key e)) \<longrightarrow> blob w' (h_blake3 H (content e)) = Some (content e))
    \<and> (\<forall>x. blob w' x = blob w x \<or> (\<exists>e \<in> set (regular es). x = h_blake3 H (content e) \<and> blob w' x = Some (content e)))
    \<and> ((\<forall>e \<in> set (regular es). skips self (meta e) (files_at w (key e))) \<longrightarrow> blob w' = blob w)"
  using tree keys w room coll
proof (induction es arbitrary: w)
  case Nil
  then show ?case by (simp add: act_ok_def)
next
  case (Cons e es)
  have tree': "host_tree h self base es key meta content" using Cons.prems(1) by (simp add: host_tree_def)
  show ?case
  proof (cases "we_file_type e = Some HostFile")
    case False
    then have "regular (e # es) = regular es" by simp
    then show ?thesis using Cons.IH[OF tree' _ _ Cons.prems(4)] Cons.prems(2,3,5,6) False
      by (simp add: act_bind_def act_ok_def)
  next
    case True
    then have reg: "regular (e # es) = e # regular es" by simp
    have e: "entry_file h e (meta e) (content e)" "entry_key self (we_path e) base = Inr (key e)" "key e \<in> paths"
      using Cons.prems(1,2) True by (auto simp: host_tree_def)
    let ?skip = "skips self (meta e) (files_at w (key e))"
    obtain w1 where 1: "process_entry H h self (uuid e) e base w = (Inr (), w1)" "ready w1"
      "files_at w1 = (if ?skip then files_at w else (files_at w)(key e \<mapsto> imported_ref H (meta e) (content e)))"
      "blob w1 = (if ?skip then blob w else (blob w)(h_blake3 H (content e) \<mapsto> content e))"
      using process_entry_effect[OF Cons.prems(4) e self, of "uuid e"] Cons.prems(5)[of e] True by auto
    have new: "key e \<notin> key ` set (regular es)" using Cons.prems(3) unfolding reg by simp
    then have other: "key e' \<noteq> key e" if "e' \<in> set (regular es)" for e' using that by (metis image_eqI)
    have room': "blob w1 (h_blake3 H (content e')) \<in> {None, Some (content e')}" if "e' \<in> set (regular es)" for e'
      using Cons.prems(5)[of e'] Cons.prems(6)[of e e'] that 1(4) True by auto
    have keys': "key ` set (regular es) \<subseteq> paths" "distinct (map key (regular es))"
      using Cons.prems(2,3) unfolding reg by simp_all
    have coll': "content e' = content e''"
      if "e' \<in> set (regular es)" "e'' \<in> set (regular es)" "h_blake3 H (content e') = h_blake3 H (content e'')" for e' e''
      using Cons.prems(6)[of e' e''] that unfolding reg by simp
    obtain w2 where 2: "import_entries H h self uuid base es w1 = (Inr (), w2)" "ready w2"
      "\<forall>e' \<in> set (regular es). files_at w2 (key e') = after_import H self (meta e') (content e') (files_at w1 (key e'))"
      "\<forall>k. k \<notin> key ` set (regular es) \<longrightarrow> files_at w2 k = files_at w1 k"
      "\<forall>e' \<in> set (regular es). \<not> skips self (meta e') (files_at w1 (key e')) \<longrightarrow> blob w2 (h_blake3 H (content e')) = Some (content e')"
      "\<forall>x. blob w2 x = blob w1 x \<or> (\<exists>e' \<in> set (regular es). x = h_blake3 H (content e') \<and> blob w2 x = Some (content e'))"
      "(\<forall>e' \<in> set (regular es). skips self (meta e') (files_at w1 (key e'))) \<longrightarrow> blob w2 = blob w1"
      using Cons.IH[OF tree' keys' 1(2) room' coll'] by blast
    have same: "files_at w1 (key e') = files_at w (key e')" if "e' \<in> set (regular es)" for e'
      using 1(3) other[OF that] by simp
    have added: "blob w2 x = blob w x \<or> (\<exists>e' \<in> set (e # regular es). x = h_blake3 H (content e') \<and> blob w2 x = Some (content e'))" for x
      using 2(6)[rule_format, of x] 1(4) by (auto split: if_splits)
    have run: "import_entries H h self uuid base (e # es) w = (Inr (), w2)" using 1(1) 2(1) True by (simp add: act_bind_def)
    have here: "files_at w2 (key e) = after_import H self (meta e) (content e) (files_at w (key e))"
      using 2(4)[rule_format, OF new] 1(3) by (simp add: after_import_def)
    have stored: "blob w2 (h_blake3 H (content e)) = Some (content e)" if "\<not> ?skip"
    proof -
      have "content e' = content e" if "e' \<in> set (regular es)" "h_blake3 H (content e) = h_blake3 H (content e')" for e'
        using Cons.prems(6)[of e e'] that unfolding reg by simp
      then show ?thesis using 2(6)[rule_format, of "h_blake3 H (content e)"] 1(4) that by auto
    qed
    show ?thesis
      unfolding reg
    proof (intro exI[of _ w2] conjI ballI allI impI)
      fix e' assume "e' \<in> set (e # regular es)"
      then show "files_at w2 (key e') = after_import H self (meta e') (content e') (files_at w (key e'))"
        using here 2(3) same by auto
    next
      fix k assume "k \<notin> key ` set (e # regular es)"
      then show "files_at w2 k = files_at w k" using 2(4)[rule_format, of k] 1(3) by simp
    next
      fix e' assume "e' \<in> set (e # regular es)" "\<not> skips self (meta e') (files_at w (key e'))"
      then show "blob w2 (h_blake3 H (content e')) = Some (content e')" using stored 2(5) same by auto
    next
      assume "\<forall>e' \<in> set (e # regular es). skips self (meta e') (files_at w (key e'))"
      then show "blob w2 = blob w" using 2(7) 1(4) same by simp
    qed (use run 2(2) added in blast)+
  qed
qed

lemma reimport_changes_nothing:
  assumes "li_fs self = fs" "li_blob_store self = store" "host_tree h self base es key meta content" "\<not> li_always_import self"
    and "key ` set (regular es) \<subseteq> paths" "distinct (map key (regular es))" "ready w"
    and "\<And>e. e \<in> set (regular es) \<Longrightarrow> blob w (h_blake3 H (content e)) \<in> {None, Some (content e)}"
    and "\<And>e e'. e \<in> set (regular es) \<Longrightarrow> e' \<in> set (regular es) \<Longrightarrow> h_blake3 H (content e) = h_blake3 H (content e') \<Longrightarrow> content e = content e'"
    and old: "\<And>e. e \<in> set (regular es) \<Longrightarrow> skips self (meta e) (files_at w (key e))"
  shows "\<exists>w'. import_entries H h self uuid base es w = (Inr (), w') \<and> files_at w' = files_at w \<and> blob w' = blob w"
proof -
  obtain w' where w': "import_entries H h self uuid base es w = (Inr (), w')"
    "\<forall>e \<in> set (regular es). files_at w' (key e) = after_import H self (meta e) (content e) (files_at w (key e))"
    "\<forall>k. k \<notin> key ` set (regular es) \<longrightarrow> files_at w' k = files_at w k"
    "(\<forall>e \<in> set (regular es). skips self (meta e) (files_at w (key e))) \<longrightarrow> blob w' = blob w"
    using import_entries_effect[OF assms(1-3,5-9), of uuid] by blast
  have "files_at w' k = files_at w k" for k
    using w'(2,3) old by (cases "k \<in> key ` set (regular es)") (auto simp: after_import_def)
  then show ?thesis using w'(1,4) old by blast
qed

text \<open>A modification time that does not fit ends the import of the tree: the blob of a new file is stored by then, and no file refers to it.\<close>

lemma unstorable_time_aborts:
  assumes w: "ready w" and key: "entry_key self (we_path e) base = Inr k" "k \<in> paths"
    and self: "li_fs self = fs" "li_blob_store self = store" and room: "blob w (h_blake3 H (concat cs)) \<in> {None, Some (concat cs)}"
    and e: "we_metadata e = Inr meta" "ho_len h (we_path e) = Inr (of_nat (length (concat cs)))" "ho_open h (we_path e) = Inr (map Inr cs)"
    and time: "hm_mtime meta < 0 \<or> 2 ^ 32 \<le> hm_mtime meta"
  shows "\<exists>err w'. process_entry H h self uuid e base w = (Inl err, w') \<and> ready w' \<and> files_at w' = files_at w
    \<and> (live_file (files_at w k) = None \<longrightarrow> blob w' (h_blake3 H (concat cs)) = Some (concat cs))"
proof -
  obtain err where bad: "try_u32 (hm_mtime meta) = Inl err" using time by (auto simp: try_u32_def)
  have changed: "file_changed meta f = Inl err" for f using bad by (simp add: file_changed_def Let_def)
  obtain w1 where 1: "FS5_file_get fs k w = (live_file (files_at w k), w1)" "ready w1" "files_at w1 = files_at w" "blob w1 = blob w"
    using get_law[OF w key(2)] by metis
  have import: "\<exists>w2. BlobStore_import_file H store uuid (ho_len h (we_path e)) (ho_open h (we_path e)) v
      = (Inr \<lparr>bid_hash = h_blake3 H (concat cs), bid_size = of_nat (length (concat cs))\<rparr>, w2)
      \<and> ready w2 \<and> files_at w2 = files_at w \<and> blob w2 (h_blake3 H (concat cs)) = Some (concat cs)"
    if "ready v" "files_at v = files_at w" "blob v = blob w" for v
    using import_law[OF that(1) import_op_intros(2)[of H store cs uuid]] room that(2,3) unfolding e by auto
  consider "li_always_import self" | "\<not> li_always_import self" "live_file (files_at w k) = None"
    | f where "\<not> li_always_import self" "live_file (files_at w k) = Some f" by (cases "live_file (files_at w k)") auto
  then show ?thesis
  proof cases
    case 1
    then show ?thesis using import[OF w] bad e(1) key(1) self
      by (auto simp: process_entry_def Let_def act_bind_def act_context_def should_update_def)
  next
    case 2
    then show ?thesis using import[OF 1(2-4)] 1(1) bad e(1) key(1) self
      by (auto simp: process_entry_def Let_def act_bind_def act_context_def should_update_def)
  next
    case 3
    then show ?thesis using 1 changed e(1) key(1) self
      by (intro exI[of _ err] exI[of _ w1]) (simp add: process_entry_def Let_def act_bind_def act_context_def should_update_def)
  qed
qed

end

section \<open>Properties\<close>

text \<open>C27. Importing a tree. Over a root kept in a local file, with a blob store in memory, a walk that gives any entries in any order: when
  the regular files among them can be read, have the length and times of their metadata, times that fit in 32 bits, and have different keys
  the root handles itself, none of them below a prefix that is or will be promoted, the import succeeds. A file that is already stored with the same size and times is skipped, unless all are imported; every other
  file is then stored under its key with its size, times and hash, the blob store has its content, and files under other keys are as
  before. Importing the tree again changes no file and no blob. No two contents, new or stored, share a hash.\<close>

theorem local_import_mirrors_tree:
  assumes w: "local_ready H D x path origin S w"
    and self: "li_fs self = actor_fs (mem_env H D sg xx x)" "li_blob_store self = mount_store"
    and dir: "ho_canonicalize h dir = Inr base" "es = walk_oks (ho_walk h (walk_settings h self base))"
    and tree: "host_tree h self base es key meta content"
    and keys: "key ` set (regular es) \<subseteq> S" "distinct (map key (regular es))"
    and room: "\<And>e. e \<in> set (regular es) \<Longrightarrow> mem_blob H (snd w) (h_blake3 H (content e)) \<in> {None, Some (content e)}"
    and coll: "\<And>e e'. e \<in> set (regular es) \<Longrightarrow> e' \<in> set (regular es) \<Longrightarrow> h_blake3 H (content e) = h_blake3 H (content e') \<Longrightarrow> content e = content e'"
  shows "\<exists>w'. import_path H h self uuid dir w = (Inr (), w')
    \<and> (\<forall>e \<in> set (regular es). root_files w' (key e) = after_import H self (meta e) (content e) (root_files w (key e)))
    \<and> (\<forall>e \<in> set (regular es). \<not> skips self (meta e) (root_files w (key e)) \<longrightarrow>
         fst (FS5_file_get (li_fs self) (key e) w') = Some (imported_ref H (meta e) (content e))
         \<and> BlobStore_read_as_bytes H mount_store (h_blake3 H (content e)) 0 None w' = Inr (content e))
    \<and> (\<forall>k. k \<notin> key ` set (regular es) \<longrightarrow> root_files w' k = root_files w k)
    \<and> (\<not> li_always_import self \<longrightarrow> (\<exists>w''. import_path H h self uuid' dir w' = (Inr (), w'')
         \<and> root_files w'' = root_files w' \<and> mem_blob H (snd w'') = mem_blob H (snd w')))"
proof -
  note L = local_files.import_entries_effect[OF self tree keys]
  obtain w' where w': "import_entries H h self uuid base es w = (Inr (), w')" "local_ready H D x path origin S w'"
    "\<forall>e \<in> set (regular es). root_files w' (key e) = after_import H self (meta e) (content e) (root_files w (key e))"
    "\<forall>k. k \<notin> key ` set (regular es) \<longrightarrow> root_files w' k = root_files w k"
    "\<forall>e \<in> set (regular es). \<not> skips self (meta e) (root_files w (key e)) \<longrightarrow> mem_blob H (snd w') (h_blake3 H (content e)) = Some (content e)"
    "\<forall>x. mem_blob H (snd w') x = mem_blob H (snd w) x \<or> (\<exists>e \<in> set (regular es). x = h_blake3 H (content e) \<and> mem_blob H (snd w') x = Some (content e))"
    using L[OF w room coll, of uuid] by blast
  have path: "import_path H h self u dir v = import_entries H h self u base es v" for u v
    by (simp add: import_path_def act_bind_def act_context_def dir)
  have read: "fst (FS5_file_get (li_fs self) (key e) w') = Some (imported_ref H (meta e) (content e))
      \<and> BlobStore_read_as_bytes H mount_store (h_blake3 H (content e)) 0 None w' = Inr (content e)"
    if "e \<in> set (regular es)" "\<not> skips self (meta e) (root_files w (key e))" for e
  proof -
    have f: "root_files w' (key e) = Some (imported_ref H (meta e) (content e))" using w'(3) that by (simp add: after_import_def)
    have "key e \<in> S" using keys(1) that(1) by auto
    then have "fst (FS5_file_get (li_fs self) (key e) w') = Some (imported_ref H (meta e) (content e))"
      using local_files.get_law[OF w'(2), of "key e" sg xx] f unfolding self by fastforce
    moreover have "BlobStore_read_as_bytes H mount_store (h_blake3 H (content e)) 0 None w' = Inr (content e)"
      using local_files.read_law[OF w'(2), of "h_blake3 H (content e)" "content e" 0 None] w'(5) that by (simp add: slice_of_def)
    ultimately show ?thesis ..
  qed
  have room': "mem_blob H (snd w') (h_blake3 H (content e)) \<in> {None, Some (content e)}" if "e \<in> set (regular es)" for e
    using w'(6)[rule_format, of "h_blake3 H (content e)"] room[OF that] coll[OF that] by auto
  have old: "skips self (meta e) (root_files w' (key e))" if "e \<in> set (regular es)" "\<not> li_always_import self" for e
    using w'(3) that tree imported_up_to_date[of "meta e" "content e" H]
    by (auto simp: after_import_def skips_def host_tree_def entry_file_def)
  have again: "\<exists>w''. import_path H h self uuid' dir w' = (Inr (), w'') \<and> root_files w'' = root_files w' \<and> mem_blob H (snd w'') = mem_blob H (snd w')"
    if "\<not> li_always_import self"
    using local_files.reimport_changes_nothing[OF self tree that keys w'(2) room' coll old[OF _ that], of uuid'] unfolding path by blast
  show ?thesis using w'(1,3,4) read again unfolding path by blast
qed

definition demo_meta :: host_meta where
  "demo_meta = \<lparr>hm_len = 3, hm_mtime = 7, hm_mtime_nsec = 9\<rparr>"

definition demo_entry :: walk_entry where
  "demo_entry = \<lparr>we_path = ''/t/f'', we_file_type = Some HostFile, we_metadata = Inr demo_meta\<rparr>"

definition demo_host :: host where
  "demo_host = \<lparr>ho_canonicalize = \<lambda>_. Inr ''/t'', ho_len = \<lambda>_. Inr 3, ho_open = \<lambda>_. Inr [Inr [1, 2], Inr [3]],
    ho_walk = \<lambda>_. [Inr \<lparr>we_path = ''/t'', we_file_type = Some HostDir, we_metadata = Inr demo_meta\<rparr>, Inl (Anyhow ''denied''), Inr demo_entry]\<rparr>"

definition demo_importer :: "(dir_actor option \<times> mem_fs) local_importer" where
  "demo_importer = \<lparr>li_fs = actor_fs demo_local_env, li_blob_store = mount_store, li_max_concurrent_ops = 4,
    li_use_base_relative_keys = True, li_ignore = True, li_ignore_vcs = True, li_check_cachedir_tag = True, li_always_import = False\<rparr>"

lemma demo_regular: "regular (walk_oks (ho_walk demo_host b)) = [demo_entry]"
  by (simp add: walk_oks_def demo_host_def demo_entry_def)

lemma demo_tree: "host_tree demo_host demo_importer ''/t'' (walk_oks (ho_walk demo_host b)) (\<lambda>_. ''f'') (\<lambda>_. demo_meta) (\<lambda>_. [1, 2, 3])"
proof -
  have "entry_key demo_importer (we_path demo_entry) ''/t'' = Inr ''f''"
    by (simp add: entry_key_def demo_importer_def demo_entry_def strip_prefix_def os_components_def is_absolute_def to_str_def)
  moreover have "entry_file demo_host demo_entry demo_meta [1, 2, 3]"
    by (auto simp: entry_file_def demo_entry_def demo_meta_def demo_host_def intro!: exI[of _ "[[1, 2], [3 :: u8]]"])
  ultimately show ?thesis by (simp add: host_tree_def demo_regular)
qed

theorem local_import_mirrors_tree_witness:
  "\<exists>w'. import_path demo_hashing demo_host demo_importer (\<lambda>_. ''u'') ''t'' demo_local = (Inr (), w')
    \<and> root_files w' ''f'' = Some (imported_ref demo_hashing demo_meta [1, 2, 3])
    \<and> BlobStore_read_as_bytes demo_hashing mount_store (h_blake3 demo_hashing [1, 2, 3]) 0 None w' = Inr [1, 2, 3]
    \<and> (\<exists>w''. import_path demo_hashing demo_host demo_importer (\<lambda>_. ''v'') ''t'' w' = (Inr (), w'') \<and> root_files w'' = root_files w')"
proof -
  have self: "li_fs demo_importer = actor_fs demo_local_env" "li_blob_store demo_importer = mount_store" "\<not> li_always_import demo_importer"
    by (simp_all add: demo_importer_def)
  have canon: "ho_canonicalize demo_host ''t'' = Inr ''/t''" by (simp add: demo_host_def)
  have none: "mem_blob demo_hashing (snd demo_local) h = None" for h by (simp add: demo_local_def demo_world_def mem_blob_fst blob_at_def MemoryStore_new_def)
  have new: "root_files demo_local ''f'' = None" by (simp add: root_files_def demo_local_def files_of_def DirV1_new_def)
  then have "\<not> skips demo_importer demo_meta (root_files demo_local ''f'')" by (simp add: skips_def live_file_def)
  then show ?thesis
    using local_import_mirrors_tree[OF demo_local_ready self(1)[unfolded demo_local_env_def] self(2) canon refl demo_tree,
        of "\<lambda>_. ''u''" "\<lambda>_. ''v''"] self(3)
    by (auto simp: demo_regular none after_import_def)
qed

end
