(* ===== verification/Importer_Http.thy ===== *)
theory Importer_Http
  imports File_World
begin

text \<open>
  Importing a tree of web pages: \<^verbatim>\<open>importers/http/src/lib.rs\<close>. The crates for URLs, HTTP, HTML and dates are records of parameters. The
  links of a page are followed one after another, one of the orders of the program; following them is a partial function, since pages
  that link to each other are followed for ever. The semaphore is the number of its free permits: an import takes one, and gives it back where the
  code drops it; in this order nobody else can give one back to an import that waits, which never returns.
\<close>

section \<open>The libraries\<close>

text \<open>The \<^verbatim>\<open>url\<close> crate; \<open>None\<close> stands for what does not parse.\<close>

record 'u url_ops =
  ur_scheme :: "'u \<Rightarrow> string"
  ur_host_str :: "'u \<Rightarrow> string option"
  ur_path :: "'u \<Rightarrow> string"
  ur_as_str :: "'u \<Rightarrow> string"
  ur_make_relative :: "'u \<Rightarrow> 'u \<Rightarrow> string option"
  ur_join :: "'u \<Rightarrow> string \<Rightarrow> 'u option"

text \<open>A response: the value of a header when it is text, the body as text and as a stream.\<close>

record http_response =
  rs_status :: nat
  rs_header :: "string \<Rightarrow> string option"
  rs_text :: "error + string"
  rs_stream :: poll_stream

record ('w, 'u) http_client =
  hc_head :: "'u \<Rightarrow> ('w, http_response) action"
  hc_get :: "'u \<Rightarrow> ('w, http_response) action"

text \<open>Dates in the format of mails with their seconds and nanoseconds, the clock, and the \<^verbatim>\<open>href\<close> attributes of the links of a page.\<close>

record ('w, 'u) web_libs =
  wl_url :: "'u url_ops"
  wl_parse_date :: "string \<Rightarrow> (int \<times> u32) option"
  wl_now :: "'w \<Rightarrow> int \<times> u32"
  wl_hrefs :: "string \<Rightarrow> string list"

definition is_success :: "http_response \<Rightarrow> bool" where
  "is_success res \<longleftrightarrow> 200 \<le> rs_status res \<and> rs_status res < 300"

section \<open>The importer\<close>

record ('w, 'u) http_importer =
  hi_client :: "('w, 'u) http_client"
  hi_permits :: nat
  hi_fs :: "'w fs5"
  hi_blob_store :: "'w blob_store"
  hi_base_url :: 'u
  hi_use_base_relative_keys :: bool

definition HttpImporter_create ::
  "('w, 'u) http_client \<Rightarrow> 'w fs5 \<Rightarrow> 'w blob_store \<Rightarrow> nat \<Rightarrow> 'u \<Rightarrow> bool \<Rightarrow> error + ('w, 'u) http_importer" where
  "HttpImporter_create client fs blob_store max_concurrent_requests base_url use_base_relative_keys =
    Inr \<lparr>hi_client = client, hi_permits = max_concurrent_requests, hi_fs = fs, hi_blob_store = blob_store,
      hi_base_url = base_url, hi_use_base_relative_keys = use_base_relative_keys\<rparr>"

definition global_key :: "'u url_ops \<Rightarrow> 'u \<Rightarrow> string" where
  "global_key U url =
    (let host = (case ur_host_str U url of Some h \<Rightarrow> h | None \<Rightarrow> ''unknown'')
     in ur_scheme U url @ ''/'' @ host @ ur_path U url)"

definition key_for_url :: "('w, 'u) web_libs \<Rightarrow> ('w, 'u) http_importer \<Rightarrow> 'u \<Rightarrow> string" where
  "key_for_url L self url =
    (if hi_use_base_relative_keys self then
       (case ur_make_relative (wl_url L) (hi_base_url self) url of
          Some relative \<Rightarrow> relative
        | None \<Rightarrow> global_key (wl_url L) url)
     else global_key (wl_url L) url)"

text \<open>Whether the headers of a response differ from a stored file; a date is cut to 32 bits.\<close>

definition last_modified :: "('w, 'u) web_libs \<Rightarrow> http_response \<Rightarrow> (int \<times> u32) option" where
  "last_modified L res = Option.bind (rs_header res ''last-modified'') (wl_parse_date L)"

definition remote_changed :: "('w, 'u) web_libs \<Rightarrow> http_response \<Rightarrow> file_ref \<Rightarrow> bool" where
  "remote_changed L head_res current =
    (let remote_size = Option.bind (rs_header head_res ''content-length'') parse_u64;
         size_changed = remote_size \<noteq> Some (fr_size current);
         time_changed = (case last_modified L head_res of
            None \<Rightarrow> True
          | Some (ts, nanos) \<Rightarrow> fr_timestamp current \<noteq> Some (of_int ts) \<or> fr_timestamp_subsec_nanos current \<noteq> Some nanos)
     in size_changed \<or> time_changed)"

text \<open>The links of a page that are followed.\<close>

definition page_links :: "('w, 'u) web_libs \<Rightarrow> ('w, 'u) http_importer \<Rightarrow> 'u \<Rightarrow> string \<Rightarrow> 'u list" where
  "page_links L self base_url text =
    (let hrefs = filter (\<lambda>href. \<not> (href \<noteq> [] \<and> hd href \<in> {CHR ''?'', CHR ''#'', CHR ''.''})) (wl_hrefs L text);
         urls = concat (map (\<lambda>href. case ur_join (wl_url L) base_url href of Some u \<Rightarrow> [u] | None \<Rightarrow> []) hrefs);
         urls = filter (\<lambda>u. starts_with (ur_as_str (wl_url L) (hi_base_url self)) (ur_as_str (wl_url L) u)) urls
     in filter (\<lambda>u. u \<noteq> base_url) urls)"

definition handle_html_page ::
  "('w, 'u) web_libs \<Rightarrow> ('w, 'u) http_importer \<Rightarrow> 'u \<Rightarrow> http_response \<Rightarrow> ('w, 'u list) action" where
  "handle_html_page L self base_url res =
    act_bind (act_lift (rs_text res)) (\<lambda>text. act_ok (page_links L self base_url text))"

definition handle_file ::
  "hashing \<Rightarrow> ('w, 'u) web_libs \<Rightarrow> ('w, 'u) http_importer \<Rightarrow> string \<Rightarrow> string \<Rightarrow> http_response \<Rightarrow> (int \<times> u32) option \<Rightarrow> ('w, unit) action" where
  "handle_file H L self uuid key res modified =
    act_bind (BlobStore_import_stream H (hi_blob_store self) uuid (rs_stream res)) (\<lambda>blob_id w.
      let (ts, nanos) = (case modified of Some lm \<Rightarrow> lm | None \<Rightarrow> wl_now L w)
      in FS5_file_put (hi_fs self) key (set_timestamp (of_int ts) nanos (FileRef_from_blob_id blob_id)) w)"

text \<open>What an import does with its permit: a page drops it before its links are followed, otherwise it is held until the import returns.\<close>

datatype permit = PermitHeld | PermitDropped

fun permits_below :: "permit \<Rightarrow> nat \<Rightarrow> nat" where
  "permits_below PermitDropped free = Suc free"
| "permits_below PermitHeld free = free"

fun permits_after :: "permit \<Rightarrow> nat \<Rightarrow> nat" where
  "permits_after PermitDropped free = free"
| "permits_after PermitHeld free = Suc free"

text \<open>The download of a URL; a page gives the links to follow, a file none.\<close>

definition fetch_url ::
  "hashing \<Rightarrow> ('w, 'u) web_libs \<Rightarrow> ('w, 'u) http_importer \<Rightarrow> string \<Rightarrow> 'u \<Rightarrow> string \<Rightarrow> ('w, 'u list \<times> permit) action" where
  "fetch_url H L self uuid url key =
    act_bind (hc_get (hi_client self) url) (\<lambda>res.
    if \<not> is_success res then act_err (Anyhow ''HTTP GET request failed'')
    else
      let content_type = (case rs_header res ''content-type'' of Some t \<Rightarrow> t | None \<Rightarrow> []);
          modified = last_modified L res
      in if starts_with ''text/html'' content_type then act_bind (handle_html_page L self url res) (\<lambda>links. act_ok (links, PermitDropped))
         else act_bind (handle_file H L self uuid key res modified) (\<lambda>_. act_ok ([], PermitHeld)))"

definition visit_url ::
  "hashing \<Rightarrow> ('w, 'u) web_libs \<Rightarrow> ('w, 'u) http_importer \<Rightarrow> string \<Rightarrow> 'u \<Rightarrow> ('w, 'u list \<times> permit) action" where
  "visit_url H L self uuid url w =
    (let key = key_for_url L self url
     in case FS5_file_get (hi_fs self) key w of (current_file_ref, w) \<Rightarrow>
       (case current_file_ref of
          None \<Rightarrow> fetch_url H L self uuid url key w
        | Some current \<Rightarrow>
            act_bind (hc_head (hi_client self) url) (\<lambda>head_res.
            if \<not> is_success head_res then act_ok ([], PermitHeld)
            else if remote_changed L head_res current then fetch_url H L self uuid url key
            else act_ok ([], PermitHeld)) w))"

text \<open>\<^verbatim>\<open>import_url\<close> on each of a list of URLs, with the number of free permits. Without a free one the import waits for ever.\<close>

definition acquire :: "nat \<Rightarrow> nat option" where
  "acquire free = (if free = 0 then None else Some (free - 1))"

partial_function (option) import_urls ::
  "hashing \<Rightarrow> ('w, 'u) web_libs \<Rightarrow> ('w, 'u) http_importer \<Rightarrow> ('u \<Rightarrow> string) \<Rightarrow> 'u list \<Rightarrow> nat \<Rightarrow> 'w \<Rightarrow> ((error + unit) \<times> nat \<times> 'w) option" where
  "import_urls H L self uuid urls free w =
    (case urls of
       [] \<Rightarrow> Some (Inr (), free, w)
     | url # rest \<Rightarrow>
        Option.bind (acquire free) (\<lambda>free.
          case visit_url H L self (uuid url) url w of (visited, w) \<Rightarrow>
            (case visited of
               Inl e \<Rightarrow> Some (Inl e, Suc free, w)
             | Inr (links, permit) \<Rightarrow>
                Option.bind (import_urls H L self uuid links (permits_below permit free) w) (\<lambda>(r, free, w).
                  case r of
                    Inl e \<Rightarrow> Some (Inl e, permits_after permit free, w)
                  | Inr _ \<Rightarrow> import_urls H L self uuid rest (permits_after permit free) w))))"

definition import_url ::
  "hashing \<Rightarrow> ('w, 'u) web_libs \<Rightarrow> ('w, 'u) http_importer \<Rightarrow> ('u \<Rightarrow> string) \<Rightarrow> 'u \<Rightarrow> 'w \<Rightarrow> ((error + unit) \<times> 'w) option" where
  "import_url H L self uuid url w = map_option (\<lambda>(r, _, w). (r, w)) (import_urls H L self uuid [url] (hi_permits self) w)"

section \<open>Following links\<close>

lemma import_urls_simps:
  "import_urls H L self uuid [] n w = Some (Inr (), n, w)"
  "import_urls H L self uuid (url # rest) 0 w = None"
  "import_urls H L self uuid (url # rest) (Suc n) w =
    (case visit_url H L self (uuid url) url w of
       (Inl e, w) \<Rightarrow> Some (Inl e, Suc n, w)
     | (Inr (links, permit), w) \<Rightarrow>
        Option.bind (import_urls H L self uuid links (permits_below permit n) w) (\<lambda>(r, n, w).
          case r of Inl e \<Rightarrow> Some (Inl e, permits_after permit n, w) | Inr _ \<Rightarrow> import_urls H L self uuid rest (permits_after permit n) w))"
  by (subst import_urls.simps, simp add: acquire_def split: prod.splits sum.splits)+

definition is_html :: "http_response \<Rightarrow> bool" where
  "is_html res \<longleftrightarrow> starts_with ''text/html'' (case rs_header res ''content-type'' of Some t \<Rightarrow> t | None \<Rightarrow> [])"

lemma visit_links:
  assumes "visit_url H L self u url w = (Inr (links, permit), w')"
  shows "(links = [] \<and> permit = PermitHeld) \<or> (permit = PermitDropped \<and>
    (\<exists>res t v v'. hc_get (hi_client self) url v = (Inr res, v') \<and> is_html res \<and> rs_text res = Inr t \<and> links = page_links L self url t))"
proof -
  have fetch: "(links = [] \<and> permit = PermitHeld) \<or> (permit = PermitDropped \<and>
    (\<exists>res t v v'. hc_get (hi_client self) url v = (Inr res, v') \<and> is_html res \<and> rs_text res = Inr t \<and> links = page_links L self url t))"
    if "fetch_url H L self u url key v = (Inr (links, permit), w')" for key v
    using that unfolding fetch_url_def handle_html_page_def Let_def
    by (auto simp: act_bind_Inr_iff act_ok_def act_err_def is_html_def split: if_splits)
  show ?thesis
    using assms unfolding visit_url_def Let_def
    by (auto simp: act_bind_Inr_iff act_ok_def split: if_splits option.splits prod.splits dest!: fetch)
qed

text \<open>The links of a page lie under the base URL.\<close>

lemma page_links_under_base:
  "l \<in> set (page_links L self url t) \<Longrightarrow> starts_with (ur_as_str (wl_url L) (hi_base_url self)) (ur_as_str (wl_url L) l) \<and> l \<noteq> url"
  by (auto simp: page_links_def Let_def)

text \<open>The links of a site that a crawl may follow, without a look at how it selects them: some version of the page links to another page under
  the base, with a reference that is not a query, a fragment or relative to the directory.\<close>

definition site_links :: "('w, 'u) web_libs \<Rightarrow> ('w, 'u) http_importer \<Rightarrow> ('u \<times> 'u) set" where
  "site_links L self = {(url, l). l \<noteq> url \<and> starts_with (ur_as_str (wl_url L) (hi_base_url self)) (ur_as_str (wl_url L) l)
    \<and> (\<exists>w res w' t href. hc_get (hi_client self) url w = (Inr res, w') \<and> is_html res \<and> rs_text res = Inr t \<and> href \<in> set (wl_hrefs L t)
        \<and> (\<forall>c cs. href = c # cs \<longrightarrow> c \<notin> {CHR ''?'', CHR ''#'', CHR ''.''}) \<and> ur_join (wl_url L) url href = Some l)}"

lemma page_links_site:
  assumes "hc_get (hi_client self) url w = (Inr res, w')" "is_html res" "rs_text res = Inr t" "l \<in> set (page_links L self url t)"
  shows "(url, l) \<in> site_links L self"
proof -
  obtain href where h: "href \<in> set (wl_hrefs L t)" "\<not> (href \<noteq> [] \<and> hd href \<in> {CHR ''?'', CHR ''#'', CHR ''.''})" "ur_join (wl_url L) url href = Some l"
    and l: "starts_with (ur_as_str (wl_url L) (hi_base_url self)) (ur_as_str (wl_url L) l)" "l \<noteq> url"
    using assms(4) by (auto simp: page_links_def Let_def split: option.splits)
  have "\<forall>c cs. href = c # cs \<longrightarrow> c \<notin> {CHR ''?'', CHR ''#'', CHR ''.''}" using h(2) by auto
  then show ?thesis unfolding site_links_def using assms(1-3) h(1,3) l by blast
qed

lemma import_urls_Cons:
  "import_urls H L self uuid (u # us) (Suc n) w = Option.bind (import_urls H L self uuid [u] (Suc n) w)
    (\<lambda>(r, m, w). case r of Inl e \<Rightarrow> Some (Inl e, m, w) | Inr _ \<Rightarrow> import_urls H L self uuid us m w)"
proof -
  obtain v w1 where v: "visit_url H L self (uuid u) u w = (v, w1)" by (metis prod.exhaust)
  show ?thesis
  proof (cases v)
    case (Inr lp)
    obtain links permit where "v = Inr (links, permit)" using Inr by (cases lp) auto
    then show ?thesis
      using v by (cases "import_urls H L self uuid links (permits_below permit n) w1") (auto simp: import_urls_simps split: sum.splits)
  qed (use v in \<open>simp add: import_urls_simps\<close>)
qed

text \<open>An import returns when the import of each of its links does, and gives back the permit it took.\<close>

lemma import_all_return:
  assumes "\<And>u w. u \<in> set urls \<Longrightarrow> \<exists>r w'. import_urls H L self uuid [u] (Suc n) w = Some (r, Suc n, w')"
  shows "\<exists>r w'. import_urls H L self uuid urls (Suc n) w = Some (r, Suc n, w')"
  using assms
proof (induction urls arbitrary: w)
  case (Cons u us)
  from Cons.prems[of u w] obtain r w1 where one: "import_urls H L self uuid [u] (Suc n) w = Some (r, Suc n, w1)" by auto
  from Cons.IH[of w1] Cons.prems obtain r2 w2 where rest: "import_urls H L self uuid us (Suc n) w1 = Some (r2, Suc n, w2)" by auto
  show ?case
    using one rest by (subst import_urls_Cons) (cases r; simp)
qed (simp add: import_urls_simps)

lemma import_urls_returns:
  assumes "finite (site_links L self)" "acyclic (site_links L self)"
  shows "\<exists>r w'. import_urls H L self uuid urls (Suc n) w = Some (r, Suc n, w')"
proof -
  have "wf ((site_links L self)\<inverse>)" using assms by (rule finite_acyclic_wf_converse)
  then have "\<exists>r w'. import_urls H L self uuid [u] (Suc n) w = Some (r, Suc n, w')" for u w
  proof (induction u arbitrary: w rule: wf_induct_rule)
    case (less u)
    obtain v w1 where v: "visit_url H L self (uuid u) u w = (v, w1)" by (metis prod.exhaust)
    show ?case
    proof (cases v)
      case (Inl e)
      then show ?thesis using v by (simp add: import_urls_simps)
    next
      case (Inr vp)
      then obtain links permit where vp: "v = Inr (links, permit)" by (cases vp) auto
      from visit_links[OF v[unfolded vp]] show ?thesis
      proof (elim disjE conjE)
        assume "links = []" "permit = PermitHeld"
        then show ?thesis using v vp by (simp add: import_urls_simps)
      next
        assume p: "permit = PermitDropped" and
          "\<exists>res t v v'. hc_get (hi_client self) u v = (Inr res, v') \<and> is_html res \<and> rs_text res = Inr t \<and> links = page_links L self u t"
        then obtain res t x x' where x: "hc_get (hi_client self) u x = (Inr res, x')" "is_html res" "rs_text res = Inr t" "links = page_links L self u t"
          by blast
        have lower: "(l, u) \<in> (site_links L self)\<inverse>" if "l \<in> set links" for l
          using page_links_site[OF x(1-3), of l L] that x(4) by simp
        obtain r w2 where "import_urls H L self uuid links (Suc n) w1 = Some (r, Suc n, w2)"
          using import_all_return[of links H L self uuid n w1] less.IH[OF lower] by blast
        then show ?thesis using v vp p by (cases r) (simp_all add: import_urls_simps)
      qed
    qed
  qed
  then show ?thesis by (rule import_all_return)
qed

text \<open>Two clients that agree on what is visited give the same crawl.\<close>

definition agree_on :: "('w, 'u) http_client \<Rightarrow> ('w, 'u) http_client \<Rightarrow> 'u \<Rightarrow> bool" where
  "agree_on C C' u \<longleftrightarrow> hc_head C u = hc_head C' u \<and> hc_get C u = hc_get C' u"

lemma same_page:
  "handle_html_page L (self\<lparr>hi_client := C'\<rparr>) = handle_html_page L self"
  "handle_file H L (self\<lparr>hi_client := C'\<rparr>) = handle_file H L self"
  "key_for_url L (self\<lparr>hi_client := C'\<rparr>) = key_for_url L self"
  unfolding handle_html_page_def handle_file_def key_for_url_def page_links_def fun_eq_iff by simp_all

lemma visit_same:
  assumes "agree_on (hi_client self) C' url"
  shows "visit_url H L (self\<lparr>hi_client := C'\<rparr>) u url = visit_url H L self u url"
proof -
  have same: "hc_get C' url = hc_get (hi_client self) url" "hc_head C' url = hc_head (hi_client self) url"
    using assms by (simp_all add: agree_on_def)
  have sel: "hi_client (self\<lparr>hi_client := C'\<rparr>) = C'" "hi_fs (self\<lparr>hi_client := C'\<rparr>) = hi_fs self" by simp_all
  show ?thesis unfolding visit_url_def fetch_url_def same_page sel same by (rule refl)
qed

definition under_base :: "('w, 'u) web_libs \<Rightarrow> ('w, 'u) http_importer \<Rightarrow> 'u \<Rightarrow> bool" where
  "under_base L self u \<longleftrightarrow> starts_with (ur_as_str (wl_url L) (hi_base_url self)) (ur_as_str (wl_url L) u)"

lemma import_urls_confined:
  assumes "import_urls H L self uuid urls n w = Some r" "\<forall>u \<in> set urls. agree_on (hi_client self) C' u"
    and "\<forall>u. under_base L self u \<longrightarrow> agree_on (hi_client self) C' u"
  shows "import_urls H L (self\<lparr>hi_client := C'\<rparr>) uuid urls n w = Some r"
  using assms
proof (induction rule: import_urls.raw_induct[rotated, consumes 1])
  case (1 f H L self uuid urls n w r)
  show ?case
  proof (cases urls)
    case Nil
    then show ?thesis using 1(2) by (simp add: import_urls_simps)
  next
    case (Cons url rest)
    obtain v w1 where v: "visit_url H L self (uuid url) url w = (v, w1)" by (metis prod.exhaust)
    have v': "visit_url H L (self\<lparr>hi_client := C'\<rparr>) (uuid url) url w = (v, w1)" using visit_same[of self C' url] 1(3) Cons v by simp
    obtain m where n: "n = Suc m" using 1(2) Cons by (cases n) (auto simp: acquire_def)
    show ?thesis
    proof (cases v)
      case (Inl e)
      then show ?thesis using 1(2) Cons v v' n by (simp add: import_urls_simps acquire_def)
    next
      case (Inr lp)
      then obtain links permit where lp: "v = Inr (links, permit)" by (cases lp) auto
      have "\<forall>l \<in> set links. agree_on (hi_client self) C' l"
        using visit_links[OF v[unfolded lp]] page_links_under_base 1(4) by (fastforce simp: under_base_def)
      moreover obtain q m2 w2 where q: "f H L self uuid links (permits_below permit m) w1 = Some (q, m2, w2)"
        "(case q of Inl e \<Rightarrow> Some (Inl e, permits_after permit m2, w2) | Inr _ \<Rightarrow> f H L self uuid rest (permits_after permit m2) w2) = Some r"
        using 1(2) Cons v lp n by (auto simp: Option.bind_eq_Some_conv acquire_def)
      ultimately have "import_urls H L (self\<lparr>hi_client := C'\<rparr>) uuid links (permits_below permit m) w1 = Some (q, m2, w2)" using 1(1)[OF q(1)] 1(4) by blast
      moreover have "import_urls H L (self\<lparr>hi_client := C'\<rparr>) uuid rest (permits_after permit m2) w2 = Some r" if "q = Inr ()"
        using 1(1)[of H L self uuid rest "permits_after permit m2" w2 r] q(2) that 1(3,4) Cons by simp
      ultimately show ?thesis using q(2) Cons v' lp n by (cases q) (auto simp: import_urls_simps)
    qed
  qed
qed

lemma agree_on_sym: "agree_on C C' u = agree_on C' C u"
  by (auto simp: agree_on_def)

text \<open>Pages that only lead to each other are followed for ever.\<close>

definition endless :: "hashing \<Rightarrow> ('w, 'u) web_libs \<Rightarrow> ('w, 'u) http_importer \<Rightarrow> ('w \<Rightarrow> bool) \<Rightarrow> 'u set \<Rightarrow> bool" where
  "endless H L self I P \<longleftrightarrow> (\<forall>u w uuid. u \<in> P \<longrightarrow> I w \<longrightarrow>
    (\<exists>l ls w'. visit_url H L self uuid u w = (Inr (l # ls, PermitDropped), w') \<and> l \<in> P \<and> I w'))"

lemma endless_diverges:
  assumes "endless H L self I P" "u \<in> P" "I w"
  shows "import_urls H L self uuid (u # us) n w = None"
proof -
  have no: "\<not> (endless H L self I P \<and> urls \<noteq> [] \<and> hd urls \<in> P \<and> I w)" if "import_urls H L self uuid urls n w = Some r" for urls n w r
    using that
  proof (induction rule: import_urls.raw_induct[rotated, consumes 1])
    case (1 f H L self uuid urls n w r)
    show ?case
    proof
      assume a: "endless H L self I P \<and> urls \<noteq> [] \<and> hd urls \<in> P \<and> I w"
      then obtain u us where u: "urls = u # us" "u \<in> P" by (cases urls) auto
      obtain l ls w' where v: "visit_url H L self (uuid u) u w = (Inr (l # ls, PermitDropped), w')" "l \<in> P" "I w'"
        using a u(2) unfolding endless_def by blast
      obtain m q where "f H L self uuid (l # ls) m w' = Some q"
        using 1(2) u(1) v(1) by (auto simp: Option.bind_eq_Some_conv split: if_splits)
      then show False using 1(1)[of H L self uuid "l # ls" m w' q] a v by simp
    qed
  qed
  show ?thesis
  proof (cases "import_urls H L self uuid (u # us) n w")
    case (Some r)
    from no[OF this] assms show ?thesis by simp
  qed
qed

section \<open>Visiting pages and files\<close>

text \<open>A server that always gives the same answer.\<close>

definition serves :: "('w, 'u) http_client \<Rightarrow> 'u \<Rightarrow> http_response \<Rightarrow> bool" where
  "serves C u res \<longleftrightarrow> (\<forall>w. hc_get C u w = (Inr res, w))"

definition web_ref :: "hashing \<Rightarrow> bytes \<Rightarrow> int \<Rightarrow> u32 \<Rightarrow> file_ref" where
  "web_ref H c ts nanos = set_timestamp (of_int ts) nanos (FileRef_new (h_blake3 H c) (of_nat (length c)))"

lemma web_ref_simps [simp]:
  "fr_size (web_ref H c ts ns) = of_nat (length c)" "fr_timestamp (web_ref H c ts ns) = Some (of_int ts)"
  "fr_timestamp_subsec_nanos (web_ref H c ts ns) = Some ns" "live_file (Some (web_ref H c ts ns)) = Some (web_ref H c ts ns)"
  by (simp_all add: web_ref_def FileRef_new_def live_file_def FileRef_is_tombstone_def FileRef_ref_type_def)

context file_world
begin

lemma visit_page:
  assumes w: "ready w" and self: "hi_fs self = fs" and key: "key_for_url L self u \<in> paths" "live_file (files_at w (key_for_url L self u)) = None"
    and page: "serves (hi_client self) u res" "is_success res" "is_html res" "rs_text res = Inr t"
  shows "\<exists>w'. visit_url H L self uuid u w = (Inr (page_links L self u t, PermitDropped), w') \<and> ready w' \<and> files_at w' = files_at w"
proof -
  obtain w' where w': "FS5_file_get fs (key_for_url L self u) w = (None, w')" "ready w'" "files_at w' = files_at w"
    using get_law[OF w key(1)] key(2) by metis
  have "visit_url H L self uuid u w = (Inr (page_links L self u t, PermitDropped), w')"
    using w'(1) page self
    by (simp add: visit_url_def Let_def fetch_url_def act_bind_def serves_def is_html_def handle_html_page_def act_ok_def)
  then show ?thesis using w' by blast
qed

lemma visit_file:
  assumes w: "ready w" and self: "hi_fs self = fs" "hi_blob_store self = store"
    and key: "key_for_url L self u \<in> paths" "live_file (files_at w (key_for_url L self u)) = None"
    and res: "serves (hi_client self) u res" "is_success res" "\<not> is_html res" "stream_items (rs_stream res) = map Inr cs"
      "last_modified L res = Some (ts, nanos)" and room: "blob w (h_blake3 H (concat cs)) \<in> {None, Some (concat cs)}"
  shows "\<exists>w'. visit_url H L self uuid u w = (Inr ([], PermitHeld), w') \<and> ready w'
    \<and> files_at w' = (files_at w)(key_for_url L self u \<mapsto> web_ref H (concat cs) ts nanos)
    \<and> blob w' = (blob w)(h_blake3 H (concat cs) \<mapsto> concat cs)"
proof -
  let ?k = "key_for_url L self u" and ?c = "concat cs"
  let ?b = "\<lparr>bid_hash = h_blake3 H ?c, bid_size = of_nat (length ?c)\<rparr>"
  obtain w1 where 1: "FS5_file_get fs ?k w = (None, w1)" "ready w1" "files_at w1 = files_at w" "blob w1 = blob w"
    using get_law[OF w key(1)] key(2) by metis
  obtain w2 where 2: "BlobStore_import_stream H store uuid (rs_stream res) w1 = (Inr ?b, w2)" "ready w2" "files_at w2 = files_at w"
    "blob w2 = (blob w)(h_blake3 H ?c \<mapsto> ?c)"
    using import_law[OF 1(2) import_op_intros(3)[OF res(4), where uuid = uuid]] room 1(3,4) by auto
  obtain w3 where 3: "FS5_file_put fs ?k (web_ref H ?c ts nanos) w2 = (Inr (), w3)" "ready w3"
    "files_at w3 = (files_at w)(?k \<mapsto> web_ref H ?c ts nanos)" "blob w3 = blob w2"
    using put_law[OF 2(2) key(1)] 2(3) by metis
  have put: "FS5_file_put fs ?k (set_timestamp (of_int ts) nanos (FileRef_from_blob_id ?b)) w2 = (Inr (), w3)"
    using 3(1) by (simp add: web_ref_def FileRef_from_blob_id_def)
  have "visit_url H L self uuid u w = (Inr ([], PermitHeld), w3)"
    using 1(1) 2(1) put res self
    by (simp add: visit_url_def Let_def fetch_url_def act_bind_def serves_def is_html_def handle_file_def act_ok_def)
  then show ?thesis using 2 3 by auto
qed

lemma visit_unchanged:
  assumes w: "ready w" and self: "hi_fs self = fs" and key: "key_for_url L self u \<in> paths" "live_file (files_at w (key_for_url L self u)) = Some f"
    and head: "\<And>w. hc_head (hi_client self) u w = (Inr res, w)" "\<not> remote_changed L res f"
  shows "\<exists>w'. visit_url H L self uuid u w = (Inr ([], PermitHeld), w') \<and> ready w' \<and> files_at w' = files_at w \<and> blob w' = blob w"
proof -
  obtain w' where w': "FS5_file_get fs (key_for_url L self u) w = (Some f, w')" "ready w'" "files_at w' = files_at w" "blob w' = blob w"
    using get_law[OF w key(1)] key(2) by metis
  have "visit_url H L self uuid u w = (Inr ([], PermitHeld), w')"
    using w'(1) head self by (simp add: visit_url_def Let_def act_bind_def act_ok_def)
  then show ?thesis using w' by blast
qed

end

section \<open>Properties\<close>

text \<open>C28. A crawl stays under its base. Whatever the server and the pages are, importing a URL depends only on the answers for that URL
  itself and for URLs that begin with the base URL: with another client that agrees on these, the import returns the same result and the
  same world, or does not return either.\<close>

theorem http_crawl_stays_under_base:
  assumes "agree_on (hi_client self) C' url" and "\<And>u. under_base L self u \<Longrightarrow> agree_on (hi_client self) C' u"
  shows "import_url H L (self\<lparr>hi_client := C'\<rparr>) uuid url w = import_url H L self uuid url w"
proof -
  let ?there = "import_urls H L (self\<lparr>hi_client := C'\<rparr>) uuid [url] (hi_permits self) w"
  have "?there = import_urls H L self uuid [url] (hi_permits self) w"
  proof (cases "import_urls H L self uuid [url] (hi_permits self) w")
    case (Some r)
    then show ?thesis using import_urls_confined[of H L self uuid "[url]" "hi_permits self" w r C'] assms by simp
  next
    case None
    have "?there \<noteq> Some r" for r
      using import_urls_confined[of H L "self\<lparr>hi_client := C'\<rparr>" uuid "[url]" "hi_permits self" w r "hi_client self"] assms None
      by (auto simp: under_base_def agree_on_sym)
    then show ?thesis using None by (cases ?there) auto
  qed
  then show ?thesis by (simp add: import_url_def)
qed

text \<open>C29. A crawl of a finite site whose links do not go round returns, even with a single permit. The links that count are those the server
  ever gives from a page to another page under the base, by a reference that is not a query, a fragment or relative to the directory; a page that links
  to itself or out of the base does no harm. When these links are finitely many and form no cycle, the import of any list of URLs with any
  positive number of permits returns, with an error or not, whatever the store and the file system answer, and all its permits are free again.\<close>

theorem http_crawl_returns:
  assumes "finite (site_links L self)" "acyclic (site_links L self)" "0 < n"
  shows "(\<exists>r w'. import_urls H L self uuid urls n w = Some (r, n, w'))
    \<and> (0 < hi_permits self \<longrightarrow> (\<exists>r w'. import_url H L self uuid url w = Some (r, w')))"
proof -
  have "\<exists>r w'. import_urls H L self uuid us m w = Some (r, m, w')" if "0 < m" for us m
    using import_urls_returns[OF assms(1,2), of H uuid us "m - 1" w] that by simp
  from this[OF assms(3), of urls] this[of "hi_permits self" "[url]"] show ?thesis by (auto simp: import_url_def)
qed

text \<open>Pages that link to each other are imported for ever. Pages are not stored, so nothing tells that one was visited: when each page
  of a set links first to a page of the set, none of them is stored as a file and the server keeps serving them, importing any of them
  does not return.\<close>

theorem linked_pages_never_return:
  assumes w: "local_ready H D x path origin S w" and self: "hi_fs self = actor_fs (mem_env H D sg xx x)"
    and pages: "\<And>u. u \<in> P \<Longrightarrow> key_for_url L self u \<in> S \<and> live_file (root_files w (key_for_url L self u)) = None
      \<and> (\<exists>res t l ls. serves (hi_client self) u res \<and> is_success res \<and> is_html res \<and> rs_text res = Inr t
           \<and> page_links L self u t = l # ls \<and> l \<in> P)"
    and u: "u \<in> P"
  shows "import_url H L self uuid u w = None"
proof -
  let ?I = "\<lambda>v. local_ready H D x path origin S v \<and> root_files v = root_files w"
  have "endless H L self ?I P"
    unfolding endless_def
  proof (intro allI impI)
    fix u v uuid assume u: "u \<in> P" and v: "?I v"
    from pages[OF u] obtain res t l ls where p: "key_for_url L self u \<in> S" "live_file (root_files w (key_for_url L self u)) = None"
      "serves (hi_client self) u res" "is_success res" "is_html res" "rs_text res = Inr t" "page_links L self u t = l # ls" "l \<in> P" by blast
    show "\<exists>l ls w'. visit_url H L self uuid u v = (Inr (l # ls, PermitDropped), w') \<and> l \<in> P \<and> ?I w'"
      using local_files.visit_page[OF conjunct1[OF v] self p(1) _ p(3-6), of uuid] p(2,7,8) conjunct2[OF v] by auto
  qed
  then show ?thesis using endless_diverges[of H L self ?I P u w uuid "[]" "hi_permits self"] u w by (simp add: import_url_def)
qed

text \<open>Importing a file from the web. A URL that is not stored and gives a dated response that is no page: the import returns without
  error, the file is stored under the URL's key with its hash, size and date, and its content reads back. When the server then
  announces the same length and date, importing it again changes no file and no blob. The blob store holds nothing else under the
  hash of the content.\<close>

theorem http_file_imported:
  assumes w: "local_ready H D x path origin S w" and self: "hi_fs self = actor_fs (mem_env H D sg xx x)" "hi_blob_store self = mount_store"
      "0 < hi_permits self"
    and key: "k = key_for_url L self u" "k \<in> S" "live_file (root_files w k) = None"
    and res: "serves (hi_client self) u res" "is_success res" "\<not> is_html res" "stream_items (rs_stream res) = map Inr cs"
      "last_modified L res = Some (ts, nanos)"
    and room: "mem_blob H (snd w) (h_blake3 H (concat cs)) \<in> {None, Some (concat cs)}"
  shows "\<exists>w'. import_url H L self uuid u w = Some (Inr (), w')
    \<and> fst (FS5_file_get (hi_fs self) k w') = Some (web_ref H (concat cs) ts nanos)
    \<and> BlobStore_read_as_bytes H mount_store (h_blake3 H (concat cs)) 0 None w' = Inr (concat cs)
    \<and> (\<forall>k'. k' \<noteq> k \<longrightarrow> root_files w' k' = root_files w k')
    \<and> (\<forall>head. (\<forall>v. hc_head (hi_client self) u v = (Inr head, v)) \<and> last_modified L head = Some (ts, nanos)
         \<and> Option.bind (rs_header head ''content-length'') parse_u64 = Some (of_nat (length (concat cs))) \<longrightarrow>
         (\<exists>w''. import_url H L self uuid' u w' = Some (Inr (), w'') \<and> root_files w'' = root_files w' \<and> mem_blob H (snd w'') = mem_blob H (snd w')))"
proof -
  let ?r = "web_ref H (concat cs) ts nanos"
  obtain w' where v: "visit_url H L self (uuid u) u w = (Inr ([], PermitHeld), w')" "local_ready H D x path origin S w'"
    "root_files w' = (root_files w)(k \<mapsto> ?r)" "mem_blob H (snd w') = (mem_blob H (snd w))(h_blake3 H (concat cs) \<mapsto> concat cs)"
    using local_files.visit_file[OF w self(1,2) key(2)[unfolded key(1)] key(3)[unfolded key(1)] res room] unfolding key(1) by blast
  have import: "import_url H L self uu u v = Some (Inr (), v')" if "visit_url H L self (uu u) u v = (Inr ([], PermitHeld), v')" for uu v v'
    using that self(3) by (cases "hi_permits self") (simp_all add: import_url_def import_urls_simps)
  have get: "fst (FS5_file_get (hi_fs self) k w') = Some ?r"
    using local_files.get_law[OF v(2) key(2), of sg xx] v(3) unfolding self by fastforce
  have read: "BlobStore_read_as_bytes H mount_store (h_blake3 H (concat cs)) 0 None w' = Inr (concat cs)"
    using local_files.read_law[OF v(2), of "h_blake3 H (concat cs)" "concat cs" 0 None] v(4) by (simp add: slice_of_def)
  have again: "\<exists>w''. import_url H L self uuid' u w' = Some (Inr (), w'') \<and> root_files w'' = root_files w' \<and> mem_blob H (snd w'') = mem_blob H (snd w')"
    if "\<And>v. hc_head (hi_client self) u v = (Inr head, v)" "last_modified L head = Some (ts, nanos)"
      "Option.bind (rs_header head ''content-length'') parse_u64 = Some (of_nat (length (concat cs)))" for head
  proof -
    have "\<not> remote_changed L head ?r" using that(2,3) by (simp add: remote_changed_def)
    then show ?thesis
      using local_files.visit_unchanged[OF v(2) self(1) key(2)[unfolded key(1)], of ?r head "uuid' u"] that(1) v(3) import[of uuid' w'] key(1) by auto
  qed
  show ?thesis using import[of uuid, OF v(1)] get read v(3) again by (intro exI[of _ w']) auto
qed

text \<open>A site with two pages that link to each other and a file; the text of a page is its link.\<close>

definition demo_urls :: "string url_ops" where
  "demo_urls = \<lparr>ur_scheme = \<lambda>_. ''https'', ur_host_str = \<lambda>_. Some ''h'', ur_path = \<lambda>u. u, ur_as_str = \<lambda>u. u,
    ur_make_relative = \<lambda>b u. if starts_with b u then Some (drop (length b) u) else None, ur_join = \<lambda>b href. Some (''//h/'' @ href)\<rparr>"

definition demo_web :: "('w, string) web_libs" where
  "demo_web = \<lparr>wl_url = demo_urls, wl_parse_date = \<lambda>d. Some (int (length d), 5), wl_now = \<lambda>_. (0, 0), wl_hrefs = \<lambda>t. [t]\<rparr>"

definition demo_page :: "string \<Rightarrow> http_response" where
  "demo_page link = \<lparr>rs_status = 200, rs_header = (\<lambda>h. if h = ''content-type'' then Some ''text/html; charset=utf-8'' else None),
    rs_text = Inr link, rs_stream = []\<rparr>"

definition demo_body :: http_response where
  "demo_body = \<lparr>rs_status = 200, rs_header = (\<lambda>h. if h = ''content-length'' then Some ''3'' else if h = ''last-modified'' then Some ''today'' else None),
    rs_text = Inr [], rs_stream = [Ready (Inr [1, 2]), Pending, Ready (Inr [3])]\<rparr>"

definition demo_site :: "string \<Rightarrow> http_response" where
  "demo_site u = (if u = ''//h/a'' then demo_page ''b'' else if u = ''//h/b'' then demo_page ''a'' else demo_body)"

definition demo_crawler :: "(dir_actor option \<times> mem_fs, string) http_importer" where
  "demo_crawler = \<lparr>hi_client = \<lparr>hc_head = \<lambda>u w. (Inr (demo_site u), w), hc_get = \<lambda>u w. (Inr (demo_site u), w)\<rparr>, hi_permits = 4,
    hi_fs = actor_fs demo_local_env, hi_blob_store = mount_store, hi_base_url = ''//h/'', hi_use_base_relative_keys = True\<rparr>"

lemma demo_key: "key_for_url demo_web demo_crawler (''//h/'' @ n) = n"
  by (simp add: key_for_url_def demo_web_def demo_crawler_def demo_urls_def starts_with_def)

lemma demo_links: "page_links demo_web demo_crawler u t = (if t \<noteq> [] \<and> hd t \<in> {CHR ''?'', CHR ''#'', CHR ''.''} \<or> ''//h/'' @ t = u then [] else [''//h/'' @ t])"
  by (simp add: page_links_def demo_web_def demo_urls_def demo_crawler_def starts_with_def)

lemma demo_serves: "serves (hi_client demo_crawler) u (demo_site u)" "is_success (demo_site u)"
  by (simp_all add: serves_def demo_crawler_def demo_site_def demo_page_def demo_body_def is_success_def)

lemma demo_crawler_fields: "hi_fs demo_crawler = actor_fs demo_local_env" "hi_blob_store demo_crawler = mount_store" "0 < hi_permits demo_crawler"
  by (simp_all add: demo_crawler_def)

lemma demo_local_empty: "root_files demo_local n = None" "mem_blob demo_hashing (snd demo_local) h = None"
  by (simp_all add: root_files_def demo_local_def files_of_def DirV1_new_def demo_world_def mem_blob_fst blob_at_def MemoryStore_new_def)

theorem http_crawl_stays_under_base_witness:
  "import_url demo_hashing demo_web (demo_crawler\<lparr>hi_client := \<lparr>hc_head = \<lambda>u w. (Inr (demo_site u), w),
      hc_get = \<lambda>u w. if starts_with ''//h/'' u then (Inr (demo_site u), w) else (Inl (Anyhow ''elsewhere''), w)\<rparr>\<rparr>) (\<lambda>_. ''u'') ''//h/f'' demo_local
    = import_url demo_hashing demo_web demo_crawler (\<lambda>_. ''u'') ''//h/f'' demo_local"
  by (rule http_crawl_stays_under_base)
    (simp_all add: agree_on_def under_base_def demo_crawler_def demo_web_def demo_urls_def fun_eq_iff starts_with_def)

text \<open>A page that links to itself and a page that links to a file, crawled with one permit.\<close>

definition demo_tree :: "string \<Rightarrow> http_response" where
  "demo_tree u = (if u = ''//h/a'' then demo_page ''a'' else if u = ''//h/b'' then demo_page ''f'' else demo_body)"

theorem http_crawl_returns_witness:
  "\<exists>r w'. import_urls demo_hashing demo_web (demo_crawler\<lparr>hi_client := \<lparr>hc_head = \<lambda>u w. (Inr demo_body, w), hc_get = \<lambda>u w. (Inr (demo_tree u), w)\<rparr>\<rparr>)
      (\<lambda>_. ''u'') [''//h/a'', ''//h/b''] 1 demo_local = Some (r, 1, w')"
proof -
  let ?self = "demo_crawler\<lparr>hi_client := \<lparr>hc_head = \<lambda>u w. (Inr demo_body, w), hc_get = \<lambda>u w. (Inr (demo_tree u), w)\<rparr>\<rparr>"
  have "site_links demo_web ?self = {(''//h/b'', ''//h/f'')}"
    by (auto simp: site_links_def demo_tree_def demo_page_def demo_body_def demo_web_def demo_urls_def demo_crawler_def is_html_def starts_with_def split: if_splits)
  then have "finite (site_links demo_web ?self)" "acyclic (site_links demo_web ?self)"
    by (simp_all add: acyclic_def) (auto elim: tranclE)
  from http_crawl_returns[OF this, of 1] show ?thesis by simp
qed

theorem linked_pages_never_return_witness:
  "import_url demo_hashing demo_web demo_crawler (\<lambda>_. ''u'') ''//h/a'' demo_local = None"
proof -
  have "libs_ok demo_hashing (short_codec demo_written) demo_fresh" using demo_libs_ok short_codec_ok by (simp add: libs_ok_def)
  moreover have "unpromoted {''a'', ''b''}" by (simp add: unpromoted_def split_once_def)
  ultimately have w: "local_ready demo_hashing (short_codec demo_written) demo_fresh demo_local_path DirV1_new {''a'', ''b''} demo_local"
    by (simp add: local_ready_def demo_local_def root_session_def root_link_def DirActor_new_def DirContext_new_def same_frame_def
        local_paths_def DirV1_new_def DirHeader_new_def bt_contains_def path_parent_def demo_local_path_def)
  have keys: "key_for_url demo_web demo_crawler ''//h/a'' = ''a''" "key_for_url demo_web demo_crawler ''//h/b'' = ''b''"
    using demo_key[of "''a''"] demo_key[of "''b''"] by simp_all
  have html: "is_html (demo_site u)" "rs_text (demo_site u) = Inr (if u = ''//h/a'' then ''b'' else ''a'')" if "u \<in> {''//h/a'', ''//h/b''}" for u
    using that by (auto simp: demo_site_def demo_page_def is_html_def starts_with_def)
  show ?thesis
  proof (rule linked_pages_never_return[OF w demo_crawler_fields(1)[unfolded demo_local_env_def], of "{''//h/a'', ''//h/b''}"])
    fix u assume u: "u \<in> {''//h/a'', ''//h/b''}"
    have "\<exists>l ls. page_links demo_web demo_crawler u (if u = ''//h/a'' then ''b'' else ''a'') = l # ls \<and> l \<in> {''//h/a'', ''//h/b''}"
      using u by (auto simp: demo_links)
    then show "key_for_url demo_web demo_crawler u \<in> {''a'', ''b''} \<and> live_file (root_files demo_local (key_for_url demo_web demo_crawler u)) = None
      \<and> (\<exists>res t l ls. serves (hi_client demo_crawler) u res \<and> is_success res \<and> is_html res \<and> rs_text res = Inr t
           \<and> page_links demo_web demo_crawler u t = l # ls \<and> l \<in> {''//h/a'', ''//h/b''})"
      using u keys demo_serves[of u] html[OF u] demo_local_empty(1) by (auto simp: live_file_def)
  qed simp
qed

theorem http_file_imported_witness:
  "\<exists>w'. import_url demo_hashing demo_web demo_crawler (\<lambda>_. ''u'') ''//h/f'' demo_local = Some (Inr (), w')
    \<and> fst (FS5_file_get (hi_fs demo_crawler) ''f'' w') = Some (web_ref demo_hashing [1, 2, 3] 5 5)
    \<and> BlobStore_read_as_bytes demo_hashing mount_store (h_blake3 demo_hashing [1, 2, 3]) 0 None w' = Inr [1, 2, 3]
    \<and> (\<exists>w''. import_url demo_hashing demo_web demo_crawler (\<lambda>_. ''v'') ''//h/f'' w' = Some (Inr (), w'') \<and> root_files w'' = root_files w')"
proof -
  have key: "''f'' = key_for_url demo_web demo_crawler ''//h/f''" using demo_key[of "''f''"] by simp
  have site: "demo_site ''//h/f'' = demo_body" by (simp add: demo_site_def)
  have body: "\<not> is_html demo_body" "stream_items (rs_stream demo_body) = map Inr [[1, 2], [3]]" "last_modified demo_web demo_body = Some (5, 5)"
    by (simp_all add: demo_body_def is_html_def starts_with_def last_modified_def demo_web_def)
  have head: "hc_head (hi_client demo_crawler) ''//h/f'' v = (Inr demo_body, v)" for v by (simp add: demo_crawler_def site)
  have size: "Option.bind (rs_header demo_body ''content-length'') parse_u64 = Some 3"
    by (simp add: demo_body_def parse_u64_def)
  have empty: "live_file (root_files demo_local ''f'') = None" by (simp add: demo_local_empty live_file_def)
  show ?thesis
    using http_file_imported[OF demo_local_ready demo_crawler_fields(1)[unfolded demo_local_env_def] demo_crawler_fields(2,3) key _ empty
        demo_serves(1)[of "''//h/f''", unfolded site] demo_serves(2)[of "''//h/f''", unfolded site] body, of "\<lambda>_. ''u''" "\<lambda>_. ''v''"] head size body(3)
    by (auto simp: demo_local_empty)
qed

end
