(* ===== verification/Node_Sync.thy ===== *)
theory Node_Sync
  imports File_World Client_Roundtrip
begin

text \<open>
  File synchronisation of a node: \<^verbatim>\<open>s5_node/src/sync.rs\<close>. A sync keeps a plaintext file system on the disk and an encrypted one on a
  node that is not trusted; a round pushes the snapshot of the first into the second and pulls the result back. The locale
  \<open>sync_end\<close> is what a round needs of either file system; it is met by a root in a local file and by a root on a remote node.
\<close>

section \<open>Opening a local root\<close>

text \<open>\<^verbatim>\<open>DirContext::open_local_root\<close>. The operating system and the database are a table of operations; the pinner of the context is on
  the registry that is returned.\<close>

record 'w root_os =
  ro_exists :: "string \<Rightarrow> 'w \<Rightarrow> bool"
  ro_create_dir_all :: "string \<Rightarrow> ('w, unit) action"
  ro_write :: "string \<Rightarrow> bytes \<Rightarrow> ('w, unit) action"
  ro_open_locked :: "string \<Rightarrow> ('w, unit) action"
  ro_local_store :: "string \<Rightarrow> 'w store"
  ro_redb_open :: "string \<Rightarrow> ('w, 'w registry) action"

text \<open>\<^verbatim>\<open>Path::parent\<close>, also of what is directly below the root.\<close>

definition parent_dir :: "string \<Rightarrow> string option" where
  "parent_dir p =
    (case path_parent p of
       None \<Rightarrow> None
     | Some d \<Rightarrow> Some (if d = [] \<and> starts_with ''/'' p then ''/'' else d))"

definition DirContext_open_local_root ::
  "'w root_os \<Rightarrow> dir_codec \<Rightarrow> string \<Rightarrow> ('w, 'w blob_store \<times> 'w registry \<times> dir_context) action" where
  "DirContext_open_local_root OS D path =
    (let root_file = path_join path ''root.fs5.cbor'';
         snapshots_file = path_join path ''snapshots.fs5.cbor''
     in act_bind (\<lambda>w. if ro_exists OS root_file w then (Inr (), w)
                      else case parent_dir root_file of
                             None \<Rightarrow> (Inl (Anyhow ''path cannot be the root directory''), w)
                           | Some parent \<Rightarrow>
                               act_bind (ro_create_dir_all OS parent) (\<lambda>_. ro_write OS root_file (DirV1_to_bytes D DirV1_new)) w) (\<lambda>_.
        act_bind (\<lambda>w. if ro_exists OS snapshots_file w then (Inr (), w) else ro_write OS snapshots_file (DirV1_to_bytes D DirV1_new) w) (\<lambda>_.
        act_bind (ro_open_locked OS root_file) (\<lambda>_.
        let meta_store = ro_local_store OS path
        in act_bind (ro_redb_open OS path) (\<lambda>registry.
           act_ok (BlobStore_new meta_store, registry, DirContext_new (LinkLocalFile root_file)))))))"

section \<open>Keys and file systems\<close>

definition SyncKeys_stream_key :: "sync_keys \<Rightarrow> stream_key" where
  "SyncKeys_stream_key self = PublicKeyEd25519 (sk_public_key self)"

definition SyncKeys_fs_signing_key :: "sync_keys \<Rightarrow> signing_key" where
  "SyncKeys_fs_signing_key self = sk_signing_key_bytes self"

definition node_derive_sync_keys :: "client_crypto \<Rightarrow> bytes \<Rightarrow> sync_keys" where
  "node_derive_sync_keys X shared_secret =
    (case derive_sync_keys X shared_secret of (encryption_key, signing_key_bytes, public_key) \<Rightarrow>
       \<lparr>sk_encryption_key = encryption_key, sk_signing_key_bytes = signing_key_bytes, sk_public_key = public_key\<rparr>)"

text \<open>What the synchronisation calls: the endpoint, the cryptography, \<^verbatim>\<open>DirContext::open_local_root\<close> with the stores it opens, and the
  start of an actor in \<^verbatim>\<open>FS5::open\<close>.\<close>

record ('w, 'ep) sync_env =
  se_net :: "('w, 'ep) iroh_net"
  se_crypto :: client_crypto
  se_open_local_root :: "string \<Rightarrow> ('w, 'w blob_store \<times> 'w registry \<times> dir_context) action"
  se_spawn :: "'w blob_store \<Rightarrow> 'w registry \<Rightarrow> dir_context \<Rightarrow> ('w, 'w dir_handle) action"

definition open_fs :: "('w, 'ep) sync_env \<Rightarrow> 'w blob_store \<Rightarrow> 'w registry \<Rightarrow> dir_context \<Rightarrow> ('w, 'w fs5) action" where
  "open_fs V store registry context =
    act_bind (se_spawn V store registry context) (\<lambda>h. act_ok (FS5_open (\<lambda>_ _ _. h) context))"

definition open_plaintext_fs :: "('w, 'ep) sync_env \<Rightarrow> string \<Rightarrow> ('w, 'w fs5) action" where
  "open_plaintext_fs V path =
    act_bind (se_open_local_root V path) (\<lambda>(store, registry, context). open_fs V store registry context)"

definition open_encrypted_fs ::
  "('w, 'ep) sync_env \<Rightarrow> stream_key \<Rightarrow> sync_keys \<Rightarrow> 'w blobs_client \<Rightarrow> 'w registry_peer \<Rightarrow> ('w, 'w fs5) action" where
  "open_encrypted_fs V stream_key derived blob_client registry =
    open_fs V (BlobStore_new (RemoteBlobStore blob_client)) (RemoteRegistry registry)
      (DirContext_new_encrypted_registry stream_key (SyncKeys_fs_signing_key derived) (sk_encryption_key derived))"

section \<open>Push and pull\<close>

definition push_snapshot :: "'w fs5 \<Rightarrow> 'w fs5 \<Rightarrow> ('w, unit) action" where
  "push_snapshot plaintext encrypted =
    act_bind (FS5_export_snapshot plaintext) (\<lambda>snapshot.
    act_bind (FS5_merge_from_snapshot encrypted snapshot) (\<lambda>_.
    FS5_save encrypted))"

definition pull_snapshot :: "'w fs5 \<Rightarrow> 'w fs5 \<Rightarrow> ('w, unit) action" where
  "pull_snapshot encrypted plaintext =
    act_bind (FS5_export_snapshot encrypted) (\<lambda>snapshot.
    act_bind (FS5_merge_from_snapshot plaintext snapshot) (\<lambda>_.
    FS5_save plaintext))"

text \<open>One round: the body of the loop of a continuous sync, and of a sync that runs once. Failures are only logged.\<close>

definition sync_round :: "('w, 'ep) sync_env \<Rightarrow> 'ep \<Rightarrow> string \<Rightarrow> stream_key \<Rightarrow> sync_keys \<Rightarrow> 'w fs5 \<Rightarrow> 'w \<Rightarrow> 'w" where
  "sync_round V endpoint dial_str stream_key keys plaintext w =
    (case ir_parse_id (se_net V) dial_str of
       Inr pid \<Rightarrow>
         (case open_encrypted_fs V stream_key keys (ir_blobs (se_net V) endpoint pid) (ir_registry (se_net V) endpoint pid) w of
            (Inl _, w) \<Rightarrow> w
          | (Inr encrypted, w) \<Rightarrow>
              snd (pull_snapshot encrypted plaintext (snd (push_snapshot plaintext encrypted w))))
     | Inl _ \<Rightarrow> w)"

section \<open>The syncs of a node\<close>

record node_config_sync =
  sy_local_path :: string
  sy_via_untrusted :: "string list"
  sy_shared_secret :: string
  sy_interval_secs :: "u64 option"

text \<open>A continuous sync is a task that runs a round at every tick.\<close>

record 'w sync_job =
  sj_name :: string
  sj_secs :: u64
  sj_round :: "'w \<Rightarrow> 'w"

definition run_one_sync ::
  "('w, 'ep) sync_env \<Rightarrow> 'ep \<Rightarrow> (string \<Rightarrow> string option) \<Rightarrow> string \<times> node_config_sync \<Rightarrow> ('w, 'w sync_job list) action" where
  "run_one_sync V endpoint peer_id entry =
    (case entry of (name, sync_cfg) \<Rightarrow>
     case sy_via_untrusted sync_cfg of
       [] \<Rightarrow> act_ok []
     | first # _ \<Rightarrow>
        (case peer_id first of
           None \<Rightarrow> act_ok []
         | Some dial_str \<Rightarrow>
             let keys = node_derive_sync_keys (se_crypto V) (map of_char (sy_shared_secret sync_cfg));
                 stream_key = SyncKeys_stream_key keys
             in act_bind (open_plaintext_fs V (sy_local_path sync_cfg)) (\<lambda>plaintext w.
                let round = sync_round V endpoint dial_str stream_key keys plaintext
                in case sy_interval_secs sync_cfg of
                     Some secs \<Rightarrow> (Inr [\<lparr>sj_name = name, sj_secs = secs, sj_round = round\<rparr>], w)
                   | None \<Rightarrow> (Inr [], round w))))"

text \<open>A directory that cannot be opened ends the loop; the tasks started before keep running.\<close>

fun run_file_sync ::
  "('w, 'ep) sync_env \<Rightarrow> 'ep \<Rightarrow> (string \<Rightarrow> string option) \<Rightarrow> (string \<times> node_config_sync) list
   \<Rightarrow> 'w \<Rightarrow> (error + unit) \<times> 'w sync_job list \<times> 'w" where
  "run_file_sync V endpoint peer_id [] w = (Inr (), [], w)"
| "run_file_sync V endpoint peer_id (entry # rest) w =
    (case run_one_sync V endpoint peer_id entry w of
       (Inl e, w) \<Rightarrow> (Inl e, [], w)
     | (Inr jobs, w) \<Rightarrow>
        (case run_file_sync V endpoint peer_id rest w of (r, jobs', w) \<Rightarrow> (r, jobs @ jobs', w)))"

section \<open>Merging as a function of directories\<close>

definition merged_dir :: "dir_v1 \<Rightarrow> dir_v1 \<Rightarrow> dir_v1" where
  "merged_dir st d = da_state (merge_header_fields (dv_header d) (merge_entries_local (dv_dirs d) (dv_files d) (demo_actor st)))"

lemma fold_state:
  assumes "\<And>e a b. da_state a = da_state b \<Longrightarrow> da_state (g e a) = da_state (g e b)"
  shows "da_state a = da_state b \<Longrightarrow> da_state (fold g xs a) = da_state (fold g xs b)"
proof (induction xs arbitrary: a b)
  case (Cons e xs)
  show ?case using Cons.IH[OF assms[OF Cons.prems]] by simp
qed simp

lemma merge_entry_state:
  "da_state a = da_state b \<Longrightarrow> da_state (merge_dir_entry e a) = da_state (merge_dir_entry e b)"
  "da_state a = da_state b \<Longrightarrow> da_state (merge_file_entry e' a) = da_state (merge_file_entry e' b)"
  by (cases e; simp add: merge_dir_entry_def Let_def split: option.split)
     (cases e'; simp add: merge_file_entry_def Let_def split: option.split)

lemma merge_header_state: "dv_files (da_state (merge_header_fields h a)) = dv_files (da_state a)"
  "dv_dirs (da_state (merge_header_fields h a)) = dv_dirs (da_state a)"
  "dh_shard_level (dv_header (da_state (merge_header_fields h a))) = dh_shard_level (dv_header (da_state a))"
  by (simp_all add: merge_header_fields_def Let_def)

lemma merged_dir_state: "da_state (merge_header_fields (dv_header d) (merge_entries_local (dv_dirs d) (dv_files d) a)) = merged_dir (da_state a) d"
proof -
  have "da_state (merge_entries_local (dv_dirs d) (dv_files d) a) = da_state (merge_entries_local (dv_dirs d) (dv_files d) (demo_actor (da_state a)))"
    unfolding merge_entries_local_def by (intro fold_state merge_entry_state) (simp_all add: demo_actor_def)
  then show ?thesis by (simp add: merged_dir_def merge_header_fields_def Let_def)
qed

lemma merged_dir_entries:
  assumes "disjoint_names st" "disjoint_names d"
  shows "disjoint_names (merged_dir st d)" "entry_at (merged_dir st d) n = lww (entry_at st n) (entry_at d n)"
proof -
  have s: "da_state (demo_actor st) = st" by (simp add: demo_actor_def)
  have h: "disjoint_names (da_state (merge_header_fields h a)) = disjoint_names (da_state a)"
    "entry_at (da_state (merge_header_fields h a)) n = entry_at (da_state a) n" for h a
    by (simp_all add: merge_header_state disjoint_names_def entry_at_def split: option.split)
  show "disjoint_names (merged_dir st d)" "entry_at (merged_dir st d) n = lww (entry_at st n) (entry_at d n)"
    using merge_entries_local_at[of "demo_actor st" d] assms by (simp_all add: merged_dir_def h s)
qed

lemma merged_dir_level: "dh_shard_level (dv_header (merged_dir st d)) = dh_shard_level (dv_header st)"
  using merge_entries_local_frame[of "demo_actor st" "dv_dirs d" "dv_files d"]
  by (simp add: merged_dir_def merge_header_state merge_frame_def demo_actor_def)

lemma bt_remove_empty [simp]: "bt_remove k bt_empty = bt_empty"
  by (simp add: bt_eq_iff fun_eq_iff)

lemma quiet_root_merge:
  "quiet_root ctx a \<Longrightarrow> quiet_root ctx (merge_dir_entry e a)"
  "quiet_root ctx a \<Longrightarrow> quiet_root ctx (merge_file_entry e' a)"
  "quiet_root ctx a \<Longrightarrow> quiet_root ctx (merge_header_fields h a)"
  by (cases e; simp add: merge_dir_entry_def Let_def quiet_root_def split: option.split)
     ((cases e'; simp add: merge_file_entry_def Let_def quiet_root_def split: option.split),
      simp add: merge_header_fields_def Let_def quiet_root_def)

lemma quiet_root_merge_all:
  assumes "quiet_root ctx a"
  shows "quiet_root ctx (merge_header_fields h (merge_entries_local ds fs a))"
proof -
  have "quiet_root ctx (fold merge_dir_entry ds' a)" for ds'
    by (rule fold_invariant[where Q = "\<lambda>_. True"]) (simp_all add: assms quiet_root_merge)
  then have "quiet_root ctx (fold merge_file_entry fs' (fold merge_dir_entry ds' a))" for fs' ds'
    by (rule fold_invariant[where Q = "\<lambda>_. True", rotated]) (simp_all add: quiet_root_merge)
  then show ?thesis unfolding merge_entries_local_def by (rule quiet_root_merge(3))
qed

section \<open>The contract of a file system in a sync\<close>

text \<open>\<open>dir\<close> is the directory as the actor has it, \<open>ready n\<close> allows \<open>n\<close> more saves, a \<open>storable\<close> directory can be saved and is then \<open>kept\<close>.\<close>

locale sync_end =
  fixes fs :: "'w fs5" and dir :: "'w \<Rightarrow> dir_v1" and ready :: "nat \<Rightarrow> 'w \<Rightarrow> bool" and unsaved :: "'w \<Rightarrow> bool"
    and storable :: "'w \<Rightarrow> dir_v1 \<Rightarrow> bool" and kept :: "'w \<Rightarrow> dir_v1 \<Rightarrow> bool"
  assumes export_law: "ready n w \<Longrightarrow> FS5_export_snapshot fs w = (Inr (dir w), w)"
    and merge_law: "ready n w \<Longrightarrow> \<exists>w'. FS5_merge_from_snapshot fs d w = (Inr (), w') \<and> ready n w' \<and> unsaved w'
      \<and> dir w' = merged_dir (dir w) d \<and> storable w' = storable w"
    and save_law: "ready (Suc n) w \<Longrightarrow> unsaved w \<Longrightarrow> storable w (dir w) \<Longrightarrow>
      \<exists>w'. FS5_save fs w = (Inr (), w') \<and> ready n w' \<and> dir w' = dir w \<and> kept w' (dir w)"
begin

lemma merge_and_save:
  assumes "ready (Suc n) w" "storable w (merged_dir (dir w) d)"
  shows "\<exists>w'. act_bind (FS5_merge_from_snapshot fs d) (\<lambda>_. FS5_save fs) w = (Inr (), w') \<and> ready n w'
    \<and> dir w' = merged_dir (dir w) d \<and> kept w' (merged_dir (dir w) d)"
proof -
  obtain w1 where w1: "FS5_merge_from_snapshot fs d w = (Inr (), w1)" "ready (Suc n) w1" "unsaved w1" "dir w1 = merged_dir (dir w) d"
    "storable w1 = storable w"
    using merge_law[OF assms(1)] by blast
  obtain w2 where "FS5_save fs w1 = (Inr (), w2)" "ready n w2" "dir w2 = dir w1" "kept w2 (dir w1)"
    using save_law[OF w1(2,3)] assms(2) w1(4,5) by auto
  then show ?thesis using w1 by (auto simp: act_bind_def)
qed

end

text \<open>The two file systems live in worlds of their own.\<close>

definition fs_on_fst :: "'a fs5 \<Rightarrow> ('a \<times> 'b) fs5" where
  "fs_on_fst fs = \<lparr>fs_root = \<lambda>msg. on_fst (fs_root fs msg)\<rparr>"

definition fs_on_snd :: "'b fs5 \<Rightarrow> ('a \<times> 'b) fs5" where
  "fs_on_snd fs = \<lparr>fs_root = \<lambda>msg. on_snd (fs_root fs msg)\<rparr>"

lemma on_fst_bind: "act_bind (on_fst m) (\<lambda>x. on_fst (k x)) = on_fst (act_bind m k)"
  and on_snd_bind: "act_bind (on_snd m') (\<lambda>x. on_snd (k' x)) = on_snd (act_bind m' k')"
  by (auto simp: fun_eq_iff act_bind_def on_fst_def on_snd_def split: prod.splits sum.splits)

lemma fs_on_fst_ops:
  "FS5_export_snapshot (fs_on_fst fs) = on_fst (FS5_export_snapshot fs)"
  "FS5_merge_from_snapshot (fs_on_fst fs) d = on_fst (FS5_merge_from_snapshot fs d)"
  "FS5_save (fs_on_fst fs) = on_fst (FS5_save fs)"
  by (auto simp: fun_eq_iff FS5_export_snapshot_def answer_dir_def FS5_merge_from_snapshot_def answer_done_def FS5_save_def handle_save_if_dirty_def
      fs_on_fst_def act_bind_def act_lift_def act_err_def act_ok_def split: prod.split sum.split actor_answer.split)

lemma fs_on_snd_ops:
  "FS5_export_snapshot (fs_on_snd fs) = on_snd (FS5_export_snapshot fs)"
  "FS5_merge_from_snapshot (fs_on_snd fs) d = on_snd (FS5_merge_from_snapshot fs d)"
  "FS5_save (fs_on_snd fs) = on_snd (FS5_save fs)"
  by (auto simp: fun_eq_iff FS5_export_snapshot_def answer_dir_def FS5_merge_from_snapshot_def answer_done_def FS5_save_def handle_save_if_dirty_def
      fs_on_snd_def act_bind_def act_lift_def act_err_def act_ok_def split: prod.split sum.split actor_answer.split)

locale sync_pair =
  plain: sync_end fs dir ready unsaved storable kept + enc: sync_end fs' dir' ready' unsaved' storable' kept'
  for fs :: "'a fs5" and dir ready unsaved storable kept and fs' :: "'b fs5" and dir' ready' unsaved' storable' kept'
begin

lemma push_then_pull:
  assumes "ready (Suc n) v" "ready' (Suc k) w" "storable' w (merged_dir (dir' w) (dir v))"
    and "storable v (merged_dir (dir v) (merged_dir (dir' w) (dir v)))"
  shows "\<exists>v' w'. push_snapshot (fs_on_fst fs) (fs_on_snd fs') (v, w) = (Inr (), (v, w'))
    \<and> pull_snapshot (fs_on_snd fs') (fs_on_fst fs) (v, w') = (Inr (), (v', w')) \<and> ready n v' \<and> ready' k w'
    \<and> dir' w' = merged_dir (dir' w) (dir v) \<and> dir v' = merged_dir (dir v) (dir' w')
    \<and> kept' w' (dir' w') \<and> kept v' (dir v')"
proof -
  obtain w' where w': "act_bind (FS5_merge_from_snapshot fs' (dir v)) (\<lambda>_. FS5_save fs') w = (Inr (), w')" "ready' k w'"
    "dir' w' = merged_dir (dir' w) (dir v)" "kept' w' (merged_dir (dir' w) (dir v))"
    using enc.merge_and_save[OF assms(2,3)] by blast
  have push: "push_snapshot (fs_on_fst fs) (fs_on_snd fs') (v, w) = (Inr (), (v, w'))"
    using plain.export_law[OF assms(1)] w'(1)
    by (simp add: push_snapshot_def fs_on_fst_ops fs_on_snd_ops on_snd_bind act_bind_def[of "on_fst m" for m] del: on_snd_eq) simp
  obtain v' where v': "act_bind (FS5_merge_from_snapshot fs (dir' w')) (\<lambda>_. FS5_save fs) v = (Inr (), v')" "ready n v'"
    "dir v' = merged_dir (dir v) (dir' w')" "kept v' (merged_dir (dir v) (dir' w'))"
    using plain.merge_and_save[OF assms(1)] assms(4) w'(3) by metis
  have pull: "pull_snapshot (fs_on_snd fs') (fs_on_fst fs) (v, w') = (Inr (), (v', w'))"
    using enc.export_law[OF w'(2)] v'(1)
    by (simp add: pull_snapshot_def fs_on_fst_ops fs_on_snd_ops on_fst_bind act_bind_def[of "on_snd m" for m] del: on_fst_eq) simp
  show ?thesis using push pull v'(2-4) w'(2-4) by (intro exI[of _ v'] exI[of _ w']) simp
qed

end

section \<open>Both ends keep the contract\<close>

lemma quiet_export: "quiet_root ctx a \<Longrightarrow> FS5_export_snapshot (actor_fs E) (Some a, w) = (Inr (da_state a), (Some a, w))"
  using quiet_root_arm[of ctx a E w]
  by (simp add: FS5_export_snapshot_def answer_dir_def actor_fs_def actor_send_def process_msg_def answering_def act_bind_def act_lift_def)

lemma quiet_merge:
  assumes "quiet_root ctx a"
  shows "\<exists>a'. FS5_merge_from_snapshot (actor_fs E) d (Some a, w) = (Inr (), (Some a', w)) \<and> quiet_root ctx a' \<and> da_dirty a'
    \<and> da_state a' = merged_dir (da_state a) d"
proof -
  let ?b = "merge_header_fields (dv_header d) (merge_entries_local (dv_dirs d) (dv_files d) a)"
  let ?a' = "?b\<lparr>da_shard_size_check_ops := sat_add64 (da_shard_size_check_ops ?b) 1, da_dirty := True\<rparr>"
  have q: "quiet_root ctx ?b" by (rule quiet_root_merge_all[OF assms])
  then have q': "quiet_root ctx ?a'" by simp
  have lvl: "dh_shard_level (dv_header (da_state a)) = None" using assms by (simp add: quiet_root_def)
  have "mark_as_dirty E (?b, w) = (Inr (), (?a', w))"
    using q by (cases ?b) (simp add: mark_as_dirty_def act_bind_def quiet_root_def root_link_def split: dir_context_parent_link.splits)
  then have "merge_snapshot E d (a, w) = (Inr (), (?a', w))"
    using lvl by (simp add: merge_snapshot_def act_bind_def)
  then have "FS5_merge_from_snapshot (actor_fs E) d (Some a, w) = (Inr (), (Some ?a', w))"
    using quiet_root_arm[OF q', of E w]
    by (simp add: FS5_merge_from_snapshot_def answer_done_def actor_fs_def actor_send_def process_msg_def answering_def act_bind_def act_lift_def)
  then show ?thesis using q' by (intro exI[of _ ?a']) (simp add: merged_dir_state)
qed

definition root_dir :: "dir_actor option \<times> 'w \<Rightarrow> dir_v1" where
  "root_dir s = (case fst s of Some a \<Rightarrow> da_state a | None \<Rightarrow> DirV1_new)"

definition root_unsaved :: "dir_actor option \<times> 'w \<Rightarrow> bool" where
  "root_unsaved s \<longleftrightarrow> (\<exists>a. fst s = Some a \<and> da_dirty a)"

definition local_end :: "hashing \<Rightarrow> dir_codec \<Rightarrow> fresh \<Rightarrow> string \<Rightarrow> nat \<Rightarrow> dir_actor option \<times> mem_fs \<Rightarrow> bool" where
  "local_end H D x path n s \<longleftrightarrow> libs_ok H D x \<and> path_parent path \<noteq> None
    \<and> (\<exists>a. fst s = Some a \<and> quiet_root (DirContext_new (LinkLocalFile path)) a)"

definition local_storable :: "dir_codec \<Rightarrow> 's \<Rightarrow> dir_v1 \<Rightarrow> bool" where
  "local_storable D s d \<longleftrightarrow> length (DirV1_to_bytes D d) < MAX_DIR_BYTES_BEFORE_SHARD"

definition local_kept :: "dir_codec \<Rightarrow> string \<Rightarrow> dir_actor option \<times> mem_fs \<Rightarrow> dir_v1 \<Rightarrow> bool" where
  "local_kept D path s d \<longleftrightarrow> bt_get (snd (snd (snd s))) path = Some (DirV1_to_bytes D d)"

interpretation local_sync: sync_end "actor_fs (mem_env H D sg xx x)" root_dir "local_end H D x path" root_unsaved "local_storable D" "local_kept D path"
  for H D sg xx x path
proof (unfold_locales, goal_cases)
  case (1 n s)
  then show ?case using quiet_export by (cases s) (auto simp: local_end_def root_dir_def)
next
  case (2 n s d)
  then obtain a w where s: "s = (Some a, w)" "quiet_root (DirContext_new (LinkLocalFile path)) a" by (cases s) (auto simp: local_end_def)
  obtain a' where "FS5_merge_from_snapshot (actor_fs (mem_env H D sg xx x)) d (Some a, w) = (Inr (), (Some a', w))"
    "quiet_root (DirContext_new (LinkLocalFile path)) a'" "da_dirty a'" "da_state a' = merged_dir (da_state a) d"
    using quiet_merge[OF s(2)] by metis
  then show ?case using 2 s(1) by (intro exI[of _ "(Some a', w)"]) (simp add: local_end_def root_dir_def root_unsaved_def local_storable_def fun_eq_iff)
next
  case (3 n s)
  then obtain a w where s: "s = (Some a, w)" "quiet_root (DirContext_new (LinkLocalFile path)) a" "libs_ok H D x" "path_parent path \<noteq> None"
    "da_dirty a" "length (DirV1_to_bytes D (da_state a)) < MAX_DIR_BYTES_BEFORE_SHARD"
    by (cases s) (auto simp: local_end_def root_unsaved_def local_storable_def root_dir_def)
  obtain a' w' where "FS5_save (actor_fs (mem_env H D sg xx x)) (Some a, w) = (Inr (), (Some a', w'))"
    "quiet_root (DirContext_new (LinkLocalFile path)) a'" "da_state a' = da_state a" "bt_get (snd (snd w')) path = Some (DirV1_to_bytes D (da_state a))"
    using quiet_local_save[OF s(3,4,2,6), of sg xx w] s(5) by metis
  then show ?case using 3(1) s(1) by (intro exI[of _ "(Some a', w')"]) (simp add: local_end_def root_dir_def local_kept_def)
qed

definition remote_end ::
  "hashing \<Rightarrow> pin_codec \<Rightarrow> string list \<Rightarrow> (string, peer_config_blobs) btree \<Rightarrow> string \<Rightarrow> node_state fs_env \<Rightarrow> fresh \<Rightarrow> sync_keys
   \<Rightarrow> nat \<Rightarrow> dir_actor option \<times> node_state \<Rightarrow> bool" where
  "remote_end H P names cfgs key base x ks n s \<longleftrightarrow> peer_served H P names cfgs key \<and> base_ok base x
    \<and> registry_ready P (PublicKeyEd25519 (sk_public_key ks)) n (snd (snd s)) \<and> (\<exists>a. fst s = Some a \<and> quiet_root (sync_context ks) a)"

text \<open>A directory can be stored on the node when it is small and the node holds nothing under its hash; then the entry of the key
  names it and the peer may read it.\<close>

definition remote_storable :: "hashing \<Rightarrow> 'w fs_env \<Rightarrow> sync_keys \<Rightarrow> fresh \<Rightarrow> dir_actor option \<times> node_state \<Rightarrow> dir_v1 \<Rightarrow> bool" where
  "remote_storable H base ks x s d \<longleftrightarrow> length (DirV1_to_bytes (fe_codec base) d) < MAX_DIR_BYTES_BEFORE_SHARD
    \<and> length (sync_blob base ks x d) < 2 ^ 16 \<and> node_blob H (snd s) (h_blake3 H (sync_blob base ks x d)) = None"

definition remote_kept ::
  "hashing \<Rightarrow> pin_codec \<Rightarrow> bytes32 \<Rightarrow> 'w fs_env \<Rightarrow> sync_keys \<Rightarrow> fresh \<Rightarrow> node_state \<Rightarrow> dir_v1 \<Rightarrow> bool" where
  "remote_kept H P node base ks x w d \<longleftrightarrow> own_blob H P node w (h_blake3 H (sync_blob base ks x d)) = Some (sync_blob base ks x d)
    \<and> length (sync_blob base ks x d) < 2 ^ 64
    \<and> (\<exists>m. bt_get (snd w) (PublicKeyEd25519 (sk_public_key ks)) = Some m \<and> sm_hash m = h_blake3 H (sync_blob base ks x d))"

interpretation remote_sync: sync_end "node_fs H shw P names cfgs u key node base" root_dir "remote_end H P names cfgs key base x ks" root_unsaved
  "remote_storable H base ks x" "\<lambda>s. remote_kept H P node base ks x (snd s)"
  for H shw P names cfgs u key node base x ks
proof (unfold_locales, goal_cases)
  case (1 n s)
  then show ?case using quiet_export by (cases s) (auto simp: remote_end_def root_dir_def node_fs_def)
next
  case (2 n s d)
  then obtain a w where s: "s = (Some a, w)" "quiet_root (sync_context ks) a" by (cases s) (auto simp: remote_end_def)
  obtain a' where "FS5_merge_from_snapshot (node_fs H shw P names cfgs u key node base) d (Some a, w) = (Inr (), (Some a', w))"
    "quiet_root (sync_context ks) a'" "da_dirty a'" "da_state a' = merged_dir (da_state a) d"
    using quiet_merge[OF s(2)] unfolding node_fs_def by metis
  then show ?case using 2 s(1) by (intro exI[of _ "(Some a', w)"]) (simp add: remote_end_def root_dir_def root_unsaved_def remote_storable_def fun_eq_iff)
next
  case (3 n s)
  then obtain a w where s: "s = (Some a, w)" "quiet_root (sync_context ks) a" "peer_served H P names cfgs key" "base_ok base x"
    "registry_ready P (PublicKeyEd25519 (sk_public_key ks)) (Suc n) (snd w)" "da_dirty a"
    "length (DirV1_to_bytes (fe_codec base) (da_state a)) < MAX_DIR_BYTES_BEFORE_SHARD" "length (sync_blob base ks x (da_state a)) < 2 ^ 16"
    "node_blob H w (h_blake3 H (sync_blob base ks x (da_state a))) = None"
    by (cases s) (auto simp: remote_end_def root_unsaved_def remote_storable_def root_dir_def)
  have b: "\<And>sk bs. length (fe_sign base sk bs) = 64" "fe_fresh base = Pair x" using s(4) by (simp_all add: base_ok_def)
  obtain a' w' where r: "FS5_save (node_fs H shw P names cfgs u key node base) (Some a, w) = (Inr (), (Some a', w'))"
    "quiet_root (sync_context ks) a'" "da_state a' = da_state a" "registry_ready P (PublicKeyEd25519 (sk_public_key ks)) n (snd w')"
    "own_blob H P node w' (h_blake3 H (sync_blob base ks x (da_state a))) = Some (sync_blob base ks x (da_state a))"
    "\<exists>m. bt_get (snd w') (PublicKeyEd25519 (sk_public_key ks)) = Some m \<and> sm_hash m = h_blake3 H (sync_blob base ks x (da_state a))"
    using quiet_remote_save[OF s(3,2,7,8,5) b, of shw u node, folded node_client_def, folded node_fs_def] s(6,9) by metis
  then show ?case using 3(1) s(1,8) by (intro exI[of _ "(Some a', w')"]) (simp add: remote_end_def root_dir_def remote_kept_def)
qed

interpretation node_sync: sync_pair "actor_fs (mem_env H D sg xx x)" root_dir "local_end H D x path" root_unsaved "local_storable D" "local_kept D path"
  "node_fs H' shw P names cfgs u key node base" root_dir "remote_end H' P names cfgs key base x' ks" root_unsaved
  "remote_storable H' base ks x'" "\<lambda>s. remote_kept H' P node base ks x' (snd s)"
  for H D sg xx x path H' shw P names cfgs u key node base x' ks
  by unfold_locales

section \<open>A device and a node\<close>

text \<open>The start of an actor: it loads its directory, and ends when that fails.\<close>

definition start_root :: "'w fs_env \<Rightarrow> dir_context \<Rightarrow> 'w \<Rightarrow> dir_actor option \<times> 'w" where
  "start_root E context w =
    (case load E (DirActor_new context None None, w) of
       (Inl _, (a, w)) \<Rightarrow> (None, w)
     | (Inr _, (a, w)) \<Rightarrow> (Some a, w))"

text \<open>The world of a sync: on the left the device with its files, on the right the node; each with the actor that runs on it.\<close>

type_synonym sync_world = "(dir_actor option \<times> mem_fs) \<times> (dir_actor option \<times> node_state)"

definition device_os :: "sync_world root_os" where
  "device_os =
    \<lparr>ro_exists = \<lambda>p w. bt_get (snd (snd (snd (fst w)))) p \<noteq> None, ro_create_dir_all = \<lambda>_. act_ok (),
     ro_write = \<lambda>p c. on_fst (on_snd (on_snd (on_snd (\<lambda>m. (Inr (), bt_insert p c m))))),
     ro_open_locked = \<lambda>_. act_ok (), ro_local_store = \<lambda>_. store_on_fst (store_on_snd (store_on_fst MemoryStore)),
     ro_redb_open = \<lambda>_. act_ok \<lparr>rg_get = \<lambda>k w. rg_get (registry_on_mid MemoryRegistry) k (snd (fst w)),
       rg_set = \<lambda>m. on_fst (on_snd (rg_set (registry_on_mid MemoryRegistry) m)),
       rg_delete = \<lambda>k. on_fst (on_snd (rg_delete (registry_on_mid MemoryRegistry) k))\<rparr>\<rparr>"

definition start_side :: "mem_fs fs_env \<Rightarrow> node_state fs_env \<Rightarrow> dir_context \<Rightarrow> (sync_world, sync_world dir_handle) action" where
  "start_side L E context w =
    (case cx_link context of
       LinkLocalFile _ \<Rightarrow> (Inr (fs_root (fs_on_fst (actor_fs L))), (start_root L context (snd (fst w)), snd w))
     | _ \<Rightarrow> (Inr (fs_root (fs_on_snd (actor_fs E))), (fst w, start_root E context (snd (snd w)))))"

definition device_env ::
  "client_crypto \<Rightarrow> (string \<Rightarrow> string + bytes32) \<Rightarrow> mem_fs fs_env \<Rightarrow> node_state blobs_client \<Rightarrow> node_state registry_peer \<Rightarrow> node_state fs_env
   \<Rightarrow> (sync_world, unit) sync_env" where
  "device_env X parse L C R E =
    \<lparr>se_net = \<lparr>ir_bind = \<lambda>_. Inr (), ir_public = \<lambda>_. [], ir_parse_id = parse, ir_blobs = \<lambda>_ _. client_on_snd (client_on_snd C),
       ir_registry = \<lambda>_ _. \<lparr>peer_link = \<lambda>w. peer_link R (snd (snd w)), peer_show = peer_show R,
         peer_registry = registry_on_snd (registry_on_snd (peer_registry R))\<rparr>,
       ir_start = \<lambda>_ _ _ _ _. fs_root (fs_on_snd (actor_fs E))\<rparr>,
     se_crypto = X, se_open_local_root = DirContext_open_local_root device_os (fe_codec L), se_spawn = \<lambda>_ _. start_side L E\<rparr>"

text \<open>What the entry of the keys on the node means to the device: nothing yet, or a directory it may read.\<close>

definition remote_dir ::
  "hashing \<Rightarrow> pin_codec \<Rightarrow> bytes32 \<Rightarrow> 'w fs_env \<Rightarrow> sync_keys \<Rightarrow> fresh \<Rightarrow> node_state \<Rightarrow> dir_v1 \<Rightarrow> bool" where
  "remote_dir H P node base ks x w d \<longleftrightarrow>
    (bt_get (snd w) (PublicKeyEd25519 (sk_public_key ks)) = None \<and> d = DirV1_new) \<or> remote_kept H P node base ks x w d"

abbreviation node_env ::
  "hashing \<Rightarrow> (error \<Rightarrow> string) \<Rightarrow> pin_codec \<Rightarrow> string list \<Rightarrow> (string, peer_config_blobs) btree \<Rightarrow> string \<Rightarrow> string \<Rightarrow> bytes32
   \<Rightarrow> node_state fs_env \<Rightarrow> node_state fs_env" where
  "node_env H shw P names cfgs u key node base \<equiv> connected_env H (node_client H shw P names cfgs u key node) (node_registry shw) base"

lemma quiet_root_new: "root_link ctx \<Longrightarrow> dh_shard_level (dv_header d) = None \<Longrightarrow>
    quiet_root ctx ((DirActor_new ctx None None)\<lparr>da_last_serialized_len := l, da_state := d\<rparr>)"
  by (simp add: quiet_root_def DirActor_new_def)

lemma start_remote:
  assumes "peer_served H P names cfgs key" "base_ok base x" "registry_ready P (PublicKeyEd25519 (sk_public_key ks)) n (snd w)"
    and "remote_dir H P node base ks x w d" "dh_shard_level (dv_header d) = None"
  obtains b where "start_root (node_env H shw P names cfgs u key node base) (sync_context ks) w = (Some b, w)"
    "quiet_root (sync_context ks) b" "da_state b = d"
proof -
  let ?E = "node_env H shw P names cfgs u key node base" and ?a = "DirActor_new (sync_context ks) None None"
  have "\<exists>l. load ?E (?a, w) = (Inr (), (?a\<lparr>da_last_serialized_len := l, da_state := d\<rparr>, w))"
  proof (cases "bt_get (snd w) (PublicKeyEd25519 (sk_public_key ks))")
    case None
    then have "rg_get (fe_registry ?E) (PublicKeyEd25519 (sk_public_key ks)) w = Inr None" "d = DirV1_new"
      using Client_get_ready[OF assms(3)] assms(4) by (auto simp: connected_env_def remote_dir_def remote_kept_def)
    then show ?thesis by (intro exI[of _ 0]) (simp add: load_def act_bind_def DirActor_new_def)
  next
    case (Some m)
    then have kept: "own_blob H P node w (h_blake3 H (sync_blob base ks x d)) = Some (sync_blob base ks x d)"
      "length (sync_blob base ks x d) < 2 ^ 64" "sm_hash m = h_blake3 H (sync_blob base ks x d)"
      using assms(4) by (auto simp: remote_dir_def remote_kept_def)
    show ?thesis
      using remote_load[OF assms(1) _ _ assms(3) Some kept(3,1,2), of shw u] assms(2) unfolding node_client_def base_ok_def by blast
  qed
  then obtain l where l: "load ?E (?a, w) = (Inr (), (?a\<lparr>da_last_serialized_len := l, da_state := d\<rparr>, w))" ..
  show thesis
    by (rule that[of "?a\<lparr>da_last_serialized_len := l, da_state := d\<rparr>"])
       (use l assms(5) quiet_root_new[of "sync_context ks" d l] in \<open>simp_all add: start_root_def root_link_def\<close>)
qed

lemma start_local:
  assumes "libs_ok H D x" "bt_get (snd (snd w)) path = Some (DirV1_to_bytes D d)" "dh_shard_level (dv_header d) = None"
  obtains a where "start_root (mem_env H D sg xx x) (DirContext_new (LinkLocalFile path)) w = (Some a, w)"
    "quiet_root (DirContext_new (LinkLocalFile path)) a" "da_state a = d"
proof -
  let ?ctx = "DirContext_new (LinkLocalFile path)" and ?bs = "DirV1_to_bytes D d"
  let ?a = "(DirActor_new ?ctx None None)\<lparr>da_current_hash := Some (h_blake3 H ?bs), da_last_serialized_len := length ?bs, da_state := d\<rparr>"
  have "DirV1_from_bytes D ?bs = Inr d" using assms(1) by (simp add: libs_ok_def dir_codec_ok_def DirV1_from_bytes_def DirV1_to_bytes_def)
  then have "load (mem_env H D sg xx x) (DirActor_new ?ctx None None, w) = (Inr (), (?a, w))"
    using assms(2) by (simp add: load_def act_bind_def DirActor_new_def DirContext_new_def mem_env_def act_read_def act_lift_def)
  then show thesis
    by (intro that[of ?a]) (use assms(3) in \<open>simp_all add: start_root_def quiet_root_def root_link_def DirActor_new_def DirContext_new_def\<close>)
qed

lemma open_device:
  assumes "bt_get (snd (snd wl)) (path_join path ''root.fs5.cbor'') = Some (DirV1_to_bytes D a)"
    "bt_get (snd (snd wl)) (path_join path ''snapshots.fs5.cbor'') \<noteq> None"
    and "libs_ok H D x" "dh_shard_level (dv_header a) = None"
  obtains p where "open_plaintext_fs (device_env X parse (mem_env H D sg xx x) C R E) path ((p_old, wl), r) =
      (Inr (fs_on_fst (actor_fs (mem_env H D sg xx x))), ((Some p, wl), r))"
    "quiet_root (DirContext_new (LinkLocalFile (path_join path ''root.fs5.cbor''))) p" "da_state p = a"
proof -
  obtain p where p: "start_root (mem_env H D sg xx x) (DirContext_new (LinkLocalFile (path_join path ''root.fs5.cbor''))) wl = (Some p, wl)"
    "quiet_root (DirContext_new (LinkLocalFile (path_join path ''root.fs5.cbor''))) p" "da_state p = a"
    using start_local[OF assms(3,1,4), of sg xx thesis] by blast
  have "\<exists>st rg. DirContext_open_local_root device_os D path ((p_old, wl), r) =
      (Inr (st, rg, DirContext_new (LinkLocalFile (path_join path ''root.fs5.cbor''))), ((p_old, wl), r))"
    using assms(1,2) by (simp add: DirContext_open_local_root_def device_os_def act_bind_def act_ok_def Let_def)
  then have "open_plaintext_fs (device_env X parse (mem_env H D sg xx x) C R E) path ((p_old, wl), r) =
      (Inr (fs_on_fst (actor_fs (mem_env H D sg xx x))), ((Some p, wl), r))"
    using p(1) by (auto simp: open_plaintext_fs_def open_fs_def device_env_def act_bind_def act_ok_def start_side_def FS5_open_def
        DirContext_new_def mem_env_def)
  then show thesis using p(2,3) by (rule that)
qed

lemma open_node:
  "open_encrypted_fs (device_env X parse L C R E) (SyncKeys_stream_key ks) ks B Q (v, (e, w)) =
    (Inr (fs_on_snd (actor_fs E)), (v, start_root E (sync_context ks) w))"
  by (simp add: open_encrypted_fs_def open_fs_def device_env_def act_bind_def act_ok_def start_side_def FS5_open_def SyncKeys_stream_key_def
      SyncKeys_fs_signing_key_def sync_context_def[symmetric])

lemma sync_round_device:
  assumes "parse dial = Inr pid"
  shows "sync_round (device_env X parse L C R E) () dial (SyncKeys_stream_key ks) ks fs (v, (e, w)) =
    snd (pull_snapshot (fs_on_snd (actor_fs E)) fs (snd (push_snapshot fs (fs_on_snd (actor_fs E)) (v, start_root E (sync_context ks) w))))"
proof -
  have "ir_parse_id (se_net (device_env X parse L C R E)) dial = Inr pid" using assms by (simp add: device_env_def)
  then show ?thesis by (simp add: sync_round_def open_node)
qed

lemma run_once_device:
  fixes secret X
  assumes "open_plaintext_fs (device_env X parse L C R E) path w = (Inr fs, w')" "peer_id hop = Some dial"
  defines "ks \<equiv> node_derive_sync_keys X (map of_char secret)"
  shows "run_file_sync (device_env X parse L C R E) () peer_id
      [(name, \<lparr>sy_local_path = path, sy_via_untrusted = hop # hops, sy_shared_secret = secret, sy_interval_secs = None\<rparr>)] w =
    (Inr (), [], sync_round (device_env X parse L C R E) () dial (SyncKeys_stream_key ks) ks fs w')"
proof -
  have X: "se_crypto (device_env X parse L C R E) = X" by (simp add: device_env_def)
  show ?thesis using assms(1,2) by (simp add: run_one_sync_def act_bind_def Let_def X ks_def)
qed

lemma shard_clears:
  assumes "shard E (a, w) = (Inr (), (a', w'))"
  shows "bt_is_empty (dv_dirs (da_state a'))" "bt_is_empty (dv_files (da_state a'))"
  using assms by (auto simp: shard_def act_bind_def Let_def bt_is_empty_iff split: if_splits sum.splits prod.splits)

section \<open>Properties\<close>


text \<open>A device with one file, and a node that has nothing yet.\<close>

definition demo_device :: mem_fs where
  "demo_device = (MemoryStore_new, MemoryRegistry_new,
     bt_insert ''/r/root.fs5.cbor'' [] (bt_insert ''/r/snapshots.fs5.cbor'' [] bt_empty))"

lemma demo_merge: "merged_dir DirV1_new demo_written = demo_written" "merged_dir demo_written demo_written = demo_written"
  by (simp_all add: merged_dir_def demo_actor_def merge_entries_local_def merge_header_fields_def Let_def demo_written_def DirV1_new_def
      DirHeader_new_def merge_file_entry_def)


text \<open>C38. Only the device that published a directory can sync with it. The node hands a blob only to the peers that have pinned it, and
  uploading pins it for the uploading device alone. So when another device runs the same sync with the same secret, its registry lookup
  finds the entry, the download of the directory gives no bytes, and the root of the encrypted file system does not open: the run
  reports success and changes neither the device nor the node. This holds however the peers are configured.\<close>

theorem second_device_never_syncs:
  fixes H D sg xx x H' shw P names cfgs u key node base X parse path hop hops secret peer_id a
  defines "ks \<equiv> node_derive_sync_keys X (map of_char secret)"
    and "L \<equiv> mem_env H D sg xx x" and "E \<equiv> node_env H' shw P names cfgs u key node base"
    and "root \<equiv> path_join path ''root.fs5.cbor''"
  defines "V \<equiv> device_env X parse L (node_client H' shw P names cfgs u key node) (node_registry shw) E"
    and "cfg \<equiv> \<lparr>sy_local_path = path, sy_via_untrusted = hop # hops, sy_shared_secret = secret, sy_interval_secs = None\<rparr>"
  assumes "libs_ok H D x" "hash_libs_ok H'" "peer_id hop = Some dial" "parse dial = Inr pid"
    and "bt_get (snd (snd wl)) root = Some (DirV1_to_bytes D a)" "bt_get (snd (snd wl)) (path_join path ''snapshots.fs5.cbor'') \<noteq> None"
    and "dh_shard_level (dv_header a) = None"
    and "registry_ready P (PublicKeyEd25519 (sk_public_key ks)) n (snd wr)"
    and "bt_get (snd wr) (PublicKeyEd25519 (sk_public_key ks)) = Some msg" "NodeId node \<notin> pins_of P (bt_get (snd wr)) (sm_hash msg)"
  shows "\<exists>p. run_file_sync V () peer_id [(name, cfg)] ((p_old, wl), (e_old, wr)) = (Inr (), [], ((p, wl), (None, wr)))"
proof -
  obtain p where p: "open_plaintext_fs V path ((p_old, wl), (e_old, wr)) = (Inr (fs_on_fst (actor_fs L)), ((Some p, wl), (e_old, wr)))"
    "quiet_root (DirContext_new (LinkLocalFile root)) p"
    using open_device[of wl path D a H x X parse sg xx _ _ E p_old "(e_old, wr)" thesis] assms(7,11-13) unfolding V_def L_def root_def by blast
  have "is_pinned P MemoryRegistry (sm_hash msg) (NodeId node) (snd wr) = Inr False"
    using memory_get_internal[of P "snd wr" "sm_hash msg"] assms(14,16) by (simp add: is_pinned_def registry_ready_def)
  then have "handle_download (memory_blobs_server H' shw P names cfgs) node c (sm_hash msg) 0 None wr = []" for c
    by (simp add: handle_download_def pins_on_snd_def RegistryPinner_def split: option.split)
  then have "read_meta E (sm_hash msg) wr = Inr []"
    using hash_from_path_remote(1)[of H' "sm_hash msg"] assms(8)
    by (simp add: read_meta_def E_def connected_env_def node_client_def BlobStore_read_as_bytes_def read_as_bytes_def BlobStore_new_def remote_ops
        Remote_open_read_bytes_def hash_libs_ok_def)
  then have lf: "\<exists>e. load_from E (sm_hash msg) (sync_context ks) wr = Inl e"
    by (simp add: load_from_def decrypt_if_needed_def decrypt_dir_bytes_def)
  have "rg_get (fe_registry E) (PublicKeyEd25519 (sk_public_key ks)) wr = Inr (Some msg)"
    using Client_get_ready[OF assms(14)] assms(15) by (simp add: E_def connected_env_def)
  then have dead: "start_root E (sync_context ks) wr = (None, wr)"
    using lf by (auto simp: start_root_def load_def act_bind_def DirActor_new_def act_read_def)
  have export: "FS5_export_snapshot (actor_fs L) (Some p, wl) = (Inr (da_state p), (Some p, wl))" by (rule quiet_export[OF p(2)])
  have dead_ops: "FS5_merge_from_snapshot (actor_fs E) d (None, wr) = (Inl actor_closed, (None, wr))"
    "FS5_export_snapshot (actor_fs E) (None, wr) = (Inl actor_closed, (None, wr))" for d
    by (simp_all add: FS5_merge_from_snapshot_def answer_done_def FS5_export_snapshot_def answer_dir_def actor_fs_def actor_send_def act_bind_def)
  have "sync_round V () dial (SyncKeys_stream_key ks) ks (fs_on_fst (actor_fs L)) ((Some p, wl), (e_old, wr)) = ((Some p, wl), (None, wr))"
    using dead export dead_ops
    by (simp add: V_def sync_round_device[of parse, OF assms(10)] push_snapshot_def pull_snapshot_def fs_on_fst_ops fs_on_snd_ops act_bind_def)
  then show ?thesis using run_once_device[where peer_id = peer_id, OF p(1)[unfolded V_def] assms(9)] by (simp add: V_def cfg_def ks_def)
qed

definition demo_entry :: "sync_keys \<Rightarrow> stream_message" where
  "demo_entry ks = \<lparr>sm_type_id = Registry, sm_key = PublicKeyEd25519 (sk_public_key ks), sm_revision = 0, sm_hash = fill32 3,
     sm_signature = replicate 64 0, sm_data = None\<rparr>"

theorem second_device_never_syncs_witness:
  "\<exists>p. run_file_sync (device_env demo_crypto (\<lambda>_. Inr (fill32 2)) demo_local_env
        (node_client demo_hashing (\<lambda>_. []) demo_pin_codec [''main''] demo_peers ''u'' ''alice'' (fill32 1)) (node_registry (\<lambda>_. []))
        (node_env demo_hashing (\<lambda>_. []) demo_pin_codec [''main''] demo_peers ''u'' ''alice'' (fill32 1) (demo_base demo_written)))
      () (\<lambda>_. Some ''peer'') [(''music'', \<lparr>sy_local_path = ''/r'', sy_via_untrusted = [''cloud''], sy_shared_secret = ''secret'', sy_interval_secs = None\<rparr>)]
      ((None, demo_device), (None, (MemoryStore_new, bt_insert (PublicKeyEd25519 (sk_public_key (node_derive_sync_keys demo_crypto (map of_char ''secret''))))
        (demo_entry (node_derive_sync_keys demo_crypto (map of_char ''secret''))) bt_empty))) =
    (Inr (), [], ((p, demo_device), (None, (MemoryStore_new, bt_insert (PublicKeyEd25519 (sk_public_key (node_derive_sync_keys demo_crypto (map of_char ''secret''))))
        (demo_entry (node_derive_sync_keys demo_crypto (map of_char ''secret''))) bt_empty))))"
proof -
  let ?ks = "node_derive_sync_keys demo_crypto (map of_char ''secret'')"
  let ?pk = "PublicKeyEd25519 (sk_public_key ?ks)"
  let ?r = "bt_insert ?pk (demo_entry ?ks) bt_empty"
  have libs: "libs_ok demo_hashing (short_codec demo_written) demo_fresh" using demo_local_ready by (simp add: local_ready_def)
  have enc: "DirV1_to_bytes (short_codec demo_written) demo_written = []" by (simp add: DirV1_to_bytes_def short_codec_def)
  have fs: "path_join ''/r'' ''root.fs5.cbor'' = ''/r/root.fs5.cbor''" "path_join ''/r'' ''snapshots.fs5.cbor'' = ''/r/snapshots.fs5.cbor''"
    "bt_get (snd (snd demo_device)) ''/r/root.fs5.cbor'' = Some []" "bt_get (snd (snd demo_device)) ''/r/snapshots.fs5.cbor'' \<noteq> None"
    by (simp_all add: path_join_def demo_device_def)
  have "message_ok (demo_entry ?ks)" by (simp add: message_ok_def demo_entry_def)
  then have rr: "registry_ready demo_pin_codec ?pk 0 ?r"
    by (auto simp: registry_ready_def revisions_le_def pins_ok_def wire_ok_def demo_entry_def hash_to_key_def)
  have entry: "bt_get ?r ?pk = Some (demo_entry ?ks)" by simp
  have pins: "NodeId (fill32 1) \<notin> pins_of demo_pin_codec (bt_get ?r) h" for h by (simp add: pins_of_def hash_to_key_def)
  have dir: "dh_shard_level (dv_header demo_written) = None" by (simp add: demo_written_def DirV1_new_def DirHeader_new_def)
  show ?thesis
    using second_device_never_syncs[where H = demo_hashing and D = "short_codec demo_written" and x = demo_fresh and path = "''/r''" and H' = demo_hashing
        and P = demo_pin_codec and names = "[''main'']" and cfgs = demo_peers and key = "''alice''" and base = "demo_base demo_written"
        and peer_id = "\<lambda>_. Some ''peer''" and hop = "''cloud''" and dial = "''peer''" and parse = "\<lambda>_. Inr (fill32 2)" and pid = "fill32 2"
        and wl = demo_device and a = demo_written and node = "fill32 1" and X = demo_crypto and secret = "''secret''" and n = 0 and msg = "demo_entry ?ks"
        and wr = "(MemoryStore_new, ?r)" and e_old = None and sg = "\<lambda>_ _. replicate 64 0" and xx = "\<lambda>s. of_nat (length s)" and shw = "\<lambda>_. []"
        and u = "''u''" and hops = "[]" and name = "''music''" and p_old = None,
        unfolded fs(1,2) enc snd_conv, OF libs demo_hash_libs_ok refl refl fs(3,4) dir rr entry pins]
    unfolding demo_local_env_def .
qed

text \<open>A directory that has been split into shards is not synchronised. A split leaves no entry in the directory itself, and a push
  exports the directory itself and not the merged view of its shards. So the push succeeds and publishes, but the published directory
  has exactly the entries it had before, whatever files the device holds.\<close>

theorem split_directory_is_not_pushed:
  assumes "dh_shard_level (dv_header (da_state p)) \<noteq> None" "bt_is_empty (dv_dirs (da_state p))" "bt_is_empty (dv_files (da_state p))"
    and "da_autosave_debounce_ms p = None"
    and "remote_end H P names cfgs key base x ks (Suc k) (Some b, w)" "disjoint_names (da_state b)"
    and "remote_storable H base ks x (Some b, w) (merged_dir (da_state b) (da_state p))"
  shows "\<exists>w'. push_snapshot (fs_on_fst (actor_fs L)) (fs_on_snd (node_fs H shw P names cfgs u key node base)) ((Some p, v), (Some b, w)) =
      (Inr (), ((Some p, v), w'))
    \<and> (\<forall>n. entry_at (root_dir w') n = entry_at (da_state b) n) \<and> remote_kept H P node base ks x (snd w') (root_dir w')"
proof -
  have empty: "entry_at (da_state p) n = None" "disjoint_names (da_state p)" for n
    using assms(2,3) by (simp_all add: entry_at_def disjoint_names_def bt_is_empty_iff)
  have export: "FS5_export_snapshot (actor_fs L) (Some p, v) = (Inr (da_state p), (Some p, v))"
    using assms(4) by (simp add: FS5_export_snapshot_def answer_dir_def actor_fs_def actor_send_def process_msg_def answering_def act_bind_def
        act_lift_def arm_autosave_def act_ok_def)
  have b: "root_dir (Some b, w) = da_state b" by (simp add: root_dir_def)
  obtain w' where w': "act_bind (FS5_merge_from_snapshot (node_fs H shw P names cfgs u key node base) (da_state p))
      (\<lambda>_. FS5_save (node_fs H shw P names cfgs u key node base)) (Some b, w) = (Inr (), w')"
    "root_dir w' = merged_dir (da_state b) (da_state p)" "remote_kept H P node base ks x (snd w') (merged_dir (da_state b) (da_state p))"
    using remote_sync.merge_and_save[OF assms(5), of "da_state p" shw u node] assms(7) unfolding b by blast
  have "push_snapshot (fs_on_fst (actor_fs L)) (fs_on_snd (node_fs H shw P names cfgs u key node base)) ((Some p, v), (Some b, w)) = (Inr (), ((Some p, v), w'))"
    using export w'(1)
    by (simp add: push_snapshot_def fs_on_fst_ops fs_on_snd_ops on_snd_bind act_bind_def[of "on_fst m" for m] del: on_snd_eq) simp
  then show ?thesis using w'(2,3) merged_dir_entries(2)[OF assms(6) empty(2)] empty(1) by (intro exI[of _ w']) simp
qed

theorem split_directory_is_not_pushed_witness:
  "\<exists>w'. push_snapshot (fs_on_fst (actor_fs demo_shard_env))
      (fs_on_snd (node_fs demo_hashing (\<lambda>_. []) demo_pin_codec [''main''] demo_peers ''u'' ''alice'' (fill32 1) (demo_base DirV1_new)))
      ((Some demo_split, demo_world), (Some (DirActor_new (sync_context (node_derive_sync_keys demo_crypto [])) None None), (MemoryStore_new, MemoryRegistry_new))) =
      (Inr (), ((Some demo_split, demo_world), w'))
    \<and> entry_at (root_dir w') ''a'' = None"
proof -
  let ?ks = "node_derive_sync_keys demo_crypto []"
  let ?b = "DirActor_new (sync_context ?ks) None None"
  have b: "da_state ?b = DirV1_new" by (simp add: DirActor_new_def)
  have m: "merged_dir DirV1_new (da_state demo_split) = DirV1_new"
    by (simp add: merged_dir_def demo_actor_def merge_entries_local_def merge_header_fields_def Let_def demo_split_def demo_child_def DirV1_new_def DirHeader_new_def)
  have node: "peer_served demo_hashing demo_pin_codec [''main''] demo_peers ''alice''" "base_ok (demo_base DirV1_new) demo_fresh"
    using demo_ready by (simp_all add: client_ready_def)
  have enc: "DirV1_to_bytes (short_codec DirV1_new) DirV1_new = []" by (simp add: DirV1_to_bytes_def short_codec_def)
  have "length (sync_blob (demo_base DirV1_new) ?ks demo_fresh DirV1_new) = 24"
    by (simp add: sync_blob_def encrypt_dir_bytes_def demo_base_def enc demo_fresh_def) (simp add: short_codec_def)
  then have st: "remote_storable demo_hashing (demo_base DirV1_new) ?ks demo_fresh (Some ?b, (MemoryStore_new, MemoryRegistry_new)) DirV1_new"
    by (simp add: remote_storable_def demo_base_def enc MAX_DIR_BYTES_BEFORE_SHARD_def blob_at_def MemoryStore_new_def)
  have re: "remote_end demo_hashing demo_pin_codec [''main''] demo_peers ''alice'' (demo_base DirV1_new) demo_fresh ?ks (Suc 0) (Some ?b, (MemoryStore_new, MemoryRegistry_new))"
    using node by (simp add: remote_end_def registry_ready_def MemoryRegistry_new_def revisions_le_def pins_ok_def quiet_root_def root_link_def
        DirActor_new_def DirV1_new_def DirHeader_new_def)
  have sp: "dh_shard_level (dv_header (da_state demo_split)) \<noteq> None" "bt_is_empty (dv_dirs (da_state demo_split))"
    "bt_is_empty (dv_files (da_state demo_split))" "da_autosave_debounce_ms demo_split = None" "disjoint_names DirV1_new" "entry_at DirV1_new ''a'' = None"
    by (simp_all add: demo_split_def demo_child_def DirV1_new_def bt_is_empty_iff DirActor_new_def disjoint_names_def entry_at_def)
  show ?thesis
    using split_directory_is_not_pushed[OF sp(1-4) re, unfolded b m, OF sp(5) st, of demo_shard_env "\<lambda>_. []" "''u''" "fill32 1" demo_world] sp(6) by auto
qed

end
