(* ===== verification/S3_Store.thy ===== *)
theory S3_Store
  imports Local_Store
begin

text \<open>
  The store on an S3 bucket: \<^verbatim>\<open>blob_stores/s3/src/lib.rs\<close>. The bucket of the crate \<^verbatim>\<open>rust-s3\<close> with the service behind it is a table of
  operations; the locale \<open>s3_service\<close> is what the store relies on: objects by key, and partial reads as HTTP defines them.
\<close>

section \<open>The bucket\<close>

text \<open>Requests that read leave the world alone. The head of an object is its length, where it is known, and the status.\<close>

record 'w s3_bucket =
  sb_put_object_stream :: "string \<Rightarrow> chunk list \<Rightarrow> ('w, unit) action"
  sb_put_object :: "string \<Rightarrow> bytes \<Rightarrow> ('w, unit) action"
  sb_head_object :: "string \<Rightarrow> 'w \<Rightarrow> error + int option \<times> nat"
  sb_get_object_stream :: "(string \<times> string) list \<Rightarrow> string \<Rightarrow> 'w \<Rightarrow> error + chunk list"
  sb_get_object_range :: "string \<Rightarrow> u64 \<Rightarrow> u64 option \<Rightarrow> 'w \<Rightarrow> error + bytes"
  sb_delete_object :: "string \<Rightarrow> ('w, unit) action"
  sb_presign_get :: "string \<Rightarrow> u32 \<Rightarrow> 'w \<Rightarrow> error + string"
  sb_list :: "string \<Rightarrow> 'w \<Rightarrow> error + string list list"

section \<open>S3Store\<close>

record s3_store_config =
  s3_endpoint :: string
  s3_region :: string
  s3_bucket_name :: string
  s3_access_key :: string
  s3_secret_key :: string

record 'w s3_store =
  s3_bucket_of :: "'w s3_bucket"

text \<open>\<open>new_bucket\<close> is the bucket of a name, a region and credentials, with the address of objects in the path; an error of either
  constructor is a panic.\<close>

definition S3Store_create :: "(string \<Rightarrow> string \<times> string \<Rightarrow> string \<times> string \<Rightarrow> error + 'w s3_bucket) \<Rightarrow> s3_store_config \<Rightarrow> 'w s3_store option" where
  "S3Store_create new_bucket config =
    (case new_bucket (s3_bucket_name config) (s3_endpoint config, s3_region config) (s3_access_key config, s3_secret_key config) of
       Inl _ \<Rightarrow> None
     | Inr bucket \<Rightarrow> Some \<lparr>s3_bucket_of = bucket\<rparr>)"

definition S3_put_stream :: "'w s3_store \<Rightarrow> string \<Rightarrow> chunk list \<Rightarrow> ('w, unit) action" where
  "S3_put_stream self path stream = sb_put_object_stream (s3_bucket_of self) path stream"

definition S3_put_bytes :: "'w s3_store \<Rightarrow> string \<Rightarrow> bytes \<Rightarrow> ('w, unit) action" where
  "S3_put_bytes self path bs = sb_put_object (s3_bucket_of self) path bs"

definition S3_features :: store_features where
  "S3_features = \<lparr>supports_rename = False, case_sensitive = True, recommended_max_dir_size = - 1\<rparr>"

definition unexpected_status :: "nat \<Rightarrow> error" where
  "unexpected_status code = Anyhow (''unexpected http status code '' @ show_nat code)"

definition S3_exists :: "'w s3_store \<Rightarrow> string \<Rightarrow> 'w \<Rightarrow> error + bool" where
  "S3_exists self path w =
    (case sb_head_object (s3_bucket_of self) path w of
       Inr (_, code) \<Rightarrow> if code = 200 then Inr True else if code = 404 then Inr False else Inl (unexpected_status code)
     | Inl e \<Rightarrow> Inl e)"

text \<open>The value of a range header. The last position is computed at 64 bits, where it wraps.\<close>

definition range_header :: "u64 \<Rightarrow> u64 option \<Rightarrow> string" where
  "range_header first final =
    ''bytes='' @ show_nat (unat first) @ ''-'' @ (case final of None \<Rightarrow> [] | Some e \<Rightarrow> show_nat (unat e))"

definition S3_open_read_stream :: "'w s3_store \<Rightarrow> string \<Rightarrow> u64 \<Rightarrow> u64 option \<Rightarrow> 'w \<Rightarrow> error + chunk list" where
  "S3_open_read_stream self path offset max_len w =
    (let range_val = (case max_len of Some n \<Rightarrow> range_header offset (Some (offset + n - 1)) | None \<Rightarrow> range_header offset None)
     in sb_get_object_stream (s3_bucket_of self) [(''Range'', range_val)] path w)"

definition S3_open_read_bytes :: "'w s3_store \<Rightarrow> string \<Rightarrow> u64 \<Rightarrow> u64 option \<Rightarrow> 'w \<Rightarrow> error + bytes" where
  "S3_open_read_bytes self path offset max_len w =
    (let final = map_option (\<lambda>n. offset + n - 1) max_len in sb_get_object_range (s3_bucket_of self) path offset final w)"

definition S3_delete :: "'w s3_store \<Rightarrow> string \<Rightarrow> ('w, unit) action" where
  "S3_delete self path = sb_delete_object (s3_bucket_of self) path"

definition S3_rename :: "'w s3_store \<Rightarrow> string \<Rightarrow> string \<Rightarrow> ('w, unit) action" where
  "S3_rename self old_path new_path = act_err (Anyhow ''rename not supported by S3Store'')"

definition S3_provide :: "'w s3_store \<Rightarrow> string \<Rightarrow> 'w \<Rightarrow> error + blob_location list" where
  "S3_provide self path w =
    (case sb_presign_get (s3_bucket_of self) path 86400 w of Inl e \<Rightarrow> Inl e | Inr res \<Rightarrow> Inr [Url res])"

definition S3_size :: "'w s3_store \<Rightarrow> string \<Rightarrow> 'w \<Rightarrow> error + u64" where
  "S3_size self path w =
    (case sb_head_object (s3_bucket_of self) path w of
       Inl e \<Rightarrow> Inl e
     | Inr (content_length, code) \<Rightarrow>
        if code \<noteq> 200 then Inl (unexpected_status code)
        else case content_length of
               None \<Rightarrow> Inl (Anyhow ''missing content-length'')
             | Some len \<Rightarrow> if len < 0 then Inl (Anyhow ''out of range integral type conversion attempted'') else Inr (of_int len))"

definition S3_list :: "'w s3_store \<Rightarrow> 'w \<Rightarrow> error + (error + string) list" where
  "S3_list self w =
    (case sb_list (s3_bucket_of self) [] w of Inl e \<Rightarrow> Inl e | Inr results \<Rightarrow> Inr (map Inr (concat results)))"

definition S3Store :: "'w s3_store \<Rightarrow> 'w store" where
  "S3Store self =
    \<lparr>st_features = S3_features, st_put_stream = S3_put_stream self, st_put_bytes = S3_put_bytes self, st_exists = S3_exists self,
     st_open_read_stream = S3_open_read_stream self, st_open_read_bytes = S3_open_read_bytes self, st_size = S3_size self,
     st_list = S3_list self, st_delete = S3_delete self, st_rename = S3_rename self, st_provide = S3_provide self,
     st_put_temp = Store_put_temp (S3_put_stream self)\<rparr>"

section \<open>The service\<close>

text \<open>A request for a part of an object, as RFC 9110 has it: status and body. A range that ends before it starts is ignored, one that
  starts behind the end is refused.\<close>

definition http_range :: "bytes \<Rightarrow> u64 \<Rightarrow> u64 option \<Rightarrow> nat \<times> bytes" where
  "http_range c first final =
    (if (case final of Some e \<Rightarrow> e < first | None \<Rightarrow> False) then (200, c)
     else if length c \<le> unat first then (416, [])
     else (206, case final of None \<Rightarrow> drop (unat first) c | Some e \<Rightarrow> take (Suc (unat e - unat first)) (drop (unat first) c)))"

text \<open>The last position of a part that lies in the object.\<close>

definition within :: "bytes \<Rightarrow> u64 \<Rightarrow> u64 option \<Rightarrow> bool" where
  "within c off len \<longleftrightarrow> unat off < length c \<and> (case len of None \<Rightarrow> True | Some n \<Rightarrow> n \<noteq> 0 \<and> unat off + unat n \<le> 2 ^ 64)"

lemma last_position:
  assumes "n \<noteq> 0" "unat (off :: u64) + unat (n :: u64) \<le> 2 ^ 64"
  shows "unat (off + n - 1) = unat off + unat n - 1" "\<not> off + n - 1 < off"
proof -
  have n: "0 < unat n" using assms(1) by (simp add: unat_gt_0)
  have m: "unat (n - 1) = unat n - 1" using assms(1) by (simp add: unat_minus_one)
  have "off + n - 1 = off + (n - 1)" by simp
  then have "unat (off + n - 1) = unat (off + (n - 1))" by (rule arg_cong)
  also have "\<dots> = (unat off + (unat n - 1)) mod 2 ^ 64" by (simp add: unat_word_ariths m)
  also have "\<dots> = unat off + (unat n - 1)" using assms(2) n by simp
  finally show u: "unat (off + n - 1) = unat off + unat n - 1" using n by simp
  show "\<not> off + n - 1 < off" using u n by (simp add: word_less_nat_alt)
qed

lemma http_range_within:
  assumes "within c off len"
  shows "http_range c off (map_option (\<lambda>n. off + n - 1) len) = (206, slice_of off len c)"
proof (cases len)
  case (Some n)
  then have n: "n \<noteq> 0" "unat off + unat n \<le> 2 ^ 64" "unat off < length c" using assms by (simp_all add: within_def)
  then have "Suc (unat (off + n - 1) - unat off) = unat n" using last_position(1)[OF n(1,2)] by (simp add: unat_gt_0)
  then show ?thesis using last_position(2)[OF n(1,2)] n(3) Some by (simp add: http_range_def slice_of_def Let_def)
qed (use assms in \<open>simp add: within_def http_range_def slice_of_def Let_def\<close>)

lemma S3_stream_header:
  "S3_open_read_stream self p off len w =
    sb_get_object_stream (s3_bucket_of self) [(''Range'', range_header off (map_option (\<lambda>n. off + n - 1) len))] p w"
  by (simp add: S3_open_read_stream_def Let_def split: option.split)

text \<open>The service keeps objects by key. A request for an object that is there is answered with the status and the body that HTTP gives its
  range; one for an object that is missing with status 404, one for a range that cannot be had with status 416, and a document that tells
  the error. What the crate makes of a status that is not a success is chosen by its feature \<^verbatim>\<open>fail-on-err\<close>: with it, as by default and as
  this store is built, every request with such a status is an error, without it the status of a head is returned and the document stands for the
  contents. The flag \<open>fail\<close> is this choice.\<close>

locale s3_service =
  fixes B :: "'w s3_bucket" and objects :: "'w \<Rightarrow> string \<Rightarrow> bytes option" and fail :: bool
  assumes put_law: "\<exists>w'. sb_put_object B p c w = (Inr (), w') \<and> objects w' = (objects w)(p \<mapsto> c)"
    and head_law: "objects w p = Some c \<Longrightarrow> sb_head_object B p w = Inr (Some (int (length c)), 200)"
    and head_missing_law: "objects w p = None \<Longrightarrow> if fail then \<not> is_ok (sb_head_object B p w) else \<exists>h. sb_head_object B p w = Inr (h, 404)"
    and range_law: "objects w p = Some c \<Longrightarrow> http_range c first final = (206, bs) \<Longrightarrow> sb_get_object_range B p first final w = Inr bs"
    and stream_law: "objects w p = Some c \<Longrightarrow> http_range c first final = (s, bs) \<Longrightarrow> s \<noteq> 416 \<Longrightarrow>
      \<exists>cs. sb_get_object_stream B [(''Range'', range_header first final)] p w = Inr (map Inr cs) \<and> concat cs = bs"
    and refused_law: "objects w p = None \<or> objects w p = Some c \<and> fst (http_range c first final) = 416 \<Longrightarrow>
      (case final of Some e \<Rightarrow> first \<le> e | None \<Rightarrow> True) \<Longrightarrow>
      is_ok (sb_get_object_range B p first final w) = (\<not> fail)
      \<and> is_ok (sb_get_object_stream B [(''Range'', range_header first final)] p w) = (\<not> fail)"
begin

lemma present_reads:
  assumes "objects w p = Some c" "within c off len"
  shows "S3_open_read_bytes \<lparr>s3_bucket_of = B\<rparr> p off len w = Inr (slice_of off len c)"
    and "\<exists>cs. S3_open_read_stream \<lparr>s3_bucket_of = B\<rparr> p off len w = Inr (map Inr cs) \<and> concat cs = slice_of off len c"
  using range_law[OF assms(1) http_range_within[OF assms(2)]] stream_law[OF assms(1) http_range_within[OF assms(2)]]
  by (simp_all add: S3_open_read_bytes_def Let_def S3_stream_header)

lemma present_head:
  assumes "objects w p = Some c"
  shows "S3_exists \<lparr>s3_bucket_of = B\<rparr> p w = Inr True" "S3_size \<lparr>s3_bucket_of = B\<rparr> p w = Inr (of_nat (length c))"
  using head_law[OF assms] by (simp_all add: S3_exists_def S3_size_def)

lemma missing_head:
  assumes "objects w p = None"
  shows "if fail then \<not> is_ok (S3_exists \<lparr>s3_bucket_of = B\<rparr> p w) else S3_exists \<lparr>s3_bucket_of = B\<rparr> p w = Inr False"
    and "\<not> is_ok (S3_size \<lparr>s3_bucket_of = B\<rparr> p w)"
  using head_missing_law[OF assms] by (auto simp: S3_exists_def S3_size_def is_ok_def split: if_splits sum.splits)

text \<open>Nothing of an empty object can be read, nor from the end of any object on: there the answer is that of a missing object. A stream of
  length zero is the whole object when its end wraps below its start.\<close>

lemma behind_the_end:
  assumes "objects w p = Some c \<and> length c \<le> unat off \<or> objects w p = None"
    and "len = None \<or> len = Some n \<and> n \<noteq> 0 \<and> unat off + unat n \<le> 2 ^ 64"
  shows "is_ok (S3_open_read_bytes \<lparr>s3_bucket_of = B\<rparr> p off len w) = (\<not> fail)
    \<and> is_ok (S3_open_read_stream \<lparr>s3_bucket_of = B\<rparr> p off len w) = (\<not> fail)"
proof -
  let ?e = "map_option (\<lambda>n. off + n - 1) len"
  have ordered: "case ?e of Some e \<Rightarrow> off \<le> e | None \<Rightarrow> True"
    using assms(2) last_position(2)[of n off] by auto
  have "objects w p = None \<or> objects w p = Some c \<and> fst (http_range c off ?e) = 416"
    using assms last_position(2)[of n off] by (auto simp: http_range_def)
  from refused_law[OF this ordered] show ?thesis by (simp add: S3_open_read_bytes_def Let_def S3_stream_header)
qed

lemma empty_stream_reads_all:
  assumes "objects w p = Some c" "off \<noteq> 0"
  shows "\<exists>cs. S3_open_read_stream \<lparr>s3_bucket_of = B\<rparr> p off (Some 0) w = Inr (map Inr cs) \<and> concat cs = c"
proof -
  have "off - 1 < off" using assms(2) by (simp add: word_less_nat_alt unat_minus_one unat_gt_0)
  then have "http_range c off (Some (off + 0 - 1)) = (200, c)" by (simp add: http_range_def)
  from stream_law[OF assms(1) this] show ?thesis by (simp add: S3_stream_header)
qed

text \<open>An import asks first whether the object is there.\<close>

lemma import_present:
  assumes "objects w (blob_path_for_hash (h_codec H) (h_blake3 H bs) S3_features) = Some c"
  shows "import_bytes H (S3Store \<lparr>s3_bucket_of = B\<rparr>) None u bs w = (Inr \<lparr>bid_hash = h_blake3 H bs, bid_size = of_nat (length bs)\<rparr>, w)"
  using present_head(1)[OF assms]
  by (simp add: import_bytes_def Let_def put_outboard_def S3Store_def)

lemma import_missing:
  assumes "objects w (blob_path_for_hash (h_codec H) (h_blake3 H bs) S3_features) = None"
  shows "fail \<Longrightarrow> \<exists>e. import_bytes H (S3Store \<lparr>s3_bucket_of = B\<rparr>) None u bs w = (Inl e, w)"
    and "\<not> fail \<Longrightarrow> \<exists>w'. import_bytes H (S3Store \<lparr>s3_bucket_of = B\<rparr>) None u bs w
      = (Inr \<lparr>bid_hash = h_blake3 H bs, bid_size = of_nat (length bs)\<rparr>, w')
      \<and> objects w' = (objects w)(blob_path_for_hash (h_codec H) (h_blake3 H bs) S3_features \<mapsto> bs)"
proof -
  let ?p = "blob_path_for_hash (h_codec H) (h_blake3 H bs) S3_features"
  show "\<exists>e. import_bytes H (S3Store \<lparr>s3_bucket_of = B\<rparr>) None u bs w = (Inl e, w)" if fail
    using missing_head(1)[OF assms] that
    by (auto simp: import_bytes_def Let_def put_outboard_def S3Store_def is_ok_def split: sum.splits)
  show "\<exists>w'. import_bytes H (S3Store \<lparr>s3_bucket_of = B\<rparr>) None u bs w = (Inr \<lparr>bid_hash = h_blake3 H bs, bid_size = of_nat (length bs)\<rparr>, w')
      \<and> objects w' = (objects w)(?p \<mapsto> bs)" if "\<not> fail"
    using missing_head(1)[OF assms] that put_law[of ?p bs w]
    by (auto simp: import_bytes_def Let_def put_outboard_def S3Store_def S3_features_def S3_put_bytes_def)
qed

end

section \<open>A service in memory\<close>

text \<open>Reading a range header back.\<close>

definition digits_value :: "string \<Rightarrow> nat" where
  "digits_value s = foldl (\<lambda>n c. 10 * n + (of_char c - 48)) 0 s"

lemma digits_value_show: "digits_value (show_nat n) = n"
proof (induction n rule: show_nat.induct)
  case (1 n)
  then show ?case by (subst show_nat.simps) (auto simp: digits_value_def)
qed

lemma show_nat_plain: "show_nat n \<noteq> []" "c \<in> set (show_nat n) \<Longrightarrow> c \<noteq> CHR ''-''"
proof (induction n rule: show_nat.induct)
  case (1 n)
  have d: "char_of (48 + k) \<noteq> CHR ''-''" if "k < 10" for k :: nat
  proof
    assume "char_of (48 + k) = CHR ''-''"
    then have "(of_char (char_of (48 + k) :: char) :: nat) = of_char CHR ''-''" by simp
    then show False using that by simp
  qed
  { case 1 show ?case by (subst show_nat.simps) simp }
  { case 2 then show ?case using 1 d[of n] d[of "n mod 10"] by (subst (asm) show_nat.simps) (auto split: if_splits) }
qed

definition parse_range :: "string \<Rightarrow> u64 \<times> u64 option" where
  "parse_range v =
    (let r = drop 6 v; a = takeWhile (\<lambda>c. c \<noteq> CHR ''-'') r; b = drop (Suc (length a)) r
     in (of_nat (digits_value a), if b = [] then None else Some (of_nat (digits_value b))))"

lemma parse_range_header: "parse_range (range_header first final) = (first, final)"
proof -
  have tw: "takeWhile (\<lambda>c. c \<noteq> CHR ''-'') (show_nat (unat first) @ CHR ''-'' # rest) = show_nat (unat first)" for rest
    using show_nat_plain(2) by (subst takeWhile_append2) auto
  show ?thesis by (cases final) (simp_all add: parse_range_def range_header_def tw digits_value_show show_nat_plain(1))
qed

definition mem_bucket :: "bool \<Rightarrow> memory_store s3_bucket" where
  "mem_bucket fail =
    (let failed = (\<lambda>code. if fail then Inl (Anyhow code) else Inr [60, 63]);
         get = (\<lambda>c range. case http_range c (fst range) (snd range) of (s, bs) \<Rightarrow> if s = 416 then failed ''416'' else Inr bs)
     in \<lparr>sb_put_object_stream = MemoryStore_put_stream, sb_put_object = \<lambda>p c m. (Inr (), bt_insert p c m),
         sb_head_object = \<lambda>p m. (case bt_get m p of
             None \<Rightarrow> if fail then Inl (Anyhow ''404'') else Inr (None, 404)
           | Some c \<Rightarrow> Inr (Some (int (length c)), 200)),
         sb_get_object_stream = \<lambda>hs p m. map_sum id (\<lambda>bs. [Inr bs]) (case bt_get m p of
             None \<Rightarrow> failed ''404''
           | Some c \<Rightarrow> (case hs of [] \<Rightarrow> Inr c | (_, v) # _ \<Rightarrow> get c (parse_range v))),
         sb_get_object_range = \<lambda>p first final m. (case bt_get m p of None \<Rightarrow> failed ''404'' | Some c \<Rightarrow> get c (first, final)),
         sb_delete_object = \<lambda>p m. (Inr (), bt_remove p m), sb_presign_get = \<lambda>p _ _. Inr p, sb_list = \<lambda>_ m. Inr [bt_keys m]\<rparr>)"

interpretation memory_s3: s3_service "mem_bucket fail" bt_get fail for fail
proof (unfold_locales, goal_cases)
  case (5 m p c first final s bs)
  then show ?case by (intro exI[of _ "[bs]"]) (simp add: mem_bucket_def Let_def parse_range_header)
next
  case (6 m p c first final)
  then show ?case by (auto simp: mem_bucket_def Let_def is_ok_def parse_range_header case_prod_unfold)
qed (auto simp: mem_bucket_def Let_def fun_eq_iff is_ok_def split: list.splits)

section \<open>Properties\<close>



text \<open>What the store on a bucket cannot read. Where the crate makes an error of every failed request, an empty object cannot be read at
  all, and no object from its end on: the request for the range is refused, and the read fails where the store in memory answers no bytes. And a
  stream of length zero that does not start at zero delivers the whole object: its last position is one before its first, and HTTP ignores such a
  range.\<close>

theorem s3_reads_at_the_edge:
  assumes "s3_service B objects True" "objects w p = Some c"
  shows "(\<forall>off. length c \<le> unat off \<longrightarrow> \<not> is_ok (S3_open_read_bytes \<lparr>s3_bucket_of = B\<rparr> p off None w))
    \<and> (c = [] \<longrightarrow> \<not> is_ok (S3_open_read_bytes \<lparr>s3_bucket_of = B\<rparr> p 0 None w) \<and> \<not> is_ok (S3_open_read_stream \<lparr>s3_bucket_of = B\<rparr> p 0 None w))
    \<and> (\<forall>off. off \<noteq> 0 \<longrightarrow> (\<exists>cs. S3_open_read_stream \<lparr>s3_bucket_of = B\<rparr> p off (Some 0) w = Inr (map Inr cs) \<and> concat cs = c))"
  using s3_service.behind_the_end[OF assms(1), of w p c _ None] s3_service.empty_stream_reads_all[OF assms] assms(2) by auto

theorem s3_reads_at_the_edge_witness:
  "\<not> is_ok (S3_open_read_bytes \<lparr>s3_bucket_of = mem_bucket True\<rparr> ''k'' 0 None (bt_insert ''k'' [] bt_empty))
   \<and> (\<exists>cs. S3_open_read_stream \<lparr>s3_bucket_of = mem_bucket True\<rparr> ''k'' 2 (Some 0) (bt_insert ''k'' [1, 2, 3] bt_empty) = Inr (map Inr cs) \<and> concat cs = [1, 2, 3])"
  using s3_reads_at_the_edge[OF memory_s3.s3_service_axioms, of "bt_insert ''k'' [] bt_empty" "''k''" "[]"]
    s3_reads_at_the_edge[OF memory_s3.s3_service_axioms, of "bt_insert ''k'' [1, 2, 3] bt_empty" "''k''" "[1, 2, 3]"] by simp

end
