(* ===== verification/Sia_Store.thy ===== *)
theory Sia_Store
  imports S3_Store Sharding
begin

text \<open>
  The store on a Sia renterd: \<^verbatim>\<open>blob_stores/sia/src\<close>. The HTTP client, JSON, hexadecimal and base64 text, random keys, the price of a
  download (a product of floating point numbers) and the Siascan service are a table of parameters. The addresses of hosts are cached in
  the store, so that providing a location is an operation over the cache and the world.
\<close>

section \<open>HTTP\<close>

datatype http_method = HttpGet | HttpHead | HttpPut | HttpPost | HttpDelete

record http_request =
  rq_method :: http_method
  rq_url :: string
  rq_headers :: "(string \<times> string) list"
  rq_body :: "chunk list"

text \<open>A header of a response is missing, or not text, or a text.\<close>

record sia_response =
  sr_status :: nat
  sr_header :: "string \<Rightarrow> string option option"
  sr_body :: "chunk list"

datatype sia_error =
    RenterdPackingEnabled
  | RenterdErasureCodingEnabled
  | HostNotFoundOnSiascan
  | HttpFailWithBody nat string
  | HttpFail nat
  | OtherSia error

definition sia_display :: "sia_error \<Rightarrow> error" where
  "sia_display e =
    (case e of
       RenterdPackingEnabled \<Rightarrow>
         Anyhow ''renterd config error: disable upload packing in your renterd settings, this is not supported yet''
     | RenterdErasureCodingEnabled \<Rightarrow>
         Anyhow ''renterd config error: set min shards to 1 in your renterd redundancy settings, erasure coding is not supported by s5 yet''
     | HostNotFoundOnSiascan \<Rightarrow> Anyhow ''host not found on siascan''
     | HttpFailWithBody s text \<Rightarrow> Anyhow (''Got HTTP '' @ show_nat s @ '' with content '' @ [CHR 0x27] @ text @ [CHR 0x27])
     | HttpFail s \<Rightarrow> Anyhow (''Got unexpected HTTP '' @ show_nat s)
     | OtherSia e \<Rightarrow> e)"

section \<open>The models of renterd\<close>

record sia_fund_request =
  fr_account_id :: string
  fr_contract_id :: string
  fr_amount :: string

record sia_rename_request =
  rn_bucket :: string
  rn_from :: string
  rn_to :: string
  rn_mode :: string
  rn_force :: bool

datatype contract_usability = UsabilityGood | UsabilityBad

record sia_contract =
  ct_id :: string
  ct_host_key :: string
  ct_usability :: contract_usability

record sia_pinned_sector =
  se_root :: string
  se_host_key :: string

record sia_pinned_slab =
  sl_encryption_key :: bytes32
  sl_min_shards :: u8
  sl_sectors :: "sia_pinned_sector list"
  sl_length :: u32

record sia_pinned_object =
  po_encryption_key :: bytes32
  po_slabs :: "sia_pinned_slab list"

record sia_upload_settings =
  us_packing_enabled :: bool
  us_min_shards :: u8

record siascan_address =
  sa_protocol :: string
  sa_address :: string

record sia_object_metadata =
  om_name :: string
  om_size :: u64

text \<open>Requests that only read leave the world alone.\<close>

record 'w sia_libs =
  sx_read :: "http_request \<Rightarrow> 'w \<Rightarrow> error + sia_response"
  sx_send :: "http_request \<Rightarrow> ('w, sia_response) action"
  sx_base64 :: "string \<Rightarrow> string"
  sx_json_upload_settings :: "bytes \<Rightarrow> error + sia_upload_settings"
  sx_json_state :: "bytes \<Rightarrow> error + string"
  sx_json_pinned :: "bytes \<Rightarrow> error + sia_pinned_object"
  sx_json_contracts :: "bytes \<Rightarrow> error + sia_contract list"
  sx_json_objects :: "bytes \<Rightarrow> error + sia_object_metadata list option"
  sx_show_fund :: "sia_fund_request \<Rightarrow> bytes"
  sx_show_rename :: "sia_rename_request \<Rightarrow> bytes"
  sx_siascan :: "string \<Rightarrow> string \<Rightarrow> 'w \<Rightarrow> error + siascan_address list list"
  sx_random :: "('w, bytes32) action"
  sx_pubkey_hex :: "bytes32 \<Rightarrow> string"
  sx_hex32 :: "string \<Rightarrow> error + bytes32"
  sx_cost :: "u64 \<Rightarrow> u32"

section \<open>Requests\<close>

definition status_ok :: "sia_response \<Rightarrow> bool" where
  "status_ok res \<longleftrightarrow> 200 \<le> sr_status res \<and> sr_status res < 300"

definition body_bytes :: "sia_response \<Rightarrow> error + bytes" where
  "body_bytes res = (case try_collect (sr_body res) of Inl e \<Rightarrow> Inl e | Inr cs \<Rightarrow> Inr (concat cs))"

text \<open>The error of a response that is not a success: its status and its text.\<close>

definition fail_with_body :: "sia_response \<Rightarrow> sia_error" where
  "fail_with_body res =
    (case body_bytes res of
       Inl e \<Rightarrow> OtherSia e
     | Inr bs \<Rightarrow>
        if is_utf8 (map unat bs) then HttpFailWithBody (sr_status res) (map (\<lambda>b. char_of (unat b)) bs)
        else OtherSia (Anyhow ''invalid utf-8 sequence''))"

definition full_body :: "sia_response \<Rightarrow> sia_error + bytes" where
  "full_body res =
    (if \<not> status_ok res then Inl (fail_with_body res)
     else case body_bytes res of Inl e \<Rightarrow> Inl (OtherSia e) | Inr bs \<Rightarrow> Inr bs)"

definition sia_http_get :: "'w sia_libs \<Rightarrow> string \<Rightarrow> (string \<times> string) list \<Rightarrow> 'w \<Rightarrow> sia_error + bytes" where
  "sia_http_get X url auth_headers w =
    (case sx_read X \<lparr>rq_method = HttpGet, rq_url = url, rq_headers = auth_headers, rq_body = []\<rparr> w of
       Inl e \<Rightarrow> Inl (OtherSia e)
     | Inr res \<Rightarrow> full_body res)"

definition sia_http_post :: "'w sia_libs \<Rightarrow> string \<Rightarrow> (string \<times> string) list \<Rightarrow> bytes \<Rightarrow> 'w \<Rightarrow> (sia_error + bytes) \<times> 'w" where
  "sia_http_post X url auth_headers body w =
    (case sx_send X \<lparr>rq_method = HttpPost, rq_url = url, rq_headers = auth_headers @ [(''content-type'', ''application/json'')],
                     rq_body = [Inr body]\<rparr> w of
       (Inl e, w) \<Rightarrow> (Inl (OtherSia e), w)
     | (Inr res, w) \<Rightarrow> (full_body res, w))"

section \<open>The store\<close>

record sia_store_config =
  sc_bucket :: string
  sc_worker_api_url :: string
  sc_bus_api_url :: string
  sc_password :: string

record sia_store =
  ss_bucket :: string
  ss_worker_object_api_url :: string
  ss_worker_pinned_object_api_url :: string
  ss_bus_accounts_fund_api_url :: string
  ss_bus_hosts_api_url :: string
  ss_bus_contracts_api_url :: string
  ss_bus_objects_rename_api_url :: string
  ss_bus_objects_api_url :: string
  ss_auth_headers :: "(string \<times> string) list"
  ss_network_is_zen :: bool

definition sia_res :: "sia_error + 'a \<Rightarrow> error + 'a" where
  "sia_res r = (case r of Inl e \<Rightarrow> Inl (sia_display e) | Inr x \<Rightarrow> Inr x)"

definition SiaStore_create :: "'w sia_libs \<Rightarrow> sia_store_config \<Rightarrow> 'w \<Rightarrow> error + sia_store" where
  "SiaStore_create X config w =
    (let auth_str = sx_base64 X ('':'' @ sc_password config);
         auth_headers = [(''authorization'', ''Basic '' @ auth_str)];
         worker_api_url = sc_worker_api_url config;
         bus_api_url = sc_bus_api_url config;
         store = \<lparr>ss_bucket = sc_bucket config, ss_worker_object_api_url = worker_api_url @ ''/object'',
           ss_worker_pinned_object_api_url = worker_api_url @ ''/pinned'', ss_bus_accounts_fund_api_url = bus_api_url @ ''/accounts/fund'',
           ss_bus_hosts_api_url = bus_api_url @ ''/hosts'', ss_bus_contracts_api_url = bus_api_url @ ''/contracts'',
           ss_bus_objects_rename_api_url = bus_api_url @ ''/objects/rename'', ss_bus_objects_api_url = bus_api_url @ ''/objects'',
           ss_auth_headers = auth_headers, ss_network_is_zen = False\<rparr>
     in res_bind (sia_res (sia_http_get X (bus_api_url @ ''/settings/upload'') auth_headers w)) (\<lambda>upload_settings_res.
        res_bind (sx_json_upload_settings X upload_settings_res) (\<lambda>upload_settings.
        if us_packing_enabled upload_settings then Inl (sia_display RenterdPackingEnabled)
        else if us_min_shards upload_settings > 1 then Inl (sia_display RenterdPackingEnabled)
        else
          res_bind (sia_res (sia_http_get X (bus_api_url @ ''/state'') auth_headers w)) (\<lambda>state_res.
          res_bind (sx_json_state X state_res) (\<lambda>network.
          Inr (store\<lparr>ss_network_is_zen := (network = ''zen'')\<rparr>))))))"

definition object_url :: "sia_store \<Rightarrow> string \<Rightarrow> string" where
  "object_url self path = ss_worker_object_api_url self @ ''/'' @ path @ ''?bucket='' @ ss_bucket self"

definition pinned_object_url_for_path :: "sia_store \<Rightarrow> string \<Rightarrow> string" where
  "pinned_object_url_for_path self path = ss_worker_pinned_object_api_url self @ ''/'' @ path @ ''?bucket='' @ ss_bucket self"

text \<open>The end of the range is computed at 64 bits, where it wraps.\<close>

definition auth_with_range_header :: "sia_store \<Rightarrow> u64 \<Rightarrow> u64 option \<Rightarrow> (string \<times> string) list" where
  "auth_with_range_header self offset max_len =
    (if offset > 0 then
       ss_auth_headers self @ [(''Range'', case max_len of Some n \<Rightarrow> range_header offset (Some (n - offset - 1)) | None \<Rightarrow> range_header offset None)]
     else ss_auth_headers self)"

section \<open>Locations\<close>

type_synonym host_cache = "(string, string option) btree"

text \<open>The last address for the protocol wins.\<close>

definition quic_address :: "siascan_address list \<Rightarrow> string option" where
  "quic_address addresses =
    fold (\<lambda>address addr. if sa_protocol address = ''quic'' then Some (sa_address address) else addr) addresses None"

definition get_address_for_hostkey :: "'w sia_libs \<Rightarrow> sia_store \<Rightarrow> string \<Rightarrow> (host_cache \<times> 'w, string option) action" where
  "get_address_for_hostkey X self hostkey s =
    (case s of (cache, w) \<Rightarrow>
     case bt_get cache hostkey of
       Some addr \<Rightarrow> (Inr addr, s)
     | None \<Rightarrow>
        let url = (if ss_network_is_zen self then ''https://api.siascan.com/hosts?offset=0&limit=1''
                   else ''https://api.siascan.com/zen/hosts?offset=0&limit=1'')
        in (case sx_siascan X url (''{\"publicKeys\":[\"'' @ hostkey @ ''\"]}'') w of
              Inl e \<Rightarrow> (Inl e, s)
            | Inr res \<Rightarrow>
               let addr = (case res of first # _ \<Rightarrow> quic_address first | [] \<Rightarrow> None)
               in (Inr addr, (bt_insert hostkey addr cache, w))))"

text \<open>The hosts of a location so far, and the number each host key has.\<close>

record sia_hosts =
  sh_hosts :: "(u8, sia_file_host) btree"
  sh_indexed :: "(string, u8) btree"

definition contract_for :: "sia_contract list \<Rightarrow> string \<Rightarrow> string option" where
  "contract_for contracts hostkey =
    map_option ct_id (find (\<lambda>c. ct_host_key c = hostkey) (filter (\<lambda>c. ct_usability c = UsabilityGood) contracts))"

text \<open>Numbering a host that has none yet: \<open>None\<close> when the shard is skipped, because there is no contract or the account could not be
  funded.\<close>

definition index_host ::
  "'w sia_libs \<Rightarrow> sia_store \<Rightarrow> sia_contract list \<Rightarrow> u32 \<Rightarrow> string \<Rightarrow> sia_hosts \<Rightarrow> (host_cache \<times> 'w, sia_hosts option) action" where
  "index_host X self contracts amount hostkey hs =
    (let host_id = of_nat (bt_len (sh_indexed hs)) :: u8
     in act_bind (on_snd (sx_random X)) (\<lambda>ephemeral_account_private_key.
        case contract_for contracts hostkey of
          None \<Rightarrow> act_ok None
        | Some contract_id \<Rightarrow>
            let fund_req = \<lparr>fr_account_id = sx_pubkey_hex X ephemeral_account_private_key, fr_contract_id = contract_id,
                            fr_amount = show_nat (unat amount) @ ''uS''\<rparr>
            in (\<lambda>(cache, w).
               case sia_http_post X (ss_bus_accounts_fund_api_url self) (ss_auth_headers self) (sx_show_fund X fund_req) w of
                 (Inl _, w) \<Rightarrow> (Inr None, (cache, w))
               | (Inr _, w) \<Rightarrow>
                  act_bind (get_address_for_hostkey X self hostkey) (\<lambda>addr.
                  case addr of
                    None \<Rightarrow> act_err panicked
                  | Some a \<Rightarrow>
                     act_ok (Some \<lparr>sh_hosts = bt_insert host_id \<lparr>sfh_hostkey = hostkey, sfh_v2_siamux_addresses = [a],
                                       sfh_ephemeral_account_private_key = ephemeral_account_private_key\<rparr> (sh_hosts hs),
                                   sh_indexed = bt_insert hostkey host_id (sh_indexed hs)\<rparr>)) (cache, w))))"

definition add_shard ::
  "'w sia_libs \<Rightarrow> sia_store \<Rightarrow> sia_contract list \<Rightarrow> u32 \<Rightarrow> sia_pinned_sector \<Rightarrow> (u8, bytes32) btree \<times> sia_hosts
   \<Rightarrow> (host_cache \<times> 'w, (u8, bytes32) btree \<times> sia_hosts) action" where
  "add_shard X self contracts amount sector acc =
    (case acc of (roots, hs) \<Rightarrow>
     let hostkey = se_host_key sector
     in act_bind (get_address_for_hostkey X self hostkey) (\<lambda>addr.
        if addr = None then act_ok (roots, hs)
        else
          act_bind (if bt_contains (sh_indexed hs) hostkey then act_ok (Some hs) else index_host X self contracts amount hostkey hs) (\<lambda>indexed.
          case indexed of
            None \<Rightarrow> act_ok (roots, hs)
          | Some hs \<Rightarrow>
             act_bind (act_lift (sx_hex32 X (se_root sector))) (\<lambda>shard_root.
             case bt_get (sh_indexed hs) hostkey of
               None \<Rightarrow> act_err (sia_display HostNotFoundOnSiascan)
             | Some host_id \<Rightarrow> act_ok (bt_insert host_id shard_root roots, hs)))))"

fun add_shards ::
  "'w sia_libs \<Rightarrow> sia_store \<Rightarrow> sia_contract list \<Rightarrow> u32 \<Rightarrow> sia_pinned_sector list \<Rightarrow> (u8, bytes32) btree \<times> sia_hosts
   \<Rightarrow> (host_cache \<times> 'w, (u8, bytes32) btree \<times> sia_hosts) action" where
  "add_shards X self contracts amount [] acc = act_ok acc"
| "add_shards X self contracts amount (sector # rest) acc =
    act_bind (add_shard X self contracts amount sector acc) (add_shards X self contracts amount rest)"

fun add_slabs ::
  "'w sia_libs \<Rightarrow> sia_store \<Rightarrow> sia_contract list \<Rightarrow> u32 \<Rightarrow> sia_pinned_slab list \<Rightarrow> sia_hosts
   \<Rightarrow> (host_cache \<times> 'w, sia_file_slab list \<times> sia_hosts) action" where
  "add_slabs X self contracts amount [] hs = act_ok ([], hs)"
| "add_slabs X self contracts amount (slab # rest) hs =
    act_bind (add_shards X self contracts amount (sl_sectors slab) (bt_empty, hs)) (\<lambda>(roots, hs).
    act_bind (add_slabs X self contracts amount rest hs) (\<lambda>(slabs, hs).
    act_ok (\<lparr>sfs_slab_encryption_key = sl_encryption_key slab, sfs_shard_roots = roots\<rparr> # slabs, hs)))"

definition provide_sia_file :: "'w sia_libs \<Rightarrow> sia_store \<Rightarrow> string \<Rightarrow> (host_cache \<times> 'w, sia_file) action" where
  "provide_sia_file X self path =
    act_bind (on_snd (act_read (\<lambda>w. sia_res (sia_http_get X (pinned_object_url_for_path self path) (ss_auth_headers self) w)))) (\<lambda>res.
    act_bind (act_lift (sx_json_pinned X res)) (\<lambda>obj.
    act_bind (on_snd (act_read (\<lambda>w. sia_res (sia_http_get X (ss_bus_contracts_api_url self) (ss_auth_headers self) w)))) (\<lambda>contracts_res.
    act_bind (act_lift (sx_json_contracts X contracts_res)) (\<lambda>contracts.
    case po_slabs obj of
      [] \<Rightarrow> act_err panicked
    | first_slab # _ \<Rightarrow>
        let size = sum_list (map (\<lambda>slab. ucast (sl_length slab) :: u64) (po_slabs obj))
        in act_bind (add_slabs X self contracts (sx_cost X size) (po_slabs obj) \<lparr>sh_hosts = bt_empty, sh_indexed = bt_empty\<rparr>) (\<lambda>(slabs, hs).
           act_ok \<lparr>sf_size = size, sf_slab_size = sl_length first_slab, sf_min_shards = sl_min_shards first_slab, sf_hosts = sh_hosts hs,
                   sf_file_encryption_key = po_encryption_key obj, sf_slabs = slabs\<rparr>)))))"

section \<open>The operations of a store\<close>

definition Sia_features :: store_features where
  "Sia_features = \<lparr>supports_rename = True, case_sensitive = False, recommended_max_dir_size = - 1\<rparr>"

definition sia_read ::
  "'w sia_libs \<Rightarrow> http_method \<Rightarrow> string \<Rightarrow> (string \<times> string) list \<Rightarrow> 'w \<Rightarrow> error + sia_response" where
  "sia_read X http_method url headers w = sx_read X \<lparr>rq_method = http_method, rq_url = url, rq_headers = headers, rq_body = []\<rparr> w"

definition sia_send ::
  "'w sia_libs \<Rightarrow> http_method \<Rightarrow> string \<Rightarrow> (string \<times> string) list \<Rightarrow> chunk list \<Rightarrow> ('w, sia_response) action" where
  "sia_send X http_method url headers body = sx_send X \<lparr>rq_method = http_method, rq_url = url, rq_headers = headers, rq_body = body\<rparr>"

definition Sia_exists :: "'w sia_libs \<Rightarrow> sia_store \<Rightarrow> string \<Rightarrow> 'w \<Rightarrow> error + bool" where
  "Sia_exists X self path w =
    res_bind (sia_read X HttpHead (object_url self path) (ss_auth_headers self) w) (\<lambda>res.
    if sr_status res = 200 then Inr True
    else if sr_status res = 404 then Inr False
    else Inl (sia_display (HttpFail (sr_status res))))"

definition expect_200 :: "sia_response \<Rightarrow> error + unit" where
  "expect_200 res = (if sr_status res = 200 then Inr () else Inl (sia_display (HttpFail (sr_status res))))"

definition Sia_delete :: "'w sia_libs \<Rightarrow> sia_store \<Rightarrow> string \<Rightarrow> ('w, unit) action" where
  "Sia_delete X self path =
    act_bind (sia_send X HttpDelete (object_url self path) (ss_auth_headers self) []) (\<lambda>res. act_lift (expect_200 res))"

definition Sia_rename :: "'w sia_libs \<Rightarrow> sia_store \<Rightarrow> string \<Rightarrow> string \<Rightarrow> ('w, unit) action" where
  "Sia_rename X self old_path new_path =
    (let req = \<lparr>rn_bucket = ss_bucket self, rn_from = old_path, rn_to = new_path, rn_mode = ''single'', rn_force = False\<rparr>
     in act_bind (sia_send X HttpPost (ss_bus_objects_rename_api_url self) (ss_auth_headers self) [Inr (sx_show_rename X req)]) (\<lambda>res.
        act_lift (expect_200 res)))"

definition sia_put :: "'w sia_libs \<Rightarrow> sia_store \<Rightarrow> string \<Rightarrow> chunk list \<Rightarrow> ('w, unit) action" where
  "sia_put X self path body =
    act_bind (sia_send X HttpPut (object_url self path) (ss_auth_headers self) body) (\<lambda>response.
    if \<not> status_ok response then act_err (sia_display (fail_with_body response)) else act_ok ())"

definition Sia_put_stream :: "'w sia_libs \<Rightarrow> sia_store \<Rightarrow> string \<Rightarrow> chunk list \<Rightarrow> ('w, unit) action" where
  "Sia_put_stream X self path stream = sia_put X self path stream"

definition Sia_put_bytes :: "'w sia_libs \<Rightarrow> sia_store \<Rightarrow> string \<Rightarrow> bytes \<Rightarrow> ('w, unit) action" where
  "Sia_put_bytes X self path bs = sia_put X self path [Inr bs]"

definition Sia_open_read_stream :: "'w sia_libs \<Rightarrow> sia_store \<Rightarrow> string \<Rightarrow> u64 \<Rightarrow> u64 option \<Rightarrow> 'w \<Rightarrow> error + chunk list" where
  "Sia_open_read_stream X self path offset max_len w =
    res_bind (sia_read X HttpGet (object_url self path) (auth_with_range_header self offset max_len) w) (\<lambda>res.
    if \<not> status_ok res then Inl (sia_display (HttpFail (sr_status res))) else Inr (sr_body res))"

definition Sia_open_read_bytes :: "'w sia_libs \<Rightarrow> sia_store \<Rightarrow> string \<Rightarrow> u64 \<Rightarrow> u64 option \<Rightarrow> 'w \<Rightarrow> error + bytes" where
  "Sia_open_read_bytes X self path offset max_len w =
    res_bind (sia_read X HttpGet (object_url self path) (auth_with_range_header self offset max_len) w) (\<lambda>res.
    if sr_status res = 200 then body_bytes res else Inl (sia_display (HttpFail (sr_status res))))"

definition Sia_provide :: "'w sia_libs \<Rightarrow> sia_store \<Rightarrow> string \<Rightarrow> (host_cache \<times> 'w, blob_location list) action" where
  "Sia_provide X self path = act_bind (provide_sia_file X self path) (\<lambda>loc. act_ok [SiaFile loc])"

definition Sia_size :: "'w sia_libs \<Rightarrow> sia_store \<Rightarrow> string \<Rightarrow> 'w \<Rightarrow> error + u64" where
  "Sia_size X self path w =
    res_bind (sia_read X HttpHead (object_url self path) (ss_auth_headers self) w) (\<lambda>res.
    if \<not> status_ok res then Inl (sia_display (HttpFail (sr_status res)))
    else case sr_header res ''Content-Length'' of
           None \<Rightarrow> Inl (Anyhow ''missing Content-Length header'')
         | Some None \<Rightarrow> Inl (Anyhow ''invalid Content-Length header'')
         | Some (Some text) \<Rightarrow> (case parse_u64 text of None \<Rightarrow> Inl (Anyhow ''invalid Content-Length header'') | Some n \<Rightarrow> Inr n))"

definition Sia_list :: "'w sia_libs \<Rightarrow> sia_store \<Rightarrow> 'w \<Rightarrow> error + (error + string) list" where
  "Sia_list X self w =
    res_bind (sia_res (sia_http_get X (ss_bus_objects_api_url self @ ''?bucket='' @ ss_bucket self) (ss_auth_headers self) w)) (\<lambda>res_bytes.
    res_bind (sx_json_objects X res_bytes) (\<lambda>response.
    Inr (map (\<lambda>m. Inr (om_name m)) (case response of None \<Rightarrow> [] | Some objects \<Rightarrow> objects))))"

text \<open>The table of the store; the accounts that \<^verbatim>\<open>provide\<close> funds are in \<open>Sia_provide\<close> only.\<close>

definition SiaStore :: "'w sia_libs \<Rightarrow> sia_store \<Rightarrow> (host_cache \<times> 'w) store" where
  "SiaStore X self =
    \<lparr>st_features = Sia_features, st_put_stream = \<lambda>p st. on_snd (Sia_put_stream X self p st), st_put_bytes = \<lambda>p c. on_snd (Sia_put_bytes X self p c),
     st_exists = \<lambda>p s. Sia_exists X self p (snd s), st_open_read_stream = \<lambda>p off len s. Sia_open_read_stream X self p off len (snd s),
     st_open_read_bytes = \<lambda>p off len s. Sia_open_read_bytes X self p off len (snd s), st_size = \<lambda>p s. Sia_size X self p (snd s),
     st_list = \<lambda>s. Sia_list X self (snd s), st_delete = \<lambda>p. on_snd (Sia_delete X self p), st_rename = \<lambda>p q. on_snd (Sia_rename X self p q),
     st_provide = \<lambda>p s. fst (Sia_provide X self p s), st_put_temp = Store_put_temp (\<lambda>p st. on_snd (Sia_put_stream X self p st))\<rparr>"

section \<open>Hosts and shards\<close>

text \<open>Every numbered host is described under its number, and the numbers are those below the count.\<close>

definition hosts_ok :: "string set \<Rightarrow> sia_hosts \<Rightarrow> bool" where
  "hosts_ok K hs \<longleftrightarrow> finite K \<and> card K \<le> 256 \<and>
    (\<forall>k id. bt_get (sh_indexed hs) k = Some id \<longrightarrow> k \<in> K \<and> (\<exists>h. bt_get (sh_hosts hs) id = Some h \<and> sfh_hostkey h = k)) \<and>
    (\<forall>id h. bt_get (sh_hosts hs) id = Some h \<longrightarrow> unat id < bt_len (sh_indexed hs))"

definition hosts_le :: "sia_hosts \<Rightarrow> sia_hosts \<Rightarrow> bool" where
  "hosts_le hs hs' \<longleftrightarrow> (\<forall>id h. bt_get (sh_hosts hs) id = Some h \<longrightarrow> bt_get (sh_hosts hs') id = Some h)"

definition roots_ok :: "'w sia_libs \<Rightarrow> sia_hosts \<Rightarrow> sia_pinned_sector set \<Rightarrow> (u8, bytes32) btree \<Rightarrow> bool" where
  "roots_ok X hs sectors roots \<longleftrightarrow> (\<forall>id root. bt_get roots id = Some root \<longrightarrow>
    (\<exists>sector \<in> sectors. sx_hex32 X (se_root sector) = Inr root
      \<and> (\<exists>h. bt_get (sh_hosts hs) id = Some h \<and> sfh_hostkey h = se_host_key sector)))"

lemma hosts_le_refl [simp]: "hosts_le hs hs" by (simp add: hosts_le_def)

lemma hosts_le_trans: "hosts_le a b \<Longrightarrow> hosts_le b c \<Longrightarrow> hosts_le a c" by (simp add: hosts_le_def)

lemma roots_ok_mono: "roots_ok X hs A roots \<Longrightarrow> hosts_le hs hs' \<Longrightarrow> A \<subseteq> B \<Longrightarrow> roots_ok X hs' B roots"
  by (auto simp: roots_ok_def hosts_le_def) (meson subsetD)

lemma bt_len_card: "bt_len m = card (dom (bt_get m))"
  using bt_keys_distinct[of m] distinct_card[of "bt_keys m"] by (simp add: bt_len_def bt_keys_def bt_get_map_of dom_map_of_conv_image_fst)

lemma add_host:
  assumes "hosts_ok K hs" "k \<in> K" "bt_get (sh_indexed hs) k = None" "sfh_hostkey h = k"
  defines "hs' \<equiv> \<lparr>sh_hosts = bt_insert (of_nat (bt_len (sh_indexed hs))) h (sh_hosts hs),
    sh_indexed = bt_insert k (of_nat (bt_len (sh_indexed hs)) :: u8) (sh_indexed hs)\<rparr>"
  shows "hosts_ok K hs' \<and> hosts_le hs hs'"
proof -
  let ?n = "bt_len (sh_indexed hs)"
  have "insert k (dom (bt_get (sh_indexed hs))) \<subseteq> K" using assms(1,2) by (auto simp: hosts_ok_def)
  then have "card (insert k (dom (bt_get (sh_indexed hs)))) \<le> 256"
    using assms(1) by (meson card_mono hosts_ok_def le_trans)
  moreover have fin: "finite (dom (bt_get (sh_indexed hs)))" by (simp add: bt_get_map_of finite_dom_map_of)
  moreover have "dom (bt_get (sh_indexed hs')) = insert k (dom (bt_get (sh_indexed hs)))" by (auto simp: hs'_def domIff split: if_splits)
  ultimately have lt: "?n < 256" and len: "bt_len (sh_indexed hs') = Suc ?n"
    using assms(3) by (simp_all add: bt_len_card domIff)
  have n: "unat (of_nat ?n :: u8) = ?n" using lt by (simp add: unat_of_nat)
  have new: "bt_get (sh_hosts hs) (of_nat ?n) = None"
    using assms(1) n unfolding hosts_ok_def by (metis less_irrefl not_None_eq)
  have le: "hosts_le hs hs'" using new by (auto simp: hosts_le_def hs'_def)
  have "unat id < Suc ?n" if "bt_get (sh_hosts hs') id = Some g" for id g
    using that assms(1) n by (auto simp: hs'_def hosts_ok_def less_Suc_eq split: if_splits)
  moreover have "j \<in> K \<and> (\<exists>g. bt_get (sh_hosts hs') id = Some g \<and> sfh_hostkey g = j)" if "bt_get (sh_indexed hs') j = Some id" for j id
  proof (cases "j = k")
    case True
    then show ?thesis using that assms(2,4) by (simp add: hs'_def)
  next
    case False
    then have "bt_get (sh_indexed hs) j = Some id" using that by (simp add: hs'_def)
    then show ?thesis using assms(1) le unfolding hosts_ok_def hosts_le_def by blast
  qed
  ultimately show ?thesis using assms(1) le len by (simp add: hosts_ok_def)
qed

lemma index_host_result:
  assumes "index_host X self contracts amount k hs s = (Inr (Some hs'), s')" "hosts_ok K hs" "k \<in> K" "bt_get (sh_indexed hs) k = None"
  shows "hosts_ok K hs' \<and> hosts_le hs hs' \<and> bt_get (sh_indexed hs') k \<noteq> None"
proof -
  let ?new = "\<lambda>h. \<lparr>sh_hosts = bt_insert (of_nat (bt_len (sh_indexed hs))) h (sh_hosts hs),
      sh_indexed = bt_insert k (of_nat (bt_len (sh_indexed hs)) :: u8) (sh_indexed hs)\<rparr>"
  have "\<exists>a key. hs' = ?new \<lparr>sfh_hostkey = k, sfh_v2_siamux_addresses = [a], sfh_ephemeral_account_private_key = key\<rparr>"
    using assms(1) by (auto simp: index_host_def Let_def act_bind_def act_ok_def act_err_def split: prod.splits sum.splits option.splits)
  then obtain h where "sfh_hostkey h = k" "hs' = ?new h" by (metis sia_file_host.select_convs(1))
  then show ?thesis using add_host[OF assms(2-4)] by auto
qed

lemma add_shard_result:
  assumes "add_shard X self contracts amount sector (roots, hs) s = (Inr (roots', hs'), s')" "hosts_ok K hs" "se_host_key sector \<in> K"
    and "roots_ok X hs A roots"
  shows "hosts_ok K hs' \<and> hosts_le hs hs' \<and> roots_ok X hs' (insert sector A) roots'"
proof -
  let ?k = "se_host_key sector"
  obtain addr s1 where a: "get_address_for_hostkey X self ?k s = (Inr addr, s1)"
    using assms(1) by (auto simp: add_shard_def Let_def act_bind_def split: prod.splits sum.splits)
  show ?thesis
  proof (cases "roots' = roots \<and> hs' = hs")
    case True
    then show ?thesis using assms(2,4) roots_ok_mono[OF assms(4) hosts_le_refl, of "insert sector A"] by auto
  next
    case False
    from assms(1) a False obtain hs1 s2 where i: "(if bt_contains (sh_indexed hs) ?k then act_ok (Some hs) else index_host X self contracts amount ?k hs) s1 = (Inr (Some hs1), s2)"
      by (auto simp: add_shard_def Let_def act_bind_def act_ok_def split: prod.splits sum.splits option.splits if_splits)
    have ok: "hosts_ok K hs1 \<and> hosts_le hs hs1"
    proof (cases "bt_contains (sh_indexed hs) ?k")
      case True
      then show ?thesis using i assms(2) by (simp add: act_ok_def)
    next
      case new: False
      have "index_host X self contracts amount ?k hs s1 = (Inr (Some hs1), s2)" using i new by simp
      from index_host_result[OF this assms(2,3)] show ?thesis using new by (simp add: bt_contains_def)
    qed
    from assms(1) a False i obtain root id where r: "sx_hex32 X (se_root sector) = Inr root" "bt_get (sh_indexed hs1) ?k = Some id"
        "roots' = bt_insert id root roots" "hs' = hs1"
      by (auto simp: add_shard_def Let_def act_bind_def act_ok_def act_lift_def act_err_def split: prod.splits sum.splits option.splits if_splits)
    have "\<exists>h. bt_get (sh_hosts hs1) id = Some h \<and> sfh_hostkey h = ?k" using ok r(2) by (auto simp: hosts_ok_def)
    then show ?thesis using ok r roots_ok_mono[OF assms(4), of hs1 "insert sector A"] by (auto simp: roots_ok_def)
  qed
qed

lemma add_shards_result:
  assumes "add_shards X self contracts amount sectors (roots, hs) s = (Inr (roots', hs'), s')" "hosts_ok K hs" "se_host_key ` set sectors \<subseteq> K"
    and "roots_ok X hs A roots"
  shows "hosts_ok K hs' \<and> hosts_le hs hs' \<and> roots_ok X hs' (A \<union> set sectors) roots'"
  using assms
proof (induction sectors arbitrary: roots hs s A)
  case Nil
  then show ?case by (simp add: act_ok_def)
next
  case (Cons sector rest)
  from Cons.prems(1) obtain roots1 hs1 s1 where step: "add_shard X self contracts amount sector (roots, hs) s = (Inr (roots1, hs1), s1)"
    and rest: "add_shards X self contracts amount rest (roots1, hs1) s1 = (Inr (roots', hs'), s')"
    by (auto elim!: act_bindE)
  have r: "hosts_ok K hs1 \<and> hosts_le hs hs1 \<and> roots_ok X hs1 (insert sector A) roots1"
    using add_shard_result[OF step Cons.prems(2) _ Cons.prems(4)] Cons.prems(3) by simp
  from Cons.IH[OF rest, of "insert sector A"] r Cons.prems(3) hosts_le_trans show ?case by auto
qed

lemma add_slabs_result:
  assumes "add_slabs X self contracts amount slabs hs s = (Inr (out, hs'), s')" "hosts_ok K hs"
    and "(\<Union>slab \<in> set slabs. se_host_key ` set (sl_sectors slab)) \<subseteq> K"
  shows "hosts_ok K hs' \<and> hosts_le hs hs' \<and> list_all2 (\<lambda>slab f. sfs_slab_encryption_key f = sl_encryption_key slab
    \<and> roots_ok X hs' (set (sl_sectors slab)) (sfs_shard_roots f)) slabs out"
  using assms
proof (induction slabs arbitrary: hs s out)
  case Nil
  then show ?case by (simp add: act_ok_def)
next
  case (Cons slab rest)
  from Cons.prems(1) obtain roots hs1 s1 fs where step: "add_shards X self contracts amount (sl_sectors slab) (bt_empty, hs) s = (Inr (roots, hs1), s1)"
    and rest: "add_slabs X self contracts amount rest hs1 s1 = (Inr (fs, hs'), s')"
    and out: "out = \<lparr>sfs_slab_encryption_key = sl_encryption_key slab, sfs_shard_roots = roots\<rparr> # fs"
    by (auto simp: act_ok_def elim!: act_bindE split: prod.splits)
  have r: "hosts_ok K hs1 \<and> hosts_le hs hs1 \<and> roots_ok X hs1 (set (sl_sectors slab)) roots"
    using add_shards_result[OF step Cons.prems(2), of "{}"] Cons.prems(3) by (simp add: roots_ok_def)
  note ih = Cons.IH[OF rest conjunct1[OF r]]
  have le: "hosts_ok K hs' \<and> hosts_le hs1 hs'" using ih Cons.prems(3) by simp
  then have "roots_ok X hs' (set (sl_sectors slab)) roots" "hosts_le hs hs'"
    using r roots_ok_mono[of X hs1 "set (sl_sectors slab)" roots hs'] hosts_le_trans by blast+
  then show ?case using ih Cons.prems(3) le out by simp
qed

section \<open>The service\<close>

text \<open>What renterd does with the objects of the bucket: a whole object is answered with status 200, a part with 206.\<close>

locale sia_service =
  fixes X :: "'w sia_libs" and self :: sia_store and objects :: "'w \<Rightarrow> string \<Rightarrow> bytes option"
  assumes put_law: "\<exists>res w'. sx_send X \<lparr>rq_method = HttpPut, rq_url = object_url self p, rq_headers = ss_auth_headers self, rq_body = map Inr cs\<rparr> w = (Inr res, w')
      \<and> status_ok res \<and> objects w' = (objects w)(p \<mapsto> concat cs)"
    and get_law: "objects w p = Some c \<Longrightarrow>
      \<exists>res cs. sx_read X \<lparr>rq_method = HttpGet, rq_url = object_url self p, rq_headers = ss_auth_headers self, rq_body = []\<rparr> w = Inr res
        \<and> sr_status res = 200 \<and> sr_body res = map Inr cs \<and> concat cs = c"
    and range_law: "objects w p = Some c \<Longrightarrow> http_range c first final = (s, bs) \<Longrightarrow>
      \<exists>res cs. sx_read X \<lparr>rq_method = HttpGet, rq_url = object_url self p,
          rq_headers = ss_auth_headers self @ [(''Range'', range_header first final)], rq_body = []\<rparr> w = Inr res
        \<and> sr_status res = s \<and> (s \<noteq> 416 \<longrightarrow> sr_body res = map Inr cs \<and> concat cs = bs)"
begin

lemma read_from_start: "objects w p = Some c \<Longrightarrow> Sia_open_read_bytes X self p 0 len w = Inr c"
  using get_law[of w p c]
  by (auto simp: Sia_open_read_bytes_def sia_read_def auth_with_range_header_def res_bind_def body_bytes_def)

lemma stream_from_start: "objects w p = Some c \<Longrightarrow> \<exists>cs. Sia_open_read_stream X self p 0 len w = Inr (map Inr cs) \<and> concat cs = c"
  using get_law[of w p c]
  by (auto simp: Sia_open_read_stream_def sia_read_def auth_with_range_header_def res_bind_def status_ok_def)

text \<open>A read from a positive offset has a range, whose end is computed from the length.\<close>

lemma read_range:
  assumes "objects w p = Some c" "off \<noteq> 0" "http_range c off (map_option (\<lambda>n. n - off - 1) len) = (s, bs)"
  shows "Sia_open_read_bytes X self p off len w = (if s = 200 then Inr bs else Inl (sia_display (HttpFail s)))"
    "s = 206 \<Longrightarrow> \<exists>cs. Sia_open_read_stream X self p off len w = Inr (map Inr cs) \<and> concat cs = bs"
proof -
  have h: "auth_with_range_header self off len = ss_auth_headers self @ [(''Range'', range_header off (map_option (\<lambda>n. n - off - 1) len))]"
    using assms(2) by (simp add: auth_with_range_header_def word_neq_0_conv split: option.split)
  from range_law[OF assms(1,3)] show "Sia_open_read_bytes X self p off len w = (if s = 200 then Inr bs else Inl (sia_display (HttpFail s)))"
    "s = 206 \<Longrightarrow> \<exists>cs. Sia_open_read_stream X self p off len w = Inr (map Inr cs) \<and> concat cs = bs"
    by (auto simp: Sia_open_read_bytes_def Sia_open_read_stream_def sia_read_def h res_bind_def status_ok_def body_bytes_def)
qed

lemma read_positive:
  assumes "objects w p = Some c" "off \<noteq> 0"
  shows "Sia_open_read_bytes X self p off len w =
    (if \<exists>n. len = Some n \<and> n - off - 1 < off then Inr c
     else Inl (sia_display (HttpFail (if unat off < length c then 206 else 416))))"
proof -
  obtain s bs where r: "http_range c off (map_option (\<lambda>n. n - off - 1) len) = (s, bs)" by fastforce
  then show ?thesis using read_range(1)[OF assms r] by (auto simp: http_range_def split: if_splits option.splits)
qed

lemma stream_tail:
  assumes "objects w p = Some c" "off \<noteq> 0" "unat off < length c"
  shows "\<exists>cs. Sia_open_read_stream X self p off None w = Inr (map Inr cs) \<and> concat cs = slice_of off None c"
  by (rule read_range(2)[OF assms(1,2)]) (use assms(3) in \<open>simp_all add: http_range_def slice_of_def Let_def\<close>)

lemma put_law': "\<exists>w'. Sia_put_bytes X self p c w = (Inr (), w') \<and> objects w' = (objects w)(p \<mapsto> c)"
  using put_law[of p "[c]" w] by (auto simp: Sia_put_bytes_def sia_put_def sia_send_def act_bind_def act_ok_def)

end

text \<open>A renterd in memory.\<close>

definition sia_url_path :: "sia_store \<Rightarrow> string \<Rightarrow> string" where
  "sia_url_path self url = (let r = drop (length (ss_worker_object_api_url self) + 1) url in take (length r - (8 + length (ss_bucket self))) r)"

lemma sia_url_path: "sia_url_path self (object_url self p) = p"
  by (simp add: sia_url_path_def object_url_def Let_def)

definition mem_renterd :: "sia_store \<Rightarrow> memory_store sia_libs" where
  "mem_renterd self =
    (let answer = (\<lambda>s bs. \<lparr>sr_status = s, sr_header = (\<lambda>_. None), sr_body = [Inr bs]\<rparr>) in
     \<lparr>sx_read = \<lambda>rq m. (case bt_get m (sia_url_path self (rq_url rq)) of
          None \<Rightarrow> Inr (answer 404 [])
        | Some c \<Rightarrow>
           if rq_headers rq = ss_auth_headers self then Inr (answer 200 c)
           else case parse_range (snd (last (rq_headers rq))) of (first, final) \<Rightarrow> (case http_range c first final of (s, bs) \<Rightarrow> Inr (answer s bs))),
      sx_send = \<lambda>rq m. (case try_collect (rq_body rq) of
          Inl e \<Rightarrow> (Inl e, m)
        | Inr cs \<Rightarrow> (Inr (answer 200 []), bt_insert (sia_url_path self (rq_url rq)) (concat cs) m)),
      sx_base64 = id, sx_json_upload_settings = \<lambda>_. Inr \<lparr>us_packing_enabled = False, us_min_shards = 1\<rparr>, sx_json_state = \<lambda>_. Inr ''mainnet'',
      sx_json_pinned = \<lambda>_. Inr \<lparr>po_encryption_key = fill32 0, po_slabs = [\<lparr>sl_encryption_key = fill32 1, sl_min_shards = 1,
          sl_sectors = [\<lparr>se_root = ''r'', se_host_key = ''h''\<rparr>], sl_length = 4\<rparr>]\<rparr>,
      sx_json_contracts = \<lambda>_. Inr [\<lparr>ct_id = ''c'', ct_host_key = ''h'', ct_usability = UsabilityGood\<rparr>], sx_json_objects = \<lambda>_. Inr None,
      sx_show_fund = \<lambda>_. [], sx_show_rename = \<lambda>_. [], sx_siascan = \<lambda>_ _ _. Inr [[\<lparr>sa_protocol = ''quic'', sa_address = ''a''\<rparr>]],
      sx_random = act_ok (fill32 9), sx_pubkey_hex = \<lambda>_. [], sx_hex32 = \<lambda>_. Inr (fill32 3), sx_cost = \<lambda>_. 0\<rparr>)"

interpretation memory_renterd: sia_service "mem_renterd self" self bt_get for self
proof (unfold_locales, goal_cases)
  case (1 p cs m)
  then show ?case by (auto simp: mem_renterd_def Let_def sia_url_path status_ok_def fun_eq_iff)
next
  case (2 m p c)
  then show ?case by (simp add: mem_renterd_def Let_def sia_url_path) (intro exI[of _ "[c]"], simp)
next
  case (3 m p c first final s bs)
  then show ?case by (simp add: mem_renterd_def Let_def sia_url_path parse_range_header) (intro impI exI[of _ "[bs]"], simp)
qed

section \<open>Properties\<close>

text \<open>C26. The location a Sia store provides names the right host for every shard. If the pinned object names at most 256 hosts, the slabs
  of the location are those of the object with their keys, and for every shard of a slab there is a sector of that slab with the same root
  whose host is the one described under the number of the shard. Hosts without an address, a good contract or a funded account are left
  out. A host's number has eight bits: with more hosts the numbers would wrap and describe other hosts.\<close>

theorem sia_location_names_the_hosts:
  assumes "sia_http_get X (pinned_object_url_for_path self path) (ss_auth_headers self) w = Inr res" "sx_json_pinned X res = Inr obj"
    and "card (\<Union>slab \<in> set (po_slabs obj). se_host_key ` set (sl_sectors slab)) \<le> 256"
    and "provide_sia_file X self path (cache, w) = (Inr f, s')"
  shows "length (sf_slabs f) = length (po_slabs obj) \<and> sf_size f = sum_list (map (\<lambda>slab. ucast (sl_length slab)) (po_slabs obj))
    \<and> (\<forall>i < length (po_slabs obj). sfs_slab_encryption_key (sf_slabs f ! i) = sl_encryption_key (po_slabs obj ! i)
      \<and> (\<forall>id root. bt_get (sfs_shard_roots (sf_slabs f ! i)) id = Some root \<longrightarrow>
          (\<exists>sector \<in> set (sl_sectors (po_slabs obj ! i)). sx_hex32 X (se_root sector) = Inr root
            \<and> (\<exists>h. bt_get (sf_hosts f) id = Some h \<and> sfh_hostkey h = se_host_key sector))))"
proof -
  let ?K = "\<Union>slab \<in> set (po_slabs obj). se_host_key ` set (sl_sectors slab)"
  let ?size = "sum_list (map (\<lambda>slab. ucast (sl_length slab) :: u64) (po_slabs obj))"
  obtain contracts slabs hs s1 where run: "add_slabs X self contracts (sx_cost X ?size) (po_slabs obj) \<lparr>sh_hosts = bt_empty, sh_indexed = bt_empty\<rparr> s1 = (Inr (slabs, hs), s')"
    and f: "sf_size f = ?size" "sf_hosts f = sh_hosts hs" "sf_slabs f = slabs"
    using assms(1,2,4)
    by (auto simp: provide_sia_file_def sia_res_def act_read_def act_ok_def act_err_def act_lift_def Let_def simp del: add_slabs.simps
        elim!: act_bindE split: list.splits sum.splits)
  have "hosts_ok ?K \<lparr>sh_hosts = bt_empty, sh_indexed = bt_empty\<rparr>" using assms(3) by (simp add: hosts_ok_def)
  from add_slabs_result[OF run this]
  have "list_all2 (\<lambda>slab g. sfs_slab_encryption_key g = sl_encryption_key slab \<and> roots_ok X hs (set (sl_sectors slab)) (sfs_shard_roots g)) (po_slabs obj) slabs"
    by simp
  then show ?thesis using f unfolding list_all2_conv_all_nth roots_ok_def by simp
qed

definition demo_sia :: sia_store where
  "demo_sia = \<lparr>ss_bucket = ''b'', ss_worker_object_api_url = ''w/object'', ss_worker_pinned_object_api_url = ''w/pinned'',
     ss_bus_accounts_fund_api_url = ''b/fund'', ss_bus_hosts_api_url = [], ss_bus_contracts_api_url = ''w/object/k?bucket=b'', ss_bus_objects_rename_api_url = [],
     ss_bus_objects_api_url = [], ss_auth_headers = [], ss_network_is_zen = False\<rparr>"



theorem sia_location_names_the_hosts_witness:
  "\<exists>f s'. provide_sia_file (mem_renterd demo_sia) demo_sia ''k'' (bt_empty, bt_insert ''k'' [] bt_empty) = (Inr f, s')
    \<and> bt_get (sfs_shard_roots (sf_slabs f ! 0)) 0 = Some (fill32 3) \<and> (\<exists>h. bt_get (sf_hosts f) 0 = Some h \<and> sfh_hostkey h = ''h'')"
proof -
  let ?X = "mem_renterd demo_sia" and ?w = "bt_insert ''k'' [] bt_empty :: memory_store"
  have get: "sia_http_get ?X (pinned_object_url_for_path demo_sia ''k'') (ss_auth_headers demo_sia) ?w = Inr []"
    "sia_http_get ?X (ss_bus_contracts_api_url demo_sia) (ss_auth_headers demo_sia) ?w = Inr []"
    by (simp_all add: sia_http_get_def mem_renterd_def Let_def demo_sia_def sia_url_path_def pinned_object_url_for_path_def full_body_def status_ok_def body_bytes_def)
  let ?obj = "\<lparr>po_encryption_key = fill32 0, po_slabs = [\<lparr>sl_encryption_key = fill32 1, sl_min_shards = 1,
      sl_sectors = [\<lparr>se_root = ''r'', se_host_key = ''h''\<rparr>], sl_length = 4\<rparr>]\<rparr>"
  have obj: "sx_json_pinned ?X [] = Inr ?obj" by (simp add: mem_renterd_def Let_def)
  have lib: "sx_siascan ?X = (\<lambda>_ _ _. Inr [[\<lparr>sa_protocol = ''quic'', sa_address = ''a''\<rparr>]])" "sx_random ?X = act_ok (fill32 9)"
    "sx_hex32 ?X = (\<lambda>_. Inr (fill32 3))" "sx_json_contracts ?X = (\<lambda>_. Inr [\<lparr>ct_id = ''c'', ct_host_key = ''h'', ct_usability = UsabilityGood\<rparr>])"
    by (simp_all add: mem_renterd_def Let_def)
  let ?c = "bt_insert ''h'' (Some ''a'') bt_empty :: host_cache"
  have addr: "get_address_for_hostkey ?X demo_sia ''h'' (bt_empty, ?w) = (Inr (Some ''a''), (?c, ?w))"
    "get_address_for_hostkey ?X demo_sia ''h'' (?c, v) = (Inr (Some ''a''), (?c, v))" for v
    by (simp_all add: get_address_for_hostkey_def lib quic_address_def Let_def)
  have post: "\<exists>v. sia_http_post ?X url hs body ?w = (Inr [], v)" for url hs body
    by (simp add: sia_http_post_def mem_renterd_def Let_def full_body_def status_ok_def body_bytes_def)
  let ?hs = "\<lparr>sh_hosts = bt_insert 0 \<lparr>sfh_hostkey = ''h'', sfh_v2_siamux_addresses = [''a''], sfh_ephemeral_account_private_key = fill32 9\<rparr> bt_empty,
      sh_indexed = bt_insert ''h'' 0 bt_empty\<rparr>"
  have index: "\<exists>v. index_host ?X demo_sia [\<lparr>ct_id = ''c'', ct_host_key = ''h'', ct_usability = UsabilityGood\<rparr>] n ''h'' \<lparr>sh_hosts = bt_empty, sh_indexed = bt_empty\<rparr> (?c, ?w)
      = (Inr (Some ?hs), (?c, v))" for n
    using post[of "ss_bus_accounts_fund_api_url demo_sia" "ss_auth_headers demo_sia" "sx_show_fund ?X \<lparr>fr_account_id = sx_pubkey_hex ?X (fill32 9),
        fr_contract_id = ''c'', fr_amount = show_nat (unat n) @ ''uS''\<rparr>"] addr(2)
    by (auto simp: index_host_def Let_def act_bind_def act_ok_def lib contract_for_def bt_len_def)
  have "\<exists>v. add_slabs ?X demo_sia [\<lparr>ct_id = ''c'', ct_host_key = ''h'', ct_usability = UsabilityGood\<rparr>] n (po_slabs ?obj) \<lparr>sh_hosts = bt_empty, sh_indexed = bt_empty\<rparr> (bt_empty, ?w)
      = (Inr ([\<lparr>sfs_slab_encryption_key = fill32 1, sfs_shard_roots = bt_insert 0 (fill32 3) bt_empty\<rparr>], ?hs), (?c, v))" for n
    using index[of n] addr(1) by (auto simp: add_shard_def Let_def act_bind_def act_ok_def act_lift_def lib bt_contains_def)
  from this[of "sx_cost ?X 4"] obtain v where
    "add_slabs ?X demo_sia [\<lparr>ct_id = ''c'', ct_host_key = ''h'', ct_usability = UsabilityGood\<rparr>] (sx_cost ?X 4) (po_slabs ?obj) \<lparr>sh_hosts = bt_empty, sh_indexed = bt_empty\<rparr> (bt_empty, ?w)
      = (Inr ([\<lparr>sfs_slab_encryption_key = fill32 1, sfs_shard_roots = bt_insert 0 (fill32 3) bt_empty\<rparr>], ?hs), (?c, v))" ..
  then have "\<exists>f s'. provide_sia_file ?X demo_sia ''k'' (bt_empty, ?w) = (Inr f, s') \<and> bt_get (sfs_shard_roots (sf_slabs f ! 0)) 0 = Some (fill32 3)"
    by (simp add: provide_sia_file_def get obj lib act_bind_def act_read_def act_lift_def act_ok_def sia_res_def Let_def del: add_slabs.simps)
  then obtain f s' where f: "provide_sia_file ?X demo_sia ''k'' (bt_empty, ?w) = (Inr f, s')" "bt_get (sfs_shard_roots (sf_slabs f ! 0)) 0 = Some (fill32 3)" by blast
  have "card (\<Union>slab \<in> set (po_slabs ?obj). se_host_key ` set (sl_sectors slab)) \<le> 256" by simp
  from sia_location_names_the_hosts[OF get(1) obj this f(1)] f show ?thesis by force
qed

end
