(* ===== verification/Node_Config.thy ===== *)
theory Node_Config
  imports Node_Sync Sia_Store
begin

text \<open>
  The start of a node from its configuration: \<^verbatim>\<open>s5_node/src/config.rs\<close>, \<^verbatim>\<open>identity.rs\<close>, \<^verbatim>\<open>lib.rs\<close> and \<^verbatim>\<open>fuse.rs\<close>. What opens a store, a
  registry or a connection in the world is a table of operations; the stores and registries themselves are those of the other theories.
\<close>

section \<open>Configuration\<close>

record node_config_identity =
  ni_secret_key_file :: "string option"
  ni_secret_key :: "string option"

datatype node_config_store =
    StoreSiaRenterd sia_store_config
  | StoreLocal local_store_config
  | StoreS3 s3_store_config
  | StoreMemory

record node_config_peer =
  np_id :: string
  np_blobs :: peer_config_blobs

datatype node_config_registry =
    RegistryRedb
  | RegistryStoreLocal "string option"
  | RegistryMemory
  | RegistryRemote string
  | RegistryTee node_config_registry string
  | RegistryMulti "node_config_registry list" "string option"

record node_config_fuse_mount =
  fm_root_path :: string
  fm_mount_path :: string
  fm_auto_unmount :: bool
  fm_allow_root :: bool

record s5_node_config =
  nc_name :: "string option"
  nc_identity :: node_config_identity
  nc_store :: "(string, node_config_store) btree"
  nc_peer :: "(string, node_config_peer) btree"
  nc_sync :: "(string, node_config_sync) btree"
  nc_registry_path :: "string option"
  nc_registry :: "node_config_registry option"
  nc_fuse :: "(string, node_config_fuse_mount) btree"

definition registry_path :: "string \<Rightarrow> s5_node_config \<Rightarrow> string" where
  "registry_path node_config_file config =
    (case nc_registry_path config of
       Some p \<Rightarrow> p
     | None \<Rightarrow> path_join (case parent_dir node_config_file of Some base \<Rightarrow> base | None \<Rightarrow> ''.'') ''registry'')"

section \<open>Identity\<close>

text \<open>\<^verbatim>\<open>str::trim\<close>: the encodings of the white space characters, taken off the front.\<close>

definition white_space :: "string list" where
  "white_space = map (map char_of)
    ([[9], [10], [11], [12], [13], [32], [0xC2, 0x85], [0xC2, 0xA0], [0xE1, 0x9A, 0x80], [0xE2, 0x80, 0xA8], [0xE2, 0x80, 0xA9],
      [0xE2, 0x80, 0xAF], [0xE2, 0x81, 0x9F], [0xE3, 0x80, 0x80 :: nat]] @ map (\<lambda>n. [0xE2, 0x80, n]) [0x80..<0x8B])"

function trim_front :: "string list \<Rightarrow> string \<Rightarrow> string" where
  "trim_front ws s =
    (case find (\<lambda>p. p \<noteq> [] \<and> starts_with p s) ws of
       None \<Rightarrow> s
     | Some p \<Rightarrow> trim_front ws (drop (length p) s))"
  by pat_completeness auto
termination
  by (relation "measure (\<lambda>(ws, s). length s)") (auto simp: find_Some_iff starts_with_def intro!: diff_less)

declare trim_front.simps [simp del]

definition trim :: "string \<Rightarrow> string" where
  "trim s = rev (trim_front (map rev white_space) (rev (trim_front white_space s)))"

text \<open>The \<^verbatim>\<open>hex\<close> and \<^verbatim>\<open>base64\<close> crates.\<close>

record key_codec =
  kc_hex :: "string \<Rightarrow> bytes option"
  kc_base64url :: "string \<Rightarrow> bytes option"

definition parse_secret_key_bytes :: "bytes \<Rightarrow> bytes32 option" where
  "parse_secret_key_bytes bs = (if length bs = 32 then Some (arr32 bs) else None)"

definition parse_secret_key_string :: "key_codec \<Rightarrow> string \<Rightarrow> bytes32 option" where
  "parse_secret_key_string K s =
    (let s = trim s
     in case Option.bind (kc_hex K s) parse_secret_key_bytes of
          Some sk \<Rightarrow> Some sk
        | None \<Rightarrow> Option.bind (kc_base64url K s) parse_secret_key_bytes)"

definition load_secret_key ::
  "key_codec \<Rightarrow> (string \<Rightarrow> 'w \<Rightarrow> error + bytes) \<Rightarrow> node_config_identity \<Rightarrow> string option \<Rightarrow> 'w \<Rightarrow> bytes32 option" where
  "load_secret_key K read_file identity config_dir w =
    (case Option.bind (ni_secret_key identity) (parse_secret_key_string K) of
       Some sk \<Rightarrow> Some sk
     | None \<Rightarrow>
        (case ni_secret_key_file identity of
           None \<Rightarrow> None
         | Some path \<Rightarrow>
            let resolved = (if \<not> starts_with ''/'' path then case config_dir of Some dir \<Rightarrow> path_join dir path | None \<Rightarrow> path else path)
            in (case read_file resolved w of
                  Inl _ \<Rightarrow> None
                | Inr bs \<Rightarrow>
                   (case (if is_utf8 (map unat bs) then parse_secret_key_string K (trim (map (\<lambda>b. char_of (unat b)) bs)) else None) of
                      Some sk \<Rightarrow> Some sk
                    | None \<Rightarrow> parse_secret_key_bytes bs))))"

section \<open>Stores\<close>

record 'w store_backends =
  bk_sia :: "sia_store_config \<Rightarrow> ('w, 'w store) action"
  bk_local :: "local_store_config \<Rightarrow> 'w store"
  bk_s3 :: "s3_store_config \<Rightarrow> 'w store option"
  bk_memory :: "('w, 'w store) action"

definition create_store :: "'w store_backends \<Rightarrow> node_config_store \<Rightarrow> ('w, 'w blob_store) action" where
  "create_store B config =
    act_bind (case config of
        StoreSiaRenterd c \<Rightarrow> bk_sia B c
      | StoreLocal c \<Rightarrow> act_ok (bk_local B c)
      | StoreS3 c \<Rightarrow> (case bk_s3 B c of None \<Rightarrow> act_err panicked | Some st \<Rightarrow> act_ok st)
      | StoreMemory \<Rightarrow> bk_memory B) (\<lambda>store. act_ok (BlobStore_new store))"

fun create_stores :: "'w store_backends \<Rightarrow> (string \<times> node_config_store) list \<Rightarrow> (string, 'w blob_store) btree \<Rightarrow> ('w, (string, 'w blob_store) btree) action" where
  "create_stores B [] stores = act_ok stores"
| "create_stores B ((name, config) # rest) stores =
    act_bind (create_store B config) (\<lambda>store. create_stores B rest (bt_insert name store stores))"

section \<open>Registries\<close>

record 'w registry_backends =
  rb_create_dir_all :: "string \<Rightarrow> ('w, unit) action"
  rb_redb_open :: "string \<Rightarrow> ('w, 'w registry) action"
  rb_local_store :: "local_store_config \<Rightarrow> 'w store"
  rb_memory :: "('w, 'w registry) action"
  rb_parse_id :: "string \<Rightarrow> string + bytes32"
  rb_connect :: "bytes32 \<Rightarrow> 'w registry_peer"
  rb_key_text :: "bytes \<Rightarrow> string"

record registry_context =
  rc_registry_root :: string
  rc_peers :: "(string, node_config_peer) btree"

definition parse_write_policy :: "string option \<Rightarrow> error + write_policy" where
  "parse_write_policy write_policy =
    (case write_policy of
       None \<Rightarrow> Inr WriteAll
     | Some s \<Rightarrow>
        if s = ''all'' then Inr WriteAll
        else if s = ''any'' then Inr WriteAny
        else if starts_with ''quorum:'' s then
          (case parse_u64 (drop (length ''quorum:'') s) of
             None \<Rightarrow> Inl (Anyhow (''invalid quorum value in write_policy: '' @ s))
           | Some n \<Rightarrow> Inr (WriteQuorum (unat n)))
        else Inl (Anyhow (''unknown write_policy: '' @ s)))"

definition connect_peer :: "'w registry_backends \<Rightarrow> registry_context \<Rightarrow> string \<Rightarrow> string \<Rightarrow> error + 'w registry" where
  "connect_peer B ctx what peer =
    (case bt_get (rc_peers ctx) peer of
       None \<Rightarrow> Inl (Anyhow (what @ [CHR 0x27] @ peer @ [CHR 0x27] @ '' not found in config''))
     | Some peer_config \<Rightarrow>
        if np_id peer_config = [] then Inl (Anyhow (what @ [CHR 0x27] @ peer @ [CHR 0x27] @ '' has no id configured''))
        else case rb_parse_id B (np_id peer_config) of
               Inl e \<Rightarrow> Inl (Anyhow (''invalid endpoint id for peer '' @ [CHR 0x27] @ peer @ [CHR 0x27] @ '': '' @ e))
             | Inr endpoint_id \<Rightarrow> Inr (RemoteRegistry (rb_connect B endpoint_id)))"

fun create_registry_inner :: "'w registry_backends \<Rightarrow> registry_context \<Rightarrow> node_config_registry \<Rightarrow> ('w, 'w registry) action"
  and create_backends :: "'w registry_backends \<Rightarrow> registry_context \<Rightarrow> node_config_registry list \<Rightarrow> ('w, 'w registry list) action" where
  "create_registry_inner B ctx RegistryRedb =
    act_bind (rb_create_dir_all B (rc_registry_root ctx)) (\<lambda>_. rb_redb_open B (rc_registry_root ctx))"
| "create_registry_inner B ctx (RegistryStoreLocal key_prefix) =
    act_bind (rb_create_dir_all B (rc_registry_root ctx)) (\<lambda>_.
    let store = rb_local_store B \<lparr>lc_base_path = rc_registry_root ctx\<rparr>
    in act_ok (StoreRegistry (rb_key_text B) (StoreRegistry_new store key_prefix)))"
| "create_registry_inner B ctx RegistryMemory = rb_memory B"
| "create_registry_inner B ctx (RegistryRemote peer) = act_lift (connect_peer B ctx ''registry remote peer '' peer)"
| "create_registry_inner B ctx (RegistryTee local_cfg remote_peer) =
    act_bind (create_registry_inner B ctx local_cfg) (\<lambda>local_registry.
    act_bind (act_lift (connect_peer B ctx ''registry tee remote peer '' remote_peer)) (\<lambda>remote_registry.
    act_ok (TeeRegistry \<lparr>tr_local = local_registry, tr_remote = remote_registry\<rparr>)))"
| "create_registry_inner B ctx (RegistryMulti backends write_policy) =
    act_bind (act_lift (parse_write_policy write_policy)) (\<lambda>policy.
    act_bind (create_backends B ctx backends) (\<lambda>registry_backends.
    act_ok (MultiRegistry (MultiRegistry_with_policy registry_backends policy))))"
| "create_backends B ctx [] = act_ok []"
| "create_backends B ctx (backend_config # rest) =
    act_bind (create_registry_inner B ctx backend_config) (\<lambda>backend.
    act_bind (create_backends B ctx rest) (\<lambda>backends. act_ok (backend # backends)))"

definition create_registry :: "'w registry_backends \<Rightarrow> registry_context \<Rightarrow> node_config_registry option \<Rightarrow> ('w, 'w registry) action" where
  "create_registry B ctx backend = create_registry_inner B ctx (case backend of None \<Rightarrow> RegistryRedb | Some b \<Rightarrow> b)"

section \<open>The node\<close>

text \<open>The blobs server of the node and, when there is a registry, the registry server are the protocols it accepts.\<close>

record 'w s5_node =
  sn_config :: s5_node_config
  sn_stores :: "(string, 'w blob_store) btree"
  sn_registry :: "'w registry option"
  sn_blobs_server :: "'w blobs_server"
  sn_registry_server :: "'w registry option"

definition peer_cfg_of :: "node_config_peer list \<Rightarrow> (string, peer_config_blobs) btree" where
  "peer_cfg_of peers =
    fold (\<lambda>peer peer_cfg. if np_id peer \<noteq> [] then bt_insert (np_id peer) (np_blobs peer) peer_cfg else peer_cfg) peers bt_empty"

definition S5Node_new_with_endpoint ::
  "hashing \<Rightarrow> (error \<Rightarrow> string) \<Rightarrow> pin_codec \<Rightarrow> 'w store_backends \<Rightarrow> s5_node_config \<Rightarrow> 'w registry option \<Rightarrow> ('w, 'w s5_node) action" where
  "S5Node_new_with_endpoint H shw P B config registry =
    act_bind (create_stores B (bt_entries (nc_store config)) bt_empty) (\<lambda>stores.
    let peer_cfg = peer_cfg_of (bt_vals (nc_peer config));
        pinner = map_option (RegistryPinner P) registry
    in act_ok \<lparr>sn_config = config, sn_stores = stores, sn_registry = registry,
               sn_blobs_server = \<lparr>sv_hash = H, sv_show = shw, sv_stores = stores, sv_peer_cfg = peer_cfg, sv_pinner = pinner\<rparr>,
               sn_registry_server = registry\<rparr>)"

text \<open>\<^verbatim>\<open>S5Node::new\<close> binds an endpoint of its own, without a directory to find a relative key file in.\<close>

definition S5Node_new ::
  "key_codec \<Rightarrow> (string \<Rightarrow> 'w \<Rightarrow> error + bytes) \<Rightarrow> (bytes32 option \<Rightarrow> ('w, 'ep) action) \<Rightarrow> hashing \<Rightarrow> (error \<Rightarrow> string) \<Rightarrow> pin_codec
   \<Rightarrow> 'w store_backends \<Rightarrow> s5_node_config \<Rightarrow> 'w registry option \<Rightarrow> ('w, 'ep \<times> 'w s5_node) action" where
  "S5Node_new K read_file bind H shw P B config registry =
    act_bind (\<lambda>w. bind (load_secret_key K read_file (nc_identity config) None w) w) (\<lambda>endpoint.
    act_bind (S5Node_new_with_endpoint H shw P B config registry) (\<lambda>node. act_ok (endpoint, node)))"

section \<open>Mounts\<close>

text \<open>The command lines of the mounts that are started.\<close>

definition fuse_command :: "string option \<Rightarrow> node_config_fuse_mount \<Rightarrow> string list" where
  "fuse_command store_path mount =
    [''fs5-fuse'', ''--root'', fm_root_path mount]
    @ (case store_path of Some sp \<Rightarrow> [''--store-path'', sp] | None \<Rightarrow> [])
    @ (if fm_auto_unmount mount then [''--auto-unmount''] else [])
    @ (if fm_allow_root mount then [''--allow-root''] else [])
    @ [fm_mount_path mount]"

definition default_store_path :: "s5_node_config \<Rightarrow> string option" where
  "default_store_path config = (case bt_get (nc_store config) ''default'' of Some (StoreLocal cfg) \<Rightarrow> Some (lc_base_path cfg) | _ \<Rightarrow> None)"

definition spawn_fuse_mounts :: "s5_node_config \<Rightarrow> string list list" where
  "spawn_fuse_mounts config = map (fuse_command (default_store_path config)) (bt_vals (nc_fuse config))"

section \<open>Running a node\<close>

definition node_run_file_sync :: "('w, 'ep) sync_env \<Rightarrow> 'ep \<Rightarrow> 'w s5_node \<Rightarrow> 'w \<Rightarrow> (error + unit) \<times> 'w sync_job list \<times> 'w" where
  "node_run_file_sync V endpoint node =
    run_file_sync V endpoint (\<lambda>name. map_option np_id (bt_get (nc_peer (sn_config node)) name)) (bt_entries (nc_sync (sn_config node)))"

text \<open>What a started node leaves behind: the node, the commands of its mounts and the tasks of its syncs. A failure of a mount or of a
  sync is only logged. The endpoint is bound to the secret key, if there is one.\<close>

definition run_node ::
  "key_codec \<Rightarrow> (string \<Rightarrow> 'w \<Rightarrow> error + bytes) \<Rightarrow> (bytes32 option \<Rightarrow> ('w, 'ep) action) \<Rightarrow> ('ep \<Rightarrow> 'w registry_backends) \<Rightarrow> hashing \<Rightarrow> (error \<Rightarrow> string)
   \<Rightarrow> pin_codec \<Rightarrow> 'w store_backends \<Rightarrow> ('w, 'ep) sync_env \<Rightarrow> string \<Rightarrow> s5_node_config
   \<Rightarrow> ('w, 'w s5_node \<times> string list list \<times> 'w sync_job list) action" where
  "run_node K read_file bind RB H shw P B V config_file_path config =
    act_bind (\<lambda>w. bind (load_secret_key K read_file (nc_identity config) (parent_dir config_file_path) w) w) (\<lambda>endpoint.
    let registry_ctx = \<lparr>rc_registry_root = registry_path config_file_path config, rc_peers = nc_peer config\<rparr>
    in act_bind (create_registry (RB endpoint) registry_ctx (nc_registry config)) (\<lambda>registry.
       act_bind (S5Node_new_with_endpoint H shw P B config (Some registry)) (\<lambda>node w.
       case node_run_file_sync V endpoint node w of
         (_, jobs, w) \<Rightarrow> (Inr (node, spawn_fuse_mounts config, jobs), w))))"

section \<open>Facts\<close>

text \<open>A peer's entry is the last one with its id; no entry is under the empty id.\<close>

lemma peer_cfg_lookup:
  "bt_get (peer_cfg_of peers) key =
    (if key = [] then None else map_option np_blobs (find (\<lambda>p. np_id p = key) (rev peers)))"
proof -
  have "bt_get (fold (\<lambda>peer peer_cfg. if np_id peer \<noteq> [] then bt_insert (np_id peer) (np_blobs peer) peer_cfg else peer_cfg) peers m) key =
      (if key = [] then bt_get m key
       else case find (\<lambda>p. np_id p = key) (rev peers) of Some p \<Rightarrow> Some (np_blobs p) | None \<Rightarrow> bt_get m key)" for m
  proof (induction peers arbitrary: m)
    case (Cons p ps)
    have "find P (xs @ ys) = (case find P xs of Some x \<Rightarrow> Some x | None \<Rightarrow> find P ys)" for P :: "node_config_peer \<Rightarrow> bool" and xs ys
      by (induction xs) auto
    then show ?case using Cons by (auto split: option.splits)
  qed simp
  from this[of bt_empty] show ?thesis by (auto simp: peer_cfg_of_def split: option.splits)
qed

text \<open>A configuration whose remote peers are there and whose write policies are well-formed.\<close>

definition peer_ok :: "'w registry_backends \<Rightarrow> registry_context \<Rightarrow> string \<Rightarrow> bool" where
  "peer_ok B ctx peer \<longleftrightarrow> (case bt_get (rc_peers ctx) peer of None \<Rightarrow> False | Some c \<Rightarrow> np_id c \<noteq> [] \<and> is_ok (rb_parse_id B (np_id c)))"

fun registry_config_ok :: "'w registry_backends \<Rightarrow> registry_context \<Rightarrow> node_config_registry \<Rightarrow> bool" where
  "registry_config_ok B ctx (RegistryRemote peer) = peer_ok B ctx peer"
| "registry_config_ok B ctx (RegistryTee local_cfg peer) = (registry_config_ok B ctx local_cfg \<and> peer_ok B ctx peer)"
| "registry_config_ok B ctx (RegistryMulti backends policy) = (is_ok (parse_write_policy policy) \<and> list_all (registry_config_ok B ctx) backends)"
| "registry_config_ok B ctx _ = True"

definition backends_open :: "'w registry_backends \<Rightarrow> bool" where
  "backends_open B \<longleftrightarrow> (\<forall>p w. is_ok (fst (rb_create_dir_all B p w))) \<and> (\<forall>p w. is_ok (fst (rb_redb_open B p w))) \<and> (\<forall>w. is_ok (fst (rb_memory B w)))"

lemma connect_peer_ok: "is_ok (connect_peer B ctx what peer) = peer_ok B ctx peer"
  by (auto simp: connect_peer_def peer_ok_def is_ok_def split: option.splits sum.splits)

lemma act_bind_ok:
  assumes "\<And>x w'. is_ok (fst (f x w')) = Q"
  shows "is_ok (fst (act_bind m f w)) = (is_ok (fst (m w)) \<and> Q)"
  by (cases "m w"; cases "fst (m w)") (use assms in \<open>auto simp: act_bind_def is_ok_def\<close>)

lemma act_basic_ok [simp]: "is_ok (fst (act_ok x w))" "is_ok (fst (act_lift r w)) = is_ok r"
  by (simp_all add: act_ok_def act_lift_def is_ok_def)

lemma create_registry_ok_iff:
  assumes "backends_open B"
  shows "is_ok (fst (create_registry_inner B ctx cfg w)) = registry_config_ok B ctx cfg"
    and "is_ok (fst (create_backends B ctx cfgs w)) = list_all (registry_config_ok B ctx) cfgs"
  using assms
proof (induction B ctx cfg and B ctx cfgs arbitrary: w and w rule: create_registry_inner_create_backends.induct)
  case (1 B ctx)
  then show ?case by (simp add: act_bind_ok[where Q = True] backends_open_def)
next
  case (2 B ctx key_prefix)
  then show ?case by (simp add: act_bind_ok[where Q = True] backends_open_def Let_def)
next
  case (3 B ctx)
  then show ?case by (simp add: backends_open_def)
next
  case (4 B ctx peer)
  then show ?case by (simp add: connect_peer_ok)
next
  case (5 B ctx local_cfg peer)
  then show ?case by (simp add: act_bind_ok[where Q = True] act_bind_ok[where Q = "peer_ok B ctx peer"] connect_peer_ok)
next
  case (6 B ctx backends policy)
  have "is_ok (fst (act_bind (create_backends B ctx backends) (\<lambda>bs. act_ok (MultiRegistry (MultiRegistry_with_policy bs p))) v))
      = list_all (registry_config_ok B ctx) backends" for p v
    using 6 by (simp add: act_bind_ok[where Q = True])
  then show ?case by (simp add: act_bind_ok[where Q = "list_all (registry_config_ok B ctx) backends"])
next
  case (7 B ctx)
  then show ?case by simp
next
  case (8 B ctx cfg rest)
  have "is_ok (fst (act_bind (create_backends B ctx rest) (\<lambda>bs. act_ok (b # bs)) v)) = list_all (registry_config_ok B ctx) rest" for b v
    using 8(2)[OF 8(3)] by (simp add: act_bind_ok[where Q = True])
  then show ?case using 8(1)[OF 8(3)] by (simp add: act_bind_ok[where Q = "list_all (registry_config_ok B ctx) rest"])
qed

lemma trim_front_length: "length (trim_front ws s) \<le> length s"
proof (induction ws s rule: trim_front.induct)
  case (1 ws s)
  then show ?case by (subst trim_front.simps) (force split: option.split)
qed

lemma trim_length: "length (trim s) \<le> length s"
  using trim_front_length[of white_space s] trim_front_length[of "map rev white_space" "rev (trim_front white_space s)"] by (simp add: trim_def)

lemma create_stores_result:
  assumes "create_stores B entries m w = (Inr stores, w')"
  shows "bt_get stores n \<noteq> None \<longleftrightarrow> bt_get m n \<noteq> None \<or> n \<in> fst ` set entries"
  using assms
proof (induction entries arbitrary: m w)
  case (Cons e rest)
  obtain name config where e: "e = (name, config)" by (cases e)
  from Cons.prems obtain store v where "create_stores B rest (bt_insert name store m) v = (Inr stores, w')"
    unfolding e create_stores.simps by (elim act_bindE) auto
  from Cons.IH[OF this] show ?case by (auto simp: e split: if_splits)
qed (simp add: act_ok_def)

lemma multi_quorum_fails:
  assumes "bs \<noteq> []" "length bs < n"
  shows "\<not> is_ok (fst (rg_set (MultiRegistry (MultiRegistry_with_policy bs (WriteQuorum n))) m w))"
proof -
  have "length (fst (join_all acts v)) = length acts" for acts :: "('w, unit) action list" and v
    by (induction acts arbitrary: v) (simp_all add: case_prod_unfold)
  then have "length (filter is_ok (fst (join_all (map (\<lambda>b. rg_set b m) bs) w))) < n"
    using assms(2) length_filter_le[of is_ok "fst (join_all (map (\<lambda>b. rg_set b m) bs) w)"] by (metis length_map order_le_less_trans)
  then show ?thesis
    using assms(1) by (simp add: MultiRegistry_def MultiRegistry_set_def MultiRegistry_with_policy_def policy_result_def Let_def is_ok_def case_prod_unfold)
qed

lemma create_backends_length: "create_backends B ctx cfgs w = (Inr bs, w') \<Longrightarrow> length bs = length cfgs"
  by (induction cfgs arbitrary: w bs) (auto simp: act_ok_def elim!: act_bindE)

section \<open>Properties\<close>

text \<open>C22. What a running node serves. When a node has been started from its configuration, it has a store for exactly the configured
  names, its blobs server checks pins in the node's own registry, and the access of a peer is that of the last configured peer with its
  id, or else of the last one with the id \<open>*\<close>; a peer configured without an id is given to nobody.\<close>

theorem node_serves_its_configuration:
  assumes "run_node K read_file bind RB H shw P B V config_file config w = (Inr (node, mounts, jobs), w')"
  shows "(\<forall>n. bt_get (sn_stores node) n \<noteq> None \<longleftrightarrow> bt_get (nc_store config) n \<noteq> None)
    \<and> (\<exists>registry. sn_registry node = Some registry \<and> sv_pinner (sn_blobs_server node) = Some (RegistryPinner P registry)
        \<and> sn_registry_server node = Some registry)
    \<and> sv_stores (sn_blobs_server node) = sn_stores node
    \<and> (\<forall>key. key \<noteq> [] \<longrightarrow> BlobsServer_cfg_for (sn_blobs_server node) key =
        (let peer = (\<lambda>k. map_option np_blobs (find (\<lambda>p. np_id p = k) (rev (bt_vals (nc_peer config)))))
         in case peer key of Some c \<Rightarrow> Some c | None \<Rightarrow> peer ''*''))
    \<and> mounts = spawn_fuse_mounts config"
proof -
  from assms obtain registry v stores v' where
    st: "create_stores B (bt_entries (nc_store config)) bt_empty v = (Inr stores, v')"
    and node: "sn_stores node = stores" "sn_registry node = Some registry" "sn_registry_server node = Some registry" "mounts = spawn_fuse_mounts config"
      "sn_blobs_server node = \<lparr>sv_hash = H, sv_show = shw, sv_stores = stores, sv_peer_cfg = peer_cfg_of (bt_vals (nc_peer config)),
        sv_pinner = Some (RegistryPinner P registry)\<rparr>"
    by (auto simp: run_node_def S5Node_new_with_endpoint_def Let_def act_ok_def elim!: act_bindE split: prod.splits)
  have "bt_get stores n \<noteq> None \<longleftrightarrow> bt_get (nc_store config) n \<noteq> None" for n
    using create_stores_result[OF st, of n] bt_keys_iff[of n "nc_store config"] by (simp add: bt_keys_def)
  then show ?thesis by (simp add: node BlobsServer_cfg_for_def peer_cfg_lookup Let_def split: option.split)
qed

text \<open>A registry is created from its configuration exactly when the configuration is valid: every remote backend, also below tees and
  multi-registries, names a configured peer that has an id which parses, and every write policy is \<open>all\<close>, \<open>any\<close> or a quorum with a
  number. The directories and databases of the node can be opened.\<close>

theorem registry_created_iff_config_valid:
  assumes "backends_open B"
  shows "is_ok (fst (create_registry B ctx backend w)) \<longleftrightarrow> (case backend of None \<Rightarrow> True | Some cfg \<Rightarrow> registry_config_ok B ctx cfg)"
  using create_registry_ok_iff(1)[OF assms] by (simp add: create_registry_def split: option.split)

text \<open>A quorum that cannot be met is accepted. A multi-registry whose quorum is greater than the number of its backends is created
  without an error, and every write to it fails.\<close>

theorem unreachable_quorum_is_accepted:
  assumes "backends_open B" "list_all (registry_config_ok B ctx) backends" "backends \<noteq> []"
    and "parse_u64 digits = Some n" "length backends < unat n"
  shows "\<exists>reg w'. create_registry B ctx (Some (RegistryMulti backends (Some (''quorum:'' @ digits)))) w = (Inr reg, w')
    \<and> (\<forall>m v. \<not> is_ok (fst (rg_set reg m v)))"
proof -
  define policy where "policy = ''quorum:'' @ digits"
  have p: "parse_write_policy (Some policy) = Inr (WriteQuorum (unat n))"
    using assms(4) by (simp add: policy_def parse_write_policy_def starts_with_def)
  obtain bs w' where bs: "create_backends B ctx backends w = (Inr bs, w')"
    using create_registry_ok_iff(2)[OF assms(1), of ctx backends w] assms(2) by (cases "create_backends B ctx backends w") (auto simp: is_ok_iff)
  have "bs \<noteq> []" "length bs < unat n" using create_backends_length[OF bs] assms(3,5) by auto
  then have "\<forall>m v. \<not> is_ok (fst (rg_set (MultiRegistry (MultiRegistry_with_policy bs (WriteQuorum (unat n)))) m v))"
    by (intro allI multi_quorum_fails)
  moreover have "create_registry B ctx (Some (RegistryMulti backends (Some policy))) w = (Inr (MultiRegistry (MultiRegistry_with_policy bs (WriteQuorum (unat n)))), w')"
    using bs p by (simp add: create_registry_def act_bind_def act_lift_def act_ok_def)
  ultimately show ?thesis unfolding policy_def by blast
qed

text \<open>The key file that setting up a node writes is read back: a file of 32 raw bytes is the secret key, also when the bytes happen to
  be text. Hexadecimal text has two characters for each byte, base64 at least four for three.\<close>

theorem raw_key_file_loads:
  assumes "\<forall>s b. kc_hex K s = Some b \<longrightarrow> 2 * length b = length s" "\<forall>s b. kc_base64url K s = Some b \<longrightarrow> 4 * length b \<le> 3 * length s"
    and "length bs = 32" "read_file (case config_dir of Some dir \<Rightarrow> path_join dir name | None \<Rightarrow> name) w = Inr bs" "\<not> starts_with ''/'' name"
  shows "load_secret_key K read_file \<lparr>ni_secret_key_file = Some name, ni_secret_key = None\<rparr> config_dir w = Some (arr32 bs)"
proof -
  have "parse_secret_key_string K s = None" if "length s \<le> 32" for s
  proof -
    have "length (trim s) \<le> 32" using trim_length[of s] that by simp
    then have "Option.bind (kc_hex K (trim s)) parse_secret_key_bytes = None" "Option.bind (kc_base64url K (trim s)) parse_secret_key_bytes = None"
      using assms(1,2) by (cases "kc_hex K (trim s)"; cases "kc_base64url K (trim s)"; fastforce simp: parse_secret_key_bytes_def)+
    then show ?thesis by (simp add: parse_secret_key_string_def)
  qed
  then have "parse_secret_key_string K (trim (map (\<lambda>b. char_of (unat b)) bs)) = None"
    using trim_length[of "map (\<lambda>b. char_of (unat b)) bs"] assms(3) by simp
  then show ?thesis using assms(3-5) by (simp add: load_secret_key_def parse_secret_key_bytes_def Let_def split: option.splits)
qed

text \<open>Backends in memory, a codec that decodes nothing, and a node that uses them.\<close>

definition demo_registries :: "node_state registry_backends" where
  "demo_registries =
    \<lparr>rb_create_dir_all = \<lambda>_. act_ok (), rb_redb_open = \<lambda>_. act_ok (registry_on_snd MemoryRegistry), rb_local_store = \<lambda>_. store_on_fst MemoryStore, rb_memory = act_ok (registry_on_snd MemoryRegistry),
     rb_parse_id = \<lambda>s. if s = ''ok'' then Inr (fill32 1) else Inl ''bad'', rb_connect = \<lambda>_. \<lparr>peer_link = \<lambda>_. None, peer_show = \<lambda>_. [], peer_registry = registry_on_snd MemoryRegistry\<rparr>,
     rb_key_text = \<lambda>_. []\<rparr>"

lemma demo_registries_open: "backends_open demo_registries"
  by (simp add: backends_open_def demo_registries_def act_ok_def is_ok_def)

theorem registry_created_iff_config_valid_witness:
  "\<not> is_ok (fst (create_registry demo_registries \<lparr>rc_registry_root = ''/r'', rc_peers = bt_empty\<rparr> (Some (RegistryTee RegistryRedb ''paid'')) (MemoryStore_new, MemoryRegistry_new)))
   \<and> is_ok (fst (create_registry demo_registries \<lparr>rc_registry_root = ''/r'', rc_peers = bt_insert ''paid'' \<lparr>np_id = ''ok'',
       np_blobs = \<lparr>readable_stores = [], store_uploads_in = None\<rparr>\<rparr> bt_empty\<rparr> (Some (RegistryTee RegistryRedb ''paid'')) (MemoryStore_new, MemoryRegistry_new)))"
  using registry_created_iff_config_valid[OF demo_registries_open, of _ "Some (RegistryTee RegistryRedb ''paid'')" "(MemoryStore_new, MemoryRegistry_new)"]
  by (simp add: peer_ok_def demo_registries_def is_ok_def)

theorem unreachable_quorum_is_accepted_witness:
  "\<exists>reg w'. create_registry demo_registries \<lparr>rc_registry_root = ''/r'', rc_peers = bt_empty\<rparr>
      (Some (RegistryMulti [RegistryMemory, RegistryRedb] (Some ''quorum:3''))) (MemoryStore_new, MemoryRegistry_new) = (Inr reg, w') \<and> (\<forall>m v. \<not> is_ok (fst (rg_set reg m v)))"
proof -
  have "parse_u64 ''3'' = Some 3" by (simp add: parse_u64_def)
  from unreachable_quorum_is_accepted[OF demo_registries_open _ _ this, of _ "[RegistryMemory, RegistryRedb]"] show ?thesis by simp
qed

theorem raw_key_file_loads_witness:
  "load_secret_key \<lparr>kc_hex = \<lambda>_. None, kc_base64url = \<lambda>_. None\<rparr> (\<lambda>p w. if p = ''/etc/key'' then Inr (replicate 32 65) else Inl (Io NotFound p))
     \<lparr>ni_secret_key_file = Some ''key'', ni_secret_key = None\<rparr> (Some ''/etc'') () = Some (arr32 (replicate 32 65))"
  using raw_key_file_loads[where K = "\<lparr>kc_hex = \<lambda>_. None, kc_base64url = \<lambda>_. None\<rparr>" and bs = "replicate 32 65" and config_dir = "Some ''/etc''"
      and read_file = "\<lambda>p w. if p = ''/etc/key'' then Inr (replicate 32 65) else Inl (Io NotFound p)" and name = "''key''" and w = "()"]
  by (simp add: path_join_def starts_with_def)

definition demo_config :: s5_node_config where
  "demo_config = \<lparr>nc_name = None, nc_identity = \<lparr>ni_secret_key_file = None, ni_secret_key = None\<rparr>, nc_store = bt_insert ''main'' StoreMemory bt_empty,
     nc_peer = bt_insert ''cloud'' \<lparr>np_id = ''k'', np_blobs = \<lparr>readable_stores = [''main''], store_uploads_in = None\<rparr>\<rparr> bt_empty, nc_sync = bt_empty,
     nc_registry_path = None, nc_registry = Some RegistryMemory, nc_fuse = bt_empty\<rparr>"

definition demo_stores :: "node_state store_backends" where
  "demo_stores = \<lparr>bk_sia = \<lambda>_. act_err panicked, bk_local = \<lambda>_. store_on_fst MemoryStore, bk_s3 = \<lambda>_. None, bk_memory = act_ok (store_on_fst MemoryStore)\<rparr>"

theorem node_serves_its_configuration_witness:
  "\<forall>V :: (node_state, unit) sync_env. \<exists>node w'. run_node \<lparr>kc_hex = \<lambda>_. None, kc_base64url = \<lambda>_. None\<rparr> (\<lambda>_ _. Inr []) (\<lambda>_. act_ok ()) (\<lambda>_. demo_registries) demo_hashing (\<lambda>_. [])
      demo_pin_codec demo_stores V ''/etc/s5.toml'' demo_config (MemoryStore_new, MemoryRegistry_new) = (Inr (node, [], []), w')
    \<and> BlobsServer_cfg_for (sn_blobs_server node) ''k'' = Some \<lparr>readable_stores = [''main''], store_uploads_in = None\<rparr>"
proof
  fix V :: "(node_state, unit) sync_env"
  have "\<exists>node w'. run_node \<lparr>kc_hex = \<lambda>_. None, kc_base64url = \<lambda>_. None\<rparr> (\<lambda>_ _. Inr []) (\<lambda>_. act_ok ()) (\<lambda>_. demo_registries) demo_hashing (\<lambda>_. [])
      demo_pin_codec demo_stores V ''/etc/s5.toml'' demo_config (MemoryStore_new, MemoryRegistry_new) = (Inr (node, [], []), w')"
    by (simp add: run_node_def demo_config_def create_registry_def demo_registries_def act_bind_def act_ok_def Let_def S5Node_new_with_endpoint_def
        create_store_def demo_stores_def node_run_file_sync_def spawn_fuse_mounts_def bt_vals_def)
  then obtain node w' where r: "run_node \<lparr>kc_hex = \<lambda>_. None, kc_base64url = \<lambda>_. None\<rparr> (\<lambda>_ _. Inr []) (\<lambda>_. act_ok ()) (\<lambda>_. demo_registries)
      demo_hashing (\<lambda>_. []) demo_pin_codec demo_stores V ''/etc/s5.toml'' demo_config (MemoryStore_new, MemoryRegistry_new) = (Inr (node, [], []), w')" by blast
  from node_serves_its_configuration[OF r] r show "\<exists>node w'. run_node \<lparr>kc_hex = \<lambda>_. None, kc_base64url = \<lambda>_. None\<rparr> (\<lambda>_ _. Inr []) (\<lambda>_. act_ok ()) (\<lambda>_. demo_registries) demo_hashing (\<lambda>_. [])
      demo_pin_codec demo_stores V ''/etc/s5.toml'' demo_config (MemoryStore_new, MemoryRegistry_new) = (Inr (node, [], []), w')
    \<and> BlobsServer_cfg_for (sn_blobs_server node) ''k'' = Some \<lparr>readable_stores = [''main''], store_uploads_in = None\<rparr>"
    by (auto simp: demo_config_def bt_vals_def Let_def)
qed

end
