(* ===== verification/Cli.thy ===== *)
theory Cli
  imports Node_Config Gc Importer_Local Importer_Http
begin

text \<open>
  The commands of the command line: \<^verbatim>\<open>s5_cli/src/helpers.rs\<close>, \<^verbatim>\<open>cmd/util.rs\<close>, \<^verbatim>\<open>cmd/blobs.rs\<close>, \<^verbatim>\<open>cmd/snapshots.rs\<close>, \<^verbatim>\<open>cmd/import.rs\<close> and the
  paths of \<^verbatim>\<open>cmd/mount.rs\<close>. A command is an action whose result is the lines it prints, or an error. The parsing of arguments is left out.
\<close>

section \<open>The environment of a command\<close>

datatype cli_line = Out string | Err string

text \<open>\<open>ce_order\<close> is the order in which a hash set is iterated.\<close>

record ('w, 'ep) cli_env =
  ce_sync :: "('w, 'ep) sync_env"
  ce_keys :: key_codec
  ce_bind :: "bytes32 option \<Rightarrow> ('w, 'ep) action"
  ce_read_file :: "string \<Rightarrow> 'w \<Rightarrow> error + bytes"
  ce_write_file :: "string \<Rightarrow> bytes \<Rightarrow> ('w, unit) action"
  ce_create_dir_all :: "string \<Rightarrow> ('w, unit) action"
  ce_stores :: "'w store_backends"
  ce_redb_open :: "string \<Rightarrow> ('w, 'w registry) action"
  ce_hash :: hashing
  ce_dirs :: dir_codec
  ce_pins :: pin_codec
  ce_hex :: "bytes \<Rightarrow> string"
  ce_order :: "hash set \<Rightarrow> hash list"
  ce_fs :: "'w fs_env"

section \<open>Helpers\<close>

definition build_endpoint :: "('w, 'ep) cli_env \<Rightarrow> node_config_identity \<Rightarrow> string option \<Rightarrow> ('w, 'ep) action" where
  "build_endpoint E identity config_dir w = ce_bind E (load_secret_key (ce_keys E) (ce_read_file E) identity config_dir w) w"

definition quoted :: "string \<Rightarrow> string" where
  "quoted s = [CHR 0x27] @ s @ [CHR 0x27]"

definition peer_endpoint_addr :: "('w, 'ep) cli_env \<Rightarrow> s5_node_config \<Rightarrow> string \<Rightarrow> error + bytes32" where
  "peer_endpoint_addr E config peer_name =
    (case bt_get (nc_peer config) peer_name of
       None \<Rightarrow> Inl (Anyhow (''peer '' @ quoted peer_name @ '' not found in node config''))
     | Some peer \<Rightarrow>
        (case ir_parse_id (se_net (ce_sync E)) (np_id peer) of
           Inl _ \<Rightarrow> Inl (Anyhow (''invalid endpoint id string '' @ quoted (np_id peer)))
         | Inr pid \<Rightarrow> Inr pid))"

definition parse_hash_hex :: "key_codec \<Rightarrow> string \<Rightarrow> error + hash" where
  "parse_hash_hex K s =
    (let s = trim s
     in if length s \<noteq> 64 then Inl (Anyhow (''expected 64-character hex hash, got '' @ show_nat (length s) @ '' characters''))
        else case kc_hex K s of
               None \<Rightarrow> Inl (Anyhow ''failed to decode hex hash'')
             | Some bs \<Rightarrow>
                if length bs \<noteq> 32 then Inl (Anyhow (''decoded hash has wrong length: '' @ show_nat (length bs) @ '' bytes''))
                else Inr (Hash_from_bytes (arr32 bs)))"

definition open_store :: "('w, 'ep) cli_env \<Rightarrow> s5_node_config \<Rightarrow> string \<Rightarrow> ('w, 'w blob_store) action" where
  "open_store E config name =
    (case bt_get (nc_store config) name of
       None \<Rightarrow> act_err (Anyhow (''store with name '' @ [CHR 0x22] @ name @ [CHR 0x22] @ '' not present in node config''))
     | Some store_cfg \<Rightarrow> create_store (ce_stores E) store_cfg)"

text \<open>The client for a peer of the configuration.\<close>

definition peer_client :: "('w, 'ep) cli_env \<Rightarrow> s5_node_config \<Rightarrow> string \<Rightarrow> string \<Rightarrow> ('w, 'w blobs_client) action" where
  "peer_client E config node_config_file peer =
    act_bind (build_endpoint E (nc_identity config) (parent_dir node_config_file)) (\<lambda>endpoint.
    act_bind (act_lift (peer_endpoint_addr E config peer)) (\<lambda>peer_addr.
    act_ok (ir_blobs (se_net (ce_sync E)) endpoint peer_addr)))"

text \<open>The content hashes reachable from the root of a file system: its files and the meta store beside them.\<close>

definition fs_reachable :: "('w, 'ep) cli_env \<Rightarrow> string \<Rightarrow> 'w \<Rightarrow> error + hash set" where
  "fs_reachable E root w =
    (let meta_blobs = BlobStore_new (bk_local (ce_stores E) \<lparr>lc_base_path = root\<rparr>);
         opt = (\<lambda>r. case r of Inl _ \<Rightarrow> None | Inr bs \<Rightarrow> Some bs)
     in collect_fs_reachable_hashes (ce_dirs E) (\<lambda>h. BlobStore_read_as_bytes (ce_hash E) meta_blobs h 0 None w)
          (opt (ce_read_file E (path_join root ''root.fs5.cbor'') w)) (opt (ce_read_file E (path_join root ''snapshots.fs5.cbor'') w)) None)"

section \<open>Blobs\<close>

datatype blobs_cmd =
    BlobsUpload string string
  | BlobsDownload string string string
  | BlobsDelete string string
  | BlobsGcLocal string bool
  | BlobsVerifyLocal string

fun find_missing :: "hashing \<Rightarrow> 'w blob_store \<Rightarrow> hash list \<Rightarrow> 'w \<Rightarrow> error + hash list" where
  "find_missing H blob_store [] w = Inr []"
| "find_missing H blob_store (h # hs) w =
    res_bind (BlobStore_contains H blob_store h w) (\<lambda>present.
    res_bind (find_missing H blob_store hs w) (\<lambda>missing. Inr (if present then missing else h # missing)))"

definition gc_lines :: "(hash \<Rightarrow> string) \<Rightarrow> (error \<Rightarrow> string) \<Rightarrow> string \<Rightarrow> bool \<Rightarrow> gc_report \<Rightarrow> cli_line list" where
  "gc_lines show_hash show_err store dry_run report =
    (if dry_run then
       Out (show_nat (length (gr_candidates report)) @ '' blobs would be deleted from local store '' @ quoted store)
       # map (\<lambda>h. Out (show_hash h)) (gr_candidates report)
     else
       map (\<lambda>(h, err). Err (''failed to delete '' @ show_hash h @ '': '' @ show_err err)) (gr_delete_errors report)
       @ [Out (''deleted '' @ show_nat (gr_deleted report) @ '' blobs from local store '' @ quoted store)])"

definition verify_lines :: "(hash \<Rightarrow> string) \<Rightarrow> string \<Rightarrow> hash set \<Rightarrow> hash list \<Rightarrow> cli_line list" where
  "verify_lines show_hash store reachable missing =
    (if missing = [] then [Out (''all '' @ show_nat (card reachable) @ '' referenced blobs are present in store '' @ quoted store)]
     else Err (show_nat (length missing) @ '' referenced blobs are MISSING in store '' @ quoted store) # map (\<lambda>h. Err (show_hash h)) missing)"

definition run_blobs ::
  "('w, 'ep) cli_env \<Rightarrow> (error \<Rightarrow> string) \<Rightarrow> blobs_cmd \<Rightarrow> s5_node_config \<Rightarrow> string \<Rightarrow> string \<Rightarrow> ('w, cli_line list) action" where
  "run_blobs E show_err cmd config node_config_file root =
    (let show_hash = Hash_to_hex (ce_hex E)
     in case cmd of
       BlobsUpload peer path \<Rightarrow>
         act_bind (peer_client E config node_config_file peer) (\<lambda>client.
         act_bind (act_context ''failed to upload blob'' (\<lambda>w. blob_upload_file client (ce_read_file E path w) w)) (\<lambda>blob.
         act_ok [Out (''uploaded blob: hash='' @ show_hash (bid_hash blob) @ '' size='' @ show_nat (unat (bid_size blob)))]))
     | BlobsDownload peer hash out \<Rightarrow>
         act_bind (peer_client E config node_config_file peer) (\<lambda>client.
         act_bind (act_lift (parse_hash_hex (ce_keys E) hash)) (\<lambda>hash.
         act_bind (act_context ''failed to download blob'' (act_read (Blobs_Client.blob_download client hash))) (\<lambda>bs.
         act_bind (act_context (''failed to write to '' @ out) (ce_write_file E out bs)) (\<lambda>_.
         act_ok [Out (''downloaded '' @ show_nat (length bs) @ '' bytes to '' @ out)]))))
     | BlobsDelete peer hash \<Rightarrow>
         act_bind (peer_client E config node_config_file peer) (\<lambda>client.
         act_bind (act_lift (parse_hash_hex (ce_keys E) hash)) (\<lambda>hash w.
         case cl_delete client hash w of
           (Inl e, w) \<Rightarrow> (Inl (Anyhow e), w)
         | (Inr (Inr True), w) \<Rightarrow> (Inr [Out ''deleted blob: it became orphaned and was removed from storage''], w)
         | (Inr (Inr False), w) \<Rightarrow> (Inr [Out ''un-pinned blob for this node; other pins still reference it''], w)
         | (Inr (Inl msg), w) \<Rightarrow> (Inl (Anyhow (''remote error while deleting blob: '' @ msg)), w)))
     | BlobsGcLocal store dry_run \<Rightarrow>
         let path = registry_path node_config_file config
         in act_bind (ce_create_dir_all E path) (\<lambda>_.
            act_bind (ce_redb_open E path) (\<lambda>registry.
            let pinner = RegistryPinner (ce_pins E) registry
            in act_bind (open_store E config store) (\<lambda>blob_store.
               act_bind (act_read (fs_reachable E root)) (\<lambda>reachable.
               act_bind (gc_store (ce_hash E) blob_store reachable pinner dry_run) (\<lambda>report.
               act_ok (gc_lines show_hash show_err store dry_run report))))))
     | BlobsVerifyLocal store \<Rightarrow>
         act_bind (open_store E config store) (\<lambda>blob_store.
         act_bind (act_read (fs_reachable E root)) (\<lambda>reachable.
         act_bind (act_read (find_missing (ce_hash E) blob_store (ce_order E reachable))) (\<lambda>missing.
         act_ok (verify_lines show_hash store reachable missing)))))"

section \<open>Snapshots\<close>

datatype snapshots_cmd =
    SnapshotsHead string
  | SnapshotsDownload string string string
  | SnapshotsRestore string string string
  | SnapshotsListFs
  | SnapshotsCreateFs
  | SnapshotsDeleteFs string

definition run_snapshots ::
  "('w, 'ep) cli_env \<Rightarrow> snapshots_cmd \<Rightarrow> s5_node_config \<Rightarrow> string \<Rightarrow> 'w fs5 \<Rightarrow> string \<Rightarrow> ('w, cli_line list) action" where
  "run_snapshots E cmd config node_config_file fs root =
    (let show_hash = Hash_to_hex (ce_hex E); V = ce_sync E
     in case cmd of
       SnapshotsHead sync \<Rightarrow>
         (case bt_get (nc_sync config) sync of
            None \<Rightarrow> act_err (Anyhow (''sync.'' @ sync @ '' not found in node config''))
          | Some sync_cfg \<Rightarrow>
             (case sy_via_untrusted sync_cfg of
                [] \<Rightarrow> act_err (Anyhow (''sync.'' @ sync @ '' has empty via_untrusted list''))
              | first # _ \<Rightarrow>
                  if bt_get (nc_peer config) first = None then act_err (Anyhow (''via_untrusted peer '' @ quoted first @ '' not found''))
                  else
                    act_bind (build_endpoint E (nc_identity config) (parent_dir node_config_file)) (\<lambda>endpoint.
                    act_bind (act_lift (peer_endpoint_addr E config first)) (\<lambda>peer_addr.
                    let keys = node_derive_sync_keys (se_crypto V) (map of_char (sy_shared_secret sync_cfg));
                        registry = RemoteRegistry (ir_registry (se_net V) endpoint peer_addr)
                    in act_bind (act_read (rg_get registry (SyncKeys_stream_key keys))) (\<lambda>found.
                       act_ok [Out (case found of
                           Some msg \<Rightarrow> ''sync.'' @ sync @ '' head: hash='' @ show_hash (sm_hash msg) @ '' revision='' @ show_nat (unat (sm_revision msg))
                         | None \<Rightarrow> ''sync.'' @ sync @ '' has no remote snapshot yet'')])))))
     | SnapshotsDownload peer hash out \<Rightarrow>
         act_bind (peer_client E config node_config_file peer) (\<lambda>client.
         act_bind (act_lift (parse_hash_hex (ce_keys E) hash)) (\<lambda>hash.
         act_bind (act_context ''failed to download snapshot blob'' (act_read (Blobs_Client.blob_download client hash))) (\<lambda>bs.
         act_bind (act_context (''failed to write to '' @ out) (ce_write_file E out bs)) (\<lambda>_.
         act_ok [Out (''downloaded snapshot '' @ show_nat (length bs) @ '' bytes to '' @ out)]))))
     | SnapshotsRestore restore_root peer hash \<Rightarrow>
         act_bind (peer_client E config node_config_file peer) (\<lambda>client.
         act_bind (act_lift (parse_hash_hex (ce_keys E) hash)) (\<lambda>hash.
         act_bind (act_context ''failed to download snapshot blob'' (act_read (Blobs_Client.blob_download client hash))) (\<lambda>bs.
         act_bind (act_context ''failed to decode directory snapshot'' (act_lift (DirV1_from_bytes (ce_dirs E) bs))) (\<lambda>snapshot.
         act_bind (ce_create_dir_all E restore_root) (\<lambda>_.
         act_bind (open_plaintext_fs V restore_root) (\<lambda>fs_local.
         act_bind (act_context ''failed to merge snapshot into local FS5 root'' (FS5_merge_from_snapshot fs_local snapshot)) (\<lambda>_.
         act_bind (act_context ''failed to save restored FS5 root'' (FS5_save fs_local)) (\<lambda>_.
         act_ok [Out (''restored snapshot into FS5 root at '' @ restore_root)]))))))))
     | SnapshotsListFs \<Rightarrow>
         act_bind (act_read (list_snapshots (ce_fs E) root)) (\<lambda>snapshots.
         act_bind (FS5_shutdown fs) (\<lambda>_.
         act_ok (if snapshots = [] then [Out ''no snapshots''] else map (\<lambda>(name, hash). Out (name @ [CHR 9] @ show_hash hash)) snapshots)))
     | SnapshotsCreateFs \<Rightarrow>
         act_bind (FS5_create_snapshot fs) (\<lambda>(name, hash).
         act_bind (FS5_save fs) (\<lambda>_.
         act_bind (FS5_shutdown fs) (\<lambda>_.
         act_ok [Out (''created snapshot'' @ [CHR 9] @ name @ [CHR 9] @ show_hash hash)])))
     | SnapshotsDeleteFs name \<Rightarrow>
         act_bind (FS5_delete_snapshot fs name) (\<lambda>_.
         act_bind (FS5_save fs) (\<lambda>_.
         act_bind (FS5_shutdown fs) (\<lambda>_.
         act_ok [Out (''deleted snapshot'' @ [CHR 9] @ name)]))))"

section \<open>Imports\<close>

text \<open>What the importers need: the actors behind handles, the host's files, the web, and the environment variable that forces an import.\<close>

record ('w, 'u) import_env =
  ie_handles :: "actor_id \<Rightarrow> 'w dir_handle"
  ie_host :: host
  ie_uuid :: "walk_entry \<Rightarrow> string"
  ie_web :: "('w, 'u) web_libs"
  ie_client :: "('w, 'u) http_client"
  ie_parse_url :: "string \<Rightarrow> error + 'u"
  ie_url_uuid :: "'u \<Rightarrow> string"
  ie_import_always :: "string option"

record local_import_args =
  la_path :: string
  la_concurrency :: nat
  la_prefix :: "string option"
  la_no_ignore :: bool
  la_no_ignore_vcs :: bool
  la_no_ignore_cachedir :: bool
  la_ignore :: bool
  la_ignore_vcs :: bool
  la_ignore_cachedir :: bool
  la_always_import :: bool

datatype import_cmd =
    ImportHttp string nat "string option"
  | ImportLocal local_import_args

definition ignore_flags :: "local_import_args \<Rightarrow> bool \<times> bool \<times> bool" where
  "ignore_flags args =
    (let use_ignore = True; use_ignore_vcs = True; use_check_cachedir_tag = True;
         (use_ignore, use_ignore_vcs, use_check_cachedir_tag) =
           (if la_no_ignore args then (False, False, False) else (use_ignore, use_ignore_vcs, use_check_cachedir_tag));
         use_ignore_vcs = (if la_no_ignore_vcs args then False else use_ignore_vcs);
         use_check_cachedir_tag = (if la_no_ignore_cachedir args then False else use_check_cachedir_tag);
         (use_ignore, use_ignore_vcs, use_check_cachedir_tag) =
           (if la_ignore args then (True, True, True) else (use_ignore, use_ignore_vcs, use_check_cachedir_tag));
         use_ignore_vcs = (if la_ignore_vcs args then True else use_ignore_vcs);
         use_check_cachedir_tag = (if la_ignore_cachedir args then True else use_check_cachedir_tag)
     in (use_ignore, use_ignore_vcs, use_check_cachedir_tag))"

definition scoped_fs :: "('w, 'u) import_env \<Rightarrow> 'w fs5 \<Rightarrow> string option \<Rightarrow> ('w, 'w fs5) action" where
  "scoped_fs I fs key_prefix = (case key_prefix of Some p \<Rightarrow> FS5_subdir (ie_handles I) fs p | None \<Rightarrow> act_ok fs)"

definition import_local :: "hashing \<Rightarrow> ('w, 'u) import_env \<Rightarrow> 'w fs5 \<Rightarrow> 'w blob_store \<Rightarrow> local_import_args \<Rightarrow> ('w, unit) action" where
  "import_local H I fs target_store args =
    (case ignore_flags args of (use_ignore, use_ignore_vcs, use_check_cachedir_tag) \<Rightarrow>
     act_bind (scoped_fs I fs (la_prefix args)) (\<lambda>scoped.
     act_bind (act_lift (Importer_create scoped target_store (la_concurrency args) (la_prefix args \<noteq> None) use_ignore use_ignore_vcs use_check_cachedir_tag)) (\<lambda>importer.
     let importer = (if la_always_import args \<or> ie_import_always I = Some ''1'' then set_always_import True importer else importer)
     in import_path H (ie_host I) importer (ie_uuid I) (la_path args))))"

text \<open>A crawl that does not return has no result.\<close>

definition import_http ::
  "hashing \<Rightarrow> ('w, 'u) import_env \<Rightarrow> 'w fs5 \<Rightarrow> 'w blob_store \<Rightarrow> string \<Rightarrow> nat \<Rightarrow> string option \<Rightarrow> 'w \<Rightarrow> ((error + unit) \<times> 'w) option" where
  "import_http H I fs target_store url concurrency key_prefix w =
    (case act_bind (act_lift (ie_parse_url I url)) (\<lambda>url_parsed.
          act_bind (scoped_fs I fs key_prefix) (\<lambda>scoped.
          act_bind (act_lift (HttpImporter_create (ie_client I) scoped target_store concurrency url_parsed (key_prefix \<noteq> None))) (\<lambda>importer.
          act_ok (importer, url_parsed)))) w of
       (Inl e, w) \<Rightarrow> Some (Inl e, w)
     | (Inr (importer, url_parsed), w) \<Rightarrow> import_url H (ie_web I) importer (ie_url_uuid I) url_parsed w)"

definition run_import ::
  "('w, 'ep) cli_env \<Rightarrow> ('w, 'u) import_env \<Rightarrow> import_cmd \<Rightarrow> string \<Rightarrow> s5_node_config \<Rightarrow> 'w fs5 \<Rightarrow> 'w \<Rightarrow> ((error + unit) \<times> 'w) option" where
  "run_import E I cmd target_store_name config fs w =
    (case open_store E config target_store_name w of
       (Inl e, w) \<Rightarrow> Some (Inl e, w)
     | (Inr target_store, w) \<Rightarrow>
        Option.bind (case cmd of
            ImportHttp url concurrency key_prefix \<Rightarrow> import_http (ce_hash E) I fs target_store url concurrency key_prefix w
          | ImportLocal args \<Rightarrow> Some (import_local (ce_hash E) I fs target_store args w)) (\<lambda>(r, w).
        case r of
          Inl e \<Rightarrow> Some (Inl e, w)
        | Inr _ \<Rightarrow> Some (act_bind (FS5_save fs) (\<lambda>_. FS5_shutdown fs) w)))"

section \<open>Mounts\<close>

definition mount_root :: "string \<Rightarrow> string \<Rightarrow> string option \<Rightarrow> string" where
  "mount_root data_dir cli_node root =
    (case root of Some r \<Rightarrow> r | None \<Rightarrow> path_join (path_join data_dir ''roots'') (cli_node @ ''.fs5''))"

definition mount_store_path :: "s5_node_config \<Rightarrow> string \<Rightarrow> string" where
  "mount_store_path config root =
    (case bt_get (nc_store config) ''default'' of Some (StoreLocal cfg) \<Rightarrow> lc_base_path cfg | _ \<Rightarrow> root)"

section \<open>Facts\<close>

lemma ignore_flags_value:
  "ignore_flags args =
    (la_ignore args \<or> \<not> la_no_ignore args,
     la_ignore args \<or> la_ignore_vcs args \<or> \<not> la_no_ignore args \<and> \<not> la_no_ignore_vcs args,
     la_ignore args \<or> la_ignore_cachedir args \<or> \<not> la_no_ignore args \<and> \<not> la_no_ignore_cachedir args)"
  by (auto simp: ignore_flags_def Let_def)

text \<open>The hash a command prints is accepted as an argument: hexadecimal text reads back, has two characters for each byte and no white
  space.\<close>

lemma printed_hash_parses:
  assumes "kc_hex K (hex (Hash_as_bytes h)) = Some (Hash_as_bytes h)" "trim (hex (Hash_as_bytes h)) = hex (Hash_as_bytes h)"
    and "length (hex (Hash_as_bytes h)) = 64"
  shows "parse_hash_hex K (Hash_to_hex hex h) = Inr h"
  using assms by (simp add: parse_hash_hex_def Hash_to_hex_def Hash_as_bytes_def Hash_from_bytes_def Let_def)

text \<open>The collector opens the database of the node's registry path whatever registry is configured: the pins of a node whose registry is
  on store objects, in memory or on a peer are not looked at.\<close>

lemma gc_ignores_configured_registry:
  "run_blobs E se (BlobsGcLocal store dry_run) (config\<lparr>nc_registry := r\<rparr>) cfg_file root = run_blobs E se (BlobsGcLocal store dry_run) config cfg_file root"
  by (simp add: run_blobs_def registry_path_def open_store_def)

lemma gc_loop_keeps:
  assumes "blobs_keep f blobs"
  shows "act_keeps f (gc_loop H blobs R P dry hs rep)"
proof (induction hs arbitrary: rep)
  case (Cons h hs)
  have "act_keeps f (\<lambda>w. case BlobStore_delete H blobs h w of (Inr _, w') \<Rightarrow> gc_loop H blobs R P dry hs a w' | (Inl e, w') \<Rightarrow> gc_loop H blobs R P dry hs (b e) w')" for a b
    using Cons act_keepsD[OF BlobStore_delete_keeps[OF assms, of H h]] by (auto simp: act_keeps_def split: prod.splits sum.splits)
  then show ?case unfolding gc_loop.simps Let_def by (intro keeps Cons)
qed simp

lemma gc_store_keeps: "blobs_keep f blobs \<Longrightarrow> act_keeps f (gc_store H blobs R P dry)"
  unfolding gc_store_def by (intro keeps gc_loop_keeps)

lemma find_missing_reliable:
  assumes "reliable_store ops contents sinv good" "\<And>h. good (blob_path_for_hash (h_codec H) h (st_features ops))" "sinv w"
  shows "find_missing H \<lparr>bs_store = ops, bs_outboard_store = ob\<rparr> hs w = Inr [h \<leftarrow> hs. blob_at H ops contents w h = None]"
  using reliable_store.exists_total[OF assms(1,3,2)]
  by (induction hs) (simp_all add: BlobStore_contains_def contains_def blob_at_def res_bind_def)

lemma gc_store_effect:
  assumes nw: "node_world ops contents sinv good P pinned pinv room"
    and good: "\<And>h. good (blob_path_for_hash (h_codec H) h (st_features ops))" "\<And>h. good (obao6_path_for_hash (h_codec H) h (st_features ops))"
    and pc: "path_codec_ok (h_codec H)" and ob: "ob = None \<or> ob = Some ops" and w: "sinv w" "pinv w"
    and step: "gc_store H \<lparr>bs_store = ops, bs_outboard_store = ob\<rparr> R P dry w = (r, w')"
  shows "sinv w' \<and> pinned w' = pinned w \<and> (dry \<longrightarrow> w' = w)
    \<and> (\<forall>h. pinned w h \<noteq> {} \<or> h \<in> R \<longrightarrow> blob_at H ops contents w' h = blob_at H ops contents w h)"
proof (cases "BlobStore_list_hashes H \<lparr>bs_store = ops, bs_outboard_store = ob\<rparr> w")
  case (Inl e)
  with step w show ?thesis by (simp add: gc_store_def act_bind_def)
next
  case (Inr hs)
  with step have "gc_loop H \<lparr>bs_store = ops, bs_outboard_store = ob\<rparr> R P dry hs GcReport_default w = (r, w')"
    by (simp add: gc_store_def act_bind_def)
  from conjunct1[OF node_world.gc_loop_outcome[OF nw good pc ob w this]]
  show ?thesis unfolding node_world.gc_effect_def[OF nw] garbage_def by metis
qed

section \<open>Properties\<close>

text \<open>C21. What collecting garbage from the command line keeps. Pinned means pinned in the redb database of the registry path, which the command
  opens whatever registry the node is configured with, so that the run is the same for every configured registry and does not see the pins of a node whose
  registry is elsewhere; reachable means found by the collector from the root file and its snapshots, which is nothing when the root file cannot be read. The
  store and the database of the configuration can be opened, and the files of the root are not in the store. Whatever \<^verbatim>\<open>blobs gc-local\<close> returns,
  no pin has changed, every blob that is pinned or reachable in this sense is still there, a dry run has changed nothing, and
  \<^verbatim>\<open>blobs verify-local\<close> prints exactly what it printed before. And the verification is exact: it reports that all blobs are present if and only
  if every hash the collector finds is in the store.\<close>

theorem gc_keeps_what_verify_checks:
  assumes "\<forall>v. open_store E config store v = (Inr (BlobStore_new ops), v)"
    and "\<forall>v. ce_create_dir_all E (registry_path cfg_file config) v = (Inr (), v)"
    and "\<forall>v. ce_redb_open E (registry_path cfg_file config) v = (Inr registry, v)"
    and "node_world ops contents sinv good (RegistryPinner (ce_pins E) registry) pinned pinv room" "reliable_store ops contents sinv good"
    and "\<forall>h. good (blob_path_for_hash (h_codec (ce_hash E)) h (st_features ops)) \<and> good (obao6_path_for_hash (h_codec (ce_hash E)) h (st_features ops))"
    and "path_codec_ok (h_codec (ce_hash E))" "sinv w" "pinv w"
    and "store_keeps (fs_reachable E root) ops" "fs_reachable E root w = Inr R" "set (ce_order E R) = R"
    and "run_blobs E se (BlobsGcLocal store dry_run) config cfg_file root w = (r, w')"
  shows "pinned w' = pinned w \<and> (dry_run \<longrightarrow> w' = w)
    \<and> (\<forall>configured. run_blobs E se (BlobsGcLocal store dry_run) (config\<lparr>nc_registry := configured\<rparr>) cfg_file root w = (r, w'))
    \<and> (\<forall>h. pinned w h \<noteq> {} \<or> h \<in> R \<longrightarrow> blob_at (ce_hash E) ops contents w' h = blob_at (ce_hash E) ops contents w h)
    \<and> fst (run_blobs E se (BlobsVerifyLocal store) config cfg_file root w') = fst (run_blobs E se (BlobsVerifyLocal store) config cfg_file root w)
    \<and> (fst (run_blobs E se (BlobsVerifyLocal store) config cfg_file root w) = Inr (verify_lines (Hash_to_hex (ce_hex E)) store R []) \<longleftrightarrow>
        (\<forall>h \<in> R. blob_at (ce_hash E) ops contents w h \<noteq> None))"
proof -
  let ?H = "ce_hash E" and ?B = "BlobStore_new ops" and ?P = "RegistryPinner (ce_pins E) registry"
  let ?missing = "\<lambda>v. [h \<leftarrow> ce_order E R. blob_at ?H ops contents v h = None]"
  have B: "?B = \<lparr>bs_store = ops, bs_outboard_store = Some ops\<rparr>" by (simp add: BlobStore_new_def)
  obtain r' where gc: "gc_store ?H ?B R ?P dry_run w = (r', w')"
    using assms(13) by (auto simp: run_blobs_def assms(1-3,11) act_bind_def Let_def act_read_def act_ok_def split: sum.splits prod.splits)
  have "fs_reachable E root w' = fs_reachable E root w"
    using act_keepsD[OF gc_store_keeps gc, of "fs_reachable E root"] assms(10) by (simp add: blobs_keep_def B)
  then have R': "fs_reachable E root w' = Inr R" using assms(11) by simp
  have eff: "sinv w' \<and> pinned w' = pinned w \<and> (dry_run \<longrightarrow> w' = w)
    \<and> (\<forall>h. pinned w h \<noteq> {} \<or> h \<in> R \<longrightarrow> blob_at ?H ops contents w' h = blob_at ?H ops contents w h)"
    by (rule gc_store_effect[OF assms(4) _ _ assms(7) _ assms(8,9) gc[unfolded B]]) (simp_all add: assms(6))
  have verify: "fst (run_blobs E se (BlobsVerifyLocal store) config cfg_file root v) = Inr (verify_lines (Hash_to_hex (ce_hex E)) store R (?missing v))"
    if "sinv v" "fs_reachable E root v = Inr R" for v
    using find_missing_reliable[OF assms(5), of ?H v "Some ops" "ce_order E R"] assms(6) that
    by (simp add: run_blobs_def assms(1) act_bind_def Let_def act_read_def act_ok_def B)
  have "?missing w' = ?missing w" using eff assms(12) by (intro filter_cong) auto
  moreover have "verify_lines sh store R ms = verify_lines sh store R [] \<longleftrightarrow> ms = []" for sh ms by (simp add: verify_lines_def)
  ultimately show ?thesis using eff verify[OF _ R'] verify[OF assms(8,11)] assms(12,13)
    by (auto simp: filter_empty_conv gc_ignores_configured_registry)
qed

text \<open>A pinner on the registry beside a store is the pinner of that registry.\<close>

lemma pinner_on_snd: "RegistryPinner C (registry_on_snd R) = pins_on_snd (RegistryPinner C R)"
proof -
  have get: "get_internal C (registry_on_snd R) k w = get_internal C R k (snd w)" for k w
    by (simp add: get_internal_def registry_on_snd_def)
  have save: "save_internal C (registry_on_snd R) k ps n = on_snd (save_internal C R k ps n)" for k ps n
    by (auto simp: save_internal_def registry_on_snd_def Let_def fun_eq_iff on_snd_def act_err_def split: sum.splits)
  show ?thesis
    by (auto simp: RegistryPinner_def pins_on_snd_def fun_eq_iff pin_hash_def unpin_hash_def unpin_hash_all_def get_pinners_def is_pinned_def
        get save Let_def act_bind_def act_read_def on_snd_def act_ok_def split: sum.splits prod.splits)
qed

definition demo_root :: dir_v1 where
  "demo_root = DirV1_new\<lparr>dv_files := bt_insert ''a'' (FileRef_new (fill32 1) 1) bt_empty\<rparr>"

definition demo_cli :: "(node_state, unit) sync_env \<Rightarrow> node_state fs_env \<Rightarrow> (node_state, unit) cli_env" where
  "demo_cli V F =
    \<lparr>ce_sync = V, ce_keys = \<lparr>kc_hex = \<lambda>_. None, kc_base64url = \<lambda>_. None\<rparr>, ce_bind = \<lambda>_. act_ok (),
     ce_read_file = \<lambda>p w. if p = ''/fs/root.fs5.cbor'' then Inr (DirV1_to_bytes demo_dir_codec demo_root) else Inl (Io NotFound p),
     ce_write_file = \<lambda>_ _. act_ok (), ce_create_dir_all = \<lambda>_. act_ok (), ce_stores = demo_stores, ce_redb_open = \<lambda>_. act_ok (registry_on_snd MemoryRegistry),
     ce_hash = demo_hashing, ce_dirs = demo_dir_codec, ce_pins = demo_pin_codec, ce_hex = \<lambda>_. [], ce_order = sorted_list_of_set, ce_fs = F\<rparr>"

lemma demo_cli_reachable: "fs_reachable (demo_cli V F) ''/fs'' v = Inr {fill32 1}"
  by (simp add: fs_reachable_def demo_cli_def path_join_def starts_with_def Let_def collect_fs_reachable_hashes_def decrypt_dir_bytes_def
      child_refs_def demo_root_def DirV1_new_def DirHeader_new_def collect_hashes_from_dir_set dir_hashes_def live_versions_def
      FileRef_is_tombstone_def FileRef_ref_type_def FileRef_new_def bt_vals_def)

theorem gc_keeps_what_verify_checks_witness:
  "\<forall>V F. \<exists>r w'. run_blobs (demo_cli V F) (\<lambda>_. []) (BlobsGcLocal ''main'' False) demo_config ''/etc/s5.toml'' ''/fs'' demo_gc_world = (r, w')
    \<and> node_blob demo_hashing w' (fill32 1) = Some [1]
    \<and> fst (run_blobs (demo_cli V F) (\<lambda>_. []) (BlobsVerifyLocal ''main'') demo_config ''/etc/s5.toml'' ''/fs'' w') =
        Inr [Out (''all 1 referenced blobs are present in store '' @ quoted ''main'')]"
proof (intro allI)
  fix V F
  let ?E = "demo_cli V F"
  obtain r w' where run: "run_blobs ?E (\<lambda>_. []) (BlobsGcLocal ''main'' False) demo_config ''/etc/s5.toml'' ''/fs'' demo_gc_world = (r, w')"
    by (metis prod.exhaust)
  have E: "ce_hash ?E = demo_hashing" "ce_pins ?E = demo_pin_codec" "ce_order ?E = sorted_list_of_set" by (simp_all add: demo_cli_def)
  have opened: "\<forall>v. open_store ?E demo_config ''main'' v = (Inr (BlobStore_new (store_on_fst MemoryStore)), v)"
    by (simp add: open_store_def demo_cli_def demo_config_def create_store_def demo_stores_def act_bind_def act_ok_def)
  have redb: "\<forall>v. ce_create_dir_all ?E (registry_path ''/etc/s5.toml'' demo_config) v = (Inr (), v)"
    "\<forall>v. ce_redb_open ?E (registry_path ''/etc/s5.toml'' demo_config) v = (Inr (registry_on_snd MemoryRegistry), v)"
    by (simp_all add: demo_cli_def act_ok_def)
  have blob: "node_blob demo_hashing demo_gc_world (fill32 1) = Some [1]"
    by (simp add: blob_at_def demo_gc_world_def store_on_fst_def MemoryStore_def demo_hashing_def)
  have pins: "pin_codec_ok demo_pin_codec \<and> True \<and> pins_ok demo_pin_codec (bt_get (snd demo_gc_world))"
    by (simp add: pins_ok_def demo_gc_world_def MemoryRegistry_new_def demo_pin_codec_ok)
  note all = gc_keeps_what_verify_checks[OF opened redb, unfolded E pinner_on_snd, OF memory_node.node_world_axioms memory_on_fst.reliable_store_axioms
      _ demo_hashing_ok(1) TrueI pins _ demo_cli_reachable _ run]
  have keep: "store_keeps (fs_reachable ?E ''/fs'') (store_on_fst MemoryStore :: node_state store)"
    by (simp add: store_keeps_def act_keeps_def demo_cli_reachable)
  have after: "node_blob demo_hashing w' (fill32 1) = Some [1]"
    "fst (run_blobs ?E (\<lambda>_. []) (BlobsVerifyLocal ''main'') demo_config ''/etc/s5.toml'' ''/fs'' w') =
      Inr (verify_lines (Hash_to_hex (ce_hex ?E)) ''main'' {fill32 1} [])"
    using all[OF _ keep] blob by simp_all
  have lines: "verify_lines sh ''main'' {fill32 1} [] = [Out (''all 1 referenced blobs are present in store '' @ quoted ''main'')]" for sh
  proof -
    have "show_nat (Suc 0) = ''1''" by code_simp
    then show ?thesis by (simp add: verify_lines_def)
  qed
  show "\<exists>r w'. run_blobs ?E (\<lambda>_. []) (BlobsGcLocal ''main'' False) demo_config ''/etc/s5.toml'' ''/fs'' demo_gc_world = (r, w')
    \<and> node_blob demo_hashing w' (fill32 1) = Some [1]
    \<and> fst (run_blobs ?E (\<lambda>_. []) (BlobsVerifyLocal ''main'') demo_config ''/etc/s5.toml'' ''/fs'' w') =
        Inr [Out (''all 1 referenced blobs are present in store '' @ quoted ''main'')]"
    using run after lines by auto
qed

end
