(* ===== verification/Spec2Isabelle.thy ===== *)
theory Spec2Isabelle
  imports Gc Promotion Client_Roundtrip Fuse_Roundtrip Local_Store Importer_Local Importer_Http Node_Config Cli
begin

text \<open>
  A verification library for S5, a content-addressed storage network written in Rust.

  \<^bold>\<open>The program.\<close> A node keeps \<^emph>\<open>blobs\<close>, byte strings named by their BLAKE3 hash, in \<^emph>\<open>stores\<close> (flat key-value
  back ends); a \<^emph>\<open>registry\<close> of mutable entries, each a message with a revision under a key; \<^emph>\<open>pins\<close>, which record who
  needs a blob; and an encrypted \<^emph>\<open>file system\<close> whose directories are snapshots stored as blobs and served by actors,
  one per open directory, that exchange messages. A \<^emph>\<open>garbage collector\<close> deletes blobs that nothing needs. Nodes
  exchange blobs and registry entries over an RPC protocol. Clients for browsers and for Flutter keep an end-to-end
  encrypted file system on a remote node, a FUSE mount shows a file system to the kernel, and importers copy a local
  tree or the pages of a web server into a file system. The node program puts these together from its configuration, and
  synchronises local directories through a node that is not trusted. The crates are \<^verbatim>\<open>s5_core\<close>, \<^verbatim>\<open>blob_stores\<close>, \<^verbatim>\<open>registries\<close>,
  \<^verbatim>\<open>s5_registry\<close>, \<^verbatim>\<open>s5_fs\<close>, \<^verbatim>\<open>s5_blobs\<close>, \<^verbatim>\<open>s5_fuse\<close>, \<^verbatim>\<open>importers\<close>, \<^verbatim>\<open>s5_node\<close>, \<^verbatim>\<open>s5_cli\<close> and \<^verbatim>\<open>bindings\<close>, all under \<^verbatim>\<open>src/\<close>.

  \<^bold>\<open>How the code is modelled.\<close> A Rust struct is a record, an enum a datatype, \<^verbatim>\<open>u64\<close> a 64-bit word that wraps,
  a byte array of length 32 a type of its own, \<^verbatim>\<open>BTreeMap\<close> the type \<open>btree\<close> of sorted association lists
  (\<open>Prelude\<close>). A trait object (\<^verbatim>\<open>Arc<dyn Store>\<close>, \<^verbatim>\<open>RegistryApi\<close>, \<^verbatim>\<open>Pins\<close>) is a table of operations over the
  type \<open>'w\<close> of the world; a fallible operation that changes the world is an \<open>action\<close>, a function from the world to
  a result (\<open>Inl\<close> an error) and a new world. An \<^verbatim>\<open>await\<close> is a call. Third-party code is a parameter with named
  hypotheses: hashing and the bao tree (\<open>hashing\<close>; \<open>bao_ok\<close>, \<open>bao_total\<close>), base64 and base32 (\<open>path_codec_ok\<close>), CBOR
  and the ciphers (\<open>dir_codec_ok\<close>, \<open>pin_codec_ok\<close>), multibase (\<open>multibase_ok\<close>), the XXH3 name hash, clocks, random
  names and nonces, the string interner of the mount (locale \<open>interning\<close>), and the iroh and irpc transports
  (\<open>iroh_net\<close>, \<open>blobs_client\<close>, \<open>registry\<close> links). The operating system's files under the local store are a map from
  path components to directories and contents.

  \<^bold>\<open>The theories and the source.\<close>
  \<^item> \<open>Blob_Id\<close>, \<open>Location\<close>: \<^verbatim>\<open>s5_core/src/hash.rs\<close>, \<^verbatim>\<open>blob/identifier.rs\<close>, \<^verbatim>\<open>blob/location.rs\<close>. Which strings
    parse as identifiers, print and parse, and that debug output does not depend on secret keys.
  \<^item> \<open>Stream\<close>: \<^verbatim>\<open>s5_core/src/stream/types\<close>. Messages, their wire format (a bijection with the accepted byte strings)
    and the conflict order (total, higher revision first, then the smaller hash).
  \<^item> \<open>Store\<close>, \<open>Paths\<close>, \<open>Tee_Stream\<close>, \<open>Blob_Store\<close>: \<^verbatim>\<open>s5_core/src/store.rs\<close>, \<^verbatim>\<open>blob_stores/memory\<close>,
    \<^verbatim>\<open>s5_core/src/blob\<close>, \<^verbatim>\<open>bao/outboard.rs\<close>. The locales \<open>store_contract\<close> and \<open>reliable_store\<close> are what a back end
    promises; the memory store keeps them. Over any back end with the contract every blob stays under its own hash,
    and on a reliable one imports succeed and read back. \<open>TeeStream\<close>'s polling loop is a partial function, with a
    proof that it ends over the hasher.
  \<^item> \<open>Registry\<close>: \<^verbatim>\<open>s5_core/src/stream/mod.rs\<close>, \<^verbatim>\<open>s5_registry/src/lib.rs\<close>, \<^verbatim>\<open>registries/redb\<close>, \<^verbatim>\<open>registries/store\<close>. The
    locale \<open>registry_contract\<close>; convergence of replicas, the write policies of \<^verbatim>\<open>MultiRegistry\<close>, and that servers on
    redb, on store objects and in memory answer alike.
  \<^item> \<open>Pins\<close>, \<open>Node_World\<close>: \<^verbatim>\<open>s5_core/src/pins\<close>. The registry-backed pinner implements sets of contexts; blobs and
    pins side by side do not disturb each other (locale \<open>node_world\<close>).
  \<^item> \<open>Dir\<close>, \<open>Dir_Codec\<close>: \<^verbatim>\<open>s5_fs/src/dir.rs\<close>. Directory snapshots and file versions; \<open>Dir_Codec\<close> has a codec that
    satisfies the hypotheses, for the closed examples.
  \<^item> \<open>Gc\<close>: \<^verbatim>\<open>s5_fs/src/gc.rs\<close>. From a root file that can be read the collector finds exactly the reachable hashes; a run never deletes a
    blob that is pinned or reachable, and over a store that lists what it holds (locale \<open>listing_store\<close>) a run without errors deletes all others.
  \<^item> \<open>Dir_Actor\<close>, \<open>Merge\<close>, \<open>Listing\<close>, \<open>Persistence\<close>, \<open>Sharding\<close>, \<open>Snapshots\<close>, \<open>Actor_Loop\<close>: \<^verbatim>\<open>s5_fs/src/context.rs\<close>,
    \<^verbatim>\<open>actor.rs\<close>, \<^verbatim>\<open>actor/*.rs\<close>, \<^verbatim>\<open>snapshots.rs\<close>. A handler of an actor is an action over its own state
    \<open>dir_actor\<close> and the world outside, whose operations are the table \<open>fs_env\<close>. Merging is last-write-wins and
    converges where names and times do not clash, pages of a listing are complete, a saved directory loads as it was, splitting into
    shards loses no entry, and shards that answer with their buckets are merged to the flat directory. The locales \<open>fs_world\<close> and
    \<open>actor_world\<close> say what a handler needs of the environment; they are interpreted on a node in memory.
  \<^item> \<open>Actor_Safety\<close>, \<open>Fs_Api\<close>: runs of the message loop and \<^verbatim>\<open>s5_fs/src/api.rs\<close>. No actor beyond the last
    shard level is spawned and levels stay in range, a set dirty flag has a timer running unless a split failed in its tick, and the file
    operations of the API behave as a map of files.
  \<^item> \<open>Promotion\<close>: \<^verbatim>\<open>promote_prefix\<close> of \<^verbatim>\<open>s5_fs/src/actor/sharding.rs\<close> with the routing of \<^verbatim>\<open>actor.rs\<close>. After a promotion every file is found
    where the actors look for it, unless it has the name of the prefix.
  \<^item> \<open>Blobs_Server\<close>, \<open>Blobs_Client\<close>: \<^verbatim>\<open>s5_blobs/src\<close>. Access control, upload and download, deletion by pins; the
    client, the store on a remote node and the fetcher over several sources. The locale \<open>blobs_node\<close> is a server on a
    node world, interpreted on a node in memory; the client's laws are proved in it too.
  \<^item> \<open>Client_Keys\<close>: \<^verbatim>\<open>bindings/s5_client/src\<close>. Encryption formats read back, no two chunks share a nonce, and a root
    secret recovers the keys of its seed phrase.
  \<^item> \<open>S5_Client\<close>, \<open>Root_Session\<close>, \<open>Client_Roundtrip\<close>: \<^verbatim>\<open>bindings/s5_wasm/src\<close>, \<^verbatim>\<open>bindings/s5_flutter/src/api.rs\<close>. The
    operations the two clients share are written once over a table of what differs (\<open>client_target\<close>), each client is an
    instance. A file uploaded through a client downloads unchanged, in the session and on a second device.
  \<^item> \<open>Fuse_Fs\<close>, \<open>Fuse_Roundtrip\<close>: \<^verbatim>\<open>s5_fuse/src\<close>. The mount's inodes, caches and open files under every request of the
    kernel; a handler is an operation over the mount and the world. Every reachable mount is well-formed, a read-only
    one changes nothing, and a file written through a mount reads back.
  \<^item> \<open>Local_Store\<close>: \<^verbatim>\<open>blob_stores/local/src\<close>. The store on a directory implements a map from keys to contents, keeps the
    locale \<open>reliable_store\<close>, and so the theorems on blobs hold on it.
  \<^item> \<open>File_World\<close>, \<open>Importer_Local\<close>, \<open>Importer_Http\<close>: \<^verbatim>\<open>importers\<close>. The locales \<open>file_world\<close> and \<open>saving_world\<close> say what the
    programs on a file system need of it. Importing a directory makes the file system a mirror of it; a crawl stays below
    its base address, and returns on a finite site whose links have no cycle, even with one permit.
  \<^item> \<open>S3_Store\<close>, \<open>Sia_Store\<close>: \<^verbatim>\<open>blob_stores/s3/src\<close>, \<^verbatim>\<open>blob_stores/sia/src\<close>. The stores on remote services; what a service promises
    is in the locales \<open>s3_service\<close> and \<open>sia_service\<close>, interpreted on services in memory. What the store on a bucket does
    with an object that is missing depends on whether the crate makes an error of a failed request, a parameter of its locale; the parts of an
    object it can ask for read back. Every shard of a Sia location names the host that keeps it, for up to 256 hosts.
  \<^item> \<open>Node_Sync\<close>: \<^verbatim>\<open>s5_node/src/sync.rs\<close> and \<^verbatim>\<open>DirContext::open_local_root\<close>. The locale \<open>sync_end\<close> is a file system that merges and saves a
    snapshot; the root in a local file and the encrypted root on a remote node are two of them, \<open>sync_pair\<close> is a round between them. A run
    brings both to the merge of their directories.
  \<^item> \<open>Node_Config\<close>: \<^verbatim>\<open>s5_node/src/config.rs\<close>, \<^verbatim>\<open>identity.rs\<close>, \<^verbatim>\<open>lib.rs\<close>, \<^verbatim>\<open>fuse.rs\<close>. The start of a node from its configuration: what it serves
    and to whom, when a registry can be created, which key it has, and the commands of its mounts.
  \<^item> \<open>Cli\<close>: \<^verbatim>\<open>s5_cli/src\<close>, the commands on blobs, snapshots and imports. Collecting garbage never breaks what the verification of the
    store checks; it sees only the pins of the redb database, whatever registry is configured.

  \<^bold>\<open>Behaviour the theorems show to be surprising.\<close> A file under a path prefix is lost when its directory is split and its first component hashes elsewhere; a
  file with the name of a promoted prefix is hidden; a
  missing root file makes the collector ignore the snapshots; deleting one of two equal snapshots removes the pin of
  the other; a stream-typed message can roll a registry entry back; a mismatched upload deletes a blob that others
  have pinned; a remote import of a blob that others have stored cannot be read back, and one of 64 KiB or more fails; a denied download counts as a
  blob; a second device with the same secret never syncs; a split directory is not pushed; a Sia store reads whole objects only; with the
  default features of its crate no new blob can be imported into S3, and an empty object cannot be read; a quorum that cannot be met is accepted. Each is a theorem about the definitions that model the code.

  \<^bold>\<open>Termination and fuel.\<close> Every loop is a total function, by structural recursion or a measure, but for these:
  \<^verbatim>\<open>TeeStream::poll_next\<close> and its consumer, the search for a fresh snapshot name, and the loop over the chunks of an
  encrypted download are \<^theory_text>\<open>partial_function (option)\<close> with theorems that they return; the mutual recursion of \<^verbatim>\<open>optimize_dir_structure\<close> takes fuel, and its caller gives \<open>path_fuel\<close>, one more than the length of the longest
  path, which is enough because every level strips a component from the paths (\<open>path_fuel_enough\<close>). The crawler of a web
  server is a partial function too: it returns on finite sites without cycles, and a theorem shows that pages which link to
  each other keep it running for ever. The client that follows listing cursors has fuel for its requests; the theorem says how much is enough.

  \<^bold>\<open>Not modelled.\<close> Interleavings of actors: a message to another actor is delivered before the sender goes on, one
  of the orders of the program. The concurrency of the importers: entries and links are taken one
  after another, and the limit on open entries of the local importer has no effect. Failures of the database engine of redb and of the disk. The derived CBOR instances.
  The node in memory that the example of a synchronisation runs on does not pin the heads of the local file system. The ticks of a
  continuous sync: a job has the round that each tick runs. The text of a configuration file. The CBOR value type, the parsing of the
  command line and the printed tree, the generated Flutter bridge, debug printing, test support and the experiments.
\<close>

end
